(* ===== verification/Prelude.thy ===== *)
theory Prelude
  imports Main "HOL-Library.Char_ord" "HOL-Library.List_Lexorder" "HOL-Library.Product_Lexorder"
begin

text \<open>
  What every component shares.

  \<^item> Fallible, stateful Go code is a function of type \<open>act\<close>: it takes the state and returns
    either an error (\<open>Inl\<close>) or a value (\<open>Inr\<close>), together with the new state. \<open>andthen\<close>
    sequences two such functions the way the Go idiom \<open>if err != nil { return err }\<close> does.
  \<^item> Everything the code cannot decide itself is read from the record \<open>env\<close>: whether an external
    call (a database statement, a runtime call) fails, whether the context is cancelled, the
    clock, and fresh identifiers. Each such reading consumes one number of \<open>step\<close>, so a script
    of outcomes is a function of the step number and a theorem quantified over the state covers
    every pattern of failures.
  \<^item> \<open>transaction\<close> is a database transaction on the rest of the state: an error rolls every table
    back and keeps only the consumed steps.
\<close>

named_theorems act_simps \<open>equations of the action combinators\<close>

section \<open>Actions\<close>

type_synonym ('s, 'e, 'a) act = "'s \<Rightarrow> ('e + 'a) \<times> 's"

definition return_ok :: "'a \<Rightarrow> ('s, 'e, 'a) act" where
  "return_ok a s = (Inr a, s)"

definition raise :: "'e \<Rightarrow> ('s, 'e, 'a) act" where
  "raise e s = (Inl e, s)"

definition andthen :: "('s, 'e, 'a) act \<Rightarrow> ('a \<Rightarrow> ('s, 'e, 'b) act) \<Rightarrow> ('s, 'e, 'b) act" where
  "andthen m f s = (case m s of (Inl e, s') \<Rightarrow> (Inl e, s') | (Inr a, s') \<Rightarrow> f a s')"

definition guard :: "'e \<Rightarrow> bool \<Rightarrow> ('s, 'e, unit) act" where
  "guard e b s = (if b then (Inr (), s) else (Inl e, s))"

definition modify :: "('s \<Rightarrow> 's) \<Rightarrow> ('s, 'e, unit) act" where
  "modify f s = (Inr (), f s)"

definition query :: "('s \<Rightarrow> 'a) \<Rightarrow> ('s, 'e, 'a) act" where
  "query f s = (Inr (f s), s)"

text \<open>\<open>attempt m\<close> runs \<open>m\<close> and hands its outcome over as a value: the Go code looks at
  \<open>err\<close> and goes on.\<close>

definition attempt :: "('s, 'e, 'a) act \<Rightarrow> ('s, 'f, 'e + 'a) act" where
  "attempt m s = (case m s of (r, s') \<Rightarrow> (Inr r, s'))"

definition map_error :: "('e \<Rightarrow> 'f) \<Rightarrow> ('s, 'e, 'a) act \<Rightarrow> ('s, 'f, 'a) act" where
  "map_error g m s = (case m s of (Inl e, s') \<Rightarrow> (Inl (g e), s') | (Inr a, s') \<Rightarrow> (Inr a, s'))"

lemma map_error_eq_Inr [simp]: "map_error g m s = (Inr a, s') \<longleftrightarrow> m s = (Inr a, s')"
  by (auto simp: map_error_def split: prod.splits sum.splits)

lemma map_error_eq_Inl [simp]: "map_error g m s = (Inl e, s') \<longleftrightarrow> (\<exists>e0. m s = (Inl e0, s') \<and> e = g e0)"
  by (auto simp: map_error_def split: prod.splits sum.splits)

lemma return_ok_simp [simp, act_simps]: "return_ok a s = (Inr a, s)"
  by (simp add: return_ok_def)

lemma raise_simp [simp, act_simps]: "raise e s = (Inl e, s)"
  by (simp add: raise_def)

lemma guard_simp [act_simps]: "guard e b s = (if b then (Inr (), s) else (Inl e, s))"
  by (simp add: guard_def)

lemma modify_simp [simp, act_simps]: "modify f s = (Inr (), f s)"
  by (simp add: modify_def)

lemma query_simp [simp, act_simps]: "query f s = (Inr (f s), s)"
  by (simp add: query_def)

lemma attempt_simp [act_simps]: "attempt m s = (Inr (fst (m s)), snd (m s))"
  by (simp add: attempt_def split: prod.split)

lemma andthen_Inr [simp]: "m s = (Inr a, s') \<Longrightarrow> andthen m f s = f a s'"
  by (simp add: andthen_def)

lemma andthen_Inl [simp]: "m s = (Inl e, s') \<Longrightarrow> andthen m f s = (Inl e, s')"
  by (simp add: andthen_def)

lemma andthen_eq_Inr_iff [act_simps]:
  "andthen m f s = (Inr b, s') \<longleftrightarrow> (\<exists>a s1. m s = (Inr a, s1) \<and> f a s1 = (Inr b, s'))"
  by (auto simp: andthen_def split: prod.splits sum.splits)

lemma andthen_eq_Inl_iff:
  "andthen m f s = (Inl e, s') \<longleftrightarrow>
     m s = (Inl e, s') \<or> (\<exists>a s1. m s = (Inr a, s1) \<and> f a s1 = (Inl e, s'))"
  by (auto simp: andthen_def split: prod.splits sum.splits)

lemma andthen_InrE:
  assumes "andthen m f s = (Inr b, s')"
  obtains a s1 where "m s = (Inr a, s1)" and "f a s1 = (Inr b, s')"
  using assms by (auto simp: andthen_eq_Inr_iff)

lemma andthen_assoc: "andthen (andthen m f) g = andthen m (\<lambda>a. andthen (f a) g)"
  by (rule ext) (simp add: andthen_def split: prod.split sum.split)

lemma guard_eq_Inr [simp]: "guard e b s = (Inr u, s') \<longleftrightarrow> b \<and> s' = s"
  by (auto simp: guard_def)

lemma guard_eq_Inl [simp]: "guard e b s = (Inl e', s') \<longleftrightarrow> \<not> b \<and> e' = e \<and> s' = s"
  by (auto simp: guard_def)

lemma guard_True [simp]: "guard e True s = (Inr (), s)"
  by (simp add: guard_def)

lemma guard_False [simp]: "guard e False s = (Inl e, s)"
  by (simp add: guard_def)

section \<open>The environment\<close>

record env =
  step :: nat
  fault :: "nat \<Rightarrow> bool"
  cancelled :: "nat \<Rightarrow> bool"
  clock :: "nat \<Rightarrow> int"
  fresh :: "nat \<Rightarrow> string"

definition external :: "'e \<Rightarrow> ('s env_scheme, 'e, unit) act" where
  "external e s =
     (if fault s (step s) then (Inl e, s\<lparr>step := Suc (step s)\<rparr>)
      else (Inr (), s\<lparr>step := Suc (step s)\<rparr>))"

definition ctx_err :: "'e \<Rightarrow> ('s env_scheme, 'e, unit) act" where
  "ctx_err e s =
     (if cancelled s (step s) then (Inl e, s\<lparr>step := Suc (step s)\<rparr>)
      else (Inr (), s\<lparr>step := Suc (step s)\<rparr>))"

definition read_now :: "('s env_scheme, 'e, int) act" where
  "read_now s = (Inr (clock s (step s)), s\<lparr>step := Suc (step s)\<rparr>)"

definition new_uuid :: "('s env_scheme, 'e, string) act" where
  "new_uuid s = (Inr (fresh s (step s)), s\<lparr>step := Suc (step s)\<rparr>)"

lemma external_eq_Inr [simp]:
  "external e s = (Inr u, s') \<longleftrightarrow> \<not> fault s (step s) \<and> s' = s\<lparr>step := Suc (step s)\<rparr>"
  by (auto simp: external_def)

lemma external_eq_Inl [simp]:
  "external e s = (Inl e', s') \<longleftrightarrow> fault s (step s) \<and> e' = e \<and> s' = s\<lparr>step := Suc (step s)\<rparr>"
  by (auto simp: external_def)

lemma ctx_err_eq_Inr [simp]:
  "ctx_err e s = (Inr u, s') \<longleftrightarrow> \<not> cancelled s (step s) \<and> s' = s\<lparr>step := Suc (step s)\<rparr>"
  by (auto simp: ctx_err_def)

lemma ctx_err_eq_Inl [simp]:
  "ctx_err e s = (Inl e', s') \<longleftrightarrow> cancelled s (step s) \<and> e' = e \<and> s' = s\<lparr>step := Suc (step s)\<rparr>"
  by (auto simp: ctx_err_def)

lemma read_now_simp [simp, act_simps]:
  "read_now s = (Inr (clock s (step s)), s\<lparr>step := Suc (step s)\<rparr>)"
  by (simp add: read_now_def)

lemma new_uuid_simp [simp, act_simps]:
  "new_uuid s = (Inr (fresh s (step s)), s\<lparr>step := Suc (step s)\<rparr>)"
  by (simp add: new_uuid_def)

text \<open>A call under \<open>context.Background()\<close>, which is never cancelled.\<close>

definition background :: "('s env_scheme, 'e, 'a) act \<Rightarrow> ('s env_scheme, 'e, 'a) act" where
  "background m s =
     (case m (s\<lparr>cancelled := (\<lambda>_. False)\<rparr>) of (r, s') \<Rightarrow> (r, s'\<lparr>cancelled := cancelled s\<rparr>))"

text \<open>A script with no failure and no cancellation, for executing an operation.\<close>

definition calm :: "'s env_scheme \<Rightarrow> bool" where
  "calm s \<longleftrightarrow> (\<forall>n. \<not> fault s n) \<and> (\<forall>n. \<not> cancelled s n)"

lemma calm_step [simp]: "calm (s\<lparr>step := n\<rparr>) = calm s"
  by (simp add: calm_def)

text \<open>Only environment steps were consumed between two states: every table is as it was.\<close>

definition only_steps :: "'s env_scheme \<Rightarrow> 's env_scheme \<Rightarrow> bool" where
  "only_steps s s' \<longleftrightarrow> (\<exists>n. s' = s\<lparr>step := n\<rparr>)"

lemma only_steps_refl [simp]: "only_steps s s"
  by (auto simp: only_steps_def intro: exI [of _ "step s"])

lemma only_steps_step [simp]:
  "only_steps s (s'\<lparr>step := n\<rparr>) = only_steps s s'" "only_steps (s\<lparr>step := n\<rparr>) s' = only_steps s s'"
  by (auto simp: only_steps_def) (metis env.surjective env.update_convs(1))+

lemma only_steps_trans: "only_steps s s1 \<Longrightarrow> only_steps s1 s2 \<Longrightarrow> only_steps s s2"
  by (auto simp: only_steps_def)

lemma only_steps_calm: "only_steps s s' \<Longrightarrow> calm s' = calm s"
  by (auto simp: only_steps_def calm_def)

lemma only_steps_env: "only_steps s s' \<Longrightarrow> clock s' = clock s \<and> fault s' = fault s \<and>
    cancelled s' = cancelled s \<and> fresh s' = fresh s"
  by (auto simp: only_steps_def)

text \<open>No operation changes the script itself.\<close>

definition same_script :: "'s env_scheme \<Rightarrow> 's env_scheme \<Rightarrow> bool" where
  "same_script s s' \<longleftrightarrow> fault s' = fault s \<and> cancelled s' = cancelled s \<and> clock s' = clock s \<and> fresh s' = fresh s"

lemma same_script_trans: "same_script s s1 \<Longrightarrow> same_script s1 s2 \<Longrightarrow> same_script s s2"
  by (simp add: same_script_def)

lemma same_script_calm: "same_script s s' \<Longrightarrow> calm s' = calm s"
  by (simp add: same_script_def calm_def)

section \<open>Transactions\<close>

text \<open>
  \<open>Begin\<close>, the statements, \<open>Commit\<close>: the first error rolls back, which restores every table;
  only the environment's step survives. A failing \<open>Commit\<close> leaves the tables as they were.
\<close>

definition transaction :: "'e \<Rightarrow> ('s env_scheme, 'e, 'a) act \<Rightarrow> ('s env_scheme, 'e, 'a) act" where
  "transaction e body s =
     (case andthen (external e)
             (\<lambda>_. andthen body (\<lambda>a. andthen (external e) (\<lambda>_. return_ok a))) s of
        (Inl err, s') \<Rightarrow> (Inl err, s\<lparr>step := step s'\<rparr>)
      | (Inr a, s') \<Rightarrow> (Inr a, s'))"

lemma transaction_rollback: "transaction e body s = (Inl err, s') \<Longrightarrow> only_steps s s'"
  by (auto simp: transaction_def only_steps_def split: prod.splits sum.splits)

lemma transaction_eq_Inr:
  "transaction e body s = (Inr a, s') \<longleftrightarrow>
     \<not> fault s (step s) \<and>
     (\<exists>s1. body (s\<lparr>step := Suc (step s)\<rparr>) = (Inr a, s1) \<and> \<not> fault s1 (step s1) \<and>
           s' = s1\<lparr>step := Suc (step s1)\<rparr>)"
  by (auto simp: transaction_def andthen_def external_def split: prod.splits sum.splits if_splits)

section \<open>What an action leaves alone\<close>

text \<open>\<open>keeps v m\<close>: whatever its outcome, \<open>m\<close> does not change what \<open>v\<close> reads of the state. The rules
  follow the structure of an action, so most operations need no more than them.\<close>

named_theorems keeps_intros \<open>rules for keeps, one per combinator\<close>

definition keeps :: "('s \<Rightarrow> 'v) \<Rightarrow> ('s, 'e, 'a) act \<Rightarrow> bool" where
  "keeps v m \<longleftrightarrow> (\<forall>s. v (snd (m s)) = v s)"

definition step_free :: "('s env_scheme \<Rightarrow> 'v) \<Rightarrow> bool" where
  "step_free v \<longleftrightarrow> (\<forall>s n. v (s\<lparr>step := n\<rparr>) = v s)"

lemma keepsD: "keeps v m \<Longrightarrow> m s = (r, s') \<Longrightarrow> v s' = v s"
  unfolding keeps_def by (metis snd_conv)

lemma keeps_basic [keeps_intros]:
  "keeps v (return_ok a)" "keeps v (raise e)" "keeps v (guard e b)" "keeps v (query f)"
  by (simp_all add: keeps_def guard_def)

lemma keeps_modify [keeps_intros]: "(\<And>s. v (f s) = v s) \<Longrightarrow> keeps v (modify f)"
  by (simp add: keeps_def)

lemma keeps_env [keeps_intros]:
  "step_free v \<Longrightarrow> keeps v (external e)" "step_free v \<Longrightarrow> keeps v (ctx_err e)"
  "step_free v \<Longrightarrow> keeps v read_now" "step_free v \<Longrightarrow> keeps v new_uuid"
  by (simp_all add: keeps_def step_free_def external_def ctx_err_def)

lemma keeps_andthen [keeps_intros]:
  assumes "keeps v m" and "\<And>a. keeps v (f a)"
  shows "keeps v (andthen m f)"
  unfolding keeps_def
proof
  fix s
  obtain r s1 where "m s = (r, s1)" by fastforce
  with keepsD [OF assms(1)] assms(2) show "v (snd (andthen m f s)) = v s"
    by (cases r) (auto simp: andthen_def keeps_def)
qed

lemma keeps_transaction [keeps_intros]:
  assumes "step_free v" and "keeps v body"
  shows "keeps v (transaction e body)"
  unfolding keeps_def
proof
  fix s
  have "keeps v (andthen (external e) (\<lambda>_. andthen body (\<lambda>a. andthen (external e) (\<lambda>_. return_ok a))))"
    by (intro keeps_intros assms)
  then show "v (snd (transaction e body s)) = v s"
    using assms(1) by (auto simp: keeps_def step_free_def transaction_def split: prod.splits sum.splits)
      (metis snd_conv)
qed

lemma keeps_cases [keeps_intros]:
  "keeps v m1 \<Longrightarrow> keeps v m2 \<Longrightarrow> keeps v (if b then m1 else m2)"
  "keeps v n \<Longrightarrow> (\<And>x. keeps v (f x)) \<Longrightarrow> keeps v (case opt of None \<Rightarrow> n | Some x \<Rightarrow> f x)"
  "(\<And>a b. keeps v (g a b)) \<Longrightarrow> keeps v (case p of (a, b) \<Rightarrow> g a b)"
  "(\<And>x. keeps v (h x)) \<Longrightarrow> keeps v (Let y h)"
  by (auto split: option.split prod.split)

lemma keeps_map_error [keeps_intros]: "keeps v m \<Longrightarrow> keeps v (map_error g m)"
  by (auto simp: keeps_def map_error_def split: prod.split sum.split) (metis snd_conv)+

lemma keeps_attempt [keeps_intros]: "keeps v m \<Longrightarrow> keeps v (attempt m)"
  by (simp add: keeps_def attempt_simp)

definition script :: "'s env_scheme \<Rightarrow> (nat \<Rightarrow> bool) \<times> (nat \<Rightarrow> bool) \<times> (nat \<Rightarrow> int) \<times> (nat \<Rightarrow> string)" where
  "script s = (fault s, cancelled s, clock s, fresh s)"

lemma script_step_free [simp]: "step_free script"
  by (simp add: step_free_def script_def)

lemma script_calm: "script s' = script s \<Longrightarrow> calm s' = calm s"
  by (simp add: script_def calm_def)

section \<open>Tables\<close>

text \<open>
  A table is the list of its rows in the order of insertion. \<open>update_where\<close> is
  \<open>UPDATE ... SET f WHERE P\<close>; the number of rows it affects is the number it matches
  (SQLite, the only database the program opens).
\<close>

definition update_where :: "('r \<Rightarrow> bool) \<Rightarrow> ('r \<Rightarrow> 'r) \<Rightarrow> 'r list \<Rightarrow> 'r list" where
  "update_where P f rows = map (\<lambda>r. if P r then f r else r) rows"

definition count_where :: "('r \<Rightarrow> bool) \<Rightarrow> 'r list \<Rightarrow> nat" where
  "count_where P rows = length (filter P rows)"

lemma update_where_simps [simp]:
  "update_where P f [] = []"
  "update_where P f (r # rows) = (if P r then f r else r) # update_where P f rows"
  by (simp_all add: update_where_def)

lemma length_update_where [simp]: "length (update_where P f rows) = length rows"
  by (simp add: update_where_def)

lemma set_update_where:
  "x \<in> set (update_where P f rows) \<longleftrightarrow> (\<exists>r \<in> set rows. x = (if P r then f r else r))"
  by (auto simp: update_where_def)

lemma update_where_hit: "r \<in> set rows \<Longrightarrow> P r \<Longrightarrow> f r \<in> set (update_where P f rows)"
  by (auto simp: set_update_where)

lemma map_update_where:
  "(\<And>r. r \<in> set rows \<Longrightarrow> P r \<Longrightarrow> k (f r) = k r) \<Longrightarrow> map k (update_where P f rows) = map k rows"
  by (auto simp: update_where_def)

lemma update_where_none: "(\<And>r. r \<in> set rows \<Longrightarrow> \<not> P r) \<Longrightarrow> update_where P f rows = rows"
  by (auto simp: update_where_def intro: map_idI)

lemma count_where_simps [simp]:
  "count_where P [] = 0"
  "count_where P (r # rows) = (if P r then Suc (count_where P rows) else count_where P rows)"
  by (simp_all add: count_where_def)

lemma count_where_eq_0 [simp]: "count_where P rows = 0 \<longleftrightarrow> (\<forall>r \<in> set rows. \<not> P r)"
  by (auto simp: count_where_def filter_empty_conv)

lemma count_where_append [simp]: "count_where P (xs @ ys) = count_where P xs + count_where P ys"
  by (simp add: count_where_def)

lemma count_where_list_update:
  "i < length xs \<Longrightarrow>
   count_where P (xs[i := x]) + (if P (xs ! i) then 1 else 0) = count_where P xs + (if P x then 1 else 0)"
proof (induction xs arbitrary: i)
  case (Cons y ys)
  then show ?case by (cases i) auto
qed simp

lemma count_where_1D: "count_where P rows = 1 \<Longrightarrow> \<exists>r \<in> set rows. P r"
  using count_where_eq_0 [of P rows] by (auto simp del: count_where_eq_0)

lemma count_where_pos: "0 < count_where P rows \<Longrightarrow> \<exists>r \<in> set rows. P r"
  using count_where_eq_0 [of P rows] by (metis less_irrefl_nat)

lemma count_where_le: "count_where P rows \<le> length rows"
  by (simp add: count_where_def)

lemma find_SomeD: "List.find P rows = Some r \<Longrightarrow> P r \<and> r \<in> set rows"
  by (induction rows) (auto split: if_splits)

lemma find_NoneD: "List.find P rows = None \<Longrightarrow> r \<in> set rows \<Longrightarrow> \<not> P r"
  by (auto simp: find_None_iff)

text \<open>In a table whose key is unique, a lookup by key finds exactly the row that has it.\<close>

lemma find_distinct_key:
  assumes "distinct (map k rows)" and "r \<in> set rows"
  shows "List.find (\<lambda>x. k x = k r) rows = Some r"
  using assms by (induction rows) (auto simp: rev_image_eqI)

lemma distinct_key_eq:
  "distinct (map k rows) \<Longrightarrow> x \<in> set rows \<Longrightarrow> y \<in> set rows \<Longrightarrow> k x = k y \<Longrightarrow> x = y"
  by (metis find_distinct_key option.inject)

lemma count_where_key_le_1: "distinct (map k rows) \<Longrightarrow> (\<And>r. P r \<Longrightarrow> k r = c) \<Longrightarrow> count_where P rows \<le> 1"
proof (induction rows)
  case Nil
  then show ?case by simp
next
  case (Cons r rows)
  show ?case
  proof (cases "P r")
    case True
    then have "\<forall>x \<in> set rows. \<not> P x"
      using Cons.prems by (metis distinct.simps(2) image_eqI list.set_map list.simps(9))
    then have "count_where P rows = 0" by simp
    with True show ?thesis by simp
  next
    case False
    with Cons show ?thesis by simp
  qed
qed

section \<open>Durations\<close>

text \<open>\<open>time.Duration\<close> counts nanoseconds.\<close>

definition seconds :: "int \<Rightarrow> int" where
  "seconds n = n * 1000000000"

definition minutes :: "int \<Rightarrow> int" where
  "minutes n = seconds (60 * n)"

definition hours :: "int \<Rightarrow> int" where
  "hours n = minutes (60 * n)"

lemmas duration_defs = seconds_def minutes_def hours_def

end
