(* ===== verification/Go_Strings.thy ===== *)
theory Go_Strings
  imports Prelude
begin

text \<open>
  The parts of Go's string library the modelled code uses. A Go string is a sequence of bytes, so
  it is a \<open>string\<close> here (a \<open>char\<close> is one byte) and a literal with a non-ASCII character would be
  its UTF-8 bytes. \<open>trim_space\<close> is \<open>strings.TrimSpace\<close> with the whitespace of
  \<open>unicode.IsSpace\<close>; \<open>to_lower\<close> lowers the ASCII letters, which is all the modelled code
  passes to it (hexadecimal digests, host addresses, directory names).
\<close>

section \<open>White space\<close>

definition go_spaces :: "string list" where
  "go_spaces =
     map (\<lambda>n. [char_of n]) [9, 10, 11, 12, 13, 32 :: nat] @
     map (map char_of)
       ([[0xC2, 0x85], [0xC2, 0xA0], [0xE1, 0x9A, 0x80]] @
        map (\<lambda>n. [0xE2, 0x80, n]) [0x80 ..< 0x8B] @
        [[0xE2, 0x80, 0xA8], [0xE2, 0x80, 0xA9], [0xE2, 0x80, 0xAF], [0xE2, 0x81, 0x9F],
         [0xE3, 0x80, 0x80 :: nat]])"

text \<open>The same list, spelled out for evaluation.\<close>

lemma go_spaces_code [code]:
  "go_spaces =
    [[CHR 0x09], [CHR 0x0A], [CHR 0x0B], [CHR 0x0C], [CHR 0x0D], [CHR 0x20],
     [CHR 0xC2, CHR 0x85], [CHR 0xC2, CHR 0xA0], [CHR 0xE1, CHR 0x9A, CHR 0x80],
     [CHR 0xE2, CHR 0x80, CHR 0x80], [CHR 0xE2, CHR 0x80, CHR 0x81], [CHR 0xE2, CHR 0x80, CHR 0x82],
     [CHR 0xE2, CHR 0x80, CHR 0x83], [CHR 0xE2, CHR 0x80, CHR 0x84], [CHR 0xE2, CHR 0x80, CHR 0x85],
     [CHR 0xE2, CHR 0x80, CHR 0x86], [CHR 0xE2, CHR 0x80, CHR 0x87], [CHR 0xE2, CHR 0x80, CHR 0x88],
     [CHR 0xE2, CHR 0x80, CHR 0x89], [CHR 0xE2, CHR 0x80, CHR 0x8A],
     [CHR 0xE2, CHR 0x80, CHR 0xA8], [CHR 0xE2, CHR 0x80, CHR 0xA9], [CHR 0xE2, CHR 0x80, CHR 0xAF],
     [CHR 0xE2, CHR 0x81, CHR 0x9F], [CHR 0xE3, CHR 0x80, CHR 0x80]]"
  by (simp add: go_spaces_def char_of_def upt_rec bit_0)

definition has_prefix :: "string \<Rightarrow> string \<Rightarrow> bool" where
  "has_prefix s p \<longleftrightarrow> take (length p) s = p"

definition has_suffix :: "string \<Rightarrow> string \<Rightarrow> bool" where
  "has_suffix s p \<longleftrightarrow> has_prefix (rev s) (rev p)"

fun trim_left_with :: "string list \<Rightarrow> nat \<Rightarrow> string \<Rightarrow> string" where
  "trim_left_with ws 0 s = s"
| "trim_left_with ws (Suc fuel) s =
     (case List.find (has_prefix s) ws of
        None \<Rightarrow> s
      | Some w \<Rightarrow> trim_left_with ws fuel (drop (length w) s))"

text \<open>Each turn removes at least one byte, so as much fuel as there are bytes is enough.\<close>

definition trim_left :: "string \<Rightarrow> string" where
  "trim_left s = trim_left_with go_spaces (length s) s"

definition trim_right :: "string \<Rightarrow> string" where
  "trim_right s = rev (trim_left_with (map rev go_spaces) (length s) (rev s))"

definition trim_space :: "string \<Rightarrow> string" where
  "trim_space s = trim_right (trim_left s)"

lemma has_prefix_Nil [simp]: "has_prefix [] p \<longleftrightarrow> p = []"
  by (auto simp: has_prefix_def)

lemma go_spaces_nonempty: "w \<in> set go_spaces \<Longrightarrow> w \<noteq> []"
  by (auto simp: go_spaces_def)

lemma trim_left_with_Nil [simp]: "[] \<notin> set ws \<Longrightarrow> trim_left_with ws n [] = []"
  by (cases n) (auto split: option.split dest: find_SomeD)

lemma trim_left_with_fuel:
  assumes "[] \<notin> set ws" and "length s \<le> m" and "m \<le> n"
  shows "trim_left_with ws m s = trim_left_with ws n s"
  using assms(2,3)
proof (induction m arbitrary: n s)
  case 0
  with assms(1) show ?case by simp
next
  case (Suc m)
  then obtain n' where n: "n = Suc n'" and "m \<le> n'" by (cases n) auto
  show ?case
  proof (cases "List.find (has_prefix s) ws")
    case None
    with n show ?thesis by simp
  next
    case (Some w)
    then have "w \<in> set ws" and "has_prefix s w" by (auto dest: find_SomeD)
    with assms(1) have "w \<noteq> []" by auto
    then have "length (drop (length w) s) \<le> m \<or> s = []"
      using Suc.prems(1) by (cases w; cases s) auto
    with Suc.IH \<open>m \<le> n'\<close> Some n assms(1) show ?thesis by (auto split: option.split)
  qed
qed

text \<open>The result starts with no white space, and trimming twice is trimming once.\<close>

lemma trim_left_with_no_prefix:
  assumes "[] \<notin> set ws" and "length s \<le> n" and "w \<in> set ws"
  shows "\<not> has_prefix (trim_left_with ws n s) w"
  using assms(2)
proof (induction n arbitrary: s)
  case 0
  with assms show ?case by auto
next
  case (Suc n)
  show ?case
  proof (cases "List.find (has_prefix s) ws")
    case None
    then have "\<not> has_prefix s w" using assms(3) by (rule find_NoneD)
    with None show ?thesis by simp
  next
    case (Some v)
    with assms(1) have "v \<noteq> []" by (metis find_SomeD)
    then have "length (drop (length v) s) \<le> n \<or> s = []"
      using Suc.prems by (cases v; cases s) auto
    with Suc.IH Some assms show ?thesis by auto
  qed
qed

lemma trim_left_with_id: "(\<And>w. w \<in> set ws \<Longrightarrow> \<not> has_prefix s w) \<Longrightarrow> trim_left_with ws n s = s"
  by (cases n) (auto split: option.split dest: find_SomeD)

lemma trim_left_with_suffix: "\<exists>p. s = p @ trim_left_with ws n s"
proof (induction n arbitrary: s)
  case (Suc n)
  show ?case
  proof (cases "List.find (has_prefix s) ws")
    case (Some w)
    obtain p where "drop (length w) s = p @ trim_left_with ws n (drop (length w) s)"
      using Suc.IH by blast
    then have "s = (take (length w) s @ p) @ trim_left_with ws n (drop (length w) s)"
      by (metis append.assoc append_take_drop_id)
    with Some show ?thesis by (metis option.simps(5) trim_left_with.simps(2))
  qed auto
qed simp

lemma has_prefix_append: "has_prefix s w \<Longrightarrow> has_prefix (s @ t) w"
  by (auto simp: has_prefix_def) (metis length_take linorder_linear min.absorb2 take_all_iff)

lemma trim_space_no_left: "w \<in> set go_spaces \<Longrightarrow> \<not> has_prefix (trim_space s) w"
proof
  assume w: "w \<in> set go_spaces" and p: "has_prefix (trim_space s) w"
  obtain q where "rev (trim_left s) = q @ rev (trim_space s)"
    using trim_left_with_suffix by (metis rev_rev_ident trim_right_def trim_space_def)
  then have "trim_left s = trim_space s @ rev q"
    by (metis rev_append rev_rev_ident)
  with p have "has_prefix (trim_left s) w" by (metis has_prefix_append)
  then show False
    using trim_left_with_no_prefix [of go_spaces s "length s" w] go_spaces_nonempty w
    unfolding trim_left_def by blast
qed

lemma trim_space_no_right: "w \<in> set go_spaces \<Longrightarrow> \<not> has_suffix (trim_space s) w"
  using trim_left_with_no_prefix [of "map rev go_spaces" "rev (trim_left s)" "length (trim_left s)" "rev w"]
    go_spaces_nonempty
  by (auto simp: trim_space_def trim_right_def has_suffix_def)

lemma trim_space_id:
  assumes "\<And>w. w \<in> set go_spaces \<Longrightarrow> \<not> has_prefix s w \<and> \<not> has_suffix s w"
  shows "trim_space s = s"
proof -
  have "trim_left s = s"
    unfolding trim_left_def using assms by (blast intro: trim_left_with_id)
  moreover have "trim_right s = s"
    unfolding trim_right_def using assms
    by (subst trim_left_with_id) (auto simp: has_suffix_def)
  ultimately show ?thesis by (simp add: trim_space_def)
qed

lemma trim_space_idem [simp]: "trim_space (trim_space s) = trim_space s"
  by (rule trim_space_id) (simp add: trim_space_no_left trim_space_no_right)

section \<open>Other functions of package strings\<close>

definition contains_any :: "string \<Rightarrow> string \<Rightarrow> bool" where
  "contains_any s cs \<longleftrightarrow> (\<exists>c \<in> set cs. c \<in> set s)"

definition lower_char :: "char \<Rightarrow> char" where
  "lower_char c =
     (let n = (of_char c :: nat) in if 65 \<le> n \<and> n \<le> 90 then char_of (n + 32) else c)"

definition to_lower :: "string \<Rightarrow> string" where
  "to_lower s = map lower_char s"

text \<open>A literal with non-ASCII characters, by its UTF-8 bytes.\<close>

definition bytes :: "nat list \<Rightarrow> string" where
  "bytes = map char_of"

definition is_digit :: "char \<Rightarrow> bool" where
  "is_digit c = (let n = (of_char c :: nat) in 48 \<le> n \<and> n \<le> 57)"

text \<open>The number a text of decimal digits stands for.\<close>

definition digit_value :: "string \<Rightarrow> nat" where
  "digit_value s = foldl (\<lambda>n c. 10 * n + (of_char c - 48)) 0 s"

text \<open>\<open>%d\<close> of a number that is not negative.\<close>

fun decimal :: "nat \<Rightarrow> string" where
  "decimal n = (if n < 10 then [char_of (48 + n)] else decimal (n div 10) @ [char_of (48 + n mod 10)])"

declare decimal.simps [simp del]

definition nul :: char where "nul = char_of (0 :: nat)"
definition tab :: char where "tab = char_of (9 :: nat)"
definition newline :: char where "newline = char_of (10 :: nat)"
definition carriage_return :: char where "carriage_return = char_of (13 :: nat)"

lemmas control_defs = nul_def tab_def newline_def carriage_return_def

lemma control_chars:
  "nul = CHR 0x00" "tab = CHR 0x09" "newline = CHR 0x0A" "carriage_return = CHR 0x0D"
  by (simp_all add: control_defs char_of_def bit_0)

lemma length_to_lower [simp]: "length (to_lower s) = length s"
  by (simp add: to_lower_def)

lemma lower_char_idem [simp]: "lower_char (lower_char c) = lower_char c"
  by (auto simp: lower_char_def Let_def)

lemma to_lower_idem [simp]: "to_lower (to_lower s) = to_lower s"
  by (simp add: to_lower_def)

section \<open>Runes in UTF-8\<close>

text \<open>The ranges of the bytes of a rune in UTF-8, as Go's \<open>unicode/utf8\<close> accepts them.\<close>

definition utf8_shapes :: "(nat \<times> nat) list list" where
  "utf8_shapes =
     [[(0x00, 0x7F)], [(0xC2, 0xDF), (0x80, 0xBF)],
      [(0xE0, 0xE0), (0xA0, 0xBF), (0x80, 0xBF)], [(0xE1, 0xEC), (0x80, 0xBF), (0x80, 0xBF)],
      [(0xED, 0xED), (0x80, 0x9F), (0x80, 0xBF)], [(0xEE, 0xEF), (0x80, 0xBF), (0x80, 0xBF)],
      [(0xF0, 0xF0), (0x90, 0xBF), (0x80, 0xBF), (0x80, 0xBF)],
      [(0xF1, 0xF3), (0x80, 0xBF), (0x80, 0xBF), (0x80, 0xBF)],
      [(0xF4, 0xF4), (0x80, 0x8F), (0x80, 0xBF), (0x80, 0xBF)]]"

fun has_shape :: "(nat \<times> nat) list \<Rightarrow> string \<Rightarrow> bool" where
  "has_shape [] s = True"
| "has_shape (r # rs) [] = False"
| "has_shape (r # rs) (c # cs) = (fst r \<le> of_char c \<and> of_char c \<le> snd r \<and> has_shape rs cs)"

text \<open>The number of bytes of the rune a string begins with, 0 when it begins with none.\<close>

definition rune_width :: "string \<Rightarrow> nat" where
  "rune_width s =
     (case List.find (\<lambda>shape. has_shape shape s) utf8_shapes of None \<Rightarrow> 0 | Some shape \<Rightarrow> length shape)"

lemma has_shape_length: "has_shape rs s \<Longrightarrow> length rs \<le> length s"
  by (induction rs s rule: has_shape.induct) simp_all

lemma has_shape_low: "has_shape rs s \<Longrightarrow> i < length rs \<Longrightarrow> fst (rs ! i) \<le> of_char (s ! i)"
proof (induction rs s arbitrary: i rule: has_shape.induct)
  case (3 r rs c cs)
  then show ?case by (cases i) simp_all
qed simp_all

lemma rune_width_le: "rune_width s \<le> length s"
  by (auto simp: rune_width_def split: option.split dest!: find_SomeD has_shape_length)

lemma utf8_shapes_low: "shape \<in> set utf8_shapes \<Longrightarrow> length shape \<noteq> 1 \<Longrightarrow> list_all (\<lambda>r. 0x80 \<le> fst r) shape"
  by (auto simp: utf8_shapes_def)

lemma rune_width_bytes:
  assumes "rune_width s \<noteq> 1" and "i < rune_width s"
  shows "0x80 \<le> (of_char (s ! i) :: nat)"
proof -
  from assms obtain shape where shape: "shape \<in> set utf8_shapes" "has_shape shape s" "rune_width s = length shape"
    by (auto simp: rune_width_def split: option.splits dest: find_SomeD)
  with assms have "0x80 \<le> fst (shape ! i)"
    using utf8_shapes_low [of shape] by (simp add: list_all_length)
  with has_shape_low [OF shape(2), of i] shape(3) assms(2) show ?thesis by simp
qed

function valid_utf8 :: "string \<Rightarrow> bool" where
  "valid_utf8 [] = True"
| "valid_utf8 (c # cs) =
     (rune_width (c # cs) \<noteq> 0 \<and> valid_utf8 (drop (rune_width (c # cs) - 1) cs))"
  by pat_completeness auto
termination by (relation "measure length") (auto simp: less_Suc_eq_le)

section \<open>Maps with string keys\<close>

text \<open>A Go map is the list of its entries in ascending order of their keys; where the code ranges over a
  map, this is the order of the model, which is one of the orders Go allows.\<close>

fun put :: "string \<Rightarrow> 'v \<Rightarrow> (string \<times> 'v) list \<Rightarrow> (string \<times> 'v) list" where
  "put k v [] = [(k, v)]"
| "put k v ((k', v') # m) =
     (if k < k' then (k, v) # (k', v') # m
      else if k = k' then (k, v) # m
      else (k', v') # put k v m)"

lemma put_last: "list_all (\<lambda>(k', _). k' < k) m \<Longrightarrow> put k v m = m @ [(k, v)]"
  by (induction m) auto

lemma keys_put: "fst ` set (put k v m) = insert k (fst ` set m)"
  by (induction k v m rule: put.induct) auto

lemma map_of_put [simp]: "map_of (put k v m) = (map_of m)(k \<mapsto> v)"
  by (induction k v m rule: put.induct) (auto simp: fun_eq_iff)

lemma put_sorted: "sorted_wrt (<) (map fst m) \<Longrightarrow> sorted_wrt (<) (map fst (put k v m))"
proof (induction k v m rule: put.induct)
  case (2 k v k' v' m)
  have "\<forall>x \<in> fst ` set (put k v m). k' < x" if "k' < k"
    using that 2(2) keys_put [of k v m] by auto
  with 2 show ?case by auto
qed simp

section \<open>Paths\<close>

text \<open>The elements of a path, and their join by slashes.\<close>

fun split_slash :: "string \<Rightarrow> string list" where
  "split_slash [] = [[]]"
| "split_slash (c # cs) =
     (if c = CHR ''/'' then [] # split_slash cs
      else (case split_slash cs of [] \<Rightarrow> [[c]] | p # ps \<Rightarrow> (c # p) # ps))"

fun join_slash :: "string list \<Rightarrow> string" where
  "join_slash [] = []"
| "join_slash [p] = p"
| "join_slash (p # ps) = p @ ''/'' @ join_slash ps"

end
