(* ===== verification/Operation_Lease.thy ===== *)
theory Operation_Lease
  imports Go_Strings "HOL-Library.Word"
begin

text \<open>
  \<open>internal/operationlease/service.go\<close>: the room operation leases. One row per room holds the
  current owner of the room, the time its lease ends and a fencing token that grows with every
  change of owner. \<open>acquire\<close>, \<open>renew\<close> and \<open>release\<close> are the three methods of \<open>Service\<close>;
  \<open>acquire_once\<close> is the transaction of one attempt. The lemmas show that no live lease is ever
  taken over, that a lost lease stays lost, and that a failed call leaves the table as it was.
\<close>

section \<open>State\<close>

datatype lease_error =
    Lease_Busy
  | Lease_InvalidInput
  | Lease_Lost
  | Lease_Canceled
  | Lease_DB

record lease =
  l_room :: string
  l_id :: string
  l_key :: string
  l_token :: "64 word"
  l_expires :: int

record lease_record =
  lr_room :: string
  lr_id :: string
  lr_key :: string
  lr_token :: "64 word"
  lr_expires :: int
  lr_created :: int
  lr_updated :: int

record lease_db = env +
  lease_rows :: "lease_record list"

definition lease_from_record :: "lease_record \<Rightarrow> lease" where
  "lease_from_record r =
     \<lparr>l_room = lr_room r, l_id = lr_id r, l_key = lr_key r, l_token = lr_token r,
      l_expires = lr_expires r\<rparr>"

definition find_room :: "string \<Rightarrow> lease_record list \<Rightarrow> lease_record option" where
  "find_room room rows = List.find (\<lambda>r. lr_room r = room) rows"

section \<open>Operations\<close>

text \<open>
  The body of one attempt. Its error is \<open>None\<close> where the code rolls back and asks for another
  attempt, \<open>Some e\<close> where it rolls back and returns \<open>e\<close>.
\<close>

definition acquire_tx ::
  "string \<Rightarrow> string \<Rightarrow> int \<Rightarrow> int \<Rightarrow> ('s lease_db_scheme, lease_error option, lease) act" where
  "acquire_tx room key ttl now =
     andthen (external (Some Lease_DB)) (\<lambda>_.
     andthen (query (\<lambda>s. find_room room (lease_rows s))) (\<lambda>found.
       case found of
         None \<Rightarrow>
           andthen new_uuid (\<lambda>uuid.
             let record = \<lparr>lr_room = room, lr_id = uuid, lr_key = key, lr_token = 1,
                           lr_expires = now + ttl, lr_created = now, lr_updated = now\<rparr>
             in andthen (external None) (\<lambda>_.
                andthen (modify (\<lambda>s. s\<lparr>lease_rows := lease_rows s @ [record]\<rparr>)) (\<lambda>_.
                return_ok (lease_from_record record))))
       | Some current \<Rightarrow>
           if lr_expires current > now then
             (if lr_key current \<noteq> key then raise (Some Lease_Busy)
              else return_ok (lease_from_record current))
           else
             andthen new_uuid (\<lambda>uuid.
               let nxt = \<lparr>lr_room = room, lr_id = uuid, lr_key = key,
                          lr_token = lr_token current + 1, lr_expires = now + ttl,
                          lr_created = lr_created current, lr_updated = now\<rparr>;
                   match = (\<lambda>r. lr_room r = room \<and> lr_token r = lr_token current \<and>
                                 lr_expires r \<le> now);
                   upd = (\<lambda>r. r\<lparr>lr_id := lr_id nxt, lr_key := lr_key nxt,
                                  lr_token := lr_token nxt, lr_expires := lr_expires nxt,
                                  lr_updated := lr_updated nxt\<rparr>)
               in andthen (external (Some Lease_DB)) (\<lambda>_.
                  andthen (query (\<lambda>s. count_where match (lease_rows s))) (\<lambda>affected.
                  andthen (guard None (affected = 1)) (\<lambda>_.
                  andthen (modify (\<lambda>s. s\<lparr>lease_rows := update_where match upd (lease_rows s)\<rparr>))
                  (\<lambda>_. return_ok (lease_from_record nxt))))))))"

definition acquire_once ::
  "string \<Rightarrow> string \<Rightarrow> int \<Rightarrow> ('s lease_db_scheme, lease_error, lease option) act" where
  "acquire_once room key ttl =
     andthen read_now (\<lambda>now s.
       case transaction (Some Lease_DB) (acquire_tx room key ttl now) s of
         (Inr lease, s') \<Rightarrow> (Inr (Some lease), s')
       | (Inl None, s') \<Rightarrow> (Inr None, s')
       | (Inl (Some e), s') \<Rightarrow> (Inl e, s'))"

fun acquire_attempts ::
  "nat \<Rightarrow> string \<Rightarrow> string \<Rightarrow> int \<Rightarrow> ('s lease_db_scheme, lease_error, lease) act" where
  "acquire_attempts 0 room key ttl = raise Lease_Busy"
| "acquire_attempts (Suc n) room key ttl =
     andthen (acquire_once room key ttl) (\<lambda>r.
       case r of
         Some lease \<Rightarrow> return_ok lease
       | None \<Rightarrow> andthen (ctx_err Lease_Canceled) (\<lambda>_. acquire_attempts n room key ttl))"

definition valid_ttl :: "int \<Rightarrow> bool" where
  "valid_ttl ttl \<longleftrightarrow> \<not> (ttl < seconds 30 \<or> ttl > minutes 10)"

definition valid_lease_input :: "string \<Rightarrow> string \<Rightarrow> int \<Rightarrow> bool" where
  "valid_lease_input room key ttl \<longleftrightarrow>
     \<not> (room = [] \<or> length room > 255 \<or> key = [] \<or> length key > 128 \<or>
        contains_any (room @ key) [nul, carriage_return, newline]) \<and> valid_ttl ttl"

definition acquire ::
  "string \<Rightarrow> string \<Rightarrow> int \<Rightarrow> ('s lease_db_scheme, lease_error, lease) act" where
  "acquire roomID operationKey ttl =
     (let room = trim_space roomID; key = trim_space operationKey
      in andthen (ctx_err Lease_Canceled) (\<lambda>_.
         andthen (guard Lease_InvalidInput (valid_lease_input room key ttl)) (\<lambda>_.
         acquire_attempts 3 room key ttl)))"

definition same_lease :: "lease \<Rightarrow> lease_record \<Rightarrow> bool" where
  "same_lease l r \<longleftrightarrow>
     lr_room r = l_room l \<and> lr_id r = l_id l \<and> lr_token r = l_token l \<and> lr_key r = l_key l"

definition renew :: "lease \<Rightarrow> int \<Rightarrow> ('s lease_db_scheme, lease_error, lease) act" where
  "renew l ttl =
     andthen (ctx_err Lease_Canceled) (\<lambda>_.
     andthen (guard Lease_InvalidInput (valid_ttl ttl)) (\<lambda>_.
     andthen read_now (\<lambda>now.
       let match = (\<lambda>r. same_lease l r \<and> lr_expires r > now)
       in andthen (external Lease_DB) (\<lambda>_.
          andthen (query (\<lambda>s. count_where match (lease_rows s))) (\<lambda>affected.
          andthen (modify (\<lambda>s. s\<lparr>lease_rows :=
             update_where match (\<lambda>r. r\<lparr>lr_expires := now + ttl, lr_updated := now\<rparr>)
               (lease_rows s)\<rparr>)) (\<lambda>_.
          andthen (guard Lease_Lost (affected = 1)) (\<lambda>_.
          return_ok (l\<lparr>l_expires := now + ttl\<rparr>))))))))"

definition release :: "lease \<Rightarrow> ('s lease_db_scheme, lease_error, unit) act" where
  "release l =
     andthen read_now (\<lambda>now.
     andthen (external Lease_DB) (\<lambda>_.
     andthen (query (\<lambda>s. count_where (same_lease l) (lease_rows s))) (\<lambda>affected.
     andthen (modify (\<lambda>s. s\<lparr>lease_rows :=
        update_where (same_lease l) (\<lambda>r. r\<lparr>lr_expires := now, lr_updated := now\<rparr>)
          (lease_rows s)\<rparr>)) (\<lambda>_.
     guard Lease_Lost (affected = 1)))))"

section \<open>The table's key and its rows\<close>

text \<open>\<open>room_id\<close> is the primary key of the table.\<close>

definition room_keyed :: "lease_record list \<Rightarrow> bool" where
  "room_keyed rows \<longleftrightarrow> distinct (map lr_room rows)"

definition lease_inv :: "'s lease_db_scheme \<Rightarrow> bool" where
  "lease_inv s \<longleftrightarrow> room_keyed (lease_rows s)"

lemma find_room_Some:
  "room_keyed rows \<Longrightarrow> find_room room rows = Some r \<longleftrightarrow> r \<in> set rows \<and> lr_room r = room"
  using find_distinct_key [of lr_room rows r]
  by (auto simp: room_keyed_def find_room_def dest: find_SomeD)

lemma find_room_None: "find_room room rows = None \<longleftrightarrow> (\<forall>r \<in> set rows. lr_room r \<noteq> room)"
  by (auto simp: find_room_def find_None_iff)

lemma find_room_room: "find_room room rows = Some r \<Longrightarrow> lr_room r = room"
  by (auto simp: find_room_def dest: find_SomeD)

text \<open>An update and an insert, as changes of the map from rooms to rows.\<close>

lemma find_room_update:
  assumes "\<And>r. lr_room (f r) = lr_room r"
  shows "find_room room (update_where P f rows) =
           map_option (\<lambda>r. if P r then f r else r) (find_room room rows)"
  unfolding find_room_def by (induction rows) (auto simp: assms)

lemma find_room_snoc:
  "find_room room (rows @ [r]) =
     (case find_room room rows of
        Some x \<Rightarrow> Some x | None \<Rightarrow> if lr_room r = room then Some r else None)"
  unfolding find_room_def by (induction rows) auto

lemma room_keyed_update:
  "(\<And>r. lr_room (f r) = lr_room r) \<Longrightarrow> room_keyed (update_where P f rows) = room_keyed rows"
  by (simp add: room_keyed_def map_update_where)

lemma room_keyed_snoc:
  "room_keyed (rows @ [r]) \<longleftrightarrow> room_keyed rows \<and> find_room (lr_room r) rows = None"
  by (simp add: room_keyed_def find_room_None image_iff) metis

lemma match_one_row:
  assumes "room_keyed rows" and "\<And>r. P r \<Longrightarrow> lr_room r = room"
  shows "count_where P rows = (case find_room room rows of Some r \<Rightarrow> if P r then 1 else 0 | None \<Rightarrow> 0)"
proof -
  have "count_where P rows = 0 \<or> count_where P rows = 1"
    using count_where_key_le_1 [of lr_room rows P room] assms by (auto simp: room_keyed_def le_Suc_eq simp del: count_where_eq_0)
  moreover have "count_where P rows = 0 \<longleftrightarrow> (\<forall>r. find_room room rows = Some r \<longrightarrow> \<not> P r)"
    using assms by (auto simp: find_room_Some)
  ultimately show ?thesis by (cases "find_room room rows") (auto simp del: count_where_eq_0)
qed

section \<open>Abstract leases\<close>

text \<open>
  What a client may rely on: a map from rooms to leases. A live lease is only handed out again
  under its own operation key; an ended one is replaced under the next token.
\<close>

definition abs_leases :: "lease_record list \<Rightarrow> string \<rightharpoonup> lease" where
  "abs_leases rows room = map_option lease_from_record (find_room room rows)"

definition spec_grant :: "string \<Rightarrow> string \<Rightarrow> int \<Rightarrow> int \<Rightarrow> string \<Rightarrow> 64 word \<Rightarrow> lease" where
  "spec_grant room key ttl now uuid token =
     \<lparr>l_room = room, l_id = uuid, l_key = key, l_token = token, l_expires = now + ttl\<rparr>"

definition spec_acquire ::
  "(string \<rightharpoonup> lease) \<Rightarrow> string \<Rightarrow> string \<Rightarrow> int \<Rightarrow> int \<Rightarrow> string \<Rightarrow> (string \<rightharpoonup> lease) \<times> lease option"
where
  "spec_acquire m room key ttl now uuid =
     (case m room of
        None \<Rightarrow> (let l = spec_grant room key ttl now uuid 1 in (m(room \<mapsto> l), Some l))
      | Some c \<Rightarrow>
          if l_expires c > now then (m, if l_key c = key then Some c else None)
          else (let l = spec_grant room key ttl now uuid (l_token c + 1) in (m(room \<mapsto> l), Some l)))"

lemma lease_from_record_simps [simp]:
  "l_room (lease_from_record r) = lr_room r" "l_id (lease_from_record r) = lr_id r"
  "l_key (lease_from_record r) = lr_key r" "l_token (lease_from_record r) = lr_token r"
  "l_expires (lease_from_record r) = lr_expires r"
  by (simp_all add: lease_from_record_def)

lemma abs_leases_room: "abs_leases rows room = Some l \<Longrightarrow> l_room l = room"
  by (auto simp: abs_leases_def dest: find_room_room)

text \<open>One transaction is one step of the abstract map.\<close>

lemma acquire_tx_refines:
  assumes inv: "room_keyed (lease_rows s)" and run: "acquire_tx room key ttl now s = (Inr l, s')"
  shows "room_keyed (lease_rows s') \<and>
    (\<exists>uuid. spec_acquire (abs_leases (lease_rows s)) room key ttl now uuid =
              (abs_leases (lease_rows s'), Some l))"
proof -
  consider (none) "find_room room (lease_rows s) = None"
    | (live) r where "find_room room (lease_rows s) = Some r" "lr_expires r > now"
    | (ended) r where "find_room room (lease_rows s) = Some r" "lr_expires r \<le> now"
    by (cases "find_room room (lease_rows s)") force+
  then show ?thesis
  proof cases
    case none
    with run have rows: "lease_rows s' = lease_rows s @
        [\<lparr>lr_room = room, lr_id = fresh s (Suc (step s)), lr_key = key, lr_token = 1,
          lr_expires = now + ttl, lr_created = now, lr_updated = now\<rparr>]"
      and l: "l = spec_grant room key ttl now (fresh s (Suc (step s))) 1"
      by (auto simp: acquire_tx_def andthen_eq_Inr_iff Let_def spec_grant_def lease_from_record_def)
    have "abs_leases (lease_rows s') = (abs_leases (lease_rows s))(room \<mapsto> l)"
      by (rule ext) (auto simp: rows l abs_leases_def find_room_snoc none spec_grant_def
          lease_from_record_def split: option.split)
    with none show ?thesis
      by (auto simp: rows l inv room_keyed_snoc spec_acquire_def Let_def abs_leases_def)
  next
    case (live r)
    with run inv show ?thesis
      by (auto simp: acquire_tx_def andthen_eq_Inr_iff spec_acquire_def abs_leases_def
          split: if_splits)
  next
    case (ended r)
    define token where "token = lr_token r"
    let ?match = "\<lambda>x. lr_room x = room \<and> lr_token x = token \<and> lr_expires x \<le> now"
    let ?id = "fresh s (Suc (step s))"
    let ?upd = "\<lambda>x. x\<lparr>lr_id := ?id, lr_key := key, lr_token := token + 1,
                        lr_expires := now + ttl, lr_updated := now\<rparr>"
    from ended run have rows: "lease_rows s' = update_where ?match ?upd (lease_rows s)"
      and l: "l = spec_grant room key ttl now ?id (token + 1)"
      by (auto simp: acquire_tx_def andthen_eq_Inr_iff Let_def spec_grant_def
          lease_from_record_def token_def)
    have "abs_leases (lease_rows s') x = ((abs_leases (lease_rows s))(room \<mapsto> l)) x" for x
    proof (cases "find_room x (lease_rows s)")
      case None
      with ended show ?thesis
        by (auto simp: rows abs_leases_def find_room_update)
    next
      case (Some y)
      with ended find_room_room [OF Some] show ?thesis
        by (auto simp: rows l abs_leases_def find_room_update spec_grant_def token_def
            lease_from_record_def)
    qed
    then have "abs_leases (lease_rows s') = (abs_leases (lease_rows s))(room \<mapsto> l)" by blast
    with ended show ?thesis
      by (auto simp: rows l inv room_keyed_update spec_acquire_def Let_def abs_leases_def token_def)
  qed
qed


section \<open>The three operations on the abstract leases\<close>

lemma only_steps_leases: "only_steps s s' \<Longrightarrow> lease_rows s' = lease_rows s"
  by (auto simp: only_steps_def)

lemma lease_inv_cong: "lease_rows s' = lease_rows s \<Longrightarrow> lease_inv s' = lease_inv s"
  by (simp add: lease_inv_def)

lemma acquire_once_quiet:
  "acquire_once room key ttl s = (Inr None, s') \<Longrightarrow> only_steps s s'"
  "acquire_once room key ttl s = (Inl e, s') \<Longrightarrow> only_steps s s'"
  by (auto simp: acquire_once_def andthen_def split: prod.splits sum.splits option.splits
      dest!: transaction_rollback)

lemma acquire_once_refines:
  assumes "lease_inv s" and "acquire_once room key ttl s = (Inr (Some l), s')"
  shows "lease_inv s' \<and>
    (\<exists>n uuid. spec_acquire (abs_leases (lease_rows s)) room key ttl (clock s n) uuid =
              (abs_leases (lease_rows s'), Some l))"
proof -
  from assms(2) obtain s1
    where "acquire_tx room key ttl (clock s (step s)) (s\<lparr>step := Suc (Suc (step s))\<rparr>) = (Inr l, s1)"
      and "lease_rows s' = lease_rows s1"
    by (auto simp: acquire_once_def andthen_def transaction_eq_Inr
        split: prod.splits sum.splits option.splits)
  with acquire_tx_refines [of "s\<lparr>step := Suc (Suc (step s))\<rparr>"] assms(1) show ?thesis
    by (fastforce simp: lease_inv_def)
qed

lemma acquire_attempts_Inl: "acquire_attempts k room key ttl s = (Inl e, s') \<Longrightarrow> only_steps s s'"
proof (induction k arbitrary: s)
  case (Suc k)
  from Suc.prems consider "acquire_once room key ttl s = (Inl e, s')"
    | s1 where "acquire_once room key ttl s = (Inr None, s1)" "s' = s1\<lparr>step := Suc (step s1)\<rparr>"
    | s1 where "acquire_once room key ttl s = (Inr None, s1)"
        "acquire_attempts k room key ttl (s1\<lparr>step := Suc (step s1)\<rparr>) = (Inl e, s')"
    by (auto simp: andthen_eq_Inl_iff split: option.splits)
  then show ?case
  proof cases
    case 3
    from Suc.IH [OF 3(2)] have "only_steps s1 s'" by (simp only: only_steps_step)
    with acquire_once_quiet(1) [OF 3(1)] show ?thesis by (rule only_steps_trans)
  qed (auto intro: acquire_once_quiet)
qed simp

lemma acquire_attempts_refines:
  "lease_inv s \<Longrightarrow> acquire_attempts k room key ttl s = (Inr l, s') \<Longrightarrow>
   lease_inv s' \<and>
    (\<exists>n uuid. spec_acquire (abs_leases (lease_rows s)) room key ttl (clock s n) uuid =
              (abs_leases (lease_rows s'), Some l))"
proof (induction k arbitrary: s)
  case (Suc k)
  from Suc.prems(2) consider "acquire_once room key ttl s = (Inr (Some l), s')"
    | s1 where "acquire_once room key ttl s = (Inr None, s1)"
        "acquire_attempts k room key ttl (s1\<lparr>step := Suc (step s1)\<rparr>) = (Inr l, s')"
    by (auto elim!: andthen_InrE split: option.split_asm)
  then show ?case
  proof cases
    case 1
    with Suc.prems(1) show ?thesis by (rule acquire_once_refines)
  next
    case 2
    from acquire_once_quiet(1) [OF 2(1)] have "lease_rows s1 = lease_rows s" "clock s1 = clock s"
      by (simp_all add: only_steps_leases only_steps_env)
    with Suc.IH [OF _ 2(2)] Suc.prems(1) show ?thesis by (simp add: lease_inv_def)
  qed
qed simp

lemma acquire_Inl: "acquire room key ttl s = (Inl e, s') \<Longrightarrow> only_steps s s'"
  by (auto simp: acquire_def Let_def andthen_eq_Inl_iff dest: acquire_attempts_Inl)

lemma acquire_Inr:
  assumes "lease_inv s" and "acquire room key ttl s = (Inr l, s')"
  shows "lease_inv s' \<and>
    (\<exists>n uuid. spec_acquire (abs_leases (lease_rows s)) (trim_space room) (trim_space key) ttl
                (clock s n) uuid = (abs_leases (lease_rows s'), Some l))"
  using assms acquire_attempts_refines [of "s\<lparr>step := Suc (step s)\<rparr>"]
  by (fastforce simp: acquire_def Let_def andthen_eq_Inr_iff lease_inv_def)

lemma find_room_same:
  "room_keyed rows \<Longrightarrow> r \<in> set rows \<Longrightarrow> same_lease l r \<Longrightarrow> find_room (l_room l) rows = Some r"
  by (simp add: find_room_Some same_lease_def)

text \<open>A change of the row of a lease, by a match that holds of no other row.\<close>

lemma abs_leases_write:
  assumes "room_keyed rows" and "\<And>r. P r \<Longrightarrow> same_lease l r" and "r \<in> set rows" and "P r"
    and "\<And>r. lease_from_record (f r) = lease_from_record r\<lparr>l_expires := t\<rparr>"
  shows "abs_leases (update_where P f rows) = (abs_leases rows)(l_room l \<mapsto> l\<lparr>l_expires := t\<rparr>)"
proof
  fix x
  have keep: "lr_room (f r) = lr_room r" for r
    using assms(5) [of r] by (metis lease.select_convs(1) lease.surjective lease.update_convs(5)
        lease_from_record_simps(1))
  show "abs_leases (update_where P f rows) x =
        ((abs_leases rows)(l_room l \<mapsto> l\<lparr>l_expires := t\<rparr>)) x"
  proof (cases "x = l_room l")
    case True
    have "lease_from_record r\<lparr>l_expires := t\<rparr> = l\<lparr>l_expires := t\<rparr>"
      using assms(2) [OF assms(4)] by (cases l) (simp add: same_lease_def lease_from_record_def)
    with True show ?thesis
      using find_room_same [OF assms(1,3) assms(2) [OF assms(4)]] assms(4,5)
      by (simp add: abs_leases_def find_room_update keep)
  next
    case False
    then have "find_room x rows = Some y \<Longrightarrow> \<not> P y" for y
      using assms(2) find_room_room by (metis same_lease_def)
    with False show ?thesis
      by (cases "find_room x rows") (auto simp: abs_leases_def find_room_update keep)
  qed
qed

lemma renew_Inr:
  assumes "lease_inv s" and "renew l ttl s = (Inr l', s')"
  shows "lease_inv s' \<and> (\<exists>n c. abs_leases (lease_rows s) (l_room l) = Some c \<and>
      c\<lparr>l_expires := l_expires l\<rparr> = l \<and> l_expires c > clock s n \<and>
      l' = l\<lparr>l_expires := clock s n + ttl\<rparr> \<and>
      abs_leases (lease_rows s') = (abs_leases (lease_rows s))(l_room l \<mapsto> l'))"
proof -
  let ?now = "clock s (Suc (step s))"
  let ?match = "\<lambda>r. same_lease l r \<and> lr_expires r > ?now"
  let ?upd = "\<lambda>r. r\<lparr>lr_expires := ?now + ttl, lr_updated := ?now\<rparr>"
  from assms(2) have rows: "lease_rows s' = update_where ?match ?upd (lease_rows s)"
    and l': "l' = l\<lparr>l_expires := ?now + ttl\<rparr>" and one: "count_where ?match (lease_rows s) = 1"
    by (auto simp: renew_def andthen_eq_Inr_iff Let_def)
  from count_where_1D [OF one] obtain r where r: "r \<in> set (lease_rows s)" "?match r" by blast
  have keyed: "room_keyed (lease_rows s)" using assms(1) by (simp add: lease_inv_def)
  have "abs_leases (lease_rows s') = (abs_leases (lease_rows s))(l_room l \<mapsto> l')"
    unfolding rows l' using keyed r
    by (intro abs_leases_write [of _ ?match l r ?upd]) (auto simp: lease_from_record_def)
  moreover have "abs_leases (lease_rows s) (l_room l) = Some (lease_from_record r)"
    using find_room_same keyed r by (simp add: abs_leases_def)
  moreover have "lease_from_record r\<lparr>l_expires := l_expires l\<rparr> = l"
    using r by (cases l) (simp add: same_lease_def lease_from_record_def)
  moreover have "lease_inv s'"
    using keyed by (simp add: lease_inv_def rows room_keyed_update)
  ultimately show ?thesis using r l' by auto
qed

lemma renew_Inl:
  assumes "lease_inv s" and "renew l ttl s = (Inl e, s')"
  shows "lease_rows s' = lease_rows s"
proof -
  let ?now = "clock s (Suc (step s))"
  let ?match = "\<lambda>r. same_lease l r \<and> lr_expires r > ?now"
  have "count_where ?match (lease_rows s) = 0" if "count_where ?match (lease_rows s) \<noteq> 1"
    using assms(1) that match_one_row [of "lease_rows s" ?match "l_room l"]
    by (auto simp: lease_inv_def same_lease_def split: option.splits if_splits)
  with assms(2) show ?thesis
    by (auto simp: renew_def andthen_eq_Inl_iff Let_def intro!: update_where_none)
qed


lemma release_Inr:
  assumes "lease_inv s" and "release l s = (Inr u, s')"
  shows "lease_inv s' \<and> (\<exists>n c. abs_leases (lease_rows s) (l_room l) = Some c \<and>
      c\<lparr>l_expires := l_expires l\<rparr> = l \<and>
      abs_leases (lease_rows s') =
        (abs_leases (lease_rows s))(l_room l \<mapsto> l\<lparr>l_expires := clock s n\<rparr>))"
proof -
  let ?now = "clock s (step s)"
  let ?upd = "\<lambda>r. r\<lparr>lr_expires := ?now, lr_updated := ?now\<rparr>"
  from assms(2) have rows: "lease_rows s' = update_where (same_lease l) ?upd (lease_rows s)"
    and one: "count_where (same_lease l) (lease_rows s) = 1"
    by (auto simp: release_def andthen_eq_Inr_iff)
  from count_where_1D [OF one] obtain r where r: "r \<in> set (lease_rows s)" "same_lease l r" by blast
  have keyed: "room_keyed (lease_rows s)" using assms(1) by (simp add: lease_inv_def)
  have "abs_leases (lease_rows s') = (abs_leases (lease_rows s))(l_room l \<mapsto> l\<lparr>l_expires := ?now\<rparr>)"
    unfolding rows using keyed r
    by (intro abs_leases_write [of _ "same_lease l" l r ?upd]) (auto simp: lease_from_record_def)
  moreover have "abs_leases (lease_rows s) (l_room l) = Some (lease_from_record r)"
    using find_room_same keyed r by (simp add: abs_leases_def)
  moreover have "lease_from_record r\<lparr>l_expires := l_expires l\<rparr> = l"
    using r by (cases l) (simp add: same_lease_def lease_from_record_def)
  moreover have "lease_inv s'"
    using keyed by (simp add: lease_inv_def rows room_keyed_update)
  ultimately show ?thesis by auto
qed

lemma release_Inl:
  assumes "lease_inv s" and "release l s = (Inl e, s')"
  shows "lease_rows s' = lease_rows s"
proof -
  have "count_where (same_lease l) (lease_rows s) = 0" if "count_where (same_lease l) (lease_rows s) \<noteq> 1"
    using assms(1) that match_one_row [of "lease_rows s" "same_lease l" "l_room l"]
    by (auto simp: lease_inv_def same_lease_def split: option.splits if_splits)
  with assms(2) show ?thesis
    by (auto simp: release_def andthen_eq_Inl_iff intro!: update_where_none)
qed

lemmas lease_ops_Inr = acquire_Inr renew_Inr release_Inr
lemmas lease_ops_Inl = acquire_Inl [THEN only_steps_leases] renew_Inl release_Inl

section \<open>Runs\<close>

text \<open>
  A run is any sequence of calls by any callers, each with its own outcome; the number of calls
  bounds how far a fencing token can have moved.
\<close>

inductive lease_call :: "'s lease_db_scheme \<Rightarrow> 's lease_db_scheme \<Rightarrow> bool" where
  acquired: "acquire room key ttl s = (res, s') \<Longrightarrow> lease_call s s'"
| renewed: "renew l ttl s = (res, s') \<Longrightarrow> lease_call s s'"
| released: "release l s = (res, s') \<Longrightarrow> lease_call s s'"

inductive lease_run :: "nat \<Rightarrow> 's lease_db_scheme \<Rightarrow> 's lease_db_scheme \<Rightarrow> bool" where
  no_call: "lease_run 0 s s"
| one_more: "lease_run n s s1 \<Longrightarrow> lease_call s1 s' \<Longrightarrow> lease_run (Suc n) s s'"

inductive_simps lease_run_0 [simp]: "lease_run 0 s s'"
inductive_cases lease_run_SucE: "lease_run (Suc n) s s'"

definition lease_change :: "lease option \<Rightarrow> lease option \<Rightarrow> bool" where
  "lease_change a b \<longleftrightarrow>
     (case a of
        None \<Rightarrow> (case b of None \<Rightarrow> True | Some y \<Rightarrow> l_token y = 1)
      | Some x \<Rightarrow>
          (case b of None \<Rightarrow> False
           | Some y \<Rightarrow> y\<lparr>l_expires := l_expires x\<rparr> = x \<or> l_token y = l_token x + 1))"

lemma lease_change_refl [simp]: "lease_change a a"
  by (cases a) (simp_all add: lease_change_def)

lemma spec_acquire_change: "spec_acquire m room key ttl now uuid = (m', Some l) \<Longrightarrow> lease_change (m x) (m' x)"
  by (auto simp: spec_acquire_def Let_def lease_change_def spec_grant_def
      split: option.splits if_splits)

lemma spec_acquire_room: "spec_acquire m room key ttl now uuid = (m', Some l) \<Longrightarrow> m' room = Some l"
  by (auto simp: spec_acquire_def Let_def split: option.splits if_splits)

lemma touch_change:
  assumes "m room = Some c" and "c\<lparr>l_expires := l_expires l\<rparr> = l"
  shows "lease_change (m x) ((m(room \<mapsto> l\<lparr>l_expires := t\<rparr>)) x)"
proof -
  have "l\<lparr>l_expires := l_expires c\<rparr> = c" using assms(2) by (cases l; cases c) simp
  then have "l\<lparr>l_expires := t\<rparr>\<lparr>l_expires := l_expires c\<rparr> = c" by simp
  with assms(1) show ?thesis by (simp add: lease_change_def split: option.split)
qed

lemma lease_call_change:
  assumes "lease_inv s" and "lease_call s s'"
  shows "lease_inv s' \<and> lease_change (abs_leases (lease_rows s) x) (abs_leases (lease_rows s') x)"
  using assms(2)
proof cases
  case (acquired room key ttl res)
  show ?thesis
  proof (cases res)
    case (Inl e)
    with acquired lease_ops_Inl(1) assms(1) show ?thesis by (metis lease_change_refl lease_inv_cong)
  next
    case (Inr l)
    with acquired acquire_Inr [OF assms(1)] show ?thesis by (metis spec_acquire_change)
  qed
next
  case (renewed l ttl res)
  show ?thesis
  proof (cases res)
    case (Inl e)
    with renewed lease_ops_Inl(2) assms(1) show ?thesis by (metis lease_change_refl lease_inv_cong)
  next
    case (Inr l')
    with renewed renew_Inr [OF assms(1)] show ?thesis by (metis touch_change)
  qed
next
  case (released l res)
  show ?thesis
  proof (cases res)
    case (Inl e)
    with released lease_ops_Inl(3) assms(1) show ?thesis by (metis lease_change_refl lease_inv_cong)
  next
    case (Inr u)
    with released release_Inr [OF assms(1)] show ?thesis by (metis touch_change)
  qed
qed

text \<open>Short of a wrap of the 64-bit counter, a token never falls and names one owner.\<close>

lemma lease_run_token:
  assumes "lease_run n s s'" and "lease_inv s" and "abs_leases (lease_rows s) x = Some c"
    and "unat (l_token c) + n < 2 ^ 64"
  shows "lease_inv s' \<and> (\<exists>c'. abs_leases (lease_rows s') x = Some c' \<and>
     unat (l_token c) \<le> unat (l_token c') \<and> unat (l_token c') \<le> unat (l_token c) + n \<and>
     (l_token c' = l_token c \<longrightarrow> c'\<lparr>l_expires := l_expires c\<rparr> = c))"
  using assms
proof (induction rule: lease_run.induct)
  case (no_call s)
  then show ?case by simp
next
  case (one_more n s s1 s')
  then obtain c1 where c1: "abs_leases (lease_rows s1) x = Some c1"
      "unat (l_token c) \<le> unat (l_token c1)" "unat (l_token c1) \<le> unat (l_token c) + n"
      "l_token c1 = l_token c \<longrightarrow> c1\<lparr>l_expires := l_expires c\<rparr> = c"
    and inv: "lease_inv s1" by auto
  from lease_call_change [OF inv one_more.hyps(2), of x] c1(1)
  have inv': "lease_inv s'" and ch: "lease_change (Some c1) (abs_leases (lease_rows s') x)" by simp_all
  from ch obtain c' where c': "abs_leases (lease_rows s') x = Some c'"
      "c'\<lparr>l_expires := l_expires c1\<rparr> = c1 \<or> l_token c' = l_token c1 + 1"
    by (auto simp: lease_change_def split: option.splits)
  from c'(2) show ?case
  proof
    assume same: "c'\<lparr>l_expires := l_expires c1\<rparr> = c1"
    then have "l_token c' = l_token c1" and "c'\<lparr>l_expires := l_expires c\<rparr> = c1\<lparr>l_expires := l_expires c\<rparr>"
      by (cases c'; cases c1; simp)+
    with c1 inv' c'(1) show ?thesis by auto
  next
    assume next_token: "l_token c' = l_token c1 + 1"
    have "unat (l_token c1) + 1 < 2 ^ 64" using c1(3) one_more.prems(3) by simp
    then have "unat (l_token c') = unat (l_token c1) + 1"
      unfolding next_token by (simp add: unat_word_ariths)
    with c1 inv' c'(1) show ?thesis by auto
  qed
qed

lemma lost_calls:
  assumes "lease_inv s" and "abs_leases (lease_rows s) (l_room l) = Some c" and "l_token c \<noteq> l_token l"
  shows "\<exists>e. fst (renew l ttl s) = Inl e" and "\<exists>e. fst (release l s) = Inl e"
proof -
  have "c\<lparr>l_expires := l_expires l\<rparr> \<noteq> l" using assms(3) by (cases l; cases c; simp)
  moreover obtain r s' where "renew l ttl s = (r, s')" by fastforce
  moreover obtain q s'' where "release l s = (q, s'')" by fastforce
  ultimately show "\<exists>e. fst (renew l ttl s) = Inl e" "\<exists>e. fst (release l s) = Inl e"
    using renew_Inr [OF assms(1)] release_Inr [OF assms(1)] assms(2)
    by (cases r; cases q; fastforce)+
qed

section \<open>Progress\<close>

lemma acquire_tx_calm:
  assumes "calm s" and "lease_inv s"
    and free: "\<And>r. find_room room (lease_rows s) = Some r \<Longrightarrow> lr_key r = key \<or> lr_expires r \<le> now"
  shows "\<exists>l s'. acquire_tx room key ttl now s = (Inr l, s') \<and> calm s'"
proof (cases "find_room room (lease_rows s)")
  case None
  with assms(1) show ?thesis
    by (simp add: acquire_tx_def andthen_def external_def guard_def calm_def Let_def)
next
  case (Some r)
  show ?thesis
  proof (cases "lr_expires r > now")
    case True
    with assms(1) Some free [OF Some] show ?thesis
      by (simp add: acquire_tx_def andthen_def external_def calm_def)
  next
    case False
    let ?match = "\<lambda>x. lr_room x = room \<and> lr_token x = lr_token r \<and> lr_expires x \<le> now"
    have "count_where ?match (lease_rows s) = 1"
      using assms(2) Some False match_one_row [of "lease_rows s" ?match room] find_room_room [OF Some]
      by (auto simp: lease_inv_def)
    with assms(1) Some False show ?thesis
      by (simp add: acquire_tx_def andthen_def external_def guard_def calm_def Let_def)
  qed
qed

lemma acquire_calm:
  assumes "calm s" and "lease_inv s" and "valid_lease_input (trim_space room) (trim_space key) ttl"
    and free: "\<And>r n. find_room (trim_space room) (lease_rows s) = Some r \<Longrightarrow>
                 lr_key r = trim_space key \<or> lr_expires r \<le> clock s n"
  shows "\<exists>l s'. acquire room key ttl s = (Inr l, s')"
proof -
  let ?r = "trim_space room" and ?k = "trim_space key"
  define s1 where "s1 = s\<lparr>step := Suc (step s)\<rparr>"
  define s2 where "s2 = s1\<lparr>step := Suc (Suc (step s1))\<rparr>"
  have "calm s2" "lease_inv s2" using assms(1,2) by (simp_all add: s1_def s2_def lease_inv_def)
  moreover have "lr_key r = ?k \<or> lr_expires r \<le> clock s1 (step s1)"
    if "find_room ?r (lease_rows s2) = Some r" for r
    using free [of r] that by (simp add: s1_def s2_def)
  ultimately obtain l s3 where "acquire_tx ?r ?k ttl (clock s1 (step s1)) s2 = (Inr l, s3)" "calm s3"
    using acquire_tx_calm by blast
  with \<open>calm s2\<close> have "\<exists>s4. transaction (Some Lease_DB) (acquire_tx ?r ?k ttl (clock s1 (step s1)))
      (s1\<lparr>step := Suc (step s1)\<rparr>) = (Inr l, s4)"
    by (auto simp: transaction_eq_Inr s2_def calm_def)
  then obtain s4 where "acquire_once ?r ?k ttl s1 = (Inr (Some l), s4)"
    by (auto simp: acquire_once_def)
  then have "acquire_attempts 3 ?r ?k ttl s1 = (Inr l, s4)"
    by (simp add: numeral_3_eq_3)
  with assms(1,3) show ?thesis
    by (simp add: acquire_def Let_def andthen_def ctx_err_def calm_def s1_def)
qed

text \<open>A live lease under another key makes every attempt fail before it writes.\<close>

lemma acquire_tx_busy:
  assumes "find_room room (lease_rows s) = Some r" and "lr_key r \<noteq> key" and "lr_expires r > now"
  shows "fst (acquire_tx room key ttl now s) \<in> {Inl (Some Lease_DB), Inl (Some Lease_Busy)}"
    and "\<not> fault s (step s) \<Longrightarrow> fst (acquire_tx room key ttl now s) = Inl (Some Lease_Busy)"
  using assms by (simp_all add: acquire_tx_def andthen_def external_def)

lemma acquire_busy:
  assumes "find_room (trim_space room) (lease_rows s) = Some r" and "lr_key r \<noteq> trim_space key"
    and "\<And>n. clock s n < lr_expires r"
  shows "\<exists>e. fst (acquire room key ttl s) = Inl e"
    and "calm s \<Longrightarrow> valid_lease_input (trim_space room) (trim_space key) ttl \<Longrightarrow>
         fst (acquire room key ttl s) = Inl Lease_Busy"
proof -
  let ?r = "trim_space room" and ?k = "trim_space key"
  define s1 where "s1 = s\<lparr>step := Suc (step s)\<rparr>"
  define s2 where "s2 = s1\<lparr>step := Suc (Suc (step s1))\<rparr>"
  have "find_room ?r (lease_rows s2) = Some r" "lr_expires r > clock s1 (step s1)"
    using assms by (simp_all add: s1_def s2_def)
  note tx = acquire_tx_busy [OF this(1) assms(2) this(2), of ttl]
  have once: "\<exists>e s'. acquire_once ?r ?k ttl s1 = (Inl e, s') \<and> (calm s \<longrightarrow> e = Lease_Busy)"
    using tx by (cases "acquire_tx ?r ?k ttl (clock s1 (step s1)) s2")
      (auto simp: acquire_once_def transaction_def andthen_def external_def s2_def s1_def calm_def
        split: prod.split, blast+)
  then show "\<exists>e. fst (acquire room key ttl s) = Inl e"
    by (auto simp: acquire_def Let_def andthen_def ctx_err_def guard_def numeral_3_eq_3 s1_def)
  show "fst (acquire room key ttl s) = Inl Lease_Busy"
    if "calm s" "valid_lease_input ?r ?k ttl"
    using once that
    by (auto simp: acquire_def Let_def andthen_def ctx_err_def guard_def numeral_3_eq_3 s1_def calm_def)
qed

section \<open>Properties\<close>

text \<open>C12: a successful \<open>Acquire\<close>, whatever its retries, is one atomic step of the specification:
  it grants a free or ended lease under the next token, or returns the caller's own live lease; a
  failed one leaves the lease table exactly as it was.\<close>

theorem acquire_refines_spec:
  assumes "lease_inv s" and "acquire room key ttl s = (res, s')"
  shows "lease_inv s' \<and>
    (case res of
       Inl e \<Rightarrow> lease_rows s' = lease_rows s
     | Inr l \<Rightarrow> \<exists>n uuid. spec_acquire (abs_leases (lease_rows s)) (trim_space room) (trim_space key) ttl
                  (clock s n) uuid = (abs_leases (lease_rows s'), Some l))"
proof (cases res)
  case (Inl e)
  with assms(2) have "lease_rows s' = lease_rows s" by (auto dest: acquire_Inl only_steps_leases)
  with Inl assms(1) show ?thesis by (simp add: lease_inv_def)
next
  case (Inr l)
  with assms(2) have "acquire room key ttl s = (Inr l, s')" by simp
  from acquire_Inr [OF assms(1) this] Inr show ?thesis by simp
qed

text \<open>C11: once another acquisition of the room has been granted, the earlier lease is lost for good:
  after any further calls by anyone, its \<open>Renew\<close> and its \<open>Release\<close> both fail (as long as the
  64-bit fencing token does not wrap, which takes that many acquisitions).\<close>

theorem superseded_lease_is_lost:
  assumes "lease_inv s" and "acquire room key ttl s = (Inr l, s1)" and "lease_run m s1 s2"
    and "acquire room key2 ttl2 s2 = (Inr l2, s3)" and "l2\<lparr>l_expires := l_expires l\<rparr> \<noteq> l"
    and "lease_run n s3 s4" and "unat (l_token l) + m + 1 + n < 2 ^ 64"
  shows "(\<exists>e. fst (renew l ttl3 s4) = Inl e) \<and> (\<exists>e. fst (release l s4) = Inl e)"
proof -
  let ?room = "trim_space room"
  from acquire_Inr [OF assms(1,2)] have inv1: "lease_inv s1"
    and l: "abs_leases (lease_rows s1) ?room = Some l" by (auto dest: spec_acquire_room)
  have run: "lease_run (Suc m) s1 s3" using assms(3,4) by (auto intro: lease_run.one_more acquired)
  from lease_run_token [OF assms(3) inv1 l] assms(7) have inv2: "lease_inv s2" by simp
  from acquire_Inr [OF inv2 assms(4)] have l2: "abs_leases (lease_rows s3) ?room = Some l2"
    by (auto dest: spec_acquire_room)
  from lease_run_token [OF run inv1 l] assms(7) l2 have inv3: "lease_inv s3"
    and t2: "unat (l_token l) \<le> unat (l_token l2)" "unat (l_token l2) \<le> unat (l_token l) + Suc m"
      "l_token l2 = l_token l \<longrightarrow> l2\<lparr>l_expires := l_expires l\<rparr> = l" by auto
  then have less: "unat (l_token l) < unat (l_token l2)" using assms(5)
    by (metis linorder_less_linear not_less word_unat_eq_iff)
  from lease_run_token [OF assms(6) inv3 l2] assms(7) t2(2)
  obtain c where "lease_inv s4" "abs_leases (lease_rows s4) ?room = Some c"
      "unat (l_token l2) \<le> unat (l_token c)" by auto
  moreover have "l_room l = ?room" using l by (rule abs_leases_room)
  ultimately show ?thesis using less by (auto intro!: lost_calls)
qed

text \<open>C4: a live lease is never taken over: \<open>Acquire\<close> under another operation key fails, without
  writing, as long as every clock reading is before its end, and with \<open>ErrBusy\<close> when the
  input is valid and neither the database nor the context interferes.\<close>

theorem live_lease_not_stolen:
  assumes "lease_inv s" and "abs_leases (lease_rows s) (trim_space room) = Some c"
    and "l_key c \<noteq> trim_space key" and "\<And>n. clock s n < l_expires c"
  shows "\<exists>e s'. acquire room key ttl s = (Inl e, s') \<and> lease_rows s' = lease_rows s \<and>
    (calm s \<and> valid_lease_input (trim_space room) (trim_space key) ttl \<longrightarrow> e = Lease_Busy)"
proof -
  from assms(2) obtain r where r: "find_room (trim_space room) (lease_rows s) = Some r"
    and c: "c = lease_from_record r" by (auto simp: abs_leases_def)
  from assms(3,4) c have "lr_key r \<noteq> trim_space key" "\<And>n. clock s n < lr_expires r" by simp_all
  note busy = acquire_busy [OF r this, of ttl]
  obtain res s' where run: "acquire room key ttl s = (res, s')" by fastforce
  with busy obtain e where "res = Inl e" by auto
  with run busy(2) acquire_Inl show ?thesis by (fastforce dest: only_steps_leases)
qed

text \<open>C13: \<open>Acquire\<close> with valid input succeeds when the room has no lease, an ended one, or one under
  the caller's own key, provided the database answers and the context is not cancelled; the
  caller then holds the room's lease.\<close>

theorem free_lease_is_granted:
  assumes "lease_inv s" and "calm s" and "valid_lease_input (trim_space room) (trim_space key) ttl"
    and "\<And>c n. abs_leases (lease_rows s) (trim_space room) = Some c \<Longrightarrow>
           l_key c = trim_space key \<or> l_expires c \<le> clock s n"
  shows "\<exists>l s'. acquire room key ttl s = (Inr l, s') \<and> l_key l = trim_space key \<and>
           abs_leases (lease_rows s') (trim_space room) = Some l"
proof -
  have "\<exists>l s'. acquire room key ttl s = (Inr l, s')"
    using assms(4) by (intro acquire_calm assms(1-3)) (fastforce simp: abs_leases_def)
  then obtain l s' where run: "acquire room key ttl s = (Inr l, s')" by blast
  from acquire_Inr [OF assms(1) run] obtain n uuid
    where spec: "spec_acquire (abs_leases (lease_rows s)) (trim_space room) (trim_space key) ttl
      (clock s n) uuid = (abs_leases (lease_rows s'), Some l)" by blast
  then have "l_key l = trim_space key"
    by (auto simp: spec_acquire_def spec_grant_def Let_def split: option.splits if_splits)
  with run spec_acquire_room [OF spec] show ?thesis by blast
qed

section \<open>Witnesses\<close>

text \<open>A table with one ended lease, a clock that advances a second per step, a calm database.\<close>

definition sample_leases :: "lease_db" where
  "sample_leases =
     \<lparr>step = 0, fault = (\<lambda>_. False), cancelled = (\<lambda>_. False), clock = (\<lambda>n. seconds (100 + int n)),
      fresh = (\<lambda>n. if n < 5 then ''u1'' else ''u2''),
      lease_rows = [\<lparr>lr_room = ''r'', lr_id = ''u0'', lr_key = ''k0'', lr_token = 7,
                     lr_expires = seconds 10, lr_created = 0, lr_updated = 0\<rparr>]\<rparr>"

lemma sample_leases_calm: "calm sample_leases" "lease_inv sample_leases"
  by (simp_all add: sample_leases_def calm_def lease_inv_def room_keyed_def)

definition sample_grant :: lease where
  "sample_grant = \<lparr>l_room = ''r'', l_id = ''u1'', l_key = ''k'', l_token = 8, l_expires = seconds 161\<rparr>"

theorem acquire_refines_spec_witness:
  "\<exists>s'. acquire '' r'' ''k'' (seconds 60) sample_leases = (Inr sample_grant, s') \<and> lease_inv s'"
proof -
  have run: "fst (acquire '' r'' ''k'' (seconds 60) sample_leases) = Inr sample_grant"
    by code_simp
  obtain s' where s': "acquire '' r'' ''k'' (seconds 60) sample_leases = (Inr sample_grant, s')"
    using run by (metis prod.collapse)
  from acquire_refines_spec [OF sample_leases_calm(2) s'] s' show ?thesis by blast
qed

definition sample_granted :: lease_db where
  "sample_granted = snd (acquire '' r'' ''k'' (seconds 60) sample_leases)"

definition sample_regrant :: lease where
  "sample_regrant = \<lparr>l_room = ''r'', l_id = ''u2'', l_key = ''k2'', l_token = 9, l_expires = seconds 190\<rparr>"

theorem superseded_lease_is_lost_witness:
  "\<exists>s4 :: lease_db. fst (acquire '' r'' ''k2'' (seconds 80) (snd (release sample_grant sample_granted))) =
          Inr sample_regrant \<and> (\<exists>e. fst (renew sample_grant (seconds 60) s4) = Inl e)"
proof -
  let ?s2 = "snd (release sample_grant sample_granted)"
  let ?s3 = "snd (acquire '' r'' ''k2'' (seconds 80) ?s2)"
  have first: "acquire '' r'' ''k'' (seconds 60) sample_leases = (Inr sample_grant, sample_granted)"
    by (rule prod_eqI) (simp_all add: sample_granted_def, code_simp)
  have second: "fst (acquire '' r'' ''k2'' (seconds 80) ?s2) = Inr sample_regrant"
    by code_simp
  have run: "lease_run 1 sample_granted ?s2"
    using one_more [OF no_call released [of sample_grant]] by (metis One_nat_def prod.collapse)
  have grant: "acquire '' r'' ''k2'' (seconds 80) ?s2 = (Inr sample_regrant, ?s3)"
    using second by (metis prod.collapse)
  have other: "sample_regrant\<lparr>l_expires := l_expires sample_grant\<rparr> \<noteq> sample_grant"
    by (simp add: sample_regrant_def sample_grant_def)
  have "unat (l_token sample_grant) + 1 + 1 + 0 < 2 ^ 64"
    by (simp add: sample_grant_def)
  from superseded_lease_is_lost [OF sample_leases_calm(2) first run grant other no_call [of ?s3] this]
  have "\<exists>e. fst (renew sample_grant (seconds 60) ?s3) = Inl e" by blast
  with second show ?thesis by blast
qed

definition sample_live :: lease_db where
  "sample_live = sample_leases\<lparr>clock := \<lambda>_. seconds 5\<rparr>"

theorem live_lease_not_stolen_witness:
  "\<exists>s'. acquire ''r'' ''k'' (seconds 60) sample_live = (Inl Lease_Busy, s') \<and>
        lease_rows s' = lease_rows sample_live"
proof -
  have trim: "trim_space ''r'' = ''r''" "trim_space ''k'' = ''k''" by code_simp+
  have valid: "valid_lease_input (trim_space ''r'') (trim_space ''k'') (seconds 60)" by code_simp
  have "lease_inv sample_live" "calm sample_live"
    using sample_leases_calm by (simp_all add: sample_live_def lease_inv_def calm_def)
  moreover have "abs_leases (lease_rows sample_live) (trim_space ''r'') =
      Some \<lparr>l_room = ''r'', l_id = ''u0'', l_key = ''k0'', l_token = 7, l_expires = seconds 10\<rparr>"
    by (simp add: trim sample_live_def sample_leases_def abs_leases_def find_room_def
        lease_from_record_def)
  ultimately show ?thesis
    using live_lease_not_stolen [of sample_live "''r''"
        "\<lparr>l_room = ''r'', l_id = ''u0'', l_key = ''k0'', l_token = 7, l_expires = seconds 10\<rparr>"
        "''k''" "seconds 60"] valid
    by (auto simp: trim sample_live_def sample_leases_def seconds_def)
qed

theorem free_lease_is_granted_witness:
  "\<exists>l s'. acquire ''r'' ''k'' (seconds 60) sample_leases = (Inr l, s') \<and> l_key l = ''k''"
proof -
  have trim: "trim_space ''r'' = ''r''" "trim_space ''k'' = ''k''" by code_simp+
  have valid: "valid_lease_input (trim_space ''r'') (trim_space ''k'') (seconds 60)" by code_simp
  have free: "l_key c = trim_space ''k'' \<or> l_expires c \<le> clock sample_leases n"
    if "abs_leases (lease_rows sample_leases) (trim_space ''r'') = Some c" for c n
    using that by (auto simp: trim sample_leases_def abs_leases_def find_room_def
        lease_from_record_def seconds_def)
  from free_lease_is_granted [OF sample_leases_calm(2,1) valid free] trim show ?thesis by auto
qed

end
