(* ===== verification/Lifecycle.thy ===== *)
theory Lifecycle
  imports Prelude
begin

text \<open>
  Contracts several components share. \<open>lifecycle\<close> is a status machine with final statuses:
  whatever sequence of operations runs, an entry that has reached a final status keeps it.
  \<open>all_or_nothing\<close> is an operation whose failure leaves what it works on unchanged. \<open>codec\<close> is a
  writer and a reader of one format. \<open>step_relation\<close> is a relation between states; \<open>moves R m\<close> says that
  every run of \<open>m\<close>, whatever its outcome, relates the state before to the state after by \<open>R\<close>.
\<close>

section \<open>Status machines\<close>

locale lifecycle =
  fixes change :: "'st \<Rightarrow> 'st \<Rightarrow> bool"
    and final :: "'st \<Rightarrow> bool"
  assumes final_kept: "change x y \<Longrightarrow> final x \<Longrightarrow> y = x"
begin

lemma final_forever: "change\<^sup>*\<^sup>* x y \<Longrightarrow> final x \<Longrightarrow> y = x"
  by (induction rule: rtranclp_induct) (auto dest: final_kept)

lemma left_not_final: "change x y \<Longrightarrow> x \<noteq> y \<Longrightarrow> \<not> final x"
  using final_kept by blast

lemma same_final: "change\<^sup>*\<^sup>* x y \<Longrightarrow> change\<^sup>*\<^sup>* x z \<Longrightarrow> final x \<Longrightarrow> y = z"
  using final_forever by blast

end

section \<open>Failures without effect\<close>

locale all_or_nothing =
  fixes view :: "'s \<Rightarrow> 'v"
    and op :: "('s, 'e, 'a) act"
  assumes failed_unchanged: "op s = (Inl e, s') \<Longrightarrow> view s' = view s"
begin

lemma changed_succeeded: "op s = (r, s') \<Longrightarrow> view s' \<noteq> view s \<Longrightarrow> \<exists>a. r = Inr a"
  using failed_unchanged by (cases r) auto

text \<open>An invariant of the viewed part that successes keep is kept.\<close>

lemma invariant_kept:
  assumes "op s = (r, s')" and "I (view s)" and "\<And>a. r = Inr a \<Longrightarrow> I (view s')"
  shows "I (view s')"
  using assms failed_unchanged by (cases r) auto

end

section \<open>Formats\<close>

locale codec =
  fixes enc :: "'a \<Rightarrow> 'e + 'b"
    and dec :: "'b \<Rightarrow> 'f + 'a"
    and fits :: "'a \<Rightarrow> bool"
  assumes decodes: "fits x \<Longrightarrow> \<exists>t. enc x = Inr t \<and> dec t = Inr x"
begin

lemma enc_injective: "fits x \<Longrightarrow> fits y \<Longrightarrow> enc x = enc y \<Longrightarrow> x = y"
  using decodes [of x] decodes [of y] by auto

lemma dec_enc: "fits x \<Longrightarrow> enc x = Inr t \<Longrightarrow> dec t = Inr x"
  using decodes [of x] by auto

end

section \<open>Relations an action keeps\<close>

named_theorems moves_intros \<open>rules for moves\<close>

definition moves :: "('s \<Rightarrow> 's \<Rightarrow> bool) \<Rightarrow> ('s, 'e, 'a) act \<Rightarrow> bool" where
  "moves R m \<longleftrightarrow> (\<forall>s. R s (snd (m s)))"

lemma movesD: "moves R m \<Longrightarrow> m s = (r, s') \<Longrightarrow> R s s'"
  unfolding moves_def by (metis snd_conv)

lemma moves_cases [moves_intros]:
  "moves R m1 \<Longrightarrow> moves R m2 \<Longrightarrow> moves R (if b then m1 else m2)"
  "moves R n \<Longrightarrow> (\<And>x. moves R (f x)) \<Longrightarrow> moves R (case opt of None \<Rightarrow> n | Some x \<Rightarrow> f x)"
  "(\<And>a b. moves R (g a b)) \<Longrightarrow> moves R (case p of (a, b) \<Rightarrow> g a b)"
  "(\<And>e. moves R (h e)) \<Longrightarrow> (\<And>x. moves R (f x)) \<Longrightarrow> moves R (case v of Inl e \<Rightarrow> h e | Inr x \<Rightarrow> f x)"
  "moves R n \<Longrightarrow> (\<And>x xs. moves R (k x xs)) \<Longrightarrow> moves R (case l of [] \<Rightarrow> n | x # xs \<Rightarrow> k x xs)"
  "moves R n \<Longrightarrow> (\<And>i. moves R (j i)) \<Longrightarrow> moves R (case c of 0 \<Rightarrow> n | Suc i \<Rightarrow> j i)"
  by (auto split: option.split prod.split sum.split list.split nat.split)

lemma moves_Let [moves_intros]: "(\<And>x. moves R (h x)) \<Longrightarrow> moves R (Let y h)"
  by simp

lemma moves_map_error [moves_intros]: "moves R m \<Longrightarrow> moves R (map_error g m)"
  by (auto simp: moves_def map_error_def split: prod.split sum.split) (metis snd_conv)+

lemma moves_attempt [moves_intros]: "moves R m \<Longrightarrow> moves R (attempt m)"
  by (simp add: moves_def attempt_simp)

text \<open>A relation on states that readings of the environment keep.\<close>

locale step_relation =
  fixes R :: "'s env_scheme \<Rightarrow> 's env_scheme \<Rightarrow> bool"
  assumes refl_R: "R s s"
    and trans_R: "R s s1 \<Longrightarrow> R s1 s2 \<Longrightarrow> R s s2"
    and steps: "R s (s\<lparr>step := n\<rparr>)"
begin

lemma basic [moves_intros]:
  "moves R (return_ok a)" "moves R (raise e)" "moves R (guard e b)" "moves R (query f)"
  by (simp_all add: moves_def guard_def refl_R)

lemma modify [moves_intros]: "(\<And>s. R s (f s)) \<Longrightarrow> moves R (modify f)"
  by (simp add: moves_def)

lemma environment [moves_intros]:
  "moves R (external e)" "moves R (ctx_err e)" "moves R read_now" "moves R new_uuid"
  by (simp_all add: moves_def external_def ctx_err_def steps)

lemma sequence [moves_intros]:
  assumes "moves R m" and "\<And>a. moves R (f a)"
  shows "moves R (andthen m f)"
  using assms by (auto simp: moves_def andthen_def split: prod.split sum.split) (metis trans_R snd_conv)+

lemma in_transaction [moves_intros]:
  assumes "moves R m"
  shows "moves R (transaction e m)"
  unfolding moves_def
proof
  fix s
  obtain r s' where run: "andthen (external e) (\<lambda>_. andthen m (\<lambda>a. andthen (external e) (\<lambda>_. return_ok a))) s = (r, s')"
    by fastforce
  have "moves R (andthen (external e) (\<lambda>_. andthen m (\<lambda>a. andthen (external e) (\<lambda>_. return_ok a))))"
    by (intro moves_intros assms)
  from movesD [OF this run] run show "R s (snd (transaction e m s))"
    by (cases r) (simp_all add: transaction_def steps)
qed

end

end
