(* ===== verification/Port_Allocator.thy ===== *)
theory Port_Allocator
  imports Go_Strings Lifecycle "HOL-Library.Word"
begin

text \<open>
  \<open>internal/topology/resources_allocator.go\<close>: the UDP port reservations of game servers. A
  reservation is planned for a room's world, activated when the server starts, then released.
  \<open>reserve_ports\<close> is \<open>Store.ReservePorts\<close>, one transaction that sweeps the ended plans and
  gives each request the first free port from its preferred one on. The lemmas show that the
  reservations of a network scope never collide, that each port is the least free one, and that
  a failed call changes nothing. The digest in reservation identifiers (SHA-256) is the
  parameter \<open>digest\<close>; nothing is assumed of it.
\<close>

section \<open>State\<close>

record resource_conflict =
  rc_code :: string
  rc_message :: string
  rc_scope :: string
  rc_port :: int
  rc_target :: string
  rc_room :: string
  rc_world :: string

datatype port_error =
    Ports_NotFound
  | Ports_Conflict
  | Ports_ConflictAt resource_conflict
  | Ports_DB
  | Ports_Canceled

datatype reservation_state =
    Res_Configured
  | Res_Active
  | Res_Planned
  | Res_Observed
  | Res_Releasing
  | Res_Released

record port_request =
  pq_world :: string
  pq_shard :: string
  pq_purpose :: string
  pq_preferred :: int
  pq_strict :: bool

record allocation_request =
  ar_owner :: string
  ar_target :: string
  ar_room :: string
  ar_cluster :: string
  ar_ttl :: int
  ar_requests :: "port_request list"

record port_reservation =
  pr_id :: string
  pr_environment :: string
  pr_profile :: string
  pr_scope :: string
  pr_target :: string
  pr_room :: string
  pr_world :: string
  pr_cluster :: string
  pr_shard :: string
  pr_purpose :: string
  pr_protocol :: string
  pr_bind :: string
  pr_port :: int
  pr_state :: reservation_state
  pr_managed :: bool
  pr_lease :: string
  pr_owner :: string
  pr_expires :: "int option"
  pr_activated :: "int option"
  pr_released :: "int option"
  pr_updated :: int

text \<open>A row of the table is a reservation with the time it was written.\<close>

record port_record = port_reservation +
  pr_created :: int

record port_allocation =
  pa_lease :: string
  pa_reservations :: "port_reservation list"
  pa_expires :: int

record environment_record =
  er_id :: string
  er_target :: string
  er_profile :: string

record profile_record =
  np_id :: string
  np_scope :: string
  np_bind :: string

record port_lock =
  pl_scope :: string
  pl_revision :: "64 word"
  pl_updated :: int

record port_db = env +
  environments :: "environment_record list"
  profiles :: "profile_record list"
  port_locks :: "port_lock list"
  port_rows :: "port_record list"

section \<open>Addresses, purposes and conflicts\<close>

definition normalize_bind :: "string \<Rightarrow> string" where
  "normalize_bind value =
     (let v = trim_space (to_lower value)
      in if v = [] \<or> v = ''0.0.0.0'' \<or> v = ''::'' \<or> v = ''[::]'' then ''*'' else v)"

definition bind_addresses_conflict :: "string \<Rightarrow> string \<Rightarrow> bool" where
  "bind_addresses_conflict left right =
     (let l = normalize_bind left; r = normalize_bind right
      in l = ''*'' \<or> r = ''*'' \<or> l = r)"

definition valid_port_purpose :: "string \<Rightarrow> bool" where
  "valid_port_purpose value \<longleftrightarrow>
     value \<in> {''dst_server'', ''cluster_master'', ''steam_authentication'', ''steam_master_server''}"

fun record_conflict :: "port_record list \<Rightarrow> string \<Rightarrow> port_request \<Rightarrow> string \<Rightarrow> int \<Rightarrow> bool" where
  "record_conflict [] room item bind port = False"
| "record_conflict (r # rs) room item bind port =
     (if pr_port r \<noteq> port \<or> \<not> bind_addresses_conflict (pr_bind r) bind then
        record_conflict rs room item bind port
      else if pr_room r = room \<and> pr_world r = pq_world item \<and> pr_purpose r = pq_purpose item then
        record_conflict rs room item bind port
      else True)"

definition reservation_port_conflict ::
  "port_record list \<Rightarrow> port_reservation list \<Rightarrow> string \<Rightarrow> port_request \<Rightarrow> profile_record \<Rightarrow> int \<Rightarrow> bool"
where
  "reservation_port_conflict records allocated room item profile port \<longleftrightarrow>
     record_conflict records room item (np_bind profile) port \<or>
     (\<exists>r \<in> set allocated. pr_port r = port \<and> bind_addresses_conflict (pr_bind r) (np_bind profile))"

definition stable_resource_id :: "(string \<Rightarrow> string) \<Rightarrow> string \<Rightarrow> string \<Rightarrow> string" where
  "stable_resource_id digest pre identity = pre @ ''-'' @ take 24 (digest identity)"

text \<open>The candidates from the preferred port on; a strict request stops at the first conflict.\<close>

function find_port :: "(int \<Rightarrow> bool) \<Rightarrow> bool \<Rightarrow> int \<Rightarrow> int + int" where
  "find_port conflict strict candidate =
     (if candidate \<le> 65535 \<and> conflict candidate then
        if strict then Inl candidate else find_port conflict strict (candidate + 1)
      else Inr candidate)"
  by pat_completeness auto
termination find_port
  by (relation "measure (\<lambda>(_, _, candidate). nat (65536 - candidate))") auto

declare find_port.simps [simp del]

section \<open>Reserving\<close>

definition udp_conflict_message :: string where
  "udp_conflict_message = bytes
      [0xE8, 0xAF, 0xB7, 0xE6, 0xB1, 0x82, 0xE7, 0x9A, 0x84, 0x20, 0x55, 0x44, 0x50, 0x20,
       0xE7, 0xAB, 0xAF, 0xE5, 0x8F, 0xA3, 0xE5, 0xB7, 0xB2, 0xE8, 0xA2, 0xAB, 0xE5, 0xBD,
       0x93, 0xE5, 0x89, 0x8D, 0xE7, 0xBD, 0x91, 0xE7, 0xBB, 0x9C, 0xE4, 0xBD, 0x9C, 0xE7,
       0x94, 0xA8, 0xE5, 0x9F, 0x9F, 0xE5, 0x8D, 0xA0, 0xE7, 0x94, 0xA8]"

definition port_record_from_reservation :: "port_reservation \<Rightarrow> int \<Rightarrow> port_record" where
  "port_record_from_reservation v now =
     port_reservation.extend (v\<lparr>pr_updated := now\<rparr>) \<lparr>pr_created = now\<rparr>"

definition sort_requests :: "port_request list \<Rightarrow> port_request list" where
  "sort_requests = sort_key (\<lambda>r. (pq_preferred r, pq_purpose r))"

definition trim_item :: "port_request \<Rightarrow> port_request" where
  "trim_item item =
     item\<lparr>pq_world := trim_space (pq_world item), pq_shard := trim_space (pq_shard item)\<rparr>"

definition valid_item :: "port_request \<Rightarrow> bool" where
  "valid_item item \<longleftrightarrow>
     \<not> (pq_world item = [] \<or> pq_shard item = [] \<or> \<not> valid_port_purpose (pq_purpose item) \<or>
        pq_preferred item < 1 \<or> pq_preferred item > 65535)"

definition new_reservation ::
  "(string \<Rightarrow> string) \<Rightarrow> allocation_request \<Rightarrow> environment_record \<Rightarrow> profile_record \<Rightarrow> string \<Rightarrow> int \<Rightarrow>
   port_request \<Rightarrow> int \<Rightarrow> port_reservation" where
  "new_reservation digest request environment profile lease_id expires item candidate =
     \<lparr>pr_id = stable_resource_id digest ''port-lease''
        (lease_id @ [nul] @ pq_world item @ [nul] @ pq_purpose item),
      pr_environment = er_id environment, pr_profile = np_id profile, pr_scope = np_scope profile,
      pr_target = ar_target request, pr_room = ar_room request, pr_world = pq_world item,
      pr_cluster = ar_cluster request, pr_shard = pq_shard item, pr_purpose = pq_purpose item,
      pr_protocol = ''udp'', pr_bind = np_bind profile, pr_port = candidate,
      pr_state = Res_Planned, pr_managed = True, pr_lease = lease_id, pr_owner = ar_owner request,
      pr_expires = Some expires, pr_activated = None, pr_released = None, pr_updated = 0\<rparr>"

text \<open>One turn of the loop; the identifier is the primary key of the table.\<close>

definition reserve_item ::
  "(string \<Rightarrow> string) \<Rightarrow> allocation_request \<Rightarrow> environment_record \<Rightarrow> profile_record \<Rightarrow> string \<Rightarrow> int \<Rightarrow> int \<Rightarrow>
   port_record list \<Rightarrow> port_reservation list \<Rightarrow> port_request \<Rightarrow>
   ('s port_db_scheme, port_error, port_reservation) act" where
  "reserve_item digest request environment profile lease_id now expires records allocated raw =
     (let item = trim_item raw
      in andthen (guard Ports_Conflict (valid_item item)) (\<lambda>_.
         case find_port (reservation_port_conflict records allocated (ar_room request) item profile)
                (pq_strict item) (pq_preferred item) of
           Inl candidate \<Rightarrow>
             raise (Ports_ConflictAt
               \<lparr>rc_code = ''UDP_PORT_CONFLICT'', rc_message = udp_conflict_message,
                rc_scope = np_scope profile, rc_port = candidate, rc_target = ar_target request,
                rc_room = ar_room request, rc_world = pq_world item\<rparr>)
         | Inr candidate \<Rightarrow>
             andthen (guard Ports_Conflict (\<not> candidate > 65535)) (\<lambda>_.
               let reservation = new_reservation digest request environment profile lease_id expires
                     item candidate
               in andthen (external Ports_DB) (\<lambda>_.
                  andthen (query (\<lambda>s. \<forall>r \<in> set (port_rows s). pr_id r \<noteq> pr_id reservation)) (\<lambda>unique.
                  andthen (guard Ports_DB unique) (\<lambda>_.
                  andthen (modify (\<lambda>s. s\<lparr>port_rows :=
                     port_rows s @ [port_record_from_reservation reservation now]\<rparr>)) (\<lambda>_.
                  return_ok reservation)))))))"

fun reserve_items ::
  "(string \<Rightarrow> string) \<Rightarrow> allocation_request \<Rightarrow> environment_record \<Rightarrow> profile_record \<Rightarrow> string \<Rightarrow> int \<Rightarrow> int \<Rightarrow>
   port_record list \<Rightarrow> port_reservation list \<Rightarrow> port_request list \<Rightarrow>
   ('s port_db_scheme, port_error, port_reservation list) act" where
  "reserve_items digest request environment profile lease_id now expires records allocated [] =
     return_ok allocated"
| "reserve_items digest request environment profile lease_id now expires records allocated (q # qs) =
     andthen (reserve_item digest request environment profile lease_id now expires records allocated q)
       (\<lambda>r. reserve_items digest request environment profile lease_id now expires records
              (allocated @ [r]) qs)"

definition ended_plan :: "int \<Rightarrow> port_record \<Rightarrow> bool" where
  "ended_plan now r \<longleftrightarrow>
     pr_state r = Res_Planned \<and> (case pr_expires r of None \<Rightarrow> False | Some t \<Rightarrow> t \<le> now)"

definition live_state :: "reservation_state \<Rightarrow> bool" where
  "live_state st \<longleftrightarrow> st \<in> {Res_Active, Res_Planned, Res_Observed, Res_Releasing}"

definition live_in_scope :: "string \<Rightarrow> port_record \<Rightarrow> bool" where
  "live_in_scope scope r \<longleftrightarrow> pr_scope r = scope \<and> pr_protocol r = ''udp'' \<and> live_state (pr_state r)"

definition lock_scope :: "string \<Rightarrow> int \<Rightarrow> ('s port_db_scheme, port_error, unit) act" where
  "lock_scope scope now =
     andthen (external Ports_DB) (\<lambda>_.
     andthen (query (\<lambda>s. \<exists>l \<in> set (port_locks s). pl_scope l = scope)) (\<lambda>found.
     andthen (if found then return_ok ()
              else andthen (external Ports_DB) (\<lambda>_. modify (\<lambda>s. s\<lparr>port_locks :=
                     port_locks s @ [\<lparr>pl_scope = scope, pl_revision = 0, pl_updated = now\<rparr>]\<rparr>))) (\<lambda>_.
     andthen (external Ports_DB) (\<lambda>_.
     modify (\<lambda>s. s\<lparr>port_locks := update_where (\<lambda>l. pl_scope l = scope)
       (\<lambda>l. l\<lparr>pl_revision := pl_revision l + 1, pl_updated := now\<rparr>) (port_locks s)\<rparr>)))))"

definition sweep_plans :: "int \<Rightarrow> port_record list \<Rightarrow> port_record list" where
  "sweep_plans now = update_where (ended_plan now)
     (\<lambda>r. r\<lparr>pr_state := Res_Released, pr_released := Some now, pr_updated := now\<rparr>)"

definition reserve_tx ::
  "(string \<Rightarrow> string) \<Rightarrow> allocation_request \<Rightarrow> ('s port_db_scheme, port_error, port_allocation) act" where
  "reserve_tx digest request =
     andthen (external Ports_DB) (\<lambda>_.
     andthen (query (\<lambda>s. List.find (\<lambda>e. er_target e = ar_target request) (environments s))) (\<lambda>env.
       case env of
         None \<Rightarrow> raise Ports_NotFound
       | Some environment \<Rightarrow>
     andthen (external Ports_DB) (\<lambda>_.
     andthen (query (\<lambda>s. List.find (\<lambda>p. np_id p = er_profile environment) (profiles s))) (\<lambda>prof.
       case prof of
         None \<Rightarrow> raise Ports_DB
       | Some profile \<Rightarrow>
     andthen read_now (\<lambda>now.
     andthen (lock_scope (np_scope profile) now) (\<lambda>_.
     andthen (external Ports_DB) (\<lambda>_.
     andthen (modify (\<lambda>s. s\<lparr>port_rows := sweep_plans now (port_rows s)\<rparr>)) (\<lambda>_.
     andthen (external Ports_DB) (\<lambda>_.
     andthen (query (\<lambda>s. filter (live_in_scope (np_scope profile)) (port_rows s))) (\<lambda>records.
     andthen new_uuid (\<lambda>lease_id.
     andthen (reserve_items digest request environment profile lease_id now (now + ar_ttl request)
                records [] (sort_requests (ar_requests request))) (\<lambda>reservations.
     return_ok \<lparr>pa_lease = lease_id, pa_reservations = reservations,
                pa_expires = now + ar_ttl request\<rparr>))))))))))))"

definition clamp_ttl :: "int \<Rightarrow> int" where
  "clamp_ttl ttl = (let t = (if ttl \<le> 0 then minutes 15 else ttl) in if t > hours 1 then hours 1 else t)"

definition normalize_allocation :: "allocation_request \<Rightarrow> allocation_request" where
  "normalize_allocation r =
     r\<lparr>ar_owner := trim_space (ar_owner r), ar_target := trim_space (ar_target r),
       ar_room := trim_space (ar_room r), ar_cluster := trim_space (ar_cluster r),
       ar_ttl := clamp_ttl (ar_ttl r)\<rparr>"

definition reserve_ports ::
  "(string \<Rightarrow> string) \<Rightarrow> allocation_request \<Rightarrow> ('s port_db_scheme, port_error, port_allocation) act" where
  "reserve_ports digest raw =
     (let request = normalize_allocation raw
      in andthen (guard Ports_NotFound
           (\<not> (ar_owner request = [] \<or> ar_target request = [] \<or> ar_room request = [] \<or>
               ar_cluster request = [] \<or> length (ar_requests request) = 0))) (\<lambda>_.
         transaction Ports_DB (reserve_tx digest request)))"

section \<open>Activating and releasing\<close>

definition activate_ports :: "string \<Rightarrow> ('s port_db_scheme, port_error, unit) act" where
  "activate_ports raw =
     (let lease_id = trim_space raw
      in andthen (guard Ports_NotFound (lease_id \<noteq> [])) (\<lambda>_.
         andthen read_now (\<lambda>now.
         let match = (\<lambda>r. pr_lease r = lease_id \<and> pr_state r = Res_Planned \<and>
                          (case pr_expires r of None \<Rightarrow> True | Some t \<Rightarrow> t > now))
         in andthen (external Ports_DB) (\<lambda>_.
            andthen (query (\<lambda>s. count_where match (port_rows s))) (\<lambda>affected.
            andthen (modify (\<lambda>s. s\<lparr>port_rows := update_where match
               (\<lambda>r. r\<lparr>pr_state := Res_Active, pr_activated := Some now, pr_expires := None,
                      pr_updated := now\<rparr>) (port_rows s)\<rparr>)) (\<lambda>_.
            if affected = 0 then
              andthen (external Ports_DB) (\<lambda>_.
              andthen (query (\<lambda>s. count_where
                 (\<lambda>r. pr_lease r = lease_id \<and> pr_state r = Res_Active) (port_rows s))) (\<lambda>count.
              guard Ports_NotFound (count \<noteq> 0)))
            else return_ok ()))))))"

definition begin_release_ports :: "string \<Rightarrow> ('s port_db_scheme, port_error, unit) act" where
  "begin_release_ports raw =
     (let lease_id = trim_space raw
      in andthen (guard Ports_NotFound (lease_id \<noteq> [])) (\<lambda>_.
         andthen read_now (\<lambda>now.
         andthen (external Ports_DB) (\<lambda>_.
         modify (\<lambda>s. s\<lparr>port_rows := update_where
           (\<lambda>r. pr_lease r = lease_id \<and> pr_state r \<in> {Res_Planned, Res_Active})
           (\<lambda>r. r\<lparr>pr_state := Res_Releasing, pr_updated := now\<rparr>) (port_rows s)\<rparr>)))))"

definition complete_release_ports :: "string \<Rightarrow> ('s port_db_scheme, port_error, unit) act" where
  "complete_release_ports raw =
     (let lease_id = trim_space raw
      in andthen (guard Ports_NotFound (lease_id \<noteq> [])) (\<lambda>_.
         andthen read_now (\<lambda>now.
         andthen (external Ports_DB) (\<lambda>_.
         modify (\<lambda>s. s\<lparr>port_rows := update_where
           (\<lambda>r. pr_lease r = lease_id \<and> pr_state r = Res_Releasing)
           (\<lambda>r. r\<lparr>pr_state := Res_Released, pr_released := Some now, pr_updated := now\<rparr>)
           (port_rows s)\<rparr>)))))"

definition release_ports :: "string \<Rightarrow> ('s port_db_scheme, port_error, unit) act" where
  "release_ports lease_id =
     andthen (ctx_err Ports_Canceled) (\<lambda>_.
     andthen (begin_release_ports lease_id) (\<lambda>_. complete_release_ports lease_id))"

section \<open>Rebuilding\<close>

text \<open>
  \<open>Store.ReplacePortReservations\<close> writes what the last inspection of the hosts found and retires
  every other row in two stages, except the plans that have not ended.
\<close>

definition merged_record :: "int \<Rightarrow> port_record list \<Rightarrow> port_reservation \<Rightarrow> port_record" where
  "merged_record now existing value =
     (let record = port_record_from_reservation value now
      in case List.find (\<lambda>r. pr_id r = pr_id value) existing of
           None \<Rightarrow> record
         | Some current \<Rightarrow>
             let record = record\<lparr>pr_created := pr_created current\<rparr>
             in if pr_lease record = [] \<and> pr_lease current \<noteq> []
                then record\<lparr>pr_lease := pr_lease current, pr_owner := pr_owner current,
                            pr_expires := pr_expires current, pr_activated := pr_activated current\<rparr>
                else record)"

definition save_row :: "port_record \<Rightarrow> port_record list \<Rightarrow> port_record list" where
  "save_row record rows =
     (if \<exists>r \<in> set rows. pr_id r = pr_id record
      then update_where (\<lambda>r. pr_id r = pr_id record) (\<lambda>_. record) rows
      else rows @ [record])"

fun save_all ::
  "int \<Rightarrow> port_record list \<Rightarrow> port_reservation list \<Rightarrow> ('s port_db_scheme, port_error, unit) act" where
  "save_all now existing [] = return_ok ()"
| "save_all now existing (v # vs) =
     andthen (external Ports_DB) (\<lambda>_.
     andthen (modify (\<lambda>s. s\<lparr>port_rows := save_row (merged_record now existing v) (port_rows s)\<rparr>)) (\<lambda>_.
     save_all now existing vs))"

definition keeps_row :: "int \<Rightarrow> port_reservation list \<Rightarrow> port_record \<Rightarrow> bool" where
  "keeps_row now values r \<longleftrightarrow>
     pr_id r \<in> pr_id ` set values \<or> pr_state r = Res_Released \<or>
     (pr_lease r \<noteq> [] \<and> pr_state r = Res_Planned \<and>
      (case pr_expires r of None \<Rightarrow> False | Some t \<Rightarrow> t > now))"

definition retire_row :: "int \<Rightarrow> reservation_state \<Rightarrow> port_record \<Rightarrow> port_record" where
  "retire_row now state r =
     (if state = Res_Releasing
      then r\<lparr>pr_state := Res_Released, pr_released := Some now, pr_updated := now\<rparr>
      else r\<lparr>pr_state := Res_Releasing, pr_updated := now\<rparr>)"

fun retire_all ::
  "int \<Rightarrow> port_reservation list \<Rightarrow> port_record list \<Rightarrow> ('s port_db_scheme, port_error, unit) act" where
  "retire_all now values [] = return_ok ()"
| "retire_all now values (x # xs) =
     (if keeps_row now values x then retire_all now values xs
      else
        andthen (external Ports_DB) (\<lambda>_.
        andthen (modify (\<lambda>s. s\<lparr>port_rows := update_where (\<lambda>r. pr_id r = pr_id x)
          (retire_row now (pr_state x)) (port_rows s)\<rparr>)) (\<lambda>_.
        retire_all now values xs)))"

definition replace_port_reservations ::
  "port_reservation list \<Rightarrow> ('s port_db_scheme, port_error, unit) act" where
  "replace_port_reservations values =
     andthen read_now (\<lambda>now.
     transaction Ports_DB
       (andthen (external Ports_DB) (\<lambda>_.
        andthen (query port_rows) (\<lambda>existing.
        andthen (save_all now existing values) (\<lambda>_.
        retire_all now values existing)))))"

section \<open>The search\<close>

lemma find_port_Inr:
  "find_port conflict strict p = Inr q \<Longrightarrow>
     p \<le> q \<and> (q \<le> 65535 \<longrightarrow> \<not> conflict q) \<and> (\<forall>x. p \<le> x \<and> x < q \<longrightarrow> conflict x) \<and> (strict \<longrightarrow> q = p)"
proof (induction conflict strict p rule: find_port.induct)
  case (1 conflict strict p)
  show ?case
  proof (cases "p \<le> 65535 \<and> conflict p")
    case True
    with "1.prems" have "\<not> strict" and "find_port conflict strict (p + 1) = Inr q"
      by (auto simp: find_port.simps [of conflict strict p] split: if_splits)
    with "1.IH" [OF True] True show ?thesis
      by (metis zle_add1_eq_le add.commute order_le_less not_le zless_add1_eq)
  next
    case False
    with "1.prems" show ?thesis by (auto simp: find_port.simps [of conflict strict p])
  qed
qed

lemma find_port_Inl: "find_port conflict strict p = Inl q \<Longrightarrow> strict \<and> q = p \<and> conflict p \<and> p \<le> 65535"
proof (induction conflict strict p rule: find_port.induct)
  case (1 conflict strict p)
  then show ?case
    by (cases "p \<le> 65535 \<and> conflict p") (auto simp: find_port.simps [of conflict strict p] split: if_splits)
qed

lemma bind_conflict_sym: "bind_addresses_conflict a b = bind_addresses_conflict b a"
  by (auto simp: bind_addresses_conflict_def Let_def)

lemma bind_conflict_refl [simp]: "bind_addresses_conflict a a"
  by (simp add: bind_addresses_conflict_def)

lemma record_conflict_iff:
  "record_conflict records room item bind port \<longleftrightarrow>
     (\<exists>r \<in> set records. pr_port r = port \<and> bind_addresses_conflict (pr_bind r) bind \<and>
        \<not> (pr_room r = room \<and> pr_world r = pq_world item \<and> pr_purpose r = pq_purpose item))"
  by (induction records) auto

section \<open>What a reservation gets\<close>

definition first_fit ::
  "port_record list \<Rightarrow> port_reservation list \<Rightarrow> string \<Rightarrow> profile_record \<Rightarrow> port_request \<Rightarrow> port_reservation \<Rightarrow> bool"
where
  "first_fit records allocated room profile item r \<longleftrightarrow>
     valid_item item \<and> pr_world r = pq_world item \<and> pr_purpose r = pq_purpose item \<and>
     pq_preferred item \<le> pr_port r \<and> pr_port r \<le> 65535 \<and>
     (pq_strict item \<longrightarrow> pr_port r = pq_preferred item) \<and>
     \<not> reservation_port_conflict records allocated room item profile (pr_port r) \<and>
     (\<forall>p. pq_preferred item \<le> p \<and> p < pr_port r \<longrightarrow>
        reservation_port_conflict records allocated room item profile p)"

definition planned_for ::
  "allocation_request \<Rightarrow> profile_record \<Rightarrow> string \<Rightarrow> int \<Rightarrow> port_reservation \<Rightarrow> bool" where
  "planned_for request profile lease_id expires r \<longleftrightarrow>
     pr_scope r = np_scope profile \<and> pr_room r = ar_room request \<and> pr_target r = ar_target request \<and>
     pr_owner r = ar_owner request \<and> pr_protocol r = ''udp'' \<and> pr_bind r = np_bind profile \<and>
     pr_state r = Res_Planned \<and> pr_lease r = lease_id \<and> pr_expires r = Some expires"

lemma reserve_item_Inr:
  assumes "reserve_item digest request environment profile lease_id now expires records allocated raw s
             = (Inr r, s')"
  shows "first_fit records allocated (ar_room request) profile (trim_item raw) r \<and>
    planned_for request profile lease_id expires r \<and>
    port_rows s' = port_rows s @ [port_record_from_reservation r now] \<and>
    (\<forall>x \<in> set (port_rows s). pr_id x \<noteq> pr_id r)"
proof -
  let ?conflict = "reservation_port_conflict records allocated (ar_room request) (trim_item raw) profile"
  from assms obtain p where p: "find_port ?conflict (pq_strict (trim_item raw))
      (pq_preferred (trim_item raw)) = Inr p" "p \<le> 65535"
    and r: "r = new_reservation digest request environment profile lease_id expires (trim_item raw) p"
    and "valid_item (trim_item raw)"
    and rows: "port_rows s' = port_rows s @ [port_record_from_reservation r now]"
      "\<forall>x \<in> set (port_rows s). pr_id x \<noteq> pr_id r"
    by (auto simp: reserve_item_def Let_def andthen_eq_Inr_iff split: sum.splits)
  with find_port_Inr [OF p(1)] show ?thesis
    by (auto simp: first_fit_def planned_for_def new_reservation_def)
qed

lemma reserve_items_Inr:
  assumes "reserve_items digest request environment profile lease_id now expires records allocated qs s
             = (Inr result, s')"
  shows "\<exists>rs. result = allocated @ rs \<and> length rs = length qs \<and>
    (\<forall>i < length rs. first_fit records (allocated @ take i rs) (ar_room request) profile
                        (trim_item (qs ! i)) (rs ! i)) \<and>
    (\<forall>r \<in> set rs. planned_for request profile lease_id expires r) \<and>
    port_rows s' = port_rows s @ map (\<lambda>r. port_record_from_reservation r now) rs \<and>
    (distinct (map pr_id (port_rows s)) \<longrightarrow> distinct (map pr_id (port_rows s')))"
  using assms
proof (induction qs arbitrary: allocated s)
  case Nil
  then show ?case by simp
next
  case (Cons q qs)
  then obtain r s1 where item: "reserve_item digest request environment profile lease_id now expires
        records allocated q s = (Inr r, s1)"
    and rest: "reserve_items digest request environment profile lease_id now expires records
        (allocated @ [r]) qs s1 = (Inr result, s')"
    by (auto simp: andthen_eq_Inr_iff)
  note item = reserve_item_Inr [OF item]
  from Cons.IH [OF rest] obtain rs where rs: "result = allocated @ r # rs" "length rs = length qs"
      "\<forall>i < length rs. first_fit records (allocated @ r # take i rs) (ar_room request) profile
         (trim_item (qs ! i)) (rs ! i)"
      "\<forall>r \<in> set rs. planned_for request profile lease_id expires r"
      "port_rows s' = port_rows s1 @ map (\<lambda>r. port_record_from_reservation r now) rs"
      "distinct (map pr_id (port_rows s1)) \<longrightarrow> distinct (map pr_id (port_rows s'))"
    by auto
  have "pr_id (port_record_from_reservation r now) = pr_id r"
    by (simp add: port_record_from_reservation_def port_reservation.defs)
  with rs item have "distinct (map pr_id (port_rows s)) \<longrightarrow> distinct (map pr_id (port_rows s'))"
    by auto
  moreover have "\<forall>i < length (r # rs). first_fit records (allocated @ take i (r # rs)) (ar_room request)
      profile (trim_item ((q # qs) ! i)) ((r # rs) ! i)"
    using rs(3) item by (auto simp: less_Suc_eq_0_disj)
  ultimately show ?case using rs item by (intro exI [of _ "r # rs"]) auto
qed

text \<open>A reservation conflicts with none before it, and all share the profile's address.\<close>

lemma first_fit_distinct:
  assumes "\<forall>i < length rs. first_fit records (take i rs) room profile (f i) (rs ! i)"
    and "\<forall>r \<in> set rs. pr_bind r = np_bind profile"
  shows "distinct (map pr_port rs)"
proof -
  have "pr_port (rs ! i) \<noteq> pr_port (rs ! j)" if "i < j" "j < length rs" for i j
  proof
    assume same: "pr_port (rs ! i) = pr_port (rs ! j)"
    have "rs ! i \<in> set (take j rs)" using that by (auto simp: in_set_conv_nth intro!: exI [of _ i])
    moreover have "pr_bind (rs ! i) = np_bind profile" using assms(2) that by simp
    ultimately have "reservation_port_conflict records (take j rs) room (f j) profile (pr_port (rs ! j))"
      using same by (auto simp: reservation_port_conflict_def)
    with assms(1) that(2) show False by (auto simp: first_fit_def)
  qed
  then show ?thesis
    unfolding distinct_conv_nth by (metis length_map nth_map linorder_neqE_nat)
qed

section \<open>The invariant of the table\<close>

text \<open>
  Identifiers are unique, and two live UDP reservations of one network scope that would bind the
  same port on overlapping addresses belong to the same world and purpose.
\<close>

definition same_claimant :: "port_record \<Rightarrow> port_record \<Rightarrow> bool" where
  "same_claimant x y \<longleftrightarrow> pr_room x = pr_room y \<and> pr_world x = pr_world y \<and> pr_purpose x = pr_purpose y"

definition collide :: "port_record \<Rightarrow> port_record \<Rightarrow> bool" where
  "collide x y \<longleftrightarrow>
     live_in_scope (pr_scope x) x \<and> live_in_scope (pr_scope x) y \<and> pr_port x = pr_port y \<and>
     bind_addresses_conflict (pr_bind x) (pr_bind y)"

definition ports_inv :: "port_record list \<Rightarrow> bool" where
  "ports_inv rows \<longleftrightarrow>
     distinct (map pr_id rows) \<and>
     (\<forall>x \<in> set rows. \<forall>y \<in> set rows. collide x y \<longrightarrow> same_claimant x y)"

lemma collide_sym: "collide x y = collide y x"
  by (auto simp: collide_def live_in_scope_def bind_conflict_sym)

lemma same_claimant_sym: "same_claimant x y = same_claimant y x"
  by (auto simp: same_claimant_def)

definition keeps_claim :: "port_record \<Rightarrow> port_record \<Rightarrow> bool" where
  "keeps_claim r r' \<longleftrightarrow>
     pr_id r' = pr_id r \<and> pr_scope r' = pr_scope r \<and> pr_protocol r' = pr_protocol r \<and>
     pr_bind r' = pr_bind r \<and> pr_port r' = pr_port r \<and> pr_room r' = pr_room r \<and>
     pr_world r' = pr_world r \<and> pr_purpose r' = pr_purpose r \<and>
     (live_state (pr_state r') \<longrightarrow> live_state (pr_state r))"

text \<open>A change that only lets reservations die keeps the invariant.\<close>

lemma ports_inv_map:
  assumes "ports_inv rows" and g: "\<And>r. r \<in> set rows \<Longrightarrow> keeps_claim r (g r)"
  shows "ports_inv (map g rows)"
proof -
  have ids: "map pr_id (map g rows) = map pr_id rows"
    using g by (simp add: keeps_claim_def)
  have "same_claimant (g x) (g y)" if "x \<in> set rows" "y \<in> set rows" "collide (g x) (g y)" for x y
  proof -
    note gx = g [OF that(1)] and gy = g [OF that(2)]
    have "collide x y"
      using that(3) gx gy unfolding collide_def live_in_scope_def keeps_claim_def by metis
    then have "same_claimant x y" using assms(1) that by (simp add: ports_inv_def)
    then show ?thesis using gx gy by (simp add: same_claimant_def keeps_claim_def)
  qed
  then show ?thesis using assms(1) unfolding ports_inv_def ids by simp
qed

lemma keeps_claim_refl [simp]: "keeps_claim r r"
  by (simp add: keeps_claim_def)

lemma ports_inv_update:
  "ports_inv rows \<Longrightarrow> (\<And>r. P r \<Longrightarrow> keeps_claim r (f r)) \<Longrightarrow> ports_inv (update_where P f rows)"
  unfolding update_where_def by (rule ports_inv_map) simp_all

text \<open>Adding what \<open>reserve_items\<close> found keeps it too.\<close>

lemma record_fields [simp]:
  "pr_id (port_record_from_reservation r now) = pr_id r"
  "pr_scope (port_record_from_reservation r now) = pr_scope r"
  "pr_room (port_record_from_reservation r now) = pr_room r"
  "pr_world (port_record_from_reservation r now) = pr_world r"
  "pr_purpose (port_record_from_reservation r now) = pr_purpose r"
  "pr_protocol (port_record_from_reservation r now) = pr_protocol r"
  "pr_bind (port_record_from_reservation r now) = pr_bind r"
  "pr_port (port_record_from_reservation r now) = pr_port r"
  "pr_state (port_record_from_reservation r now) = pr_state r"
  by (simp_all add: port_record_from_reservation_def port_reservation.defs)

lemma ports_inv_reserved:
  assumes "ports_inv rows"
    and fit: "\<forall>i < length rs. first_fit (filter (live_in_scope (np_scope profile)) rows) (take i rs)
                (ar_room request) profile (f i) (rs ! i)"
    and plan: "\<forall>r \<in> set rs. planned_for request profile lease_id expires r"
    and ids: "distinct (map pr_id (rows @ map (\<lambda>r. port_record_from_reservation r now) rs))"
  shows "ports_inv (rows @ map (\<lambda>r. port_record_from_reservation r now) rs)"
proof -
  let ?rec = "\<lambda>r. port_record_from_reservation r now"
  have old: "same_claimant x (?rec r)" if x: "x \<in> set rows" and r: "r \<in> set rs" and c: "collide x (?rec r)"
    for x r
  proof -
    from r obtain i where i: "i < length rs" "rs ! i = r" by (auto simp: in_set_conv_nth)
    have p: "planned_for request profile lease_id expires r" using plan r by blast
    with c have "x \<in> set (filter (live_in_scope (np_scope profile)) rows)" "pr_port x = pr_port r"
        "bind_addresses_conflict (pr_bind x) (np_bind profile)"
      using x by (auto simp: collide_def live_in_scope_def planned_for_def)
    then have "pr_room x = ar_room request \<and> pr_world x = pr_world r \<and> pr_purpose x = pr_purpose r"
      using fit i unfolding first_fit_def reservation_port_conflict_def record_conflict_iff by metis
    then show ?thesis using p by (simp add: same_claimant_def planned_for_def)
  qed
  have "distinct (map pr_port rs)"
    using fit plan by (intro first_fit_distinct [of rs _ "ar_room request" profile f])
      (auto simp: planned_for_def)
  then have new: "same_claimant (?rec x) (?rec y)" if "x \<in> set rs" "y \<in> set rs" "collide (?rec x) (?rec y)"
    for x y
    using that distinct_key_eq [of pr_port rs x y] by (auto simp: collide_def same_claimant_def)
  show ?thesis
    using assms(1) ids old new collide_sym same_claimant_sym unfolding ports_inv_def
    by (auto simp del: map_append)
qed

section \<open>The store's operations\<close>

lemma lock_scope_rows:
  "lock_scope scope now s = (Inr u, s') \<Longrightarrow>
     port_rows s' = port_rows s \<and> environments s' = environments s \<and> profiles s' = profiles s"
  by (auto simp: lock_scope_def andthen_eq_Inr_iff split: if_splits)

lemma ports_inv_sweep: "ports_inv rows \<Longrightarrow> ports_inv (sweep_plans now rows)"
  unfolding sweep_plans_def
  by (rule ports_inv_update) (auto simp: keeps_claim_def live_state_def)

lemma reserve_tx_Inr:
  assumes "reserve_tx digest request s = (Inr a, s')"
  obtains environment profile now s1 where
    "List.find (\<lambda>e. er_target e = ar_target request) (environments s) = Some environment"
    "List.find (\<lambda>p. np_id p = er_profile environment) (profiles s) = Some profile"
    "port_rows s1 = sweep_plans now (port_rows s)"
    "pa_expires a = now + ar_ttl request"
    "reserve_items digest request environment profile (pa_lease a) now (pa_expires a)
       (filter (live_in_scope (np_scope profile)) (port_rows s1)) []
       (sort_requests (ar_requests request)) s1 = (Inr (pa_reservations a), s')"
proof -
  from assms obtain environment profile where
    found: "List.find (\<lambda>e. er_target e = ar_target request) (environments s) = Some environment"
      "List.find (\<lambda>p. np_id p = er_profile environment) (profiles s) = Some profile"
    by (auto simp: reserve_tx_def andthen_eq_Inr_iff split: option.splits)
  with assms obtain s2 where
    lock: "lock_scope (np_scope profile) (clock s (Suc (Suc (step s))))
             (s\<lparr>step := Suc (Suc (Suc (step s)))\<rparr>) = (Inr (), s2)"
    and rest: "reserve_items digest request environment profile (pa_lease a)
       (clock s (Suc (Suc (step s)))) (pa_expires a)
       (filter (live_in_scope (np_scope profile)) (sweep_plans (clock s (Suc (Suc (step s)))) (port_rows s2))) []
       (sort_requests (ar_requests request))
       (s2\<lparr>port_rows := sweep_plans (clock s (Suc (Suc (step s)))) (port_rows s2),
           step := Suc (Suc (Suc (step s2)))\<rparr>) = (Inr (pa_reservations a), s')"
      "pa_expires a = clock s (Suc (Suc (step s))) + ar_ttl request"
    by (auto simp: reserve_tx_def andthen_eq_Inr_iff)
  from lock_scope_rows [OF lock] show ?thesis
    by (intro that [OF found _ rest(2), of "s2\<lparr>port_rows := sweep_plans (clock s (Suc (Suc (step s)))) (port_rows s2),
           step := Suc (Suc (Suc (step s2)))\<rparr>"]) (use rest(1) in simp_all)
qed

lemma reserve_ports_Inr:
  assumes "reserve_ports digest raw s = (Inr a, s')"
  shows "\<exists>profile now. profile \<in> set (profiles s) \<and>
    (\<forall>r \<in> set (pa_reservations a). planned_for (normalize_allocation raw) profile (pa_lease a) (pa_expires a) r) \<and>
    length (pa_reservations a) = length (ar_requests raw) \<and>
    (\<forall>i < length (ar_requests raw).
       first_fit (filter (live_in_scope (np_scope profile)) (sweep_plans now (port_rows s)))
         (take i (pa_reservations a)) (trim_space (ar_room raw)) profile
         (trim_item (sort_requests (ar_requests raw) ! i)) (pa_reservations a ! i)) \<and>
    port_rows s' = sweep_plans now (port_rows s) @
      map (\<lambda>r. port_record_from_reservation r now) (pa_reservations a) \<and>
    (distinct (map pr_id (port_rows s)) \<longrightarrow> distinct (map pr_id (port_rows s')))"
proof -
  let ?request = "normalize_allocation raw"
  have req: "ar_requests ?request = ar_requests raw" "ar_room ?request = trim_space (ar_room raw)"
    by (simp_all add: normalize_allocation_def)
  from assms obtain s1 where "reserve_tx digest ?request (s\<lparr>step := Suc (step s)\<rparr>) = (Inr a, s1)"
    and s': "port_rows s' = port_rows s1"
    by (auto simp: reserve_ports_def Let_def andthen_eq_Inr_iff transaction_eq_Inr)
  then obtain environment profile now s2 where
    prof: "List.find (\<lambda>p. np_id p = er_profile environment) (profiles s) = Some profile"
    and rows: "port_rows s2 = sweep_plans now (port_rows s)"
    and items: "reserve_items digest ?request environment profile (pa_lease a) now (pa_expires a)
       (filter (live_in_scope (np_scope profile)) (port_rows s2)) []
       (sort_requests (ar_requests raw)) s2 = (Inr (pa_reservations a), s1)"
    by (auto elim!: reserve_tx_Inr simp: req)
  have len: "length (sort_requests (ar_requests raw)) = length (ar_requests raw)"
    by (simp add: sort_requests_def)
  have dist: "distinct (map pr_id (sweep_plans now (port_rows s))) = distinct (map pr_id (port_rows s))"
    by (simp add: sweep_plans_def map_update_where)
  have "distinct (map pr_id (port_rows s2)) \<longrightarrow> distinct (map pr_id (port_rows s1))"
    using reserve_items_Inr [OF items] by blast
  then have "distinct (map pr_id (port_rows s)) \<longrightarrow> distinct (map pr_id (port_rows s'))"
    using dist unfolding rows s' by blast
  moreover have "profile \<in> set (profiles s)" using find_SomeD [OF prof] by simp
  ultimately show ?thesis
    using reserve_items_Inr [OF items] rows s' len req
    by (intro exI [of _ profile] exI [of _ now]) (auto simp del: map_append distinct_append)
qed

lemma reserve_ports_Inl: "reserve_ports digest raw s = (Inl e, s') \<Longrightarrow> only_steps s s'"
  by (auto simp: reserve_ports_def Let_def andthen_eq_Inl_iff dest: transaction_rollback)

lemma only_steps_ports: "only_steps s s' \<Longrightarrow> port_rows s' = port_rows s"
  by (auto simp: only_steps_def)

interpretation reserve_op: all_or_nothing port_rows "reserve_ports digest raw" for digest raw
  by unfold_locales (blast dest: reserve_ports_Inl only_steps_ports)

lemma reserve_ports_inv:
  assumes "reserve_ports digest raw s = (r, s')" and "ports_inv (port_rows s)"
  shows "ports_inv (port_rows s')"
proof (rule reserve_op.invariant_kept [where I = ports_inv, OF assms])
  fix a assume "r = Inr a"
  with assms(1) have run: "reserve_ports digest raw s = (Inr a, s')" by simp
  have ids: "distinct (map pr_id (port_rows s))" using assms(2) by (simp add: ports_inv_def)
  from reserve_ports_Inr [OF run] obtain profile now where
    fit: "\<forall>i < length (pa_reservations a).
       first_fit (filter (live_in_scope (np_scope profile)) (sweep_plans now (port_rows s)))
         (take i (pa_reservations a)) (ar_room (normalize_allocation raw)) profile
         (trim_item (sort_requests (ar_requests raw) ! i)) (pa_reservations a ! i)"
    and plan: "\<forall>r \<in> set (pa_reservations a).
       planned_for (normalize_allocation raw) profile (pa_lease a) (pa_expires a) r"
    and rows: "port_rows s' = sweep_plans now (port_rows s) @
      map (\<lambda>r. port_record_from_reservation r now) (pa_reservations a)"
    and "distinct (map pr_id (port_rows s'))"
    using ids by (auto simp: normalize_allocation_def)
  then show "ports_inv (port_rows s')"
    unfolding rows by (intro ports_inv_reserved [OF ports_inv_sweep [OF assms(2)] fit plan]) simp
qed

section \<open>Runs of the allocator\<close>

inductive port_call :: "'s port_db_scheme \<Rightarrow> 's port_db_scheme \<Rightarrow> bool" where
  reserved: "reserve_ports digest raw s = (r, s') \<Longrightarrow> port_call s s'"
| activated: "activate_ports lease_id s = (q, s') \<Longrightarrow> port_call s s'"
| release_begun: "begin_release_ports lease_id s = (q, s') \<Longrightarrow> port_call s s'"
| release_completed: "complete_release_ports lease_id s = (q, s') \<Longrightarrow> port_call s s'"

text \<open>How one call may change one row.\<close>

definition next_state :: "reservation_state \<Rightarrow> reservation_state \<Rightarrow> bool" where
  "next_state a b \<longleftrightarrow>
     (a, b) \<in> {(Res_Planned, Res_Active), (Res_Planned, Res_Releasing), (Res_Planned, Res_Released),
               (Res_Active, Res_Releasing), (Res_Releasing, Res_Released)}"

definition same_reservation :: "port_record \<Rightarrow> port_record \<Rightarrow> bool" where
  "same_reservation x y \<longleftrightarrow>
     y\<lparr>pr_state := pr_state x, pr_expires := pr_expires x, pr_activated := pr_activated x,
       pr_released := pr_released x, pr_updated := pr_updated x\<rparr> = x"

definition row_change :: "port_record \<Rightarrow> port_record \<Rightarrow> bool" where
  "row_change x y \<longleftrightarrow>
     y = x \<or> keeps_claim x y \<and> same_reservation x y \<and> next_state (pr_state x) (pr_state y)"

definition rows_move :: "port_record list \<Rightarrow> port_record list \<Rightarrow> bool" where
  "rows_move rows rows' \<longleftrightarrow> (\<exists>f. rows' = map f rows \<and> (\<forall>r \<in> set rows. row_change r (f r)))"

interpretation reservation: lifecycle row_change "\<lambda>r. pr_state r = Res_Released"
  by unfold_locales (auto simp: row_change_def next_state_def)

lemma rows_move_refl [simp]: "rows_move rows rows"
  unfolding rows_move_def by (rule exI [of _ "\<lambda>r. r"]) (auto simp: row_change_def)

lemma rows_move_update:
  "(\<And>r. P r \<Longrightarrow> keeps_claim r (f r) \<and> same_reservation r (f r) \<and> next_state (pr_state r) (pr_state (f r))) \<Longrightarrow>
   rows_move rows (update_where P f rows)"
  unfolding rows_move_def update_where_def
  by (rule exI [of _ "\<lambda>r. if P r then f r else r"]) (auto simp: row_change_def)

lemma row_change_claim: "row_change x y \<Longrightarrow> keeps_claim x y"
  by (auto simp: row_change_def)

lemma ports_inv_move: "ports_inv rows \<Longrightarrow> rows_move rows rows' \<Longrightarrow> ports_inv rows'"
  by (auto simp: rows_move_def intro!: ports_inv_map row_change_claim)

lemmas state_moves = keeps_claim_def same_reservation_def next_state_def live_state_def

lemma activate_moves: "activate_ports lease_id s = (q, s') \<Longrightarrow> rows_move (port_rows s) (port_rows s')"
  by (auto simp: activate_ports_def Let_def andthen_def external_def guard_def state_moves
      intro!: rows_move_update split: if_splits)

lemma begin_release_moves:
  "begin_release_ports lease_id s = (q, s') \<Longrightarrow> rows_move (port_rows s) (port_rows s')"
  by (auto simp: begin_release_ports_def Let_def andthen_def external_def guard_def state_moves
      intro!: rows_move_update split: if_splits)

lemma complete_release_moves:
  "complete_release_ports lease_id s = (q, s') \<Longrightarrow> rows_move (port_rows s) (port_rows s')"
  by (auto simp: complete_release_ports_def Let_def andthen_def external_def guard_def state_moves
      intro!: rows_move_update split: if_splits)

lemma sweep_moves: "rows_move rows (sweep_plans now rows)"
  unfolding sweep_plans_def by (rule rows_move_update) (auto simp: ended_plan_def state_moves)

lemma reserve_moves:
  assumes "reserve_ports digest raw s = (r, s')"
  shows "\<exists>mid new. rows_move (port_rows s) mid \<and> port_rows s' = mid @ new"
proof (cases r)
  case (Inl e)
  with assms show ?thesis
    using reserve_op.failed_unchanged by (metis append_Nil2 rows_move_refl)
next
  case (Inr a)
  with assms have "reserve_ports digest raw s = (Inr a, s')" by simp
  from reserve_ports_Inr [OF this] show ?thesis using sweep_moves by blast
qed

lemmas port_moves = activate_moves begin_release_moves complete_release_moves

lemma port_call_moves:
  "port_call s s' \<Longrightarrow> \<exists>mid new. rows_move (port_rows s) mid \<and> port_rows s' = mid @ new"
  by (erule port_call.cases) (metis reserve_moves port_moves append_Nil2)+

lemma port_call_inv: "port_call s s' \<Longrightarrow> ports_inv (port_rows s) \<Longrightarrow> ports_inv (port_rows s')"
  by (erule port_call.cases) (metis reserve_ports_inv port_moves ports_inv_move)+

lemma reserve_items_conflict:
  "reserve_items digest request environment profile lease_id now expires records allocated qs s
     = (Inl (Ports_ConflictAt c), s') \<Longrightarrow>
   \<exists>q \<in> set qs. pq_strict q \<and> valid_item (trim_item q) \<and> rc_port c = pq_preferred q \<and>
     rc_world c = trim_space (pq_world q)"
proof (induction qs arbitrary: allocated s)
  case (Cons q qs)
  then consider "reserve_item digest request environment profile lease_id now expires records allocated q s
      = (Inl (Ports_ConflictAt c), s')"
    | r s1 where "reserve_items digest request environment profile lease_id now expires records
        (allocated @ [r]) qs s1 = (Inl (Ports_ConflictAt c), s')"
    by (auto simp: andthen_eq_Inl_iff)
  then show ?case
  proof cases
    case 1
    then show ?thesis
      by (auto simp: reserve_item_def Let_def andthen_eq_Inl_iff trim_item_def
          split: sum.splits dest: find_port_Inl)
  next
    case 2
    with Cons.IH show ?thesis by auto
  qed
qed simp

lemma lock_scope_conflict: "lock_scope scope now s \<noteq> (Inl (Ports_ConflictAt c), s')"
  by (auto simp: lock_scope_def andthen_eq_Inl_iff split: if_splits)

lemma lock_scope_script: "lock_scope scope now s = (Inr u, s') \<Longrightarrow> same_script s s'"
  by (auto simp: lock_scope_def andthen_eq_Inr_iff same_script_def split: if_splits)

lemma reserve_item_script:
  "reserve_item digest request environment profile lease_id now expires records allocated q s
     = (Inr r, s') \<Longrightarrow> same_script s s'"
  by (auto simp: reserve_item_def Let_def andthen_eq_Inr_iff same_script_def split: sum.splits)

lemma reserve_items_script:
  "reserve_items digest request environment profile lease_id now expires records allocated qs s
     = (Inr rs, s') \<Longrightarrow> same_script s s'"
proof (induction qs arbitrary: allocated s)
  case Nil
  then show ?case by (simp add: same_script_def)
next
  case (Cons q qs)
  then obtain r s1 where "reserve_item digest request environment profile lease_id now expires records
      allocated q s = (Inr r, s1)"
    and "reserve_items digest request environment profile lease_id now expires records
      (allocated @ [r]) qs s1 = (Inr rs, s')"
    by (auto simp: andthen_eq_Inr_iff)
  with Cons.IH reserve_item_script show ?case by (blast intro: same_script_trans)
qed

lemma reserve_ports_script:
  assumes "reserve_ports digest raw s = (Inr a, s')"
  shows "same_script s s'"
proof -
  from assms obtain s1 where tx: "reserve_tx digest (normalize_allocation raw) (s\<lparr>step := Suc (step s)\<rparr>) = (Inr a, s1)"
    and s': "same_script s1 s'"
    by (auto simp: reserve_ports_def Let_def andthen_eq_Inr_iff transaction_eq_Inr same_script_def)
  from tx have "same_script s s1"
    by (auto simp: reserve_tx_def andthen_eq_Inr_iff same_script_def split: option.splits
        dest!: lock_scope_script reserve_items_script)
  then show ?thesis using s' by (rule same_script_trans)
qed

lemma record_lease [simp]:
  "pr_lease (port_record_from_reservation r now) = pr_lease r"
  "pr_expires (port_record_from_reservation r now) = pr_expires r"
  by (simp_all add: port_record_from_reservation_def port_reservation.defs)

text \<open>Rebuilding leaves every row it keeps alone, whatever it saves.\<close>

lemma save_all_keeps:
  "save_all now existing vs s = (Inr u, s') \<Longrightarrow> x \<in> set (port_rows s) \<Longrightarrow> pr_id x \<notin> pr_id ` set vs \<Longrightarrow>
   x \<in> set (port_rows s')"
proof (induction vs arbitrary: s)
  case (Cons v vs)
  have id: "pr_id (merged_record now existing v) = pr_id v"
    by (simp add: merged_record_def Let_def split: option.split)
  from Cons.prems have "x \<in> set (save_row (merged_record now existing v) (port_rows s))"
    by (auto simp: save_row_def set_update_where id intro!: bexI [of _ x])
  moreover from Cons.prems(1) have "save_all now existing vs (s\<lparr>step := Suc (step s),
      port_rows := save_row (merged_record now existing v) (port_rows s)\<rparr>) = (Inr u, s')"
    by (auto simp: andthen_eq_Inr_iff)
  ultimately show ?case using Cons.prems(3) by (intro Cons.IH) auto
qed simp

lemma retire_all_keeps:
  "retire_all now values xs s = (Inr u, s') \<Longrightarrow> x \<in> set (port_rows s) \<Longrightarrow>
   (\<And>y. y \<in> set xs \<Longrightarrow> \<not> keeps_row now values y \<Longrightarrow> pr_id y \<noteq> pr_id x) \<Longrightarrow> x \<in> set (port_rows s')"
proof (induction xs arbitrary: s)
  case (Cons y ys)
  show ?case
  proof (cases "keeps_row now values y")
    case True
    with Cons show ?thesis by simp
  next
    case False
    then have "pr_id y \<noteq> pr_id x" using Cons.prems(3) by simp
    then have "x \<in> set (update_where (\<lambda>r. pr_id r = pr_id y) (retire_row now (pr_state y)) (port_rows s))"
      using Cons.prems(2) by (auto simp: set_update_where intro!: bexI [of _ x])
    moreover from Cons.prems(1) False have "retire_all now values ys (s\<lparr>step := Suc (step s),
        port_rows := update_where (\<lambda>r. pr_id r = pr_id y) (retire_row now (pr_state y)) (port_rows s)\<rparr>)
        = (Inr u, s')"
      by (auto simp: andthen_eq_Inr_iff)
    ultimately show ?thesis using Cons.prems(3) by (intro Cons.IH) auto
  qed
qed simp

section \<open>Rebuilds between the calls\<close>

text \<open>A run of the allocator in which inspections may rebuild the table, as long as none of them names
  the reservation \<open>i\<close>: what a host reports of its own servers has other identifiers than the
  allocator gives.\<close>

inductive port_step :: "string \<Rightarrow> 's port_db_scheme \<Rightarrow> 's port_db_scheme \<Rightarrow> bool" for i where
  allocator_step: "port_call s s' \<Longrightarrow> port_step i s s'"
| rebuild_step: "replace_port_reservations values s = (q, s') \<Longrightarrow> i \<notin> pr_id ` set values \<Longrightarrow> port_step i s s'"

definition next_stage :: "reservation_state \<Rightarrow> reservation_state \<Rightarrow> bool" where
  "next_stage a b \<longleftrightarrow> next_state a b \<or> a \<in> {Res_Configured, Res_Observed} \<and> b = Res_Releasing"

definition row_step :: "port_record \<Rightarrow> port_record \<Rightarrow> bool" where
  "row_step x y \<longleftrightarrow> y = x \<or> same_reservation x y \<and> next_stage (pr_state x) (pr_state y)"

interpretation rebuilt_reservation: lifecycle row_step "\<lambda>r. pr_state r = Res_Released"
  by unfold_locales (auto simp: row_step_def next_stage_def next_state_def)

lemma same_reservation_id: "same_reservation x y \<Longrightarrow> pr_id y = pr_id x"
  unfolding same_reservation_def by (drule arg_cong [of _ _ pr_id]) simp

lemma same_reservation_refl: "same_reservation x x"
  by (simp add: same_reservation_def)

lemma same_reservation_trans: "same_reservation x y \<Longrightarrow> same_reservation y z \<Longrightarrow> same_reservation x z"
  unfolding same_reservation_def by (cases x; cases y; cases z) simp

lemma row_steps_path:
  "row_step\<^sup>*\<^sup>* x y \<Longrightarrow> same_reservation x y \<and> next_stage\<^sup>*\<^sup>* (pr_state x) (pr_state y)"
  by (induction rule: rtranclp_induct)
    (auto simp: row_step_def same_reservation_refl intro: same_reservation_trans rtranclp.rtrancl_into_rtrancl)

lemma retire_row_same: "same_reservation x (retire_row now st x)"
  by (cases x) (simp add: same_reservation_def retire_row_def)

lemma retire_row_step:
  assumes "pr_state x \<noteq> Res_Released"
  shows "row_step x (retire_row now (pr_state x) x)"
proof -
  have "pr_state (retire_row now st x) = (if st = Res_Releasing then Res_Released else Res_Releasing)" for st
    by (simp add: retire_row_def)
  moreover have "next_stage st (if st = Res_Releasing then Res_Released else Res_Releasing)"
    if "st \<noteq> Res_Released" for st
    using that by (cases st) (simp_all add: next_stage_def next_state_def)
  ultimately show ?thesis using assms retire_row_same by (simp add: row_step_def)
qed

lemma save_all_ids:
  "save_all now existing vs s = (Inr u, s') \<Longrightarrow> distinct (map pr_id (port_rows s)) \<Longrightarrow>
   distinct (map pr_id (port_rows s'))"
proof (induction vs arbitrary: s)
  case (Cons v vs)
  have "distinct (map pr_id (save_row rec (port_rows s)))" for rec
    using Cons.prems(2) map_update_where [of "port_rows s" "\<lambda>r. pr_id r = pr_id rec" pr_id "\<lambda>_. rec"]
    by (auto simp: save_row_def)
  with Cons.prems(1) show ?case by (auto simp: andthen_eq_Inr_iff intro: Cons.IH)
qed simp

lemma retire_all_ids:
  "retire_all now values xs s = (Inr u, s') \<Longrightarrow> map pr_id (port_rows s') = map pr_id (port_rows s)"
proof (induction xs arbitrary: s)
  case (Cons x xs)
  have "map pr_id (update_where P (retire_row now st) rows) = map pr_id rows" for P st rows
    by (rule map_update_where) (simp add: retire_row_def)
  with Cons show ?case by (auto simp: andthen_eq_Inr_iff split: if_splits)
qed simp

lemma retire_all_row:
  "retire_all now values xs s = (Inr u, s') \<Longrightarrow> distinct (map pr_id xs) \<Longrightarrow> x \<in> set (port_rows s) \<Longrightarrow>
   (\<And>y. y \<in> set xs \<Longrightarrow> pr_id y = pr_id x \<Longrightarrow> y = x) \<Longrightarrow> \<exists>x' \<in> set (port_rows s'). row_step x x'"
proof (induction xs arbitrary: s)
  case Nil
  then show ?case by (auto simp: row_step_def)
next
  case (Cons y ys)
  let ?rows = "update_where (\<lambda>r. pr_id r = pr_id y) (retire_row now (pr_state y)) (port_rows s)"
  let ?s = "s\<lparr>step := Suc (step s), port_rows := ?rows\<rparr>"
  show ?case
  proof (cases "keeps_row now values y")
    case True
    with Cons show ?thesis by simp
  next
    case False
    then have state: "pr_state y \<noteq> Res_Released" by (auto simp: keeps_row_def)
    from Cons.prems(1) False have run: "retire_all now values ys ?s = (Inr u, s')"
      by (auto simp: andthen_eq_Inr_iff)
    show ?thesis
    proof (cases "pr_id y = pr_id x")
      case True
      then have y: "y = x" using Cons.prems(4) by simp
      have "retire_row now (pr_state x) x \<in> set (port_rows ?s)"
        using update_where_hit [OF Cons.prems(3), of "\<lambda>r. pr_id r = pr_id y"] by (simp add: y)
      moreover have "pr_id z \<noteq> pr_id (retire_row now (pr_state x) x)" if z: "z \<in> set ys" for z
      proof -
        have "pr_id x \<notin> pr_id ` set ys" using Cons.prems(2) by (simp add: y)
        moreover have "pr_id z \<in> pr_id ` set ys" using z by (rule imageI)
        ultimately show ?thesis using same_reservation_id [OF retire_row_same] by metis
      qed
      ultimately have "retire_row now (pr_state x) x \<in> set (port_rows s')"
        by (intro retire_all_keeps [OF run])
      with state y show ?thesis by (blast intro: retire_row_step)
    next
      case False
      then have "x \<in> set (port_rows ?s)"
        using Cons.prems(3) by (auto simp: set_update_where intro!: bexI [of _ x])
      with Cons.prems(2,4) show ?thesis by (intro Cons.IH [OF run]) auto
    qed
  qed
qed

lemma rebuild_row:
  assumes "replace_port_reservations values s = (q, s')" and ids: "distinct (map pr_id (port_rows s))"
  shows "distinct (map pr_id (port_rows s')) \<and>
    (\<forall>x \<in> set (port_rows s). pr_id x \<notin> pr_id ` set values \<longrightarrow> (\<exists>x' \<in> set (port_rows s'). row_step x x'))"
proof (cases q)
  case (Inl e)
  with assms(1) have "port_rows s' = port_rows s"
    by (auto simp: replace_port_reservations_def andthen_eq_Inl_iff only_steps_def dest!: transaction_rollback)
  with ids show ?thesis by (auto simp: row_step_def)
next
  case (Inr u)
  let ?now = "clock s (step s)"
  from assms(1) Inr obtain s1 s2 where save: "save_all ?now (port_rows s) values
      (s\<lparr>step := Suc (Suc (Suc (step s)))\<rparr>) = (Inr (), s1)"
    and retire: "retire_all ?now values (port_rows s) s1 = (Inr (), s2)"
    and s': "port_rows s' = port_rows s2"
    by (auto simp: replace_port_reservations_def andthen_eq_Inr_iff transaction_eq_Inr)
  have "distinct (map pr_id (port_rows s'))"
    using save_all_ids [OF save] retire_all_ids [OF retire] ids by (simp add: s')
  moreover have "\<exists>x' \<in> set (port_rows s'). row_step x x'"
    if x: "x \<in> set (port_rows s)" "pr_id x \<notin> pr_id ` set values" for x
    unfolding s'
  proof (rule retire_all_row [OF retire ids])
    show "x \<in> set (port_rows s1)" using save_all_keeps [OF save] x by simp
    show "y = x" if "y \<in> set (port_rows s)" "pr_id y = pr_id x" for y
      using distinct_key_eq [OF ids that(1) x(1) that(2)] .
  qed
  ultimately show ?thesis by blast
qed

lemma port_call_row:
  assumes "port_call s s'" and ids: "distinct (map pr_id (port_rows s))"
  shows "distinct (map pr_id (port_rows s')) \<and>
    (\<forall>x \<in> set (port_rows s). \<exists>x' \<in> set (port_rows s'). row_step x x')"
proof
  show "\<forall>x \<in> set (port_rows s). \<exists>x' \<in> set (port_rows s'). row_step x x'"
  proof
    fix x assume "x \<in> set (port_rows s)"
    moreover obtain f new where "port_rows s' = map f (port_rows s) @ new"
        "\<forall>r \<in> set (port_rows s). row_change r (f r)"
      using port_call_moves [OF assms(1)] by (auto simp: rows_move_def)
    ultimately have "f x \<in> set (port_rows s')" "row_step x (f x)"
      by (auto simp: row_change_def row_step_def next_stage_def)
    then show "\<exists>x' \<in> set (port_rows s'). row_step x x'" by blast
  qed
  have keep: "distinct (map pr_id rows')" if "rows_move (port_rows s) rows'" for rows'
  proof -
    from that obtain f where f: "rows' = map f (port_rows s)" "\<forall>r \<in> set (port_rows s). row_change r (f r)"
      unfolding rows_move_def by blast
    have "pr_id (f r) = pr_id r" if "r \<in> set (port_rows s)" for r
      using row_change_claim f(2) that by (simp add: keeps_claim_def)
    then have "map pr_id rows' = map pr_id (port_rows s)" by (simp add: f(1))
    with ids show ?thesis by simp
  qed
  show "distinct (map pr_id (port_rows s'))"
    using assms(1)
  proof cases
    case (reserved digest raw r)
    show ?thesis
    proof (cases r)
      case (Inl e)
      with reserved ids show ?thesis using reserve_op.failed_unchanged [of digest raw s e s'] by simp
    next
      case (Inr a)
      with reserved have "reserve_ports digest raw s = (Inr a, s')" by simp
      from reserve_ports_Inr [OF this] ids show ?thesis by blast
    qed
  qed (auto intro: keep port_moves)
qed

lemma port_steps_row:
  "(port_step (pr_id r))\<^sup>*\<^sup>* s s' \<Longrightarrow> distinct (map pr_id (port_rows s)) \<Longrightarrow> r \<in> set (port_rows s) \<Longrightarrow>
   distinct (map pr_id (port_rows s')) \<and> (\<exists>r' \<in> set (port_rows s'). row_step\<^sup>*\<^sup>* r r')"
proof (induction rule: rtranclp_induct)
  case (step y z)
  then obtain x where x: "x \<in> set (port_rows y)" "row_step\<^sup>*\<^sup>* r x" and ids: "distinct (map pr_id (port_rows y))"
    by blast
  have "pr_id x = pr_id r" using row_steps_path [OF x(2)] same_reservation_id by blast
  from step.hyps(2) have "distinct (map pr_id (port_rows z)) \<and> (\<exists>x' \<in> set (port_rows z). row_step x x')"
  proof cases
    case allocator_step
    from port_call_row [OF this ids] x(1) show ?thesis by blast
  next
    case (rebuild_step vs q)
    with rebuild_row [OF rebuild_step(1) ids] x(1) \<open>pr_id x = pr_id r\<close> show ?thesis by simp
  qed
  with x(2) show ?case by (meson rtranclp.rtrancl_into_rtrancl)
qed auto

section \<open>Properties\<close>

text \<open>C14: a successful \<open>ReservePorts\<close> grants one reservation per request, in the order of preferred
  port and purpose: the least port at or above the preferred one that conflicts neither with a
  live reservation of another claimant in the network scope nor with the earlier grants (exactly
  the preferred one for a strict request), all within 1 to 65535 and pairwise different; the
  table gains exactly these rows after the sweep of the ended plans.\<close>

theorem reserve_ports_first_fit:
  assumes "reserve_ports digest raw s = (Inr a, s')"
  shows "\<exists>profile now. profile \<in> set (profiles s) \<and>
    length (pa_reservations a) = length (ar_requests raw) \<and>
    (\<forall>i < length (ar_requests raw).
       first_fit (filter (live_in_scope (np_scope profile)) (sweep_plans now (port_rows s)))
         (take i (pa_reservations a)) (trim_space (ar_room raw)) profile
         (trim_item (sort_requests (ar_requests raw) ! i)) (pa_reservations a ! i)) \<and>
    distinct (map pr_port (pa_reservations a)) \<and>
    port_rows s' = sweep_plans now (port_rows s) @
      map (\<lambda>r. port_record_from_reservation r now) (pa_reservations a)"
proof -
  from reserve_ports_Inr [OF assms] obtain profile now where
    got: "profile \<in> set (profiles s)" "length (pa_reservations a) = length (ar_requests raw)"
      "\<forall>i < length (pa_reservations a).
       first_fit (filter (live_in_scope (np_scope profile)) (sweep_plans now (port_rows s)))
         (take i (pa_reservations a)) (trim_space (ar_room raw)) profile
         (trim_item (sort_requests (ar_requests raw) ! i)) (pa_reservations a ! i)"
      "\<forall>r \<in> set (pa_reservations a).
         planned_for (normalize_allocation raw) profile (pa_lease a) (pa_expires a) r"
      "port_rows s' = sweep_plans now (port_rows s) @
        map (\<lambda>r. port_record_from_reservation r now) (pa_reservations a)"
    by auto
  have "distinct (map pr_port (pa_reservations a))"
    by (rule first_fit_distinct [OF got(3)]) (use got(4) in \<open>simp add: planned_for_def\<close>)
  with got show ?thesis by auto
qed

text \<open>C5: whatever calls run, two live UDP reservations of one network scope whose addresses overlap
  and whose ports are equal belong to the same room, world and purpose.\<close>

theorem ports_never_collide:
  assumes "ports_inv (port_rows s)" and "port_call\<^sup>*\<^sup>* s s'"
    and "x \<in> set (port_rows s')" and "y \<in> set (port_rows s')" and "collide x y"
  shows "same_claimant x y"
proof -
  from assms(2,1) have "ports_inv (port_rows s')"
    by (induction rule: rtranclp_induct) (auto dest: port_call_inv)
  with assms(3-5) show ?thesis by (simp add: ports_inv_def)
qed

text \<open>C16: whatever calls of the allocator run, and whatever inspections that do not name it rebuild the
  table in between, a reservation keeps everything but its state and its times: its identity,
  claimant, lease, address and port; it moves only from planned to active to releasing to
  released (leaving out stages, never going back; a configured or observed one is retired the
  same way), and once released its row never changes again.\<close>

theorem reservation_lifecycle:
  assumes "(port_step (pr_id r))\<^sup>*\<^sup>* s s'" and "distinct (map pr_id (port_rows s))" and "r \<in> set (port_rows s)"
  shows "\<exists>r' \<in> set (port_rows s'). same_reservation r r' \<and> next_stage\<^sup>*\<^sup>* (pr_state r) (pr_state r') \<and>
           (pr_state r = Res_Released \<longrightarrow> r' = r)"
  using port_steps_row [OF assms] row_steps_path rebuilt_reservation.final_forever by blast

text \<open>C17: a \<open>ReservePorts\<close> that fails, at whatever statement, leaves every table as it was; a
  conflict report names the preferred port and the world of a strict request of the call.\<close>

theorem reserve_ports_failure:
  fixes s s' :: "'s port_db_scheme"
  assumes "reserve_ports digest raw s = (Inl e, s')"
  shows "s' = s\<lparr>step := step s'\<rparr> \<and>
    (\<forall>c. e = Ports_ConflictAt c \<longrightarrow>
       (\<exists>q \<in> set (ar_requests raw). pq_strict q \<and> valid_item (trim_item q) \<and>
          rc_port c = pq_preferred q \<and> rc_world c = trim_space (pq_world q)))"
proof -
  have "\<exists>q \<in> set (ar_requests raw). pq_strict q \<and> valid_item (trim_item q) \<and>
          rc_port c = pq_preferred q \<and> rc_world c = trim_space (pq_world q)"
    if "e = Ports_ConflictAt c" for c
  proof -
    from assms that have "\<exists>s1 (s2 :: 's port_db_scheme). reserve_tx digest (normalize_allocation raw) s1 = (Inl (Ports_ConflictAt c), s2)"
      by (auto simp: reserve_ports_def Let_def andthen_eq_Inl_iff transaction_def external_def
          andthen_def split: prod.splits sum.splits if_splits)
    then obtain s1 s2 :: "'s port_db_scheme"
      where "reserve_tx digest (normalize_allocation raw) s1 = (Inl (Ports_ConflictAt c), s2)" by blast
    then show ?thesis
      by (auto simp: reserve_tx_def lock_scope_conflict andthen_eq_Inl_iff sort_requests_def
          normalize_allocation_def split: option.splits dest!: reserve_items_conflict)
  qed
  then show ?thesis using reserve_ports_Inl [OF assms] by (auto simp: only_steps_def)
qed

text \<open>C15: activating a granted allocation right after the reservation, with a database that answers,
  before the plan ends and under the lease identifier it was given (which is not blank),
  succeeds, and every one of its ports is then active. Only the planned rows of this lease that
  have not ended change, and of them only the state and the times; nothing else changes.\<close>

theorem granted_ports_activate:
  assumes "reserve_ports digest raw s = (Inr a, s1)" and "calm s1"
    and "trim_space (pa_lease a) = pa_lease a" and "pa_lease a \<noteq> []"
    and "\<And>n. clock s1 n < pa_expires a"
  shows "\<exists>s2 now. activate_ports (pa_lease a) s1 = (Inr (), s2) \<and>
    (\<forall>r \<in> set (pa_reservations a). \<exists>x \<in> set (port_rows s2).
       pr_id x = pr_id r \<and> pr_port x = pr_port r \<and> pr_state x = Res_Active) \<and>
    s2 = s1\<lparr>step := step s2, port_rows := port_rows s2\<rparr> \<and>
    port_rows s2 = map (\<lambda>x. if pr_lease x = pa_lease a \<and> pr_state x = Res_Planned \<and>
                              (case pr_expires x of None \<Rightarrow> True | Some t \<Rightarrow> t > now)
                            then x\<lparr>pr_state := Res_Active, pr_activated := Some now, pr_expires := None,
                                   pr_updated := now\<rparr>
                            else x) (port_rows s1)"
proof -
  let ?now = "clock s1 (step s1)"
  let ?match = "\<lambda>r. pr_lease r = pa_lease a \<and> pr_state r = Res_Planned \<and>
                   (case pr_expires r of None \<Rightarrow> True | Some t \<Rightarrow> t > ?now)"
  let ?upd = "\<lambda>r. r\<lparr>pr_state := Res_Active, pr_activated := Some ?now, pr_expires := None,
                      pr_updated := ?now\<rparr>"
  from reserve_ports_Inr [OF assms(1)] obtain profile now where
    plan: "\<forall>r \<in> set (pa_reservations a).
       planned_for (normalize_allocation raw) profile (pa_lease a) (pa_expires a) r"
    and len: "length (pa_reservations a) = length (ar_requests raw)"
    and rows: "port_rows s1 = sweep_plans now (port_rows s) @
      map (\<lambda>r. port_record_from_reservation r now) (pa_reservations a)" by auto
  have match: "port_record_from_reservation r now \<in> set (port_rows s1)"
      "?match (port_record_from_reservation r now)" if "r \<in> set (pa_reservations a)" for r
    using plan that rows assms(5) by (auto simp: planned_for_def)
  have "pa_reservations a \<noteq> []"
    using assms(1) len by (auto simp: reserve_ports_def Let_def andthen_eq_Inr_iff normalize_allocation_def)
  then obtain r where "r \<in> set (pa_reservations a)" by (cases "pa_reservations a") auto
  from match [OF this] have "count_where ?match (port_rows s1) \<noteq> 0"
    unfolding count_where_eq_0 by blast
  with assms(2-4) have "\<exists>s2. activate_ports (pa_lease a) s1 = (Inr (), s2) \<and>
      port_rows s2 = update_where ?match ?upd (port_rows s1) \<and> s2 = s1\<lparr>step := step s2, port_rows := port_rows s2\<rparr>"
    by (auto simp: activate_ports_def Let_def andthen_def external_def calm_def)
  then obtain s2 where s2: "activate_ports (pa_lease a) s1 = (Inr (), s2)"
      "port_rows s2 = update_where ?match ?upd (port_rows s1)" "s2 = s1\<lparr>step := step s2, port_rows := port_rows s2\<rparr>"
    by blast
  have "\<exists>x \<in> set (update_where ?match ?upd (port_rows s1)).
      pr_id x = pr_id r \<and> pr_port x = pr_port r \<and> pr_state x = Res_Active"
    if "r \<in> set (pa_reservations a)" for r
    by (rule bexI [OF _ update_where_hit [of _ _ ?match ?upd, OF match(1,2) [OF that]]]) simp
  then have active: "\<forall>r \<in> set (pa_reservations a). \<exists>x \<in> set (port_rows s2).
      pr_id x = pr_id r \<and> pr_port x = pr_port r \<and> pr_state x = Res_Active" by (simp only: s2(2)) blast
  show ?thesis
    by (rule exI [of _ s2], rule exI [of _ ?now], rule conjI, rule s2(1), rule conjI, rule active,
        rule conjI, rule s2(3), rule s2(2) [unfolded update_where_def])
qed


text \<open>C18: rebuilding the reservations from an inspection never touches a leased plan that has not
  ended and that the inspection does not name: a game server about to start keeps its ports.\<close>

theorem rebuild_keeps_live_plans:
  assumes "replace_port_reservations values s = (r, s')" and "distinct (map pr_id (port_rows s))"
    and "x \<in> set (port_rows s)" and "pr_id x \<notin> pr_id ` set values"
    and "pr_state x = Res_Planned" and "pr_lease x \<noteq> []"
    and "pr_expires x = Some t" and "\<And>n. clock s n < t"
  shows "x \<in> set (port_rows s')"
proof (cases r)
  case (Inl e)
  with assms(1,3) show ?thesis
    by (auto simp: replace_port_reservations_def andthen_eq_Inl_iff only_steps_def dest!: transaction_rollback)
next
  case (Inr u)
  let ?now = "clock s (step s)"
  from assms(1) Inr obtain s1 s2 where save: "save_all ?now (port_rows s) values
      (s\<lparr>step := Suc (Suc (Suc (step s)))\<rparr>) = (Inr (), s1)"
    and retire: "retire_all ?now values (port_rows s) s1 = (Inr (), s2)"
    and s': "port_rows s' = port_rows s2"
    by (auto simp: replace_port_reservations_def andthen_eq_Inr_iff transaction_eq_Inr)
  have "keeps_row ?now values x" using assms(5-8) by (simp add: keeps_row_def)
  moreover have "y = x" if "y \<in> set (port_rows s)" "pr_id y = pr_id x" for y
    using distinct_key_eq [OF assms(2) that(1) assms(3) that(2)] .
  moreover have "x \<in> set (port_rows s1)" using save_all_keeps [OF save] assms(3,4) by simp
  ultimately show ?thesis unfolding s' by (blast intro: retire_all_keeps [OF retire])
qed

section \<open>Witnesses\<close>

text \<open>A host with one active server on port 10999 of every address; a new world of another room.\<close>

definition sample_row :: port_record where
  "sample_row =
     \<lparr>pr_id = ''p0'', pr_environment = ''e'', pr_profile = ''n'', pr_scope = ''sc'', pr_target = ''t'',
      pr_room = ''r0'', pr_world = ''w0'', pr_cluster = ''c'', pr_shard = ''m'',
      pr_purpose = ''dst_server'', pr_protocol = ''udp'', pr_bind = [], pr_port = 10999,
      pr_state = Res_Active, pr_managed = True, pr_lease = ''l0'', pr_owner = ''o'',
      pr_expires = None, pr_activated = Some 0, pr_released = None, pr_updated = 0, pr_created = 0\<rparr>"

definition sample_ports :: port_db where
  "sample_ports =
     \<lparr>step = 0, fault = (\<lambda>_. False), cancelled = (\<lambda>_. False), clock = (\<lambda>_. 3),
      fresh = (\<lambda>n. if n < 15 then ''L1'' else ''L2''),
      environments = [\<lparr>er_id = ''e'', er_target = ''t'', er_profile = ''n''\<rparr>],
      profiles = [\<lparr>np_id = ''n'', np_scope = ''sc'', np_bind = ''10.0.0.1''\<rparr>],
      port_locks = [], port_rows = [sample_row]\<rparr>"

definition sample_request :: "bool \<Rightarrow> allocation_request" where
  "sample_request strict =
     \<lparr>ar_owner = ''o'', ar_target = ''t'', ar_room = ''r1'', ar_cluster = ''c'', ar_ttl = 0,
      ar_requests = [\<lparr>pq_world = ''w1'', pq_shard = ''m'', pq_purpose = ''dst_server'',
                      pq_preferred = 10999, pq_strict = strict\<rparr>]\<rparr>"

definition sample_ids :: "(string \<times> int \<times> reservation_state) list" where
  "sample_ids = [(''port-lease-'' @ take 24 (''L1'' @ [nul] @ ''w1'' @ [nul] @ ''dst_server''), 11000, Res_Planned)]"

lemma sample_grants:
  "map_sum id (\<lambda>a. (pa_lease a, pa_expires a,
       map (\<lambda>r. (pr_id r, pr_port r, pr_state r)) (pa_reservations a)))
     (fst (reserve_ports id (sample_request False) sample_ports)) = Inr (''L1'', 900000000003, sample_ids)"
  by code_simp

definition sample_planned :: port_db where
  "sample_planned = snd (reserve_ports id (sample_request False) sample_ports)"

lemma sample_granted:
  obtains a where "reserve_ports id (sample_request False) sample_ports = (Inr a, sample_planned)"
    and "pa_lease a = ''L1''" and "pa_expires a = 900000000003"
    and "map pr_port (pa_reservations a) = [11000]"
proof -
  obtain r where run: "reserve_ports id (sample_request False) sample_ports = (r, sample_planned)"
    by (metis prod.collapse sample_planned_def)
  with sample_grants have "map_sum id (\<lambda>a. (pa_lease a, pa_expires a,
       map (\<lambda>r. (pr_id r, pr_port r, pr_state r)) (pa_reservations a))) r
      = Inr (''L1'', 900000000003, sample_ids)" by (simp only: fst_conv)
  then obtain a where a: "r = Inr a" "pa_lease a = ''L1''" "pa_expires a = 900000000003"
    and ids: "map (\<lambda>r. (pr_id r, pr_port r, pr_state r)) (pa_reservations a) = sample_ids"
    by (cases r) simp_all
  from ids have "map (fst \<circ> snd) (map (\<lambda>r. (pr_id r, pr_port r, pr_state r)) (pa_reservations a)) = [11000]"
    by (simp only: sample_ids_def) simp
  then have "map pr_port (pa_reservations a) = [11000]" by (simp add: comp_def)
  with run show ?thesis unfolding a(1) by (rule that [OF _ a(2,3)])
qed

lemma sample_ports_inv: "ports_inv (port_rows sample_ports)"
  by (simp add: ports_inv_def sample_ports_def same_claimant_def)

theorem reserve_ports_first_fit_witness:
  "\<exists>a. reserve_ports id (sample_request False) sample_ports = (Inr a, sample_planned) \<and>
       map pr_port (pa_reservations a) = [11000] \<and>
       (\<exists>now rs. port_rows sample_planned = sweep_plans now [sample_row] @ rs)"
proof -
  obtain a where a: "reserve_ports id (sample_request False) sample_ports = (Inr a, sample_planned)"
      "map pr_port (pa_reservations a) = [11000]" by (rule sample_granted)
  have "port_rows sample_ports = [sample_row]" by (simp add: sample_ports_def)
  with reserve_ports_first_fit [OF a(1)] a show ?thesis by metis
qed

definition sample_replanned :: port_db where
  "sample_replanned = snd (reserve_ports id (sample_request False) sample_planned)"

theorem ports_never_collide_witness:
  "map pr_port (port_rows sample_replanned) = [10999, 11000, 11000] \<and>
   same_claimant (port_rows sample_replanned ! 1) (port_rows sample_replanned ! 2)"
proof -
  have ports: "map pr_port (port_rows sample_replanned) = [10999, 11000, 11000]" by code_simp
  have collide: "collide (port_rows sample_replanned ! 1) (port_rows sample_replanned ! 2)" by code_simp
  obtain a where "reserve_ports id (sample_request False) sample_ports = (Inr a, sample_planned)"
    by (rule sample_granted)
  then have "port_call sample_ports sample_planned" by (rule reserved)
  moreover have "port_call sample_planned sample_replanned"
    by (metis prod.collapse reserved sample_replanned_def)
  ultimately have run: "port_call\<^sup>*\<^sup>* sample_ports sample_replanned" by simp
  have "length (port_rows sample_replanned) = 3" using arg_cong [OF ports, of length] by simp
  with ports_never_collide [OF sample_ports_inv run _ _ collide] ports show ?thesis by simp
qed

text \<open>A port planned, then its world missing from an inspection of nothing.\<close>

theorem reservation_lifecycle_witness:
  "\<exists>s'. (port_step (pr_id sample_row))\<^sup>*\<^sup>* sample_ports s' \<and> map pr_state (port_rows s') = [Res_Releasing, Res_Planned] \<and>
     (\<exists>r' \<in> set (port_rows s'). same_reservation sample_row r')"
proof -
  let ?s' = "snd (replace_port_reservations [] sample_planned)"
  obtain a where "reserve_ports id (sample_request False) sample_ports = (Inr a, sample_planned)"
    by (rule sample_granted)
  then have "port_step (pr_id sample_row) sample_ports sample_planned"
    by (blast intro: reserved allocator_step)
  moreover have "port_step (pr_id sample_row) sample_planned ?s'"
    by (rule rebuild_step [of "[]" _ "fst (replace_port_reservations [] sample_planned)"]) simp_all
  ultimately have run: "(port_step (pr_id sample_row))\<^sup>*\<^sup>* sample_ports ?s'" by simp
  have "distinct (map pr_id (port_rows sample_ports))" "sample_row \<in> set (port_rows sample_ports)"
    by (simp_all add: sample_ports_def)
  with reservation_lifecycle [OF run] have "\<exists>r' \<in> set (port_rows ?s'). same_reservation sample_row r'" by blast
  moreover have "map pr_state (port_rows ?s') = [Res_Releasing, Res_Planned]" by code_simp
  ultimately show ?thesis using run by (intro exI [of _ ?s'] conjI)
qed

theorem reserve_ports_failure_witness:
  "\<exists>c s'. reserve_ports id (sample_request True) sample_ports = (Inl (Ports_ConflictAt c), s') \<and>
          rc_port c = 10999 \<and> s' = sample_ports\<lparr>step := step s'\<rparr>"
proof -
  have "map_sum (\<lambda>e. case e of Ports_ConflictAt c \<Rightarrow> rc_port c | _ \<Rightarrow> 0) id
      (fst (reserve_ports id (sample_request True) sample_ports)) = Inl 10999"
    by code_simp
  moreover obtain r s' where run: "reserve_ports id (sample_request True) sample_ports = (r, s')"
    by fastforce
  ultimately obtain c where "r = Inl (Ports_ConflictAt c)" "rc_port c = 10999"
    by (cases r) (auto split: port_error.splits)
  with run reserve_ports_failure [of id "sample_request True" sample_ports "Ports_ConflictAt c" s']
  show ?thesis by blast
qed

theorem granted_ports_activate_witness:
  "\<exists>s2. activate_ports ''L1'' sample_planned = (Inr (), s2) \<and>
     (\<exists>x \<in> set (port_rows s2). pr_port x = 11000 \<and> pr_state x = Res_Active)"
proof -
  obtain a where a: "reserve_ports id (sample_request False) sample_ports = (Inr a, sample_planned)"
      "pa_lease a = ''L1''" "pa_expires a = 900000000003" "map pr_port (pa_reservations a) = [11000]"
    by (rule sample_granted)
  have trim: "trim_space ''L1'' = ''L1''" by code_simp
  have env: "clock sample_ports = (\<lambda>_. 3)" "calm sample_ports"
    by (simp_all add: sample_ports_def calm_def)
  from reserve_ports_script [OF a(1)] env have s1: "\<And>n. clock sample_planned n < pa_expires a"
      "calm sample_planned"
    using a(3) by (simp_all add: same_script_def calm_def)
  from a(4) obtain r where r: "r \<in> set (pa_reservations a)" "pr_port r = 11000" by auto
  from granted_ports_activate [OF a(1) s1(2) _ _ s1(1)] trim a(2) r show ?thesis by fastforce
qed

definition sample_plan :: port_record where
  "sample_plan = sample_row\<lparr>pr_id := ''p1'', pr_state := Res_Planned, pr_expires := Some 50\<rparr>"

definition sample_rebuild :: port_db where
  "sample_rebuild = sample_ports\<lparr>port_rows := [sample_row, sample_plan]\<rparr>"

theorem rebuild_keeps_live_plans_witness:
  "sample_plan \<in> set (port_rows (snd (replace_port_reservations [] sample_rebuild))) \<and>
   map pr_state (port_rows (snd (replace_port_reservations [] sample_rebuild))) = [Res_Releasing, Res_Planned]"
proof -
  obtain r s' where run: "replace_port_reservations [] sample_rebuild = (r, s')" by fastforce
  have "map pr_state (port_rows (snd (replace_port_reservations [] sample_rebuild))) =
      [Res_Releasing, Res_Planned]"
    by code_simp
  moreover have "sample_plan \<in> set (port_rows s')"
    by (rule rebuild_keeps_live_plans [OF run, of _ 50])
      (simp_all add: sample_rebuild_def sample_plan_def sample_row_def sample_ports_def)
  ultimately show ?thesis using run by simp
qed

end
