(* ===== verification/Install_Gate.thy ===== *)
theory Install_Gate
  imports Go_Strings "HOL-Library.AList"
begin

text \<open>
  \<open>internal/installationmaintenance/gate.go\<close>: the gate that keeps maintenance of a game
  installation and the servers that run from it apart. A resource has two keys, its registered
  identity and its physical directory. \<open>gate_acquire\<close> reserves every key of the given resources,
  exclusively or shared, for an owner; what it returns is released at most once. A key's entry
  in the maps \<open>owners\<close> and \<open>readers\<close> counts the reservations that are still held, which is the
  invariant; the lemmas show the exclusion that follows from it and that nothing leaks. The maps
  are association lists, whose order stands for Go's arbitrary order of iteration.

  \<open>filepath.EvalSymlinks\<close> reads the file system: it is the parameter \<open>eval_symlinks\<close>. The callback
  \<open>pending\<close>, which reports interrupted maintenance, is a parameter too.
\<close>

section \<open>Resources and their keys\<close>

record gate_resource =
  gr_target :: string
  gr_installation :: string
  gr_directory :: string

text \<open>\<open>path.Clean\<close>: \<open>acc\<close> holds the elements kept so far, the last one first.\<close>

fun clean_parts :: "bool \<Rightarrow> string list \<Rightarrow> string list \<Rightarrow> string list" where
  "clean_parts rooted acc [] = rev acc"
| "clean_parts rooted acc (p # ps) =
     (if p = [] \<or> p = ''.'' then clean_parts rooted acc ps
      else if p = ''..'' then
        (case acc of
           [] \<Rightarrow> if rooted then clean_parts rooted [] ps else clean_parts rooted [''..''] ps
         | a # as \<Rightarrow>
             if a = ''..'' then clean_parts rooted (''..'' # acc) ps else clean_parts rooted as ps)
      else clean_parts rooted (p # acc) ps)"

definition path_clean :: "string \<Rightarrow> string" where
  "path_clean p =
     (let rooted = has_prefix p ''/''; body = join_slash (clean_parts rooted [] (split_slash p))
      in if rooted then ''/'' @ body else if body = [] then ''.'' else body)"

definition trim_suffix :: "string \<Rightarrow> string \<Rightarrow> string" where
  "trim_suffix suffix s = (if has_suffix s suffix then take (length s - length suffix) s else s)"

definition server_suffixes :: "string list" where
  "server_suffixes =
     [''/bin64/dontstarve_dedicated_server_nullrenderer_x64.exe'',
      ''/bin/dontstarve_dedicated_server_nullrenderer.exe'',
      ''/bin64/dontstarve_dedicated_server_nullrenderer_x64'',
      ''/bin/dontstarve_dedicated_server_nullrenderer'', ''/bin64'', ''/bin'']"

text \<open>Go lower-cases the whole of a Windows path; \<open>to_lower\<close> is that for its ASCII letters.\<close>

definition gate_directory :: "(string \<Rightarrow> string option) \<Rightarrow> string \<Rightarrow> string \<Rightarrow> string" where
  "gate_directory eval_symlinks target directory =
     (if trim_space directory = [] then []
      else
        let resolved =
              (if target = ''local''
               then (case eval_symlinks directory of Some r \<Rightarrow> r | None \<Rightarrow> directory)
               else directory);
            cleaned = path_clean (map (\<lambda>c. if c = CHR 0x5C then CHR ''/'' else c) resolved);
            folded = (if length cleaned > 1 \<and> cleaned ! 1 = CHR '':'' then to_lower cleaned else cleaned)
        in fold trim_suffix server_suffixes folded)"

definition resource_keys :: "(string \<Rightarrow> string option) \<Rightarrow> gate_resource \<Rightarrow> string list" where
  "resource_keys eval_symlinks r =
     (let directory = gate_directory eval_symlinks (gr_target r) (gr_directory r)
      in (gr_target r @ [nul] @ ''id:'' @ gr_installation r) #
         (if directory \<noteq> [] then [gr_target r @ [nul] @ ''path:'' @ directory] else []))"

definition overlaps :: "(string \<Rightarrow> string option) \<Rightarrow> gate_resource \<Rightarrow> gate_resource \<Rightarrow> bool" where
  "overlaps eval_symlinks a b \<longleftrightarrow>
     (\<exists>x \<in> set (resource_keys eval_symlinks a). x \<in> set (resource_keys eval_symlinks b))"

section \<open>The gate\<close>

datatype gate_error =
    Gate_Canceled
  | Gate_Busy
  | Gate_BusyBy string
  | Gate_Pending

text \<open>What an acquisition returned: the keys its release function closes over and its \<open>sync.Once\<close>.\<close>

record handle =
  h_keys :: "string list"
  h_shared :: bool
  h_owner :: string
  h_done :: bool

record gate = env +
  owners :: "(string \<times> (string \<times> int)) list"
  readers :: "(string \<times> (string \<times> int) list) list"
  handles :: "handle list"

definition new_gate :: "'s gate_scheme \<Rightarrow> bool" where
  "new_gate g \<longleftrightarrow> owners g = [] \<and> readers g = [] \<and> handles g = []"

definition key_readers :: "(string \<times> (string \<times> int) list) list \<Rightarrow> string \<Rightarrow> (string \<times> int) list" where
  "key_readers rs key = (case map_of rs key of None \<Rightarrow> [] | Some m \<Rightarrow> m)"

text \<open>The first loop: the reservation of another owner that blocks the keys, if any.\<close>

fun blocked_by :: "bool \<Rightarrow> string \<Rightarrow> 's gate_scheme \<Rightarrow> string list \<Rightarrow> string option" where
  "blocked_by shared owner g [] = None"
| "blocked_by shared owner g (key # keys) =
     (case map_of (owners g) key of
        Some (current, refs) \<Rightarrow>
          if refs > 0 \<and> current \<noteq> owner then Some current
          else
            (case (if shared then None
                   else List.find (\<lambda>(reader, _). reader \<noteq> owner) (key_readers (readers g) key)) of
               Some (reader, _) \<Rightarrow> Some reader
             | None \<Rightarrow> blocked_by shared owner g keys)
      | None \<Rightarrow>
          (case (if shared then None
                 else List.find (\<lambda>(reader, _). reader \<noteq> owner) (key_readers (readers g) key)) of
             Some (reader, _) \<Rightarrow> Some reader
           | None \<Rightarrow> blocked_by shared owner g keys))"

definition count_in :: "(string \<times> int) list \<Rightarrow> string \<Rightarrow> int" where
  "count_in m owner = (case map_of m owner of None \<Rightarrow> 0 | Some n \<Rightarrow> n)"

definition take_shared ::
  "string \<Rightarrow> string \<Rightarrow> (string \<times> (string \<times> int) list) list \<Rightarrow> (string \<times> (string \<times> int) list) list" where
  "take_shared owner key rs =
     (let m = key_readers rs key in AList.update key (AList.update owner (count_in m owner + 1) m) rs)"

definition take_exclusive ::
  "string \<Rightarrow> string \<Rightarrow> (string \<times> (string \<times> int)) list \<Rightarrow> (string \<times> (string \<times> int)) list" where
  "take_exclusive owner key os =
     (let refs = (case map_of os key of None \<Rightarrow> 0 | Some (_, n) \<Rightarrow> n)
      in AList.update key (owner, refs + 1) os)"

definition drop_shared ::
  "string \<Rightarrow> string \<Rightarrow> (string \<times> (string \<times> int) list) list \<Rightarrow> (string \<times> (string \<times> int) list) list" where
  "drop_shared owner key rs =
     (let m = key_readers rs key;
          m1 = AList.update owner (count_in m owner - 1) m;
          m2 = (if count_in m1 owner = 0 then AList.delete owner m1 else m1)
      in if m2 = [] then AList.delete key rs else AList.update key m2 rs)"

definition drop_exclusive ::
  "string \<Rightarrow> (string \<times> (string \<times> int)) list \<Rightarrow> (string \<times> (string \<times> int)) list" where
  "drop_exclusive key os =
     (let (owner, refs) = (case map_of os key of None \<Rightarrow> ([], 0) | Some e \<Rightarrow> e)
      in if refs - 1 = 0 then AList.delete key os else AList.update key (owner, refs - 1) os)"

definition gate_keys :: "(string \<Rightarrow> string option) \<Rightarrow> gate_resource list \<Rightarrow> string list" where
  "gate_keys eval_symlinks resources = remdups (concat (map (resource_keys eval_symlinks) resources))"

text \<open>
  \<open>Gate.acquire\<close> with the owner of its context; it returns the owner of the new context and the
  number of the new handle.
\<close>

definition gate_acquire ::
  "(string \<Rightarrow> string option) \<Rightarrow> (gate_resource list \<Rightarrow> string \<Rightarrow> bool) option \<Rightarrow> string \<Rightarrow>
   gate_resource list \<Rightarrow> string \<Rightarrow> bool \<Rightarrow> ('s gate_scheme, gate_error, string \<times> nat) act" where
  "gate_acquire eval_symlinks pending inherited resources requested shared =
     andthen (ctx_err Gate_Canceled) (\<lambda>_.
     andthen (if requested \<noteq> [] then return_ok requested
              else if inherited \<noteq> [] then return_ok inherited
              else andthen new_uuid (\<lambda>uuid. return_ok (''operation:'' @ uuid))) (\<lambda>owner.
     andthen (guard Gate_Busy (\<not> (inherited \<noteq> [] \<and> inherited \<noteq> owner))) (\<lambda>_.
     let keys = gate_keys eval_symlinks resources
     in andthen (query (\<lambda>g. blocked_by shared owner g keys)) (\<lambda>blocker.
        case blocker of
          Some other \<Rightarrow> raise (Gate_BusyBy other)
        | None \<Rightarrow>
            andthen (guard Gate_Pending
              (case pending of None \<Rightarrow> True | Some report \<Rightarrow> \<not> report resources owner)) (\<lambda>_.
            andthen (query (\<lambda>g. length (handles g))) (\<lambda>number.
            andthen (modify (\<lambda>g.
              (if shared then g\<lparr>readers := fold (take_shared owner) keys (readers g)\<rparr>
               else g\<lparr>owners := fold (take_exclusive owner) keys (owners g)\<rparr>)
              \<lparr>handles := handles g @ [\<lparr>h_keys = keys, h_shared = shared, h_owner = owner, h_done = False\<rparr>]\<rparr>)) (\<lambda>_.
            return_ok (owner, number))))))))"

definition gate_release :: "nat \<Rightarrow> 's gate_scheme \<Rightarrow> 's gate_scheme" where
  "gate_release i g =
     (if i < length (handles g) \<and> \<not> h_done (handles g ! i) then
        let h = handles g ! i
        in (if h_shared h then g\<lparr>readers := fold (drop_shared (h_owner h)) (h_keys h) (readers g)\<rparr>
            else g\<lparr>owners := fold drop_exclusive (h_keys h) (owners g)\<rparr>)
           \<lparr>handles := (handles g)[i := h\<lparr>h_done := True\<rparr>]\<rparr>
      else g)"

section \<open>What the maps count\<close>

definition excl :: "string \<Rightarrow> handle \<Rightarrow> bool" where
  "excl k h \<longleftrightarrow> \<not> h_done h \<and> \<not> h_shared h \<and> k \<in> set (h_keys h)"

definition shar :: "string \<Rightarrow> string \<Rightarrow> handle \<Rightarrow> bool" where
  "shar k owner h \<longleftrightarrow> \<not> h_done h \<and> h_shared h \<and> k \<in> set (h_keys h) \<and> h_owner h = owner"

definition owner_entry_ok :: "handle list \<Rightarrow> string \<Rightarrow> (string \<times> int) option \<Rightarrow> bool" where
  "owner_entry_ok hs k e \<longleftrightarrow>
     (case e of
        None \<Rightarrow> count_where (excl k) hs = 0
      | Some (owner, refs) \<Rightarrow>
          refs = int (count_where (excl k) hs) \<and> refs > 0 \<and>
          (\<forall>h \<in> set hs. excl k h \<longrightarrow> h_owner h = owner))"

definition reader_entry_ok :: "handle list \<Rightarrow> string \<Rightarrow> (string \<times> int) list option \<Rightarrow> bool" where
  "reader_entry_ok hs k e \<longleftrightarrow>
     (case e of
        None \<Rightarrow> (\<forall>owner. count_where (shar k owner) hs = 0)
      | Some m \<Rightarrow> m \<noteq> [] \<and>
          (\<forall>owner. map_of m owner =
             (if count_where (shar k owner) hs = 0 then None else Some (int (count_where (shar k owner) hs)))))"

text \<open>Two reservations held at the same time that share a key, one of them exclusive.\<close>

definition exclusion :: "handle list \<Rightarrow> bool" where
  "exclusion hs \<longleftrightarrow>
     (\<forall>a \<in> set hs. \<forall>b \<in> set hs. \<not> h_done a \<and> \<not> h_done b \<and> \<not> h_shared a \<and>
        set (h_keys a) \<inter> set (h_keys b) \<noteq> {} \<longrightarrow> h_owner a = h_owner b)"

definition gate_inv :: "'s gate_scheme \<Rightarrow> bool" where
  "gate_inv g \<longleftrightarrow>
     (\<forall>h \<in> set (handles g). distinct (h_keys h)) \<and>
     (\<forall>k. owner_entry_ok (handles g) k (map_of (owners g) k)) \<and>
     (\<forall>k. reader_entry_ok (handles g) k (map_of (readers g) k)) \<and>
     exclusion (handles g)"

section \<open>The loops over the keys\<close>

text \<open>A loop whose turn for a key changes that key's entry only, by what the entry was.\<close>

lemma fold_pointwise:
  assumes "\<And>k xs x. map_of (f k xs) x = (if x = k then g (map_of xs k) else map_of xs x)"
    and "distinct ks"
  shows "map_of (fold f ks xs) x = (if x \<in> set ks then g (map_of xs x) else map_of xs x)"
  using assms(2) by (induction ks arbitrary: xs) (auto simp: assms(1))

lemma map_of_take_exclusive:
  "distinct ks \<Longrightarrow> map_of (fold (take_exclusive owner) ks os) x =
     (if x \<in> set ks then Some (owner, (case map_of os x of None \<Rightarrow> 0 | Some (_, n) \<Rightarrow> n) + 1)
      else map_of os x)"
  by (rule fold_pointwise [where g = "\<lambda>e. Some (owner, (case e of None \<Rightarrow> 0 | Some (_, n) \<Rightarrow> n) + 1)"])
    (simp_all add: take_exclusive_def AList.update_conv')

lemma map_of_drop_exclusive:
  "distinct ks \<Longrightarrow> map_of (fold drop_exclusive ks os) x =
     (if x \<in> set ks then
        (case (case map_of os x of None \<Rightarrow> ([], 0) | Some e \<Rightarrow> e) of
           (owner, n) \<Rightarrow> if n - 1 = 0 then None else Some (owner, n - 1))
      else map_of os x)"
  by (rule fold_pointwise [where g = "\<lambda>e. case (case e of None \<Rightarrow> ([], 0) | Some e \<Rightarrow> e) of
           (owner, n) \<Rightarrow> if n - 1 = 0 then None else Some (owner, n - 1)"])
    (simp_all add: drop_exclusive_def AList.update_conv' AList.delete_conv' split: prod.split option.split)

lemma map_of_take_shared:
  "distinct ks \<Longrightarrow> map_of (fold (take_shared owner) ks rs) x =
     (if x \<in> set ks then
        (let m = (case map_of rs x of None \<Rightarrow> [] | Some m \<Rightarrow> m)
         in Some (AList.update owner (count_in m owner + 1) m))
      else map_of rs x)"
  by (rule fold_pointwise [where g = "\<lambda>e. let m = (case e of None \<Rightarrow> [] | Some m \<Rightarrow> m)
         in Some (AList.update owner (count_in m owner + 1) m)"])
    (simp_all add: take_shared_def key_readers_def AList.update_conv' Let_def)

lemma map_of_drop_shared:
  "distinct ks \<Longrightarrow> map_of (fold (drop_shared owner) ks rs) x =
     (if x \<in> set ks then
        (let m = (case map_of rs x of None \<Rightarrow> [] | Some m \<Rightarrow> m);
             m1 = AList.update owner (count_in m owner - 1) m;
             m2 = (if count_in m1 owner = 0 then AList.delete owner m1 else m1)
         in if m2 = [] then None else Some m2)
      else map_of rs x)"
  by (rule fold_pointwise [where g = "\<lambda>e. let m = (case e of None \<Rightarrow> [] | Some m \<Rightarrow> m);
             m1 = AList.update owner (count_in m owner - 1) m;
             m2 = (if count_in m1 owner = 0 then AList.delete owner m1 else m1)
         in if m2 = [] then None else Some m2"])
    (simp_all add: drop_shared_def key_readers_def AList.update_conv' AList.delete_conv' Let_def)

section \<open>What blocks an acquisition\<close>

definition conflicts :: "bool \<Rightarrow> string \<Rightarrow> string list \<Rightarrow> handle \<Rightarrow> bool" where
  "conflicts shared owner keys h \<longleftrightarrow>
     \<not> h_done h \<and> h_owner h \<noteq> owner \<and> (\<not> shared \<or> \<not> h_shared h) \<and> set keys \<inter> set (h_keys h) \<noteq> {}"






lemma blocked_by_None:
  assumes "gate_inv g" and "blocked_by shared owner g keys = None" and "h \<in> set (handles g)"
  shows "\<not> conflicts shared owner keys h"
  using assms(2)
proof (induction keys)
  case Nil
  then show ?case by (simp add: conflicts_def)
next
  case (Cons k keys)
  have ok: "owner_entry_ok (handles g) k (map_of (owners g) k)"
      "reader_entry_ok (handles g) k (map_of (readers g) k)"
    using assms(1) by (simp_all add: gate_inv_def)
  have rest: "blocked_by shared owner g keys = None"
    and own: "\<And>current refs. map_of (owners g) k = Some (current, refs) \<Longrightarrow> refs > 0 \<Longrightarrow> current = owner"
    and read: "\<not> shared \<Longrightarrow> List.find (\<lambda>(reader, _). reader \<noteq> owner) (key_readers (readers g) k) = None"
    using Cons.prems by (auto split: option.splits if_splits prod.splits)
  have "h_owner h = owner" if "\<not> h_done h" "\<not> shared \<or> \<not> h_shared h" "k \<in> set (h_keys h)"
  proof (cases "h_shared h")
    case False
    with that have "excl k h" by (simp add: excl_def)
    with ok(1) own assms(3) show ?thesis
      by (cases "map_of (owners g) k") (auto simp: owner_entry_ok_def)
  next
    case True
    with that have "\<not> shared" "shar k (h_owner h) h" by (simp_all add: shar_def)
    with assms(3) have "count_where (shar k (h_owner h)) (handles g) \<noteq> 0" by auto
    with ok(2) obtain m where m: "map_of (readers g) k = Some m" "map_of m (h_owner h) \<noteq> None"
      by (cases "map_of (readers g) k") (auto simp: reader_entry_ok_def simp del: count_where_eq_0)
    then obtain n where "(h_owner h, n) \<in> set (key_readers (readers g) k)"
      by (auto simp: key_readers_def dest: map_of_SomeD)
    with read [OF \<open>\<not> shared\<close>] show ?thesis by (auto dest: find_NoneD)
  qed
  with Cons.IH [OF rest] show ?case by (auto simp: conflicts_def)
qed

section \<open>The invariant\<close>

definition admit :: "bool \<Rightarrow> string \<Rightarrow> string list \<Rightarrow> 's gate_scheme \<Rightarrow> 's gate_scheme" where
  "admit shared owner keys g =
     (if shared then g\<lparr>readers := fold (take_shared owner) keys (readers g)\<rparr>
      else g\<lparr>owners := fold (take_exclusive owner) keys (owners g)\<rparr>)
     \<lparr>handles := handles g @ [\<lparr>h_keys = keys, h_shared = shared, h_owner = owner, h_done = False\<rparr>]\<rparr>"

lemma admit_fields [simp]:
  "handles (admit shared owner keys g) =
     handles g @ [\<lparr>h_keys = keys, h_shared = shared, h_owner = owner, h_done = False\<rparr>]"
  "owners (admit shared owner keys g) =
     (if shared then owners g else fold (take_exclusive owner) keys (owners g))"
  "readers (admit shared owner keys g) =
     (if shared then fold (take_shared owner) keys (readers g) else readers g)"
  by (simp_all add: admit_def)

lemma update_not_Nil [simp]: "AList.update k v m \<noteq> []"
  by (cases m) auto

lemma count_in_entry: "reader_entry_ok hs k (Some m) \<Longrightarrow> count_in m owner = int (count_where (shar k owner) hs)"
  by (auto simp: reader_entry_ok_def count_in_def simp del: count_where_eq_0 split: option.split)

lemma reader_entry_cong:
  "(\<And>o'. count_where (shar k o') hs' = count_where (shar k o') hs) \<Longrightarrow>
   reader_entry_ok hs' k e = reader_entry_ok hs k e"
  by (cases e) (simp_all add: reader_entry_ok_def del: count_where_eq_0)

lemma reader_entry_take:
  assumes "reader_entry_ok hs k e" and "e' = Some (AList.update owner (count_in m owner + 1) m)"
    and "m = (case e of None \<Rightarrow> [] | Some m \<Rightarrow> m)"
    and "\<And>o'. count_where (shar k o') hs' = count_where (shar k o') hs + (if o' = owner then 1 else 0)"
  shows "reader_entry_ok hs' k e'"
proof (cases e)
  case None
  with assms show ?thesis
    by (auto simp: reader_entry_ok_def count_in_def simp del: count_where_eq_0)
next
  case (Some m0)
  with assms(1,3) count_in_entry have "count_in m owner = int (count_where (shar k owner) hs)" by simp
  with assms Some show ?thesis
    by (auto simp: reader_entry_ok_def AList.update_conv' simp del: count_where_eq_0)
qed

lemma gate_inv_admit:
  assumes inv: "gate_inv g" and "distinct keys"
    and free: "\<And>h. h \<in> set (handles g) \<Longrightarrow> \<not> conflicts shared owner keys h"
  shows "gate_inv (admit shared owner keys g)"
proof -
  let ?new = "\<lparr>h_keys = keys, h_shared = shared, h_owner = owner, h_done = False\<rparr>"
  let ?hs = "handles g @ [?new]"
  have old: "owner_entry_ok (handles g) k (map_of (owners g) k)"
      "reader_entry_ok (handles g) k (map_of (readers g) k)" for k
    using inv by (simp_all add: gate_inv_def)
  have "owner_entry_ok ?hs k (map_of (owners (admit shared owner keys g)) k)" for k
  proof (cases "\<not> shared \<and> k \<in> set keys")
    case True
    then have "h_owner h = owner" if "h \<in> set (handles g)" "excl k h" for h
      using free [OF that(1)] that(2) by (auto simp: conflicts_def excl_def)
    with True old(1) [of k] show ?thesis
      by (cases "map_of (owners g) k")
        (auto simp: map_of_take_exclusive [OF assms(2)] owner_entry_ok_def excl_def)
  next
    case False
    with old(1) [of k] show ?thesis
      by (cases "map_of (owners g) k")
        (auto simp: map_of_take_exclusive [OF assms(2)] owner_entry_ok_def excl_def)
  qed
  moreover have "reader_entry_ok ?hs k (map_of (readers (admit shared owner keys g)) k)" for k
  proof (cases "shared \<and> k \<in> set keys")
    case True
    then show ?thesis
      by (intro reader_entry_take [OF old(2) [of k] _ refl])
        (auto simp: map_of_take_shared [OF assms(2)] shar_def Let_def)
  next
    case False
    then have "count_where (shar k o') ?hs = count_where (shar k o') (handles g)" for o'
      by (auto simp: shar_def)
    then have "reader_entry_ok ?hs k = reader_entry_ok (handles g) k"
      by (intro ext) (rule reader_entry_cong)
    with old(2) [of k] False show ?thesis
      by (auto simp: map_of_take_shared [OF assms(2)])
  qed
  moreover have "exclusion ?hs"
    using inv free by (fastforce simp: gate_inv_def exclusion_def conflicts_def)
  ultimately show ?thesis using inv assms(2) by (simp add: gate_inv_def)
qed

lemma gate_acquire_Inr:
  assumes "gate_acquire eval_symlinks pending inherited resources requested shared g = (Inr (owner, i), g')"
  shows "\<exists>g1. only_steps g g1 \<and> g' = admit shared owner (gate_keys eval_symlinks resources) g1 \<and>
     blocked_by shared owner g1 (gate_keys eval_symlinks resources) = None \<and>
     i = length (handles g) \<and> owner \<noteq> [] \<and> (inherited \<noteq> [] \<longrightarrow> owner = inherited)"
  using assms
  by (auto simp: gate_acquire_def Let_def andthen_eq_Inr_iff admit_def only_steps_def
      split: if_splits option.splits)

lemma count_in_update: "count_in (AList.update owner v m) owner = v"
  by (simp add: count_in_def AList.update_conv')

lemma reader_entry_drop:
  assumes "reader_entry_ok hs k (Some m)" and pos: "count_where (shar k owner) hs > 0"
    and m1: "m1 = AList.update owner (count_in m owner - 1) m"
    and m2: "m2 = (if count_in m1 owner = 0 then AList.delete owner m1 else m1)"
    and cnt: "\<And>o'. count_where (shar k o') hs' + (if o' = owner then 1 else 0) = count_where (shar k o') hs"
  shows "reader_entry_ok hs' k (if m2 = [] then None else Some m2)"
proof -
  have n: "count_in m owner = int (count_where (shar k owner) hs)"
    using assms(1) by (rule count_in_entry)
  have now: "int (count_where (shar k owner) hs') = int (count_where (shar k owner) hs) - 1"
    using cnt [of owner] by simp
  have c1: "count_in m1 owner = int (count_where (shar k owner) hs')"
    unfolding m1 by (simp add: count_in_update n now)
  have "map_of m2 o' = (if count_where (shar k o') hs' = 0 then None
                        else Some (int (count_where (shar k o') hs')))" for o'
  proof (cases "o' = owner")
    case True
    then show ?thesis
      using now unfolding m2 c1
      by (simp add: m1 AList.update_conv' AList.delete_conv' n del: count_where_eq_0)
  next
    case False
    with cnt [of o'] assms(1) show ?thesis
      by (simp add: m2 m1 AList.update_conv' AList.delete_conv' reader_entry_ok_def del: count_where_eq_0)
  qed
  then show ?thesis
    by (auto simp: reader_entry_ok_def simp del: count_where_eq_0 split: if_splits) (metis map_of.simps(1) option.distinct(1))
qed

lemma count_released:
  assumes "i < length hs" and "h = hs ! i" and "\<And>x. h_done x \<Longrightarrow> \<not> P x"
  shows "count_where P (hs[i := h\<lparr>h_done := True\<rparr>]) + (if P h then 1 else 0) = count_where P hs"
  using count_where_list_update [OF assms(1), of P "h\<lparr>h_done := True\<rparr>"] assms(2,3) by simp

lemma excl_done [simp]: "h_done x \<Longrightarrow> \<not> excl k x" and shar_done [simp]: "h_done x \<Longrightarrow> \<not> shar k owner x"
  by (simp_all add: excl_def shar_def)

lemma gate_inv_release:
  assumes inv: "gate_inv g"
  shows "gate_inv (gate_release i g)"
proof (cases "i < length (handles g) \<and> \<not> h_done (handles g ! i)")
  case False
  then have "gate_release i g = g" unfolding gate_release_def by (rule if_not_P)
  with inv show ?thesis by simp
next
  case True
  define h where "h = handles g ! i"
  define hs where "hs = (handles g)[i := h\<lparr>h_done := True\<rparr>]"
  have i: "i < length (handles g)" "\<not> h_done h" and h_in: "h \<in> set (handles g)"
    using True by (auto simp: h_def)
  have fields: "handles (gate_release i g) = hs"
      "owners (gate_release i g) = (if h_shared h then owners g else fold drop_exclusive (h_keys h) (owners g))"
      "readers (gate_release i g) =
        (if h_shared h then fold (drop_shared (h_owner h)) (h_keys h) (readers g) else readers g)"
    using True by (simp_all add: gate_release_def Let_def h_def [symmetric] hs_def)
  have dist: "distinct (h_keys h)" using inv h_in by (simp add: gate_inv_def)
  have hs_sub: "set hs \<subseteq> insert (h\<lparr>h_done := True\<rparr>) (set (handles g))"
    unfolding hs_def by (rule set_update_subset_insert)
  have cx: "count_where (excl k) hs + (if excl k h then 1 else 0) = count_where (excl k) (handles g)" for k
    unfolding hs_def by (rule count_released [OF i(1) h_def]) simp
  have cs: "count_where (shar k o') hs + (if shar k o' h then 1 else 0) = count_where (shar k o') (handles g)"
    for k o' unfolding hs_def by (rule count_released [OF i(1) h_def]) simp
  have old: "owner_entry_ok (handles g) k (map_of (owners g) k)"
      "reader_entry_ok (handles g) k (map_of (readers g) k)" for k
    using inv by (simp_all add: gate_inv_def)
  have "owner_entry_ok hs k (map_of (owners (gate_release i g)) k)" for k
  proof -
    have live: "\<forall>x \<in> set hs. excl k x \<longrightarrow> x \<in> set (handles g)" using hs_sub by auto
    show ?thesis
    proof (cases "excl k h")
      case True
      then have sh: "\<not> h_shared h" "k \<in> set (h_keys h)" by (simp_all add: excl_def)
      from True h_in have "0 < count_where (excl k) (handles g)"
        by (metis count_where_eq_0 gr0I)
      with old(1) [of k] obtain own r where e: "map_of (owners g) k = Some (own, r)"
        by (cases "map_of (owners g) k") (auto simp: owner_entry_ok_def simp del: count_where_eq_0)
      with old(1) [of k] have "r = int (count_where (excl k) hs) + 1"
          "\<forall>x \<in> set (handles g). excl k x \<longrightarrow> h_owner x = own"
        using cx [of k] True by (simp_all add: owner_entry_ok_def)
      with sh e live show ?thesis
        by (auto simp: fields map_of_drop_exclusive [OF dist] owner_entry_ok_def simp del: count_where_eq_0)
    next
      case False
      then have "count_where (excl k) hs = count_where (excl k) (handles g)" using cx [of k] by simp
      moreover have "map_of (owners (gate_release i g)) k = map_of (owners g) k"
        using False i(2) by (auto simp: fields map_of_drop_exclusive [OF dist] excl_def)
      ultimately show ?thesis
        using old(1) [of k] live by (auto simp: owner_entry_ok_def simp del: count_where_eq_0 split: option.splits)
    qed
  qed
  moreover have "reader_entry_ok hs k (map_of (readers (gate_release i g)) k)" for k
  proof (cases "h_shared h \<and> k \<in> set (h_keys h)")
    case True
    then have sh: "shar k (h_owner h) h" using i(2) by (simp add: shar_def)
    with h_in have pos: "0 < count_where (shar k (h_owner h)) (handles g)"
      by (metis count_where_eq_0 gr0I)
    with old(2) [of k] obtain m where m: "map_of (readers g) k = Some m"
      by (cases "map_of (readers g) k") (auto simp: reader_entry_ok_def simp del: count_where_eq_0)
    have cnt: "count_where (shar k o') hs + (if o' = h_owner h then 1 else 0) =
        count_where (shar k o') (handles g)" for o'
      using cs [of k o'] True i(2) by (auto simp: shar_def split: if_splits)
    from reader_entry_drop [OF old(2) [of k, unfolded m] pos refl refl cnt] True m show ?thesis
      by (simp add: fields map_of_drop_shared [OF dist] Let_def)
  next
    case False
    then have "count_where (shar k o') hs = count_where (shar k o') (handles g)" for o'
      using cs [of k o'] by (auto simp: shar_def split: if_splits)
    moreover have "map_of (readers (gate_release i g)) k = map_of (readers g) k"
      using False by (auto simp: fields map_of_drop_shared [OF dist])
    ultimately show ?thesis using old(2) [of k] reader_entry_cong [of k hs "handles g"] by metis
  qed
  moreover have "exclusion hs"
    using inv hs_sub unfolding gate_inv_def exclusion_def by (metis insertE subsetD handle.select_convs(4) handle.surjective handle.update_convs(4))
  moreover have "\<forall>x \<in> set hs. distinct (h_keys x)"
    using inv hs_sub dist unfolding gate_inv_def by auto
  ultimately show ?thesis by (simp add: gate_inv_def fields(1))
qed

section \<open>Runs of the gate\<close>

text \<open>Acquisitions and releases of any callers, in any order; a failed acquisition changes nothing.\<close>

inductive gate_run :: "(string \<Rightarrow> string option) \<Rightarrow> 's gate_scheme \<Rightarrow> 's gate_scheme \<Rightarrow> bool"
  for eval_symlinks where
  started: "gate_run eval_symlinks g g"
| entered: "gate_run eval_symlinks g g1 \<Longrightarrow>
    gate_acquire eval_symlinks pending inherited resources requested shared g1 = (r, g2) \<Longrightarrow>
    gate_run eval_symlinks g g2"
| left_gate: "gate_run eval_symlinks g g1 \<Longrightarrow> gate_run eval_symlinks g (gate_release i g1)"

lemma gate_acquire_Inl:
  "gate_acquire eval_symlinks pending inherited resources requested shared g = (Inl e, g') \<Longrightarrow> only_steps g g'"
  by (auto simp: gate_acquire_def Let_def andthen_eq_Inl_iff split: if_splits option.splits)

lemma only_steps_gate: "only_steps g g' \<Longrightarrow>
    owners g' = owners g \<and> readers g' = readers g \<and> handles g' = handles g"
  by (auto simp: only_steps_def)

lemma gate_inv_only_steps: "only_steps g g' \<Longrightarrow> gate_inv g' = gate_inv g"
  by (simp add: gate_inv_def only_steps_gate)

lemma gate_keys_distinct: "distinct (gate_keys eval_symlinks resources)"
  by (simp add: gate_keys_def)

lemma gate_acquire_inv:
  assumes "gate_acquire eval_symlinks pending inherited resources requested shared g = (r, g')" and "gate_inv g"
  shows "gate_inv g'"
proof (cases r)
  case (Inl e)
  with assms(1) have "only_steps g g'" by (auto dest: gate_acquire_Inl)
  with assms(2) show ?thesis by (simp add: gate_inv_only_steps)
next
  case (Inr p)
  obtain owner i where "p = (owner, i)" by fastforce
  with Inr assms(1) gate_acquire_Inr obtain g1 where g1: "only_steps g g1"
      "g' = admit shared owner (gate_keys eval_symlinks resources) g1"
      "blocked_by shared owner g1 (gate_keys eval_symlinks resources) = None" by metis
  then have "gate_inv g1" using assms(2) by (simp add: gate_inv_only_steps)
  with g1 show ?thesis by (auto intro: gate_inv_admit gate_keys_distinct dest: blocked_by_None)
qed


lemma new_gate_inv: "new_gate g \<Longrightarrow> gate_inv g"
  by (simp add: new_gate_def gate_inv_def owner_entry_ok_def reader_entry_ok_def exclusion_def)

lemma gate_run_inv: "gate_run eval_symlinks g g' \<Longrightarrow> new_gate g \<Longrightarrow> gate_inv g'"
  by (induction rule: gate_run.induct) (auto intro: new_gate_inv gate_acquire_inv gate_inv_release)

section \<open>Properties\<close>

text \<open>C6: whatever acquisitions and releases have run, two reservations held at the same time that
  share an installation key belong to the same owner unless both are shared: maintenance never
  runs beside anyone else's use of the installation.\<close>

theorem maintenance_excludes:
  assumes "gate_run eval_symlinks g0 g" and "new_gate g0"
    and "a \<in> set (handles g)" and "b \<in> set (handles g)" and "\<not> h_done a" and "\<not> h_done b"
    and "\<not> h_shared a" and "k \<in> set (h_keys a)" and "k \<in> set (h_keys b)"
  shows "h_owner a = h_owner b"
proof -
  have "exclusion (handles g)" using gate_run_inv [OF assms(1,2)] by (simp add: gate_inv_def)
  with assms show ?thesis unfolding exclusion_def by blast
qed


text \<open>C20: once every reservation has been released the gate holds nothing: both of its maps are empty,
  whatever has run before.\<close>

theorem gate_does_not_leak:
  assumes "gate_run eval_symlinks g0 g" and "new_gate g0" and "\<And>h. h \<in> set (handles g) \<Longrightarrow> h_done h"
  shows "owners g = [] \<and> readers g = []"
proof -
  have inv: "gate_inv g" using gate_run_inv [OF assms(1,2)] .
  have "map_of (owners g) k = None" and "map_of (readers g) k = None" for k
  proof -
    have none: "\<not> excl k h" "\<not> shar k o' h" if "h \<in> set (handles g)" for h o'
      using assms(3) [OF that] by simp_all
    have "owner_entry_ok (handles g) k (map_of (owners g) k)"
      and r: "reader_entry_ok (handles g) k (map_of (readers g) k)"
      using inv by (simp_all add: gate_inv_def)
    then show "map_of (owners g) k = None"
      using none by (cases "map_of (owners g) k") (auto simp: owner_entry_ok_def dest!: count_where_pos)
    show "map_of (readers g) k = None"
    proof (cases "map_of (readers g) k")
      case (Some m)
      with r none have "m \<noteq> []" and all: "\<forall>o'. map_of m o' = None" by (auto simp: reader_entry_ok_def)
      from all have "map_of m = Map.empty" by (intro ext) simp
      with \<open>m \<noteq> []\<close> show ?thesis by simp
    qed simp
  qed
  then show ?thesis by (metis map_of_eq_empty_iff ext)
qed

section \<open>Witnesses\<close>

definition sample_gate :: gate where
  "sample_gate = \<lparr>step = 0, fault = (\<lambda>_. False), cancelled = (\<lambda>_. False), clock = (\<lambda>_. 0),
     fresh = (\<lambda>_. ''u''), owners = [], readers = [], handles = []\<rparr>"

definition sample_resource :: "string \<Rightarrow> gate_resource" where
  "sample_resource i =
     \<lparr>gr_target = ''t'', gr_installation = i, gr_directory = ''/opt//dst/./bin64''\<rparr>"

text \<open>Maintenance of one registration, then of another of the same directory, by the same owner.\<close>

definition enter ::
  "string \<Rightarrow> string \<Rightarrow> bool \<Rightarrow> gate \<Rightarrow> (gate_error + string \<times> nat) \<times> gate" where
  "enter i owner shared = gate_acquire (\<lambda>_. None) None [] [sample_resource i] owner shared"

definition sample_held :: gate where
  "sample_held = snd (enter ''b'' ''m'' True (snd (enter ''a'' ''m'' False sample_gate)))"

lemma sample_gate_new: "new_gate sample_gate"
  by (simp add: new_gate_def sample_gate_def)

lemma enter_run: "gate_run (\<lambda>_. None) sample_gate g \<Longrightarrow> gate_run (\<lambda>_. None) sample_gate (snd (enter i owner shared g))"
  unfolding enter_def by (metis entered prod.collapse)

lemma sample_held_run: "gate_run (\<lambda>_. None) sample_gate sample_held"
  unfolding sample_held_def by (intro enter_run started)

theorem maintenance_excludes_witness:
  "length (handles sample_held) = 2 \<and> h_owner (handles sample_held ! 0) = h_owner (handles sample_held ! 1)"
proof -
  have two: "length (handles sample_held) = 2" by code_simp
  have "\<not> h_done (handles sample_held ! 0)" "\<not> h_done (handles sample_held ! 1)"
    "\<not> h_shared (handles sample_held ! 0)" by code_simp+
  moreover have "''t'' @ [nul] @ ''path:/opt/dst'' \<in> set (h_keys (handles sample_held ! 0))"
    "''t'' @ [nul] @ ''path:/opt/dst'' \<in> set (h_keys (handles sample_held ! 1))" by code_simp+
  ultimately show ?thesis
    using maintenance_excludes [OF sample_held_run sample_gate_new] two by (metis nth_mem zero_less_numeral one_less_numeral_iff semiring_norm(76))
qed


theorem gate_does_not_leak_witness:
  "owners (gate_release 1 (gate_release 0 sample_held)) = [] \<and>
   readers (gate_release 1 (gate_release 0 sample_held)) = []"
proof (rule gate_does_not_leak [OF _ sample_gate_new])
  show "gate_run (\<lambda>_. None) sample_gate (gate_release 1 (gate_release 0 sample_held))"
    by (intro left_gate sample_held_run)
  have "list_all h_done (handles (gate_release 1 (gate_release 0 sample_held)))" by code_simp
  then show "h_done h" if "h \<in> set (handles (gate_release 1 (gate_release 0 sample_held)))" for h
    using that by (simp add: list_all_iff)
qed

end
