(* ===== verification/Job_Types.thy ===== *)
theory Job_Types
  imports Go_Strings Lifecycle "HOL-Library.Word"
begin

text \<open>
  The data of \<open>internal/jobs\<close>: \<open>types.go\<close>, the rows of \<open>store.go\<close>, and the runtime mode plan of
  \<open>runtime_modes.go\<close>. A column that stores JSON holds the value itself, with \<open>None\<close> for the
  empty column; \<open>json\<close> is what the details of an error may contain.
\<close>

section \<open>Jobs as the API shows them\<close>

datatype job_status = Queued | Running | Succeeded | Failed | Canceled

datatype job_outcome = Pending | Full | Partial | No_Outcome

datatype json =
    JNull
  | JBool bool
  | JNumber int
  | JString string
  | JArray "json list"
  | JObject "(string \<times> json) list"

record job_error =
  je_details :: "(string \<times> json) list option"
  je_code :: string
  je_message :: string

record transfer_progress =
  tp_current :: int
  tp_total :: int
  tp_rate :: int

text \<open>\<open>shared.ModDownloadProgress\<close> and \<open>shared.WorldOperationProgress\<close>.\<close>

record mod_download_progress =
  md_workshop :: string
  md_target :: string
  md_installation :: string
  md_status :: string
  md_message :: string
  md_current :: int
  md_total :: int
  md_rate :: int

record world_operation_progress =
  wo_world :: string
  wo_name :: string
  wo_master :: bool
  wo_stage :: string
  wo_percent :: int
  wo_message :: string

record progress_detail =
  pd_observed :: "int option"
  pd_stage :: string
  pd_workshop :: string
  pd_current_item :: int
  pd_total_items :: int
  pd_target :: string
  pd_installation :: string
  pd_items :: "mod_download_progress list"
  pd_worlds :: "world_operation_progress list"

record progress_update =
  pu_progress :: int
  pu_message :: string
  pu_detail :: "progress_detail option"
  pu_current :: int
  pu_total :: int
  pu_rate :: int

record job_target =
  jt_id :: int
  jt_target :: string
  jt_name :: string
  jt_status :: job_status
  jt_message :: string
  jt_warning :: "job_error option"
  jt_error :: "job_error option"
  jt_started :: "int option"
  jt_finished :: "int option"

datatype performance_mode = Unset_Mode | Game_Mode | LuaJIT_Mode | ArenaGC_Mode | Other_Mode string

record mode_selection =
  ms_error :: "job_error option"
  ms_room :: string
  ms_world :: string
  ms_world_name :: string
  ms_action :: string
  ms_requested_mode :: performance_mode
  ms_requested_version :: string
  ms_mode :: performance_mode
  ms_source :: string
  ms_target :: string
  ms_installation :: string
  ms_topology :: string
  ms_was_running :: bool
  ms_preference :: string

record job =
  jb_modes :: "mode_selection list"
  jb_id :: string
  jb_kind :: string
  jb_status :: job_status
  jb_outcome :: job_outcome
  jb_room :: string
  jb_world :: string
  jb_progress :: int
  jb_message :: string
  jb_transfer :: "transfer_progress option"
  jb_detail :: "progress_detail option"
  jb_error :: "job_error option"
  jb_cancel :: bool
  jb_created :: int
  jb_started :: "int option"
  jb_finished :: "int option"
  jb_targets :: "job_target list"

record target_spec =
  ts_id :: string
  ts_name :: string

record target_result =
  rt_target :: string
  rt_status :: job_status
  rt_message :: string
  rt_warning :: "job_error option"
  rt_error :: "job_error option"

record job_event =
  ev_stage_changed :: bool
  ev_id :: int
  ev_job :: string
  ev_type :: string
  ev_data :: job
  ev_created :: int

record list_filter =
  lf_status :: "job_status option"
  lf_kind :: string
  lf_room :: string
  lf_limit :: int
  lf_offset :: int

record event_window =
  ew_first :: int
  ew_last :: int

record retention_policy =
  rp_event_age :: int
  rp_event_limit :: int
  rp_job_age :: int
  rp_job_limit :: int

record retention_result =
  rr_events :: int
  rr_jobs :: int
  rr_targets :: int

section \<open>Rows\<close>

record job_record =
  jr_id :: string
  jr_kind :: string
  jr_status :: job_status
  jr_outcome :: job_outcome
  jr_room :: string
  jr_world :: string
  jr_progress :: int
  jr_message :: string
  jr_detail :: "progress_detail option"
  jr_modes :: "mode_selection list option"
  jr_current :: int
  jr_total :: int
  jr_rate :: int
  jr_error_code :: string
  jr_error_message :: string
  jr_cancel :: bool
  jr_created :: int
  jr_started :: "int option"
  jr_finished :: "int option"

record target_record =
  tr_id :: int
  tr_job :: string
  tr_target :: string
  tr_name :: string
  tr_status :: job_status
  tr_message :: string
  tr_warning_code :: string
  tr_warning_message :: string
  tr_error_code :: string
  tr_error_message :: string
  tr_error_details :: "(string \<times> json) list option option"
  tr_started :: "int option"
  tr_finished :: "int option"

record event_record =
  er_id :: int
  er_job :: string
  er_type :: string
  er_data :: job
  er_created :: int

datatype job_store_error =
    Job_NotFound
  | Job_NotCancelable
  | Job_InvalidTarget
  | Job_InvalidStatus
  | Job_InvalidKind
  | Job_InvalidPolicy
  | Job_PlanEmpty
  | Job_PlanChanged
  | Job_PlanInvalid
  | Job_DB

text \<open>The three tables; the two counters are the next values of their automatic identifiers.\<close>

record job_db = env +
  jobs :: "job_record list"
  targets :: "target_record list"
  events :: "event_record list"
  next_target :: int
  next_event :: int

section \<open>Reading a job\<close>

definition target_from_record :: "target_record \<Rightarrow> job_target" where
  "target_from_record t =
     \<lparr>jt_id = tr_id t, jt_target = tr_target t, jt_name = tr_name t, jt_status = tr_status t,
      jt_message = tr_message t,
      jt_warning =
        (if tr_warning_code t \<noteq> [] \<or> tr_warning_message t \<noteq> []
         then Some \<lparr>je_details = None, je_code = tr_warning_code t, je_message = tr_warning_message t\<rparr>
         else None),
      jt_error =
        (if tr_error_code t \<noteq> [] \<or> tr_error_message t \<noteq> []
         then Some \<lparr>je_details = (case tr_error_details t of None \<Rightarrow> None | Some d \<Rightarrow> d),
                    je_code = tr_error_code t, je_message = tr_error_message t\<rparr>
         else None),
      jt_started = tr_started t, jt_finished = tr_finished t\<rparr>"

definition job_targets :: "target_record list \<Rightarrow> string \<Rightarrow> job_target list" where
  "job_targets rows job_id =
     map target_from_record (sort_key tr_id (filter (\<lambda>t. tr_job t = job_id) rows))"

definition job_from_rows :: "target_record list \<Rightarrow> job_record \<Rightarrow> job" where
  "job_from_rows rows r =
     (let items = job_targets rows (jr_id r)
      in \<lparr>jb_modes = (case jr_modes r of None \<Rightarrow> [] | Some m \<Rightarrow> m),
          jb_id = jr_id r, jb_kind = jr_kind r, jb_status = jr_status r, jb_outcome = jr_outcome r,
          jb_room = jr_room r, jb_world = jr_world r, jb_progress = jr_progress r,
          jb_message = jr_message r,
          jb_transfer =
            (if jr_current r > 0 \<or> jr_total r > 0 \<or> jr_rate r > 0
             then Some \<lparr>tp_current = jr_current r, tp_total = jr_total r, tp_rate = jr_rate r\<rparr>
             else None),
          jb_detail = jr_detail r,
          jb_error =
            (if jr_error_code r \<noteq> [] \<or> jr_error_message r \<noteq> []
             then Some \<lparr>je_details =
                     (case items of
                        [t] \<Rightarrow> (case jt_error t of Some e \<Rightarrow> je_details e | None \<Rightarrow> None)
                      | _ \<Rightarrow> None),
                   je_code = jr_error_code r, je_message = jr_error_message r\<rparr>
             else None),
          jb_cancel = jr_cancel r, jb_created = jr_created r, jb_started = jr_started r,
          jb_finished = jr_finished r, jb_targets = items\<rparr>)"

section \<open>Counting targets\<close>

definition target_counts :: "job_target list \<Rightarrow> nat \<times> nat \<times> nat" where
  "target_counts ts =
     (count_where (\<lambda>t. jt_status t = Succeeded) ts, count_where (\<lambda>t. jt_status t = Failed) ts,
      count_where (\<lambda>t. jt_status t = Canceled) ts)"

definition target_warning_count :: "job_target list \<Rightarrow> nat" where
  "target_warning_count ts = count_where (\<lambda>t. jt_warning t \<noteq> None) ts"

definition completion_outcome :: "nat \<Rightarrow> nat \<Rightarrow> job_outcome" where
  "completion_outcome succeeded unsuccessful =
     (if succeeded > 0 \<and> unsuccessful > 0 then Partial
      else if succeeded > 0 then Full
      else No_Outcome)"

definition terminal :: "job_status \<Rightarrow> bool" where
  "terminal st \<longleftrightarrow> st \<in> {Succeeded, Failed, Canceled}"

definition unfinished :: "job_status \<Rightarrow> bool" where
  "unfinished st \<longleftrightarrow> st \<in> {Queued, Running}"

lemma terminal_simps [simp]:
  "\<not> terminal Queued" "\<not> terminal Running" "terminal Succeeded" "terminal Failed" "terminal Canceled"
  by (simp_all add: terminal_def)

lemma unfinished_iff [simp]: "unfinished st \<longleftrightarrow> \<not> terminal st"
  by (cases st) (simp_all add: unfinished_def terminal_def)

end
