(* ===== verification/Job_Store.thy ===== *)
theory Job_Store
  imports Job_Types
begin

text \<open>
  \<open>internal/jobs/store.go\<close> and the plan of \<open>runtime_modes.go\<close>: the operations of the job store, each
  one transaction over the tables of \<open>Job_Types\<close> that ends by appending an event with the job as
  it then reads. Literals with non-ASCII characters are given by their UTF-8 bytes.
\<close>

section \<open>Messages\<close>

definition msg_running :: string where
  "msg_running = bytes
     [0xE4, 0xBB, 0xBB, 0xE5, 0x8A, 0xA1, 0xE6, 0xAD, 0xA3, 0xE5, 0x9C, 0xA8, 0xE6, 0x89,
      0xA7, 0xE8, 0xA1, 0x8C]"

definition msg_succeeded :: string where
  "msg_succeeded = bytes
     [0xE4, 0xBB, 0xBB, 0xE5, 0x8A, 0xA1, 0xE6, 0x89, 0xA7, 0xE8, 0xA1, 0x8C, 0xE6, 0x88,
      0x90, 0xE5, 0x8A, 0x9F]"

definition msg_canceled :: string where
  "msg_canceled = bytes
     [0xE4, 0xBB, 0xBB, 0xE5, 0x8A, 0xA1, 0xE5, 0xB7, 0xB2, 0xE5, 0x8F, 0x96, 0xE6, 0xB6, 0x88]"

definition msg_partial_failure :: string where
  "msg_partial_failure = bytes
     [0xE9, 0x83, 0xA8, 0xE5, 0x88, 0x86, 0xE7, 0x9B, 0xAE, 0xE6, 0xA0, 0x87, 0xE6, 0x89,
      0xA7, 0xE8, 0xA1, 0x8C, 0xE5, 0xA4, 0xB1, 0xE8, 0xB4, 0xA5]"

definition msg_partial :: string where
  "msg_partial = bytes
     [0xE4, 0xBB, 0xBB, 0xE5, 0x8A, 0xA1, 0xE9, 0x83, 0xA8, 0xE5, 0x88, 0x86, 0xE6, 0x88,
      0x90, 0xE5, 0x8A, 0x9F]"

definition msg_failed :: string where
  "msg_failed = bytes
     [0xE4, 0xBB, 0xBB, 0xE5, 0x8A, 0xA1, 0xE6, 0x89, 0xA7, 0xE8, 0xA1, 0x8C, 0xE5, 0xA4,
      0xB1, 0xE8, 0xB4, 0xA5]"

definition msg_restarted :: string where
  "msg_restarted = bytes
     [0xE6, 0x9C, 0x8D, 0xE5, 0x8A, 0xA1, 0xE9, 0x87, 0x8D, 0xE5, 0x90, 0xAF, 0xE4, 0xB8,
      0xAD, 0xE6, 0x96, 0xAD, 0xE4, 0xBA, 0x86, 0xE4, 0xBB, 0xBB, 0xE5, 0x8A, 0xA1]"

definition msg_interrupted :: string where
  "msg_interrupted = bytes
     [0xE4, 0xBB, 0xBB, 0xE5, 0x8A, 0xA1, 0xE8, 0xA2, 0xAB, 0xE6, 0x9C, 0x8D, 0xE5, 0x8A,
      0xA1, 0xE9, 0x87, 0x8D, 0xE5, 0x90, 0xAF, 0xE4, 0xB8, 0xAD, 0xE6, 0x96, 0xAD]"

definition msg_warnings :: "nat \<Rightarrow> string" where
  "msg_warnings n = bytes
     [0xE4, 0xBB, 0xBB, 0xE5, 0x8A, 0xA1, 0xE6, 0x89, 0xA7, 0xE8, 0xA1, 0x8C, 0xE6, 0x88,
      0x90, 0xE5, 0x8A, 0x9F, 0xEF, 0xBC, 0x8C] @ decimal n @ bytes
     [0x20, 0xE4, 0xB8, 0xAA, 0xE7, 0x9B, 0xAE, 0xE6, 0xA0, 0x87, 0xE5, 0xAD, 0x98, 0xE5,
      0x9C, 0xA8, 0xE8, 0xAD, 0xA6, 0xE5, 0x91, 0x8A]"

section \<open>Reading\<close>

definition job_from_record :: "job_record \<Rightarrow> ('s job_db_scheme, job_store_error, job) act" where
  "job_from_record r = andthen (external Job_DB) (\<lambda>_. query (\<lambda>s. job_from_rows (targets s) r))"

definition find_job :: "string \<Rightarrow> job_record list \<Rightarrow> job_record option" where
  "find_job job_id rows = List.find (\<lambda>r. jr_id r = job_id) rows"

definition first_job :: "string \<Rightarrow> ('s job_db_scheme, job_store_error, job_record) act" where
  "first_job job_id =
     andthen (external Job_DB) (\<lambda>_.
     andthen (query (\<lambda>s. find_job job_id (jobs s))) (\<lambda>found.
       case found of None \<Rightarrow> raise Job_NotFound | Some r \<Rightarrow> return_ok r))"

definition get_tx :: "string \<Rightarrow> ('s job_db_scheme, job_store_error, job) act" where
  "get_tx job_id = andthen (first_job job_id) job_from_record"

definition get_job :: "string \<Rightarrow> ('s job_db_scheme, job_store_error, job) act" where
  "get_job = get_tx"

section \<open>Appending events\<close>

definition append_event_tx :: "string \<Rightarrow> job \<Rightarrow> ('s job_db_scheme, job_store_error, job_event) act" where
  "append_event_tx event_type j =
     andthen read_now (\<lambda>now.
     andthen (external Job_DB) (\<lambda>_.
     andthen (query next_event) (\<lambda>n.
     andthen (modify (\<lambda>s. s\<lparr>next_event := n + 1,
        events := events s @ [\<lparr>er_id = n, er_job = jb_id j, er_type = event_type, er_data = j,
                               er_created = now\<rparr>]\<rparr>)) (\<lambda>_.
     return_ok \<lparr>ev_stage_changed = False, ev_id = n, ev_job = jb_id j, ev_type = event_type,
                ev_data = j, ev_created = now\<rparr>))))"

definition commit_event :: "string \<Rightarrow> string \<Rightarrow> ('s job_db_scheme, job_store_error, job \<times> job_event) act" where
  "commit_event event_type job_id =
     andthen (get_tx job_id) (\<lambda>j.
     andthen (append_event_tx event_type j) (\<lambda>e. return_ok (j, e)))"

section \<open>Creating\<close>

fun valid_specs :: "string list \<Rightarrow> target_spec list \<Rightarrow> bool" where
  "valid_specs seen [] = True"
| "valid_specs seen (t # ts) =
     (\<not> (trim_space (ts_id t) = [] \<or> trim_space (ts_name t) = [] \<or> ts_id t \<in> set seen) \<and>
      valid_specs (ts_id t # seen) ts)"

definition new_target_record :: "int \<Rightarrow> string \<Rightarrow> target_spec \<Rightarrow> target_record" where
  "new_target_record n job_id t =
     \<lparr>tr_id = n, tr_job = job_id, tr_target = ts_id t, tr_name = ts_name t, tr_status = Queued,
      tr_message = [], tr_warning_code = [], tr_warning_message = [], tr_error_code = [],
      tr_error_message = [], tr_error_details = None, tr_started = None, tr_finished = None\<rparr>"

fun create_targets :: "string \<Rightarrow> target_spec list \<Rightarrow> ('s job_db_scheme, job_store_error, unit) act" where
  "create_targets job_id [] = return_ok ()"
| "create_targets job_id (t # ts) =
     andthen (external Job_DB) (\<lambda>_.
     andthen (query (\<lambda>s. \<forall>x \<in> set (targets s). \<not> (tr_job x = job_id \<and> tr_target x = ts_id t))) (\<lambda>unique.
     andthen (guard Job_DB unique) (\<lambda>_.
     andthen (modify (\<lambda>s. s\<lparr>next_target := next_target s + 1,
        targets := targets s @ [new_target_record (next_target s) job_id t]\<rparr>)) (\<lambda>_.
     create_targets job_id ts))))"

definition new_job_record :: "string \<Rightarrow> string \<Rightarrow> string \<Rightarrow> string \<Rightarrow> int \<Rightarrow> job_record" where
  "new_job_record job_id kind room world now =
     \<lparr>jr_id = job_id, jr_kind = kind, jr_status = Queued, jr_outcome = Pending, jr_room = room,
      jr_world = world, jr_progress = 0, jr_message = [], jr_detail = None, jr_modes = None,
      jr_current = 0, jr_total = 0, jr_rate = 0, jr_error_code = [], jr_error_message = [],
      jr_cancel = False, jr_created = now, jr_started = None, jr_finished = None\<rparr>"

definition create_job ::
  "string \<Rightarrow> string \<Rightarrow> string \<Rightarrow> target_spec list \<Rightarrow> ('s job_db_scheme, job_store_error, job \<times> job_event) act" where
  "create_job raw_kind room world specs =
     (let kind = trim_space raw_kind
      in andthen (guard Job_InvalidKind (\<not> (kind = [] \<or> length kind > 64))) (\<lambda>_.
         andthen (guard Job_InvalidTarget (valid_specs [] specs)) (\<lambda>_.
         andthen read_now (\<lambda>now.
         andthen new_uuid (\<lambda>uuid.
         transaction Job_DB
           (andthen (external Job_DB) (\<lambda>_.
            andthen (query (\<lambda>s. \<forall>r \<in> set (jobs s). jr_id r \<noteq> uuid)) (\<lambda>unique.
            andthen (guard Job_DB unique) (\<lambda>_.
            andthen (modify (\<lambda>s. s\<lparr>jobs := jobs s @ [new_job_record uuid kind room world now]\<rparr>)) (\<lambda>_.
            andthen (create_targets uuid specs) (\<lambda>_.
            commit_event ''job.created'' uuid)))))))))))"

section \<open>Running\<close>

definition set_jobs ::
  "(job_record \<Rightarrow> bool) \<Rightarrow> (job_record \<Rightarrow> job_record) \<Rightarrow> ('s job_db_scheme, job_store_error, nat) act" where
  "set_jobs P f =
     andthen (external Job_DB) (\<lambda>_.
     andthen (query (\<lambda>s. count_where P (jobs s))) (\<lambda>affected.
     andthen (modify (\<lambda>s. s\<lparr>jobs := update_where P f (jobs s)\<rparr>)) (\<lambda>_. return_ok affected)))"

definition set_targets ::
  "(target_record \<Rightarrow> bool) \<Rightarrow> (target_record \<Rightarrow> target_record) \<Rightarrow> ('s job_db_scheme, job_store_error, nat) act" where
  "set_targets P f =
     andthen (external Job_DB) (\<lambda>_.
     andthen (query (\<lambda>s. count_where P (targets s))) (\<lambda>affected.
     andthen (modify (\<lambda>s. s\<lparr>targets := update_where P f (targets s)\<rparr>)) (\<lambda>_. return_ok affected)))"

definition mark_running :: "string \<Rightarrow> ('s job_db_scheme, job_store_error, job \<times> job_event) act" where
  "mark_running job_id =
     andthen read_now (\<lambda>now.
     transaction Job_DB
       (andthen (set_jobs (\<lambda>r. jr_id r = job_id \<and> jr_status r = Queued)
          (\<lambda>r. r\<lparr>jr_status := Running, jr_started := Some now, jr_message := msg_running\<rparr>)) (\<lambda>affected.
        andthen (guard Job_InvalidStatus (affected = 1)) (\<lambda>_.
        andthen (set_targets (\<lambda>t. tr_job t = job_id \<and> tr_status t = Queued)
          (\<lambda>t. t\<lparr>tr_status := Running, tr_started := Some now\<rparr>)) (\<lambda>_.
        commit_event ''job.running'' job_id)))))"

definition valid_progress :: "progress_update \<Rightarrow> bool" where
  "valid_progress u \<longleftrightarrow>
     \<not> (pu_progress u < 0 \<or> pu_progress u \<ge> 100 \<or> pu_message u = [] \<or> length (pu_message u) > 1000 \<or>
        pu_current u < 0 \<or> pu_total u < 0 \<or> pu_rate u < 0 \<or>
        pu_total u > 0 \<and> pu_current u > pu_total u)"

definition no_detail :: progress_detail where
  "no_detail = \<lparr>pd_observed = None, pd_stage = [], pd_workshop = [], pd_current_item = 0,
     pd_total_items = 0, pd_target = [], pd_installation = [], pd_items = [], pd_worlds = []\<rparr>"

text \<open>The detail to store: an update without items or worlds keeps those of the previous one.\<close>

definition next_detail :: "progress_detail \<Rightarrow> progress_detail option \<Rightarrow> progress_detail" where
  "next_detail previous update =
     (let next0 = (case update of Some d \<Rightarrow> d | None \<Rightarrow> no_detail);
          next1 = (if length (pd_items next0) = 0 then next0\<lparr>pd_items := pd_items previous\<rparr> else next0)
      in if length (pd_worlds next1) = 0 then next1\<lparr>pd_worlds := pd_worlds previous\<rparr> else next1)"

text \<open>The error \<open>None\<close> stands for the early return that rolls back and reads the job.\<close>

definition update_progress_tx ::
  "string \<Rightarrow> progress_update \<Rightarrow> ('s job_db_scheme, job_store_error option, job \<times> job_event) act" where
  "update_progress_tx job_id u =
     (\<lambda>s. case first_job job_id s of
        (Inl e, s1) \<Rightarrow> (Inl (Some e), s1)
      | (Inr current, s1) \<Rightarrow>
          if jr_status current \<noteq> Running then (Inl (Some Job_InvalidStatus), s1)
          else if pu_progress u < jr_progress current \<and>
                  (case pu_detail u of None \<Rightarrow> True
                   | Some d \<Rightarrow> length (pd_items d) = 0 \<and> length (pd_worlds d) = 0)
          then (Inl None, s1)
          else
            let progress = (if pu_progress u < jr_progress current then jr_progress current else pu_progress u);
                previous = (case jr_detail current of Some d \<Rightarrow> d | None \<Rightarrow> no_detail);
                nxt = next_detail previous (pu_detail u);
                detail = (if pu_detail u \<noteq> None \<or> length (pd_items nxt) > 0 \<or> length (pd_worlds nxt) > 0
                          then Some nxt else None)
            in case andthen (set_jobs (\<lambda>r. jr_id r = job_id \<and> jr_status r = Running)
                      (\<lambda>r. r\<lparr>jr_progress := progress, jr_message := pu_message u, jr_detail := detail,
                             jr_current := pu_current u, jr_total := pu_total u, jr_rate := pu_rate u\<rparr>)) (\<lambda>_.
                    andthen (commit_event ''job.progress'' job_id) (\<lambda>(j, e).
                    return_ok (j, e\<lparr>ev_stage_changed := pd_stage nxt \<noteq> [] \<and> pd_stage nxt \<noteq> pd_stage previous\<rparr>))) s1 of
                 (Inl e, s2) \<Rightarrow> (Inl (Some e), s2)
               | (Inr r, s2) \<Rightarrow> (Inr r, s2))"

text \<open>The event is \<open>None\<close> where the code returns the zero \<open>Event\<close>.\<close>

definition update_progress_detail ::
  "string \<Rightarrow> progress_update \<Rightarrow> ('s job_db_scheme, job_store_error, job \<times> job_event option) act" where
  "update_progress_detail job_id raw =
     (let u = raw\<lparr>pu_message := trim_space (pu_message raw)\<rparr>
      in andthen (guard Job_InvalidStatus (valid_progress u)) (\<lambda>_ s.
         case transaction (Some Job_DB) (update_progress_tx job_id u) s of
           (Inr (j, e), s1) \<Rightarrow> (Inr (j, Some e), s1)
         | (Inl (Some e), s1) \<Rightarrow> (Inl e, s1)
         | (Inl None, s1) \<Rightarrow> andthen (get_job job_id) (\<lambda>j. return_ok (j, None)) s1))"

definition update_progress ::
  "string \<Rightarrow> int \<Rightarrow> string \<Rightarrow> ('s job_db_scheme, job_store_error, job \<times> job_event option) act" where
  "update_progress job_id progress message =
     update_progress_detail job_id
       \<lparr>pu_progress = progress, pu_message = message, pu_detail = None, pu_current = 0, pu_total = 0,
        pu_rate = 0\<rparr>"

section \<open>Recording results\<close>

definition result_write :: "target_result \<Rightarrow> int \<Rightarrow> target_record \<Rightarrow> target_record" where
  "result_write res now t =
     t\<lparr>tr_status := rt_status res, tr_message := rt_message res, tr_finished := Some now,
       tr_warning_code := (case rt_warning res of Some w \<Rightarrow> je_code w | None \<Rightarrow> []),
       tr_warning_message := (case rt_warning res of Some w \<Rightarrow> je_message w | None \<Rightarrow> []),
       tr_error_code := (case rt_error res of Some e \<Rightarrow> je_code e | None \<Rightarrow> []),
       tr_error_message := (case rt_error res of Some e \<Rightarrow> je_message e | None \<Rightarrow> []),
       tr_error_details := (case rt_error res of Some e \<Rightarrow> Some (je_details e) | None \<Rightarrow> None)\<rparr>"

definition progress_of :: "nat \<Rightarrow> nat \<Rightarrow> int" where
  "progress_of n finished = (if n > 0 then int (finished * 100 div n) else 100)"

definition record_target ::
  "string \<Rightarrow> target_result \<Rightarrow> ('s job_db_scheme, job_store_error, job \<times> job_event) act" where
  "record_target job_id res =
     andthen (guard Job_InvalidStatus
       (\<not> (rt_status res \<noteq> Succeeded \<and> rt_status res \<noteq> Failed \<and> rt_status res \<noteq> Canceled))) (\<lambda>_.
     andthen read_now (\<lambda>now.
     transaction Job_DB
       (andthen (set_targets
          (\<lambda>t. tr_job t = job_id \<and> tr_target t = rt_target res \<and> tr_status t = Running)
          (result_write res now)) (\<lambda>affected.
        andthen (guard Job_InvalidTarget (affected = 1)) (\<lambda>_.
        andthen (external Job_DB) (\<lambda>_.
        andthen (query (\<lambda>s. count_where (\<lambda>t. tr_job t = job_id) (targets s))) (\<lambda>total.
        andthen (external Job_DB) (\<lambda>_.
        andthen (query (\<lambda>s. count_where (\<lambda>t. tr_job t = job_id \<and>
           terminal (tr_status t)) (targets s))) (\<lambda>finished.
        let progress = progress_of total finished
        in andthen (set_jobs (\<lambda>r. jr_id r = job_id)
             (\<lambda>r. r\<lparr>jr_progress := (if jr_progress r < progress then progress else jr_progress r)\<rparr>)) (\<lambda>_.
           commit_event ''job.target.completed'' job_id))))))))))"

section \<open>Completing\<close>

record verdict =
  vd_status :: job_status
  vd_outcome :: job_outcome
  vd_code :: string
  vd_error :: string
  vd_message :: string

definition completion_verdict :: "job_target list \<Rightarrow> string option \<Rightarrow> bool \<Rightarrow> verdict" where
  "completion_verdict ts runner_err canceled =
     (let (succeeded, failed, canceled_targets) = target_counts ts; warnings = target_warning_count ts
      in if canceled \<or> canceled_targets > 0 then
           \<lparr>vd_status = Canceled, vd_outcome = completion_outcome succeeded (failed + canceled_targets),
            vd_code = ''JOB_CANCELED'', vd_error = msg_canceled, vd_message = msg_canceled\<rparr>
         else if runner_err \<noteq> None \<or> failed > 0 then
           let outcome = completion_outcome succeeded failed;
               first = (if runner_err = None \<and> outcome = No_Outcome
                        then List.find (\<lambda>t. jt_status t = Failed \<and> jt_error t \<noteq> None) ts else None)
           in \<lparr>vd_status = Failed, vd_outcome = outcome,
               vd_code =
                 (case first of
                    Some t \<Rightarrow> je_code (the (jt_error t))
                  | None \<Rightarrow> if outcome = Partial then ''PARTIAL_FAILURE'' else ''JOB_FAILED''),
               vd_error =
                 (case first of
                    Some t \<Rightarrow> je_message (the (jt_error t))
                  | None \<Rightarrow>
                      (case runner_err of
                         Some e \<Rightarrow> e
                       | None \<Rightarrow> if outcome = Partial then msg_partial_failure else msg_failed)),
               vd_message = (if outcome = Partial then msg_partial else msg_failed)\<rparr>
         else
           \<lparr>vd_status = Succeeded, vd_outcome = Full, vd_code = [], vd_error = [],
            vd_message = (if warnings > 0 then msg_warnings warnings else msg_succeeded)\<rparr>)"

definition verdict_write :: "verdict \<Rightarrow> int \<Rightarrow> job_record \<Rightarrow> job_record" where
  "verdict_write v now r =
     r\<lparr>jr_status := vd_status v, jr_outcome := vd_outcome v, jr_progress := 100,
       jr_message := vd_message v, jr_error_code := vd_code v, jr_error_message := vd_error v,
       jr_finished := Some now, jr_current := 0, jr_total := 0, jr_rate := 0\<rparr>"

definition complete_job ::
  "string \<Rightarrow> string option \<Rightarrow> bool \<Rightarrow> ('s job_db_scheme, job_store_error, job \<times> job_event) act" where
  "complete_job job_id runner_err canceled =
     transaction Job_DB
       (andthen (get_tx job_id) (\<lambda>j.
        andthen (guard Job_InvalidStatus (jb_status j = Running)) (\<lambda>_.
        let v = completion_verdict (jb_targets j) runner_err canceled
        in andthen read_now (\<lambda>now.
           andthen (set_jobs (\<lambda>r. jr_id r = job_id \<and> jr_status r = Running)
             (verdict_write v now)) (\<lambda>_.
           commit_event ''job.completed'' job_id)))))"

definition request_cancel :: "string \<Rightarrow> ('s job_db_scheme, job_store_error, job \<times> job_event) act" where
  "request_cancel job_id =
     transaction Job_DB
       (andthen (set_jobs (\<lambda>r. jr_id r = job_id \<and> unfinished (jr_status r)) (\<lambda>r. r\<lparr>jr_cancel := True\<rparr>)) (\<lambda>affected.
        if affected \<noteq> 1 then
          andthen (external Job_DB) (\<lambda>_.
          andthen (query (\<lambda>s. count_where (\<lambda>r. jr_id r = job_id) (jobs s))) (\<lambda>count.
          raise (if count = 0 then Job_NotFound else Job_NotCancelable)))
        else commit_event ''job.cancel.requested'' job_id))"

section \<open>Recovering after a restart\<close>

definition interrupted_write :: "job_outcome \<Rightarrow> int \<Rightarrow> job_record \<Rightarrow> job_record" where
  "interrupted_write outcome now r =
     r\<lparr>jr_status := Failed, jr_outcome := outcome, jr_progress := 100, jr_message := msg_interrupted,
       jr_error_code := ''SERVER_RESTARTED'', jr_error_message := msg_restarted,
       jr_finished := Some now, jr_current := 0, jr_total := 0, jr_rate := 0\<rparr>"

definition recover_one :: "string \<Rightarrow> ('s job_db_scheme, job_store_error, job_event) act" where
  "recover_one job_id =
     andthen (transaction Job_DB
       (andthen read_now (\<lambda>now.
        andthen (set_targets (\<lambda>t. tr_job t = job_id \<and> unfinished (tr_status t))
          (\<lambda>t. t\<lparr>tr_status := Failed, tr_error_code := ''SERVER_RESTARTED'',
                 tr_error_message := msg_restarted, tr_finished := Some now\<rparr>)) (\<lambda>_.
        andthen (get_tx job_id) (\<lambda>interrupted.
        let (succeeded, failed, canceled) = target_counts (jb_targets interrupted);
            outcome = completion_outcome succeeded (failed + canceled)
        in andthen (set_jobs (\<lambda>r. jr_id r = job_id)
             (interrupted_write outcome now)) (\<lambda>_.
           commit_event ''job.interrupted'' job_id))))))
     (\<lambda>(j, e). return_ok e)"

fun recover_all :: "string list \<Rightarrow> ('s job_db_scheme, job_store_error, job_event list) act" where
  "recover_all [] = return_ok []"
| "recover_all (i # is) =
     andthen (recover_one i) (\<lambda>e. andthen (recover_all is) (\<lambda>es. return_ok (e # es)))"

definition recover_interrupted :: "('s job_db_scheme, job_store_error, job_event list) act" where
  "recover_interrupted =
     andthen (external Job_DB) (\<lambda>_.
     andthen (query (\<lambda>s. filter (\<lambda>r. unfinished (jr_status r)) (jobs s))) (\<lambda>records.
     recover_all (map jr_id records)))"

section \<open>Listing\<close>

fun jobs_from_records :: "job_record list \<Rightarrow> ('s job_db_scheme, job_store_error, job list) act" where
  "jobs_from_records [] = return_ok []"
| "jobs_from_records (r # rs) =
     andthen (job_from_record r) (\<lambda>j. andthen (jobs_from_records rs) (\<lambda>js. return_ok (j # js)))"

definition matches_filter :: "list_filter \<Rightarrow> job_record \<Rightarrow> bool" where
  "matches_filter f r \<longleftrightarrow>
     (lf_room f \<noteq> [] \<longrightarrow> jr_room r = lf_room f) \<and>
     (case lf_status f of None \<Rightarrow> True | Some st \<Rightarrow> jr_status r = st) \<and>
     (trim_space (lf_kind f) \<noteq> [] \<longrightarrow> jr_kind r = trim_space (lf_kind f))"

definition list_jobs :: "list_filter \<Rightarrow> ('s job_db_scheme, job_store_error, job list \<times> nat) act" where
  "list_jobs f =
     andthen (external Job_DB) (\<lambda>_.
     andthen (query (\<lambda>s. count_where (matches_filter f) (jobs s))) (\<lambda>total.
     let limit = (if lf_limit f \<le> 0 \<or> lf_limit f > 100 then 25 else lf_limit f);
         offset = (if lf_offset f < 0 then 0 else lf_offset f)
     in andthen (external Job_DB) (\<lambda>_.
        andthen (query (\<lambda>s. take (nat limit) (drop (nat offset)
          (sort_key (\<lambda>r. - jr_created r) (filter (matches_filter f) (jobs s)))))) (\<lambda>records.
        andthen (jobs_from_records records) (\<lambda>result. return_ok (result, total))))))"

definition event_from_record :: "event_record \<Rightarrow> job_event" where
  "event_from_record r =
     \<lparr>ev_stage_changed = False, ev_id = er_id r, ev_job = er_job r, ev_type = er_type r,
      ev_data = er_data r, ev_created = er_created r\<rparr>"

definition events_after :: "int \<Rightarrow> int \<Rightarrow> ('s job_db_scheme, job_store_error, job_event list) act" where
  "events_after after_id raw_limit =
     (let limit = (if raw_limit \<le> 0 \<or> raw_limit > 500 then 100 else raw_limit)
      in andthen (external Job_DB) (\<lambda>_.
         query (\<lambda>s. map event_from_record
           (take (nat limit) (sort_key er_id (filter (\<lambda>r. er_id r > after_id) (events s)))))))"

text \<open>\<open>MIN(id)\<close> and \<open>MAX(id)\<close> of an empty table are null, which scans as 0.\<close>

definition read_event_window :: "('s job_db_scheme, job_store_error, event_window) act" where
  "read_event_window =
     andthen (external Job_DB) (\<lambda>_.
     query (\<lambda>s. case map er_id (events s) of
        [] \<Rightarrow> \<lparr>ew_first = 0, ew_last = 0\<rparr>
      | i # is \<Rightarrow> \<lparr>ew_first = fold min is i, ew_last = fold max is i\<rparr>))"

section \<open>Pruning\<close>

definition delete_events :: "(event_record \<Rightarrow> bool) \<Rightarrow> ('s job_db_scheme, job_store_error, nat) act" where
  "delete_events P =
     andthen (external Job_DB) (\<lambda>_.
     andthen (query (\<lambda>s. count_where P (events s))) (\<lambda>n.
     andthen (modify (\<lambda>s. s\<lparr>events := filter (\<lambda>r. \<not> P r) (events s)\<rparr>)) (\<lambda>_. return_ok n)))"

definition delete_targets :: "(target_record \<Rightarrow> bool) \<Rightarrow> ('s job_db_scheme, job_store_error, nat) act" where
  "delete_targets P =
     andthen (external Job_DB) (\<lambda>_.
     andthen (query (\<lambda>s. count_where P (targets s))) (\<lambda>n.
     andthen (modify (\<lambda>s. s\<lparr>targets := filter (\<lambda>r. \<not> P r) (targets s)\<rparr>)) (\<lambda>_. return_ok n)))"

definition delete_jobs :: "(job_record \<Rightarrow> bool) \<Rightarrow> ('s job_db_scheme, job_store_error, nat) act" where
  "delete_jobs P =
     andthen (external Job_DB) (\<lambda>_.
     andthen (query (\<lambda>s. count_where P (jobs s))) (\<lambda>n.
     andthen (modify (\<lambda>s. s\<lparr>jobs := filter (\<lambda>r. \<not> P r) (jobs s)\<rparr>)) (\<lambda>_. return_ok n)))"

fun batches :: "nat \<Rightarrow> 'a list \<Rightarrow> nat \<Rightarrow> 'a list list" where
  "batches n xs 0 = []"
| "batches n xs (Suc fuel) = (if xs = [] then [] else take n xs # batches n (drop n xs) fuel)"

fun delete_batches ::
  "string list list \<Rightarrow> retention_result \<Rightarrow> ('s job_db_scheme, job_store_error, retention_result) act" where
  "delete_batches [] acc = return_ok acc"
| "delete_batches (b # bs) acc =
     andthen (delete_targets (\<lambda>t. tr_job t \<in> set b)) (\<lambda>nt.
     andthen (delete_events (\<lambda>e. er_job e \<in> set b)) (\<lambda>ne.
     andthen (delete_jobs (\<lambda>r. jr_id r \<in> set b \<and> terminal (jr_status r))) (\<lambda>nj.
     delete_batches bs (acc\<lparr>rr_targets := rr_targets acc + int nt, rr_events := rr_events acc + int ne,
                            rr_jobs := rr_jobs acc + int nj\<rparr>))))"

definition finished_or_created :: "job_record \<Rightarrow> int" where
  "finished_or_created r = (case jr_finished r of Some t \<Rightarrow> t | None \<Rightarrow> jr_created r)"

text \<open>The finished jobs beyond the limit, newest first, or older than the cutoff.\<close>

definition expired_ids :: "int \<Rightarrow> int \<Rightarrow> job_record list \<Rightarrow> string list" where
  "expired_ids limit cutoff records =
     remdups (map (\<lambda>(i, r). jr_id r) (filter (\<lambda>(i, r). int i \<ge> limit \<or>
        (case jr_finished r of None \<Rightarrow> False | Some t \<Rightarrow> t < cutoff)) (enumerate 0 records)))"

definition trim_events :: "int \<Rightarrow> ('s job_db_scheme, job_store_error, nat) act" where
  "trim_events limit =
     andthen (external Job_DB) (\<lambda>_.
     andthen (query (\<lambda>s. int (length (events s)))) (\<lambda>count.
     if count - limit > 0 then
       andthen (external Job_DB) (\<lambda>_.
       andthen (query (\<lambda>s. sort_key id (map er_id (events s)) ! nat (count - limit - 1))) (\<lambda>boundary.
       delete_events (\<lambda>e. er_id e \<le> boundary)))
     else return_ok 0))"

definition prune :: "retention_policy \<Rightarrow> ('s job_db_scheme, job_store_error, retention_result) act" where
  "prune policy =
     andthen (guard Job_InvalidPolicy
       (\<not> (rp_event_age policy \<le> 0 \<or> rp_event_limit policy \<le> 0 \<or> rp_job_age policy \<le> 0 \<or>
           rp_job_limit policy \<le> 0))) (\<lambda>_.
     andthen read_now (\<lambda>now.
     transaction Job_DB
       (andthen (delete_events (\<lambda>e. er_created e < now - rp_event_age policy)) (\<lambda>aged.
        andthen (trim_events (rp_event_limit policy)) (\<lambda>trimmed.
        andthen (external Job_DB) (\<lambda>_.
        andthen (query (\<lambda>s. sort_key (\<lambda>r. - finished_or_created r)
           (filter (\<lambda>r. terminal (jr_status r)) (jobs s)))) (\<lambda>records.
        let ids = expired_ids (rp_job_limit policy) (now - rp_job_age policy) records
        in delete_batches (batches 400 ids (length ids))
             \<lparr>rr_events = int aged + int trimmed, rr_jobs = 0, rr_targets = 0\<rparr>)))))))"

section \<open>The runtime mode plan\<close>

definition placement_unresolved :: "mode_selection \<Rightarrow> bool" where
  "placement_unresolved m \<longleftrightarrow>
     ms_error m \<noteq> None \<and> ms_target m = [] \<and> ms_installation m = [] \<and> ms_topology m = []"

definition normalize_performance_mode :: "performance_mode \<Rightarrow> performance_mode option" where
  "normalize_performance_mode m =
     (case m of Unset_Mode \<Rightarrow> Some Game_Mode | Other_Mode _ \<Rightarrow> None | _ \<Rightarrow> Some m)"

text \<open>What a saved selection may still become: what \<open>candidate\<close> fills in of it.\<close>

definition filled_selection :: "mode_selection \<Rightarrow> mode_selection \<Rightarrow> mode_selection" where
  "filled_selection original candidate =
     (let o1 = (if placement_unresolved original
                then original\<lparr>ms_target := ms_target candidate, ms_installation := ms_installation candidate,
                              ms_topology := ms_topology candidate\<rparr>
                else original);
          o2 = (if ms_error o1 \<noteq> None \<and> ms_source o1 = ''unknown''
                then o1\<lparr>ms_mode := ms_mode candidate, ms_source := ms_source candidate,
                        ms_preference := ms_preference candidate, ms_was_running := ms_was_running candidate\<rparr>
                else o1);
          o3 = (if ms_action o2 = ''start'' then o2\<lparr>ms_was_running := ms_was_running candidate\<rparr> else o2)
      in o3\<lparr>ms_error := None\<rparr>)"

definition same_selection :: "mode_selection \<Rightarrow> mode_selection \<Rightarrow> bool" where
  "same_selection original candidate \<longleftrightarrow> filled_selection original candidate = candidate\<lparr>ms_error := None\<rparr>"

definition valid_selection :: "string \<Rightarrow> mode_selection \<Rightarrow> bool" where
  "valid_selection room m \<longleftrightarrow>
     \<not> (ms_room m \<noteq> room \<or> ms_world m = [] \<or> ms_mode m = Unset_Mode) \<and>
     normalize_performance_mode (ms_mode m) \<noteq> None"

definition runtime_mode_plan ::
  "string \<Rightarrow> string \<Rightarrow> ('s job_db_scheme, job_store_error, mode_selection list) act" where
  "runtime_mode_plan job_id room =
     andthen (get_job job_id) (\<lambda>j. return_ok (filter (\<lambda>m. ms_room m = room) (jb_modes j)))"

definition save_runtime_mode_plan ::
  "string \<Rightarrow> string \<Rightarrow> mode_selection list \<Rightarrow> ('s job_db_scheme, job_store_error, unit) act" where
  "save_runtime_mode_plan job_id room plan =
     andthen (guard Job_PlanEmpty (length plan \<noteq> 0)) (\<lambda>_.
     transaction Job_DB
       (andthen (first_job job_id) (\<lambda>record.
        let all = (case jr_modes record of None \<Rightarrow> [] | Some m \<Rightarrow> m);
            existing = filter (\<lambda>m. ms_room m = room) all
        in andthen (guard Job_PlanChanged
             (existing = [] \<or> length existing = length plan \<and> list_all2 same_selection existing plan)) (\<lambda>_.
           andthen (guard Job_PlanInvalid (list_all (valid_selection room) plan)) (\<lambda>_.
           andthen (set_jobs (\<lambda>r. jr_id r = job_id)
             (\<lambda>r. r\<lparr>jr_modes := Some (filter (\<lambda>m. ms_room m \<noteq> room) all @ plan)\<rparr>)) (\<lambda>_. return_ok ()))))))"

end
