(* ===== verification/Job_Laws.thy ===== *)
theory Job_Laws
  imports Job_Store
begin

text \<open>
  What the operations of the job store do to its tables: one lemma per operation for success, one
  for failure, then the invariant and the life of a job across any run of operations, and the
  properties. \<open>Prune\<close>, the only operation that deletes, joins the runs in \<open>Job_Properties\<close>.
\<close>

section \<open>Statements and events\<close>

lemma set_jobs_Inr [simp]:
  "set_jobs P f s = (Inr n, s') \<longleftrightarrow>
     \<not> fault s (step s) \<and> n = count_where P (jobs s) \<and>
     s' = s\<lparr>step := Suc (step s), jobs := update_where P f (jobs s)\<rparr>"
  by (auto simp: set_jobs_def andthen_eq_Inr_iff)

lemma set_targets_Inr [simp]:
  "set_targets P f s = (Inr n, s') \<longleftrightarrow>
     \<not> fault s (step s) \<and> n = count_where P (targets s) \<and>
     s' = s\<lparr>step := Suc (step s), targets := update_where P f (targets s)\<rparr>"
  by (auto simp: set_targets_def andthen_eq_Inr_iff)

lemma first_job_Inr [simp]:
  "first_job i s = (Inr r, s') \<longleftrightarrow>
     \<not> fault s (step s) \<and> find_job i (jobs s) = Some r \<and> s' = s\<lparr>step := Suc (step s)\<rparr>"
  by (auto simp: first_job_def andthen_eq_Inr_iff split: option.splits)

lemma first_job_Inl: "first_job i s = (Inl e, s') \<Longrightarrow> only_steps s s'"
  by (auto simp: first_job_def andthen_eq_Inl_iff split: option.splits)

lemma get_tx_Inr [simp]:
  "get_tx i s = (Inr j, s') \<longleftrightarrow>
     \<not> fault s (step s) \<and> \<not> fault s (Suc (step s)) \<and> s' = s\<lparr>step := Suc (Suc (step s))\<rparr> \<and>
     (\<exists>r. find_job i (jobs s) = Some r \<and> j = job_from_rows (targets s) r)"
  by (auto simp: get_tx_def job_from_record_def andthen_eq_Inr_iff)

lemma get_tx_Inl: "get_tx i s = (Inl e, s') \<Longrightarrow> only_steps s s'"
  by (auto simp: get_tx_def job_from_record_def andthen_eq_Inl_iff dest!: first_job_Inl)

text \<open>The event that ends an operation carries the job as it then reads.\<close>

definition appended ::
  "string \<Rightarrow> string \<Rightarrow> 's job_db_scheme \<Rightarrow> 's job_db_scheme \<Rightarrow> job \<Rightarrow> job_event \<Rightarrow> bool" where
  "appended event_type i s s' j e \<longleftrightarrow>
     (\<exists>r. find_job i (jobs s') = Some r \<and> j = job_from_rows (targets s') r) \<and>
     next_event s' = next_event s + 1 \<and> ev_id e = next_event s \<and> ev_data e = j \<and>
     (\<exists>now. events s' = events s @ [\<lparr>er_id = next_event s, er_job = jb_id j, er_type = event_type,
                                      er_data = j, er_created = now\<rparr>])"

lemma commit_event_Inr:
  "commit_event event_type i s = (Inr (j, e), s') \<Longrightarrow>
     appended event_type i s s' j e \<and> jobs s' = jobs s \<and> targets s' = targets s \<and>
     next_target s' = next_target s"
  by (auto simp: commit_event_def append_event_tx_def andthen_eq_Inr_iff appended_def)

lemma appended_before:
  "events s1 = events s \<Longrightarrow> next_event s1 = next_event s \<Longrightarrow>
   appended event_type i s1 s' j e = appended event_type i s s' j e"
  by (simp add: appended_def)

lemma appended_after [simp]:
  "appended event_type i s (s'\<lparr>step := n\<rparr>) j e = appended event_type i s s' j e"
  "appended event_type i (s\<lparr>step := n\<rparr>) s' j e = appended event_type i s s' j e"
  "appended event_type i (s\<lparr>jobs := js\<rparr>) s' j e = appended event_type i s s' j e"
  "appended event_type i (s\<lparr>targets := ts\<rparr>) s' j e = appended event_type i s s' j e"
  "appended event_type i s s' j (e\<lparr>ev_stage_changed := b\<rparr>) = appended event_type i s s' j e"
  by (simp_all add: appended_def)

section \<open>The operations that succeed\<close>

definition tables_same :: "'s job_db_scheme \<Rightarrow> 's job_db_scheme \<Rightarrow> bool" where
  "tables_same s s' \<longleftrightarrow> jobs s' = jobs s \<and> targets s' = targets s \<and> events s' = events s \<and>
     next_target s' = next_target s \<and> next_event s' = next_event s"

lemma only_steps_tables: "only_steps s s' \<Longrightarrow> tables_same s s'"
  by (auto simp: only_steps_def tables_same_def)

lemma mark_running_Inr:
  assumes "mark_running i s = (Inr (j, e), s')"
  shows "\<exists>now. count_where (\<lambda>r. jr_id r = i \<and> jr_status r = Queued) (jobs s) = 1 \<and>
    jobs s' = update_where (\<lambda>r. jr_id r = i \<and> jr_status r = Queued)
      (\<lambda>r. r\<lparr>jr_status := Running, jr_started := Some now, jr_message := msg_running\<rparr>) (jobs s) \<and>
    targets s' = update_where (\<lambda>t. tr_job t = i \<and> tr_status t = Queued)
      (\<lambda>t. t\<lparr>tr_status := Running, tr_started := Some now\<rparr>) (targets s) \<and>
    next_target s' = next_target s \<and> appended ''job.running'' i s s' j e"
  using assms
  by (auto simp: mark_running_def andthen_eq_Inr_iff transaction_eq_Inr dest!: commit_event_Inr)

lemma progress_of_bounds: "finished \<le> n \<Longrightarrow> 0 \<le> progress_of n finished \<and> progress_of n finished \<le> 100"
proof (cases "n = 0")
  case False
  assume "finished \<le> n"
  then have "finished * 100 div n \<le> 100 * n div n" by (intro div_le_mono) simp
  with False show ?thesis by (simp add: progress_of_def)
qed (simp add: progress_of_def)

lemma count_where_mono: "(\<And>x. P x \<Longrightarrow> Q x) \<Longrightarrow> count_where P xs \<le> count_where Q xs"
  by (induction xs) auto

definition target_progress :: "string \<Rightarrow> target_record list \<Rightarrow> int" where
  "target_progress i rows =
     progress_of (count_where (\<lambda>t. tr_job t = i) rows)
       (count_where (\<lambda>t. tr_job t = i \<and> terminal (tr_status t)) rows)"

lemma target_progress_bounds: "0 \<le> target_progress i rows \<and> target_progress i rows \<le> 100"
  unfolding target_progress_def by (intro progress_of_bounds count_where_mono) simp

lemma record_target_Inr:
  assumes "record_target i res s = (Inr (j, e), s')"
  shows "\<exists>now. terminal (rt_status res) \<and>
    count_where (\<lambda>t. tr_job t = i \<and> tr_target t = rt_target res \<and> tr_status t = Running) (targets s) = 1 \<and>
    targets s' = update_where (\<lambda>t. tr_job t = i \<and> tr_target t = rt_target res \<and> tr_status t = Running)
      (result_write res now) (targets s) \<and>
    jobs s' = update_where (\<lambda>r. jr_id r = i)
      (\<lambda>r. r\<lparr>jr_progress := (if jr_progress r < target_progress i (targets s')
                             then target_progress i (targets s') else jr_progress r)\<rparr>) (jobs s) \<and>
    next_target s' = next_target s \<and> appended ''job.target.completed'' i s s' j e"
  using assms unfolding record_target_def
  by (intro exI [of _ "clock s (step s)"], elim andthen_InrE)
    (auto simp: transaction_eq_Inr Let_def target_progress_def elim!: andthen_InrE
      dest!: commit_event_Inr cong del: if_weak_cong)

lemma complete_job_Inr:
  assumes "complete_job i err canceled s = (Inr (j, e), s')"
  shows "\<exists>now r. find_job i (jobs s) = Some r \<and> jr_status r = Running \<and>
    jobs s' = update_where (\<lambda>r. jr_id r = i \<and> jr_status r = Running)
      (verdict_write (completion_verdict (job_targets (targets s) (jr_id r)) err canceled) now) (jobs s) \<and>
    targets s' = targets s \<and> next_target s' = next_target s \<and> appended ''job.completed'' i s s' j e"
  using assms
  by (auto simp: complete_job_def andthen_eq_Inr_iff transaction_eq_Inr Let_def job_from_rows_def
      dest!: commit_event_Inr)

lemma request_cancel_Inr:
  assumes "request_cancel i s = (Inr (j, e), s')"
  shows "count_where (\<lambda>r. jr_id r = i \<and> \<not> terminal (jr_status r)) (jobs s) = 1 \<and>
    jobs s' = update_where (\<lambda>r. jr_id r = i \<and> \<not> terminal (jr_status r)) (\<lambda>r. r\<lparr>jr_cancel := True\<rparr>) (jobs s) \<and>
    targets s' = targets s \<and> next_target s' = next_target s \<and>
    appended ''job.cancel.requested'' i s s' j e"
  using assms
  by (auto simp: request_cancel_def andthen_eq_Inr_iff transaction_eq_Inr
      dest!: commit_event_Inr split: if_splits)

lemma update_progress_Inr:
  assumes "update_progress_detail i u s = (Inr (j, Some e), s')"
  shows "\<exists>r p d. find_job i (jobs s) = Some r \<and> jr_status r = Running \<and>
    p = max (jr_progress r) (pu_progress u) \<and> 0 \<le> pu_progress u \<and> pu_progress u < 100 \<and>
    jobs s' = update_where (\<lambda>r. jr_id r = i \<and> jr_status r = Running)
      (\<lambda>r. r\<lparr>jr_progress := p, jr_message := trim_space (pu_message u), jr_detail := d,
             jr_current := pu_current u, jr_total := pu_total u, jr_rate := pu_rate u\<rparr>) (jobs s) \<and>
    targets s' = targets s \<and> next_target s' = next_target s \<and> appended ''job.progress'' i s s' j e"
  using assms
  by (auto simp: update_progress_detail_def update_progress_tx_def andthen_eq_Inr_iff transaction_eq_Inr
      Let_def valid_progress_def split: prod.splits sum.splits if_splits option.splits
      dest!: commit_event_Inr)

fun new_targets :: "int \<Rightarrow> string \<Rightarrow> target_spec list \<Rightarrow> target_record list" where
  "new_targets n i [] = []"
| "new_targets n i (t # ts) = new_target_record n i t # new_targets (n + 1) i ts"

lemma create_targets_Inr:
  "create_targets i ts s = (Inr u, s') \<Longrightarrow>
     jobs s' = jobs s \<and> events s' = events s \<and> next_event s' = next_event s \<and>
     targets s' = targets s @ new_targets (next_target s) i ts \<and>
     next_target s' = next_target s + int (length ts)"
proof (induction ts arbitrary: s)
  case (Cons t ts)
  then have "create_targets i ts (s\<lparr>step := Suc (step s), next_target := next_target s + 1,
      targets := targets s @ [new_target_record (next_target s) i t]\<rparr>) = (Inr u, s')"
    by (auto simp: andthen_eq_Inr_iff)
  from Cons.IH [OF this] show ?case by simp
qed simp

lemma create_job_Inr:
  assumes "create_job kind room world specs s = (Inr (j, e), s')"
  shows "\<exists>i now. (\<forall>r \<in> set (jobs s). jr_id r \<noteq> i) \<and>
    jobs s' = jobs s @ [new_job_record i (trim_space kind) room world now] \<and>
    targets s' = targets s @ new_targets (next_target s) i specs \<and>
    next_target s' = next_target s + int (length specs) \<and> appended ''job.created'' i s s' j e"
proof -
  from assms obtain i now s1 s2 where
    unique: "\<forall>r \<in> set (jobs s). jr_id r \<noteq> i"
    and made: "create_targets i specs (s\<lparr>step := Suc (Suc (Suc (Suc (step s)))),
       jobs := jobs s @ [new_job_record i (trim_space kind) room world now]\<rparr>) = (Inr (), s1)"
    and logged: "commit_event ''job.created'' i s1 = (Inr (j, e), s2)"
    and s': "s' = s2\<lparr>step := Suc (step s2)\<rparr>"
    unfolding create_job_def Let_def by (auto elim!: andthen_InrE simp: transaction_eq_Inr)
  from create_targets_Inr [OF made] commit_event_Inr [OF logged] unique s' show ?thesis
    by (auto simp: appended_def)
qed

definition settled_outcome :: "job_target list \<Rightarrow> job_outcome" where
  "settled_outcome ts = (case target_counts ts of (a, b, d) \<Rightarrow> completion_outcome a (b + d))"

lemma settled_outcome_not_pending: "settled_outcome ts \<noteq> Pending"
  by (simp add: settled_outcome_def completion_outcome_def split: prod.split)

lemma recover_one_Inr:
  assumes "recover_one i s = (Inr e, s')"
  shows "\<exists>now outcome j. jobs s' = update_where (\<lambda>r. jr_id r = i)
      (interrupted_write outcome now) (jobs s) \<and> outcome = settled_outcome (job_targets (targets s') i) \<and>
    targets s' = update_where (\<lambda>t. tr_job t = i \<and> \<not> terminal (tr_status t))
      (\<lambda>t. t\<lparr>tr_status := Failed, tr_error_code := ''SERVER_RESTARTED'',
             tr_error_message := msg_restarted, tr_finished := Some now\<rparr>) (targets s) \<and>
    next_target s' = next_target s \<and> appended ''job.interrupted'' i s s' j e"
proof -
  have found: "jr_id r = i" if "find_job i rows = Some r" for r rows
    using that by (auto simp: find_job_def dest: find_SomeD)
  have items: "jb_targets (job_from_rows rows r) = job_targets rows (jr_id r)" for rows r
    by (simp add: job_from_rows_def Let_def)
  from assms show ?thesis
    unfolding recover_one_def
    by (elim andthen_InrE)
      (fastforce simp: transaction_eq_Inr settled_outcome_def items Let_def elim!: andthen_InrE
        dest!: commit_event_Inr dest: found split: prod.splits)
qed

lemma save_plan_Inr:
  assumes "save_runtime_mode_plan i room plan s = (Inr u, s')"
  shows "\<exists>r. find_job i (jobs s) = Some r \<and>
    (let all = (case jr_modes r of None \<Rightarrow> [] | Some m \<Rightarrow> m);
         existing = filter (\<lambda>m. ms_room m = room) all
     in (existing = [] \<or> length existing = length plan \<and> list_all2 same_selection existing plan) \<and>
        plan \<noteq> [] \<and> list_all (valid_selection room) plan \<and>
        jobs s' = update_where (\<lambda>r. jr_id r = i)
          (\<lambda>r. r\<lparr>jr_modes := Some (filter (\<lambda>m. ms_room m \<noteq> room) all @ plan)\<rparr>) (jobs s)) \<and>
    targets s' = targets s \<and> events s' = events s \<and> next_target s' = next_target s \<and>
    next_event s' = next_event s"
  using assms unfolding save_runtime_mode_plan_def
  by (auto simp: transaction_eq_Inr Let_def elim!: andthen_InrE)

section \<open>The operations that fail\<close>

lemma job_ops_Inl:
  "create_job kind room world specs s = (Inl err, s') \<Longrightarrow> only_steps s s'"
  "mark_running i s = (Inl err, s') \<Longrightarrow> only_steps s s'"
  "record_target i res s = (Inl err, s') \<Longrightarrow> only_steps s s'"
  "complete_job i runner_err canceled s = (Inl err, s') \<Longrightarrow> only_steps s s'"
  "request_cancel i s = (Inl err, s') \<Longrightarrow> only_steps s s'"
  "save_runtime_mode_plan i room plan s = (Inl err, s') \<Longrightarrow> only_steps s s'"
  "prune policy s = (Inl err, s') \<Longrightarrow> only_steps s s'"
  "recover_one i s = (Inl err, s') \<Longrightarrow> only_steps s s'"
  by (auto simp: create_job_def mark_running_def record_target_def complete_job_def request_cancel_def
      save_runtime_mode_plan_def prune_def recover_one_def Let_def andthen_eq_Inl_iff
      dest!: transaction_rollback split: if_splits prod.splits)

lemma update_progress_Inl:
  assumes "update_progress_detail i u s = (Inl err, s') \<or> update_progress_detail i u s = (Inr (j, None), s')"
  shows "only_steps s s'"
  using assms
  by (auto simp: update_progress_detail_def get_job_def Let_def andthen_eq_Inr_iff andthen_eq_Inl_iff
      split: prod.splits sum.splits option.splits
      dest!: transaction_rollback get_tx_Inl intro: only_steps_trans)

section \<open>Runs of the store\<close>

text \<open>One call of a mutating operation other than \<open>Prune\<close>, whatever its outcome.\<close>

inductive job_call :: "'s job_db_scheme \<Rightarrow> 's job_db_scheme \<Rightarrow> bool" where
  called_create: "create_job kind room world specs s = (res, s') \<Longrightarrow> job_call s s'"
| called_running: "mark_running i s = (res, s') \<Longrightarrow> job_call s s'"
| called_progress: "update_progress_detail i u s = (res2, s') \<Longrightarrow> job_call s s'"
| called_record: "record_target i result s = (res, s') \<Longrightarrow> job_call s s'"
| called_complete: "complete_job i runner_err canceled s = (res, s') \<Longrightarrow> job_call s s'"
| called_cancel: "request_cancel i s = (res, s') \<Longrightarrow> job_call s s'"
| called_recover: "recover_one i s = (res3, s') \<Longrightarrow> find_job i (jobs s) = Some r \<Longrightarrow>
    \<not> terminal (jr_status r) \<Longrightarrow> job_call s s'"
| called_save: "save_runtime_mode_plan i room plan s = (res4, s') \<Longrightarrow> job_call s s'"

text \<open>How a row may change: forward, never losing progress, and not at all once finished, except for
  the mode plan kept with it.\<close>

definition status_le :: "job_status \<Rightarrow> job_status \<Rightarrow> bool" where
  "status_le a b \<longleftrightarrow> a = b \<or> a = Queued \<or> (a = Running \<and> terminal b)"

definition job_move :: "job_record \<Rightarrow> job_record \<Rightarrow> bool" where
  "job_move x y \<longleftrightarrow>
     jr_id y = jr_id x \<and> jr_kind y = jr_kind x \<and> jr_room y = jr_room x \<and> jr_world y = jr_world x \<and>
     jr_created y = jr_created x \<and> jr_progress x \<le> jr_progress y \<and>
     status_le (jr_status x) (jr_status y) \<and> (jr_cancel x \<longrightarrow> jr_cancel y) \<and>
     (terminal (jr_status x) \<longrightarrow> y\<lparr>jr_modes := jr_modes x\<rparr> = x)"

definition job_row_ok :: "job_record \<Rightarrow> bool" where
  "job_row_ok r \<longleftrightarrow>
     0 \<le> jr_progress r \<and> jr_progress r \<le> 100 \<and>
     (if terminal (jr_status r) then jr_progress r = 100 \<and> jr_outcome r \<noteq> Pending \<and> jr_finished r \<noteq> None
      else jr_outcome r = Pending \<and> jr_finished r = None \<and> jr_error_code r = [] \<and> jr_error_message r = [])"

definition events_ok :: "event_record list \<Rightarrow> int \<Rightarrow> bool" where
  "events_ok log n \<longleftrightarrow> sorted_wrt (<) (map er_id log) \<and> (\<forall>e \<in> set log. er_id e < n)"

definition job_inv :: "'s job_db_scheme \<Rightarrow> bool" where
  "job_inv s \<longleftrightarrow>
     distinct (map jr_id (jobs s)) \<and> (\<forall>r \<in> set (jobs s). job_row_ok r) \<and>
     events_ok (events s) (next_event s)"

lemma job_move_refl [simp]: "job_move r r"
  by (simp add: job_move_def status_le_def)

lemma status_le_trans: "status_le a b \<Longrightarrow> status_le b c \<Longrightarrow> status_le a c"
  by (cases a; cases b; cases c) (simp_all add: status_le_def terminal_def)

lemma terminal_status_le: "terminal a \<Longrightarrow> status_le a b \<Longrightarrow> b = a"
  by (cases a; cases b) (simp_all add: status_le_def terminal_def)

lemma job_move_trans:
  assumes "job_move x y" and "job_move y z"
  shows "job_move x z"
proof -
  have "z\<lparr>jr_modes := jr_modes x\<rparr> = x" if "terminal (jr_status x)"
  proof -
    from that assms(1) have y: "y\<lparr>jr_modes := jr_modes x\<rparr> = x" and "jr_status y = jr_status x"
      by (auto simp: job_move_def dest: terminal_status_le)
    with that assms(2) have "z\<lparr>jr_modes := jr_modes y\<rparr> = y" by (simp add: job_move_def)
    then have "z\<lparr>jr_modes := jr_modes y\<rparr>\<lparr>jr_modes := jr_modes x\<rparr> = y\<lparr>jr_modes := jr_modes x\<rparr>" by simp
    with y show ?thesis by simp
  qed
  with assms show ?thesis by (auto simp: job_move_def intro: status_le_trans)
qed

definition jobs_step :: "'s job_db_scheme \<Rightarrow> 's job_db_scheme \<Rightarrow> bool" where
  "jobs_step s s' \<longleftrightarrow>
     (\<exists>f new. jobs s' = map f (jobs s) @ new \<and> (\<forall>r \<in> set (jobs s). job_move r (f r) \<and> job_row_ok (f r)) \<and>
        (\<forall>r \<in> set new. job_row_ok r) \<and> distinct (map jr_id (jobs s'))) \<and>
     events_ok (events s') (next_event s')"

lemma events_ok_append:
  "events_ok log n \<Longrightarrow> er_id e = n \<Longrightarrow> events_ok (log @ [e]) (n + 1)"
  by (auto simp: events_ok_def sorted_wrt_append)

lemma appended_events_ok:
  "appended event_type i s s' j e \<Longrightarrow> events_ok (events s) (next_event s) \<Longrightarrow>
   events_ok (events s') (next_event s')"
  by (auto simp: appended_def intro!: events_ok_append)

text \<open>An operation that changes rows in place.\<close>

lemma jobs_step_update:
  assumes "job_inv s" and "jobs s' = update_where P f (jobs s)"
    and "\<And>r. r \<in> set (jobs s) \<Longrightarrow> P r \<Longrightarrow> job_row_ok r \<Longrightarrow> job_move r (f r) \<and> job_row_ok (f r)"
    and "events_ok (events s') (next_event s')"
  shows "jobs_step s s'"
proof -
  have moves: "job_move r (if P r then f r else r) \<and> job_row_ok (if P r then f r else r)"
    if "r \<in> set (jobs s)" for r
    using assms(1,3) that by (auto simp: job_inv_def)
  have "map jr_id (jobs s') = map jr_id (jobs s)"
    using moves by (simp add: assms(2) update_where_def job_move_def)
  then have "distinct (map jr_id (jobs s'))" using assms(1) by (simp add: job_inv_def)
  with moves assms(2,4) show ?thesis
    unfolding jobs_step_def update_where_def
    by (intro conjI exI [of _ "\<lambda>r. if P r then f r else r"] exI [of _ "[]"]) auto
qed

lemma jobs_step_same: "job_inv s \<Longrightarrow> tables_same s s' \<Longrightarrow> jobs_step s s'"
  by (rule jobs_step_update [of s s' "\<lambda>_. False" "\<lambda>r. r"])
    (auto simp: tables_same_def job_inv_def update_where_def)

lemma find_job_Some: "find_job i rows = Some r \<Longrightarrow> r \<in> set rows \<and> jr_id r = i"
  by (auto simp: find_job_def dest: find_SomeD)

lemma find_job_in:
  "distinct (map jr_id rows) \<Longrightarrow> r \<in> set rows \<Longrightarrow> find_job (jr_id r) rows = Some r"
  using find_distinct_key [of jr_id rows r] by (simp add: find_job_def)

lemma verdict_cases:
  "terminal (vd_status (completion_verdict ts err canceled)) \<and>
   vd_outcome (completion_verdict ts err canceled) \<noteq> Pending"
  by (simp add: completion_verdict_def completion_outcome_def target_counts_def Let_def terminal_def
      split: prod.splits)

lemma status_le_Failed: "\<not> terminal st \<Longrightarrow> status_le st Failed"
  by (cases st) (simp_all add: status_le_def terminal_def)

lemmas row_facts = job_move_def job_row_ok_def status_le_def terminal_def

lemma step_cases:
  assumes "job_inv s" and "\<And>a. res = Inr a \<Longrightarrow> jobs_step s s'"
    and "\<And>err. res = Inl err \<Longrightarrow> only_steps s s'"
  shows "jobs_step s s'"
  using assms by (cases res) (auto intro: jobs_step_same only_steps_tables)

lemma inv_log: "job_inv s \<Longrightarrow> events_ok (events s) (next_event s)"
  by (simp add: job_inv_def)

lemma create_job_step:
  assumes run: "create_job kind room world specs s = (res, s')" and inv: "job_inv s"
  shows "jobs_step s s'"
proof (rule step_cases [OF inv])
  fix a assume "res = Inr a"
  with run obtain j e where "create_job kind room world specs s = (Inr (j, e), s')" by (cases a) auto
  from create_job_Inr [OF this] obtain i now
    where new: "\<forall>r \<in> set (jobs s). jr_id r \<noteq> i"
      "jobs s' = jobs s @ [new_job_record i (trim_space kind) room world now]"
      and app: "appended ''job.created'' i s s' j e" by blast
  have "jr_id (new_job_record i (trim_space kind) room world now) = i"
    "job_row_ok (new_job_record i (trim_space kind) room world now)"
    by (simp_all add: new_job_record_def job_row_ok_def terminal_def)
  with new inv appended_events_ok [OF app inv_log [OF inv]] show "jobs_step s s'"
    unfolding jobs_step_def
    by (intro conjI exI [of _ "\<lambda>r. r"]
        exI [of _ "[new_job_record i (trim_space kind) room world now]"]) (auto simp: job_inv_def)
qed (use run in \<open>auto dest: job_ops_Inl\<close>)

lemma mark_running_step:
  assumes run: "mark_running i s = (res, s')" and inv: "job_inv s"
  shows "jobs_step s s'"
proof (rule step_cases [OF inv])
  fix a assume "res = Inr a"
  with run obtain j e where "mark_running i s = (Inr (j, e), s')" by (cases a) auto
  from mark_running_Inr [OF this] obtain now where
    rows: "jobs s' = update_where (\<lambda>r. jr_id r = i \<and> jr_status r = Queued)
      (\<lambda>r. r\<lparr>jr_status := Running, jr_started := Some now, jr_message := msg_running\<rparr>) (jobs s)"
    and app: "appended ''job.running'' i s s' j e" by blast
  show "jobs_step s s'"
    by (rule jobs_step_update [OF inv rows _ appended_events_ok [OF app inv_log [OF inv]]])
      (auto simp: row_facts)
qed (use run in \<open>auto dest: job_ops_Inl\<close>)

lemma update_progress_step:
  assumes run: "update_progress_detail i u s = (res, s')" and inv: "job_inv s"
  shows "jobs_step s s'"
proof (cases "\<exists>j e. res = Inr (j, Some e)")
  case True
  with run obtain j e where "update_progress_detail i u s = (Inr (j, Some e), s')" by auto
  from update_progress_Inr [OF this] obtain r p d where
    r: "find_job i (jobs s) = Some r" "p = max (jr_progress r) (pu_progress u)"
      "0 \<le> pu_progress u" "pu_progress u < 100"
    and rows: "jobs s' = update_where (\<lambda>r. jr_id r = i \<and> jr_status r = Running)
      (\<lambda>r. r\<lparr>jr_progress := p, jr_message := trim_space (pu_message u), jr_detail := d,
         jr_current := pu_current u, jr_total := pu_total u, jr_rate := pu_rate u\<rparr>) (jobs s)"
    and app: "appended ''job.progress'' i s s' j e" by blast
  have dist: "distinct (map jr_id (jobs s))" using inv by (simp add: job_inv_def)
  have one: "x = r" if "x \<in> set (jobs s)" "jr_id x = i" for x
    using find_job_in [OF dist that(1)] that(2) r(1) by simp
  show ?thesis
    by (rule jobs_step_update [OF inv rows _ appended_events_ok [OF app inv_log [OF inv]]])
      (use one r in \<open>force simp: row_facts\<close>)
next
  case False
  then have "(\<exists>err. res = Inl err) \<or> (\<exists>j. res = Inr (j, None))"
    by (cases res) (auto intro: option.exhaust_sel)
  with run inv show ?thesis by (blast intro: jobs_step_same only_steps_tables update_progress_Inl)
qed

lemma record_target_step:
  assumes run: "record_target i result s = (res, s')" and inv: "job_inv s"
  shows "jobs_step s s'"
proof (rule step_cases [OF inv])
  fix a assume "res = Inr a"
  with run obtain j e where "record_target i result s = (Inr (j, e), s')" by (cases a) auto
  from record_target_Inr [OF this] have
    rows: "jobs s' = update_where (\<lambda>r. jr_id r = i)
      (\<lambda>r. r\<lparr>jr_progress := (if jr_progress r < target_progress i (targets s')
                         then target_progress i (targets s') else jr_progress r)\<rparr>) (jobs s)"
    and app: "appended ''job.target.completed'' i s s' j e" by blast+
  show "jobs_step s s'"
    by (rule jobs_step_update [OF inv rows _ appended_events_ok [OF app inv_log [OF inv]]])
      (use target_progress_bounds [of i "targets s'"] in \<open>auto simp: row_facts\<close>)
qed (use run in \<open>auto dest: job_ops_Inl\<close>)

lemma complete_job_step:
  assumes run: "complete_job i runner_err canceled s = (res, s')" and inv: "job_inv s"
  shows "jobs_step s s'"
proof (rule step_cases [OF inv])
  fix a assume "res = Inr a"
  with run obtain j e where "complete_job i runner_err canceled s = (Inr (j, e), s')" by (cases a) auto
  from complete_job_Inr [OF this] obtain now r where "find_job i (jobs s) = Some r" and
    rows: "jobs s' = update_where (\<lambda>r. jr_id r = i \<and> jr_status r = Running)
      (verdict_write (completion_verdict (job_targets (targets s) (jr_id r)) runner_err canceled) now) (jobs s)"
    and app: "appended ''job.completed'' i s s' j e" by blast
  show "jobs_step s s'"
    by (rule jobs_step_update [OF inv rows _ appended_events_ok [OF app inv_log [OF inv]]])
      (use verdict_cases in \<open>auto simp: verdict_write_def job_move_def job_row_ok_def status_le_def\<close>)
qed (use run in \<open>auto dest: job_ops_Inl\<close>)

lemma request_cancel_step:
  assumes run: "request_cancel i s = (res, s')" and inv: "job_inv s"
  shows "jobs_step s s'"
proof (rule step_cases [OF inv])
  fix a assume "res = Inr a"
  with run obtain j e where "request_cancel i s = (Inr (j, e), s')" by (cases a) auto
  from request_cancel_Inr [OF this] have
    rows: "jobs s' = update_where (\<lambda>r. jr_id r = i \<and> \<not> terminal (jr_status r)) (\<lambda>r. r\<lparr>jr_cancel := True\<rparr>) (jobs s)"
    and app: "appended ''job.cancel.requested'' i s s' j e" by blast+
  show "jobs_step s s'"
    by (rule jobs_step_update [OF inv rows _ appended_events_ok [OF app inv_log [OF inv]]])
      (auto simp: job_move_def job_row_ok_def status_le_def)
qed (use run in \<open>auto dest: job_ops_Inl\<close>)

lemma recover_one_step:
  assumes run: "recover_one i s = (res, s')" and inv: "job_inv s"
    and r: "find_job i (jobs s) = Some r" "\<not> terminal (jr_status r)"
  shows "jobs_step s s'"
proof (rule step_cases [OF inv])
  fix e assume "res = Inr e"
  with run have "recover_one i s = (Inr e, s')" by simp
  from recover_one_Inr [OF this] obtain now outcome j where
    rows: "jobs s' = update_where (\<lambda>r. jr_id r = i)
      (interrupted_write outcome now) (jobs s)"
    and o: "outcome \<noteq> Pending" and app: "appended ''job.interrupted'' i s s' j e"
    using settled_outcome_not_pending by blast
  have dist: "distinct (map jr_id (jobs s))" using inv by (simp add: job_inv_def)
  have "x = r" if "x \<in> set (jobs s)" "jr_id x = i" for x
    using find_job_in [OF dist that(1)] that(2) r(1) by simp
  with r(2) o show "jobs_step s s'"
    by (intro jobs_step_update [OF inv rows _ appended_events_ok [OF app inv_log [OF inv]]])
      (auto simp: interrupted_write_def job_move_def job_row_ok_def status_le_Failed)
qed (use run in \<open>auto dest: job_ops_Inl\<close>)

lemma save_plan_step:
  assumes run: "save_runtime_mode_plan i room plan s = (res, s')" and inv: "job_inv s"
  shows "jobs_step s s'"
proof (rule step_cases [OF inv])
  fix u assume "res = Inr u"
  with run have "save_runtime_mode_plan i room plan s = (Inr u, s')" by simp
  from save_plan_Inr [OF this] obtain m where
    rows: "jobs s' = update_where (\<lambda>r. jr_id r = i) (\<lambda>r. r\<lparr>jr_modes := m\<rparr>) (jobs s)"
    and "events s' = events s" "next_event s' = next_event s" by (auto simp: Let_def)
  with inv_log [OF inv] show "jobs_step s s'"
    by (intro jobs_step_update [OF inv rows]) (auto simp: job_move_def job_row_ok_def status_le_def)
qed (use run in \<open>auto dest: job_ops_Inl\<close>)

lemmas job_steps = create_job_step mark_running_step update_progress_step record_target_step
  complete_job_step request_cancel_step recover_one_step save_plan_step

lemma job_call_step: "job_call s s' \<Longrightarrow> job_inv s \<Longrightarrow> jobs_step s s'"
  by (erule job_call.cases) (blast intro: job_steps)+

section \<open>What the operations leave alone\<close>

definition beyond_jobs :: "('s job_db_scheme \<Rightarrow> 'v) \<Rightarrow> bool" where
  "beyond_jobs v \<longleftrightarrow> step_free v \<and> (\<forall>s x. v (s\<lparr>jobs := x\<rparr>) = v s) \<and> (\<forall>s x. v (s\<lparr>targets := x\<rparr>) = v s) \<and>
     (\<forall>s x. v (s\<lparr>events := x\<rparr>) = v s) \<and> (\<forall>s x. v (s\<lparr>next_target := x\<rparr>) = v s) \<and>
     (\<forall>s x. v (s\<lparr>next_event := x\<rparr>) = v s)"

lemma beyond_jobs_views: "beyond_jobs script" "beyond_jobs job_db.more"
  by (simp_all add: beyond_jobs_def step_free_def script_def)

lemma beyond_jobsD:
  assumes "beyond_jobs v"
  shows "step_free v" "v (s\<lparr>jobs := x\<rparr>) = v s" "v (s\<lparr>targets := y\<rparr>) = v s"
    "v (s\<lparr>next_event := n, events := z\<rparr>) = v s" "v (s\<lparr>next_target := n, targets := y\<rparr>) = v s"
  using assms by (simp_all add: beyond_jobs_def)

lemma keeps_job_parts:
  assumes "beyond_jobs v"
  shows "keeps v (set_jobs P f)" "keeps v (set_targets Q g)" "keeps v (first_job i)" "keeps v (get_tx i)"
    "keeps v (append_event_tx ty j)" "keeps v (create_targets i specs)"
proof -
  note facts = beyond_jobsD [OF assms]
  show "keeps v (set_jobs P f)" "keeps v (set_targets Q g)" "keeps v (first_job i)" "keeps v (get_tx i)"
    "keeps v (append_event_tx ty j)"
    unfolding set_jobs_def set_targets_def first_job_def get_tx_def job_from_record_def append_event_tx_def
    by (intro keeps_intros facts)+
  show "keeps v (create_targets i specs)"
  proof (induction specs)
    case (Cons t ts)
    show ?case unfolding create_targets.simps by (intro keeps_intros facts Cons)
  qed (simp add: keeps_def create_targets.simps(1) [abs_def])
qed

lemma keeps_commit_event:
  assumes "beyond_jobs v"
  shows "keeps v (commit_event ty i)"
  unfolding commit_event_def by (intro keeps_intros keeps_job_parts assms)

lemma keeps_job_ops:
  assumes "beyond_jobs v"
  shows "keeps v (create_job kind room world specs)" "keeps v (mark_running i)"
    "keeps v (record_target i result)" "keeps v (complete_job i runner_err canceled)"
    "keeps v (request_cancel i)" "keeps v (recover_one i)" "keeps v (save_runtime_mode_plan i room plan)"
    "keeps v (get_job i)"
  unfolding create_job_def mark_running_def record_target_def complete_job_def request_cancel_def
    recover_one_def save_runtime_mode_plan_def get_job_def
  by (intro keeps_intros keeps_job_parts keeps_commit_event assms beyond_jobsD [OF assms])+

lemma keeps_recover:
  assumes "beyond_jobs v"
  shows "keeps v recover_interrupted"
proof -
  have "keeps v (recover_all is)" for "is"
  proof (induction "is")
    case (Cons i "is")
    show ?case unfolding recover_all.simps by (intro keeps_intros keeps_job_ops assms Cons)
  qed (simp add: keeps_def)
  then show ?thesis
    unfolding recover_interrupted_def by (intro keeps_intros beyond_jobsD [OF assms])
qed

lemma keeps_update_progress:
  fixes v :: "'s job_db_scheme \<Rightarrow> 'v"
  assumes "beyond_jobs v"
  shows "keeps v (update_progress_detail i u)"
proof -
  have tx: "keeps v (update_progress_tx i w)" for w
    unfolding keeps_def
  proof
    fix s :: "'s job_db_scheme"
    have *: "keeps v (andthen (set_jobs P f) (\<lambda>_. andthen (commit_event ty i) (\<lambda>(j, e). return_ok (g j e))))"
      for P f ty and g :: "job \<Rightarrow> job_event \<Rightarrow> job \<times> job_event"
      by (intro keeps_intros keeps_job_parts keeps_commit_event assms)
    have wrap: "v (snd (case m s1 of (Inl e, s2) \<Rightarrow> (Inl (Some e), s2) | (Inr r, s2) \<Rightarrow> (Inr r, s2))) = v s1"
      if "keeps v m" for m :: "('s job_db_scheme, job_store_error, job \<times> job_event) act" and s1 :: "'s job_db_scheme"
      using keepsD [OF that, of s1] by (auto split: prod.split sum.split)
    obtain r s1 where f: "first_job i s = (r, s1)" by fastforce
    have "v s1 = v s" using keepsD [OF keeps_job_parts(3) [OF assms] f] .
    then show "v (snd (update_progress_tx i w s)) = v s"
      by (cases r) (simp_all add: update_progress_tx_def f Let_def wrap [OF *])
  qed
  show ?thesis
    unfolding keeps_def
  proof
    fix s :: "'s job_db_scheme"
    have "v (snd (transaction (Some Job_DB) (update_progress_tx i w) s)) = v s" for w
      using keeps_transaction [OF beyond_jobsD(1) [OF assms] tx] by (auto simp: keeps_def)
    then have run: "v s1 = v s" if "transaction (Some Job_DB) (update_progress_tx i w) s = (r, s1)" for w r s1
      using that by (metis snd_conv)
    have "keeps v (andthen (get_job i) (\<lambda>j. return_ok (j, None :: job_event option)))"
      by (intro keeps_intros keeps_job_ops assms)
    then have last: "v (snd (andthen (get_job i) (\<lambda>j. return_ok (j, None :: job_event option)) s1)) = v s1" for s1
      by (simp add: keeps_def)
    show "v (snd (update_progress_detail i u s)) = v s"
      unfolding update_progress_detail_def Let_def
      by (auto simp: andthen_def [of "guard _ _"] guard_def last run split: prod.split sum.split option.split)
  qed
qed

end
