(* ===== verification/Job_Properties.thy ===== *)
theory Job_Properties
  imports Job_Laws
begin

text \<open>
  The properties of the job store: the life of a job, the verdict of \<open>Complete\<close>, the event stream,
  the recovery after a restart, the retention and the frozen mode plan.
\<close>

section \<open>Runs\<close>

lemma job_calls_inv: "job_call\<^sup>*\<^sup>* s s' \<Longrightarrow> job_inv s \<Longrightarrow> job_inv s'"
  by (induction rule: rtranclp_induct) (fastforce simp: jobs_step_def job_inv_def dest: job_call_step)+

lemma job_calls_move:
  "job_call\<^sup>*\<^sup>* s s' \<Longrightarrow> job_inv s \<Longrightarrow> r \<in> set (jobs s) \<Longrightarrow> \<exists>r' \<in> set (jobs s'). job_move r r'"
proof (induction rule: rtranclp_induct)
  case base
  then show ?case using job_move_refl by blast
next
  case (step y z)
  then obtain x where x: "x \<in> set (jobs y)" "job_move r x" by blast
  have "job_inv y" using step job_calls_inv by blast
  with step.hyps(2) have "jobs_step y z" by (rule job_call_step)
  then obtain f new where "jobs z = map f (jobs y) @ new" "\<forall>r \<in> set (jobs y). job_move r (f r)"
    unfolding jobs_step_def by blast
  with x(1) have "f x \<in> set (jobs z)" "job_move x (f x)" by simp_all
  with x(2) show ?case by (blast intro: job_move_trans)
qed

definition job_view :: "job_record \<Rightarrow> job_record" where
  "job_view r = r\<lparr>jr_modes := None\<rparr>"

interpretation finished_jobs: lifecycle
  "\<lambda>x y. \<exists>a b. job_move a b \<and> x = job_view a \<and> y = job_view b" "\<lambda>x. terminal (jr_status x)"
proof
  fix x y assume "\<exists>a b. job_move a b \<and> x = job_view a \<and> y = job_view b" and "terminal (jr_status x)"
  then obtain a b where ab: "job_move a b" "x = job_view a" "y = job_view b" "terminal (jr_status a)"
    by (auto simp: job_view_def)
  then have "b\<lparr>jr_modes := jr_modes a\<rparr> = a" by (simp add: job_move_def)
  then have "b\<lparr>jr_modes := jr_modes a\<rparr>\<lparr>jr_modes := None\<rparr> = job_view a" by (simp add: job_view_def)
  with ab show "y = x" by (simp add: job_view_def)
qed

section \<open>The event stream\<close>

fun read_pages :: "nat \<Rightarrow> int \<Rightarrow> int \<Rightarrow> ('s job_db_scheme, job_store_error, job_event list) act" where
  "read_pages 0 limit cursor = return_ok []"
| "read_pages (Suc n) limit cursor =
     andthen (events_after cursor limit) (\<lambda>page.
       if page = [] then return_ok []
       else andthen (read_pages n limit (ev_id (last page))) (\<lambda>rest. return_ok (page @ rest)))"

lemma sort_sorted_ids: "sorted_wrt (<) (map er_id xs) \<Longrightarrow> sort_key er_id (filter P xs) = filter P xs"
  by (rule sort_key_id_if_sorted)
    (auto simp: sorted_wrt_map sorted_wrt_filter intro: sorted_wrt_mono_rel [of _ "\<lambda>x y. er_id x < er_id y"])

lemma filter_after_take:
  assumes "sorted_wrt (<) (map er_id xs)" and "k > 0" and "xs \<noteq> []"
  shows "filter (\<lambda>r. er_id r > er_id (last (take k xs))) xs = drop k xs"
proof -
  let ?c = "er_id (last (take k xs))"
  from assms(1) have s: "sorted_wrt (\<lambda>x y. er_id x < er_id y) (take k xs @ drop k xs)"
    by (simp add: sorted_wrt_map)
  have ne: "take k xs \<noteq> []" using assms(2,3) by simp
  then obtain ys where ys: "take k xs = ys @ [last (take k xs)]" by (metis append_butlast_last_id)
  have "er_id r \<le> ?c" if "r \<in> set (take k xs)" for r
  proof -
    have "sorted_wrt (\<lambda>x y. er_id x < er_id y) (ys @ [last (take k xs)])"
      using s ys by (metis sorted_wrt_append)
    moreover have "r \<in> set (ys @ [last (take k xs)])" using that ys by metis
    ultimately show ?thesis by (auto simp: sorted_wrt_append)
  qed
  moreover have "?c < er_id r" if "r \<in> set (drop k xs)" for r
    using s that last_in_set [OF ne] unfolding sorted_wrt_append by blast
  ultimately have "filter (\<lambda>r. er_id r > ?c) (take k xs @ drop k xs) = [] @ drop k xs"
    unfolding filter_append by (intro arg_cong2 [where f = append]) (auto simp: filter_empty_conv filter_id_conv not_less)
  then show ?thesis by simp
qed

lemma events_after_calm:
  "calm s \<Longrightarrow> events_ok (events s) n \<Longrightarrow>
   events_after c limit s =
     (Inr (map event_from_record (take (nat (if limit \<le> 0 \<or> limit > 500 then 100 else limit))
        (filter (\<lambda>r. er_id r > c) (events s)))), s\<lparr>step := Suc (step s)\<rparr>)"
  by (simp add: events_after_def Let_def andthen_def external_def calm_def events_ok_def sort_sorted_ids)

lemma read_pages_all:
  assumes "length (filter (\<lambda>r. er_id r > c) (events s)) \<le> fuel" and "calm s" and "events_ok (events s) n"
  shows "fst (read_pages (Suc fuel) limit c s) = Inr (map event_from_record (filter (\<lambda>r. er_id r > c) (events s)))"
  using assms
proof (induction fuel arbitrary: c s)
  case 0
  then show ?case by (simp add: andthen_def events_after_calm)
next
  case (Suc fuel)
  define k where "k = nat (if limit \<le> 0 \<or> limit > 500 then 100 else limit)"
  have k: "k > 0" by (simp add: k_def)
  let ?left = "filter (\<lambda>r. er_id r > c) (events s)"
  let ?s1 = "s\<lparr>step := Suc (step s)\<rparr>"
  show ?case
  proof (cases "?left = []")
    case True
    with Suc.prems show ?thesis by (simp add: andthen_def events_after_calm)
  next
    case False
    let ?page = "take k ?left"
    have sorted: "sorted_wrt (<) (map er_id ?left)"
      using Suc.prems(3) by (auto simp: events_ok_def sorted_wrt_map sorted_wrt_filter)
    have page: "?page \<noteq> []" using False k by simp
    then have last_in: "last ?page \<in> set ?left" by (meson in_set_takeD last_in_set)
    have "filter (\<lambda>r. er_id r > er_id (last ?page)) (events s) =
          filter (\<lambda>r. er_id r > er_id (last ?page)) ?left"
      using last_in by (auto simp: intro!: filter_cong)
    also have "\<dots> = drop k ?left" using sorted k False by (rule filter_after_take)
    finally have rest: "filter (\<lambda>r. er_id r > er_id (last ?page)) (events s) = drop k ?left" .
    have "length (drop k ?left) \<le> fuel" using Suc.prems(1) k False by (cases ?left) (auto simp: le_diff_conv)
    then have "fst (read_pages (Suc fuel) limit (er_id (last ?page)) ?s1) = Inr (map event_from_record (drop k ?left))"
      using Suc.IH [of "er_id (last ?page)" ?s1] rest Suc.prems(2,3) by simp
    moreover have "ev_id (last (map event_from_record ?page)) = er_id (last ?page)"
      using page by (simp add: last_map event_from_record_def)
    moreover have "map event_from_record ?page @ map event_from_record (drop k ?left) = map event_from_record ?left"
      by (metis append_take_drop_id map_append)
    moreover have "read_pages (Suc (Suc fuel)) limit c s =
        andthen (read_pages (Suc fuel) limit (ev_id (last (map event_from_record ?page))))
          (\<lambda>rest. return_ok (map event_from_record ?page @ rest)) ?s1"
      using page by (subst read_pages.simps(2))
        (simp add: andthen_def [of "events_after c limit"] events_after_calm [OF Suc.prems(2,3)]
          k_def [symmetric] del: read_pages.simps)
    ultimately show ?thesis
      by (cases "read_pages (Suc fuel) limit (er_id (last ?page)) ?s1")
        (simp add: andthen_def del: read_pages.simps)
  qed
qed

section \<open>Recovery\<close>

lemma find_job_update:
  "(\<And>r. jr_id (f r) = jr_id r) \<Longrightarrow>
   find_job i (update_where P f rows) = map_option (\<lambda>r. if P r then f r else r) (find_job i rows)"
  unfolding find_job_def by (induction rows) auto

lemma interrupted_write_id [simp]: "jr_id (interrupted_write outcome now r) = jr_id r"
  "jr_status (interrupted_write outcome now r) = Failed"
  by (simp_all add: interrupted_write_def)

lemma commit_event_calm:
  assumes "calm s" and "find_job i (jobs s) = Some r"
  shows "\<exists>j e s'. commit_event event_type i s = (Inr (j, e), s') \<and> calm s' \<and> jobs s' = jobs s"
  using assms
  by (simp add: commit_event_def get_tx_def first_job_def job_from_record_def append_event_tx_def
      andthen_def external_def calm_def)

lemma get_tx_calm:
  "calm s \<Longrightarrow> find_job i (jobs s) = Some r \<Longrightarrow>
   get_tx i s = (Inr (job_from_rows (targets s) r), s\<lparr>step := Suc (Suc (step s))\<rparr>)"
  by (simp add: get_tx_def first_job_def job_from_record_def andthen_def external_def calm_def)

lemma recover_one_calm:
  assumes c: "calm s" and r: "find_job i (jobs s) = Some r"
  shows "\<exists>e s'. recover_one i s = (Inr e, s') \<and> calm s' \<and>
    (\<forall>x. find_job x (jobs s) \<noteq> None \<longrightarrow> find_job x (jobs s') \<noteq> None)"
proof -
  let ?now = "clock s (Suc (step s))"
  let ?ts = "update_where (\<lambda>t. tr_job t = i \<and> unfinished (tr_status t))
      (\<lambda>t. t\<lparr>tr_status := Failed, tr_error_code := ''SERVER_RESTARTED'',
             tr_error_message := msg_restarted, tr_finished := Some ?now\<rparr>) (targets s)"
  obtain a b d where abd: "target_counts (jb_targets (job_from_rows ?ts r)) = (a, b, d)"
    by (cases "target_counts (jb_targets (job_from_rows ?ts r))") auto
  let ?js = "update_where (\<lambda>r. jr_id r = i) (interrupted_write (completion_outcome a (b + d)) ?now) (jobs s)"
  let ?s = "s\<lparr>targets := ?ts, step := Suc (Suc (Suc (Suc (Suc (Suc (step s)))))), jobs := ?js\<rparr>"
  have found: "find_job x ?js \<noteq> None" if "find_job x (jobs s) \<noteq> None" for x
    using that by (simp add: find_job_update)
  obtain r' where "find_job i ?js = Some r'" using found [of i] r by auto
  then obtain j e s1 where "commit_event ''job.interrupted'' i ?s = (Inr (j, e), s1)" "calm s1" "jobs s1 = ?js"
    using commit_event_calm [of ?s i r' "''job.interrupted''"] c by (auto simp: calm_def)
  then have "recover_one i s = (Inr e, s1\<lparr>step := Suc (step s1)\<rparr>)"
    using c r abd
    by (simp add: recover_one_def transaction_def andthen_def external_def set_targets_def
        set_jobs_def get_tx_calm calm_def)
  with found \<open>calm s1\<close> \<open>jobs s1 = ?js\<close> show ?thesis by simp
qed

lemma recover_all_calm:
  "calm s \<Longrightarrow> (\<And>i. i \<in> set is \<Longrightarrow> find_job i (jobs s) \<noteq> None) \<Longrightarrow> \<exists>es s'. recover_all is s = (Inr es, s')"
proof (induction "is" arbitrary: s)
  case (Cons i "is")
  then obtain e s1 where e: "recover_one i s = (Inr e, s1)" "calm s1"
      "\<forall>x. find_job x (jobs s) \<noteq> None \<longrightarrow> find_job x (jobs s1) \<noteq> None"
    using recover_one_calm by (metis list.set_intros(1) not_Some_eq)
  with Cons.IH [of s1] Cons.prems(2) obtain es s' where "recover_all is s1 = (Inr es, s')" by auto
  with e show ?case by (simp add: andthen_def)
qed simp

text \<open>What a restart makes of an unfinished target and of the row of its job.\<close>

definition target_ended :: "target_record \<Rightarrow> target_record \<Rightarrow> bool" where
  "target_ended t t' \<longleftrightarrow>
     (if terminal (tr_status t) then t' = t
      else \<exists>now. t' = t\<lparr>tr_status := Failed, tr_error_code := ''SERVER_RESTARTED'',
                        tr_error_message := msg_restarted, tr_finished := Some now\<rparr>)"

lemma target_ended_facts:
  "target_ended t t' \<Longrightarrow> tr_job t' = tr_job t \<and> terminal (tr_status t')"
  by (auto simp: target_ended_def split: if_splits)

lemma job_targets_map:
  assumes "\<And>t. tr_job (g t) = tr_job t" and "\<And>t. tr_id (g t) = tr_id t" and "\<And>t. tr_job t = i \<Longrightarrow> g t = t"
  shows "job_targets (map g rows) i = job_targets rows i"
proof -
  have "filter (\<lambda>t. tr_job t = i) (map g rows) = filter (\<lambda>t. tr_job t = i) rows"
    using assms(1,3) by (induction rows) auto
  then show ?thesis by (simp add: job_targets_def)
qed

lemma recover_all_Inr:
  "recover_all is s = (Inr es, s') \<Longrightarrow> length es = length is \<and>
     (\<exists>f. jobs s' = map f (jobs s) \<and> (\<forall>r. jr_id (f r) = jr_id r \<and> (jr_id r \<notin> set is \<longrightarrow> f r = r) \<and>
            (jr_id r \<in> set is \<longrightarrow>
               (\<exists>now. f r = interrupted_write (settled_outcome (job_targets (targets s') (jr_id r))) now r)))) \<and>
     (\<exists>g. targets s' = map g (targets s) \<and>
          (\<forall>t. tr_id (g t) = tr_id t \<and> (if tr_job t \<in> set is then target_ended t (g t) else g t = t)))"
proof (induction "is" arbitrary: s es)
  case Nil
  then show ?case by (auto intro!: exI [of _ "\<lambda>x. x"])
next
  case (Cons i "is")
  then obtain e s1 es1 where one: "recover_one i s = (Inr e, s1)"
    and rest: "recover_all is s1 = (Inr es1, s')" and es: "es = e # es1"
    by (auto simp: andthen_eq_Inr_iff)
  from Cons.IH [OF rest] obtain f g where len: "length es1 = length is"
    and f: "jobs s' = map f (jobs s1)" "\<And>r. jr_id (f r) = jr_id r" "\<And>r. jr_id r \<notin> set is \<Longrightarrow> f r = r"
      "\<And>r. jr_id r \<in> set is \<Longrightarrow>
         \<exists>now. f r = interrupted_write (settled_outcome (job_targets (targets s') (jr_id r))) now r"
    and g: "targets s' = map g (targets s1)" "\<And>t. tr_id (g t) = tr_id t"
      "\<And>t. if tr_job t \<in> set is then target_ended t (g t) else g t = t" by blast
  from recover_one_Inr [OF one] obtain now where
    j1: "jobs s1 = update_where (\<lambda>r. jr_id r = i)
      (interrupted_write (settled_outcome (job_targets (targets s1) i)) now) (jobs s)"
    and t1: "targets s1 = update_where (\<lambda>t. tr_job t = i \<and> \<not> terminal (tr_status t))
      (\<lambda>t. t\<lparr>tr_status := Failed, tr_error_code := ''SERVER_RESTARTED'',
             tr_error_message := msg_restarted, tr_finished := Some now\<rparr>) (targets s)" by blast
  let ?w = "interrupted_write (settled_outcome (job_targets (targets s1) i)) now"
  let ?f = "\<lambda>r. f (if jr_id r = i then ?w r else r)"
  let ?fail = "\<lambda>t. t\<lparr>tr_status := Failed, tr_error_code := ''SERVER_RESTARTED'',
      tr_error_message := msg_restarted, tr_finished := Some now\<rparr>"
  let ?g = "\<lambda>t. g (if tr_job t = i \<and> \<not> terminal (tr_status t) then ?fail t else t)"
  have job: "tr_job (g t) = tr_job t" for t
    using g(3) [of t] target_ended_facts by (auto split: if_splits)
  have same: "job_targets (targets s') i = job_targets (targets s1) i" if "i \<notin> set is"
    unfolding g(1) by (rule job_targets_map [OF job g(2)]) (use g(3) that in metis)
  have fmap: "jobs s' = map ?f (jobs s)" by (simp add: f(1) j1 update_where_def)
  have frows: "jr_id (?f r) = jr_id r \<and> (jr_id r \<notin> set (i # is) \<longrightarrow> ?f r = r) \<and>
      (jr_id r \<in> set (i # is) \<longrightarrow>
         (\<exists>now. ?f r = interrupted_write (settled_outcome (job_targets (targets s') (jr_id r))) now r))" for r
  proof (cases "jr_id r = i")
    case True
    have twice: "interrupted_write o2 n2 (interrupted_write o1 n1 r) = interrupted_write o2 n2 r" for o1 o2 n1 n2
      by (simp add: interrupted_write_def)
    show ?thesis
    proof (cases "i \<in> set is")
      case True
      with f(4) [of "?w r"] \<open>jr_id r = i\<close> f(2) show ?thesis by (auto simp: twice)
    next
      case False
      with f(3) [of "?w r"] \<open>jr_id r = i\<close> same show ?thesis by auto
    qed
  qed (use f(2-4) in auto)
  have gmap: "targets s' = map ?g (targets s)" by (simp add: g(1) t1 update_where_def)
  have grows: "tr_id (?g t) = tr_id t \<and> (if tr_job t \<in> set (i # is) then target_ended t (?g t) else ?g t = t)" for t
  proof (cases "tr_job t = i \<and> \<not> terminal (tr_status t)")
    case True
    have "g (?fail t) = ?fail t" using g(3) [of "?fail t"] by (auto simp: target_ended_def split: if_splits)
    with True show ?thesis by (auto simp: target_ended_def)
  next
    case False
    with g(2,3) [of t] show ?thesis by (auto simp: target_ended_def split: if_splits)
  qed
  have count: "length es = length (i # is)" using len es by simp
  show ?case
    by (rule conjI, rule count, rule conjI, rule exI [of _ ?f], rule conjI, rule fmap, rule allI, rule frows,
        rule exI [of _ ?g], rule conjI, rule gmap, rule allI, rule grows)
qed

section \<open>Retention\<close>

lemma delete_Inr [simp]:
  "delete_events P s = (Inr n, s') \<longleftrightarrow> \<not> fault s (step s) \<and> n = count_where P (events s) \<and>
     s' = s\<lparr>step := Suc (step s), events := filter (\<lambda>r. \<not> P r) (events s)\<rparr>"
  "delete_targets Q s = (Inr n, s') \<longleftrightarrow> \<not> fault s (step s) \<and> n = count_where Q (targets s) \<and>
     s' = s\<lparr>step := Suc (step s), targets := filter (\<lambda>r. \<not> Q r) (targets s)\<rparr>"
  "delete_jobs R s = (Inr n, s') \<longleftrightarrow> \<not> fault s (step s) \<and> n = count_where R (jobs s) \<and>
     s' = s\<lparr>step := Suc (step s), jobs := filter (\<lambda>r. \<not> R r) (jobs s)\<rparr>"
  by (auto simp: delete_events_def delete_targets_def delete_jobs_def andthen_eq_Inr_iff)

lemma concat_batches: "length xs \<le> fuel \<Longrightarrow> n > 0 \<Longrightarrow> concat (batches n xs fuel) = xs"
proof (induction fuel arbitrary: xs)
  case (Suc fuel)
  then show ?case
    using Suc.IH [of "drop n xs"] by (cases "xs = []") auto
qed simp

lemma delete_batches_Inr:
  "delete_batches bs acc s = (Inr res, s') \<Longrightarrow>
     targets s' = filter (\<lambda>t. tr_job t \<notin> set (concat bs)) (targets s) \<and>
     events s' = filter (\<lambda>e. er_job e \<notin> set (concat bs)) (events s) \<and>
     jobs s' = filter (\<lambda>r. \<not> (jr_id r \<in> set (concat bs) \<and> terminal (jr_status r))) (jobs s)"
proof (induction bs arbitrary: acc s)
  case Nil
  then show ?case by simp
next
  case (Cons b bs)
  then obtain acc1 s1 where "delete_batches bs acc1 s1 = (Inr res, s')"
    and "targets s1 = filter (\<lambda>t. tr_job t \<notin> set b) (targets s)"
    and "events s1 = filter (\<lambda>e. er_job e \<notin> set b) (events s)"
    and "jobs s1 = filter (\<lambda>r. \<not> (jr_id r \<in> set b \<and> terminal (jr_status r))) (jobs s)"
    by (auto simp: andthen_eq_Inr_iff)
  with Cons.IH [of acc1 s1] show ?case by (auto intro!: filter_cong)
qed

lemma trim_events_Inr:
  assumes "trim_events limit s = (Inr n, s')" and "events_ok (events s) m" and "limit > 0"
  shows "jobs s' = jobs s \<and> targets s' = targets s \<and>
    events s' = drop (length (events s) - nat limit) (events s)"
proof (cases "int (length (events s)) - limit > 0")
  case True
  define k where "k = length (events s) - nat limit"
  have k: "0 < k" "k \<le> length (events s)" "nat (int (length (events s)) - limit - 1) = k - 1"
    using True assms(3) by (simp_all add: k_def nat_diff_distrib')
  have strict: "sorted_wrt (<) (map er_id (events s))" using assms(2) by (simp add: events_ok_def)
  then have "sort_key id (map er_id (events s)) = map er_id (events s)"
    by (intro sort_key_id_if_sorted) (auto intro: sorted_wrt_mono_rel [of _ "(<)"])
  moreover have "map er_id (events s) ! (k - 1) = er_id (last (take k (events s)))"
    using k by (subst last_conv_nth) (auto simp: min_def)
  ultimately have "events s' = filter (\<lambda>e. \<not> er_id e \<le> er_id (last (take k (events s)))) (events s)"
    and "jobs s' = jobs s" "targets s' = targets s"
    using assms(1) True k(3) by (auto simp: trim_events_def andthen_eq_Inr_iff)
  moreover have "filter (\<lambda>e. \<not> er_id e \<le> er_id (last (take k (events s)))) (events s) = drop k (events s)"
    using filter_after_take [OF strict k(1)] k(1,2) by (cases "events s = []") (simp_all add: not_le)
  ultimately show ?thesis by (simp add: k_def)
next
  case False
  with assms(1,3) show ?thesis by (auto simp: trim_events_def andthen_eq_Inr_iff)
qed

lemma prune_Inr:
  assumes "prune policy s = (Inr res, s')" and "job_inv s"
  shows "\<exists>now. let records = sort_key (\<lambda>r. - finished_or_created r) (filter (\<lambda>r. terminal (jr_status r)) (jobs s));
      ids = expired_ids (rp_job_limit policy) (now - rp_job_age policy) records;
      kept = filter (\<lambda>e. \<not> er_created e < now - rp_event_age policy) (events s)
    in jobs s' = filter (\<lambda>r. \<not> (jr_id r \<in> set ids \<and> terminal (jr_status r))) (jobs s) \<and>
       targets s' = filter (\<lambda>t. tr_job t \<notin> set ids) (targets s) \<and>
       events s' = filter (\<lambda>e. er_job e \<notin> set ids) (drop (length kept - nat (rp_event_limit policy)) kept) \<and>
       0 < rp_event_limit policy \<and> 0 < rp_job_limit policy"
proof -
  let ?now = "clock s (step s)"
  let ?kept = "filter (\<lambda>e. \<not> er_created e < ?now - rp_event_age policy) (events s)"
  have limits: "0 < rp_event_limit policy" "0 < rp_job_limit policy"
    using assms(1) by (auto simp: prune_def elim!: andthen_InrE)
  let ?s1 = "s\<lparr>step := Suc (Suc (Suc (step s))), events := ?kept\<rparr>"
  let ?ids = "\<lambda>s2. expired_ids (rp_job_limit policy) (?now - rp_job_age policy)
       (sort_key (\<lambda>r. - finished_or_created r) (filter (\<lambda>r. terminal (jr_status r)) (jobs s2)))"
  from assms(1) obtain n s2 s3 acc where
    trim: "trim_events (rp_event_limit policy) ?s1 = (Inr n, s2)"
    and del: "delete_batches (batches 400 (?ids s2) (length (?ids s2))) acc (s2\<lparr>step := Suc (step s2)\<rparr>) = (Inr res, s3)"
    and s': "jobs s' = jobs s3" "targets s' = targets s3" "events s' = events s3"
    unfolding prune_def by (auto simp: transaction_eq_Inr Let_def elim!: andthen_InrE)
  have "events_ok (events ?s1) (next_event s)"
    using assms(2) by (auto simp: job_inv_def events_ok_def sorted_wrt_map sorted_wrt_filter)
  note trimmed = trim_events_Inr [OF trim this limits(1)]
  have all: "concat (batches 400 (?ids s2) (length (?ids s2))) = ?ids s2" by (simp add: concat_batches)
  from trimmed delete_batches_Inr [OF del, unfolded all] s' limits show ?thesis
    by (intro exI [of _ ?now]) (simp add: Let_def)
qed

text \<open>What the expired identifiers leave: at most the limit, none of them old.\<close>

lemma expired_ids_iff:
  "i \<in> set (expired_ids limit cutoff records) \<longleftrightarrow>
     (\<exists>k < length records. jr_id (records ! k) = i \<and>
        (int k \<ge> limit \<or> (case jr_finished (records ! k) of None \<Rightarrow> False | Some t \<Rightarrow> t < cutoff)))"
  by (force simp: expired_ids_def in_set_enumerate_eq image_iff)

lemma expired_ids_in: "i \<in> set (expired_ids limit cutoff records) \<Longrightarrow> i \<in> jr_id ` set records"
  unfolding expired_ids_iff using nth_mem by blast

lemma length_filter_ids:
  assumes "distinct (map k xs)" and "k ` set xs \<subseteq> set ys" and "length ys \<le> n"
  shows "length xs \<le> n"
proof -
  have "length xs = card (k ` set xs)" using assms(1) by (metis distinct_card length_map list.set_map)
  also have "\<dots> \<le> card (set ys)" by (rule card_mono) (use assms(2) in simp_all)
  also have "\<dots> \<le> length ys" by (rule card_length)
  finally show ?thesis using assms(3) by simp
qed

text \<open>A retention run keeps the invariant, deletes finished rows only and changes none.\<close>

lemma keeps_prune: "keeps next_event (prune policy)"
proof -
  have free: "step_free next_event" by (simp add: step_free_def)
  have del: "keeps next_event (delete_events P)" "keeps next_event (delete_targets Q)"
    "keeps next_event (delete_jobs R)" for P Q R
    unfolding delete_events_def delete_targets_def delete_jobs_def by (intro keeps_intros free; simp)+
  have "keeps next_event (delete_batches bs acc)" for bs acc
  proof (induction bs arbitrary: acc)
    case (Cons b bs)
    show ?case unfolding delete_batches.simps by (intro keeps_intros del Cons)
  qed (simp add: keeps_def)
  then show ?thesis
    unfolding prune_def trim_events_def Let_def by (intro keeps_intros free del)
qed

lemma prune_step:
  assumes "prune policy s = (res, s')" and "job_inv s"
  shows "job_inv s' \<and> set (jobs s') \<subseteq> set (jobs s) \<and>
    (\<forall>r \<in> set (jobs s) - set (jobs s'). terminal (jr_status r) \<and> (\<exists>counts. res = Inr counts))"
proof (cases res)
  case (Inl err)
  then have "only_steps s s'" using assms(1) job_ops_Inl(7) by blast
  then have "jobs s' = jobs s" "events s' = events s" "next_event s' = next_event s"
    by (auto simp: only_steps_def)
  then show ?thesis using assms(2) by (simp add: job_inv_def)
next
  case (Inr counts)
  have "\<exists>ids n P. jobs s' = filter (\<lambda>r. \<not> (jr_id r \<in> set ids \<and> terminal (jr_status r))) (jobs s) \<and>
      events s' = filter (\<lambda>e. er_job e \<notin> set ids) (drop n (filter P (events s)))"
    using prune_Inr [OF assms(1) [unfolded Inr] assms(2)] unfolding Let_def by blast
  then obtain ids n P where
    rows: "jobs s' = filter (\<lambda>r. \<not> (jr_id r \<in> set ids \<and> terminal (jr_status r))) (jobs s)"
    and log: "events s' = filter (\<lambda>e. er_job e \<notin> set ids) (drop n (filter P (events s)))" by blast
  have "next_event s' = next_event s" using keepsD [OF keeps_prune assms(1)] .
  moreover have "sorted_wrt (<) (map er_id (events s'))"
    using inv_log [OF assms(2)]
    by (auto simp: log events_ok_def sorted_wrt_map intro!: sorted_wrt_filter sorted_wrt_drop)
  moreover have "set (events s') \<subseteq> set (events s)"
    unfolding log by (auto dest: in_set_dropD)
  ultimately have "job_inv s'"
    using assms(2) by (auto simp: job_inv_def events_ok_def rows distinct_map_filter)
  with rows Inr show ?thesis by auto
qed

section \<open>Runs with retention\<close>

text \<open>Any call of the store that writes, whatever its outcome.\<close>

inductive store_call :: "'s job_db_scheme \<Rightarrow> 's job_db_scheme \<Rightarrow> bool" where
  store_job: "job_call s s' \<Longrightarrow> store_call s s'"
| store_prune: "prune policy s = (res, s') \<Longrightarrow> store_call s s'"

lemma store_call_inv: "store_call s s' \<Longrightarrow> job_inv s \<Longrightarrow> job_inv s'"
  by (erule store_call.cases) (blast intro: job_calls_inv dest: prune_step)+

lemma store_calls_inv: "store_call\<^sup>*\<^sup>* s s' \<Longrightarrow> job_inv s \<Longrightarrow> job_inv s'"
  by (induction rule: rtranclp_induct) (auto intro: store_call_inv)

text \<open>How a row goes on: the same job, no progress lost, its status only forward, and nothing but the mode
  plan changed once it is final.\<close>

definition goes_on :: "job_record \<Rightarrow> job_record \<Rightarrow> bool" where
  "goes_on r r' \<longleftrightarrow>
     jr_id r' = jr_id r \<and> jr_created r' = jr_created r \<and> jr_progress r \<le> jr_progress r' \<and>
     status_le (jr_status r) (jr_status r') \<and> (terminal (jr_status r) \<longrightarrow> job_view r' = job_view r)"

lemma job_move_goes_on: "job_move r r' \<Longrightarrow> goes_on r r'"
  using finished_jobs.final_forever [of "job_view r" "job_view r'"]
  by (auto simp: goes_on_def job_move_def job_view_def)

text \<open>A row is there no longer only where a retention run took it, and it was final then.\<close>

definition taken_by_retention :: "'s job_db_scheme \<Rightarrow> job_record \<Rightarrow> 's job_db_scheme \<Rightarrow> bool" where
  "taken_by_retention s r s' \<longleftrightarrow>
     (\<exists>policy counts s1 s2 r1. store_call\<^sup>*\<^sup>* s s1 \<and> r1 \<in> set (jobs s1) \<and> goes_on r r1 \<and>
        terminal (jr_status r1) \<and> prune policy s1 = (Inr counts, s2) \<and> r1 \<notin> set (jobs s2) \<and> store_call\<^sup>*\<^sup>* s2 s')"

lemma store_calls_move:
  "store_call\<^sup>*\<^sup>* s s' \<Longrightarrow> job_inv s \<Longrightarrow> r \<in> set (jobs s) \<Longrightarrow>
     (\<exists>r' \<in> set (jobs s'). job_move r r') \<or> taken_by_retention s r s'"
proof (induction rule: rtranclp_induct)
  case base
  then show ?case using job_move_refl by blast
next
  case (step y z)
  have inv: "job_inv y" using step store_calls_inv by blast
  from step consider x where "x \<in> set (jobs y)" "job_move r x" | "taken_by_retention s r y" by blast
  then show ?case
  proof cases
    case 1
    from step.hyps(2) show ?thesis
    proof cases
      case store_job
      then obtain x' where "x' \<in> set (jobs z)" "job_move x x'"
        using job_calls_move [OF r_into_rtranclp inv 1(1)] by blast
      with 1(2) show ?thesis by (blast intro: job_move_trans)
    next
      case (store_prune policy res)
      show ?thesis
      proof (cases "x \<in> set (jobs z)")
        case False
        with prune_step [OF store_prune inv] 1(1) have "terminal (jr_status x)"
          and "\<exists>counts. res = Inr counts" by blast+
        then obtain counts where "prune policy y = (Inr counts, z)" using store_prune by blast
        note this \<open>terminal (jr_status x)\<close>
        with False 1 step.hyps(1) show ?thesis
          unfolding taken_by_retention_def by (blast intro: job_move_goes_on)
      qed (use 1(2) in blast)
    qed
  next
    case 2
    with step.hyps(2) show ?thesis
      unfolding taken_by_retention_def by (meson rtranclp.rtrancl_into_rtrancl)
  qed
qed

section \<open>Verdicts\<close>

lemma target_counts_pos:
  "target_counts ts = (a, b, c) \<Longrightarrow>
     (0 < a \<longleftrightarrow> (\<exists>t \<in> set ts. jt_status t = Succeeded)) \<and> (0 < b \<longleftrightarrow> (\<exists>t \<in> set ts. jt_status t = Failed)) \<and>
     (0 < c \<longleftrightarrow> (\<exists>t \<in> set ts. jt_status t = Canceled))"
  unfolding target_counts_def by (auto simp: neq0_conv [symmetric] simp del: neq0_conv)

lemma verdict_status:
  "vd_status (completion_verdict ts err canceled) = Canceled \<longleftrightarrow>
     canceled \<or> (\<exists>t \<in> set ts. jt_status t = Canceled)"
  "vd_status (completion_verdict ts err canceled) = Succeeded \<longleftrightarrow>
     \<not> canceled \<and> err = None \<and> (\<forall>t \<in> set ts. jt_status t \<noteq> Failed \<and> jt_status t \<noteq> Canceled)"
  using target_counts_pos [of ts] by (cases "target_counts ts"; auto simp: completion_verdict_def Let_def)+

lemma verdict_outcome:
  "vd_outcome (completion_verdict ts err canceled) =
     (if \<not> canceled \<and> err = None \<and> (\<forall>t \<in> set ts. jt_status t \<noteq> Failed \<and> jt_status t \<noteq> Canceled) then Full
      else if \<forall>t \<in> set ts. jt_status t \<noteq> Succeeded then No_Outcome
      else if \<exists>t \<in> set ts. jt_status t = Failed \<or> jt_status t = Canceled then Partial
      else Full)"
  using target_counts_pos [of ts]
  by (cases "target_counts ts"; auto simp: completion_verdict_def Let_def completion_outcome_def)+

lemma verdict_error:
  assumes "\<And>t e. t \<in> set ts \<Longrightarrow> jt_error t = Some e \<Longrightarrow> je_code e \<noteq> [] \<or> je_message e \<noteq> []"
  shows "vd_code (completion_verdict ts err canceled) = [] \<and> vd_error (completion_verdict ts err canceled) = [] \<longleftrightarrow>
     vd_status (completion_verdict ts err canceled) = Succeeded"
  using assms
  by (cases "target_counts ts")
    (auto simp: completion_verdict_def Let_def split: option.split dest!: find_SomeD)

definition error_text :: "job_error option \<Rightarrow> (string \<times> string) option" where
  "error_text err = map_option (\<lambda>e. (je_code e, je_message e)) err"

lemma verdict_text:
  "vd_status (completion_verdict ts err canceled) = Canceled \<Longrightarrow>
     (vd_code (completion_verdict ts err canceled), vd_error (completion_verdict ts err canceled)) =
     (''JOB_CANCELED'', msg_canceled)"
  "vd_status (completion_verdict ts err canceled) = Failed \<Longrightarrow>
     Some (vd_code (completion_verdict ts err canceled), vd_error (completion_verdict ts err canceled)) =
     (case err of
        Some m \<Rightarrow> Some (if vd_outcome (completion_verdict ts err canceled) = Partial
                       then ''PARTIAL_FAILURE'' else ''JOB_FAILED'', m)
      | None \<Rightarrow>
          if vd_outcome (completion_verdict ts err canceled) = Partial
          then Some (''PARTIAL_FAILURE'', msg_partial_failure)
          else case List.find (\<lambda>t. jt_status t = Failed \<and> jt_error t \<noteq> None) ts of
             Some t \<Rightarrow> error_text (jt_error t)
           | None \<Rightarrow> Some (''JOB_FAILED'', msg_failed))"
  using target_counts_pos [of ts]
  by (cases "target_counts ts"; cases err;
      auto simp: completion_verdict_def completion_outcome_def error_text_def Let_def
        split: option.splits if_splits dest!: find_SomeD)+

lemma verdict_message:
  "vd_message (completion_verdict ts err canceled) =
     (if vd_status (completion_verdict ts err canceled) = Succeeded
      then if target_warning_count ts > 0 then msg_warnings (target_warning_count ts) else msg_succeeded
      else if vd_status (completion_verdict ts err canceled) = Canceled then msg_canceled
      else if vd_outcome (completion_verdict ts err canceled) = Partial then msg_partial else msg_failed)"
  by (cases "target_counts ts") (auto simp: completion_verdict_def Let_def)

lemma target_from_record_error:
  "jt_error (target_from_record t) = Some e \<Longrightarrow> je_code e \<noteq> [] \<or> je_message e \<noteq> []"
  by (auto simp: target_from_record_def split: if_splits)

section \<open>Properties\<close>

text \<open>C7: whatever operations of the store run, retention among them, a job that is there before either is
  there after, with no progress lost, its status only moved from queued to running to a final
  one and, once final, nothing of it changed but the mode plan kept with it; or it was final when
  a run of \<open>Prune\<close> deleted it.\<close>

theorem job_never_goes_back:
  assumes "job_inv s" and "store_call\<^sup>*\<^sup>* s s'" and "r \<in> set (jobs s)"
  shows "(\<exists>r' \<in> set (jobs s'). jr_id r' = jr_id r \<and> jr_created r' = jr_created r \<and>
      jr_progress r \<le> jr_progress r' \<and> status_le (jr_status r) (jr_status r') \<and>
      (terminal (jr_status r) \<longrightarrow> job_view r' = job_view r)) \<or>
    taken_by_retention s r s'"
  using store_calls_move [OF assms(2,1,3)] job_move_goes_on unfolding goes_on_def by blast

text \<open>C21: in every state the store can reach from empty tables, progress is between 0 and 100; a finished
  job has progress 100, a settled outcome and an end time, an unfinished one has none of these nor an
  error; the identifiers of the event log increase strictly. Retention may run in between.\<close>

theorem store_invariant:
  assumes "jobs s0 = []" and "events s0 = []" and "store_call\<^sup>*\<^sup>* s0 s" and "r \<in> set (jobs s)"
  shows "job_row_ok r \<and> sorted_wrt (<) (map er_id (events s))"
proof -
  have "job_inv s0" using assms(1,2) by (simp add: job_inv_def events_ok_def)
  from store_calls_inv [OF assms(3) this] assms(4) show ?thesis by (simp add: job_inv_def events_ok_def)
qed

text \<open>C22: the verdict of \<open>Complete\<close>: canceled when the caller or a target was, else failed when the
  runner or a target did, else succeeded; the outcome is partial exactly when some targets
  succeeded and others did not. The error is none for a success, \<open>JOB_CANCELED\<close> for a canceled job;
  for a failed one it has the runner's message if the runner failed, under \<open>PARTIAL_FAILURE\<close> when
  the outcome is partial and \<open>JOB_FAILED\<close> otherwise; without a runner's error it is the general
  partial failure, or the code and message of the first failed target that has an error. The
  message follows the same cases and counts the targets with warnings.\<close>

theorem complete_job_verdict:
  assumes "job_inv s" and "complete_job i err canceled s = (Inr (j, e), s')"
  shows "let ts = jb_targets j; clean = (\<forall>t \<in> set ts. jt_status t \<noteq> Failed \<and> jt_status t \<noteq> Canceled) in
    ts = job_targets (targets s) i \<and> jb_id j = i \<and> jb_progress j = 100 \<and>
    jb_status j = (if canceled \<or> (\<exists>t \<in> set ts. jt_status t = Canceled) then Canceled
                   else if err = None \<and> clean then Succeeded else Failed) \<and>
    jb_outcome j = (if \<not> canceled \<and> err = None \<and> clean then Full
                    else if \<forall>t \<in> set ts. jt_status t \<noteq> Succeeded then No_Outcome
                    else if clean then Full else Partial) \<and>
    (jb_error j = None \<longleftrightarrow> jb_status j = Succeeded) \<and>
    error_text (jb_error j) =
      (if jb_status j = Succeeded then None
       else if jb_status j = Canceled then Some (''JOB_CANCELED'', msg_canceled)
       else case err of
          Some m \<Rightarrow> Some (if jb_outcome j = Partial then ''PARTIAL_FAILURE'' else ''JOB_FAILED'', m)
        | None \<Rightarrow>
            if jb_outcome j = Partial then Some (''PARTIAL_FAILURE'', msg_partial_failure)
            else case List.find (\<lambda>t. jt_status t = Failed \<and> jt_error t \<noteq> None) ts of
               Some t \<Rightarrow> error_text (jt_error t)
             | None \<Rightarrow> Some (''JOB_FAILED'', msg_failed)) \<and>
    jb_message j =
      (if jb_status j = Succeeded
       then if target_warning_count ts > 0 then msg_warnings (target_warning_count ts) else msg_succeeded
       else if jb_status j = Canceled then msg_canceled
       else if jb_outcome j = Partial then msg_partial else msg_failed)"
proof -
  from complete_job_Inr [OF assms(2)] obtain now r where
    r: "find_job i (jobs s) = Some r" "jr_status r = Running"
    and rows: "jobs s' = update_where (\<lambda>r. jr_id r = i \<and> jr_status r = Running)
      (verdict_write (completion_verdict (job_targets (targets s) (jr_id r)) err canceled) now) (jobs s)"
    and same: "targets s' = targets s" and app: "appended ''job.completed'' i s s' j e" by blast
  let ?ts = "job_targets (targets s) i"
  let ?v = "completion_verdict ?ts err canceled"
  have id: "jr_id r = i" using find_job_Some [OF r(1)] by simp
  have "jr_id (verdict_write v now r) = jr_id r" for v r by (simp add: verdict_write_def)
  then have "find_job i (jobs s') = Some (verdict_write ?v now r)"
    unfolding rows by (simp add: find_job_update r id)
  with app have j: "j = job_from_rows (targets s) (verdict_write ?v now r)"
    by (auto simp: appended_def same)
  have ts: "jb_targets j = job_targets (targets s) i"
    by (simp add: j job_from_rows_def verdict_write_def id Let_def)
  have fields: "jb_id j = i" "jb_progress j = 100" "jb_status j = vd_status ?v" "jb_outcome j = vd_outcome ?v"
      "jb_message j = vd_message ?v" "jb_error j = None \<longleftrightarrow> vd_code ?v = [] \<and> vd_error ?v = []"
      "error_text (jb_error j) =
        (if vd_code ?v = [] \<and> vd_error ?v = [] then None else Some (vd_code ?v, vd_error ?v))"
    by (simp_all add: j job_from_rows_def verdict_write_def id error_text_def Let_def)
  have final: "terminal (vd_status ?v)" using verdict_cases by blast
  have err: "vd_code ?v = [] \<and> vd_error ?v = [] \<longleftrightarrow> vd_status ?v = Succeeded"
    by (rule verdict_error) (auto simp: job_targets_def dest: target_from_record_error)
  have status: "vd_status ?v = (if canceled \<or> (\<exists>t \<in> set ?ts. jt_status t = Canceled) then Canceled
      else if err = None \<and> (\<forall>t \<in> set ?ts. jt_status t \<noteq> Failed \<and> jt_status t \<noteq> Canceled) then Succeeded else Failed)"
    using final verdict_status [of ?ts err canceled] by (cases "vd_status ?v") auto
  have error: "(if vd_status ?v = Succeeded then None else Some (vd_code ?v, vd_error ?v)) =
      (if vd_status ?v = Succeeded then None
       else if vd_status ?v = Canceled then Some (''JOB_CANCELED'', msg_canceled)
       else case err of
          Some m \<Rightarrow> Some (if vd_outcome ?v = Partial then ''PARTIAL_FAILURE'' else ''JOB_FAILED'', m)
        | None \<Rightarrow>
            if vd_outcome ?v = Partial then Some (''PARTIAL_FAILURE'', msg_partial_failure)
            else case List.find (\<lambda>t. jt_status t = Failed \<and> jt_error t \<noteq> None) ?ts of
               Some t \<Rightarrow> error_text (jt_error t)
             | None \<Rightarrow> Some (''JOB_FAILED'', msg_failed))"
    using final verdict_text [of ?ts err canceled] by (cases "vd_status ?v") simp_all
  have outcome: "vd_outcome ?v =
      (if \<not> canceled \<and> err = None \<and> (\<forall>t \<in> set ?ts. jt_status t \<noteq> Failed \<and> jt_status t \<noteq> Canceled) then Full
       else if \<forall>t \<in> set ?ts. jt_status t \<noteq> Succeeded then No_Outcome
       else if \<forall>t \<in> set ?ts. jt_status t \<noteq> Failed \<and> jt_status t \<noteq> Canceled then Full else Partial)"
    by (auto simp: verdict_outcome)
  show ?thesis
    unfolding Let_def ts fields err
    by (intro conjI; (rule refl | rule status | rule outcome | rule error | rule verdict_message)?)
qed

text \<open>C23: a client that pages through \<open>EventsAfter\<close> from any cursor, with any limit, gets every later event
  exactly once and in order.\<close>

theorem event_pages_complete:
  assumes "job_inv s" and "calm s" and "length (events s) \<le> fuel"
  shows "fst (read_pages (Suc fuel) limit cursor s) =
    Inr (map event_from_record (filter (\<lambda>r. er_id r > cursor) (events s)))"
proof (rule read_pages_all [OF _ assms(2)])
  show "length (filter (\<lambda>r. er_id r > cursor) (events s)) \<le> fuel"
    using assms(3) length_filter_le order_trans by blast
  show "events_ok (events s) (next_event s)" using assms(1) by (rule inv_log)
qed

text \<open>C24: after a restart with a database that answers, \<open>RecoverInterrupted\<close> returns, with one event per
  interrupted job. Exactly the unfinished jobs are written: each is failed with \<open>SERVER_RESTARTED\<close>
  and the outcome its targets give, and exactly their unfinished targets are ended with the same
  code; every finished job, every target that had ended and every target of another job is as it
  was. So afterwards every job is final and so is every target of a job that was interrupted.\<close>

theorem recovery_finishes_all:
  assumes "job_inv s" and "calm s"
  shows "\<exists>es s' f g. recover_interrupted s = (Inr es, s') \<and>
    length es = count_where (\<lambda>r. \<not> terminal (jr_status r)) (jobs s) \<and>
    jobs s' = map f (jobs s) \<and> targets s' = map g (targets s) \<and>
    (\<forall>r \<in> set (jobs s). if terminal (jr_status r) then f r = r
       else \<exists>now. f r = r\<lparr>jr_status := Failed, jr_outcome := settled_outcome (job_targets (targets s') (jr_id r)),
         jr_progress := 100, jr_message := msg_interrupted, jr_error_code := ''SERVER_RESTARTED'',
         jr_error_message := msg_restarted, jr_finished := Some now,
         jr_current := 0, jr_total := 0, jr_rate := 0\<rparr>) \<and>
    (\<forall>t \<in> set (targets s).
       if (\<exists>r \<in> set (jobs s). jr_id r = tr_job t \<and> \<not> terminal (jr_status r)) \<and> \<not> terminal (tr_status t)
       then \<exists>now. g t = t\<lparr>tr_status := Failed, tr_error_code := ''SERVER_RESTARTED'',
                          tr_error_message := msg_restarted, tr_finished := Some now\<rparr>
       else g t = t) \<and>
    (\<forall>r \<in> set (jobs s'). terminal (jr_status r)) \<and>
    (\<forall>r \<in> set (jobs s). terminal (jr_status r) \<longrightarrow> r \<in> set (jobs s')) \<and>
    (\<forall>r \<in> set (jobs s). \<not> terminal (jr_status r) \<longrightarrow>
       (\<forall>t \<in> set (targets s'). tr_job t = jr_id r \<longrightarrow> terminal (tr_status t)))"
proof -
  let ?open = "filter (\<lambda>r. \<not> terminal (jr_status r)) (jobs s)"
  let ?ids = "map jr_id ?open"
  let ?s = "s\<lparr>step := Suc (step s)\<rparr>"
  have dist: "distinct (map jr_id (jobs s))" using assms(1) by (simp add: job_inv_def)
  have "calm ?s" using assms(2) by simp
  moreover have "find_job i (jobs ?s) \<noteq> None" if "i \<in> set ?ids" for i
    using that find_job_in [OF dist] by auto
  ultimately obtain es s' where run: "recover_all ?ids ?s = (Inr es, s')"
    using recover_all_calm by blast
  then have rec: "recover_interrupted s = (Inr es, s')"
    using assms(2) by (simp add: recover_interrupted_def andthen_def external_def calm_def)
  have "jobs ?s = jobs s" "targets ?s = targets s" by simp_all
  from recover_all_Inr [OF run, unfolded this] obtain f g where len: "length es = length ?ids"
    and f: "jobs s' = map f (jobs s)" "\<And>r. jr_id r \<notin> set ?ids \<Longrightarrow> f r = r"
      "\<And>r. jr_id r \<in> set ?ids \<Longrightarrow>
         \<exists>now. f r = interrupted_write (settled_outcome (job_targets (targets s') (jr_id r))) now r"
    and g: "targets s' = map g (targets s)" "\<And>t. if tr_job t \<in> set ?ids then target_ended t (g t) else g t = t"
    by blast
  have ids: "jr_id r \<in> set ?ids \<longleftrightarrow> \<not> terminal (jr_status r)" if r: "r \<in> set (jobs s)" for r
  proof
    assume "jr_id r \<in> set ?ids"
    then obtain x where "x \<in> set (jobs s)" "\<not> terminal (jr_status x)" "jr_id x = jr_id r" by auto
    with distinct_key_eq [OF dist _ r] show "\<not> terminal (jr_status r)" by metis
  qed (use r in simp)
  have rows: "if terminal (jr_status r) then f r = r
      else \<exists>now. f r = interrupted_write (settled_outcome (job_targets (targets s') (jr_id r))) now r"
    if "r \<in> set (jobs s)" for r
    using f(2,3) [of r] ids [OF that] by auto
  have "terminal (jr_status (f r))" if "r \<in> set (jobs s)" for r
    using rows [OF that] by (auto split: if_splits)
  then have final: "\<forall>r \<in> set (jobs s'). terminal (jr_status r)"
    and kept: "\<forall>r \<in> set (jobs s). terminal (jr_status r) \<longrightarrow> r \<in> set (jobs s')"
    using rows unfolding f(1) by (auto intro: rev_image_eqI)
  have open_job: "tr_job t \<in> set ?ids \<longleftrightarrow> (\<exists>r \<in> set (jobs s). jr_id r = tr_job t \<and> \<not> terminal (jr_status r))" for t
    by (auto intro: rev_image_eqI)
  have "(if tr_job t \<in> set ?ids \<and> \<not> terminal (tr_status t)
         then \<exists>now. g t = t\<lparr>tr_status := Failed, tr_error_code := ''SERVER_RESTARTED'',
                          tr_error_message := msg_restarted, tr_finished := Some now\<rparr>
         else g t = t)" for t
    using g(2) [of t] by (auto simp: target_ended_def split: if_splits)
  note targets = this [unfolded open_job]
  have ended: "\<forall>r \<in> set (jobs s). \<not> terminal (jr_status r) \<longrightarrow>
       (\<forall>t \<in> set (targets s'). tr_job t = jr_id r \<longrightarrow> terminal (tr_status t))"
  proof (intro ballI impI)
    fix r t assume r: "r \<in> set (jobs s)" "\<not> terminal (jr_status r)" and t: "t \<in> set (targets s')" "tr_job t = jr_id r"
    from t(1) obtain t0 where t0: "t = g t0" unfolding g(1) by auto
    have "tr_job t0 = tr_job t" using g(2) [of t0] target_ended_facts by (auto simp: t0 split: if_splits)
    then have "tr_job t0 \<in> set ?ids" using r ids [OF r(1)] t(2) by simp
    then have "target_ended t0 t" using g(2) [of t0] by (simp only: t0 if_True)
    then show "terminal (tr_status t)" by (rule target_ended_facts [THEN conjunct2])
  qed
  have events: "length es = count_where (\<lambda>r. \<not> terminal (jr_status r)) (jobs s)"
    using len by (simp add: count_where_def)
  show ?thesis
    by (rule exI [of _ es], rule exI [of _ s'], rule exI [of _ f], rule exI [of _ g],
        rule conjI, rule rec, rule conjI, rule events, rule conjI, rule f(1), rule conjI, rule g(1),
        rule conjI, rule ballI, erule rows [unfolded interrupted_write_def],
        rule conjI, rule ballI, rule targets, rule conjI, rule final, rule conjI, rule kept, rule ended)
qed

text \<open>C25: \<open>Prune\<close> deletes no unfinished job, none of its targets, and leaves at most the allowed number of
  events and of finished jobs.\<close>

theorem prune_keeps_the_living:
  assumes "job_inv s" and "prune policy s = (Inr res, s')"
  shows "(\<forall>r \<in> set (jobs s). \<not> terminal (jr_status r) \<longrightarrow>
       r \<in> set (jobs s') \<and> (\<forall>t \<in> set (targets s). tr_job t = jr_id r \<longrightarrow> t \<in> set (targets s'))) \<and>
    int (length (events s')) \<le> rp_event_limit policy \<and>
    int (count_where (\<lambda>r. terminal (jr_status r)) (jobs s')) \<le> rp_job_limit policy \<and>
    set (jobs s') \<subseteq> set (jobs s)"
proof -
  define recs where "recs = sort_key (\<lambda>r. - finished_or_created r) (filter (\<lambda>r. terminal (jr_status r)) (jobs s))"
  from prune_Inr [OF assms(2,1)] obtain now where
    eqs: "let ids = expired_ids (rp_job_limit policy) (now - rp_job_age policy) recs;
        kept = filter (\<lambda>e. \<not> er_created e < now - rp_event_age policy) (events s)
      in jobs s' = filter (\<lambda>r. \<not> (jr_id r \<in> set ids \<and> terminal (jr_status r))) (jobs s) \<and>
       targets s' = filter (\<lambda>t. tr_job t \<notin> set ids) (targets s) \<and>
       events s' = filter (\<lambda>e. er_job e \<notin> set ids) (drop (length kept - nat (rp_event_limit policy)) kept) \<and>
       0 < rp_event_limit policy \<and> 0 < rp_job_limit policy"
    unfolding recs_def by (auto simp: Let_def)
  define ids where "ids = expired_ids (rp_job_limit policy) (now - rp_job_age policy) recs"
  define kept where "kept = filter (\<lambda>e. \<not> er_created e < now - rp_event_age policy) (events s)"
  have jobs': "jobs s' = filter (\<lambda>r. \<not> (jr_id r \<in> set ids \<and> terminal (jr_status r))) (jobs s)"
    and targets': "targets s' = filter (\<lambda>t. tr_job t \<notin> set ids) (targets s)"
    and events': "events s' = filter (\<lambda>e. er_job e \<notin> set ids) (drop (length kept - nat (rp_event_limit policy)) kept)"
    and limits: "0 < rp_event_limit policy" "0 < rp_job_limit policy"
    using eqs by (simp_all add: ids_def kept_def Let_def)
  have dist: "distinct (map jr_id (jobs s))" using assms(1) by (simp add: job_inv_def)
  have recs_set: "set recs = {r \<in> set (jobs s). terminal (jr_status r)}" by (auto simp: recs_def)
  have "jr_id r \<notin> set ids" if "r \<in> set (jobs s)" "\<not> terminal (jr_status r)" for r
  proof
    assume "jr_id r \<in> set ids"
    then have "jr_id r \<in> jr_id ` set recs" unfolding ids_def by (rule expired_ids_in)
    then obtain x where "x \<in> set recs" "jr_id x = jr_id r" by auto
    then show False using that distinct_key_eq [OF dist _ that(1)] by (auto simp: recs_set)
  qed
  then have live: "\<forall>r \<in> set (jobs s). \<not> terminal (jr_status r) \<longrightarrow>
       r \<in> set (jobs s') \<and> (\<forall>t \<in> set (targets s). tr_job t = jr_id r \<longrightarrow> t \<in> set (targets s'))"
    unfolding jobs' targets' by auto
  have "length (events s') \<le> length (drop (length kept - nat (rp_event_limit policy)) kept)"
    unfolding events' by (rule length_filter_le)
  then have ev: "int (length (events s')) \<le> rp_event_limit policy" using limits(1) by simp
  have "length (filter (\<lambda>r. terminal (jr_status r)) (jobs s')) \<le> nat (rp_job_limit policy)"
  proof (rule length_filter_ids [of jr_id _ "map jr_id (take (nat (rp_job_limit policy)) recs)"])
    show "distinct (map jr_id (filter (\<lambda>r. terminal (jr_status r)) (jobs s')))"
      unfolding jobs' using dist by (simp add: distinct_map_filter)
    show "jr_id ` set (filter (\<lambda>r. terminal (jr_status r)) (jobs s')) \<subseteq>
        set (map jr_id (take (nat (rp_job_limit policy)) recs))"
    proof clarsimp
      fix r assume "r \<in> set (jobs s')" "terminal (jr_status r)"
      then have "r \<in> set recs" "jr_id r \<notin> set ids" by (auto simp: jobs' recs_set)
      then obtain k where k: "k < length recs" "recs ! k = r" by (auto simp: in_set_conv_nth)
      with \<open>jr_id r \<notin> set ids\<close> have "\<not> int k \<ge> rp_job_limit policy"
        unfolding ids_def expired_ids_iff by blast
      with k have "r \<in> set (take (nat (rp_job_limit policy)) recs)"
        by (auto simp: in_set_conv_nth intro!: exI [of _ k])
      then show "jr_id r \<in> jr_id ` set (take (nat (rp_job_limit policy)) recs)" by simp
    qed
  qed simp
  then have "int (count_where (\<lambda>r. terminal (jr_status r)) (jobs s')) \<le> rp_job_limit policy"
    using limits(2) by (simp add: count_where_def)
  with live ev show ?thesis by (auto simp: jobs')
qed

text \<open>C26: saving a mode plan again never replaces what the saved one has settled: for every world of the
  room's saved plan the world, the action and the requested mode stay; a target, installation and
  topology that were captured stay; a resolved mode (one without an error, or whose source is not
  \<open>unknown\<close>) stays with its source, its preference revision and, unless the action is a start, with
  the observation whether the world was running. Plans of other rooms are untouched.\<close>

theorem saved_placement_is_frozen:
  assumes "save_runtime_mode_plan i room plan s = (Inr u, s')" and "find_job i (jobs s) = Some r"
    and "jr_modes r = Some all" and "k < length (filter (\<lambda>m. ms_room m = room) all)"
    and "old = filter (\<lambda>m. ms_room m = room) all ! k"
  shows "\<exists>r'. find_job i (jobs s') = Some r' \<and> jr_modes r' = Some (filter (\<lambda>m. ms_room m \<noteq> room) all @ plan) \<and>
    k < length plan \<and> ms_world (plan ! k) = ms_world old \<and> ms_world_name (plan ! k) = ms_world_name old \<and>
    ms_action (plan ! k) = ms_action old \<and> ms_requested_mode (plan ! k) = ms_requested_mode old \<and>
    ms_requested_version (plan ! k) = ms_requested_version old \<and>
    (\<not> placement_unresolved old \<longrightarrow> ms_target (plan ! k) = ms_target old \<and>
       ms_installation (plan ! k) = ms_installation old \<and> ms_topology (plan ! k) = ms_topology old) \<and>
    (ms_error old = None \<or> ms_source old \<noteq> ''unknown'' \<longrightarrow>
       ms_mode (plan ! k) = ms_mode old \<and> ms_source (plan ! k) = ms_source old \<and>
       ms_preference (plan ! k) = ms_preference old \<and>
       (ms_action old \<noteq> ''start'' \<longrightarrow> ms_was_running (plan ! k) = ms_was_running old))"
proof -
  let ?existing = "filter (\<lambda>m. ms_room m = room) all"
  from save_plan_Inr [OF assms(1)] assms(2,3) have
    ok: "?existing = [] \<or> length ?existing = length plan \<and> list_all2 same_selection ?existing plan"
    and rows: "jobs s' = update_where (\<lambda>r. jr_id r = i)
          (\<lambda>r. r\<lparr>jr_modes := Some (filter (\<lambda>m. ms_room m \<noteq> room) all @ plan)\<rparr>) (jobs s)"
    by (auto simp: Let_def)
  have "find_job i (jobs s') = Some (r\<lparr>jr_modes := Some (filter (\<lambda>m. ms_room m \<noteq> room) all @ plan)\<rparr>)"
    unfolding rows using find_job_Some [OF assms(2)] by (simp add: find_job_update assms(2))
  moreover from ok assms(4) have len: "k < length plan" and "same_selection old (plan ! k)"
    using assms(5) by (auto simp: list_all2_conv_all_nth)
  then have filled: "filled_selection old (plan ! k) = (plan ! k)\<lparr>ms_error := None\<rparr>"
    by (simp add: same_selection_def)
  from arg_cong [OF filled, of ms_world] arg_cong [OF filled, of ms_world_name]
    arg_cong [OF filled, of ms_action] arg_cong [OF filled, of ms_requested_mode]
    arg_cong [OF filled, of ms_requested_version]
  have "ms_world (plan ! k) = ms_world old" "ms_world_name (plan ! k) = ms_world_name old"
    "ms_action (plan ! k) = ms_action old" "ms_requested_mode (plan ! k) = ms_requested_mode old"
    "ms_requested_version (plan ! k) = ms_requested_version old"
    by (simp_all add: filled_selection_def Let_def split: if_splits)
  moreover have "ms_target (plan ! k) = ms_target old \<and> ms_installation (plan ! k) = ms_installation old \<and>
      ms_topology (plan ! k) = ms_topology old" if "\<not> placement_unresolved old"
    using that arg_cong [OF filled, of ms_target] arg_cong [OF filled, of ms_installation]
      arg_cong [OF filled, of ms_topology]
    by (simp add: filled_selection_def Let_def split: if_splits)
  moreover have "ms_mode (plan ! k) = ms_mode old" "ms_source (plan ! k) = ms_source old"
      "ms_preference (plan ! k) = ms_preference old"
      "ms_action old \<noteq> ''start'' \<Longrightarrow> ms_was_running (plan ! k) = ms_was_running old"
    if "ms_error old = None \<or> ms_source old \<noteq> ''unknown''"
    using that arg_cong [OF filled, of ms_mode] arg_cong [OF filled, of ms_source]
      arg_cong [OF filled, of ms_preference] arg_cong [OF filled, of ms_was_running]
    by (auto simp: filled_selection_def placement_unresolved_def Let_def split: if_splits)
  ultimately show ?thesis using len by auto
qed

section \<open>Witnesses\<close>

text \<open>One job created, started, its target recorded, completed; and a store with one finished and one
  running job.\<close>

definition sample_empty :: job_db where
  "sample_empty = \<lparr>step = 0, fault = (\<lambda>_. False), cancelled = (\<lambda>_. False), clock = int,
     fresh = (\<lambda>_. ''a''), jobs = [], targets = [], events = [], next_target = 1, next_event = 1\<rparr>"

definition sample_created :: job_db where
  "sample_created = snd (create_job ''kind'' ''room'' [] [\<lparr>ts_id = ''t'', ts_name = ''n''\<rparr>] sample_empty)"

definition sample_started :: job_db where
  "sample_started = snd (mark_running ''a'' sample_created)"

definition sample_result :: target_result where
  "sample_result = \<lparr>rt_target = ''t'', rt_status = Failed, rt_message = [], rt_warning = None,
     rt_error = Some \<lparr>je_details = None, je_code = ''E'', je_message = ''m''\<rparr>\<rparr>"

definition sample_recorded :: job_db where
  "sample_recorded = snd (record_target ''a'' sample_result sample_started)"

definition sample_completed :: job_db where
  "sample_completed = snd (complete_job ''a'' None False sample_recorded)"

lemma snd_runs:
  "job_call sample_empty sample_created" "job_call sample_created sample_started"
  "job_call sample_started sample_recorded" "job_call sample_recorded sample_completed"
  unfolding sample_created_def sample_started_def sample_recorded_def sample_completed_def
  by (metis prod.collapse job_call.intros)+

lemma sample_run:
  "store_call\<^sup>*\<^sup>* sample_empty sample_recorded" "store_call\<^sup>*\<^sup>* sample_recorded sample_completed"
  using snd_runs [THEN store_job] by (meson converse_rtranclp_into_rtranclp rtranclp.rtrancl_refl)+

lemma sample_empty_tables: "jobs sample_empty = []" "events sample_empty = []"
  by (simp_all add: sample_empty_def)

lemma sample_recorded_inv: "job_inv sample_recorded"
  by (rule store_calls_inv [OF sample_run(1)]) (simp add: job_inv_def events_ok_def sample_empty_def)

theorem store_invariant_witness:
  "\<exists>r. jobs sample_completed = [r] \<and> jr_status r = Failed \<and> job_row_ok r"
proof -
  have "map jr_status (jobs sample_completed) = [Failed]" by code_simp
  then obtain r where r: "jobs sample_completed = [r]" "jr_status r = Failed" by auto
  have "store_call\<^sup>*\<^sup>* sample_empty sample_completed" using sample_run by simp
  from store_invariant [OF sample_empty_tables this, of r] r show ?thesis by simp
qed

theorem complete_job_verdict_witness:
  "\<exists>j e s'. complete_job ''a'' None False sample_recorded = (Inr (j, e), s') \<and>
     jb_status j = Failed \<and> jb_outcome j = No_Outcome \<and> error_text (jb_error j) = Some (''E'', ''m'')"
proof -
  have "map_sum id (\<lambda>(j, e). map (\<lambda>t. (jt_status t, error_text (jt_error t))) (jb_targets j))
        (fst (complete_job ''a'' None False sample_recorded)) = Inr [(Failed, Some (''E'', ''m''))]"
    by code_simp
  moreover obtain p s' where p: "complete_job ''a'' None False sample_recorded = (p, s')" by fastforce
  ultimately obtain j e where run: "complete_job ''a'' None False sample_recorded = (Inr (j, e), s')"
    and "map (\<lambda>t. (jt_status t, error_text (jt_error t))) (jb_targets j) = [(Failed, Some (''E'', ''m''))]"
    by (cases p) auto
  then obtain t where t: "jb_targets j = [t]" "jt_status t = Failed" "error_text (jt_error t) = Some (''E'', ''m'')"
    by auto
  then have "jt_error t \<noteq> None" by (auto simp: error_text_def)
  with complete_job_verdict [OF sample_recorded_inv run, unfolded Let_def t(1), THEN conjunct2] run t(2,3)
  show ?thesis by auto
qed

definition sample_row :: "string \<Rightarrow> job_status \<Rightarrow> job_record" where
  "sample_row i st =
     (if terminal st
      then (new_job_record i ''k'' ''r'' [] 1)\<lparr>jr_status := st, jr_outcome := Full, jr_progress := 100, jr_finished := Some 2\<rparr>
      else (new_job_record i ''k'' ''r'' [] 1)\<lparr>jr_status := st\<rparr>)"

definition sample_event :: "int \<Rightarrow> event_record" where
  "sample_event n = \<lparr>er_id = n, er_job = ''a'', er_type = ''job.created'',
     er_data = job_from_rows [] (sample_row ''a'' Queued), er_created = 1\<rparr>"

definition sample_store :: job_db where
  "sample_store = sample_empty\<lparr>jobs := [sample_row ''a'' Succeeded, sample_row ''b'' Running],
     targets := [(new_target_record 1 ''b'' \<lparr>ts_id = ''t'', ts_name = ''n''\<rparr>)\<lparr>tr_status := Running\<rparr>],
     events := [sample_event 1, sample_event 2, sample_event 5], next_target := 2, next_event := 6\<rparr>"

lemma sample_store_ok: "job_inv sample_store" "calm sample_store"
  by (simp_all add: sample_store_def job_inv_def events_ok_def sample_row_def new_job_record_def
      job_row_ok_def sample_event_def calm_def sample_empty_def)

definition sample_policy :: retention_policy where
  "sample_policy = \<lparr>rp_event_age = 2000, rp_event_limit = 10, rp_job_age = 100, rp_job_limit = 7\<rparr>"

definition sample_aged :: job_db where
  "sample_aged = sample_store\<lparr>clock := \<lambda>_. 1000\<rparr>"

theorem job_never_goes_back_witness:
  "\<exists>s'. store_call\<^sup>*\<^sup>* sample_aged s' \<and> map jr_id (jobs s') = [''b''] \<and>
     taken_by_retention sample_aged (sample_row ''a'' Succeeded) s'"
proof -
  let ?s' = "snd (prune sample_policy sample_aged)"
  have ids: "map jr_id (jobs ?s') = [''b'']" by code_simp
  have run: "store_call\<^sup>*\<^sup>* sample_aged ?s'"
    by (rule r_into_rtranclp, rule store_prune [of sample_policy sample_aged "fst (prune sample_policy sample_aged)"]) simp
  have inv: "job_inv sample_aged" using sample_store_ok(1) by (simp add: sample_aged_def job_inv_def)
  have row: "sample_row ''a'' Succeeded \<in> set (jobs sample_aged)"
    by (simp add: sample_aged_def sample_store_def)
  have gone: "jr_id r \<noteq> jr_id (sample_row ''a'' Succeeded)" if "r \<in> set (jobs ?s')" for r
  proof -
    have "jr_id r \<in> set (map jr_id (jobs ?s'))" using that by simp
    then show ?thesis unfolding ids by (simp add: sample_row_def new_job_record_def)
  qed
  have "taken_by_retention sample_aged (sample_row ''a'' Succeeded) ?s'"
    using job_never_goes_back [OF inv run row] by (elim disjE bexE conjE) (simp_all add: gone)
  with run ids show ?thesis by (intro exI [of _ ?s'] conjI)
qed

theorem event_pages_complete_witness:
  "map_sum id (map ev_id) (fst (read_pages 4 1 1 sample_store)) = Inr [2, 5]"
proof -
  have "length (events sample_store) \<le> 3" by (simp add: sample_store_def)
  from event_pages_complete [OF sample_store_ok this, of 1 1] show ?thesis
    by (simp add: sample_store_def sample_event_def event_from_record_def del: read_pages.simps)
qed

theorem recovery_finishes_all_witness:
  "\<exists>es s'. recover_interrupted sample_store = (Inr es, s') \<and> length es = 1 \<and>
     (\<forall>r \<in> set (jobs s'). terminal (jr_status r)) \<and> sample_row ''a'' Succeeded \<in> set (jobs s')"
proof -
  have "count_where (\<lambda>r. \<not> terminal (jr_status r)) (jobs sample_store) = 1"
    by (simp add: sample_store_def sample_row_def new_job_record_def)
  moreover have "sample_row ''a'' Succeeded \<in> set (jobs sample_store)" "terminal (jr_status (sample_row ''a'' Succeeded))"
    by (simp_all add: sample_store_def sample_row_def)
  ultimately show ?thesis using recovery_finishes_all [OF sample_store_ok] by metis
qed

theorem prune_keeps_the_living_witness:
  "\<exists>res s'. prune \<lparr>rp_event_age = 100, rp_event_limit = 1, rp_job_age = 100, rp_job_limit = 7\<rparr> sample_store =
     (Inr res, s') \<and> rr_events res = 2 \<and> sample_row ''b'' Running \<in> set (jobs s') \<and> length (events s') \<le> 1"
proof -
  let ?p = "\<lparr>rp_event_age = 100, rp_event_limit = 1, rp_job_age = 100, rp_job_limit = 7\<rparr>"
  have "map_sum id rr_events (fst (prune ?p sample_store)) = Inr 2" by code_simp
  moreover obtain q s' where "prune ?p sample_store = (q, s')" by fastforce
  ultimately obtain res where run: "prune ?p sample_store = (Inr res, s')" "rr_events res = 2"
    by (cases q) auto
  have "sample_row ''b'' Running \<in> set (jobs sample_store)" "\<not> terminal (jr_status (sample_row ''b'' Running))"
    by (simp_all add: sample_store_def sample_row_def)
  with prune_keeps_the_living [OF sample_store_ok(1) run(1)] run show ?thesis by auto
qed

definition sample_selection :: "bool \<Rightarrow> mode_selection" where
  "sample_selection running =
     \<lparr>ms_error = None, ms_room = ''r'', ms_world = ''w'', ms_world_name = ''W'', ms_action = ''start'',
      ms_requested_mode = Game_Mode, ms_requested_version = [], ms_mode = Game_Mode, ms_source = ''room'',
      ms_target = ''t'', ms_installation = ''i'', ms_topology = ''1'', ms_was_running = running,
      ms_preference = []\<rparr>"

definition sample_planned :: job_db where
  "sample_planned = sample_empty\<lparr>jobs := [(sample_row ''a'' Running)\<lparr>jr_modes := Some [sample_selection False]\<rparr>]\<rparr>"

theorem saved_placement_is_frozen_witness:
  "\<exists>s' r'. save_runtime_mode_plan ''a'' ''r'' [sample_selection True] sample_planned = (Inr (), s') \<and>
     find_job ''a'' (jobs s') = Some r' \<and> jr_modes r' = Some [sample_selection True]"
proof -
  have "fst (save_runtime_mode_plan ''a'' ''r'' [sample_selection True] sample_planned) = Inr ()" by code_simp
  then obtain s' where run: "save_runtime_mode_plan ''a'' ''r'' [sample_selection True] sample_planned = (Inr (), s')"
    by (metis prod.collapse)
  have found: "find_job ''a'' (jobs sample_planned) =
      Some ((sample_row ''a'' Running)\<lparr>jr_modes := Some [sample_selection False]\<rparr>)"
    by (simp add: sample_planned_def find_job_def sample_row_def new_job_record_def)
  have "filter (\<lambda>m. ms_room m = ''r'') [sample_selection False] = [sample_selection False]"
    "filter (\<lambda>m. ms_room m \<noteq> ''r'') [sample_selection False] = []"
    by (simp_all add: sample_selection_def)
  with saved_placement_is_frozen [OF run found, of "[sample_selection False]" 0] run show ?thesis by auto
qed

end
