(* ===== verification/Job_Service.thy ===== *)
theory Job_Service
  imports Job_Properties "HOL-Library.AList"
begin

text \<open>
  \<open>internal/jobs/service.go\<close>: the service that runs jobs in the background. Its state is the job
  store's plus the admission flag, the contexts of the active runners (the flag of an entry says
  whether it was cancelled), the subscribers of the broker (the flag says whether a wake-up is
  pending in the channel of capacity one), the log, and what the completion and lifecycle
  listeners were handed. A run is three steps, \<open>start_run\<close>, any number of \<open>report_target\<close>
  (the runner's callback) and \<open>end_run\<close>, so that other calls may come in between.
\<close>

section \<open>State\<close>

record log_entry =
  lg_level :: string
  lg_code :: string
  lg_message :: string
  lg_job :: string
  lg_room :: string
  lg_world :: string
  lg_operation :: string

record job_service = job_db +
  paused :: bool
  cancels :: "(string \<times> bool) list"
  subscribers :: "(nat \<times> bool) list"
  next_subscriber :: nat
  service_log :: "log_entry list"
  completions :: "job list"
  lifecycles :: "job list"

datatype service_error =
    Service_Busy
  | Service_NoFactory
  | Service_Store job_store_error

section \<open>Broker\<close>

definition subscribe :: "'s job_service_scheme \<Rightarrow> nat \<times> 's job_service_scheme" where
  "subscribe s =
     (next_subscriber s,
      s\<lparr>next_subscriber := next_subscriber s + 1,
        subscribers := AList.update (next_subscriber s) False (subscribers s)\<rparr>)"

definition unsubscribe :: "nat \<Rightarrow> 's job_service_scheme \<Rightarrow> 's job_service_scheme" where
  "unsubscribe n s = s\<lparr>subscribers := AList.delete n (subscribers s)\<rparr>"

definition publish :: "'s job_service_scheme \<Rightarrow> 's job_service_scheme" where
  "publish s = s\<lparr>subscribers := map (\<lambda>(n, _). (n, True)) (subscribers s)\<rparr>"

section \<open>Log and listeners\<close>

fun status_text :: "job_status \<Rightarrow> string" where
  "status_text Queued = ''queued''"
| "status_text Running = ''running''"
| "status_text Succeeded = ''succeeded''"
| "status_text Failed = ''failed''"
| "status_text Canceled = ''canceled''"

definition log_job_event :: "job \<Rightarrow> string \<Rightarrow> string \<Rightarrow> string \<Rightarrow> 's job_service_scheme \<Rightarrow> 's job_service_scheme" where
  "log_job_event j code level message s =
     (let text =
            (if message = [] then
               (let base = jb_kind j @ '': '' @ status_text (jb_status j)
                in case jb_error j of None \<Rightarrow> base | Some e \<Rightarrow> base @ '' '' @ je_message e)
             else message)
      in s\<lparr>service_log := service_log s @
           [\<lparr>lg_level = level, lg_code = code, lg_message = text, lg_job = jb_id j, lg_room = jb_room j,
             lg_world = jb_world j, lg_operation = jb_kind j\<rparr>]\<rparr>)"

definition notify_completion :: "job \<Rightarrow> 's job_service_scheme \<Rightarrow> 's job_service_scheme" where
  "notify_completion j s = s\<lparr>completions := completions s @ [j]\<rparr>"

definition notify_lifecycle :: "job \<Rightarrow> 's job_service_scheme \<Rightarrow> 's job_service_scheme" where
  "notify_lifecycle j s = s\<lparr>lifecycles := lifecycles s @ [j]\<rparr>"

section \<open>Starting the service, submitting, pausing, cancelling\<close>

definition new_service :: "('s job_service_scheme, service_error, unit) act" where
  "new_service =
     andthen (map_error Service_Store recover_interrupted) (\<lambda>es.
     if length es > 0 then modify publish else return_ok ())"

definition submit_factory ::
  "bool \<Rightarrow> string \<Rightarrow> string \<Rightarrow> string \<Rightarrow> target_spec list \<Rightarrow> ('s job_service_scheme, service_error, job) act" where
  "submit_factory has_factory kind room world specs =
     andthen (query paused) (\<lambda>p.
     andthen (guard Service_Busy (\<not> p)) (\<lambda>_.
     andthen (guard Service_NoFactory has_factory) (\<lambda>_.
     andthen (map_error Service_Store (create_job kind room world specs)) (\<lambda>(j, e).
     andthen (modify publish) (\<lambda>_.
     andthen (modify (log_job_event j ''JOB_QUEUED'' ''info'' [])) (\<lambda>_.
     andthen (modify (\<lambda>s. s\<lparr>cancels := AList.update (jb_id j) False (cancels s)\<rparr>)) (\<lambda>_.
     return_ok j)))))))"

definition pause_if_idle :: "('s job_service_scheme, service_error, unit) act" where
  "pause_if_idle =
     andthen (query (\<lambda>s. paused s \<or> length (cancels s) \<noteq> 0)) (\<lambda>busy.
     andthen (guard Service_Busy (\<not> busy)) (\<lambda>_.
     modify (\<lambda>s. s\<lparr>paused := True\<rparr>)))"

definition resume :: "'s job_service_scheme \<Rightarrow> 's job_service_scheme" where
  "resume s = s\<lparr>paused := False\<rparr>"

definition cancel_context :: "string \<Rightarrow> 's job_service_scheme \<Rightarrow> 's job_service_scheme" where
  "cancel_context i s =
     (case map_of (cancels s) i of
        None \<Rightarrow> s
      | Some _ \<Rightarrow> s\<lparr>cancels := AList.update i True (cancels s)\<rparr>)"

definition cancel_job :: "string \<Rightarrow> ('s job_service_scheme, service_error, job) act" where
  "cancel_job i =
     andthen (map_error Service_Store (request_cancel i)) (\<lambda>(j, e).
     andthen (modify (cancel_context i)) (\<lambda>_.
     andthen (modify publish) (\<lambda>_. return_ok j)))"

definition service_update_progress ::
  "string \<Rightarrow> progress_update \<Rightarrow> ('s job_service_scheme, service_error, job) act" where
  "service_update_progress i u =
     andthen (map_error Service_Store (update_progress_detail i u)) (\<lambda>(j, e).
       case e of
         None \<Rightarrow> return_ok j
       | Some event \<Rightarrow>
           andthen (if ev_stage_changed event
                    then modify (log_job_event j ''JOB_STAGE_CHANGED'' ''info'' (pu_message u))
                    else return_ok ()) (\<lambda>_.
           andthen (if ev_id event \<noteq> 0 then modify publish else return_ok ()) (\<lambda>_. return_ok j)))"

section \<open>Running\<close>

definition ctx_canceled :: "string \<Rightarrow> 's job_service_scheme \<Rightarrow> bool" where
  "ctx_canceled i s \<longleftrightarrow> map_of (cancels s) i = Some True"

definition forget_run :: "string \<Rightarrow> 's job_service_scheme \<Rightarrow> 's job_service_scheme" where
  "forget_run i s = s\<lparr>cancels := AList.delete i (cancels s)\<rparr>"

definition start_run :: "string \<Rightarrow> 's job_service_scheme \<Rightarrow> bool \<times> 's job_service_scheme" where
  "start_run i s =
     (case mark_running i s of
        (Inl _, s1) \<Rightarrow> (False, forget_run i s1)
      | (Inr (j, _), s1) \<Rightarrow> (True, publish (notify_lifecycle j (log_job_event j ''JOB_RUNNING'' ''info'' [] s1))))"

definition report_target :: "string \<Rightarrow> target_result \<Rightarrow> 's job_service_scheme \<Rightarrow> 's job_service_scheme" where
  "report_target i res s =
     (case record_target i res s of
        (Inl _, s1) \<Rightarrow> s1
      | (Inr (j, _), s1) \<Rightarrow>
          publish (case rt_error res of
                     None \<Rightarrow> s1
                   | Some e \<Rightarrow> log_job_event j (je_code e) ''error'' (je_message e) s1))"

definition msg_no_result :: string where
  "msg_no_result = bytes
     [0xE7, 0x9B, 0xAE, 0xE6, 0xA0, 0x87, 0xE6, 0x9C, 0xAA, 0xE8, 0xBF, 0x94, 0xE5, 0x9B,
      0x9E, 0xE6, 0x89, 0xA7, 0xE8, 0xA1, 0x8C, 0xE7, 0xBB, 0x93, 0xE6, 0x9E, 0x9C]"

definition abort_result :: "job_target \<Rightarrow> bool \<Rightarrow> target_result" where
  "abort_result t canceled =
     (if canceled then
        \<lparr>rt_target = jt_target t, rt_status = Canceled, rt_message = [], rt_warning = None,
         rt_error = Some \<lparr>je_details = None, je_code = ''JOB_CANCELED'', je_message = msg_canceled\<rparr>\<rparr>
      else
        \<lparr>rt_target = jt_target t, rt_status = Failed, rt_message = [], rt_warning = None,
         rt_error = Some \<lparr>je_details = None, je_code = ''RUNNER_ABORTED'', je_message = msg_no_result\<rparr>\<rparr>)"

definition abort_target :: "string \<Rightarrow> job_target \<Rightarrow> 's job_service_scheme \<Rightarrow> 's job_service_scheme" where
  "abort_target i t s =
     (if jt_status t \<noteq> Running then s
      else
        case record_target i (abort_result t (ctx_canceled i s)) s of
          (Inl _, s1) \<Rightarrow> s1
        | (Inr _, s1) \<Rightarrow> publish s1)"

definition finish_run :: "string \<Rightarrow> string option \<Rightarrow> 's job_service_scheme \<Rightarrow> 's job_service_scheme" where
  "finish_run i runner_err s =
     (case get_job i s of
        (Inl _, s1) \<Rightarrow> s1
      | (Inr j, s1) \<Rightarrow>
          let s2 = fold (abort_target i) (jb_targets j) s1
          in case complete_job i runner_err (ctx_canceled i s2) s2 of
               (Inl _, s3) \<Rightarrow> s3
             | (Inr (c, _), s3) \<Rightarrow>
                 let level = (if jb_status c = Failed then ''error'' else ''info'')
                 in notify_lifecycle c (notify_completion c
                      (log_job_event c ''JOB_COMPLETED'' level [] (publish s3))))"

definition end_run :: "string \<Rightarrow> string option \<Rightarrow> 's job_service_scheme \<Rightarrow> 's job_service_scheme" where
  "end_run i runner_err s = forget_run i (finish_run i runner_err s)"

end
