(* ===== verification/Job_Runs.thy ===== *)
theory Job_Runs
  imports Job_Service
begin

text \<open>
  The properties of the job service: a run that ends leaves nothing running behind, and no runner
  is active while admission is paused.
\<close>

section \<open>What the service calls leave alone\<close>

definition registry :: "'s job_service_scheme \<Rightarrow> bool \<times> (string \<times> bool) list \<times> job list \<times> job list" where
  "registry s = (paused s, cancels s, completions s, lifecycles s)"

lemma beyond_jobs_registry: "beyond_jobs registry"
  by (simp add: beyond_jobs_def step_free_def registry_def)

lemma publish_registry [simp]: "registry (publish s) = registry s"
  and log_registry [simp]: "registry (log_job_event j c l m s) = registry s"
  by (simp_all add: registry_def publish_def log_job_event_def Let_def)

definition tables :: "'s job_db_scheme \<Rightarrow> job_record list \<times> target_record list" where
  "tables s = (jobs s, targets s)"

lemma service_tables [simp]:
  "tables (publish s) = tables s" "tables (log_job_event j c l m s) = tables s"
  "tables (notify_completion j s) = tables s" "tables (notify_lifecycle j s) = tables s"
  "tables (forget_run i s) = tables s"
  by (simp_all add: tables_def publish_def log_job_event_def notify_completion_def notify_lifecycle_def
      forget_run_def Let_def)

lemma service_script [simp]:
  "script (publish s) = script s" "script (log_job_event j c l m s) = script s"
  by (simp_all add: script_def publish_def log_job_event_def Let_def)

lemma only_steps_views: "only_steps s s' \<Longrightarrow> registry s' = registry s \<and> tables s' = tables s \<and> script s' = script s"
  by (auto simp: only_steps_def registry_def tables_def script_def)

section \<open>Ending a run\<close>

definition target_key :: "target_record \<Rightarrow> string \<times> string" where
  "target_key t = (tr_job t, tr_target t)"

definition running_targets :: "string \<Rightarrow> target_record list \<Rightarrow> string set" where
  "running_targets i rows = {tr_target t |t. t \<in> set rows \<and> tr_job t = i \<and> tr_status t = Running}"

lemma running_targets_update:
  assumes "terminal (rt_status res)"
  shows "running_targets i (update_where (\<lambda>x. tr_job x = i \<and> tr_target x = rt_target res \<and> tr_status x = Running)
      (result_write res now) rows) = running_targets i rows - {rt_target res}"
proof -
  have "rt_status res \<noteq> Running" using assms by auto
  then show ?thesis
    by (induction rows) (auto simp: running_targets_def result_write_def)
qed

lemma record_target_calm:
  assumes c: "calm s" and r: "find_job i (jobs s) = Some r" and st: "terminal (rt_status res)"
    and one: "count_where (\<lambda>t. tr_job t = i \<and> tr_target t = rt_target res \<and> tr_status t = Running) (targets s) = 1"
  shows "\<exists>j e s'. record_target i res s = (Inr (j, e), s')"
proof -
  let ?ts = "update_where (\<lambda>t. tr_job t = i \<and> tr_target t = rt_target res \<and> tr_status t = Running)
    (result_write res (clock s (step s))) (targets s)"
  let ?p = "target_progress i ?ts"
  let ?js = "update_where (\<lambda>r. jr_id r = i) (\<lambda>r. r\<lparr>jr_progress := (if jr_progress r < ?p then ?p else jr_progress r)\<rparr>) (jobs s)"
  let ?s = "s\<lparr>targets := ?ts, step := Suc (Suc (Suc (Suc (Suc (Suc (step s)))))), jobs := ?js\<rparr>"
  obtain r' where "find_job i ?js = Some r'" using r by (simp add: find_job_update)
  then obtain j e s1 where "commit_event ''job.target.completed'' i ?s = (Inr (j, e), s1)" "calm s1"
    using commit_event_calm [of ?s i r' "''job.target.completed''"] c by (auto simp: calm_def)
  then have "record_target i res s = (Inr (j, e), s1\<lparr>step := Suc (step s1)\<rparr>)"
    using c st one
    by (cases "rt_status res") (simp_all add: record_target_def transaction_def andthen_def external_def
        set_targets_def set_jobs_def target_progress_def Let_def calm_def cong del: if_weak_cong)
  then show ?thesis by blast
qed

lemma complete_job_calm:
  assumes c: "calm s" and r: "find_job i (jobs s) = Some r" and st: "jr_status r = Running"
  shows "\<exists>j e s'. complete_job i err canceled s = (Inr (j, e), s')"
proof -
  let ?begun = "s\<lparr>step := Suc (step s)\<rparr>"
  let ?v = "completion_verdict (job_targets (targets s) i) err canceled"
  let ?now = "clock s (Suc (Suc (Suc (step s))))"
  let ?js = "update_where (\<lambda>r. jr_id r = i \<and> jr_status r = Running) (verdict_write ?v ?now) (jobs s)"
  let ?s = "s\<lparr>step := Suc (Suc (Suc (Suc (Suc (step s))))), jobs := ?js\<rparr>"
  have i: "jr_id r = i" using r by (auto dest: find_job_Some)
  have tx: "get_tx i ?begun = (Inr (job_from_rows (targets s) r), s\<lparr>step := Suc (Suc (Suc (step s)))\<rparr>)"
    using get_tx_calm [of ?begun i r] c r by (simp del: get_tx_Inr)
  obtain r' where "find_job i ?js = Some r'" using r by (simp add: find_job_update verdict_write_def)
  then obtain j e s1 where "commit_event ''job.completed'' i ?s = (Inr (j, e), s1)" "calm s1"
    using commit_event_calm [of ?s i r' "''job.completed''"] c by (auto simp: calm_def)
  then have "complete_job i err canceled s = (Inr (j, e), s1\<lparr>step := Suc (step s1)\<rparr>)"
    using c st i
    by (simp add: complete_job_def transaction_def andthen_def external_def
        set_jobs_def Let_def calm_def job_from_rows_def tx)
  then show ?thesis by blast
qed

text \<open>What a run may rely on between two of its own calls.\<close>

definition run_ready :: "string \<Rightarrow> 's job_db_scheme \<Rightarrow> bool" where
  "run_ready i s \<longleftrightarrow>
     calm s \<and> distinct (map target_key (targets s)) \<and>
     (\<exists>r. find_job i (jobs s) = Some r \<and> jr_status r = Running)"

lemma run_ready_views:
  "tables s' = tables s \<Longrightarrow> script s' = script s \<Longrightarrow> run_ready i s' = run_ready i s"
  by (auto simp: run_ready_def tables_def dest: script_calm)

lemma run_ready_record:
  assumes ready: "run_ready i s" and run: "record_target i res s = (out, s')"
  shows "run_ready i s' \<and> registry s' = registry s \<and> script s' = script s"
proof -
  have views: "registry s' = registry s \<and> script s' = script s"
    using keepsD [OF keeps_job_ops(3) [OF beyond_jobs_registry] run]
      keepsD [OF keeps_job_ops(3) [OF beyond_jobs_views(1)] run] by simp
  show ?thesis
  proof (cases out)
    case (Inl e)
    then have "only_steps s s'" using job_ops_Inl(3) run by blast
    then show ?thesis using views ready by (metis only_steps_views run_ready_views)
  next
    case (Inr je)
    then obtain j e where "record_target i res s = (Inr (j, e), s')" using run by (cases je) auto
    from record_target_Inr [OF this] obtain now where
      ts: "targets s' = update_where (\<lambda>t. tr_job t = i \<and> tr_target t = rt_target res \<and> tr_status t = Running)
        (result_write res now) (targets s)" and
      js: "jobs s' = update_where (\<lambda>r. jr_id r = i)
        (\<lambda>r. r\<lparr>jr_progress := (if jr_progress r < target_progress i (targets s')
                then target_progress i (targets s') else jr_progress r)\<rparr>) (jobs s)" by blast
    have "map target_key (targets s') = map target_key (targets s)"
      unfolding ts by (rule map_update_where) (simp add: target_key_def result_write_def)
    moreover have "calm s'" using views ready by (auto simp: run_ready_def dest: script_calm)
    moreover have "\<exists>r. find_job i (jobs s') = Some r \<and> jr_status r = Running"
    proof -
      obtain r where "find_job i (jobs s) = Some r" "jr_status r = Running" using ready by (auto simp: run_ready_def)
      then show ?thesis unfolding js by (subst find_job_update) simp_all
    qed
    ultimately show ?thesis using ready views by (simp add: run_ready_def)
  qed
qed

lemma abort_target_ready:
  assumes "run_ready i s"
  shows "run_ready i (abort_target i t s) \<and> registry (abort_target i t s) = registry s \<and>
    running_targets i (targets (abort_target i t s)) =
      (if jt_status t = Running then running_targets i (targets s) - {jt_target t}
       else running_targets i (targets s))"
proof (cases "jt_status t = Running")
  case True
  let ?res = "abort_result t (ctx_canceled i s)"
  have res: "terminal (rt_status ?res)" "rt_target ?res = jt_target t"
    by (simp_all add: abort_result_def)
  obtain out s1 where run: "record_target i ?res s = (out, s1)" by fastforce
  have eq: "registry (abort_target i t s) = registry s1" "tables (abort_target i t s) = tables s1"
    "script (abort_target i t s) = script s1"
    using run True by (auto simp: abort_target_def split: sum.split)
  have one: "count_where (\<lambda>x. tr_job x = i \<and> tr_target x = rt_target ?res \<and> tr_status x = Running) (targets s) \<le> 1"
    by (rule count_where_key_le_1 [of target_key _ _ "(i, rt_target ?res)"])
      (use assms in \<open>auto simp: run_ready_def target_key_def\<close>)
  have "running_targets i (targets s1) = running_targets i (targets s) - {jt_target t}"
  proof (cases out)
    case (Inl e)
    then have same: "only_steps s s1" using job_ops_Inl(3) run by blast
    have "jt_target t \<notin> running_targets i (targets s)"
    proof
      assume "jt_target t \<in> running_targets i (targets s)"
      then have "count_where (\<lambda>x. tr_job x = i \<and> tr_target x = rt_target ?res \<and> tr_status x = Running) (targets s) \<noteq> 0"
        unfolding count_where_eq_0 by (auto simp: running_targets_def res)
      with one have "count_where (\<lambda>x. tr_job x = i \<and> tr_target x = rt_target ?res \<and> tr_status x = Running) (targets s) = 1"
        by linarith
      moreover obtain r where "calm s" "find_job i (jobs s) = Some r" using assms by (auto simp: run_ready_def)
      ultimately show False
        using record_target_calm [of s i r ?res] res(1) run Inl by simp
    qed
    then show ?thesis using only_steps_views [OF same] by (auto simp: tables_def)
  next
    case (Inr je)
    then obtain j e where "record_target i ?res s = (Inr (j, e), s1)" using run by (cases je) auto
    from record_target_Inr [OF this] obtain now where
      ts: "targets s1 = update_where (\<lambda>x. tr_job x = i \<and> tr_target x = rt_target ?res \<and> tr_status x = Running)
        (result_write ?res now) (targets s)" by blast
    show ?thesis
      using running_targets_update [OF res(1), of i now "targets s"] by (simp add: ts res(2))
  qed
  with run_ready_record [OF assms run] run_ready_views [OF eq(2,3)] eq show ?thesis
    using True by (auto simp: tables_def)
qed (use assms in \<open>simp add: abort_target_def\<close>)

lemma abort_targets_ready:
  "run_ready i s \<Longrightarrow>
   run_ready i (fold (abort_target i) ts s) \<and> registry (fold (abort_target i) ts s) = registry s \<and>
   running_targets i (targets (fold (abort_target i) ts s)) =
     running_targets i (targets s) - {jt_target t |t. t \<in> set ts \<and> jt_status t = Running}"
proof (induction ts arbitrary: s)
  case (Cons t ts)
  then show ?case
    using abort_target_ready [of i s t] Cons.IH [of "abort_target i t s"] by (auto split: if_splits)
qed simp

lemma running_targets_read:
  "running_targets i rows = {jt_target t |t. t \<in> set (job_targets rows i) \<and> jt_status t = Running}"
  by (force simp: running_targets_def job_targets_def target_from_record_def)

lemma end_run_effect:
  assumes ready: "run_ready i s"
  shows "\<exists>j s2. get_job i s = (Inr j, s2) \<and> run_ready i s2 \<and>
     registry s2 = registry s \<and> targets s2 = targets s \<and> jb_targets j = job_targets (targets s) i"
proof -
  obtain r where r: "calm s" "find_job i (jobs s) = Some r" using ready by (auto simp: run_ready_def)
  have "get_job i s = (Inr (job_from_rows (targets s) r), s\<lparr>step := Suc (Suc (step s))\<rparr>)"
    unfolding get_job_def by (rule get_tx_calm [OF r])
  moreover have "jr_id r = i" using r(2) by (auto dest: find_job_Some)
  moreover have "run_ready i (s\<lparr>step := Suc (Suc (step s))\<rparr>)"
    using ready by (simp add: run_ready_def)
  ultimately show ?thesis by (auto simp: registry_def job_from_rows_def Let_def)
qed

text \<open>C27: Once the database answers, the end of a run finishes its job, whatever the runner
  reported: exactly one completion is announced, it carries the row as stored, that row is terminal,
  no target of the job is left running, and the job's context is forgotten.\<close>

theorem end_run_finishes:
  assumes "calm s" and "distinct (map target_key (targets s))"
    and "find_job i (jobs s) = Some r" and "jr_status r = Running"
  shows "\<exists>j r'. completions (end_run i err s) = completions s @ [j] \<and>
     lifecycles (end_run i err s) = lifecycles s @ [j] \<and>
     find_job i (jobs (end_run i err s)) = Some r' \<and> terminal (jr_status r') \<and>
     j = job_from_rows (targets (end_run i err s)) r' \<and>
     running_targets i (targets (end_run i err s)) = {} \<and>
     map_of (cancels (end_run i err s)) i = None"
proof -
  have ready: "run_ready i s" using assms by (simp add: run_ready_def)
  from end_run_effect [OF this] obtain g s1 where
    got: "get_job i s = (Inr g, s1)" "run_ready i s1" "registry s1 = registry s" "targets s1 = targets s"
      "jb_targets g = job_targets (targets s) i" by (elim exE conjE)
  let ?s2 = "fold (abort_target i) (jb_targets g) s1"
  have s2: "run_ready i ?s2" "registry ?s2 = registry s" "running_targets i (targets ?s2) = {}"
    using abort_targets_ready [OF got(2), of "jb_targets g"]
    by (simp_all only: got(3-5) running_targets_read [of i "targets s"] Diff_cancel)
  then obtain r2 where r2: "calm ?s2" "find_job i (jobs ?s2) = Some r2" "jr_status r2 = Running"
    by (auto simp: run_ready_def)
  from complete_job_calm [OF this, of err "ctx_canceled i ?s2"] obtain j e s3 where
    run: "complete_job i err (ctx_canceled i ?s2) ?s2 = (Inr (j, e), s3)" by blast
  from complete_job_Inr [OF run] obtain now where
    js: "jobs s3 = update_where (\<lambda>r. jr_id r = i \<and> jr_status r = Running)
      (verdict_write (completion_verdict (job_targets (targets ?s2) i) err (ctx_canceled i ?s2)) now) (jobs ?s2)"
    and ts: "targets s3 = targets ?s2" and app: "appended ''job.completed'' i ?s2 s3 j e"
    using r2(2) by (auto dest: find_job_Some)
  have "registry s3 = registry s"
    using keepsD [OF keeps_job_ops(4) [OF beyond_jobs_registry] run] s2(2) by simp
  let ?v = "completion_verdict (job_targets (targets ?s2) i) err (ctx_canceled i ?s2)"
  have found: "find_job i (jobs s3) = Some (verdict_write ?v now r2)"
    unfolding js using r2 by (subst find_job_update) (auto simp: verdict_write_def dest: find_job_Some)
  have out: "end_run i err s =
      forget_run i (notify_lifecycle j (notify_completion j (log_job_event j ''JOB_COMPLETED''
        (if jb_status j = Failed then ''error'' else ''info'') [] (publish s3))))"
    by (simp add: end_run_def finish_run_def got(1) Let_def run)
  have tab: "jobs (end_run i err s) = jobs s3" "targets (end_run i err s) = targets s3"
  proof -
    have "tables (end_run i err s) = tables s3" by (simp add: out)
    then show "jobs (end_run i err s) = jobs s3" "targets (end_run i err s) = targets s3"
      by (simp_all add: tables_def)
  qed
  have "j = job_from_rows (targets s3) (verdict_write ?v now r2)"
    using app found by (auto simp: appended_def)
  moreover have "terminal (jr_status (verdict_write ?v now r2))"
    using verdict_cases by (simp add: verdict_write_def)
  moreover have "completions (end_run i err s) = completions s @ [j]" "lifecycles (end_run i err s) = lifecycles s @ [j]"
    "map_of (cancels (end_run i err s)) i = None"
    using \<open>registry s3 = registry s\<close>
    by (simp_all add: out registry_def forget_run_def notify_lifecycle_def notify_completion_def
        log_job_event_def publish_def Let_def delete_conv')
  ultimately show ?thesis using found s2(3) ts by (simp add: tab)
qed

section \<open>Admission\<close>

text \<open>The calls on the service and the steps of its runners, in any order.\<close>

inductive service_call :: "'s job_service_scheme \<Rightarrow> 's job_service_scheme \<Rightarrow> bool" where
  call_submit: "submit_factory f kind room world specs s = (res, s') \<Longrightarrow> service_call s s'"
| call_pause: "pause_if_idle s = (out, s') \<Longrightarrow> service_call s s'"
| call_resume: "service_call s (resume s)"
| call_cancel: "cancel_job i s = (res, s') \<Longrightarrow> service_call s s'"
| call_progress: "service_update_progress i u s = (res, s') \<Longrightarrow> service_call s s'"
| call_start: "start_run i s = (b, s') \<Longrightarrow> service_call s s'"
| call_report: "service_call s (report_target i result s)"
| call_end: "service_call s (end_run i err s)"
| call_subscribe: "subscribe s = (n, s') \<Longrightarrow> service_call s s'"
| call_unsubscribe: "service_call s (unsubscribe n s)"

definition admission :: "'s job_service_scheme \<Rightarrow> bool \<times> (string \<times> bool) list" where
  "admission s = (paused s, cancels s)"

definition idle_when_paused :: "bool \<times> (string \<times> bool) list \<Rightarrow> bool" where
  "idle_when_paused a \<longleftrightarrow> (fst a \<longrightarrow> snd a = [])"

lemma admission_registry: "registry s' = registry s \<Longrightarrow> admission s' = admission s"
  by (simp add: registry_def admission_def)

lemma admission_simps [simp]:
  "admission (publish s) = admission s" "admission (log_job_event j c l m s) = admission s"
  "admission (notify_completion j s) = admission s" "admission (notify_lifecycle j s) = admission s"
  "admission (snd (subscribe s)) = admission s" "admission (unsubscribe n s) = admission s"
  by (simp_all add: admission_def publish_def log_job_event_def notify_completion_def notify_lifecycle_def
      subscribe_def unsubscribe_def Let_def)

lemma beyond_jobs_admission: "beyond_jobs admission"
  by (simp add: beyond_jobs_def step_free_def admission_def)

lemmas keeps_admission = keeps_job_ops [OF beyond_jobs_admission]
  keeps_update_progress [OF beyond_jobs_admission]

lemma forget_run_idle: "idle_when_paused (admission s) \<Longrightarrow> idle_when_paused (admission (forget_run i s))"
  by (auto simp: idle_when_paused_def admission_def forget_run_def)

lemma admission_abort: "admission (abort_target i t s) = admission s"
  by (auto simp: abort_target_def split: prod.split sum.split dest!: keepsD [OF keeps_admission(3)])

lemma admission_aborts: "admission (fold (abort_target i) ts s) = admission s"
  by (induction ts arbitrary: s) (simp_all add: admission_abort)

lemma admission_finish: "admission (finish_run i err s) = admission s"
  by (auto simp: finish_run_def Let_def admission_aborts split: prod.split sum.split
      dest!: keepsD [OF keeps_admission(4)] keepsD [OF keeps_admission(8)])

lemma keeps_service_progress: "keeps admission (service_update_progress i u)"
  unfolding service_update_progress_def by (intro keeps_intros keeps_admission) simp_all

lemma cancel_context_idle:
  "idle_when_paused (admission s) \<Longrightarrow> idle_when_paused (admission (cancel_context i s))"
  by (auto simp: cancel_context_def idle_when_paused_def admission_def split: option.split)

lemma service_call_idle: "service_call s s' \<Longrightarrow> idle_when_paused (admission s) \<Longrightarrow> idle_when_paused (admission s')"
proof (induction rule: service_call.induct)
  case (call_submit f kind room world specs s res s')
  show ?case
  proof (cases "paused s")
    case True
    with call_submit show ?thesis by (simp add: submit_factory_def andthen_def guard_def)
  next
    case False
    have "keeps paused (submit_factory f kind room world specs)"
      unfolding submit_factory_def
      by (intro keeps_intros keeps_job_ops)
        (simp_all add: beyond_jobs_def step_free_def publish_def log_job_event_def Let_def)
    from keepsD [OF this call_submit(1)] False show ?thesis by (simp add: idle_when_paused_def admission_def)
  qed
next
  case (call_pause s out s')
  then show ?case
    by (auto simp: pause_if_idle_def andthen_def guard_def idle_when_paused_def admission_def split: if_splits)
next
  case (call_cancel i s res s')
  then show ?case
    by (auto simp: cancel_job_def andthen_def map_error_def split: prod.splits sum.splits
        dest!: keepsD [OF keeps_admission(5)] intro!: cancel_context_idle)
next
  case (call_start i s b s')
  then show ?case
    by (auto simp: start_run_def split: prod.splits sum.splits
        dest!: keepsD [OF keeps_admission(2)] intro!: forget_run_idle)
next
  case (call_report s i result)
  then show ?case
    by (auto simp: report_target_def split: prod.split sum.split option.split
        dest!: keepsD [OF keeps_admission(3)])
next
  case (call_end s i err)
  then show ?case by (simp add: end_run_def forget_run_idle admission_finish)
next
  case (call_subscribe s n s')
  then show ?case by (metis admission_simps(5) snd_conv)
next
  case (call_resume s)
  then show ?case by (simp add: resume_def idle_when_paused_def admission_def)
qed (auto dest!: keepsD [OF keeps_service_progress])

text \<open>C28: While admission is paused no runner is active, a submission is refused without a trace, and
  so is a second pause; and this is so after any sequence of calls and runner steps.\<close>

theorem paused_means_idle:
  assumes "paused s \<Longrightarrow> cancels s = []" and "service_call\<^sup>*\<^sup>* s s'" and "paused s'"
  shows "cancels s' = [] \<and> submit_factory f kind room world specs s' = (Inl Service_Busy, s') \<and>
    pause_if_idle s' = (Inl Service_Busy, s')"
proof -
  have "idle_when_paused (admission s')"
    using assms(2) by (induction rule: rtranclp_induct)
      (use assms(1) service_call_idle in \<open>auto simp: idle_when_paused_def admission_def\<close>)
  with assms(3) show ?thesis
    by (simp add: idle_when_paused_def admission_def submit_factory_def pause_if_idle_def andthen_def)
qed

section \<open>Witnesses\<close>

definition sample_service :: job_service where
  "sample_service = job_db.extend sample_store
     (job_service.fields False [(''b'', False)] [] 0 [] [] [])"

lemma sample_service_tables: "tables sample_service = tables sample_store" "script sample_service = script sample_store"
  by (simp_all add: sample_service_def job_db.defs job_service.defs tables_def script_def sample_store_def sample_empty_def)

theorem end_run_finishes_witness:
  "\<exists>j. completions (end_run ''b'' (Some ''boom'') sample_service) = [j] \<and> terminal (jb_status j)"
proof -
  have c: "calm sample_service"
    using script_calm [OF sample_service_tables(2)] sample_store_ok(2) by simp
  have t: "jobs sample_service = jobs sample_store" "targets sample_service = targets sample_store"
    using sample_service_tables(1) by (simp_all add: tables_def)
  have d: "distinct (map target_key (targets sample_service))"
    by (simp add: t sample_store_def)
  have f: "find_job ''b'' (jobs sample_service) = Some (sample_row ''b'' Running)"
    by (simp add: t sample_store_def find_job_def sample_row_def new_job_record_def)
  have r: "jr_status (sample_row ''b'' Running) = Running" by (simp add: sample_row_def)
  have "completions sample_service = []"
    by (simp add: sample_service_def job_db.defs job_service.defs)
  with end_run_finishes [OF c d f r, of "Some ''boom''"] show ?thesis by (auto simp: job_from_rows_def Let_def)
qed

theorem paused_means_idle_witness:
  "\<exists>s'. service_call (sample_service\<lparr>cancels := []\<rparr>) s' \<and> paused s' \<and>
     submit_factory True ''k'' [] [] [] s' = (Inl Service_Busy, s')"
proof -
  let ?s = "sample_service\<lparr>cancels := []\<rparr>"
  let ?t = "?s\<lparr>paused := True\<rparr>"
  have "\<not> paused ?s" by (simp add: sample_service_def job_db.defs job_service.defs)
  then have run: "pause_if_idle ?s = (Inr (), ?t)" by (simp add: pause_if_idle_def andthen_def)
  then have call: "service_call ?s ?t" by (rule call_pause)
  have "paused ?t" by simp
  moreover have "service_call\<^sup>*\<^sup>* ?s ?t" using call by simp
  ultimately have "submit_factory True ''k'' [] [] [] ?t = (Inl Service_Busy, ?t)"
    using paused_means_idle [of ?s ?t True "''k''" "[]" "[]" "[]"] \<open>\<not> paused ?s\<close> by simp
  with call \<open>paused ?t\<close> show ?thesis by blast
qed

end
