(* ===== verification/Steam_VDF.thy ===== *)
theory Steam_VDF
  imports Go_Strings Lifecycle
begin

text \<open>
  \<open>internal/steamvdf/keyvalues.go\<close>: reading and writing Valve KeyValues. A Go map is the list of its
  entries in ascending order of their keys, so that two maps are equal when the lists are;
  \<open>Other_Value\<close> stands for a value of any other dynamic type. A text is a Go string, and
  \<open>write_quoted\<close> goes through its runes as the code's \<open>range\<close> loop does: a byte that does not
  begin a rune in UTF-8 is written as U+FFFD.
\<close>

section \<open>Writing\<close>

datatype vdf = Text string | Object "(string \<times> vdf) list" | Other_Value

datatype vdf_error =
    Vdf_Too_Deep
  | Vdf_Empty_Key
  | Vdf_Unsupported
  | Vdf_Bad_Root
  | Vdf_Slash
  | Vdf_Unterminated_Escape
  | Vdf_Unterminated_String
  | Vdf_Unexpected_Byte char
  | Vdf_Too_Many_Tokens
  | Vdf_Trailing
  | Vdf_Unexpected_Close
  | Vdf_Expected_Pair
  | Vdf_Expected_Value
  | Vdf_Unterminated_Object

definition backslash :: char where "backslash = CHR 0x5C"
definition quote :: char where "quote = CHR 0x22"

definition rune_error :: string where
  "rune_error = bytes [0xEF, 0xBF, 0xBD]"

definition escape_byte :: "char \<Rightarrow> string" where
  "escape_byte c =
     (if c = backslash \<or> c = quote then [backslash, c]
      else if c = newline then [backslash, CHR ''n'']
      else if c = tab then [backslash, CHR ''t'']
      else [c])"

function escape_runes :: "string \<Rightarrow> string" where
  "escape_runes [] = []"
| "escape_runes (c # cs) =
     (let w = rune_width (c # cs)
      in if w = 0 then rune_error @ escape_runes cs
         else if w = 1 then escape_byte c @ escape_runes cs
         else take w (c # cs) @ escape_runes (drop (w - 1) cs))"
  by pat_completeness auto
termination by (relation "measure length") (auto simp: less_Suc_eq_le)

definition write_quoted :: "string \<Rightarrow> string" where
  "write_quoted s = [quote] @ escape_runes s @ [quote]"

text \<open>
  \<open>writeObject\<close> on the entries in ascending order of their keys; the first error ends it, whatever
  had been written.
\<close>

fun write_entries :: "nat \<Rightarrow> (string \<times> vdf) list \<Rightarrow> vdf_error + string" where
  "write_entries depth [] = Inr []"
| "write_entries depth ((key, item) # rest) =
     (if key = [] then Inl Vdf_Empty_Key
      else
        let indent = replicate depth tab;
            head = indent @ write_quoted key;
            this =
              (case item of
                 Text s \<Rightarrow> Inr (head @ [tab, tab] @ write_quoted s @ [newline])
               | Object child \<Rightarrow>
                   (if depth + 1 > 64 then Inl Vdf_Too_Deep
                    else case write_entries (depth + 1) child of
                      Inl e \<Rightarrow> Inl e
                    | Inr body \<Rightarrow> Inr (head @ [newline] @ indent @ [CHR 0x7B, newline] @ body @ indent @ [CHR 0x7D, newline]))
               | Other_Value \<Rightarrow> Inl Vdf_Unsupported)
        in case this of
             Inl e \<Rightarrow> Inl e
           | Inr text \<Rightarrow>
               (case write_entries depth rest of Inl e \<Rightarrow> Inl e | Inr others \<Rightarrow> Inr (text @ others)))"

definition vdf_marshal :: "(string \<times> vdf) list \<Rightarrow> vdf_error + string" where
  "vdf_marshal entries = write_entries 0 entries"

section \<open>Tokens\<close>

datatype vdf_token = String_Token string | Open_Token | Close_Token

text \<open>The inside of a quoted string: its text and what follows the closing quote.\<close>

fun read_string :: "string \<Rightarrow> vdf_error + string \<times> string" where
  "read_string [] = Inl Vdf_Unterminated_String"
| "read_string (c # cs) =
     (if c = quote then Inr ([], cs)
      else if c = backslash then
        (case cs of
           [] \<Rightarrow> Inl Vdf_Unterminated_Escape
         | escaped # rest \<Rightarrow>
             (case read_string rest of
                Inl e \<Rightarrow> Inl e
              | Inr (text, after) \<Rightarrow>
                  Inr ((if escaped = CHR ''n'' then newline else if escaped = CHR ''t'' then tab else escaped) # text, after)))
      else
        (case read_string cs of Inl e \<Rightarrow> Inl e | Inr (text, after) \<Rightarrow> Inr (c # text, after)))"

lemma read_string_shorter: "read_string s = Inr (x, after) \<Longrightarrow> length after < length s"
  by (induction s arbitrary: x after rule: read_string.induct)
    (fastforce split: if_splits list.splits sum.splits)+

definition token_limit :: nat where
  "token_limit = 200000"

text \<open>\<open>n\<close> tokens have been read; the limit is tested after each further one.\<close>

function tokenize :: "nat \<Rightarrow> string \<Rightarrow> vdf_error + vdf_token list" where
  "tokenize n [] = Inr []"
| "tokenize n (c # cs) =
     (let emit = (\<lambda>t later. case later of Inl e \<Rightarrow> Inl e | Inr ts \<Rightarrow> Inr (t # ts));
          full = Suc n > token_limit
      in if c = CHR '' '' \<or> c = tab \<or> c = carriage_return \<or> c = newline then tokenize n cs
         else if c = CHR ''/'' then
           (case cs of
              [] \<Rightarrow> Inl Vdf_Slash
            | d # ds \<Rightarrow>
                if d \<noteq> CHR ''/'' then Inl Vdf_Slash else tokenize n (dropWhile (\<lambda>x. x \<noteq> newline) ds))
         else if c = CHR 0x7B then
           (if full then Inl Vdf_Too_Many_Tokens else emit Open_Token (tokenize (Suc n) cs))
         else if c = CHR 0x7D then
           (if full then Inl Vdf_Too_Many_Tokens else emit Close_Token (tokenize (Suc n) cs))
         else if c = quote then
           (case read_string cs of
              Inl e \<Rightarrow> Inl e
            | Inr (text, after) \<Rightarrow>
                if full then Inl Vdf_Too_Many_Tokens
                else emit (String_Token text) (tokenize (Suc n) after))
         else Inl (Vdf_Unexpected_Byte c))"
  by pat_completeness auto
termination
  by (relation "measure (\<lambda>(n, s). length s)")
    (auto dest: read_string_shorter simp: less_Suc_eq_le intro: le_trans [OF length_dropWhile_le] less_imp_le)

section \<open>Parsing\<close>

text \<open>The loop of \<open>parseObject\<close>, with the entries read so far and the tokens left.\<close>

function parse_entries ::
  "nat \<Rightarrow> bool \<Rightarrow> (string \<times> vdf) list \<Rightarrow> vdf_token list \<Rightarrow> vdf_error + (string \<times> vdf) list \<times> vdf_token list" where
  "parse_entries depth nested acc [] = (if nested then Inl Vdf_Unterminated_Object else Inr (acc, []))"
| "parse_entries depth nested acc (t # ts) =
     (case t of
        Close_Token \<Rightarrow> if \<not> nested then Inl Vdf_Unexpected_Close else Inr (acc, ts)
      | Open_Token \<Rightarrow> Inl Vdf_Expected_Pair
      | String_Token key \<Rightarrow>
          (case ts of
             [] \<Rightarrow> Inl Vdf_Expected_Pair
           | u # us \<Rightarrow>
               (case u of
                  String_Token text \<Rightarrow> parse_entries depth nested (put key (Text text) acc) us
                | Open_Token \<Rightarrow>
                    (if depth + 1 > 64 then Inl Vdf_Too_Deep
                     else case parse_entries (depth + 1) True [] us of
                       Inl e \<Rightarrow> Inl e
                     | Inr (child, vs) \<Rightarrow> parse_entries depth nested (put key (Object child) acc) vs)
                | Close_Token \<Rightarrow> Inl Vdf_Expected_Value)))"
  by pat_completeness auto

lemma parse_entries_shorter:
  assumes "parse_entries_dom (depth, nested, acc, ts)"
    and "parse_entries depth nested acc ts = Inr (m, left)"
  shows "length left \<le> length ts"
  using assms
proof (induction arbitrary: m left rule: parse_entries.pinduct)
  case (1 depth nested acc)
  then show ?case by (simp add: parse_entries.psimps split: if_splits)
next
  case (2 depth nested acc t ts)
  show ?case
  proof (cases "\<exists>key us. t = String_Token key \<and> ts = Open_Token # us")
    case True
    then obtain key us where t: "t = String_Token key" "ts = Open_Token # us" by blast
    with 2(1,5) obtain child vs where depth: "\<not> depth + 1 > 64"
      and child: "parse_entries (depth + 1) True [] us = Inr (child, vs)"
      and rest: "parse_entries depth nested (put key (Object child) acc) vs = Inr (m, left)"
      by (auto simp: parse_entries.psimps split: if_splits sum.splits)
    from 2(3) [OF t(1,2) refl depth child] 2(4) [OF t(1,2) refl depth child refl rest]
    show ?thesis using t by simp
  next
    case False
    with 2(1,5) show ?thesis
      by (auto simp: parse_entries.psimps split: vdf_token.splits list.splits if_splits dest!: 2(2))
  qed
qed

termination parse_entries
  by (relation "measure (\<lambda>(depth, nested, acc, ts). length ts)") (auto dest: parse_entries_shorter)

definition vdf_parse :: "string \<Rightarrow> vdf_error + (string \<times> vdf) list" where
  "vdf_parse data =
     (case tokenize 0 data of
        Inl e \<Rightarrow> Inl e
      | Inr tokens \<Rightarrow>
          (case parse_entries 0 False [] tokens of
             Inl e \<Rightarrow> Inl e
           | Inr (m, left) \<Rightarrow> if left \<noteq> [] then Inl Vdf_Trailing else Inr m))"

section \<open>Reading back what was written\<close>

fun vdf_tokens :: "(string \<times> vdf) list \<Rightarrow> vdf_token list" where
  "vdf_tokens [] = []"
| "vdf_tokens ((k, item) # rest) =
     String_Token k #
     (case item of
        Text s \<Rightarrow> [String_Token s]
      | Object child \<Rightarrow> Open_Token # vdf_tokens child @ [Close_Token]
      | Other_Value \<Rightarrow> []) @ vdf_tokens rest"

text \<open>Maps the format can hold: keys in order, none empty, texts in UTF-8, at most 64 levels below.\<close>

fun vdf_ok :: "nat \<Rightarrow> (string \<times> vdf) list \<Rightarrow> bool" where
  "vdf_ok depth [] = True"
| "vdf_ok depth ((k, item) # rest) =
     (k \<noteq> [] \<and> valid_utf8 k \<and> list_all (\<lambda>(k', _). k < k') rest \<and>
      (case item of
         Text s \<Rightarrow> valid_utf8 s
       | Object child \<Rightarrow> depth + 1 \<le> 64 \<and> vdf_ok (depth + 1) child
       | Other_Value \<Rightarrow> False) \<and>
      vdf_ok depth rest)"

definition after_tokens :: "vdf_token list \<Rightarrow> vdf_error + vdf_token list \<Rightarrow> vdf_error + vdf_token list" where
  "after_tokens ts = map_sum id ((@) ts)"

lemma after_tokens_simps [simp]:
  "after_tokens ts (Inl e) = Inl e" "after_tokens ts (Inr us) = Inr (ts @ us)"
  "after_tokens ts (after_tokens us r) = after_tokens (ts @ us) r" "after_tokens [] r = r"
  by (cases r; simp add: after_tokens_def)+

lemmas vdf_chars = quote_def backslash_def control_chars

lemma read_string_plain:
  "\<forall>c \<in> set xs. c \<noteq> quote \<and> c \<noteq> backslash \<Longrightarrow> read_string t = Inr (x, r) \<Longrightarrow>
   read_string (xs @ t) = Inr (xs @ x, r)"
  by (induction xs) auto

lemma high_bytes_plain: "\<forall>i < length xs. 0x80 \<le> (of_char (xs ! i) :: nat) \<Longrightarrow> \<forall>c \<in> set xs. c \<noteq> quote \<and> c \<noteq> backslash"
  by (fastforce simp: in_set_conv_nth vdf_chars)

lemma read_string_escape_byte:
  "read_string t = Inr (x, r) \<Longrightarrow> read_string (escape_byte c @ t) = Inr (c # x, r)"
  by (auto simp: escape_byte_def vdf_chars)

lemma read_string_escaped: "valid_utf8 s \<Longrightarrow> read_string (escape_runes s @ quote # rest) = Inr (s, rest)"
proof (induction s rule: escape_runes.induct)
  case (2 c cs)
  let ?w = "rune_width (c # cs)"
  have w: "?w \<noteq> 0" "valid_utf8 (drop (?w - 1) cs)" using 2(4) by simp_all
  show ?case
  proof (cases "?w = 1")
    case True
    with w have "read_string (escape_runes cs @ quote # rest) = Inr (cs, rest)" using 2(2) [OF refl] by simp
    from read_string_escape_byte [OF this] True show ?thesis by simp
  next
    case False
    have "\<forall>x \<in> set (take ?w (c # cs)). x \<noteq> quote \<and> x \<noteq> backslash"
      by (rule high_bytes_plain) (use rune_width_bytes [OF False] in auto)
    moreover have "read_string (escape_runes (drop (?w - 1) cs) @ quote # rest) = Inr (drop (?w - 1) cs, rest)"
      using 2(3) [OF refl w(1) False] w(2) by blast
    ultimately have "read_string (take ?w (c # cs) @ escape_runes (drop (?w - 1) cs) @ quote # rest) =
        Inr (take ?w (c # cs) @ drop (?w - 1) cs, rest)"
      by (rule read_string_plain)
    moreover have "take ?w (c # cs) @ drop (?w - 1) cs = c # cs" using w(1) by (cases ?w) simp_all
    ultimately show ?thesis using w(1) False by (simp add: Let_def)
  qed
qed simp

lemma tokenize_space [simp]:
  "tokenize n (newline # t) = tokenize n t" "tokenize n (tab # t) = tokenize n t"
  by (simp_all add: Let_def)

lemma tokenize_indent [simp]: "tokenize n (replicate d tab @ t) = tokenize n t"
  by (induction d) simp_all

lemma tokenize_brace:
  "Suc n \<le> token_limit \<Longrightarrow> tokenize n (CHR 0x7B # t) = after_tokens [Open_Token] (tokenize (Suc n) t)"
  "Suc n \<le> token_limit \<Longrightarrow> tokenize n (CHR 0x7D # t) = after_tokens [Close_Token] (tokenize (Suc n) t)"
  by (auto simp: vdf_chars after_tokens_def split: sum.split)

lemma tokenize_quoted:
  "valid_utf8 s \<Longrightarrow> Suc n \<le> token_limit \<Longrightarrow>
   tokenize n (write_quoted s @ t) = after_tokens [String_Token s] (tokenize (Suc n) t)"
  by (auto simp: write_quoted_def read_string_escaped after_tokens_def split: sum.split)
    (simp_all add: vdf_chars)

lemma write_entries_ok:
  "vdf_ok depth es \<Longrightarrow> \<exists>txt. write_entries depth es = Inr txt \<and>
     (\<forall>n rest. n + length (vdf_tokens es) \<le> token_limit \<longrightarrow>
        tokenize n (txt @ rest) = after_tokens (vdf_tokens es) (tokenize (n + length (vdf_tokens es)) rest))"
proof (induction es arbitrary: depth rule: vdf_tokens.induct)
  case (2 key item rest)
  have key: "key \<noteq> []" "valid_utf8 key" using 2(3) by simp_all
  have "vdf_ok depth rest" using 2(3) by simp
  from 2(2) [OF this] obtain later where rest: "write_entries depth rest = Inr later"
    "\<And>n t. n + length (vdf_tokens rest) \<le> token_limit \<Longrightarrow>
       tokenize n (later @ t) = after_tokens (vdf_tokens rest) (tokenize (n + length (vdf_tokens rest)) t)"
    by blast
  show ?case
  proof (cases item)
    case (Text s)
    with 2(3) key rest show ?thesis
      by (simp add: Let_def tokenize_quoted ac_simps del: tokenize.simps)
  next
    case (Object child)
    with 2(3) have "vdf_ok (depth + 1) child" and depth: "depth + 1 \<le> 64" by simp_all
    from 2(1) [OF Object this(1)] obtain body where body: "write_entries (depth + 1) child = Inr body"
      "\<And>n t. n + length (vdf_tokens child) \<le> token_limit \<Longrightarrow>
         tokenize n (body @ t) = after_tokens (vdf_tokens child) (tokenize (n + length (vdf_tokens child)) t)"
      by blast
    with Object depth key rest show ?thesis
      by (simp add: Let_def tokenize_quoted tokenize_brace ac_simps del: tokenize.simps)
  qed (use 2(3) in simp)
qed (simp del: tokenize.simps)

lemma parse_entries_ok:
  "vdf_ok depth es \<Longrightarrow> list_all (\<lambda>(k', _). list_all (\<lambda>(k, _). k' < k) es) acc \<Longrightarrow>
   parse_entries depth nested acc (vdf_tokens es @ left) = parse_entries depth nested (acc @ es) left"
proof (induction es arbitrary: depth nested acc left rule: vdf_tokens.induct)
  case (2 key item rest)
  have here: "put key v acc = acc @ [(key, v)]" for v
    by (rule put_last) (use 2(4) in \<open>auto simp: list_all_iff\<close>)
  have next_ok: "vdf_ok depth rest" and
    below: "list_all (\<lambda>(k', _). list_all (\<lambda>(k, _). k' < k) rest) (acc @ [(key, v)])" for v
    using 2(3,4) by (auto simp: list_all_iff)
  note go_on = 2(2) [OF next_ok below]
  show ?case
  proof (cases item)
    case (Text s)
    with go_on show ?thesis by (simp add: here)
  next
    case (Object child)
    with 2(3) have c: "vdf_ok (depth + 1) child" and depth: "depth + 1 \<le> 64" by simp_all
    have "parse_entries (depth + 1) True [] (vdf_tokens child @ Close_Token # vdf_tokens rest @ left) =
        Inr (child, vdf_tokens rest @ left)"
      by (subst 2(1) [OF Object c]) simp_all
    with Object depth go_on show ?thesis by (simp add: here)
  qed (use 2(3) in simp)
qed simp

text \<open>What the parser returns is a map at every level: keys in ascending order, and no value but texts
  and maps, nested at most 64 deep.\<close>

fun vdf_map :: "nat \<Rightarrow> (string \<times> vdf) list \<Rightarrow> bool" where
  "vdf_map depth [] = True"
| "vdf_map depth ((k, item) # rest) =
     (list_all (\<lambda>(k', _). k < k') rest \<and>
      (case item of
         Text s \<Rightarrow> True
       | Object child \<Rightarrow> depth + 1 \<le> 64 \<and> vdf_map (depth + 1) child
       | Other_Value \<Rightarrow> False) \<and>
      vdf_map depth rest)"

lemma vdf_map_put:
  assumes "vdf_map depth m" and "case v of Text s \<Rightarrow> True | Object c \<Rightarrow> depth + 1 \<le> 64 \<and> vdf_map (depth + 1) c | Other_Value \<Rightarrow> False"
  shows "vdf_map depth (put k v m)"
  using assms
proof (induction k v m rule: put.induct)
  case (2 k v k' v' m)
  have "list_all (\<lambda>(x, _). k' < x) (put k v m)" if "k' < k"
    using that 2(2) keys_put [of k v m] by (force simp: list_all_iff)
  with 2 show ?case by (auto simp: list_all_iff)
qed simp

lemma parse_entries_map:
  "parse_entries depth nested acc ts = Inr (m, left) \<Longrightarrow> vdf_map depth acc \<Longrightarrow> vdf_map depth m"
proof (induction depth nested acc ts arbitrary: m left rule: parse_entries.induct)
  case (2 depth nested acc t ts)
  show ?case
  proof (cases "\<exists>key us. t = String_Token key \<and> ts = Open_Token # us")
    case True
    then obtain key us where t: "t = String_Token key" "ts = Open_Token # us" by blast
    with 2(4) obtain child vs where depth: "\<not> depth + 1 > 64"
      and child: "parse_entries (depth + 1) True [] us = Inr (child, vs)"
      and rest: "parse_entries depth nested (put key (Object child) acc) vs = Inr (m, left)"
      by (auto split: if_splits sum.splits)
    have "vdf_map (depth + 1) child" using 2(2) [OF t refl depth child] by simp
    with 2(3) [OF t refl depth child refl rest] 2(5) depth show ?thesis by (simp add: vdf_map_put)
  next
    case False
    with 2(4,5) show ?thesis
      by (auto split: vdf_token.splits list.splits if_splits intro: vdf_map_put dest!: 2(1))
  qed
qed (simp split: if_splits)

lemma tokenize_bounded: "n \<le> token_limit \<Longrightarrow> tokenize n s = Inr ts \<Longrightarrow> n + length ts \<le> token_limit"
proof (induction "length s" arbitrary: n s ts rule: less_induct)
  case less
  show ?case
  proof (cases s)
    case (Cons c cs)
    have IH: "m + length us \<le> token_limit" if "tokenize m r = Inr us" "length r \<le> length cs" "m \<le> token_limit" for m r us
      using less(1) [of r m us] that Cons by simp
    have str: "length r \<le> length cs" if "read_string cs = Inr (x, r)" for x r
      using read_string_shorter [OF that] by simp
    show ?thesis
      using less(2,3) Cons
      by (auto simp: Let_def not_less_eq_eq split: if_splits list.splits sum.splits
          dest!: IH intro: str le_SucI [OF length_dropWhile_le])
  qed (use less in simp)
qed

section \<open>Properties\<close>

lemma write_then_read:
  assumes "vdf_ok 0 m" and "length (vdf_tokens m) \<le> token_limit"
  shows "\<exists>text. vdf_marshal m = Inr text \<and> vdf_parse text = Inr m"
proof -
  from write_entries_ok [OF assms(1)] obtain out where w: "write_entries 0 m = Inr out"
    and tok: "tokenize 0 (out @ []) = after_tokens (vdf_tokens m) (tokenize (length (vdf_tokens m)) [])"
    using assms(2) by (metis add_0)
  have "parse_entries 0 False [] (vdf_tokens m @ []) = Inr (m, [])"
    by (subst parse_entries_ok [OF assms(1)]) simp_all
  with w tok show ?thesis by (simp add: vdf_marshal_def vdf_parse_def)
qed

interpretation vdf_codec: codec vdf_marshal vdf_parse "\<lambda>m. vdf_ok 0 m \<and> length (vdf_tokens m) \<le> token_limit"
  by unfold_locales (blast intro: write_then_read)

text \<open>C29: Every map the format can hold, up to the token limit, is written without an error, and reading the
  text gives the map back; so different maps are written differently.\<close>

theorem vdf_round_trip:
  assumes "vdf_ok 0 m" and "length (vdf_tokens m) \<le> token_limit"
  shows "(\<exists>text. vdf_marshal m = Inr text \<and> vdf_parse text = Inr m) \<and>
    (\<forall>m'. vdf_ok 0 m' \<and> length (vdf_tokens m') \<le> token_limit \<and> vdf_marshal m' = vdf_marshal m \<longrightarrow> m' = m)"
  using assms vdf_codec.decodes vdf_codec.enc_injective by blast

text \<open>C30: Whatever bytes are read, a result is a map at every level, with texts and maps for values, at most
  64 levels deep, built from at most 200000 tokens.\<close>

theorem vdf_parse_typed:
  assumes "vdf_parse data = Inr m"
  shows "vdf_map 0 m \<and> (\<exists>tokens. tokenize 0 data = Inr tokens \<and> length tokens \<le> 200000)"
proof -
  from assms obtain tokens where tok: "tokenize 0 data = Inr tokens" and "parse_entries 0 False [] tokens = Inr (m, [])"
    by (auto simp: vdf_parse_def split: sum.splits prod.splits if_splits)
  then have "vdf_map 0 m" by (auto dest: parse_entries_map)
  moreover have "length tokens \<le> 200000"
    using tokenize_bounded [OF _ tok] by (simp add: token_limit_def)
  ultimately show ?thesis using tok by blast
qed

section \<open>Witnesses\<close>

definition sample_vdf :: "(string \<times> vdf) list" where
  "sample_vdf = [(''app'', Object [(''buildid'', Text ''12 \"x\"''), (''name'', Text [CHR ''d'', newline, CHR 0xC3, CHR 0xA9])]), (''z'', Text [])]"

theorem vdf_round_trip_witness:
  "\<exists>text. vdf_marshal sample_vdf = Inr text \<and> vdf_parse text = Inr sample_vdf"
proof -
  have "vdf_ok 0 sample_vdf" by code_simp
  moreover have "length (vdf_tokens sample_vdf) \<le> token_limit" by (simp add: sample_vdf_def token_limit_def)
  ultimately show ?thesis using vdf_round_trip by blast
qed

theorem vdf_parse_typed_witness:
  "vdf_parse ''\"b\" { } // c\"a\" \"1\"'' = Inr [(''b'', Object [])] \<and> vdf_map 0 [(''b'', Object [])]"
proof -
  have "vdf_parse ''\"b\" { } // c\"a\" \"1\"'' = Inr [(''b'', Object [])]"
    by (simp add: vdf_parse_def vdf_chars Let_def token_limit_def)
  with vdf_parse_typed show ?thesis by blast
qed

end
