(* ===== verification/Go_Encoding.thy ===== *)
theory Go_Encoding
  imports Go_Strings "HOL-Library.Word"
begin

text \<open>
  The parts of Go's \<open>encoding/hex\<close>, \<open>crypto/sha256\<close>, \<open>encoding/json\<close> and \<open>time\<close> the modelled code
  uses: digests of strings, JSON texts, and times, which are nanoseconds since the Unix epoch in UTC.
\<close>

unbundle bit_operations_syntax

section \<open>Hexadecimal\<close>

definition hex_digit :: "nat \<Rightarrow> char" where
  "hex_digit n = ''0123456789abcdef'' ! n"

definition is_hex :: "char \<Rightarrow> bool" where
  "is_hex c = (let n = (of_char c :: nat) in 48 \<le> n \<and> n \<le> 57 \<or> 65 \<le> n \<and> n \<le> 70 \<or> 97 \<le> n \<and> n \<le> 102)"

text \<open>\<open>hex.DecodeString\<close> succeeds on an even number of hexadecimal digits.\<close>

definition hex_decodes :: "string \<Rightarrow> bool" where
  "hex_decodes s \<longleftrightarrow> even (length s) \<and> list_all is_hex s"

section \<open>SHA-256\<close>

text \<open>The constants of FIPS 180-4, in decimal.\<close>

definition sha_constants :: "32 word list" where
  "sha_constants =
     [1116352408, 1899447441, 3049323471, 3921009573, 961987163, 1508970993, 2453635748, 2870763221,
      3624381080, 310598401, 607225278, 1426881987, 1925078388, 2162078206, 2614888103, 3248222580,
      3835390401, 4022224774, 264347078, 604807628, 770255983, 1249150122, 1555081692, 1996064986,
      2554220882, 2821834349, 2952996808, 3210313671, 3336571891, 3584528711, 113926993, 338241895,
      666307205, 773529912, 1294757372, 1396182291, 1695183700, 1986661051, 2177026350, 2456956037,
      2730485921, 2820302411, 3259730800, 3345764771, 3516065817, 3600352804, 4094571909, 275423344,
      430227734, 506948616, 659060556, 883997877, 958139571, 1322822218, 1537002063, 1747873779,
      1955562222, 2024104815, 2227730452, 2361852424, 2428436474, 2756734187, 3204031479, 3329325298]"

definition sha_initial :: "32 word list" where
  "sha_initial =
     [1779033703, 3144134277, 1013904242, 2773480762, 1359893119, 2600822924, 528734635, 1541459225]"

definition rotate_right :: "nat \<Rightarrow> 32 word \<Rightarrow> 32 word" where
  "rotate_right n w = drop_bit n w OR push_bit (32 - n) w"

definition sha_pad :: "nat list \<Rightarrow> nat list" where
  "sha_pad m =
     (let bits = 8 * length m
      in m @ [0x80] @ replicate ((119 - length m mod 64) mod 64) 0 @
         map (\<lambda>i. (bits div 256 ^ (7 - i)) mod 256) [0 ..< 8])"

definition word_at :: "nat list \<Rightarrow> nat \<Rightarrow> 32 word" where
  "word_at m i = of_nat (m ! i * 0x1000000 + m ! (i + 1) * 0x10000 + m ! (i + 2) * 0x100 + m ! (i + 3))"

fun sha_schedule :: "nat \<Rightarrow> 32 word list \<Rightarrow> 32 word list" where
  "sha_schedule 0 w = w"
| "sha_schedule (Suc n) w =
     (let t = length w; a = w ! (t - 15); b = w ! (t - 2);
          s0 = rotate_right 7 a XOR rotate_right 18 a XOR drop_bit 3 a;
          s1 = rotate_right 17 b XOR rotate_right 19 b XOR drop_bit 10 b
      in sha_schedule n (w @ [w ! (t - 16) + s0 + w ! (t - 7) + s1]))"

definition sha_round :: "32 word \<times> 32 word \<Rightarrow> 32 word list \<Rightarrow> 32 word list" where
  "sha_round kw v =
     (case v of
        [a, b, c, d, e, f, g, h] \<Rightarrow>
          let s1 = rotate_right 6 e XOR rotate_right 11 e XOR rotate_right 25 e;
              ch = (e AND f) XOR (NOT e AND g);
              t1 = h + s1 + ch + fst kw + snd kw;
              s0 = rotate_right 2 a XOR rotate_right 13 a XOR rotate_right 22 a;
              maj = (a AND b) XOR (a AND c) XOR (b AND c)
          in [t1 + s0 + maj, a, b, c, d + t1, e, f, g]
      | _ \<Rightarrow> v)"

definition sha_block :: "nat list \<Rightarrow> 32 word list \<Rightarrow> 32 word list" where
  "sha_block m h =
     map2 (+) h (fold sha_round
       (zip sha_constants (sha_schedule 48 (map (\<lambda>i. word_at m (4 * i)) [0 ..< 16]))) h)"

fun sha_blocks :: "nat \<Rightarrow> nat list \<Rightarrow> 32 word list \<Rightarrow> 32 word list" where
  "sha_blocks 0 m h = h"
| "sha_blocks (Suc n) m h = sha_blocks n (drop 64 m) (sha_block (take 64 m) h)"

definition hex_word :: "32 word \<Rightarrow> string" where
  "hex_word w = map (\<lambda>i. hex_digit (unat (drop_bit (28 - 4 * i) w AND 0xF))) [0 ..< 8]"

text \<open>\<open>hex.EncodeToString(sha256.Sum256(s))\<close>.\<close>

definition hash_bytes :: "string \<Rightarrow> string" where
  "hash_bytes s =
     (let m = sha_pad (map of_char s)
      in concat (map hex_word (sha_blocks (length m div 64) m sha_initial)))"

text \<open>Whatever was hashed, a digest is 64 lower-case hexadecimal digits.\<close>

lemma length_sha_round [simp]: "length (sha_round kw v) = length v"
  by (auto simp: sha_round_def Let_def split: list.splits)

lemma length_sha_rounds [simp]: "length (fold sha_round kws v) = length v"
  by (induction kws arbitrary: v) simp_all

lemma length_sha_blocks [simp]: "length (sha_blocks n m h) = length h"
  by (induction n arbitrary: m h) (simp_all add: sha_block_def)

lemma length_hash_bytes [simp]: "length (hash_bytes s) = 64"
  by (simp add: hash_bytes_def Let_def length_concat hex_word_def sha_initial_def comp_def sum_list_triv)

lemma hex_digit_props:
  assumes "n < 16"
  shows "is_hex (hex_digit n)" and "lower_char (hex_digit n) = hex_digit n" and "hex_digit n \<noteq> nul"
proof -
  have "hex_digit n \<in> set ''0123456789abcdef''"
    unfolding hex_digit_def by (rule nth_mem) (use assms in simp)
  then show "is_hex (hex_digit n)" and "lower_char (hex_digit n) = hex_digit n" and "hex_digit n \<noteq> nul"
    by (auto simp: is_hex_def lower_char_def Let_def control_chars)
qed

lemma low_nibble: "unat (w AND 0xF :: 32 word) < 16"
proof -
  have "(0xF :: 32 word) = mask 4" by (simp add: mask_eq_exp_minus_1)
  then have "unat (w AND 0xF) = take_bit 4 (unat w)"
    by (simp only: unsigned_take_bit_eq flip: take_bit_eq_mask)
  then show ?thesis by (simp add: take_bit_eq_mod)
qed

lemma hash_bytes_digits:
  assumes "c \<in> set (hash_bytes s)"
  shows "is_hex c" and "lower_char c = c" and "c \<noteq> nul"
proof -
  from assms obtain w where "c \<in> set (hex_word w)" unfolding hash_bytes_def Let_def by auto
  then obtain i where "c = hex_digit (unat (drop_bit (28 - 4 * i) w AND 0xF))" unfolding hex_word_def by auto
  with hex_digit_props [OF low_nibble] show "is_hex c" and "lower_char c = c" and "c \<noteq> nul" by simp_all
qed

section \<open>JSON\<close>

text \<open>
  \<open>json.Marshal\<close> of a string: the control characters, the quotation mark, the backslash and the
  characters HTML gives a meaning are escaped, U+2028 and U+2029 too, and a byte that begins no
  rune becomes U+FFFD.
\<close>

definition json_byte :: "char \<Rightarrow> string" where
  "json_byte c =
     (let n = (of_char c :: nat); esc = (\<lambda>x. [CHR 0x5C, x])
      in if c = CHR 0x22 \<or> c = CHR 0x5C then esc c
         else if n = 8 then esc (CHR ''b'')
         else if n = 12 then esc (CHR ''f'')
         else if n = 10 then esc (CHR ''n'')
         else if n = 13 then esc (CHR ''r'')
         else if n = 9 then esc (CHR ''t'')
         else if n < 32 \<or> c = CHR ''<'' \<or> c = CHR ''>'' \<or> c = CHR ''&''
           then esc (CHR ''u'') @ ''00'' @ [hex_digit (n div 16), hex_digit (n mod 16)]
         else [c])"

function json_runes :: "string \<Rightarrow> string" where
  "json_runes [] = []"
| "json_runes (c # cs) =
     (let w = rune_width (c # cs); rune = take w (c # cs)
      in if w = 0 then [CHR 0x5C] @ ''ufffd'' @ json_runes cs
         else if w = 1 then json_byte c @ json_runes cs
         else
           (if rune = bytes [0xE2, 0x80, 0xA8] then [CHR 0x5C] @ ''u2028''
            else if rune = bytes [0xE2, 0x80, 0xA9] then [CHR 0x5C] @ ''u2029''
            else rune) @ json_runes (drop (w - 1) cs))"
  by pat_completeness auto
termination by (relation "measure length") (auto simp: less_Suc_eq_le)

definition json_string :: "string \<Rightarrow> string" where
  "json_string s = [CHR 0x22] @ json_runes s @ [CHR 0x22]"

definition json_int :: "int \<Rightarrow> string" where
  "json_int n = (if n < 0 then ''-'' @ decimal (nat (- n)) else decimal (nat n))"

fun json_items :: "string list \<Rightarrow> string" where
  "json_items [] = []"
| "json_items [v] = v"
| "json_items (v # vs) = v @ '','' @ json_items vs"

text \<open>A slice, where the empty one of the modelled code is nil, and a struct.\<close>

text \<open>All the texts of a slice, if none is an error.\<close>

fun all_some :: "'a option list \<Rightarrow> 'a list option" where
  "all_some [] = Some []"
| "all_some (None # xs) = None"
| "all_some (Some x # xs) = map_option ((#) x) (all_some xs)"

definition json_slice :: "string list \<Rightarrow> string" where
  "json_slice vs = (if vs = [] then ''null'' else ''['' @ json_items vs @ '']'')"

definition json_struct :: "(string \<times> string) list \<Rightarrow> string" where
  "json_struct kvs = [CHR 0x7B] @ json_items (map (\<lambda>(k, v). json_string k @ '':'' @ v) kvs) @ [CHR 0x7D]"

section \<open>Times\<close>

definition zero_time :: int where
  "zero_time = - 62135596800000000000"

definition civil_date :: "int \<Rightarrow> int \<times> int \<times> int" where
  "civil_date days =
     (let z = days + 719468; era = z div 146097; doe = z mod 146097;
          yoe = (doe - doe div 1460 + doe div 36524 - doe div 146096) div 365;
          doy = doe - (365 * yoe + yoe div 4 - yoe div 100);
          mp = (5 * doy + 2) div 153;
          d = doy - (153 * mp + 2) div 5 + 1;
          m = (if mp < 10 then mp + 3 else mp - 9)
      in (yoe + era * 400 + (if m \<le> 2 then 1 else 0), m, d))"

definition digits :: "nat \<Rightarrow> int \<Rightarrow> string" where
  "digits width n = (let d = decimal (nat n) in replicate (width - length d) CHR ''0'' @ d)"

text \<open>\<open>time.Time.MarshalJSON\<close> in UTC: RFC 3339 with the nanoseconds that are not trailing zeros; a year
  outside four digits is an error.\<close>

definition json_time :: "int \<Rightarrow> string option" where
  "json_time t =
     (let (y, m, d) = civil_date (t div 86400000000000);
          second = t div 1000000000 mod 86400; nanos = t mod 1000000000;
          fraction = (if nanos = 0 then []
                      else ''.'' @ rev (dropWhile (\<lambda>c. c = CHR ''0'') (rev (digits 9 nanos))))
      in if y < 0 \<or> y > 9999 then None
         else Some ([CHR 0x22] @ digits 4 y @ ''-'' @ digits 2 m @ ''-'' @ digits 2 d @ ''T'' @
                digits 2 (second div 3600) @ '':'' @ digits 2 (second div 60 mod 60) @ '':'' @ digits 2 (second mod 60) @
                fraction @ ''Z'' @ [CHR 0x22]))"

end
