(* ===== verification/Mod_Types.thy ===== *)
theory Mod_Types
  imports Operation_Lease Job_Store Go_Encoding
begin

text \<open>
  The data of \<open>internal/modpublication\<close>: \<open>types.go\<close>, its errors and their texts. A time is a number of
  nanoseconds (\<open>Go_Encoding\<close>), \<open>None\<close> where the code has a nil pointer; a size is an \<open>int64\<close>, written
  as an integer whose range the code's own checks keep.
\<close>

section \<open>Errors\<close>

datatype cause =
    Invalid_Input
  | Pub_Not_Found
  | Pub_Conflict
  | Idempotency_Conflict
  | Topology_Changed
  | Plan_Changed
  | Version_Conflict string
  | Preview_Blocked
  | Recovery_Required
  | Activation_Failed
  | Activation_State
  | Lease_Failed lease_error
  | Call_Failed string
  | Other_Failure string

text \<open>An error is what \<open>errors.Join\<close> joined; \<open>errors.Is\<close> is membership. \<open>Call_Failed\<close> is an error of the
  database or of a remote call, with its text.\<close>

type_synonym errs = "cause list"

fun lease_text :: "lease_error \<Rightarrow> string" where
  "lease_text Lease_Busy = ''room operation lease is held by another operation''"
| "lease_text Lease_InvalidInput = ''room operation lease input is invalid''"
| "lease_text Lease_Lost = ''room operation lease is no longer current''"
| "lease_text Lease_Canceled = ''context canceled''"
| "lease_text Lease_DB = ''database error''"

fun cause_text :: "cause \<Rightarrow> string" where
  "cause_text Invalid_Input = ''mod publication input is invalid''"
| "cause_text Pub_Not_Found = ''mod publication not found''"
| "cause_text Pub_Conflict = ''mod publication conflicts with active state''"
| "cause_text Idempotency_Conflict = ''mod publication idempotency key conflicts with another plan''"
| "cause_text Topology_Changed = ''mod publication topology changed''"
| "cause_text Plan_Changed = ''mod publication plan changed''"
| "cause_text (Version_Conflict detail) = ''one installation requires multiple versions of the same Workshop item'' @ detail"
| "cause_text Preview_Blocked = ''mod publication preview contains blocking issues''"
| "cause_text Recovery_Required = ''mod publication requires recovery''"
| "cause_text Activation_Failed = ''mod publication activation failed''"
| "cause_text Activation_State = ''mod publication cannot be activated from its current state''"
| "cause_text (Lease_Failed e) = lease_text e"
| "cause_text (Call_Failed t) = t"
| "cause_text (Other_Failure t) = t"

text \<open>\<open>Error()\<close> of a joined error: the texts on lines of their own.\<close>

fun errs_text :: "errs \<Rightarrow> string" where
  "errs_text [] = []"
| "errs_text [e] = cause_text e"
| "errs_text (e # es) = cause_text e @ [newline] @ errs_text es"

section \<open>Statuses\<close>

text \<open>\<open>Pub_Unset\<close> is the zero value of the status, which no check accepts.\<close>

datatype pub_status =
    Pub_Unset
  | Pub_Previewed
  | Pub_Preparing
  | Pub_Prepared
  | Pub_Publishing
  | Pub_Committed
  | Pub_Completing
  | Pub_Succeeded
  | Pub_Failed
  | Pub_RolledBack
  | Pub_RecoveryRequired

datatype pub_outcome = Out_Unset | Out_Full | Out_Partial | Out_None

datatype activation_mode = Mode_Unset | Mode_Manual | Mode_Restart

datatype load_confirmation = Confirm_Unset | Confirm_None | Confirm_Logs

datatype activation_status =
    Act_Unset
  | Act_Skipped
  | Act_Pending
  | Act_Restarting
  | Act_Confirming
  | Act_Succeeded
  | Act_Failed

section \<open>Plans\<close>

record activation_policy =
  ap_mode :: activation_mode
  ap_confirm :: load_confirmation
  ap_timeout :: int

record log_cursor =
  lc_file :: string
  lc_cursor :: int

record shard_observation =
  so_mode :: performance_mode
  so_state :: string
  so_session :: bool

record shard_logs =
  sl_cursor :: log_cursor
  sl_lines :: "string list"

record shard_result =
  sr_mode :: performance_mode
  sr_room :: string
  sr_world :: string
  sr_target :: string
  sr_installation :: string
  sr_status :: activation_status
  sr_was_running :: bool
  sr_state :: string
  sr_marker :: string
  sr_code :: string
  sr_message :: string
  sr_restarted :: "int option"
  sr_confirmed :: "int option"
  sr_updated :: int

record activation =
  ac_policy :: activation_policy
  ac_status :: activation_status
  ac_code :: string
  ac_message :: string
  ac_shards :: "shard_result list"
  ac_requested :: "int option"
  ac_finished :: "int option"

record blocker =
  bl_code :: string
  bl_message :: string
  bl_target :: string
  bl_installation :: string

record mod_requirement =
  mq_workshop :: string
  mq_tree :: string

record content_artifact =
  af_workshop :: string
  af_tree :: string
  af_manifest :: string
  af_size :: int
  af_files :: int
  af_source :: string
  af_steam_manifest :: string
  af_steam_updated :: int

record managed_world =
  mw_room :: string
  mw_room_dir :: string
  mw_world :: string
  mw_world_dir :: string
  mw_master :: bool
  mw_mods :: "mod_requirement list"
  mw_overrides :: string

record applied_placement =
  pl_room :: string
  pl_world :: string
  pl_target :: string
  pl_node :: string
  pl_installation :: string

record placement_snapshot =
  ps_revision :: string
  ps_placements :: "applied_placement list"

text \<open>The cached trees are those a map sends to true; \<open>None\<close> is the nil map.\<close>

record runtime_observation =
  ob_target :: string
  ob_node :: string
  ob_installation :: string
  ob_online :: bool
  ob_caps :: "string list"
  ob_available :: int
  ob_version :: string
  ob_cached :: "string list option"

record world_plan =
  wp_room :: string
  wp_room_dir :: string
  wp_world :: string
  wp_world_dir :: string
  wp_master :: bool
  wp_mods :: "content_artifact list"
  wp_overrides :: string

record target_plan =
  tg_target :: string
  tg_node :: string
  tg_installation :: string
  tg_online :: bool
  tg_caps :: "string list"
  tg_version :: string
  tg_minimum :: string
  tg_available :: int
  tg_required :: int
  tg_mods :: "content_artifact list"
  tg_worlds :: "world_plan list"
  tg_blockers :: "blocker list"

record mod_plan =
  pn_version :: int
  pn_room :: string
  pn_revision :: string
  pn_hash :: string
  pn_rooms :: "string list"
  pn_targets :: "target_plan list"
  pn_blockers :: "blocker list"
  pn_ready :: bool
  pn_restart :: bool
  pn_created :: int

section \<open>Publications\<close>

record pub_target =
  pt_target :: string
  pt_installation :: string
  pt_status :: pub_status
  pt_cached :: bool
  pt_prepared :: bool
  pt_published :: bool
  pt_completed :: bool
  pt_rolled :: bool
  pt_code :: string
  pt_message :: string
  pt_prepared_at :: "int option"
  pt_published_at :: "int option"
  pt_completed_at :: "int option"
  pt_rolled_at :: "int option"
  pt_updated :: int

record fence =
  fc_room :: string
  fc_lease :: string
  fc_key :: string
  fc_token :: "64 word"
  fc_expires :: int

record publication =
  pb_id :: string
  pb_source :: string
  pb_room :: string
  pb_status :: pub_status
  pb_outcome :: pub_outcome
  pb_plan :: mod_plan
  pb_backups :: "string list"
  pb_fences :: "fence list"
  pb_decision :: bool
  pb_restart :: bool
  pb_activation :: activation
  pb_code :: string
  pb_message :: string
  pb_targets :: "pub_target list"
  pb_decided_at :: "int option"
  pb_created :: int
  pb_updated :: int
  pb_finished :: "int option"

record publish_request =
  rq_id :: string
  rq_source :: string
  rq_plan :: mod_plan
  rq_activation :: activation_policy
  rq_borrowed :: "fence list"
  rq_skip_backup :: bool

text \<open>What a remote call is told; the callback that renews its fences is left out.\<close>

record runtime_operation =
  ro_mode :: performance_mode
  ro_publication :: string
  ro_revision :: string
  ro_hash :: string
  ro_fences :: "fence list"
  ro_action :: string
  ro_key :: string

end
