(* ===== verification/Mod_Plan.thy ===== *)
theory Mod_Plan
  imports Mod_Types
begin

text \<open>
  The pure part of \<open>internal/modpublication/planner.go\<close>: identifiers, versions, the canonical hash of a
  plan and \<open>validatePlan\<close>, which every stored or submitted plan must pass. \<open>plan_check\<close> follows the
  code's loops and their maps; the lemmas say what a plan that passes it is.
\<close>

section \<open>Identifiers and keys\<close>

definition valid_id :: "string \<Rightarrow> bool" where
  "valid_id v \<longleftrightarrow> v \<noteq> [] \<and> v = trim_space v \<and> length v \<le> 128 \<and> \<not> contains_any v [nul, carriage_return, newline]"

definition safe_component :: "string \<Rightarrow> bool" where
  "safe_component v \<longleftrightarrow> valid_id v \<and> v \<noteq> ''.'' \<and> v \<noteq> ''..'' \<and> \<not> contains_any v [CHR ''/'', CHR 0x5C]"

definition valid_workshop_id :: "string \<Rightarrow> bool" where
  "valid_workshop_id v \<longleftrightarrow> \<not> (v = [] \<or> hd v = CHR ''0'' \<or> length v > 20) \<and> list_all is_digit v"

definition valid_sha :: "string \<Rightarrow> bool" where
  "valid_sha v \<longleftrightarrow> length v = 64 \<and> hex_decodes v"

definition normalized_strings :: "string list \<Rightarrow> string list" where
  "normalized_strings vs = sort (remdups (filter (\<lambda>v. v \<noteq> []) (map trim_space vs)))"

text \<open>\<open>sort.Search\<close> on \<open>[i, j)\<close>: the least index whose value is not below the one sought.\<close>

function search_strings :: "string list \<Rightarrow> string \<Rightarrow> nat \<Rightarrow> nat \<Rightarrow> nat" where
  "search_strings vs x i j =
     (if i < j then
        (let h = (i + j) div 2
         in if vs ! h < x then search_strings vs x (h + 1) j else search_strings vs x i h)
      else i)"
  by pat_completeness auto
termination by (relation "measure (\<lambda>(vs, x, i, j). j - i)") auto

declare search_strings.simps [simp del]

definition contains :: "string list \<Rightarrow> string \<Rightarrow> bool" where
  "contains vs expected =
     (let index = search_strings vs expected 0 (length vs) in index < length vs \<and> vs ! index = expected)"

definition pair_key :: "string \<Rightarrow> string \<Rightarrow> string" where
  "pair_key a b = a @ [nul] @ b"

definition world_key :: "string \<Rightarrow> string \<Rightarrow> string" where
  "world_key room world = pair_key room world"

definition installation_key :: "applied_placement \<Rightarrow> string" where
  "installation_key p = pair_key (pl_target p) (pl_installation p)"

definition target_plan_key :: "target_plan \<Rightarrow> string" where
  "target_plan_key t = pair_key (tg_target t) (tg_installation t)"

section \<open>Versions\<close>

text \<open>\<open>strings.SplitN(s, sep, n)\<close>: at most \<open>n\<close> parts, the last one unsplit.\<close>

fun split_n :: "nat \<Rightarrow> char \<Rightarrow> string \<Rightarrow> string list" where
  "split_n (Suc (Suc n)) sep s =
     (case dropWhile (\<lambda>c. c \<noteq> sep) s of
        [] \<Rightarrow> [s]
      | _ # rest \<Rightarrow> takeWhile (\<lambda>c. c \<noteq> sep) s # split_n (Suc n) sep rest)"
| "split_n _ sep s = [s]"

text \<open>\<open>strconv.Atoi\<close> of a text without sign.\<close>

definition atoi :: "string \<Rightarrow> int option" where
  "atoi s =
     (if s \<noteq> [] \<and> list_all is_digit s \<and> int (digit_value s) \<le> 9223372036854775807
      then Some (int (digit_value s)) else None)"

fun version_parts :: "string list \<Rightarrow> int list option" where
  "version_parts [] = Some []"
| "version_parts (p # ps) =
     (case atoi (takeWhile (\<lambda>c. c \<noteq> CHR ''-'' \<and> c \<noteq> CHR ''+'') p) of
        None \<Rightarrow> None
      | Some n \<Rightarrow> map_option ((#) n) (version_parts ps))"

definition parse_version :: "string \<Rightarrow> (int \<times> int \<times> int) option" where
  "parse_version v =
     (let t = trim_space v;
          parts = split_n 4 (CHR ''.'') (if has_prefix t ''v'' then drop 1 t else t)
      in if length parts < 2 then None
         else case version_parts (take 3 parts) of
           None \<Rightarrow> None
         | Some ns \<Rightarrow> Some (ns ! 0, ns ! 1, if length ns > 2 then ns ! 2 else 0))"

definition version_less :: "string \<Rightarrow> string \<Rightarrow> bool" where
  "version_less current minimum =
     (case (parse_version current, parse_version minimum) of
        (Some (a, b, c), Some (x, y, z)) \<Rightarrow>
          if a \<noteq> x then a < x else if b \<noteq> y then b < y else if c \<noteq> z then c < z else False
      | _ \<Rightarrow> True)"

section \<open>The canonical hash\<close>

definition sort_artifacts :: "content_artifact list \<Rightarrow> content_artifact list" where
  "sort_artifacts vs = sort_key (\<lambda>a. (af_workshop a, af_tree a)) vs"

definition artifact_json :: "content_artifact \<Rightarrow> string option" where
  "artifact_json a =
     (case json_time (af_steam_updated a) of
        None \<Rightarrow> None
      | Some updated \<Rightarrow> Some (json_struct
          ([(''workshopId'', json_string (af_workshop a)), (''treeSha256'', json_string (af_tree a)),
            (''manifestSha256'', json_string (af_manifest a)), (''size'', json_int (af_size a)),
            (''fileCount'', json_int (af_files a)), (''sourceRef'', json_string (af_source a))] @
           (if af_steam_manifest a = [] then [] else [(''steamManifestId'', json_string (af_steam_manifest a))]) @
           [(''steamUpdatedAt'', updated)])))"

definition artifacts_json :: "content_artifact list \<Rightarrow> string option" where
  "artifacts_json vs = map_option json_slice (all_some (map artifact_json (sort_artifacts vs)))"

definition world_json :: "world_plan \<Rightarrow> string option" where
  "world_json w =
     (case artifacts_json (wp_mods w) of
        None \<Rightarrow> None
      | Some mods \<Rightarrow> Some (json_struct
          [(''RoomID'', json_string (wp_room w)), (''RoomDirectory'', json_string (wp_room_dir w)),
           (''WorldID'', json_string (wp_world w)), (''WorldDirectory'', json_string (wp_world_dir w)),
           (''ConfigSHA256'', json_string (hash_bytes (wp_overrides w))), (''Mods'', mods)]))"

definition target_json :: "target_plan \<Rightarrow> string option" where
  "target_json t =
     (case (artifacts_json (tg_mods t), all_some (map world_json (tg_worlds t))) of
        (Some mods, Some worlds) \<Rightarrow> Some (json_struct
          [(''TargetID'', json_string (tg_target t)), (''NodeID'', json_string (tg_node t)),
           (''InstallationID'', json_string (tg_installation t)), (''Mods'', mods), (''Worlds'', json_slice worlds)])
      | _ \<Rightarrow> None)"

text \<open>The error of \<open>json.Marshal\<close>, a time out of range, is \<open>None\<close>; \<open>plan_check\<close> leaves its text out of the joined error.\<close>

definition calculate_plan_hash :: "mod_plan \<Rightarrow> string option" where
  "calculate_plan_hash p =
     (case all_some (map target_json (pn_targets p)) of
        None \<Rightarrow> None
      | Some ts \<Rightarrow> Some (hash_bytes (json_struct
          [(''Version'', json_int (pn_version p)), (''RoomID'', json_string (pn_room p)),
           (''TopologyRevision'', json_string (pn_revision p)),
           (''AffectedRoomIDs'', json_slice (map json_string (pn_rooms p))), (''Targets'', json_slice ts)])))"

section \<open>Checks\<close>

definition stored_artifact_ok :: "content_artifact \<Rightarrow> bool" where
  "stored_artifact_ok a \<longleftrightarrow>
     \<not> (\<not> valid_workshop_id (af_workshop a) \<or> \<not> valid_sha (af_tree a) \<or> \<not> valid_sha (af_manifest a) \<or>
        af_size a < 0 \<or> af_files a < 0 \<or> trim_space (af_source a) = [] \<or>
        af_steam_manifest a \<noteq> [] \<and> \<not> valid_workshop_id (af_steam_manifest a))"

definition blocker_key :: "blocker \<Rightarrow> string" where
  "blocker_key b = bl_target b @ [nul] @ bl_installation b @ [nul] @ bl_code b"

definition sort_blockers :: "blocker list \<Rightarrow> blocker list" where
  "sort_blockers vs = sort_key blocker_key vs"

text \<open>The union of a target's mods, by Workshop item.\<close>

fun union_check :: "content_artifact list \<Rightarrow> (string \<times> string) list \<Rightarrow> errs + (string \<times> string) list" where
  "union_check [] trees = Inr trees"
| "union_check (a # as) trees =
     (if \<not> stored_artifact_ok a then Inl [Invalid_Input]
      else if map_of trees (af_workshop a) \<noteq> None then Inl [Version_Conflict []]
      else union_check as (put (af_workshop a) (af_tree a) trees))"

fun world_mods_check ::
  "content_artifact list \<Rightarrow> string list \<Rightarrow> (string \<times> string) list \<Rightarrow> errs + (string \<times> string) list" where
  "world_mods_check [] seen desired = Inr desired"
| "world_mods_check (a # as) seen desired =
     (if \<not> stored_artifact_ok a then Inl [Invalid_Input, Invalid_Input]
      else if af_workshop a \<in> set seen then Inl [Invalid_Input]
      else if map_of desired (af_workshop a) \<notin> {None, Some (af_tree a)} then Inl [Version_Conflict []]
      else world_mods_check as (af_workshop a # seen) (put (af_workshop a) (af_tree a) desired))"

definition world_ok :: "world_plan \<Rightarrow> bool" where
  "world_ok w \<longleftrightarrow>
     \<not> (\<not> valid_id (wp_room w) \<or> \<not> safe_component (wp_room_dir w) \<or> \<not> valid_id (wp_world w) \<or>
        \<not> safe_component (wp_world_dir w) \<or> length (wp_overrides w) > 8388608 \<or> nul \<in> set (wp_overrides w))"

text \<open>The state of the loops: the world keys and the rooms seen so far, and the desired mods of the target.\<close>

fun worlds_check ::
  "world_plan list \<Rightarrow> string list \<Rightarrow> string list \<Rightarrow> (string \<times> string) list \<Rightarrow>
   errs + string list \<times> string list \<times> (string \<times> string) list" where
  "worlds_check [] worlds rooms desired = Inr (worlds, rooms, desired)"
| "worlds_check (w # ws) worlds rooms desired =
     (if \<not> world_ok w then Inl [Invalid_Input]
      else if world_key (wp_room w) (wp_world w) \<in> set worlds then Inl [Pub_Conflict]
      else case world_mods_check (wp_mods w) [] desired of
        Inl e \<Rightarrow> Inl e
      | Inr desired' \<Rightarrow>
          worlds_check ws (world_key (wp_room w) (wp_world w) # worlds) (List.insert (wp_room w) rooms) desired')"

definition blocker_ok :: "target_plan \<Rightarrow> blocker \<Rightarrow> bool" where
  "blocker_ok t b \<longleftrightarrow>
     \<not> (bl_target b \<noteq> tg_target t \<or> bl_installation b \<noteq> tg_installation t \<or> \<not> valid_id (bl_code b) \<or>
        trim_space (bl_message b) = [])"

fun targets_check ::
  "target_plan list \<Rightarrow> string list \<Rightarrow> string list \<Rightarrow> string list \<Rightarrow> errs + string list \<times> string list" where
  "targets_check [] keys worlds rooms = Inr (worlds, rooms)"
| "targets_check (t # ts) keys worlds rooms =
     (if \<not> valid_id (tg_target t) \<or> \<not> valid_id (tg_node t) \<or> \<not> valid_id (tg_installation t) \<or>
         tg_available t < 0 \<or> tg_required t < 0 \<or> tg_worlds t = [] then Inl [Invalid_Input]
      else if target_plan_key t \<in> set keys then Inl [Pub_Conflict]
      else case union_check (tg_mods t) [] of
        Inl e \<Rightarrow> Inl e
      | Inr trees \<Rightarrow>
          (case worlds_check (tg_worlds t) worlds rooms [] of
             Inl e \<Rightarrow> Inl e
           | Inr (worlds', rooms', desired) \<Rightarrow>
               if length trees \<noteq> length desired then Inl [Invalid_Input]
               else if \<not> list_all (\<lambda>(item, tree). map_of trees item = Some tree) desired then Inl [Invalid_Input]
               else if \<not> list_all (blocker_ok t) (tg_blockers t) then Inl [Invalid_Input]
               else targets_check ts (target_plan_key t # keys) worlds' rooms'))"

definition plan_check :: "mod_plan \<Rightarrow> errs option" where
  "plan_check p =
     (if pn_version p \<noteq> 1 \<or> \<not> valid_id (pn_room p) \<or> \<not> valid_id (pn_revision p) \<or> \<not> valid_sha (pn_hash p) \<or>
         pn_targets p = [] \<or> pn_rooms p = [] \<or> pn_created p = zero_time \<or> \<not> pn_restart p then Some [Invalid_Input]
      else
        let affected = normalized_strings (pn_rooms p)
        in if length affected \<noteq> length (pn_rooms p) \<or> \<not> contains affected (pn_room p) then Some [Invalid_Input]
           else case targets_check (pn_targets p) [] [] [] of
             Inl e \<Rightarrow> Some e
           | Inr (worlds, rooms) \<Rightarrow>
               if length rooms \<noteq> length affected then Some [Invalid_Input]
               else if \<not> list_all (\<lambda>r. r \<in> set rooms) affected then Some [Invalid_Input]
               else
                 let aggregated = sort_blockers (concat (map tg_blockers (pn_targets p)));
                     provided = sort_blockers (pn_blockers p)
                 in if aggregated \<noteq> provided \<or> pn_ready p \<noteq> (provided = []) then Some [Invalid_Input]
                    else if calculate_plan_hash p \<noteq> Some (to_lower (pn_hash p)) then Some [Plan_Changed]
                    else None)"

section \<open>Binary search\<close>

lemma search_strings_bounds: "i \<le> j \<Longrightarrow> i \<le> search_strings vs x i j \<and> search_strings vs x i j \<le> j"
proof (induction vs x i j rule: search_strings.induct)
  case (1 vs x i j)
  show ?case
  proof (cases "i < j")
    case True
    let ?h = "(i + j) div 2"
    have "i \<le> ?h" "?h < j" using True by auto
    with 1(1,2) [OF True refl] True show ?thesis
      by (subst (1 2) search_strings.simps) (auto simp: Let_def)
  next
    case False
    with 1(3) show ?thesis by (subst (1 2) search_strings.simps) auto
  qed
qed

lemma search_strings_split:
  assumes "sorted vs" and "i \<le> j" and "j \<le> length vs"
    and "\<forall>k < i. vs ! k < x" and "\<forall>k. j \<le> k \<and> k < length vs \<longrightarrow> x \<le> vs ! k"
  shows "(\<forall>k < search_strings vs x i j. vs ! k < x) \<and>
         (\<forall>k. search_strings vs x i j \<le> k \<and> k < length vs \<longrightarrow> x \<le> vs ! k)"
  using assms
proof (induction vs x i j rule: search_strings.induct)
  case (1 vs x i j)
  show ?case
  proof (cases "i < j")
    case True
    let ?h = "(i + j) div 2"
    have h: "i \<le> ?h" "?h < j" using True by auto
    show ?thesis
    proof (cases "vs ! ?h < x")
      case below: True
      have "\<forall>k < ?h + 1. vs ! k < x"
      proof (intro allI impI)
        fix k assume "k < ?h + 1"
        with h 1(5) have "vs ! k \<le> vs ! ?h" by (intro sorted_nth_mono [OF 1(3)]) auto
        with below show "vs ! k < x" by simp
      qed
      with 1(1) [OF True refl below] 1(3-7) h True below show ?thesis
        by (subst (1 2) search_strings.simps) (simp add: Let_def)
    next
      case above: False
      have "\<forall>k. ?h \<le> k \<and> k < length vs \<longrightarrow> x \<le> vs ! k"
      proof (intro allI impI)
        fix k assume "?h \<le> k \<and> k < length vs"
        then have "vs ! ?h \<le> vs ! k" by (intro sorted_nth_mono [OF 1(3)]) auto
        with above show "x \<le> vs ! k" by simp
      qed
      with 1(2) [OF True refl above] 1(3-7) h True above show ?thesis
        by (subst (1 2) search_strings.simps) (simp add: Let_def)
    qed
  next
    case False
    with 1(3-7) show ?thesis by (subst (1 2) search_strings.simps) auto
  qed
qed

lemma contains_sorted:
  assumes "sorted vs" shows "contains vs x \<longleftrightarrow> x \<in> set vs"
proof -
  let ?i = "search_strings vs x 0 (length vs)"
  have split: "\<forall>k < ?i. vs ! k < x" "\<forall>k. ?i \<le> k \<and> k < length vs \<longrightarrow> x \<le> vs ! k"
    using search_strings_split [OF assms le0 order_refl, of x] by (simp_all add: not_less [symmetric])
  show ?thesis
  proof
    assume "x \<in> set vs"
    then obtain k where k: "k < length vs" "vs ! k = x" by (auto simp: in_set_conv_nth)
    with split(1) have "?i \<le> k" by (metis leI less_irrefl)
    with k split(2) assms have "vs ! ?i = x"
      by (metis antisym order_le_less_trans order_refl sorted_nth_mono)
    with \<open>?i \<le> k\<close> k show "contains vs x" by (simp add: contains_def Let_def)
  qed (auto simp: contains_def Let_def in_set_conv_nth)
qed

lemma set_normalized_strings: "set (normalized_strings vs) = trim_space ` set vs - {[]}"
  by (auto simp: normalized_strings_def)

lemma sorted_normalized_strings [simp]: "sorted (normalized_strings vs)"
  by (simp add: normalized_strings_def)

lemma length_normalized_strings:
  "length (normalized_strings vs) = length vs \<longleftrightarrow> distinct (map trim_space vs) \<and> [] \<notin> trim_space ` set vs"
proof -
  let ?ts = "map trim_space vs"
  have "length (remdups (filter (\<lambda>v. v \<noteq> []) ?ts)) \<le> length (filter (\<lambda>v. v \<noteq> []) ?ts)"
    by (rule length_remdups_leq)
  moreover have "length (filter (\<lambda>v. v \<noteq> []) ?ts) \<le> length ?ts" by (rule length_filter_le)
  moreover have "length (filter (\<lambda>v. v \<noteq> []) ?ts) = length ?ts \<longleftrightarrow> [] \<notin> set ?ts"
    by (metis (mono_tags, lifting) filter_id_conv length_filter_less less_irrefl)
  ultimately have "length (normalized_strings vs) = length vs \<longleftrightarrow>
      length (remdups (filter (\<lambda>v. v \<noteq> []) ?ts)) = length (filter (\<lambda>v. v \<noteq> []) ?ts) \<and> [] \<notin> set ?ts"
    unfolding normalized_strings_def length_sort length_map by linarith
  also have "\<dots> \<longleftrightarrow> distinct ?ts \<and> [] \<notin> set ?ts"
  proof (cases "[] \<in> set ?ts")
    case False
    then have "filter (\<lambda>v. v \<noteq> []) ?ts = ?ts" by (intro filter_True ballI) metis
    then show ?thesis by (simp only: length_remdups_eq remdups_id_iff_distinct)
  qed simp
  finally show ?thesis by simp
qed

section \<open>What an accepted plan is\<close>

definition mod_pairs :: "content_artifact list \<Rightarrow> (string \<times> string) list" where
  "mod_pairs mods = map (\<lambda>a. (af_workshop a, af_tree a)) mods"

text \<open>One entry for every Workshop item, each entry an artifact the store can hold.\<close>

definition mods_wf :: "content_artifact list \<Rightarrow> bool" where
  "mods_wf mods \<longleftrightarrow> (\<forall>a \<in> set mods. stored_artifact_ok a) \<and> distinct (map af_workshop mods)"

definition world_wf :: "world_plan \<Rightarrow> bool" where
  "world_wf w \<longleftrightarrow> world_ok w \<and> mods_wf (wp_mods w)"

definition plan_world_key :: "world_plan \<Rightarrow> string" where
  "plan_world_key w = world_key (wp_room w) (wp_world w)"

definition target_ids_ok :: "target_plan \<Rightarrow> bool" where
  "target_ids_ok t \<longleftrightarrow>
     valid_id (tg_target t) \<and> valid_id (tg_node t) \<and> valid_id (tg_installation t) \<and>
     0 \<le> tg_available t \<and> 0 \<le> tg_required t \<and> tg_worlds t \<noteq> []"

text \<open>An installation gets exactly the mods its worlds ask for, in one version each.\<close>

definition target_wf :: "target_plan \<Rightarrow> bool" where
  "target_wf t \<longleftrightarrow>
     target_ids_ok t \<and> mods_wf (tg_mods t) \<and> (\<forall>w \<in> set (tg_worlds t). world_wf w) \<and>
     set (mod_pairs (tg_mods t)) = (\<Union>w \<in> set (tg_worlds t). set (mod_pairs (wp_mods w))) \<and>
     (\<forall>b \<in> set (tg_blockers t). blocker_ok t b)"

definition plan_worlds :: "mod_plan \<Rightarrow> world_plan list" where
  "plan_worlds p = concat (map tg_worlds (pn_targets p))"

definition plan_header_ok :: "mod_plan \<Rightarrow> bool" where
  "plan_header_ok p \<longleftrightarrow>
     pn_version p = 1 \<and> valid_id (pn_room p) \<and> valid_id (pn_revision p) \<and> valid_sha (pn_hash p) \<and>
     pn_targets p \<noteq> [] \<and> pn_rooms p \<noteq> [] \<and> pn_created p \<noteq> zero_time \<and> pn_restart p"

definition plan_wf :: "mod_plan \<Rightarrow> bool" where
  "plan_wf p \<longleftrightarrow>
     plan_header_ok p \<and> (\<forall>t \<in> set (pn_targets p). target_wf t) \<and>
     distinct (map target_plan_key (pn_targets p)) \<and> distinct (map plan_world_key (plan_worlds p)) \<and>
     distinct (map trim_space (pn_rooms p)) \<and> pn_room p \<in> trim_space ` set (pn_rooms p) \<and>
     wp_room ` set (plan_worlds p) = trim_space ` set (pn_rooms p) \<and>
     sort_blockers (pn_blockers p) = sort_blockers (concat (map tg_blockers (pn_targets p))) \<and>
     (pn_ready p \<longleftrightarrow> pn_blockers p = []) \<and>
     calculate_plan_hash p = Some (to_lower (pn_hash p))"

definition ordered_keys :: "(string \<times> 'v) list \<Rightarrow> bool" where
  "ordered_keys m \<longleftrightarrow> sorted_wrt (<) (map fst m)"

lemma ordered_keys_Nil [simp]: "ordered_keys []"
  by (simp add: ordered_keys_def)

lemma ordered_keys_put [simp]: "ordered_keys m \<Longrightarrow> ordered_keys (put k v m)"
  by (simp add: ordered_keys_def put_sorted)

lemma ordered_keys_distinct: "ordered_keys m \<Longrightarrow> distinct (map fst m)"
  by (simp add: ordered_keys_def strict_sorted_iff)

lemma ordered_keys_map_of: "ordered_keys m \<Longrightarrow> map_of m k = Some v \<longleftrightarrow> (k, v) \<in> set m"
  by (simp add: ordered_keys_distinct)

lemma ordered_keys_single: "ordered_keys m \<Longrightarrow> single_valued (set m)"
  by (metis ordered_keys_map_of option.inject single_valuedI)

lemma set_put:
  assumes "ordered_keys m" and "map_of m k = None \<or> map_of m k = Some v"
  shows "set (put k v m) = insert (k, v) (set m)"
proof -
  have "x \<in> set (put k v m) \<longleftrightarrow> x \<in> insert (k, v) (set m)" for x
  proof (cases x)
    case (Pair a b)
    have "x \<in> set (put k v m) \<longleftrightarrow> map_of (put k v m) a = Some b"
      using ordered_keys_map_of [OF ordered_keys_put [OF assms(1)], of k v a b] Pair by simp
    also have "\<dots> \<longleftrightarrow> x \<in> insert (k, v) (set m)"
      using ordered_keys_map_of [OF assms(1), of a b] assms(2) Pair by auto
    finally show ?thesis .
  qed
  then show ?thesis by blast
qed

lemma ordered_keys_length_eq:
  assumes "ordered_keys m" and "ordered_keys d"
  shows "length m = length d \<and> set d \<subseteq> set m \<longleftrightarrow> set m = set d"
proof -
  have "distinct m" "distinct d"
    using assms [THEN ordered_keys_distinct] by (simp_all add: distinct_map)
  then show ?thesis
    by (metis List.finite_set card_subset_eq distinct_card subset_refl)
qed

lemma single_valued_insert:
  assumes "ordered_keys m"
  shows "single_valued (insert (k, v) (set m)) \<longleftrightarrow> map_of m k = None \<or> map_of m k = Some v"
proof
  assume single: "single_valued (insert (k, v) (set m))"
  show "map_of m k = None \<or> map_of m k = Some v"
  proof (cases "map_of m k")
    case (Some a)
    then have "(k, a) \<in> set m" by (simp add: map_of_SomeD)
    with single Some show ?thesis by (auto dest: single_valuedD)
  qed simp
next
  assume "map_of m k = None \<or> map_of m k = Some v"
  with assms set_put ordered_keys_single ordered_keys_put show "single_valued (insert (k, v) (set m))"
    by metis
qed

definition puts :: "content_artifact list \<Rightarrow> (string \<times> string) list \<Rightarrow> (string \<times> string) list" where
  "puts mods m = fold (\<lambda>a. put (af_workshop a) (af_tree a)) mods m"

lemma puts_simps [simp]:
  "puts [] m = m" "puts (a # as) m = puts as (put (af_workshop a) (af_tree a) m)"
  by (simp_all add: puts_def)

lemma mod_pairs_simps [simp]:
  "mod_pairs [] = []" "mod_pairs (a # as) = (af_workshop a, af_tree a) # mod_pairs as"
  by (simp_all add: mod_pairs_def)

lemma ordered_keys_puts [simp]: "ordered_keys m \<Longrightarrow> ordered_keys (puts as m)"
  by (induction as arbitrary: m) simp_all

lemma set_puts:
  "ordered_keys m \<Longrightarrow> single_valued (set m \<union> set (mod_pairs as)) \<Longrightarrow> set (puts as m) = set m \<union> set (mod_pairs as)"
proof (induction as arbitrary: m)
  case (Cons a as)
  let ?kv = "(af_workshop a, af_tree a)"
  have "single_valued (insert ?kv (set m))"
    by (rule single_valued_subset [OF _ Cons.prems(2)]) auto
  with Cons.prems(1) have put: "set (put (af_workshop a) (af_tree a) m) = insert ?kv (set m)"
    by (simp add: single_valued_insert set_put)
  with Cons show ?case by simp
qed simp

lemma union_check_Inr:
  "union_check as m = Inr m' \<longleftrightarrow>
     (\<forall>a \<in> set as. stored_artifact_ok a) \<and> distinct (map af_workshop as) \<and>
     af_workshop ` set as \<inter> fst ` set m = {} \<and> m' = puts as m"
proof (induction as m rule: union_check.induct)
  case (2 a as m)
  then show ?case by (auto simp: keys_put map_of_eq_None_iff)
qed auto

lemma single_valued_step:
  assumes "ordered_keys m"
  shows "single_valued (set m \<union> set (mod_pairs (a # as))) \<longleftrightarrow>
     (map_of m (af_workshop a) = None \<or> map_of m (af_workshop a) = Some (af_tree a)) \<and>
     single_valued (set (put (af_workshop a) (af_tree a) m) \<union> set (mod_pairs as))"
proof -
  have "single_valued (set m \<union> set (mod_pairs (a # as))) \<Longrightarrow> single_valued (insert (af_workshop a, af_tree a) (set m))"
    by (rule single_valued_subset) auto
  with assms show ?thesis by (auto simp: single_valued_insert set_put)
qed

lemma world_mods_check_Inr:
  "ordered_keys m \<Longrightarrow> world_mods_check as seen m = Inr m' \<longleftrightarrow>
     (\<forall>a \<in> set as. stored_artifact_ok a) \<and> distinct (map af_workshop as) \<and>
     af_workshop ` set as \<inter> set seen = {} \<and> single_valued (set m \<union> set (mod_pairs as)) \<and> m' = puts as m"
proof (induction as seen m rule: world_mods_check.induct)
  case (1 seen m)
  then show ?case by (auto simp: ordered_keys_single)
next
  case (2 a as seen m)
  show ?case
    unfolding single_valued_step [OF 2(2)] using 2 by auto
qed

lemma worlds_check_Inr:
  "ordered_keys m \<Longrightarrow> worlds_check ws keys rooms m = Inr (keys', rooms', m') \<longleftrightarrow>
     (\<forall>w \<in> set ws. world_wf w) \<and> distinct (map plan_world_key ws) \<and>
     plan_world_key ` set ws \<inter> set keys = {} \<and>
     single_valued (set m \<union> (\<Union>w \<in> set ws. set (mod_pairs (wp_mods w)))) \<and>
     keys' = rev (map plan_world_key ws) @ keys \<and> rooms' = fold List.insert (map wp_room ws) rooms \<and>
     m' = fold (\<lambda>w. puts (wp_mods w)) ws m"
proof (induction ws keys rooms m rule: worlds_check.induct)
  case (1 keys rooms m)
  then show ?case by (auto simp: ordered_keys_single)
next
  case (2 w ws keys rooms m)
  let ?rest = "\<Union>w \<in> set ws. set (mod_pairs (wp_mods w))"
  let ?m1 = "puts (wp_mods w) m"
  have single: "single_valued (set m \<union> (set (mod_pairs (wp_mods w)) \<union> ?rest)) \<longleftrightarrow>
      single_valued (set m \<union> set (mod_pairs (wp_mods w))) \<and> single_valued (set ?m1 \<union> ?rest)"
  proof -
    have "single_valued (set m \<union> (set (mod_pairs (wp_mods w)) \<union> ?rest)) \<Longrightarrow>
        single_valued (set m \<union> set (mod_pairs (wp_mods w)))"
      by (rule single_valued_subset) auto
    with set_puts [OF 2(2), of "wp_mods w"] show ?thesis by (auto simp: Un_assoc)
  qed
  have mods: "world_mods_check (wp_mods w) [] m = Inr x \<longleftrightarrow>
      mods_wf (wp_mods w) \<and> single_valued (set m \<union> set (mod_pairs (wp_mods w))) \<and> x = ?m1" for x
    by (simp add: world_mods_check_Inr [OF 2(2)] mods_wf_def)
  have step: "worlds_check (w # ws) keys rooms m = Inr (keys', rooms', m') \<longleftrightarrow>
      world_ok w \<and> plan_world_key w \<notin> set keys \<and> mods_wf (wp_mods w) \<and>
      single_valued (set m \<union> set (mod_pairs (wp_mods w))) \<and>
      worlds_check ws (plan_world_key w # keys) (List.insert (wp_room w) rooms) ?m1 = Inr (keys', rooms', m')"
  proof (cases "world_mods_check (wp_mods w) [] m")
    case (Inl e)
    then have "\<not> (mods_wf (wp_mods w) \<and> single_valued (set m \<union> set (mod_pairs (wp_mods w))))"
      using mods [of ?m1] by simp
    with Inl show ?thesis by (simp add: plan_world_key_def) blast
  next
    case (Inr m1)
    with mods [of m1] have "m1 = ?m1" "mods_wf (wp_mods w)" "single_valued (set m \<union> set (mod_pairs (wp_mods w)))"
      by simp_all
    with Inr show ?thesis by (simp add: plan_world_key_def)
  qed
  show ?case
  proof (cases "world_ok w \<and> plan_world_key w \<notin> set keys \<and> mods_wf (wp_mods w) \<and>
      single_valued (set m \<union> set (mod_pairs (wp_mods w)))")
    case True
    then have "world_mods_check (wp_mods w) [] m = Inr ?m1"
      using world_mods_check_Inr [OF 2(2), of "wp_mods w" "[]" ?m1] by (simp add: mods_wf_def)
    with True 2 have IH: "worlds_check ws (plan_world_key w # keys) (List.insert (wp_room w) rooms) ?m1 = Inr (keys', rooms', m') \<longleftrightarrow>
       (\<forall>w \<in> set ws. world_wf w) \<and> distinct (map plan_world_key ws) \<and>
       plan_world_key ` set ws \<inter> set (plan_world_key w # keys) = {} \<and>
       single_valued (set ?m1 \<union> ?rest) \<and>
       keys' = rev (map plan_world_key ws) @ plan_world_key w # keys \<and>
       rooms' = fold List.insert (map wp_room ws) (List.insert (wp_room w) rooms) \<and>
       m' = fold (\<lambda>w. puts (wp_mods w)) ws ?m1"
      by (simp add: plan_world_key_def [symmetric])
    show ?thesis unfolding step IH list.set UN_insert single using True by (simp add: world_wf_def) blast
  next
    case False
    then have "\<not> (world_wf w \<and> plan_world_key w \<notin> set keys \<and>
        single_valued (set m \<union> (set (mod_pairs (wp_mods w)) \<union> ?rest)))"
      by (auto simp: world_wf_def single)
    with False show ?thesis unfolding step by auto
  qed
qed

lemma fold_puts:
  "ordered_keys m \<Longrightarrow> single_valued (set m \<union> (\<Union>w \<in> set ws. set (mod_pairs (wp_mods w)))) \<Longrightarrow>
    ordered_keys (fold (\<lambda>w. puts (wp_mods w)) ws m) \<and>
    set (fold (\<lambda>w. puts (wp_mods w)) ws m) = set m \<union> (\<Union>w \<in> set ws. set (mod_pairs (wp_mods w)))"
proof (induction ws arbitrary: m)
  case (Cons w ws)
  have "single_valued (set m \<union> set (mod_pairs (wp_mods w)))"
    by (rule single_valued_subset [OF _ Cons.prems(2)]) auto
  then have "set (puts (wp_mods w) m) = set m \<union> set (mod_pairs (wp_mods w))"
    by (rule set_puts [OF Cons.prems(1)])
  with Cons show ?case by (simp add: Un_assoc)
qed simp

definition desired_mods :: "target_plan \<Rightarrow> (string \<times> string) set" where
  "desired_mods t = (\<Union>w \<in> set (tg_worlds t). set (mod_pairs (wp_mods w)))"

lemma mods_wf_single: "mods_wf mods \<Longrightarrow> single_valued (set (mod_pairs mods))"
  by (auto simp: mods_wf_def mod_pairs_def single_valued_def distinct_map inj_on_def)

lemma set_trees: "mods_wf mods \<Longrightarrow> set (puts mods []) = set (mod_pairs mods)"
  using set_puts [OF ordered_keys_Nil] mods_wf_single by simp

lemma target_step:
  "targets_check (t # ts) keys worlds rooms = Inr r \<longleftrightarrow>
     target_wf t \<and> target_plan_key t \<notin> set keys \<and> distinct (map plan_world_key (tg_worlds t)) \<and>
     plan_world_key ` set (tg_worlds t) \<inter> set worlds = {} \<and>
     targets_check ts (target_plan_key t # keys) (rev (map plan_world_key (tg_worlds t)) @ worlds)
       (fold List.insert (map wp_room (tg_worlds t)) rooms) = Inr r" (is "?l \<longleftrightarrow> ?r")
proof -
  let ?d = "fold (\<lambda>w. puts (wp_mods w)) (tg_worlds t) []"
  let ?m = "puts (tg_mods t) []"
  let ?next = "targets_check ts (target_plan_key t # keys) (rev (map plan_world_key (tg_worlds t)) @ worlds)
       (fold List.insert (map wp_room (tg_worlds t)) rooms) = Inr r"
  have union: "union_check (tg_mods t) [] = Inr m \<longleftrightarrow> mods_wf (tg_mods t) \<and> m = ?m" for m
    by (simp add: union_check_Inr mods_wf_def)
  have worlds: "worlds_check (tg_worlds t) worlds rooms [] = Inr (k, r, d) \<longleftrightarrow>
      (\<forall>w \<in> set (tg_worlds t). world_wf w) \<and> distinct (map plan_world_key (tg_worlds t)) \<and>
      plan_world_key ` set (tg_worlds t) \<inter> set worlds = {} \<and> single_valued (desired_mods t) \<and>
      k = rev (map plan_world_key (tg_worlds t)) @ worlds \<and> r = fold List.insert (map wp_room (tg_worlds t)) rooms \<and>
      d = ?d" for k r d
    by (simp add: worlds_check_Inr desired_mods_def)
  have same: "length ?m = length ?d \<and> list_all (\<lambda>(item, tree). map_of ?m item = Some tree) ?d \<longleftrightarrow>
      set (mod_pairs (tg_mods t)) = desired_mods t"
    if "mods_wf (tg_mods t)" "single_valued (desired_mods t)"
  proof -
    have d: "ordered_keys ?d" "set ?d = desired_mods t"
      using fold_puts [of "[]" "tg_worlds t"] that(2) by (simp_all add: desired_mods_def)
    have m: "ordered_keys ?m" "set ?m = set (mod_pairs (tg_mods t))"
      using that(1) by (simp_all add: set_trees)
    have "list_all (\<lambda>(item, tree). map_of ?m item = Some tree) ?d \<longleftrightarrow> set ?d \<subseteq> set ?m"
      by (auto simp: list_all_iff ordered_keys_map_of [OF m(1)])
    with ordered_keys_length_eq [OF m(1) d(1)] m(2) d(2) show ?thesis by simp
  qed
  let ?pre = "target_ids_ok t \<and> target_plan_key t \<notin> set keys"
  let ?ws = "(\<forall>w \<in> set (tg_worlds t). world_wf w) \<and> distinct (map plan_world_key (tg_worlds t)) \<and>
      plan_world_key ` set (tg_worlds t) \<inter> set worlds = {} \<and> single_valued (desired_mods t)"
  have "?l \<longleftrightarrow> ?pre \<and> mods_wf (tg_mods t) \<and> ?ws \<and>
      length ?m = length ?d \<and> list_all (\<lambda>(item, tree). map_of ?m item = Some tree) ?d \<and>
      list_all (blocker_ok t) (tg_blockers t) \<and> ?next"
  proof (cases "?pre \<and> mods_wf (tg_mods t) \<and> ?ws")
    case True
    then have "union_check (tg_mods t) [] = Inr ?m"
        "worlds_check (tg_worlds t) worlds rooms [] = Inr (rev (map plan_world_key (tg_worlds t)) @ worlds,
          fold List.insert (map wp_room (tg_worlds t)) rooms, ?d)"
      using union worlds by blast+
    with True show ?thesis by (simp add: target_ids_ok_def)
  next
    case False
    have "\<not> ?l"
    proof
      assume l: ?l
      then have pre: ?pre by (auto simp: target_ids_ok_def split: if_splits)
      from l obtain m where m: "union_check (tg_mods t) [] = Inr m"
        by (auto split: if_splits sum.splits)
      from l m obtain k r d where "worlds_check (tg_worlds t) worlds rooms [] = Inr (k, r, d)"
        by (auto split: if_splits sum.splits)
      with m pre union worlds False show False by blast
    qed
    with False show ?thesis by blast
  qed
  also have "\<dots> \<longleftrightarrow> ?r"
  proof (cases "mods_wf (tg_mods t) \<and> single_valued (desired_mods t)")
    case True
    with same show ?thesis by (auto simp: target_wf_def desired_mods_def [symmetric] list_all_iff)
  next
    case False
    then have "\<not> target_wf t"
      by (metis target_wf_def desired_mods_def mods_wf_single)
    with False show ?thesis by blast
  qed
  finally show ?thesis .
qed

lemma targets_check_Inr:
  "targets_check ts keys worlds rooms = Inr (worlds', rooms') \<longleftrightarrow>
     (\<forall>t \<in> set ts. target_wf t) \<and> distinct (map target_plan_key ts) \<and> target_plan_key ` set ts \<inter> set keys = {} \<and>
     distinct (map plan_world_key (concat (map tg_worlds ts))) \<and>
     plan_world_key ` set (concat (map tg_worlds ts)) \<inter> set worlds = {} \<and>
     worlds' = rev (map plan_world_key (concat (map tg_worlds ts))) @ worlds \<and>
     rooms' = fold List.insert (map wp_room (concat (map tg_worlds ts))) rooms"
proof (induction ts arbitrary: keys worlds rooms)
  case (Cons t ts)
  define ws where "ws = concat (map tg_worlds ts)"
  have cons: "concat (map tg_worlds (t # ts)) = tg_worlds t @ ws" by (simp add: ws_def)
  have disj: "plan_world_key ` set ws \<inter> set (rev (map plan_world_key (tg_worlds t)) @ worlds) = {} \<longleftrightarrow>
      set (map plan_world_key (tg_worlds t)) \<inter> set (map plan_world_key ws) = {} \<and> plan_world_key ` set ws \<inter> set worlds = {}"
    by auto
  show ?case
    unfolding target_step Cons.IH ws_def [symmetric] cons disj
    by (simp only: map_append distinct_append set_append image_Un Int_Un_distrib2 Un_empty rev_append append_assoc
        fold_append comp_apply list.map distinct.simps list.set ball_simps image_insert Int_insert_right insert_iff
        set_map if_cancel) auto
qed auto

lemma fold_insert: "set (fold List.insert xs rs) = set xs \<union> set rs" "distinct rs \<Longrightarrow> distinct (fold List.insert xs rs)"
  by (induction xs arbitrary: rs) auto

lemma sort_blockers_Nil [simp]: "sort_blockers bs = [] \<longleftrightarrow> bs = []"
  by (metis sort_blockers_def length_0_conv length_sort)

lemma plan_check_plan_wf: "plan_check p = None \<longleftrightarrow> plan_wf p"
proof -
  let ?rooms = "fold List.insert (map wp_room (plan_worlds p)) []"
  let ?a = "normalized_strings (pn_rooms p)"
  let ?ts = "(\<forall>t \<in> set (pn_targets p). target_wf t) \<and> distinct (map target_plan_key (pn_targets p)) \<and>
     distinct (map plan_world_key (plan_worlds p))"
  have targets: "targets_check (pn_targets p) [] [] [] = Inr (ws, rs) \<longleftrightarrow>
      ?ts \<and> ws = rev (map plan_world_key (plan_worlds p)) \<and> rs = ?rooms" for ws rs
    by (auto simp: targets_check_Inr plan_worlds_def)
  have rooms: "length ?rooms = length ?a \<and> list_all (\<lambda>r. r \<in> set ?rooms) ?a \<longleftrightarrow> set ?a = wp_room ` set (plan_worlds p)"
  proof -
    have "distinct ?rooms" "distinct ?a" "set ?rooms = wp_room ` set (plan_worlds p)"
      by (auto simp: fold_insert normalized_strings_def)
    then show ?thesis
      by (metis (mono_tags, lifting) List.finite_set card_subset_eq distinct_card list_all_iff subset_iff)
  qed
  have header: "plan_check p = None \<longleftrightarrow> plan_header_ok p \<and> length ?a = length (pn_rooms p) \<and> pn_room p \<in> set ?a \<and> ?ts \<and>
     set ?a = wp_room ` set (plan_worlds p) \<and>
     sort_blockers (concat (map tg_blockers (pn_targets p))) = sort_blockers (pn_blockers p) \<and>
     (pn_ready p \<longleftrightarrow> pn_blockers p = []) \<and> calculate_plan_hash p = Some (to_lower (pn_hash p))"
  proof (cases "targets_check (pn_targets p) [] [] []")
    case (Inl e)
    then have "\<not> ?ts" using targets by force
    with Inl show ?thesis by (auto simp: plan_check_def Let_def)
  next
    case (Inr r)
    then have r: "r = (rev (map plan_world_key (plan_worlds p)), ?rooms)" and ts: ?ts
      using targets [of "fst r" "snd r"] by (simp_all add: prod_eq_iff)
    show ?thesis
      unfolding plan_check_def Let_def Inr r rooms [symmetric] contains_sorted [OF sorted_normalized_strings]
      using ts by (simp add: plan_header_ok_def) blast
  qed
  have len: "length ?a = length (pn_rooms p) \<Longrightarrow> set ?a = trim_space ` set (pn_rooms p)"
    by (simp add: length_normalized_strings set_normalized_strings)
  have nonempty: "plan_header_ok p \<Longrightarrow> ?ts \<Longrightarrow> wp_room ` set (plan_worlds p) = trim_space ` set (pn_rooms p) \<Longrightarrow>
      [] \<notin> trim_space ` set (pn_rooms p)"
  proof -
    assume ts: ?ts and same: "wp_room ` set (plan_worlds p) = trim_space ` set (pn_rooms p)"
    have "valid_id (wp_room w)" if "w \<in> set (plan_worlds p)" for w
      using that ts by (auto simp: plan_worlds_def target_wf_def world_wf_def world_ok_def)
    then have "[] \<notin> wp_room ` set (plan_worlds p)" by (metis image_iff valid_id_def)
    with same show ?thesis by simp
  qed
  have "plan_check p = None" if wf: "plan_wf p"
  proof -
    note facts = wf [unfolded plan_wf_def]
    from facts have "[] \<notin> trim_space ` set (pn_rooms p)" by (intro nonempty) (elim conjE, (intro conjI)?, assumption+)+
    with facts have l: "length ?a = length (pn_rooms p)" by (elim conjE) (simp only: length_normalized_strings simp_thms)
    from facts [folded len [OF l]] l show ?thesis
      unfolding header by (elim conjE, intro conjI) (assumption | rule sym)+
  qed
  moreover have "plan_wf p" if "plan_check p = None"
  proof -
    note facts = that [unfolded header]
    from facts have "length ?a = length (pn_rooms p)" by (elim conjE)
    with len have a: "set ?a = trim_space ` set (pn_rooms p)" and d: "distinct (map trim_space (pn_rooms p))"
      by (simp_all only: length_normalized_strings)
    from facts [unfolded a] d show ?thesis
      unfolding plan_wf_def by (elim conjE, intro conjI) (assumption | rule sym)+
  qed
  ultimately show ?thesis by blast
qed

text \<open>C31: \<open>validatePlan\<close> accepts exactly the well-formed plans: a header in range, each target and each
world once, every installation with exactly the mods its worlds ask for in one version each, the affected
rooms those of the worlds, the blockers those of the targets, and the canonical hash.\<close>

theorem plan_check_iff: "plan_check p = None \<longleftrightarrow> plan_wf p"
  by (rule plan_check_plan_wf)

text \<open>C32: the binary search finds in the normalised list exactly the trimmed, non-empty entries.\<close>

theorem contains_normalized:
  "contains (normalized_strings vs) x \<longleftrightarrow> x \<noteq> [] \<and> x \<in> trim_space ` set vs"
  by (auto simp: contains_sorted set_normalized_strings)

end
