(* ===== verification/Mod_Planner.thy ===== *)
theory Mod_Planner
  imports Mod_Plan "HOL-Library.Multiset"
begin

text \<open>
  \<open>Planner.Preview\<close> and \<open>finishTarget\<close> of \<open>internal/modpublication/planner.go\<close>. What the catalogue,
  the placement store, the content source and the runtime answer is a reading of the state by step, like
  the clock; each of these calls may fail with a text of its own. A Go map is ranged over in ascending
  order of its keys. The theorem at the end relates the planner to \<open>validatePlan\<close>.
\<close>

section \<open>Calls\<close>

record pub_env = lease_db +
  rd_worlds :: "nat \<Rightarrow> managed_world list"
  rd_placements :: "nat \<Rightarrow> placement_snapshot"
  rd_content :: "nat \<Rightarrow> mod_requirement \<Rightarrow> content_artifact"
  rd_observe :: "nat \<Rightarrow> applied_placement \<Rightarrow> runtime_observation"

text \<open>An answer, or the error of the call with its text.\<close>

definition receive :: "('s env_scheme \<Rightarrow> nat \<Rightarrow> 'a) \<Rightarrow> ('s env_scheme, errs, 'a) act" where
  "receive f s =
     (let n = step s; s' = s\<lparr>step := Suc n\<rparr>
      in if fault s n then (Inl [Call_Failed (fresh s n)], s') else (Inr (f s n), s'))"

definition lift :: "'e + 'a \<Rightarrow> ('s, 'e, 'a) act" where
  "lift r s = (r, s)"

section \<open>Checks of what is read\<close>

fun requirements_ok :: "mod_requirement list \<Rightarrow> string list \<Rightarrow> bool" where
  "requirements_ok [] seen = True"
| "requirements_ok (q # qs) seen =
     (if \<not> valid_workshop_id (mq_workshop q) \<or> mq_tree q \<noteq> [] \<and> \<not> valid_sha (mq_tree q) \<or> mq_workshop q \<in> set seen
      then False else requirements_ok qs (mq_workshop q # seen))"

definition validate_world :: "managed_world \<Rightarrow> bool" where
  "validate_world w \<longleftrightarrow>
     \<not> (\<not> valid_id (mw_room w) \<or> \<not> safe_component (mw_room_dir w) \<or> \<not> valid_id (mw_world w) \<or>
        \<not> safe_component (mw_world_dir w) \<or> length (mw_overrides w) > 8388608) \<and> requirements_ok (mw_mods w) []"

definition validate_placement :: "applied_placement \<Rightarrow> bool" where
  "validate_placement p \<longleftrightarrow>
     \<not> (\<not> valid_id (pl_room p) \<or> \<not> valid_id (pl_world p) \<or> \<not> valid_id (pl_target p) \<or> \<not> valid_id (pl_node p) \<or>
        \<not> valid_id (pl_installation p))"

text \<open>\<open>strings.EqualFold\<close> compares two digests here: the letters of both are ASCII.\<close>

definition validate_artifact :: "mod_requirement \<Rightarrow> content_artifact \<Rightarrow> errs + unit" where
  "validate_artifact q a =
     (if af_workshop a \<noteq> mq_workshop q \<or> \<not> valid_workshop_id (af_workshop a) \<or> \<not> valid_sha (af_tree a) \<or>
         \<not> valid_sha (af_manifest a) \<or> af_size a < 0 \<or> af_files a < 0 \<or> trim_space (af_source a) = [] \<or>
         af_steam_manifest a \<noteq> [] \<and> \<not> valid_workshop_id (af_steam_manifest a) then Inl [Invalid_Input]
      else if mq_tree q \<noteq> [] \<and> to_lower (mq_tree q) \<noteq> to_lower (af_tree a) then Inl [Plan_Changed]
      else Inr ())"

fun worlds_by_key ::
  "managed_world list \<Rightarrow> (string \<times> managed_world) list \<Rightarrow> errs + (string \<times> managed_world) list" where
  "worlds_by_key [] m = Inr m"
| "worlds_by_key (w # ws) m =
     (if \<not> validate_world w then Inl [Invalid_Input]
      else if map_of m (world_key (mw_room w) (mw_world w)) \<noteq> None then Inl [Pub_Conflict]
      else worlds_by_key ws (put (world_key (mw_room w) (mw_world w)) w m))"

text \<open>The placements by world, the installations of the requested room, and the number of its worlds.\<close>

fun placements_by_world ::
  "string \<Rightarrow> (string \<times> managed_world) list \<Rightarrow> applied_placement list \<Rightarrow>
   (string \<times> applied_placement) list \<Rightarrow> string list \<Rightarrow> nat \<Rightarrow>
   errs + (string \<times> applied_placement) list \<times> string list \<times> nat" where
  "placements_by_world room worlds [] m requested n = Inr (m, requested, n)"
| "placements_by_world room worlds (p # ps) m requested n =
     (let key = world_key (pl_room p) (pl_world p)
      in if \<not> validate_placement p then Inl [Invalid_Input]
         else if map_of m key \<noteq> None then Inl [Pub_Conflict]
         else if pl_room p = room \<and> map_of worlds key \<noteq> None
         then placements_by_world room worlds ps (put key p m) (installation_key p # requested) (Suc n)
         else placements_by_world room worlds ps (put key p m) requested n)"

section \<open>Preview\<close>

definition cache_key :: "mod_requirement \<Rightarrow> string" where
  "cache_key q = mq_workshop q @ '':'' @ to_lower (mq_tree q)"

fun resolve_mods ::
  "mod_requirement list \<Rightarrow> (string \<times> content_artifact) list \<Rightarrow>
   ('s pub_env_scheme, errs, content_artifact list \<times> (string \<times> content_artifact) list) act" where
  "resolve_mods [] cache = return_ok ([], cache)"
| "resolve_mods (q # qs) cache =
     andthen
       (case map_of cache (cache_key q) of
          Some a \<Rightarrow> return_ok (a, cache)
        | None \<Rightarrow>
            andthen (receive (\<lambda>s n. rd_content s n q)) (\<lambda>a.
            andthen (lift (validate_artifact q a)) (\<lambda>_.
              let a' = a\<lparr>af_tree := to_lower (af_tree a), af_manifest := to_lower (af_manifest a)\<rparr>
              in return_ok (a', put (cache_key q) a' cache))))
       (\<lambda>(a, cache'). andthen (resolve_mods qs cache') (\<lambda>(as, cache''). return_ok (a # as, cache'')))"

definition new_target :: "string \<Rightarrow> applied_placement \<Rightarrow> target_plan" where
  "new_target minimum p =
     \<lparr>tg_target = pl_target p, tg_node = pl_node p, tg_installation = pl_installation p, tg_online = False,
      tg_caps = [], tg_version = [], tg_minimum = minimum, tg_available = 0, tg_required = 0, tg_mods = [],
      tg_worlds = [], tg_blockers = []\<rparr>"

definition add_world ::
  "string \<Rightarrow> applied_placement \<Rightarrow> world_plan \<Rightarrow> (string \<times> target_plan) list \<Rightarrow> (string \<times> target_plan) list" where
  "add_world minimum p w ts =
     (let t = (case map_of ts (installation_key p) of Some t \<Rightarrow> t | None \<Rightarrow> new_target minimum p)
      in put (installation_key p) (t\<lparr>tg_worlds := tg_worlds t @ [w]\<rparr>) ts)"

definition world_plan_of :: "managed_world \<Rightarrow> content_artifact list \<Rightarrow> world_plan" where
  "world_plan_of w mods =
     \<lparr>wp_room = mw_room w, wp_room_dir = mw_room_dir w, wp_world = mw_world w, wp_world_dir = mw_world_dir w,
      wp_master = mw_master w, wp_mods = sort_artifacts mods, wp_overrides = mw_overrides w\<rparr>"

text \<open>The loop over the managed worlds: the targets and the affected rooms.\<close>

fun collect_worlds ::
  "string \<Rightarrow> (string \<times> applied_placement) list \<Rightarrow> string list \<Rightarrow> (string \<times> managed_world) list \<Rightarrow>
   (string \<times> target_plan) list \<Rightarrow> (string \<times> content_artifact) list \<Rightarrow> string list \<Rightarrow>
   ('s pub_env_scheme, errs, (string \<times> target_plan) list \<times> string list) act" where
  "collect_worlds minimum placed requested [] ts cache rooms = return_ok (ts, rooms)"
| "collect_worlds minimum placed requested ((key, w) # ws) ts cache rooms =
     (case map_of placed key of
        None \<Rightarrow> collect_worlds minimum placed requested ws ts cache rooms
      | Some p \<Rightarrow>
          if installation_key p \<notin> set requested then collect_worlds minimum placed requested ws ts cache rooms
          else
            andthen (resolve_mods (mw_mods w) cache) (\<lambda>(mods, cache').
              collect_worlds minimum placed requested ws (add_world minimum p (world_plan_of w mods) ts) cache'
                (List.insert (mw_room w) rooms)))"

definition target_blocker :: "string \<Rightarrow> string \<Rightarrow> target_plan \<Rightarrow> blocker" where
  "target_blocker code message t =
     \<lparr>bl_code = code, bl_message = message, bl_target = tg_target t, bl_installation = tg_installation t\<rparr>"

text \<open>The artifact of each Workshop item of a target, in the only version its worlds may ask for.\<close>

fun target_versions ::
  "target_plan \<Rightarrow> content_artifact list \<Rightarrow> (string \<times> content_artifact) list \<Rightarrow>
   errs + (string \<times> content_artifact) list" where
  "target_versions t [] m = Inr m"
| "target_versions t (a # as) m =
     (case map_of m (af_workshop a) of
        Some c \<Rightarrow>
          if af_tree c \<noteq> af_tree a
          then Inl [Version_Conflict ('': target '' @ tg_target t @ '' installation '' @ tg_installation t @
                 '' Workshop '' @ af_workshop a @ '' uses '' @ af_tree c @ '' and '' @ af_tree a)]
          else target_versions t as (put (af_workshop a) a m)
      | None \<Rightarrow> target_versions t as (put (af_workshop a) a m))"

fun required_bytes :: "string list option \<Rightarrow> content_artifact list \<Rightarrow> int \<Rightarrow> int option" where
  "required_bytes cached [] n = Some n"
| "required_bytes cached (a # as) n =
     (if (case cached of None \<Rightarrow> False | Some ts \<Rightarrow> af_tree a \<in> set ts) then required_bytes cached as n
      else if n > 9223372036854775807 - af_size a then None
      else required_bytes cached as (n + af_size a))"

definition required_capability :: string where
  "required_capability = ''runtime.mods.v1''"

definition observation_blockers :: "string \<Rightarrow> target_plan \<Rightarrow> blocker list" where
  "observation_blockers minimum t =
     (if \<not> tg_online t then
        [target_blocker ''TARGET_OFFLINE'' (bytes
     [0xE8, 0xBF, 0x90, 0xE8, 0xA1, 0x8C, 0xE7, 0x9B, 0xAE, 0xE6, 0xA0, 0x87, 0xE5, 0xBD,
      0x93, 0xE5, 0x89, 0x8D, 0xE7, 0xA6, 0xBB, 0xE7, 0xBA, 0xBF]) t] else []) @
     (if \<not> contains (tg_caps t) required_capability then
        [target_blocker ''CAPABILITY_MISSING'' (bytes
     [0xE8, 0xBF, 0x90, 0xE8, 0xA1, 0x8C, 0xE7, 0x9B, 0xAE, 0xE6, 0xA0, 0x87, 0xE4, 0xB8,
      0x8D, 0xE6, 0x94, 0xAF, 0xE6, 0x8C, 0x81, 0x20] @ required_capability) t] else []) @
     (if minimum \<noteq> [] \<and> version_less (tg_version t) minimum then
        [target_blocker ''RUNTIME_VERSION_BLOCKED'' (bytes
     [0xE8, 0xBF, 0x90, 0xE8, 0xA1, 0x8C, 0xE6, 0x97, 0xB6, 0xE7, 0x89, 0x88, 0xE6, 0x9C,
      0xAC, 0xE4, 0xBD, 0x8E, 0xE4, 0xBA, 0x8E, 0x20] @ minimum) t] else [])"

definition disk_blockers :: "target_plan \<Rightarrow> blocker list" where
  "disk_blockers t =
     (if tg_required t > tg_available t then
        [target_blocker ''DISK_INSUFFICIENT'' (bytes
     [0xE7, 0x9B, 0xAE, 0xE6, 0xA0, 0x87, 0xE7, 0xA3, 0x81, 0xE7, 0x9B, 0x98, 0xE7, 0xA9,
      0xBA, 0xE9, 0x97, 0xB4, 0xE4, 0xB8, 0x8D, 0xE8, 0xB6, 0xB3]) t] else [])"

text \<open>What \<open>finishTarget\<close> makes of the answer to its observation.\<close>

definition observed_target :: "string \<Rightarrow> target_plan \<Rightarrow> errs + runtime_observation \<Rightarrow> errs + target_plan" where
  "observed_target minimum t answer =
     (case answer of
        Inl e \<Rightarrow> Inr (t\<lparr>tg_blockers := tg_blockers t @
          [target_blocker ''TARGET_OBSERVE_FAILED'' (bytes
     [0xE8, 0xBF, 0x90, 0xE8, 0xA1, 0x8C, 0xE7, 0x9B, 0xAE, 0xE6, 0xA0, 0x87, 0xE7, 0x8A,
      0xB6, 0xE6, 0x80, 0x81, 0xE8, 0x8E, 0xB7, 0xE5, 0x8F, 0x96, 0xE5, 0xA4, 0xB1, 0xE8,
      0xB4, 0xA5, 0x3A, 0x20] @ errs_text e) t]\<rparr>)
      | Inr ob \<Rightarrow>
          if ob_target ob \<noteq> tg_target t \<or> ob_node ob \<noteq> tg_node t \<or>
             ob_installation ob \<noteq> tg_installation t \<or> ob_available ob < 0 then Inl [Invalid_Input]
          else
            let t1 = t\<lparr>tg_online := ob_online ob, tg_caps := normalized_strings (ob_caps ob),
                  tg_version := trim_space (ob_version ob), tg_available := ob_available ob\<rparr>;
                t2 = t1\<lparr>tg_blockers := tg_blockers t1 @ observation_blockers minimum t1\<rparr>
            in (case required_bytes (ob_cached ob) (tg_mods t2) (tg_required t2) of
                  None \<Rightarrow> Inl [Invalid_Input]
                | Some n \<Rightarrow>
                    let t3 = t2\<lparr>tg_required := n\<rparr>
                    in Inr (t3\<lparr>tg_blockers := sort_blockers (tg_blockers t3 @ disk_blockers t3)\<rparr>)))"

definition finish_target :: "string \<Rightarrow> target_plan \<Rightarrow> ('s pub_env_scheme, errs, target_plan) act" where
  "finish_target minimum t0 =
     (let t1 = t0\<lparr>tg_worlds := sort_key (\<lambda>w. world_key (wp_room w) (wp_world w)) (tg_worlds t0)\<rparr>
      in andthen (lift (target_versions t1 (concat (map wp_mods (tg_worlds t1))) [])) (\<lambda>versions.
           let t2 = t1\<lparr>tg_mods := sort_artifacts (tg_mods t1 @ map snd versions)\<rparr>;
               placement = \<lparr>pl_room = [], pl_world = [], pl_target = tg_target t2, pl_node = tg_node t2,
                 pl_installation = tg_installation t2\<rparr>
           in andthen (attempt (receive (\<lambda>s n. rd_observe s n placement))) (\<lambda>answer.
                lift (observed_target minimum t2 answer))))"

fun finish_targets :: "string \<Rightarrow> target_plan list \<Rightarrow> ('s pub_env_scheme, errs, target_plan list) act" where
  "finish_targets minimum [] = return_ok []"
| "finish_targets minimum (t # ts) =
     andthen (finish_target minimum t) (\<lambda>t'. andthen (finish_targets minimum ts) (\<lambda>ts'. return_ok (t' # ts')))"

text \<open>The error of \<open>json.Marshal\<close>.\<close>

definition time_error :: cause where
  "time_error =
     Other_Failure (''json: error calling MarshalJSON for type time.Time: '' @
       ''Time.MarshalJSON: year outside of range [0,9999]'')"

text \<open>The plan before its hash.\<close>

definition assembled_plan ::
  "string \<Rightarrow> string \<Rightarrow> string list \<Rightarrow> bool \<Rightarrow> int \<Rightarrow> target_plan list \<Rightarrow> mod_plan" where
  "assembled_plan room revision rooms restart now ts =
     (let blockers = sort_blockers (concat (map tg_blockers ts))
      in \<lparr>pn_version = 1, pn_room = room, pn_revision = revision, pn_hash = [], pn_rooms = sort rooms,
          pn_targets = sort_key target_plan_key ts, pn_blockers = blockers, pn_ready = (blockers = []),
          pn_restart = restart, pn_created = now\<rparr>)"

definition preview :: "string \<Rightarrow> string \<Rightarrow> ('s pub_env_scheme, errs, mod_plan) act" where
  "preview minimum room0 =
     (let room = trim_space room0
      in andthen (guard [Invalid_Input] (valid_id room)) (\<lambda>_.
         andthen (receive rd_worlds) (\<lambda>worlds.
         andthen (receive rd_placements) (\<lambda>snapshot.
         andthen (guard [Invalid_Input] (valid_id (ps_revision snapshot))) (\<lambda>_.
         andthen (lift (worlds_by_key worlds [])) (\<lambda>by_key.
         andthen (lift (placements_by_world room by_key (ps_placements snapshot) [] [] 0)) (\<lambda>(placed, requested, n).
         andthen (guard [Pub_Not_Found] (n \<noteq> 0)) (\<lambda>_.
         andthen (collect_worlds minimum placed requested by_key [] [] []) (\<lambda>(ts, rooms).
         andthen read_now (\<lambda>now.
         andthen (finish_targets minimum (map snd ts)) (\<lambda>done.
           let p = assembled_plan room (ps_revision snapshot) rooms (ts \<noteq> []) now done
           in case calculate_plan_hash p of
                None \<Rightarrow> raise [time_error]
              | Some h \<Rightarrow> return_ok (p\<lparr>pn_hash := h\<rparr>))))))))))))"

definition new_planner :: "string \<Rightarrow> errs + string" where
  "new_planner minimum0 =
     (let minimum = trim_space minimum0
      in if minimum \<noteq> [] \<and> parse_version minimum = None then Inl [Invalid_Input] else Inr minimum)"

section \<open>Texts and keys\<close>

lemma trim_all_suffix: "trim_left_with ws n s = [] \<Longrightarrow> s \<noteq> [] \<Longrightarrow> \<exists>w \<in> set ws. has_suffix s w"
proof (induction n arbitrary: s)
  case (Suc n)
  then obtain w where w: "List.find (has_prefix s) ws = Some w"
    and rest: "trim_left_with ws n (drop (length w) s) = []"
    by (cases "List.find (has_prefix s) ws") auto
  from find_SomeD [OF w] have "w \<in> set ws" "has_prefix s w" by auto
  show ?case
  proof (cases "drop (length w) s = []")
    case True
    then have "s = w" using \<open>has_prefix s w\<close> by (simp add: has_prefix_def)
    with \<open>w \<in> set ws\<close> show ?thesis by (intro bexI [of _ w]) (simp_all add: has_suffix_def has_prefix_def)
  next
    case False
    with Suc.IH rest obtain v where "v \<in> set ws" "has_suffix (drop (length w) s) v" by blast
    then have "has_suffix s v"
      by (metis append_take_drop_id has_prefix_append has_suffix_def rev_append)
    with \<open>v \<in> set ws\<close> show ?thesis by blast
  qed
qed simp

text \<open>A text that begins with neither an ASCII character nor a multi-byte space is not blank.\<close>

lemma trim_space_nonempty:
  assumes "s \<noteq> []" and "\<And>w. w \<in> set go_spaces \<Longrightarrow> \<not> has_prefix s w"
  shows "trim_space s \<noteq> []"
proof
  assume "trim_space s = []"
  moreover have "trim_left s = s" unfolding trim_left_def by (rule trim_left_with_id) (rule assms(2))
  ultimately have "trim_left_with (map rev go_spaces) (length s) (rev s) = []"
    by (simp add: trim_space_def trim_right_def)
  with assms(1) obtain w where "w \<in> set go_spaces" "has_suffix (rev s) (rev w)"
    using trim_all_suffix [of "map rev go_spaces" "length s" "rev s"] by auto
  with assms(2) show False by (simp add: has_suffix_def)
qed

lemma trim_space_message:
  assumes "n \<in> {0xE7, 0xE8}" shows "trim_space (bytes (n # ns) @ t) \<noteq> []"
proof (rule trim_space_nonempty)
  fix w assume "w \<in> set go_spaces"
  then obtain c cs where w: "w = c # cs" and c: "c \<notin> {CHR 0xE7, CHR 0xE8}"
    by (auto simp: go_spaces_code)
  have "char_of (0xE7 :: nat) = CHR 0xE7" "char_of (0xE8 :: nat) = CHR 0xE8"
    by (simp_all add: char_of_def bit_0)
  with w c assms show "\<not> has_prefix (bytes (n # ns) @ t) w"
    by (auto simp: has_prefix_def bytes_def)
qed (simp add: bytes_def)

lemma is_hex_lower: "is_hex c \<Longrightarrow> is_hex (lower_char c)"
  by (auto simp: is_hex_def lower_char_def Let_def)

lemma valid_sha_lower: "valid_sha v \<Longrightarrow> valid_sha (to_lower v)"
  by (auto simp: valid_sha_def hex_decodes_def to_lower_def list_all_iff is_hex_lower)

lemma valid_sha_hash [simp]: "valid_sha (hash_bytes s)"
  by (auto simp: valid_sha_def hex_decodes_def list_all_iff hash_bytes_digits)

lemma to_lower_hash [simp]: "to_lower (hash_bytes s) = hash_bytes s"
  unfolding to_lower_def by (rule map_idI) (rule hash_bytes_digits)

lemma append_sep_inj:
  assumes "a @ c # b = x @ c # y" and "c \<notin> set a" and "c \<notin> set x"
  shows "a = x \<and> b = y"
  using assms by (induction a arbitrary: x) (auto simp: Cons_eq_append_conv append_eq_Cons_conv)

lemma valid_id_no_nul: "valid_id v \<Longrightarrow> nul \<notin> set v"
  by (auto simp: valid_id_def contains_any_def)

lemma pair_key_inj: "pair_key a b = pair_key x y \<Longrightarrow> valid_id a \<Longrightarrow> valid_id x \<Longrightarrow> a = x \<and> b = y"
  unfolding pair_key_def using append_sep_inj [of a nul b x y] valid_id_no_nul by auto

lemma workshop_no_colon: "valid_workshop_id v \<Longrightarrow> CHR '':'' \<notin> set v"
  by (auto simp: valid_workshop_id_def list_all_iff is_digit_def)

lemma cache_key_inj:
  "cache_key q = cache_key q' \<Longrightarrow> valid_workshop_id (mq_workshop q) \<Longrightarrow> valid_workshop_id (mq_workshop q') \<Longrightarrow>
    mq_workshop q = mq_workshop q'"
  unfolding cache_key_def using append_sep_inj [of "mq_workshop q" "CHR '':''" _ "mq_workshop q'"] workshop_no_colon
  by auto

section \<open>Maps\<close>

lemma set_put_filter:
  assumes "ordered_keys m"
  shows "set (put k v m) = insert (k, v) {x \<in> set m. fst x \<noteq> k}"
proof -
  have "x \<in> set (put k v m) \<longleftrightarrow> x \<in> insert (k, v) {x \<in> set m. fst x \<noteq> k}" for x
    using ordered_keys_map_of [OF ordered_keys_put [OF assms], of k v "fst x" "snd x"]
      ordered_keys_map_of [OF assms, of "fst x" "snd x"]
    by (cases x) (auto split: if_splits)
  then show ?thesis by blast
qed

lemma put_all:
  assumes "ordered_keys m" and "\<forall>(k, v) \<in> set m. P k v" and "P k v"
  shows "\<forall>(k, v) \<in> set (put k v m). P k v"
  using assms by (auto simp: set_put_filter)

lemma lift_eq [simp]: "lift r s = (r', s') \<longleftrightarrow> r = r' \<and> s' = s"
  by (auto simp: lift_def)

lemma receive_eq_Inr [simp]:
  "receive f s = (Inr a, s') \<longleftrightarrow> \<not> fault s (step s) \<and> a = f s (step s) \<and> s' = s\<lparr>step := Suc (step s)\<rparr>"
  by (auto simp: receive_def Let_def)

section \<open>What the loops collect\<close>

definition worlds_read :: "(string \<times> managed_world) list \<Rightarrow> bool" where
  "worlds_read m \<longleftrightarrow>
     ordered_keys m \<and> (\<forall>(k, w) \<in> set m. k = world_key (mw_room w) (mw_world w) \<and> validate_world w)"

definition placements_read :: "(string \<times> applied_placement) list \<Rightarrow> bool" where
  "placements_read m \<longleftrightarrow>
     ordered_keys m \<and> (\<forall>(k, p) \<in> set m. k = world_key (pl_room p) (pl_world p) \<and> validate_placement p)"

definition cache_ok :: "(string \<times> content_artifact) list \<Rightarrow> bool" where
  "cache_ok m \<longleftrightarrow>
     ordered_keys m \<and>
     (\<forall>(k, a) \<in> set m. \<exists>q. k = cache_key q \<and> valid_workshop_id (mq_workshop q) \<and> af_workshop a = mq_workshop q \<and>
        stored_artifact_ok a)"

lemma worlds_by_key_read:
  "worlds_by_key ws m = Inr m' \<Longrightarrow> worlds_read m \<Longrightarrow> worlds_read m'"
proof (induction ws m rule: worlds_by_key.induct)
  case (2 w ws m)
  then have "worlds_read (put (world_key (mw_room w) (mw_world w)) w m)"
    unfolding worlds_read_def by (intro conjI put_all) (auto split: if_splits)
  with 2 show ?case by (auto split: if_splits)
qed simp

lemma placements_by_world_read:
  "placements_by_world room worlds ps m requested n = Inr (m', requested', n') \<Longrightarrow> placements_read m \<Longrightarrow>
    placements_read m'"
proof (induction room worlds ps m requested n rule: placements_by_world.induct)
  case (2 room worlds p ps m requested n)
  then have "placements_read (put (world_key (pl_room p) (pl_world p)) p m)"
    unfolding placements_read_def by (intro conjI put_all) (auto simp: Let_def split: if_splits)
  with 2 show ?case by (auto simp: Let_def split: if_splits)
qed simp

definition room_placed ::
  "string \<Rightarrow> (string \<times> managed_world) list \<Rightarrow> (string \<times> applied_placement) list \<Rightarrow> string list \<Rightarrow> bool" where
  "room_placed room worlds m requested \<longleftrightarrow>
     (\<exists>k w p. map_of worlds k = Some w \<and> map_of m k = Some p \<and> pl_room p = room \<and> installation_key p \<in> set requested)"

lemma room_placed_put:
  assumes "map_of m k = None" and "room_placed room worlds m requested" and "set requested \<subseteq> set r"
  shows "room_placed room worlds (put k p m) r"
proof -
  from assms(2) obtain k' w q where "map_of worlds k' = Some w" "map_of m k' = Some q" "pl_room q = room"
    "installation_key q \<in> set requested"
    unfolding room_placed_def by blast
  moreover from this(2) assms(1) have "k' \<noteq> k" by auto
  ultimately show ?thesis using assms(3) unfolding room_placed_def
    by (intro exI [of _ k'] exI [of _ w] exI [of _ q]) auto
qed

lemma placements_by_world_room:
  "placements_by_world room worlds ps m requested n = Inr (m', requested', n') \<Longrightarrow>
    (n = 0 \<or> room_placed room worlds m requested) \<Longrightarrow> n' = 0 \<or> room_placed room worlds m' requested'"
proof (induction room worlds ps m requested n rule: placements_by_world.induct)
  case (2 room worlds p ps m requested n)
  let ?k = "world_key (pl_room p) (pl_world p)"
  from 2(3) have new: "map_of m ?k = None" by (auto simp: Let_def split: if_splits)
  then have keep: "room_placed room worlds m requested \<Longrightarrow> set requested \<subseteq> set r \<Longrightarrow>
      room_placed room worlds (put ?k p m) r" for r
    by (rule room_placed_put)
  have "pl_room p = room \<Longrightarrow> map_of worlds ?k \<noteq> None \<Longrightarrow>
      room_placed room worlds (put ?k p m) (installation_key p # requested)"
    unfolding room_placed_def by (intro exI [of _ ?k]) auto
  with 2 keep [of requested] keep [of "installation_key p # requested"] show ?case
    by (auto simp: Let_def split: if_splits)
qed auto

lemma requirements_ok_facts:
  "requirements_ok qs seen \<Longrightarrow>
    distinct (map mq_workshop qs) \<and> mq_workshop ` set qs \<inter> set seen = {} \<and> (\<forall>q \<in> set qs. valid_workshop_id (mq_workshop q))"
  by (induction qs seen rule: requirements_ok.induct) (auto split: if_splits)

lemma validated_artifact:
  assumes "validate_artifact q a = Inr u"
  shows "af_workshop a = mq_workshop q \<and>
    stored_artifact_ok (a\<lparr>af_tree := to_lower (af_tree a), af_manifest := to_lower (af_manifest a)\<rparr>)"
  using assms by (auto simp: validate_artifact_def stored_artifact_ok_def valid_sha_lower split: if_splits)

lemma resolve_mods_ok:
  fixes s :: "'a pub_env_scheme"
  shows "resolve_mods qs cache s = (Inr (as, cache'), s') \<Longrightarrow> cache_ok cache \<Longrightarrow>
    \<forall>q \<in> set qs. valid_workshop_id (mq_workshop q) \<Longrightarrow>
    map af_workshop as = map mq_workshop qs \<and> (\<forall>a \<in> set as. stored_artifact_ok a) \<and> cache_ok cache'"
proof (induction qs arbitrary: cache as cache' s s')
  case (Cons q qs)
  from Cons.prems(1) obtain a cache1 as1 s1 where
    first: "(case map_of cache (cache_key q) of
          Some a \<Rightarrow> return_ok (a, cache)
        | None \<Rightarrow>
            andthen (receive (\<lambda>s n. rd_content s n q)) (\<lambda>a.
            andthen (lift (validate_artifact q a)) (\<lambda>_.
              let a' = a\<lparr>af_tree := to_lower (af_tree a), af_manifest := to_lower (af_manifest a)\<rparr>
              in return_ok (a', put (cache_key q) a' cache)))) s = (Inr (a, cache1), s1)"
    and rest: "resolve_mods qs cache1 s1 = (Inr (as1, cache'), s')" and as: "as = a # as1"
    by (auto simp: andthen_eq_Inr_iff split: prod.splits)
  have "af_workshop a = mq_workshop q \<and> stored_artifact_ok a \<and> cache_ok cache1"
  proof (cases "map_of cache (cache_key q)")
    case None
    with first obtain b where b: "validate_artifact q b = Inr ()" and
      a: "a = b\<lparr>af_tree := to_lower (af_tree b), af_manifest := to_lower (af_manifest b)\<rparr>" and
      cache1: "cache1 = put (cache_key q) a cache"
      by (auto simp: andthen_eq_Inr_iff Let_def)
    from validated_artifact [OF b] a have ok: "af_workshop a = mq_workshop q" "stored_artifact_ok a" by auto
    have "cache_ok cache1"
      unfolding cache_ok_def cache1 using Cons.prems(2,3) ok
      by (intro conjI put_all) (auto simp: cache_ok_def)
    with ok show ?thesis by simp
  next
    case (Some c)
    with first have "a = c" "cache1 = cache" by auto
    moreover from Some Cons.prems(2) obtain q' where "cache_key q = cache_key q'" "valid_workshop_id (mq_workshop q')"
      "af_workshop c = mq_workshop q'" "stored_artifact_ok c"
      by (auto simp: cache_ok_def dest!: map_of_SomeD)
    ultimately show ?thesis using cache_key_inj [of q q'] Cons.prems(2,3) by auto
  qed
  with Cons.IH [OF rest] Cons.prems(3) as show ?case by simp
qed simp

text \<open>A world whose overrides may still hold a NUL byte.\<close>

definition world_prepared :: "world_plan \<Rightarrow> bool" where
  "world_prepared w \<longleftrightarrow>
     valid_id (wp_room w) \<and> safe_component (wp_room_dir w) \<and> valid_id (wp_world w) \<and>
     safe_component (wp_world_dir w) \<and> length (wp_overrides w) \<le> 8388608 \<and> mods_wf (wp_mods w)"

lemma world_wf_iff: "world_wf w \<longleftrightarrow> world_prepared w \<and> nul \<notin> set (wp_overrides w)"
  by (auto simp: world_wf_def world_ok_def world_prepared_def)

definition target_fresh :: "target_plan \<Rightarrow> bool" where
  "target_fresh t \<longleftrightarrow>
     valid_id (tg_target t) \<and> valid_id (tg_node t) \<and> valid_id (tg_installation t) \<and> tg_available t = 0 \<and>
     tg_required t = 0 \<and> tg_mods t = [] \<and> tg_blockers t = [] \<and> tg_worlds t \<noteq> [] \<and>
     (\<forall>w \<in> set (tg_worlds t). world_prepared w)"

definition targets_fresh :: "(string \<times> target_plan) list \<Rightarrow> bool" where
  "targets_fresh ts \<longleftrightarrow> ordered_keys ts \<and> (\<forall>(k, t) \<in> set ts. k = target_plan_key t \<and> target_fresh t)"

definition all_worlds :: "(string \<times> target_plan) list \<Rightarrow> world_plan list" where
  "all_worlds ts = concat (map (tg_worlds \<circ> snd) ts)"

lemma all_worlds_put:
  "ordered_keys ts \<Longrightarrow> tg_worlds t = (case map_of ts k of Some t0 \<Rightarrow> tg_worlds t0 | None \<Rightarrow> []) @ [w] \<Longrightarrow>
    mset (all_worlds (put k t ts)) = add_mset w (mset (all_worlds ts))"
proof (induction k t ts rule: put.induct)
  case (2 k t k' t' ts)
  have "k < k' \<Longrightarrow> map_of ts k = None"
    using 2(2) by (auto simp: ordered_keys_def map_of_eq_None_iff)
  with 2 show ?case by (auto simp: all_worlds_def ordered_keys_def)
qed (simp add: all_worlds_def)

lemma add_world_fresh:
  assumes "targets_fresh ts" and "validate_placement p" and "world_prepared w"
  shows "targets_fresh (add_world minimum p w ts)"
    and "mset (all_worlds (add_world minimum p w ts)) = add_mset w (mset (all_worlds ts))"
proof -
  let ?k = "installation_key p"
  define t0 where "t0 = (case map_of ts ?k of Some t \<Rightarrow> t | None \<Rightarrow> new_target minimum p)"
  let ?t = "t0\<lparr>tg_worlds := tg_worlds t0 @ [w]\<rparr>"
  have add: "add_world minimum p w ts = put ?k ?t ts" by (simp add: add_world_def t0_def Let_def)
  have "?k = target_plan_key t0 \<and> target_fresh ?t"
  proof (cases "map_of ts ?k")
    case None
    with assms(2,3) show ?thesis
      by (auto simp: t0_def new_target_def installation_key_def target_plan_key_def target_fresh_def validate_placement_def)
  next
    case (Some t)
    then have "(?k, t) \<in> set ts" by (rule map_of_SomeD)
    with assms(1,3) Some show ?thesis by (auto simp: t0_def targets_fresh_def target_fresh_def)
  qed
  then show "targets_fresh (add_world minimum p w ts)"
    using assms(1) unfolding add targets_fresh_def
    by (intro conjI put_all) (auto simp: target_plan_key_def)
  show "mset (all_worlds (add_world minimum p w ts)) = add_mset w (mset (all_worlds ts))"
    unfolding add using assms(1)
    by (intro all_worlds_put) (auto simp: targets_fresh_def t0_def new_target_def split: option.split)
qed

lemma sort_artifacts_same [simp]:
  "set (sort_artifacts as) = set as" "set (mod_pairs (sort_artifacts as)) = set (mod_pairs as)"
  "mods_wf (sort_artifacts as) = mods_wf as"
proof -
  have "mset (map af_workshop (sort_artifacts as)) = mset (map af_workshop as)"
    by (simp add: sort_artifacts_def)
  then have "distinct (map af_workshop (sort_artifacts as)) = distinct (map af_workshop as)"
    by (rule mset_eq_imp_distinct_iff)
  then show "mods_wf (sort_artifacts as) = mods_wf as" by (simp add: mods_wf_def sort_artifacts_def)
qed (simp_all add: sort_artifacts_def mod_pairs_def)

lemma world_plan_of_prepared:
  assumes "validate_world w" and "map af_workshop mods = map mq_workshop (mw_mods w)"
    and "\<forall>a \<in> set mods. stored_artifact_ok a"
  shows "world_prepared (world_plan_of w mods)"
proof -
  have "mods_wf mods"
    using assms requirements_ok_facts [of "mw_mods w" "[]"] by (simp add: mods_wf_def validate_world_def)
  with assms(1) show ?thesis by (auto simp: validate_world_def world_prepared_def world_plan_of_def)
qed

lemma distinct_map_mset: "mset xs = add_mset y (mset ys) \<Longrightarrow> distinct (map f xs) \<longleftrightarrow> f y \<notin> f ` set ys \<and> distinct (map f ys)"
  by (metis distinct.simps(2) list.set_map list.simps(9) mset.simps(2) mset_eq_imp_distinct_iff mset_map)

definition collected ::
  "(string \<times> applied_placement) list \<Rightarrow> string list \<Rightarrow> (string \<times> managed_world) list \<Rightarrow> string list \<Rightarrow> bool" where
  "collected placed requested ws rooms \<longleftrightarrow>
     (\<forall>(k, w) \<in> set ws. \<forall>p. map_of placed k = Some p \<and> installation_key p \<in> set requested \<longrightarrow> mw_room w \<in> set rooms)"

lemma collectedD:
  "collected placed requested ws rooms \<Longrightarrow> (k, w) \<in> set ws \<Longrightarrow> map_of placed k = Some p \<Longrightarrow>
    installation_key p \<in> set requested \<Longrightarrow> mw_room w \<in> set rooms"
  by (auto simp: collected_def)

lemma collected_Cons:
  "collected placed requested ((k, w) # ws) rooms \<longleftrightarrow>
     ((\<exists>p. map_of placed k = Some p \<and> installation_key p \<in> set requested) \<longrightarrow> mw_room w \<in> set rooms) \<and>
     collected placed requested ws rooms"
  by (auto simp: collected_def)

definition keyed_worlds :: "(string \<times> managed_world) list \<Rightarrow> bool" where
  "keyed_worlds ws \<longleftrightarrow> distinct (map fst ws) \<and> (\<forall>(k, w) \<in> set ws. k = world_key (mw_room w) (mw_world w) \<and> validate_world w)"

definition gathered :: "(string \<times> target_plan) list \<Rightarrow> string list \<Rightarrow> bool" where
  "gathered ts rooms \<longleftrightarrow>
     targets_fresh ts \<and> distinct (map plan_world_key (all_worlds ts)) \<and> distinct rooms \<and>
     set rooms = wp_room ` set (all_worlds ts)"

lemma gathered_add:
  assumes "gathered ts rooms" and "validate_placement p" and "world_prepared w"
    and "plan_world_key w \<notin> plan_world_key ` set (all_worlds ts)"
  shows "gathered (add_world minimum p w ts) (List.insert (wp_room w) rooms)"
    and "set (all_worlds (add_world minimum p w ts)) = insert w (set (all_worlds ts))"
proof -
  note fresh = add_world_fresh [of ts p w minimum]
  from assms have m: "mset (all_worlds (add_world minimum p w ts)) = add_mset w (mset (all_worlds ts))"
    by (intro fresh) (simp_all add: gathered_def)
  then show set: "set (all_worlds (add_world minimum p w ts)) = insert w (set (all_worlds ts))"
    by (metis set_mset_add_mset_insert set_mset_mset)
  show "gathered (add_world minimum p w ts) (List.insert (wp_room w) rooms)"
    using assms fresh(1) unfolding gathered_def set distinct_map_mset [OF m] by auto
qed

lemma collect_worlds_gathered:
  fixes s :: "'a pub_env_scheme"
  shows "collect_worlds minimum placed requested ws ts cache rooms s = (Inr (ts', rooms'), s') \<Longrightarrow>
    keyed_worlds ws \<Longrightarrow> placements_read placed \<Longrightarrow> cache_ok cache \<Longrightarrow> gathered ts rooms \<Longrightarrow>
    plan_world_key ` set (all_worlds ts) \<inter> fst ` set ws = {} \<Longrightarrow>
    gathered ts' rooms' \<and> set rooms \<subseteq> set rooms' \<and> collected placed requested ws rooms'"
proof (induction ws arbitrary: ts cache rooms s)
  case (Cons kw ws)
  obtain key w where kw: "kw = (key, w)" by fastforce
  from Cons.prems(2) kw have tail: "keyed_worlds ws" and w: "key = world_key (mw_room w) (mw_world w)" "validate_world w"
    and new: "key \<notin> fst ` set ws"
    by (auto simp: keyed_worlds_def)
  show ?case
  proof (cases "\<exists>p. map_of placed key = Some p \<and> installation_key p \<in> set requested")
    case False
    with Cons.prems(1) kw have "collect_worlds minimum placed requested ws ts cache rooms s = (Inr (ts', rooms'), s')"
      by (cases "map_of placed key") auto
    from Cons.IH [OF this tail Cons.prems(3-5)] Cons.prems(6) False show ?thesis
      unfolding kw collected_Cons by auto
  next
    case True
    then obtain p where p: "map_of placed key = Some p" "installation_key p \<in> set requested" by blast
    with Cons.prems(1) kw obtain mods cache1 s1 where
      mods: "resolve_mods (mw_mods w) cache s = (Inr (mods, cache1), s1)" and
      rest: "collect_worlds minimum placed requested ws (add_world minimum p (world_plan_of w mods) ts) cache1
        (List.insert (mw_room w) rooms) s1 = (Inr (ts', rooms'), s')"
      by (auto simp: andthen_eq_Inr_iff)
    from w(2) have "\<forall>q \<in> set (mw_mods w). valid_workshop_id (mq_workshop q)"
      using requirements_ok_facts by (auto simp: validate_world_def)
    from resolve_mods_ok [OF mods Cons.prems(4) this] have m: "map af_workshop mods = map mq_workshop (mw_mods w)"
      "\<forall>a \<in> set mods. stored_artifact_ok a" "cache_ok cache1" by auto
    let ?w = "world_plan_of w mods"
    have key: "plan_world_key ?w = key" "wp_room ?w = mw_room w"
      by (simp_all add: plan_world_key_def world_plan_of_def w(1))
    from p(1) Cons.prems(3) have "validate_placement p" by (auto simp: placements_read_def dest: map_of_SomeD)
    note add = gathered_add [OF Cons.prems(5) this world_plan_of_prepared [OF w(2) m(1,2)], of minimum, unfolded key]
    have "key \<notin> plan_world_key ` set (all_worlds ts)" using Cons.prems(6) kw by auto
    note add = add [OF this]
    have "plan_world_key ` set (all_worlds (add_world minimum p ?w ts)) \<inter> fst ` set ws = {}"
      using Cons.prems(6) new key(1) by (auto simp: add(2) kw)
    from Cons.IH [OF rest tail Cons.prems(3) m(3) add(1) this] show ?thesis
      unfolding kw collected_Cons by auto
  qed
qed (simp add: collected_def)

section \<open>What finishing a target gives\<close>

definition versions_read :: "(string \<times> content_artifact) list \<Rightarrow> (string \<times> string) set \<Rightarrow> bool" where
  "versions_read m pairs \<longleftrightarrow>
     ordered_keys m \<and> (\<forall>(k, a) \<in> set m. k = af_workshop a \<and> stored_artifact_ok a) \<and>
     (\<lambda>(k, a). (k, af_tree a)) ` set m = pairs"

lemma versions_read_put:
  assumes "versions_read m pairs" and "stored_artifact_ok a"
    and "map_of m (af_workshop a) = None \<or> (\<exists>c. map_of m (af_workshop a) = Some c \<and> af_tree c = af_tree a)"
  shows "versions_read (put (af_workshop a) a m) (insert (af_workshop a, af_tree a) pairs)"
proof -
  have m: "ordered_keys m" "\<forall>(k, a) \<in> set m. k = af_workshop a \<and> stored_artifact_ok a"
    "(\<lambda>(k, a). (k, af_tree a)) ` set m = pairs"
    using assms(1) by (simp_all add: versions_read_def)
  have same: "c \<in> set m \<Longrightarrow> fst c = af_workshop a \<Longrightarrow> af_tree (snd c) = af_tree a" for c
    using assms(3) ordered_keys_map_of [OF m(1), of "fst c" "snd c"] by (cases c) auto
  have "(\<lambda>(k, a). (k, af_tree a)) ` set (put (af_workshop a) a m) = insert (af_workshop a, af_tree a) pairs"
    unfolding set_put_filter [OF m(1)] m(3) [symmetric] using same by force
  moreover have "\<forall>(k, a) \<in> set (put (af_workshop a) a m). k = af_workshop a \<and> stored_artifact_ok a"
    using m(1,2) assms(2) by (intro put_all) auto
  ultimately show ?thesis using m(1) by (simp add: versions_read_def)
qed

lemma target_versions_read:
  "target_versions t as m = Inr m' \<Longrightarrow> versions_read m pairs \<Longrightarrow> \<forall>a \<in> set as. stored_artifact_ok a \<Longrightarrow>
    versions_read m' (pairs \<union> set (mod_pairs as))"
proof (induction t as m arbitrary: pairs rule: target_versions.induct)
  case (2 t a as m)
  then have "map_of m (af_workshop a) = None \<or> (\<exists>c. map_of m (af_workshop a) = Some c \<and> af_tree c = af_tree a)"
    and rest: "target_versions t as (put (af_workshop a) a m) = Inr m'"
    by (auto split: option.splits if_splits)
  with 2(4,5) have put: "versions_read (put (af_workshop a) a m) (insert (af_workshop a, af_tree a) pairs)"
    by (intro versions_read_put) auto
  have "versions_read m' (insert (af_workshop a, af_tree a) pairs \<union> set (mod_pairs as))"
    using 2(1) [OF _ _ put] 2(2) [OF _ _ _ put] 2(3,5) by (auto split: option.splits if_splits)
  then show ?case by simp
qed simp

lemma versions_mods:
  assumes "versions_read m pairs"
  shows "mods_wf (map snd m)" and "set (mod_pairs (map snd m)) = pairs"
proof -
  have keys: "map fst m = map af_workshop (map snd m)" and m: "\<forall>(k, a) \<in> set m. k = af_workshop a \<and> stored_artifact_ok a"
    using assms by (auto simp: versions_read_def)
  have "distinct (map fst m)" using assms ordered_keys_distinct by (auto simp: versions_read_def)
  then have "distinct (map af_workshop (map snd m))" by (simp only: keys)
  with m show "mods_wf (map snd m)" by (auto simp: mods_wf_def)
  have "set (mod_pairs (map snd m)) = (\<lambda>(k, a). (k, af_tree a)) ` set m"
    using m by (force simp: mod_pairs_def)
  then show "set (mod_pairs (map snd m)) = pairs" using assms by (simp add: versions_read_def)
qed

text \<open>A target as \<open>finishTarget\<close> leaves it, whatever was observed.\<close>

definition target_finished :: "target_plan \<Rightarrow> target_plan \<Rightarrow> bool" where
  "target_finished t t' \<longleftrightarrow>
     tg_target t' = tg_target t \<and> tg_node t' = tg_node t \<and> tg_installation t' = tg_installation t \<and>
     mset (tg_worlds t') = mset (tg_worlds t) \<and> 0 \<le> tg_available t' \<and> 0 \<le> tg_required t' \<and>
     mods_wf (tg_mods t') \<and> set (mod_pairs (tg_mods t')) = desired_mods t \<and>
     (\<forall>b \<in> set (tg_blockers t'). blocker_ok t b)"

lemma blocker_ok_message:
  assumes "valid_id code" and "n \<in> {0xE7, 0xE8}"
  shows "blocker_ok t (target_blocker code (bytes (n # ns) @ x) t)" "blocker_ok t (target_blocker code (bytes (n # ns)) t)"
  using assms trim_space_message [OF assms(2)] trim_space_message [OF assms(2), of ns "[]"]
  by (auto simp: blocker_ok_def target_blocker_def)

lemma valid_codes:
  "valid_id ''TARGET_OBSERVE_FAILED''" "valid_id ''TARGET_OFFLINE''" "valid_id ''CAPABILITY_MISSING''"
  "valid_id ''RUNTIME_VERSION_BLOCKED''" "valid_id ''DISK_INSUFFICIENT''"
  unfolding valid_id_def control_chars by code_simp+

lemma blocker_ok_ids:
  "tg_target t' = tg_target t \<Longrightarrow> tg_installation t' = tg_installation t \<Longrightarrow> blocker_ok t' b = blocker_ok t b"
  by (simp add: blocker_ok_def)

lemma observed_blockers_ok: "b \<in> set (observation_blockers minimum t @ disk_blockers t) \<Longrightarrow> blocker_ok t b"
  by (auto simp: observation_blockers_def disk_blockers_def valid_codes intro!: blocker_ok_message split: if_splits)

lemma required_bytes_nonneg:
  "required_bytes cached as n = Some m \<Longrightarrow> 0 \<le> n \<Longrightarrow> \<forall>a \<in> set as. 0 \<le> af_size a \<Longrightarrow> 0 \<le> m"
  by (induction cached as n rule: required_bytes.induct) (auto split: if_splits)

lemma desired_mods_sort: "desired_mods (t\<lparr>tg_worlds := sort_key f (tg_worlds t)\<rparr>) = desired_mods t"
  by (simp add: desired_mods_def)

lemma concat_world_mods: "set (mod_pairs (concat (map wp_mods ws))) = (\<Union>w \<in> set ws. set (mod_pairs (wp_mods w)))"
  by (auto simp: mod_pairs_def)

lemma observed_target_finished:
  assumes "observed_target minimum t answer = Inr t'"
    and "tg_required t = 0" and "tg_available t = 0" and "tg_blockers t = []" and "mods_wf (tg_mods t)"
  shows "tg_target t' = tg_target t \<and> tg_node t' = tg_node t \<and> tg_installation t' = tg_installation t \<and>
     tg_worlds t' = tg_worlds t \<and> tg_mods t' = tg_mods t \<and> 0 \<le> tg_available t' \<and> 0 \<le> tg_required t' \<and>
     (\<forall>b \<in> set (tg_blockers t'). blocker_ok t b)"
proof (cases answer)
  case (Inl e)
  with assms show ?thesis
    by (auto simp: observed_target_def valid_codes intro!: blocker_ok_message)
next
  case (Inr ob)
  let ?t1 = "t\<lparr>tg_online := ob_online ob, tg_caps := normalized_strings (ob_caps ob),
    tg_version := trim_space (ob_version ob), tg_available := ob_available ob\<rparr>"
  from assms(1) Inr obtain n where n: "required_bytes (ob_cached ob) (tg_mods t) (tg_required t) = Some n"
    by (auto simp: observed_target_def Let_def split: if_splits option.splits)
  let ?t3 = "?t1\<lparr>tg_blockers := observation_blockers minimum ?t1, tg_required := n\<rparr>"
  have "ob_available ob \<ge> 0" and t': "t' = ?t3\<lparr>tg_blockers := sort_blockers (observation_blockers minimum ?t1 @ disk_blockers ?t3)\<rparr>"
    using assms Inr n by (auto simp: observed_target_def Let_def split: if_splits)
  moreover have "0 \<le> n"
    using required_bytes_nonneg [OF n] assms(2,5) by (auto simp: mods_wf_def stored_artifact_ok_def not_less)
  moreover have "blocker_ok t b" if "b \<in> set (observation_blockers minimum ?t1)" for b
    using that observed_blockers_ok [of b minimum ?t1] by (simp add: blocker_ok_def)
  moreover have "blocker_ok t b" if "b \<in> set (disk_blockers ?t3)" for b
    using that observed_blockers_ok [of b minimum ?t3] by (simp add: blocker_ok_def)
  ultimately show ?thesis by (auto simp: sort_blockers_def)
qed

lemma finish_target_finished:
  fixes s :: "'a pub_env_scheme"
  assumes "finish_target minimum t s = (Inr t', s')" and "target_fresh t"
  shows "target_finished t t'"
proof -
  let ?t1 = "t\<lparr>tg_worlds := sort_key (\<lambda>w. world_key (wp_room w) (wp_world w)) (tg_worlds t)\<rparr>"
  have t: "tg_mods t = []" "tg_blockers t = []" "tg_required t = 0" "tg_available t = 0"
    using assms(2) by (simp_all add: target_fresh_def)
  with assms(1) obtain versions answer where
    v: "target_versions ?t1 (concat (map wp_mods (tg_worlds ?t1))) [] = Inr versions" and
    t': "observed_target minimum (?t1\<lparr>tg_mods := sort_artifacts (map snd versions)\<rparr>) answer = Inr t'"
    by (auto simp: finish_target_def Let_def andthen_eq_Inr_iff)
  have stored: "\<forall>a \<in> set (concat (map wp_mods (tg_worlds ?t1))). stored_artifact_ok a"
    using assms(2) by (auto simp: target_fresh_def world_prepared_def mods_wf_def)
  have "versions_read versions (desired_mods t)"
    using target_versions_read [OF v _ stored, of "{}"]
    by (simp add: versions_read_def [of "[]"] concat_world_mods desired_mods_def)
  note mods = versions_mods [OF this]
  from observed_target_finished [OF t'] t mods show ?thesis
    by (simp add: target_finished_def blocker_ok_def)
qed

lemma finish_targets_finished:
  fixes s :: "'a pub_env_scheme"
  shows "finish_targets minimum ts s = (Inr ts', s') \<Longrightarrow> \<forall>t \<in> set ts. target_fresh t \<Longrightarrow>
    list_all2 target_finished ts ts'"
  by (induction ts arbitrary: ts' s) (auto simp: andthen_eq_Inr_iff dest: finish_target_finished)

lemma finished_desired:
  assumes "target_finished t t'" shows "desired_mods t' = desired_mods t"
proof -
  have "set (tg_worlds t') = set (tg_worlds t)"
    using assms by (metis mset_eq_setD target_finished_def)
  then show ?thesis by (simp add: desired_mods_def)
qed

text \<open>Short of NUL bytes in the overrides, a finished target is well formed.\<close>

lemma finished_target_wf:
  assumes "target_finished t t'" and "target_fresh t"
  shows "target_wf t' \<longleftrightarrow> (\<forall>w \<in> set (tg_worlds t'). nul \<notin> set (wp_overrides w))"
proof -
  have worlds: "set (tg_worlds t') = set (tg_worlds t)"
    using assms(1) by (metis mset_eq_setD target_finished_def)
  then have "tg_worlds t' \<noteq> []" using assms(2) by (auto simp: target_fresh_def)
  moreover have "\<forall>b \<in> set (tg_blockers t'). blocker_ok t' b"
    using assms(1) by (simp add: target_finished_def blocker_ok_def)
  moreover have "\<forall>w \<in> set (tg_worlds t'). world_prepared w"
    using assms(2) worlds by (simp add: target_fresh_def)
  ultimately show ?thesis
    using assms finished_desired [OF assms(1)]
    by (auto simp: target_wf_def target_ids_ok_def target_finished_def target_fresh_def world_wf_iff
        desired_mods_def [symmetric])
qed

lemma finished_same:
  "list_all2 target_finished ts ts' \<Longrightarrow>
    map target_plan_key ts' = map target_plan_key ts \<and>
    mset (concat (map tg_worlds ts')) = mset (concat (map tg_worlds ts))"
  by (induction rule: list_all2_induct) (simp_all add: target_finished_def target_plan_key_def)

lemma finished_wf:
  "list_all2 target_finished ts ts' \<Longrightarrow> \<forall>t \<in> set ts. target_fresh t \<Longrightarrow>
    (\<forall>t \<in> set ts'. target_wf t) \<longleftrightarrow> (\<forall>w \<in> set (concat (map tg_worlds ts')). nul \<notin> set (wp_overrides w))"
  by (induction rule: list_all2_induct) (auto simp: finished_target_wf)

lemma sort_blockers_idem [simp]: "sort_blockers (sort_blockers bs) = sort_blockers bs"
  by (simp add: sort_blockers_def sort_key_id_if_sorted)

lemma calculate_plan_hash_update: "calculate_plan_hash (p\<lparr>pn_hash := h\<rparr>) = calculate_plan_hash p"
  by (simp add: calculate_plan_hash_def split: option.split)

lemma calculate_plan_hash_digest: "calculate_plan_hash p = Some h \<Longrightarrow> \<exists>t. h = hash_bytes t"
  unfolding calculate_plan_hash_def by (cases "all_some (map target_json (pn_targets p))") auto

lemma finished_plan_wf:
  assumes ts: "list_all2 target_finished (map snd ts) ts'" and gathered: "gathered ts rooms"
    and room: "room \<in> set rooms" "valid_id room" and revision: "valid_id revision"
    and p: "p = assembled_plan room revision rooms (ts \<noteq> []) now ts'\<lparr>pn_hash := h\<rparr>"
    and hash: "calculate_plan_hash p = Some h" "valid_sha h" "to_lower h = h"
  shows "plan_wf p \<longleftrightarrow> now \<noteq> zero_time \<and> (\<forall>w \<in> set (plan_worlds p). nul \<notin> set (wp_overrides w))"
proof -
  have fresh: "\<forall>t \<in> set (map snd ts). target_fresh t" and keyed: "map target_plan_key (map snd ts) = map fst ts"
    and ordered: "ordered_keys ts"
    using gathered by (auto simp: gathered_def targets_fresh_def)
  have keys: "map target_plan_key ts' = map fst ts" and
    worlds: "mset (concat (map tg_worlds ts')) = mset (all_worlds ts)"
    using finished_same [OF ts] keyed by (simp_all add: all_worlds_def)
  have "sorted (map fst ts)" "distinct (map fst ts)"
    using ordered by (simp_all add: ordered_keys_def strict_sorted_iff)
  with keys have targets: "pn_targets p = ts'" and distinct: "distinct (map target_plan_key ts')"
    by (simp_all add: p assembled_plan_def Let_def sort_key_id_if_sorted)
  have pw: "plan_worlds p = concat (map tg_worlds ts')" by (simp add: plan_worlds_def targets)
  with worlds have set: "set (plan_worlds p) = set (all_worlds ts)" by (metis mset_eq_setD)
  have "mset (map plan_world_key (plan_worlds p)) = mset (map plan_world_key (all_worlds ts))"
    using worlds pw by simp
  then have dist: "distinct (map plan_world_key (plan_worlds p))"
    using gathered by (metis gathered_def mset_eq_imp_distinct_iff)
  have rooms: "set rooms = wp_room ` set (plan_worlds p)" using gathered set by (simp add: gathered_def)
  have "\<forall>w \<in> set (all_worlds ts). world_prepared w"
    using fresh by (auto simp: all_worlds_def target_fresh_def)
  then have "\<forall>r \<in> set rooms. trim_space r = r"
    using rooms set by (auto simp: world_prepared_def valid_id_def)
  then have trim: "map trim_space (sort rooms) = sort rooms" "trim_space ` set rooms = set rooms"
    by (auto intro!: map_idI simp: image_iff)
  have nonempty: "ts \<noteq> []" "ts' \<noteq> []" "rooms \<noteq> []"
    using room rooms pw ts by (auto simp: plan_worlds_def)
  have header: "plan_header_ok p \<longleftrightarrow> now \<noteq> zero_time"
    using nonempty room revision hash(2) targets set_empty [of "sort rooms"]
    by (auto simp: plan_header_ok_def p assembled_plan_def Let_def)
  show ?thesis
    unfolding plan_wf_def header targets finished_wf [OF ts fresh] pw [symmetric]
    using distinct dist trim room(1) rooms hash gathered
    by (auto simp: p gathered_def assembled_plan_def Let_def)
qed

lemma preview_checked:
  fixes s :: "'a pub_env_scheme"
  assumes "preview minimum room0 s = (Inr p, s')"
  shows "plan_check p = None \<longleftrightarrow>
    pn_created p \<noteq> zero_time \<and> (\<forall>w \<in> set (plan_worlds p). nul \<notin> set (wp_overrides w))"
proof -
  let ?room = "trim_space room0"
  from assms obtain ws by_key placed requested n ts rooms now ts' h and snapshot :: placement_snapshot
    and s1 s2 s3 s4 :: "'a pub_env_scheme" where
    valid: "valid_id ?room" "valid_id (ps_revision snapshot)" and
    by_key: "worlds_by_key ws [] = Inr by_key" and
    placed: "placements_by_world ?room by_key (ps_placements snapshot) [] [] 0 = Inr (placed, requested, n)" and
    n: "0 < n" and
    collect: "collect_worlds minimum placed requested by_key [] [] [] s1 = (Inr (ts, rooms), s2)" and
    finish: "finish_targets minimum (map snd ts) s3 = (Inr ts', s4)" and
    hash: "calculate_plan_hash (assembled_plan ?room (ps_revision snapshot) rooms (ts \<noteq> []) now ts') = Some h" and
    p: "p = assembled_plan ?room (ps_revision snapshot) rooms (ts \<noteq> []) now ts'\<lparr>pn_hash := h\<rparr>"
    by (clarsimp simp: preview_def Let_def andthen_eq_Inr_iff split: prod.splits option.splits)
  have read: "worlds_read by_key" "placements_read placed"
    using worlds_by_key_read [OF by_key] placements_by_world_read [OF placed]
    by (simp_all add: worlds_read_def placements_read_def)
  have "keyed_worlds by_key" using read(1) ordered_keys_distinct [of by_key]
    by (simp add: keyed_worlds_def worlds_read_def)
  from collect_worlds_gathered [OF collect this read(2)]
  have gathered: "gathered ts rooms" and all: "collected placed requested by_key rooms"
    by (simp_all add: cache_ok_def gathered_def [of "[]"] targets_fresh_def [of "[]"] all_worlds_def [of "[]"])
  have "room_placed ?room by_key placed requested"
    using placements_by_world_room [OF placed] n by simp
  then obtain k w q where q: "map_of by_key k = Some w" "map_of placed k = Some q" "pl_room q = ?room"
    "installation_key q \<in> set requested"
    by (auto simp: room_placed_def)
  then have "mw_room w \<in> set rooms" using all by (blast intro: collectedD map_of_SomeD)
  moreover have "mw_room w = ?room"
  proof -
    from q(1,2) read have "world_key (mw_room w) (mw_world w) = world_key (pl_room q) (pl_world q)"
      "validate_world w" "validate_placement q"
      by (force simp: worlds_read_def placements_read_def dest!: map_of_SomeD)+
    with q(3) show ?thesis
      using pair_key_inj [of "mw_room w" "mw_world w" "pl_room q" "pl_world q"]
      by (auto simp: world_key_def validate_world_def validate_placement_def)
  qed
  ultimately have room: "?room \<in> set rooms" by simp
  have h: "calculate_plan_hash p = Some h" "valid_sha h" "to_lower h = h"
    using hash calculate_plan_hash_digest [OF hash] by (auto simp: p calculate_plan_hash_update)
  have "\<forall>t \<in> set (map snd ts). target_fresh t"
    using gathered by (auto simp: gathered_def targets_fresh_def)
  from finished_plan_wf [OF finish_targets_finished [OF finish this] gathered room valid p h]
  have "plan_wf p \<longleftrightarrow> now \<noteq> zero_time \<and> (\<forall>w \<in> set (plan_worlds p). nul \<notin> set (wp_overrides w))" .
  then show ?thesis by (simp add: plan_check_plan_wf p assembled_plan_def Let_def)
qed

text \<open>C33: a plan \<open>Preview\<close> returns passes \<open>validatePlan\<close> exactly if the clock was set and no world's
overrides hold a NUL byte, which \<open>validateWorld\<close> lets through and \<open>validatePlan\<close> does not.\<close>

theorem preview_accepted:
  fixes s :: "'a pub_env_scheme"
  assumes "preview minimum room0 s = (Inr p, s')"
  shows "plan_check p = None \<longleftrightarrow>
    pn_created p \<noteq> zero_time \<and> (\<forall>w \<in> set (plan_worlds p). nul \<notin> set (wp_overrides w))"
  by (rule preview_checked [OF assms])

section \<open>An example\<close>

definition sample_tree :: string where
  "sample_tree = replicate 64 (CHR ''A'')"

definition sample_world :: managed_world where
  "sample_world =
     \<lparr>mw_room = ''room'', mw_room_dir = ''Cluster_1'', mw_world = ''world'', mw_world_dir = ''Master'', mw_master = True,
      mw_mods = [\<lparr>mq_workshop = ''378160973'', mq_tree = []\<rparr>], mw_overrides = ''return {}''\<rparr>"

definition sample_artifact :: content_artifact where
  "sample_artifact =
     \<lparr>af_workshop = ''378160973'', af_tree = sample_tree, af_manifest = sample_tree, af_size = 10, af_files = 1,
      af_source = ''steam'', af_steam_manifest = [], af_steam_updated = 0\<rparr>"

definition sample_placement :: applied_placement where
  "sample_placement =
     \<lparr>pl_room = ''room'', pl_world = ''world'', pl_target = ''target'', pl_node = ''node'', pl_installation = ''inst''\<rparr>"

definition sample_pub_env :: pub_env where
  "sample_pub_env =
     \<lparr>step = 0, fault = (\<lambda>_. False), cancelled = (\<lambda>_. False), clock = (\<lambda>_. 0), fresh = (\<lambda>_. ''e''), lease_rows = [],
      rd_worlds = (\<lambda>_. [sample_world]),
      rd_placements = (\<lambda>_. \<lparr>ps_revision = ''rev'', ps_placements = [sample_placement]\<rparr>),
      rd_content = (\<lambda>_ _. sample_artifact),
      rd_observe = (\<lambda>_ _. \<lparr>ob_target = ''target'', ob_node = ''node'', ob_installation = ''inst'', ob_online = False,
        ob_caps = [], ob_available = 5, ob_version = '' 1.2'', ob_cached = None\<rparr>)\<rparr>"

definition sample_stored :: content_artifact where
  "sample_stored = sample_artifact\<lparr>af_tree := to_lower (af_tree sample_artifact), af_manifest := to_lower (af_manifest sample_artifact)\<rparr>"

lemma sample_valid_ids: "valid_id ''room''" "valid_id ''rev''" "valid_id ''world''" "valid_id ''target''" "valid_id ''node''" "valid_id ''inst''"
  "safe_component ''Cluster_1''" "safe_component ''Master''" "trim_space ''room'' = ''room''"
  "valid_workshop_id ''378160973''" "trim_space ''steam'' = ''steam''" "trim_space '' 1.2'' = ''1.2''"
  unfolding safe_component_def valid_id_def control_chars by code_simp+

lemma sample_sha: "valid_sha sample_tree"
  unfolding sample_tree_def by code_simp

lemma sample_inputs:
  "validate_world sample_world" "validate_placement sample_placement"
  "validate_artifact (hd (mw_mods sample_world)) sample_artifact = Inr ()"
  by (simp_all add: validate_world_def validate_placement_def validate_artifact_def sample_sha sample_valid_ids
     sample_world_def sample_placement_def sample_artifact_def)

definition sample_target :: target_plan where
  "sample_target = new_target [] sample_placement\<lparr>tg_worlds := [world_plan_of sample_world [sample_stored]]\<rparr>"

lemma sample_loops:
  "worlds_by_key [sample_world] [] = Inr [(world_key ''room'' ''world'', sample_world)]"
  "placements_by_world ''room'' [(world_key ''room'' ''world'', sample_world)] [sample_placement] [] [] 0 =
     Inr ([(world_key ''room'' ''world'', sample_placement)], [installation_key sample_placement], 1)"
  using sample_inputs by (simp_all add: sample_world_def sample_placement_def Let_def)

lemma sample_collect:
  fixes s :: "'s pub_env_scheme"
  assumes "\<not> fault s (step s)" and "rd_content s = rd_content sample_pub_env"
  shows "collect_worlds [] [(world_key ''room'' ''world'', sample_placement)] [installation_key sample_placement]
    [(world_key ''room'' ''world'', sample_world)] [] [] [] s =
    (Inr ([(installation_key sample_placement, sample_target)], [''room'']), s\<lparr>step := Suc (step s)\<rparr>)"
  using assms sample_inputs
  by (simp add: sample_world_def andthen_def receive_def sample_pub_env_def sample_target_def add_world_def lift_def
      new_target_def sample_stored_def cache_key_def Let_def)

lemma sample_finish:
  fixes s :: pub_env
  assumes "fault s = fault sample_pub_env" and "rd_observe s = rd_observe sample_pub_env"
  shows "\<exists>t s'. finish_target [] sample_target s = (Inr t, s') \<and> tg_mods t = [sample_stored] \<and>
    tg_worlds t = tg_worlds sample_target"
proof -
  let ?t = "sample_target\<lparr>tg_mods := [sample_stored]\<rparr>"
  have t: "\<exists>t. observed_target [] ?t (Inr (rd_observe sample_pub_env n p)) = Inr t \<and>
      tg_mods t = [sample_stored] \<and> tg_worlds t = tg_worlds sample_target" for n p
    by (simp add: observed_target_def sample_pub_env_def sample_target_def new_target_def sample_placement_def
        sample_stored_def sample_artifact_def Let_def)
  show ?thesis
    using t assms
    by (simp add: finish_target_def sample_target_def new_target_def world_plan_of_def sort_artifacts_def Let_def andthen_def lift_def
        attempt_def receive_def sample_pub_env_def)
qed

lemma sample_hash: "tg_mods t = [sample_stored] \<Longrightarrow> tg_worlds t = tg_worlds sample_target \<Longrightarrow>
   \<exists>h. calculate_plan_hash (assembled_plan room revision rooms restart now [t]) = Some h"
proof -
  have "json_time 0 \<noteq> None" by code_simp
  then show "tg_mods t = [sample_stored] \<Longrightarrow> tg_worlds t = tg_worlds sample_target \<Longrightarrow> ?thesis"
    by (auto simp: calculate_plan_hash_def assembled_plan_def target_json_def artifacts_json_def world_json_def artifact_json_def
      sample_target_def world_plan_of_def sort_artifacts_def sample_stored_def sample_artifact_def)
qed

lemma sample_preview:
  "\<exists>t h s'. preview [] ''room'' sample_pub_env =
     (Inr (assembled_plan ''room'' ''rev'' [''room''] True 0 [t]\<lparr>pn_hash := h\<rparr>), s') \<and> tg_worlds t = tg_worlds sample_target"
proof -
  obtain t s' where t: "finish_target [] sample_target (sample_pub_env\<lparr>step := Suc (Suc (Suc (Suc 0)))\<rparr>) = (Inr t, s')"
    "tg_mods t = [sample_stored]" "tg_worlds t = tg_worlds sample_target"
    using sample_finish [of "sample_pub_env\<lparr>step := Suc (Suc (Suc (Suc 0)))\<rparr>"] by auto
  obtain h where "calculate_plan_hash (assembled_plan ''room'' ''rev'' [''room''] True 0 [t]) = Some h"
    using sample_hash [OF t(2,3)] by blast
  moreover have "rd_worlds sample_pub_env = (\<lambda>_. [sample_world])" "fault sample_pub_env = (\<lambda>_. False)"
    "rd_placements sample_pub_env = (\<lambda>_. \<lparr>ps_revision = ''rev'', ps_placements = [sample_placement]\<rparr>)"
    "step sample_pub_env = 0" "clock sample_pub_env = (\<lambda>_. 0)"
    by (simp_all add: sample_pub_env_def)
  ultimately show ?thesis
    using t sample_collect [of "sample_pub_env\<lparr>step := Suc (Suc 0)\<rparr>"]
    by (simp add: preview_def Let_def andthen_def receive_def lift_def sample_valid_ids sample_loops
        del: worlds_by_key.simps placements_by_world.simps collect_worlds.simps) blast
qed

theorem preview_accepted_witness:
  "\<exists>p s'. preview [] ''room'' sample_pub_env = (Inr p, s') \<and> plan_check p = None"
proof -
  obtain t h s' where p: "preview [] ''room'' sample_pub_env =
     (Inr (assembled_plan ''room'' ''rev'' [''room''] True 0 [t]\<lparr>pn_hash := h\<rparr>), s')" "tg_worlds t = tg_worlds sample_target"
    using sample_preview by blast
  have "nul \<notin> set (wp_overrides (world_plan_of sample_world [sample_stored]))"
    by (simp add: world_plan_of_def sample_world_def control_chars)
  with preview_accepted [OF p(1)] p show ?thesis
    by (auto simp: assembled_plan_def Let_def plan_worlds_def zero_time_def sample_target_def)
qed

end
