(* ===== verification/Mod_Store.thy ===== *)
theory Mod_Store
  imports Mod_Planner
begin

text \<open>
  \<open>internal/modpublication/store.go\<close>, with the activation policies of \<open>activation.go\<close> it validates: the
  tables of publications and of their targets. The JSON columns hold what decoding their text gives back:
  the value with every text that is not UTF-8 repaired (\<open>copy_\<close>), provided its times can be written. A
  text of more than 128 MiB, which \<open>strictJSON\<close> would cut off, is not modelled. The lemmas say what a saved
  publication is when it is read again.
\<close>

section \<open>Activation policies\<close>

definition normalize_policy :: "activation_policy \<Rightarrow> errs + activation_policy" where
  "normalize_policy p0 =
     (let p1 = (if ap_mode p0 = Mode_Unset then p0\<lparr>ap_mode := Mode_Manual\<rparr> else p0);
          p2 = (if ap_confirm p1 = Confirm_Unset
                then p1\<lparr>ap_confirm := (if ap_mode p1 = Mode_Restart then Confirm_Logs else Confirm_None)\<rparr> else p1);
          p = (if ap_timeout p2 = 0 then p2\<lparr>ap_timeout := 300\<rparr> else p2)
      in if ap_timeout p < 30 \<or> ap_timeout p > 900 \<or> ap_mode p = Mode_Manual \<and> ap_confirm p \<noteq> Confirm_None
         then Inl [Invalid_Input] else Inr p)"

definition initial_activation :: "activation_policy \<Rightarrow> activation" where
  "initial_activation p =
     \<lparr>ac_policy = p, ac_status = (if ap_mode p = Mode_Restart then Act_Pending else Act_Skipped), ac_code = [],
      ac_message = [], ac_shards = [], ac_requested = None, ac_finished = None\<rparr>"

fun shards_check :: "shard_result list \<Rightarrow> string list \<Rightarrow> errs option" where
  "shards_check [] seen = None"
| "shards_check (r # rs) seen =
     (if \<not> valid_id (sr_room r) \<or> \<not> valid_id (sr_world r) \<or> \<not> valid_id (sr_target r) \<or>
         \<not> valid_id (sr_installation r) \<or> sr_status r = Act_Unset \<or> sr_updated r = zero_time then Some [Invalid_Input]
      else if world_key (sr_room r) (sr_world r) \<in> set seen then Some [Pub_Conflict]
      else shards_check rs (world_key (sr_room r) (sr_world r) # seen))"

definition validate_activation :: "activation \<Rightarrow> errs option" where
  "validate_activation a =
     (if normalize_policy (ac_policy a) \<noteq> Inr (ac_policy a) \<or> ac_status a = Act_Unset then Some [Invalid_Input]
      else if ac_status a = Act_Skipped \<and> ap_mode (ac_policy a) = Mode_Restart \<and>
              \<not> list_all (\<lambda>r. sr_status r = Act_Skipped) (ac_shards a) then Some [Invalid_Input]
      else shards_check (ac_shards a) [])"

definition unset_policy :: activation_policy where
  "unset_policy = \<lparr>ap_mode = Mode_Unset, ap_confirm = Confirm_Unset, ap_timeout = 0\<rparr>"

definition unset_activation :: activation where
  "unset_activation =
     \<lparr>ac_policy = unset_policy, ac_status = Act_Unset, ac_code = [], ac_message = [], ac_shards = [],
      ac_requested = None, ac_finished = None\<rparr>"

definition manual_policy :: activation_policy where
  "manual_policy = \<lparr>ap_mode = Mode_Manual, ap_confirm = Confirm_None, ap_timeout = 300\<rparr>"

definition normalized_activation :: "activation \<Rightarrow> activation" where
  "normalized_activation a = (if a = unset_activation then initial_activation manual_policy else a)"

section \<open>JSON columns\<close>

function utf8_copy :: "string \<Rightarrow> string" where
  "utf8_copy [] = []"
| "utf8_copy (c # cs) =
     (let w = rune_width (c # cs)
      in if w = 0 then bytes [0xEF, 0xBF, 0xBD] @ utf8_copy cs
         else take w (c # cs) @ utf8_copy (drop (w - 1) cs))"
  by pat_completeness auto
termination by (relation "measure length") (auto simp: less_Suc_eq_le)

definition writable :: "int list \<Rightarrow> bool" where
  "writable ts \<longleftrightarrow> list_all (\<lambda>t. json_time t \<noteq> None) ts"

definition copy_artifact :: "content_artifact \<Rightarrow> content_artifact" where
  "copy_artifact a =
     a\<lparr>af_workshop := utf8_copy (af_workshop a), af_tree := utf8_copy (af_tree a),
       af_manifest := utf8_copy (af_manifest a), af_source := utf8_copy (af_source a),
       af_steam_manifest := utf8_copy (af_steam_manifest a)\<rparr>"

definition copy_blocker :: "blocker \<Rightarrow> blocker" where
  "copy_blocker b =
     \<lparr>bl_code = utf8_copy (bl_code b), bl_message = utf8_copy (bl_message b), bl_target = utf8_copy (bl_target b),
      bl_installation = utf8_copy (bl_installation b)\<rparr>"

text \<open>The overrides are a byte slice, which JSON holds in base 64.\<close>

definition copy_world :: "world_plan \<Rightarrow> world_plan" where
  "copy_world w =
     w\<lparr>wp_room := utf8_copy (wp_room w), wp_room_dir := utf8_copy (wp_room_dir w), wp_world := utf8_copy (wp_world w),
       wp_world_dir := utf8_copy (wp_world_dir w), wp_mods := map copy_artifact (wp_mods w)\<rparr>"

definition copy_target :: "target_plan \<Rightarrow> target_plan" where
  "copy_target t =
     t\<lparr>tg_target := utf8_copy (tg_target t), tg_node := utf8_copy (tg_node t),
       tg_installation := utf8_copy (tg_installation t), tg_caps := map utf8_copy (tg_caps t),
       tg_version := utf8_copy (tg_version t), tg_minimum := utf8_copy (tg_minimum t),
       tg_mods := map copy_artifact (tg_mods t), tg_worlds := map copy_world (tg_worlds t),
       tg_blockers := map copy_blocker (tg_blockers t)\<rparr>"

definition copy_plan :: "mod_plan \<Rightarrow> mod_plan" where
  "copy_plan p =
     p\<lparr>pn_room := utf8_copy (pn_room p), pn_revision := utf8_copy (pn_revision p), pn_hash := utf8_copy (pn_hash p),
       pn_rooms := map utf8_copy (pn_rooms p), pn_targets := map copy_target (pn_targets p),
       pn_blockers := map copy_blocker (pn_blockers p)\<rparr>"

definition plan_times :: "mod_plan \<Rightarrow> int list" where
  "plan_times p =
     pn_created p # concat (map (\<lambda>t. map af_steam_updated (tg_mods t) @
       concat (map (\<lambda>w. map af_steam_updated (wp_mods w)) (tg_worlds t))) (pn_targets p))"

definition copy_fence :: "fence \<Rightarrow> fence" where
  "copy_fence f =
     f\<lparr>fc_room := utf8_copy (fc_room f), fc_lease := utf8_copy (fc_lease f), fc_key := utf8_copy (fc_key f)\<rparr>"

definition copy_mode :: "performance_mode \<Rightarrow> performance_mode" where
  "copy_mode m = (case m of Other_Mode t \<Rightarrow> Other_Mode (utf8_copy t) | _ \<Rightarrow> m)"

definition copy_shard :: "shard_result \<Rightarrow> shard_result" where
  "copy_shard r =
     r\<lparr>sr_mode := copy_mode (sr_mode r), sr_room := utf8_copy (sr_room r), sr_world := utf8_copy (sr_world r), sr_target := utf8_copy (sr_target r),
       sr_installation := utf8_copy (sr_installation r), sr_state := utf8_copy (sr_state r),
       sr_marker := utf8_copy (sr_marker r), sr_code := utf8_copy (sr_code r), sr_message := utf8_copy (sr_message r)\<rparr>"

definition copy_activation :: "activation \<Rightarrow> activation" where
  "copy_activation a =
     a\<lparr>ac_code := utf8_copy (ac_code a), ac_message := utf8_copy (ac_message a), ac_shards := map copy_shard (ac_shards a)\<rparr>"

fun some_times :: "int option list \<Rightarrow> int list" where
  "some_times [] = []"
| "some_times (None # ts) = some_times ts"
| "some_times (Some t # ts) = t # some_times ts"

definition activation_times :: "activation \<Rightarrow> int list" where
  "activation_times a =
     some_times [ac_requested a, ac_finished a] @
     concat (map (\<lambda>r. sr_updated r # some_times [sr_restarted r, sr_confirmed r]) (ac_shards a))"

section \<open>Records\<close>

text \<open>\<open>pr_activation\<close> is \<open>None\<close> where the column is blank, as in a row of an earlier version.\<close>

record pub_row =
  pr_id :: string
  pr_idem :: string
  pr_source :: string
  pr_room :: string
  pr_status :: pub_status
  pr_outcome :: pub_outcome
  pr_revision :: string
  pr_hash :: string
  pr_plan :: mod_plan
  pr_backups :: "string list"
  pr_fences :: "fence list"
  pr_activation :: "activation option"
  pr_decision :: bool
  pr_restart :: bool
  pr_code :: string
  pr_message :: string
  pr_decided_at :: "int option"
  pr_finished :: "int option"
  pr_created :: int
  pr_updated :: int

record target_row =
  tr_id :: string
  tr_publication :: string
  tr_target :: string
  tr_installation :: string
  tr_status :: pub_status
  tr_cached :: bool
  tr_prepared :: bool
  tr_published :: bool
  tr_completed :: bool
  tr_rolled :: bool
  tr_code :: string
  tr_message :: string
  tr_prepared_at :: "int option"
  tr_published_at :: "int option"
  tr_completed_at :: "int option"
  tr_rolled_at :: "int option"
  tr_created :: int
  tr_updated :: int

definition validate_publication :: "publication \<Rightarrow> errs option" where
  "validate_publication v =
     (if \<not> valid_id (pb_id v) \<or> pb_source v \<noteq> [] \<and> \<not> valid_id (pb_source v) \<or> pb_room v \<noteq> pn_room (pb_plan v) \<or>
         pb_status v = Pub_Unset \<or> pb_outcome v = Out_Unset then Some [Invalid_Input]
      else case validate_activation (normalized_activation (pb_activation v)) of
        Some e \<Rightarrow> Some e
      | None \<Rightarrow> plan_check (pb_plan v))"

definition publication_idempotency_key :: "publication \<Rightarrow> string" where
  "publication_idempotency_key v = (if pb_source v \<noteq> [] then ''job:'' @ pb_source v else ''operation:'' @ pb_id v)"

definition target_result_id :: "string \<Rightarrow> string \<Rightarrow> string \<Rightarrow> string" where
  "target_result_id pub target inst = hash_bytes (pub @ [nul] @ target @ [nul] @ inst)"

definition publication_record_from :: "publication \<Rightarrow> errs + pub_row" where
  "publication_record_from v =
     (let act = normalized_activation (pb_activation v)
      in if \<not> writable (plan_times (pb_plan v) @ map fc_expires (pb_fences v) @ activation_times act) then Inl [time_error]
         else Inr
          \<lparr>pr_id = pb_id v, pr_idem = publication_idempotency_key v, pr_source = pb_source v, pr_room = pb_room v,
           pr_status = pb_status v, pr_outcome = pb_outcome v, pr_revision = pn_revision (pb_plan v),
           pr_hash = pn_hash (pb_plan v), pr_plan = copy_plan (pb_plan v), pr_backups = map utf8_copy (pb_backups v),
           pr_fences = map copy_fence (pb_fences v), pr_activation = Some (copy_activation act),
           pr_decision = pb_decision v, pr_restart = pb_restart v, pr_code = pb_code v, pr_message = pb_message v,
           pr_decided_at = pb_decided_at v, pr_finished = pb_finished v, pr_created = pb_created v,
           pr_updated = pb_updated v\<rparr>)"

definition publication_from_record :: "pub_row \<Rightarrow> errs + publication" where
  "publication_from_record r =
     (let check = plan_check (pr_plan r)
      in if check \<noteq> None \<or> pn_hash (pr_plan r) \<noteq> pr_hash r \<or> pn_revision (pr_plan r) \<noteq> pr_revision r
         then Inl (Invalid_Input # (case check of None \<Rightarrow> [] | Some e \<Rightarrow> e))
         else
           let v = \<lparr>pb_id = pr_id r, pb_source = pr_source r, pb_room = pr_room r, pb_status = pr_status r,
                  pb_outcome = pr_outcome r, pb_plan = pr_plan r, pb_backups = pr_backups r, pb_fences = pr_fences r,
                  pb_decision = pr_decision r, pb_restart = pr_restart r,
                  pb_activation = (case pr_activation r of None \<Rightarrow> initial_activation manual_policy | Some a \<Rightarrow> a),
                  pb_code = pr_code r, pb_message = pr_message r, pb_targets = [], pb_decided_at = pr_decided_at r,
                  pb_created = pr_created r, pb_updated = pr_updated r, pb_finished = pr_finished r\<rparr>
           in (case validate_publication v of None \<Rightarrow> Inr v | Some e \<Rightarrow> Inl e))"

definition pub_target_record_from :: "string \<Rightarrow> pub_target \<Rightarrow> int \<Rightarrow> target_row" where
  "pub_target_record_from pub v created =
     \<lparr>tr_id = target_result_id pub (pt_target v) (pt_installation v), tr_publication = pub, tr_target = pt_target v,
      tr_installation = pt_installation v, tr_status = pt_status v, tr_cached = pt_cached v, tr_prepared = pt_prepared v,
      tr_published = pt_published v, tr_completed = pt_completed v, tr_rolled = pt_rolled v, tr_code = pt_code v,
      tr_message = pt_message v, tr_prepared_at = pt_prepared_at v, tr_published_at = pt_published_at v,
      tr_completed_at = pt_completed_at v, tr_rolled_at = pt_rolled_at v, tr_created = created,
      tr_updated = pt_updated v\<rparr>"

definition pub_target_from_record :: "target_row \<Rightarrow> pub_target" where
  "pub_target_from_record r =
     \<lparr>pt_target = tr_target r, pt_installation = tr_installation r, pt_status = tr_status r, pt_cached = tr_cached r,
      pt_prepared = tr_prepared r, pt_published = tr_published r, pt_completed = tr_completed r, pt_rolled = tr_rolled r,
      pt_code = tr_code r, pt_message = tr_message r, pt_prepared_at = tr_prepared_at r,
      pt_published_at = tr_published_at r, pt_completed_at = tr_completed_at r, pt_rolled_at = tr_rolled_at r,
      pt_updated = tr_updated r\<rparr>"

section \<open>Operations\<close>

record pub_store = pub_env +
  pub_rows :: "pub_row list"
  target_rows :: "target_row list"

text \<open>A database statement, which fails with a text of its own.\<close>

definition statement :: "('s env_scheme, errs, unit) act" where
  "statement = receive (\<lambda>_ _. ())"

definition store_get :: "string \<Rightarrow> ('s pub_store_scheme, errs, publication) act" where
  "store_get pid =
     andthen statement (\<lambda>_.
     andthen (query (\<lambda>s. List.find (\<lambda>r. pr_id r = pid) (pub_rows s))) (\<lambda>found.
       case found of
         None \<Rightarrow> raise [Pub_Not_Found]
       | Some row \<Rightarrow>
           andthen (lift (publication_from_record row)) (\<lambda>v.
           andthen statement (\<lambda>_.
           andthen (query (\<lambda>s. sort_key (\<lambda>t. (tr_target t, tr_installation t))
             (filter (\<lambda>t. tr_publication t = pid) (target_rows s)))) (\<lambda>ts.
           andthen (guard [Invalid_Input] (length ts = length (pn_targets (pb_plan v)))) (\<lambda>_.
           return_ok (v\<lparr>pb_targets := map pub_target_from_record ts\<rparr>)))))))"

text \<open>A row whose key the table already has is refused by the database.\<close>

definition unique_failed :: cause where
  "unique_failed = Other_Failure ''UNIQUE constraint failed''"

fun insert_targets :: "string \<Rightarrow> int \<Rightarrow> pub_target list \<Rightarrow> ('s pub_store_scheme, errs, unit) act" where
  "insert_targets pub created [] = return_ok ()"
| "insert_targets pub created (t # ts) =
     andthen statement (\<lambda>_.
     andthen (query (\<lambda>s. target_result_id pub (pt_target t) (pt_installation t) \<in> tr_id ` set (target_rows s))) (\<lambda>taken.
     andthen (guard [unique_failed] (\<not> taken)) (\<lambda>_.
     andthen (modify (\<lambda>s. s\<lparr>target_rows := target_rows s @ [pub_target_record_from pub t created]\<rparr>)) (\<lambda>_.
     insert_targets pub created ts))))"

definition create_tx :: "publication \<Rightarrow> ('s pub_store_scheme, errs, unit) act" where
  "create_tx v =
     andthen
       (if pb_source v = [] then return_ok ()
        else andthen statement (\<lambda>_.
             andthen (query (\<lambda>s. count_where (\<lambda>r. pr_source r = pb_source v) (pub_rows s))) (\<lambda>n.
             guard [Idempotency_Conflict] (n = 0)))) (\<lambda>_.
     andthen (lift (publication_record_from v)) (\<lambda>row.
     andthen statement (\<lambda>_.
     andthen (query (\<lambda>s. pr_id row \<in> pr_id ` set (pub_rows s) \<or> pr_idem row \<in> pr_idem ` set (pub_rows s))) (\<lambda>taken.
     andthen (guard [unique_failed] (\<not> taken)) (\<lambda>_.
     andthen (modify (\<lambda>s. s\<lparr>pub_rows := pub_rows s @ [row]\<rparr>)) (\<lambda>_.
     insert_targets (pb_id v) (pb_created v) (pb_targets v)))))))"

text \<open>The error of \<open>Begin\<close> or \<open>Commit\<close>.\<close>

definition connection_failed :: cause where
  "connection_failed = Call_Failed ''database error''"

definition store_create :: "publication \<Rightarrow> ('s pub_store_scheme, errs, publication) act" where
  "store_create v =
     (case validate_publication v of
        Some e \<Rightarrow> raise e
      | None \<Rightarrow> andthen (transaction [connection_failed] (create_tx v)) (\<lambda>_. store_get (pb_id v)))"

definition find_idempotent :: "string \<Rightarrow> string \<Rightarrow> ('s pub_store_scheme, errs, publication) act" where
  "find_idempotent pid source =
     (let by_source =
        (if source = [] then raise [Pub_Not_Found]
         else andthen statement (\<lambda>_.
              andthen (query (\<lambda>s. sort_key (\<lambda>r. (pr_created r, pr_id r)) (filter (\<lambda>r. pr_source r = source) (pub_rows s))))
              (\<lambda>rows. case rows of [] \<Rightarrow> raise [Pub_Not_Found] | row # _ \<Rightarrow> store_get (pr_id row))))
      in if pid = [] then by_source
         else andthen (attempt (store_get pid)) (\<lambda>r.
           case r of
             Inr v \<Rightarrow> return_ok v
           | Inl e \<Rightarrow> if Pub_Not_Found \<notin> set e then raise e else by_source))"

fun get_all :: "string list \<Rightarrow> ('s pub_store_scheme, errs, publication list) act" where
  "get_all [] = return_ok []"
| "get_all (pid # ids) = andthen (store_get pid) (\<lambda>v. andthen (get_all ids) (\<lambda>vs. return_ok (v # vs)))"

definition store_list :: "string \<Rightarrow> int \<Rightarrow> int \<Rightarrow> ('s pub_store_scheme, errs, publication list \<times> nat) act" where
  "store_list room0 limit offset =
     (let room = trim_space room0
      in andthen (guard [Invalid_Input] (\<not> (\<not> valid_id room \<or> limit < 1 \<or> limit > 100 \<or> offset < 0))) (\<lambda>_.
         andthen statement (\<lambda>_.
         andthen (query (\<lambda>s. count_where (\<lambda>r. pr_room r = room) (pub_rows s))) (\<lambda>n.
         andthen statement (\<lambda>_.
         andthen (query (\<lambda>s. take (nat limit) (drop (nat offset)
           (rev (sort_key (\<lambda>r. (pr_created r, pr_id r)) (filter (\<lambda>r. pr_room r = room) (pub_rows s)))))) ) (\<lambda>rows.
         andthen (get_all (map pr_id rows)) (\<lambda>vs. return_ok (vs, n))))))))"

definition save_columns :: "pub_row \<Rightarrow> pub_row \<Rightarrow> pub_row" where
  "save_columns row r =
     r\<lparr>pr_status := pr_status row, pr_outcome := pr_outcome row, pr_backups := pr_backups row,
       pr_fences := pr_fences row, pr_activation := pr_activation row, pr_decision := pr_decision row,
       pr_restart := pr_restart row, pr_code := pr_code row, pr_message := pr_message row,
       pr_decided_at := pr_decided_at row, pr_finished := pr_finished row, pr_updated := pr_updated row\<rparr>"

definition store_save :: "publication \<Rightarrow> ('s pub_store_scheme, errs, publication) act" where
  "store_save v =
     (case validate_publication v of
        Some e \<Rightarrow> raise e
      | None \<Rightarrow>
          andthen (lift (publication_record_from v)) (\<lambda>row.
          let match = (\<lambda>r. pr_id r = pb_id v \<and> pr_hash r = pn_hash (pb_plan v))
          in andthen statement (\<lambda>_.
             andthen (query (\<lambda>s. count_where match (pub_rows s))) (\<lambda>affected.
             andthen (modify (\<lambda>s. s\<lparr>pub_rows := update_where match (save_columns row) (pub_rows s)\<rparr>)) (\<lambda>_.
             andthen (guard [Pub_Not_Found] (affected = 1)) (\<lambda>_.
             store_get (pb_id v)))))))"

definition target_columns :: "target_row \<Rightarrow> target_row \<Rightarrow> target_row" where
  "target_columns row r =
     r\<lparr>tr_status := tr_status row, tr_cached := tr_cached row, tr_prepared := tr_prepared row,
       tr_published := tr_published row, tr_completed := tr_completed row, tr_rolled := tr_rolled row,
       tr_code := tr_code row, tr_message := tr_message row, tr_prepared_at := tr_prepared_at row,
       tr_published_at := tr_published_at row, tr_completed_at := tr_completed_at row,
       tr_rolled_at := tr_rolled_at row, tr_updated := tr_updated row\<rparr>"

definition save_target :: "string \<Rightarrow> pub_target \<Rightarrow> ('s pub_store_scheme, errs, pub_target) act" where
  "save_target pub v0 =
     andthen (guard [Invalid_Input]
       (\<not> (\<not> valid_id pub \<or> \<not> valid_id (pt_target v0) \<or> \<not> valid_id (pt_installation v0) \<or> pt_status v0 = Pub_Unset))) (\<lambda>_.
     andthen read_now (\<lambda>now.
       let v = v0\<lparr>pt_updated := now\<rparr>;
           row = pub_target_record_from pub v now;
           match = (\<lambda>r. tr_id r = tr_id row \<and> tr_publication r = pub)
       in andthen statement (\<lambda>_.
          andthen (query (\<lambda>s. count_where match (target_rows s))) (\<lambda>affected.
          andthen (modify (\<lambda>s. s\<lparr>target_rows := update_where match (target_columns row) (target_rows s)\<rparr>)) (\<lambda>_.
          andthen (guard [Pub_Not_Found] (affected = 1)) (\<lambda>_.
          andthen statement (\<lambda>_.
          andthen (query (\<lambda>s. List.find (\<lambda>r. tr_id r = tr_id row) (target_rows s))) (\<lambda>saved.
            case saved of None \<Rightarrow> raise [Pub_Not_Found] | Some r \<Rightarrow> return_ok (pub_target_from_record r)))))))))"

definition decide_commit :: "string \<Rightarrow> int \<Rightarrow> ('s pub_store_scheme, errs, publication) act" where
  "decide_commit pid at =
     (let match = (\<lambda>r. pr_id r = pid \<and> \<not> pr_decision r)
      in andthen statement (\<lambda>_.
         andthen (query (\<lambda>s. count_where match (pub_rows s))) (\<lambda>affected.
         andthen (modify (\<lambda>s. s\<lparr>pub_rows := update_where match (\<lambda>r. r\<lparr>pr_decision := True,
           pr_status := Pub_Committed, pr_outcome := Out_Full, pr_decided_at := Some at, pr_updated := at\<rparr>) (pub_rows s)\<rparr>)) (\<lambda>_.
         if affected = 0
         then andthen (store_get pid) (\<lambda>current.
              if pb_decision current then return_ok current else raise [Pub_Conflict])
         else store_get pid))))"

text \<open>The publications \<open>Recover\<close> goes through: those not at an end, and the successful ones whose activation is not.\<close>

definition row_active :: "pub_row \<Rightarrow> bool" where
  "row_active r \<longleftrightarrow>
     (pr_status r \<notin> {Pub_Succeeded, Pub_Failed, Pub_RolledBack} \<or> pr_status r = Pub_Succeeded \<and> pr_restart r) \<and>
     (pr_status r = Pub_Succeeded \<longrightarrow>
        (case pr_activation r of
           None \<Rightarrow> False
         | Some a \<Rightarrow> ac_status a \<in> {Act_Pending, Act_Restarting, Act_Confirming}))"

definition store_active :: "('s pub_store_scheme, errs, publication list) act" where
  "store_active =
     andthen statement (\<lambda>_.
     andthen (query (\<lambda>s. map pr_id (filter row_active (sort_key pr_created (pub_rows s))))) get_all)"

end
