(* ===== verification/Mod_Replicas.thy ===== *)
theory Mod_Replicas
  imports Mod_Store
begin

text \<open>
  \<open>internal/modpublication/replicas.go\<close>: what is known of every artifact on every installation and of every
  world, and the summary of a room. The JSON column of the fetch attempts holds the attempts themselves.
\<close>

section \<open>Tables\<close>

datatype replica_stage =
    Stage_Desired
  | Stage_Cache
  | Stage_Publish
  | Stage_Complete
  | Stage_Activate
  | Stage_Rollback
  | Stage_Observe

fun stage_text :: "replica_stage \<Rightarrow> string" where
  "stage_text Stage_Desired = ''desired''"
| "stage_text Stage_Cache = ''cache''"
| "stage_text Stage_Publish = ''publish''"
| "stage_text Stage_Complete = ''complete''"
| "stage_text Stage_Activate = ''activate''"
| "stage_text Stage_Rollback = ''rollback''"
| "stage_text Stage_Observe = ''observe''"

record fetch_attempt =
  fa_source :: string
  fa_feasibility :: string
  fa_status :: string
  fa_selected :: bool
  fa_bytes :: int
  fa_millis :: int
  fa_rate :: int
  fa_code :: string
  fa_message :: string
  fa_observed :: "int option"

record artifact_row =
  ax_id :: string
  ax_target :: string
  ax_installation :: string
  ax_workshop :: string
  ax_tree :: string
  ax_manifest :: string
  ax_size :: int
  ax_files :: int
  ax_revision :: string
  ax_cached :: bool
  ax_published :: bool
  ax_source :: string
  ax_attempts :: "fetch_attempt list"
  ax_observed :: "int option"
  ax_stage :: string
  ax_message :: string
  ax_created :: int
  ax_updated :: int

record world_row =
  wx_id :: string
  wx_room :: string
  wx_world :: string
  wx_target :: string
  wx_installation :: string
  wx_workshop :: string
  wx_tree :: string
  wx_config :: string
  wx_revision :: string
  wx_observed_revision :: string
  wx_configured :: bool
  wx_loaded :: bool
  wx_observed :: "int option"
  wx_stage :: string
  wx_message :: string
  wx_created :: int
  wx_updated :: int

record replica_store = pub_store +
  artifact_rows :: "artifact_row list"
  world_rows :: "world_row list"

fun join_nul :: "string list \<Rightarrow> string" where
  "join_nul [] = []"
| "join_nul [s] = s"
| "join_nul (s # ss) = s @ [nul] @ join_nul ss"

definition artifact_replica_id :: "string \<Rightarrow> string \<Rightarrow> string \<Rightarrow> string \<Rightarrow> string" where
  "artifact_replica_id target inst workshop tree = hash_bytes (join_nul [target, inst, workshop, to_lower tree])"

definition world_replica_id ::
  "string \<Rightarrow> string \<Rightarrow> string \<Rightarrow> string \<Rightarrow> string \<Rightarrow> string \<Rightarrow> string \<Rightarrow> string" where
  "world_replica_id room world target inst workshop tree config =
     hash_bytes (join_nul [room, world, target, inst, workshop, to_lower tree, to_lower config])"

section \<open>Desired state\<close>

definition desired_artifact :: "target_plan \<Rightarrow> content_artifact \<Rightarrow> string \<Rightarrow> int \<Rightarrow> artifact_row" where
  "desired_artifact t a revision now =
     \<lparr>ax_id = artifact_replica_id (tg_target t) (tg_installation t) (af_workshop a) (af_tree a), ax_target = tg_target t,
      ax_installation = tg_installation t, ax_workshop = af_workshop a, ax_tree = to_lower (af_tree a),
      ax_manifest = to_lower (af_manifest a), ax_size = af_size a, ax_files = af_files a, ax_revision = revision,
      ax_cached = False, ax_published = False, ax_source = [], ax_attempts = [], ax_observed = None, ax_stage = [],
      ax_message = [], ax_created = now, ax_updated = now\<rparr>"

definition desired_world :: "target_plan \<Rightarrow> world_plan \<Rightarrow> content_artifact \<Rightarrow> string \<Rightarrow> int \<Rightarrow> world_row" where
  "desired_world t w a revision now =
     (let config = hash_bytes (wp_overrides w)
      in \<lparr>wx_id = world_replica_id (wp_room w) (wp_world w) (tg_target t) (tg_installation t) (af_workshop a) (af_tree a) config,
          wx_room = wp_room w, wx_world = wp_world w, wx_target = tg_target t, wx_installation = tg_installation t,
          wx_workshop = af_workshop a, wx_tree = to_lower (af_tree a), wx_config = config, wx_revision = revision,
          wx_observed_revision = [], wx_configured = False, wx_loaded = False, wx_observed = None, wx_stage = [],
          wx_message = [], wx_created = now, wx_updated = now\<rparr>)"

definition upsert_artifact :: "artifact_row \<Rightarrow> ('s replica_store_scheme, errs, unit) act" where
  "upsert_artifact d =
     andthen statement (\<lambda>_.
     andthen (query (\<lambda>s. ax_id d \<in> ax_id ` set (artifact_rows s))) (\<lambda>found.
     andthen statement (\<lambda>_.
     modify (\<lambda>s. s\<lparr>artifact_rows :=
       (if found
        then update_where (\<lambda>r. ax_id r = ax_id d) (\<lambda>r. r\<lparr>ax_manifest := ax_manifest d, ax_size := ax_size d,
               ax_files := ax_files d, ax_revision := ax_revision d, ax_updated := ax_updated d\<rparr>) (artifact_rows s)
        else artifact_rows s @ [d])\<rparr>))))"

definition upsert_world :: "world_row \<Rightarrow> ('s replica_store_scheme, errs, unit) act" where
  "upsert_world d =
     andthen statement (\<lambda>_.
     andthen (query (\<lambda>s. wx_id d \<in> wx_id ` set (world_rows s))) (\<lambda>found.
     andthen statement (\<lambda>_.
     modify (\<lambda>s. s\<lparr>world_rows :=
       (if found
        then update_where (\<lambda>r. wx_id r = wx_id d)
               (\<lambda>r. r\<lparr>wx_revision := wx_revision d, wx_updated := wx_updated d\<rparr>) (world_rows s)
        else world_rows s @ [d])\<rparr>))))"

fun each :: "('x \<Rightarrow> ('s, 'e, unit) act) \<Rightarrow> 'x list \<Rightarrow> ('s, 'e, unit) act" where
  "each f [] = return_ok ()"
| "each f (x # xs) = andthen (f x) (\<lambda>_. each f xs)"

definition target_world_mods :: "target_plan \<Rightarrow> (world_plan \<times> content_artifact) list" where
  "target_world_mods t = concat (map (\<lambda>w. map (\<lambda>a. (w, a)) (wp_mods w)) (tg_worlds t))"

definition set_desired_tx :: "mod_plan \<Rightarrow> int \<Rightarrow> ('s replica_store_scheme, errs, unit) act" where
  "set_desired_tx p now =
     andthen
       (each (\<lambda>t. andthen (each (\<lambda>a. upsert_artifact (desired_artifact t a (pn_hash p) now)) (tg_mods t)) (\<lambda>_.
          each (\<lambda>(w, a). upsert_world (desired_world t w a (pn_hash p) now)) (target_world_mods t))) (pn_targets p)) (\<lambda>_.
     let wanted = concat (map (\<lambda>t. map (\<lambda>(w, a). wx_id (desired_world t w a (pn_hash p) now)) (target_world_mods t)) (pn_targets p))
     in andthen statement (\<lambda>_.
        andthen (query (\<lambda>s. filter (\<lambda>r. wx_room r = pn_room p) (world_rows s))) (\<lambda>existing.
        each (\<lambda>r. if wx_id r \<in> set wanted then return_ok ()
               else andthen statement (\<lambda>_.
                 modify (\<lambda>s. s\<lparr>world_rows := filter (\<lambda>x. wx_id x \<noteq> wx_id r) (world_rows s)\<rparr>))) existing)))"

definition set_desired :: "mod_plan \<Rightarrow> ('s replica_store_scheme, errs, unit) act" where
  "set_desired p =
     andthen (guard [Invalid_Input] (plan_check p = None)) (\<lambda>_.
     andthen read_now (\<lambda>now. transaction [connection_failed] (set_desired_tx p now)))"

definition ensure_artifact_desired ::
  "target_plan \<Rightarrow> content_artifact \<Rightarrow> string \<Rightarrow> ('s replica_store_scheme, errs, unit) act" where
  "ensure_artifact_desired t a revision =
     andthen (guard [Invalid_Input]
       (\<not> (\<not> valid_id (tg_target t) \<or> \<not> valid_id (tg_installation t) \<or> \<not> stored_artifact_ok a \<or> \<not> valid_sha revision))) (\<lambda>_.
     andthen read_now (\<lambda>now. upsert_artifact (desired_artifact t a (to_lower revision) now)))"

section \<open>Progress of a target\<close>

definition marked_artifact ::
  "replica_stage \<Rightarrow> bool \<Rightarrow> bool \<Rightarrow> string \<Rightarrow> string \<Rightarrow> int \<Rightarrow> artifact_row \<Rightarrow> artifact_row" where
  "marked_artifact stage cached published revision message now r =
     r\<lparr>ax_revision := revision, ax_observed := Some now, ax_updated := now,
       ax_stage := (if message \<noteq> [] then stage_text stage else []), ax_message := message,
       ax_cached := (if stage \<in> {Stage_Cache, Stage_Publish, Stage_Complete} then cached else ax_cached r),
       ax_published := (if stage \<in> {Stage_Publish, Stage_Complete, Stage_Rollback} then published else ax_published r)\<rparr>"

definition marked_world ::
  "replica_stage \<Rightarrow> bool \<Rightarrow> string \<Rightarrow> string \<Rightarrow> int \<Rightarrow> world_row \<Rightarrow> world_row" where
  "marked_world stage configured revision message now r =
     (let final = stage \<in> {Stage_Publish, Stage_Complete, Stage_Rollback}
      in r\<lparr>wx_revision := revision, wx_observed := Some now, wx_updated := now,
           wx_stage := (if message \<noteq> [] then stage_text stage else []), wx_message := message,
           wx_configured := (if final then configured else wx_configured r),
           wx_loaded := (if final \<and> \<not> configured then False else wx_loaded r),
           wx_observed_revision := (if configured then revision else wx_observed_revision r)\<rparr>)"

definition update_artifact ::
  "(artifact_row \<Rightarrow> bool) \<Rightarrow> (artifact_row \<Rightarrow> artifact_row) \<Rightarrow> ('s replica_store_scheme, errs, nat) act" where
  "update_artifact P f =
     andthen statement (\<lambda>_.
     andthen (query (\<lambda>s. count_where P (artifact_rows s))) (\<lambda>n.
     andthen (modify (\<lambda>s. s\<lparr>artifact_rows := update_where P f (artifact_rows s)\<rparr>)) (\<lambda>_. return_ok n)))"

definition update_world ::
  "(world_row \<Rightarrow> bool) \<Rightarrow> (world_row \<Rightarrow> world_row) \<Rightarrow> ('s replica_store_scheme, errs, nat) act" where
  "update_world P f =
     andthen statement (\<lambda>_.
     andthen (query (\<lambda>s. count_where P (world_rows s))) (\<lambda>n.
     andthen (modify (\<lambda>s. s\<lparr>world_rows := update_where P f (world_rows s)\<rparr>)) (\<lambda>_. return_ok n)))"

definition exactly_one :: "('s, errs, nat) act \<Rightarrow> ('s, errs, unit) act" where
  "exactly_one m = andthen m (\<lambda>n. guard [Pub_Not_Found] (n = 1))"

definition update_target ::
  "target_plan \<Rightarrow> string \<Rightarrow> replica_stage \<Rightarrow> bool \<Rightarrow> bool \<Rightarrow> bool \<Rightarrow> string \<Rightarrow> ('s replica_store_scheme, errs, unit) act" where
  "update_target t revision stage cached published configured message =
     andthen (guard [Invalid_Input]
       (\<not> (\<not> valid_id (tg_target t) \<or> \<not> valid_id (tg_installation t) \<or> trim_space revision = []))) (\<lambda>_.
     andthen read_now (\<lambda>now.
     transaction [connection_failed]
       (andthen
         (each (\<lambda>a. exactly_one (update_artifact
             (\<lambda>r. ax_id r = artifact_replica_id (tg_target t) (tg_installation t) (af_workshop a) (af_tree a))
             (marked_artifact stage cached published revision message now))) (tg_mods t)) (\<lambda>_.
         each (\<lambda>(w, a). exactly_one (update_world
             (\<lambda>r. wx_id r = world_replica_id (wp_room w) (wp_world w) (tg_target t) (tg_installation t) (af_workshop a)
               (af_tree a) (hash_bytes (wp_overrides w)))
             (marked_world stage configured revision message now))) (target_world_mods t)))))"

definition mark_cache :: "target_plan \<Rightarrow> string \<Rightarrow> ('s replica_store_scheme, errs, unit) act" where
  "mark_cache t revision = update_target t revision Stage_Cache True False False []"

definition mark_published :: "target_plan \<Rightarrow> string \<Rightarrow> ('s replica_store_scheme, errs, unit) act" where
  "mark_published t revision = update_target t revision Stage_Publish True True True []"

definition mark_completed :: "target_plan \<Rightarrow> string \<Rightarrow> ('s replica_store_scheme, errs, unit) act" where
  "mark_completed t revision = update_target t revision Stage_Complete True True True []"

definition mark_target_error ::
  "target_plan \<Rightarrow> string \<Rightarrow> replica_stage \<Rightarrow> errs \<Rightarrow> ('s replica_store_scheme, errs, unit) act" where
  "mark_target_error t revision stage e = update_target t revision stage False False False (errs_text e)"

text \<open>No error at all, \<open>[]\<close>, is the code's nil.\<close>

definition mark_rolled_back :: "target_plan \<Rightarrow> string \<Rightarrow> errs \<Rightarrow> ('s replica_store_scheme, errs, unit) act" where
  "mark_rolled_back t revision e =
     update_target t revision Stage_Rollback False False False (if e = [] then bytes
     [0xE5, 0x8F, 0x91, 0xE5, 0xB8, 0x83, 0xE5, 0xB7, 0xB2, 0xE5, 0x9B, 0x9E, 0xE6, 0xBB, 0x9A] else errs_text e)"

definition mark_world_loaded ::
  "mod_plan \<Rightarrow> string \<Rightarrow> string \<Rightarrow> bool \<Rightarrow> errs \<Rightarrow> ('s replica_store_scheme, errs, unit) act" where
  "mark_world_loaded p room world loaded e =
     andthen (guard [Invalid_Input] (\<not> (plan_check p \<noteq> None \<or> \<not> valid_id room \<or> \<not> valid_id world))) (\<lambda>_.
     andthen read_now (\<lambda>now.
     andthen (update_world (\<lambda>r. wx_room r = room \<and> wx_world r = world \<and> wx_revision r = pn_hash p)
       (\<lambda>r. r\<lparr>wx_loaded := loaded, wx_observed := Some now, wx_updated := now,
              wx_stage := (if e = [] then [] else stage_text Stage_Activate), wx_message := errs_text e\<rparr>)) (\<lambda>_.
     return_ok ())))"

section \<open>Fetching\<close>

definition valid_fetch_source :: "string \<Rightarrow> bool" where
  "valid_fetch_source v \<longleftrightarrow> trim_space v \<in> {''steam'', ''peer'', ''controller'', ''cache'', ''legacy_upload''}"

definition attempt_ok :: "fetch_attempt \<Rightarrow> bool" where
  "attempt_ok a \<longleftrightarrow>
     \<not> (\<not> valid_fetch_source (fa_source a) \<or> fa_feasibility a \<notin> {''available'', ''unavailable'', ''unknown''} \<or>
        fa_status a \<notin> {''succeeded'', ''failed'', ''unavailable'', ''skipped''} \<or> fa_bytes a < 0 \<or> fa_millis a < 0 \<or>
        fa_rate a < 0 \<or> length (fa_code a) > 64 \<or> length (fa_message a) > 1024)"

definition copy_attempt :: "fetch_attempt \<Rightarrow> fetch_attempt" where
  "copy_attempt a =
     a\<lparr>fa_source := utf8_copy (fa_source a), fa_code := utf8_copy (fa_code a), fa_message := utf8_copy (fa_message a)\<rparr>"

definition encode_attempts :: "fetch_attempt list \<Rightarrow> errs + fetch_attempt list" where
  "encode_attempts as =
     (if as = [] then Inr []
      else if length as > 5 \<or> \<not> list_all attempt_ok as then Inl [Invalid_Input]
      else if \<not> writable (some_times (map fa_observed as)) then Inl [time_error]
      else Inr (map copy_attempt as))"

definition mark_artifact_cache ::
  "target_plan \<Rightarrow> content_artifact \<Rightarrow> string \<Rightarrow> string \<Rightarrow> fetch_attempt list \<Rightarrow> ('s replica_store_scheme, errs, unit) act" where
  "mark_artifact_cache t a revision source attempts =
     andthen (guard [Invalid_Input]
       (\<not> (\<not> valid_id (tg_target t) \<or> \<not> valid_id (tg_installation t) \<or> \<not> stored_artifact_ok a \<or> trim_space revision = [] \<or>
           \<not> valid_fetch_source source))) (\<lambda>_.
     andthen (lift (encode_attempts attempts)) (\<lambda>encoded.
     andthen read_now (\<lambda>now.
     exactly_one (update_artifact
       (\<lambda>r. ax_id r = artifact_replica_id (tg_target t) (tg_installation t) (af_workshop a) (af_tree a))
       (\<lambda>r. r\<lparr>ax_cached := True, ax_source := source, ax_observed := Some now, ax_updated := now, ax_stage := [],
              ax_message := [], ax_attempts := (if attempts = [] then ax_attempts r else encoded)\<rparr>)))))"

definition mark_fetch_attempts ::
  "target_plan \<Rightarrow> content_artifact \<Rightarrow> string \<Rightarrow> fetch_attempt list \<Rightarrow> ('s replica_store_scheme, errs, unit) act" where
  "mark_fetch_attempts t a revision attempts =
     andthen (guard [Invalid_Input]
       (\<not> (\<not> valid_id (tg_target t) \<or> \<not> valid_id (tg_installation t) \<or> \<not> stored_artifact_ok a \<or> trim_space revision = [] \<or>
           attempts = []))) (\<lambda>_.
     andthen (lift (encode_attempts attempts)) (\<lambda>encoded.
     andthen read_now (\<lambda>now.
     exactly_one (update_artifact
       (\<lambda>r. ax_id r = artifact_replica_id (tg_target t) (tg_installation t) (af_workshop a) (af_tree a))
       (\<lambda>r. r\<lparr>ax_attempts := encoded, ax_observed := Some now, ax_updated := now\<rparr>)))))"

record cached_candidate =
  cd_target :: string
  cd_installation :: string
  cd_observed :: int

fun first_candidates :: "artifact_row list \<Rightarrow> string list \<Rightarrow> cached_candidate list" where
  "first_candidates [] seen = []"
| "first_candidates (r # rs) seen =
     (let key = pair_key (ax_target r) (ax_installation r)
      in if key \<in> set seen then first_candidates rs seen
         else \<lparr>cd_target = ax_target r, cd_installation = ax_installation r,
                cd_observed = (case ax_observed r of None \<Rightarrow> ax_updated r | Some t \<Rightarrow> t)\<rparr>
              # first_candidates rs (key # seen))"

text \<open>NULL is before every time in SQLite; rows whose times agree may come in any order, here the last
  inserted one first.\<close>

definition cached_candidates ::
  "string \<Rightarrow> string \<Rightarrow> string \<Rightarrow> ('s replica_store_scheme, errs, cached_candidate list) act" where
  "cached_candidates workshop0 tree0 exclude0 =
     (let workshop = trim_space workshop0; tree = to_lower (trim_space tree0); exclude = trim_space exclude0
      in andthen (guard [Invalid_Input] (valid_workshop_id workshop \<and> valid_sha tree)) (\<lambda>_.
         andthen statement (\<lambda>_.
         query (\<lambda>s. first_candidates
           (rev (sort_key (\<lambda>r. (case ax_observed r of None \<Rightarrow> (0 :: nat, 0) | Some t \<Rightarrow> (1, t), ax_updated r))
             (filter (\<lambda>r. ax_workshop r = workshop \<and> ax_tree r = tree \<and> ax_cached r \<and>
                (exclude = [] \<or> ax_target r \<noteq> exclude)) (artifact_rows s)))) []))))"

section \<open>Observation\<close>

record world_observation =
  wo_config :: string
  wo_mods :: "(string \<times> string) list"

record installation_observation =
  io_mods :: "(string \<times> string) list"
  io_worlds :: "(string \<times> world_observation) list"
  io_observed :: int

text \<open>A missing entry of a map is the empty text; \<open>strings.EqualFold\<close> compares it with a digest.\<close>

definition same_digest :: "string option \<Rightarrow> string \<Rightarrow> bool" where
  "same_digest v digest \<longleftrightarrow> to_lower (case v of None \<Rightarrow> [] | Some t \<Rightarrow> t) = to_lower digest"

definition not_after :: "int option \<Rightarrow> int \<Rightarrow> bool" where
  "not_after observed at = (case observed of None \<Rightarrow> True | Some t \<Rightarrow> t \<le> at)"

definition observe_artifact ::
  "target_plan \<Rightarrow> installation_observation option \<Rightarrow> int \<Rightarrow> content_artifact \<Rightarrow> ('s replica_store_scheme, errs, unit) act" where
  "observe_artifact t observation at a =
     (let published = (case observation of None \<Rightarrow> False
            | Some ob \<Rightarrow> same_digest (map_of (io_mods ob) (af_workshop a)) (af_tree a))
      in andthen (update_artifact
           (\<lambda>r. ax_id r = artifact_replica_id (tg_target t) (tg_installation t) (af_workshop a) (af_tree a) \<and>
                not_after (ax_observed r) at)
           (\<lambda>r. r\<lparr>ax_published := published, ax_observed := Some at, ax_updated := at, ax_stage := [], ax_message := [],
                  ax_cached := (published \<or> ax_cached r)\<rparr>)) (\<lambda>_. return_ok ()))"

definition observe_world ::
  "target_plan \<Rightarrow> string \<Rightarrow> installation_observation option \<Rightarrow> int \<Rightarrow> world_plan \<times> content_artifact \<Rightarrow>
   ('s replica_store_scheme, errs, unit) act" where
  "observe_world t revision observation at wa =
     (let w = fst wa; a = snd wa; config = hash_bytes (wp_overrides w);
          seen = (case observation of None \<Rightarrow> None
            | Some ob \<Rightarrow> map_of (io_worlds ob) (wp_room w @ ''/'' @ wp_world w));
          configured = (case seen of None \<Rightarrow> False
            | Some wo \<Rightarrow> same_digest (Some (wo_config wo)) config \<and>
                same_digest (map_of (wo_mods wo) (af_workshop a)) (af_tree a))
      in andthen (update_world
           (\<lambda>r. wx_id r = world_replica_id (wp_room w) (wp_world w) (tg_target t) (tg_installation t) (af_workshop a)
                  (af_tree a) config \<and> not_after (wx_observed r) at)
           (\<lambda>r. r\<lparr>wx_configured := configured, wx_observed_revision := (if configured then revision else []),
                  wx_observed := Some at, wx_updated := at, wx_stage := [], wx_message := [],
                  wx_loaded := (if configured then wx_loaded r else False)\<rparr>)) (\<lambda>_. return_ok ()))"

definition observe_target ::
  "target_plan \<Rightarrow> string \<Rightarrow> installation_observation option \<Rightarrow> ('s replica_store_scheme, errs, unit) act" where
  "observe_target t revision observation =
     andthen (guard [Invalid_Input]
       (\<not> (\<not> valid_id (tg_target t) \<or> \<not> valid_id (tg_installation t) \<or> trim_space revision = []))) (\<lambda>_.
     andthen read_now (\<lambda>now.
       let at = (case observation of None \<Rightarrow> now | Some ob \<Rightarrow> if io_observed ob = zero_time then now else io_observed ob)
       in transaction [connection_failed]
            (andthen (each (observe_artifact t observation at) (tg_mods t)) (\<lambda>_.
             each (observe_world t revision observation at) (target_world_mods t)))))"

section \<open>The state of a room\<close>

record replica_world =
  rw_room :: string
  rw_world :: string
  rw_configured :: bool
  rw_loaded :: bool
  rw_config :: string
  rw_observed_revision :: string
  rw_observed :: "int option"
  rw_stage :: string
  rw_message :: string

record replica_target =
  rt_target :: string
  rt_installation :: string
  rt_tree :: string
  rt_manifest :: string
  rt_size :: int
  rt_files :: int
  rt_cached :: bool
  rt_published :: bool
  rt_ready :: bool
  rt_worlds :: "replica_world list"
  rt_observed :: "int option"
  rt_stage :: string
  rt_message :: string
  rt_source :: string
  rt_attempts :: "fetch_attempt list"

record replica_mod =
  rm_workshop :: string
  rm_ready :: nat
  rm_total :: nat
  rm_configured :: nat
  rm_loaded :: nat
  rm_worlds :: nat
  rm_targets :: "replica_target list"

record replica_coverage =
  rc_ready :: nat
  rc_total :: nat
  rc_cached :: nat
  rc_published :: nat
  rc_configured :: nat
  rc_loaded :: nat
  rc_worlds :: nat

record room_replicas =
  rr_room :: string
  rr_revision :: string
  rr_coverage :: replica_coverage
  rr_items :: "replica_mod list"
  rr_updated :: "int option"

definition empty_artifact_row :: artifact_row where
  "empty_artifact_row =
     \<lparr>ax_id = [], ax_target = [], ax_installation = [], ax_workshop = [], ax_tree = [], ax_manifest = [], ax_size = 0,
      ax_files = 0, ax_revision = [], ax_cached = False, ax_published = False, ax_source = [], ax_attempts = [],
      ax_observed = None, ax_stage = [], ax_message = [], ax_created = zero_time, ax_updated = zero_time\<rparr>"

definition world_artifact_id :: "world_row \<Rightarrow> string" where
  "world_artifact_id w = artifact_replica_id (wx_target w) (wx_installation w) (wx_workshop w) (wx_tree w)"

definition replica_target_of :: "artifact_row list \<Rightarrow> world_row \<Rightarrow> replica_target" where
  "replica_target_of artifacts w =
     (let a = (case List.find (\<lambda>r. ax_id r = world_artifact_id w) (rev artifacts) of
                 None \<Rightarrow> empty_artifact_row | Some a \<Rightarrow> a)
      in \<lparr>rt_target = wx_target w, rt_installation = wx_installation w, rt_tree = wx_tree w, rt_manifest = ax_manifest a,
          rt_size = ax_size a, rt_files = ax_files a, rt_cached = ax_cached a, rt_published = ax_published a,
          rt_ready = False, rt_worlds = [], rt_observed = ax_observed a, rt_stage = ax_stage a, rt_message = ax_message a,
          rt_source = ax_source a, rt_attempts = ax_attempts a\<rparr>)"

definition replica_world_of :: "world_row \<Rightarrow> replica_world" where
  "replica_world_of w =
     \<lparr>rw_room = wx_room w, rw_world = wx_world w, rw_configured = wx_configured w, rw_loaded = wx_loaded w,
      rw_config = wx_config w, rw_observed_revision = wx_observed_revision w, rw_observed = wx_observed w,
      rw_stage = wx_stage w, rw_message = wx_message w\<rparr>"

definition add_replica ::
  "artifact_row list \<Rightarrow> world_row \<Rightarrow> (string \<times> (string \<times> replica_target) list) list \<Rightarrow>
   (string \<times> (string \<times> replica_target) list) list" where
  "add_replica artifacts w mods =
     (let ts = (case map_of mods (wx_workshop w) of None \<Rightarrow> [] | Some ts \<Rightarrow> ts);
          key = wx_target w @ [nul] @ wx_installation w @ [nul] @ wx_tree w;
          t = (case map_of ts key of None \<Rightarrow> replica_target_of artifacts w | Some t \<Rightarrow> t)
      in put (wx_workshop w) (put key (t\<lparr>rt_worlds := rt_worlds t @ [replica_world_of w]\<rparr>) ts) mods)"

definition ready_target :: "replica_target \<Rightarrow> replica_target" where
  "ready_target t = t\<lparr>rt_ready := (rt_cached t \<and> rt_published t \<and> list_all rw_configured (rt_worlds t))\<rparr>"

definition replica_mod_of :: "string \<times> (string \<times> replica_target) list \<Rightarrow> replica_mod" where
  "replica_mod_of kts =
     (let ts = map (ready_target \<circ> snd) (snd kts); ws = concat (map rt_worlds ts)
      in \<lparr>rm_workshop = fst kts, rm_ready = count_where rt_ready ts, rm_total = length ts,
          rm_configured = count_where rw_configured ws, rm_loaded = count_where rw_loaded ws, rm_worlds = length ws,
          rm_targets = ts\<rparr>)"

definition key_count :: "('x \<Rightarrow> string) \<Rightarrow> ('x \<Rightarrow> bool) \<Rightarrow> 'x list \<Rightarrow> nat" where
  "key_count k P xs = length (remdups (map k (filter P xs)))"

definition coverage_of :: "replica_mod list \<Rightarrow> replica_coverage" where
  "coverage_of mods =
     (let ts = concat (map rm_targets mods); ws = concat (map rt_worlds ts);
          inst = (\<lambda>t. pair_key (rt_target t) (rt_installation t)); world = (\<lambda>w. pair_key (rw_room w) (rw_world w))
      in \<lparr>rc_ready = key_count inst rt_ready ts, rc_total = key_count inst (\<lambda>_. True) ts,
          rc_cached = key_count inst rt_cached ts, rc_published = key_count inst rt_published ts,
          rc_configured = key_count world rw_configured ws, rc_loaded = key_count world rw_loaded ws,
          rc_worlds = key_count world (\<lambda>_. True) ws\<rparr>)"

definition later :: "int option \<Rightarrow> int \<Rightarrow> int option" where
  "later t u = (if u > (case t of None \<Rightarrow> zero_time | Some v \<Rightarrow> v) then Some u else t)"

definition empty_coverage :: replica_coverage where
  "empty_coverage =
     \<lparr>rc_ready = 0, rc_total = 0, rc_cached = 0, rc_published = 0, rc_configured = 0, rc_loaded = 0, rc_worlds = 0\<rparr>"

definition summarize_room :: "string \<Rightarrow> world_row list \<Rightarrow> artifact_row list \<Rightarrow> room_replicas" where
  "summarize_room room worlds artifacts =
     (let mods = map replica_mod_of (fold (add_replica artifacts) worlds [])
      in \<lparr>rr_room = room, rr_revision = wx_revision (hd worlds), rr_coverage = coverage_of mods, rr_items = mods,
          rr_updated = foldl later (foldl later None (map wx_updated worlds)) (map ax_updated artifacts)\<rparr>)"

definition room_state :: "string \<Rightarrow> ('s replica_store_scheme, errs, room_replicas) act" where
  "room_state room0 =
     (let room = trim_space room0
      in andthen (guard [Invalid_Input] (valid_id room)) (\<lambda>_.
         andthen statement (\<lambda>_.
         andthen (query (\<lambda>s. sort_key (\<lambda>w. (wx_workshop w, wx_target w, wx_installation w, wx_world w))
           (filter (\<lambda>w. wx_room w = room) (world_rows s)))) (\<lambda>worlds.
         if worlds = []
         then return_ok \<lparr>rr_room = room, rr_revision = [], rr_coverage = empty_coverage, rr_items = [], rr_updated = None\<rparr>
         else
           andthen statement (\<lambda>_.
           andthen (query (\<lambda>s. filter (\<lambda>a. ax_id a \<in> world_artifact_id ` set worlds) (artifact_rows s))) (\<lambda>artifacts.
           return_ok (summarize_room room worlds artifacts)))))))"

end
