(* ===== verification/Mod_Runtime.thy ===== *)
theory Mod_Runtime
  imports Mod_Replicas
begin

text \<open>
  What the publication coordinator calls: the leases (\<open>modcontrol/adapters.go\<close> over \<open>Operation_Lease\<close>), the
  runtimes of the targets and the replica store. Every call of a runtime is appended to \<open>runtime_log\<close>, with
  whether it succeeded, so that the theorems can speak of the order in which targets are changed. A runtime may
  renew the fences it is given while it works, which only prolongs leases and is left out.

  A function that returns a publication together with an error returns a pair, in which the error \<open>[]\<close> is nil.
\<close>

section \<open>The coordinator and its surroundings\<close>

datatype runtime_step =
    Step_Cache
  | Step_Prepare
  | Step_Publish
  | Step_Rollback
  | Step_Complete
  | Step_Stop
  | Step_Start

record runtime_entry =
  re_step :: runtime_step
  re_key :: string
  re_operation :: runtime_operation
  re_ok :: bool

text \<open>\<open>rd_polls\<close> is the number of polls until the deadline of a context, \<open>rd_ticks\<close> the number of renewals that
  fall into a notification.\<close>

record pub_system = replica_store +
  rd_backups :: "nat \<Rightarrow> string list"
  rd_status :: "nat \<Rightarrow> world_plan \<Rightarrow> shard_observation"
  rd_cursor :: "nat \<Rightarrow> world_plan \<Rightarrow> log_cursor"
  rd_logs :: "nat \<Rightarrow> world_plan \<Rightarrow> log_cursor \<Rightarrow> shard_logs"
  rd_polls :: "nat \<Rightarrow> nat"
  rd_ticks :: "nat \<Rightarrow> nat"
  runtime_log :: "runtime_entry list"

record coordinator =
  co_minimum :: string
  co_ttl :: int
  co_replicas :: bool
  co_activation :: bool
  co_notifier :: bool

definition new_coordinator :: "string \<Rightarrow> int \<Rightarrow> nat \<Rightarrow> errs + coordinator" where
  "new_coordinator minimum ttl activations =
     (if activations > 1 then Inl [Invalid_Input]
      else Inr \<lparr>co_minimum = minimum, co_ttl = (if ttl \<le> 0 then minutes 5 else ttl), co_replicas = False,
            co_activation = (activations = 1), co_notifier = False\<rparr>)"

section \<open>Errors and contexts\<close>

definition error_of :: "errs + 'a \<Rightarrow> errs" where
  "error_of r = (case r of Inl e \<Rightarrow> e | Inr _ \<Rightarrow> [])"

text \<open>The error of a call, handled by the caller before it returns.\<close>

definition on_error :: "('s, 'e, 'a) act \<Rightarrow> ('e \<Rightarrow> ('s, 'f, 'f) act) \<Rightarrow> ('s, 'f, 'a) act" where
  "on_error m h s =
     (case m s of
        (Inr a, s1) \<Rightarrow> (Inr a, s1)
      | (Inl e, s1) \<Rightarrow> (case h e s1 of (Inl f, s2) \<Rightarrow> (Inl f, s2) | (Inr f, s2) \<Rightarrow> (Inl f, s2)))"

text \<open>A call whose error is dropped.\<close>

definition ignoring :: "('s, errs, 'a) act \<Rightarrow> ('s, 'f, unit) act" where
  "ignoring m = andthen (attempt m) (\<lambda>_. return_ok ())"

text \<open>A function that may return early with a value: an early return is an error of the action.\<close>

definition function_body :: "('s, 'a, 'a) act \<Rightarrow> ('s, 'f, 'a) act" where
  "function_body m s = (case m s of (Inl a, s') \<Rightarrow> (Inr a, s') | (Inr a, s') \<Rightarrow> (Inr a, s'))"

section \<open>Leases\<close>

definition publication_fence :: "lease \<Rightarrow> fence" where
  "publication_fence l =
     \<lparr>fc_room = l_room l, fc_lease = l_id l, fc_key = l_key l, fc_token = l_token l, fc_expires = l_expires l\<rparr>"

definition operation_lease :: "fence \<Rightarrow> lease" where
  "operation_lease f =
     \<lparr>l_room = fc_room f, l_id = fc_lease f, l_key = fc_key f, l_token = fc_token f, l_expires = fc_expires f\<rparr>"

definition lease_acquire :: "string \<Rightarrow> string \<Rightarrow> int \<Rightarrow> ('s lease_db_scheme, errs, fence) act" where
  "lease_acquire resource key ttl =
     map_error (\<lambda>e. [Lease_Failed e]) (andthen (acquire resource key ttl) (\<lambda>l. return_ok (publication_fence l)))"

definition lease_renew :: "fence \<Rightarrow> int \<Rightarrow> ('s lease_db_scheme, errs, fence) act" where
  "lease_renew f ttl =
     map_error (\<lambda>e. [Lease_Failed e]) (andthen (renew (operation_lease f) ttl) (\<lambda>l. return_ok (publication_fence l)))"

definition lease_release :: "fence \<Rightarrow> ('s lease_db_scheme, errs, unit) act" where
  "lease_release f = map_error (\<lambda>e. [Lease_Failed e]) (release (operation_lease f))"

definition release_fences :: "fence list \<Rightarrow> ('s lease_db_scheme, 'f, unit) act" where
  "release_fences fences = each (\<lambda>f. ignoring (lease_release f)) (rev fences)"

text \<open>The fences renewed so far, and the error of the first that could not be.\<close>

fun renew_fences :: "int \<Rightarrow> fence list \<Rightarrow> ('s lease_db_scheme, 'f, fence list \<times> errs) act" where
  "renew_fences ttl [] = return_ok ([], [])"
| "renew_fences ttl (f # fs) =
     andthen (attempt (lease_renew f ttl)) (\<lambda>r.
       case r of
         Inl e \<Rightarrow> return_ok (f # fs, e)
       | Inr g \<Rightarrow>
           if fc_room g \<noteq> fc_room f \<or> fc_lease g \<noteq> fc_lease f \<or> fc_key g \<noteq> fc_key f \<or> fc_token g \<noteq> fc_token f
           then return_ok (f # fs, [Pub_Conflict])
           else andthen (renew_fences ttl fs) (\<lambda>(gs, e). return_ok (g # gs, e)))"

definition fence_fits :: "string \<Rightarrow> string \<Rightarrow> fence \<Rightarrow> bool" where
  "fence_fits resource key f \<longleftrightarrow>
     \<not> (fc_room f \<noteq> resource \<or> fc_key f \<noteq> key \<or> \<not> valid_id (fc_lease f) \<or> fc_token f = 0)"

fun acquire_each :: "int \<Rightarrow> string \<Rightarrow> string list \<Rightarrow> fence list \<Rightarrow> ('s lease_db_scheme, errs, fence list) act" where
  "acquire_each ttl key [] fences = return_ok fences"
| "acquire_each ttl key (r # rs) fences =
     andthen (on_error (lease_acquire r key ttl) (\<lambda>e. andthen (release_fences fences) (\<lambda>_. return_ok e))) (\<lambda>f.
       if \<not> fence_fits r key f then andthen (release_fences (fences @ [f])) (\<lambda>_. raise [Invalid_Input])
       else acquire_each ttl key rs (fences @ [f]))"

definition acquire_resources :: "int \<Rightarrow> string list \<Rightarrow> string \<Rightarrow> ('s lease_db_scheme, errs, fence list) act" where
  "acquire_resources ttl resources key =
     andthen (guard [Invalid_Input] (resources \<noteq> [])) (\<lambda>_. acquire_each ttl key resources [])"

definition installation_lease_resources :: "mod_plan \<Rightarrow> string list" where
  "installation_lease_resources p =
     normalized_strings (map (\<lambda>t. ''@mod-installation/'' @ hash_bytes (tg_target t @ [nul] @ tg_installation t)) (pn_targets p))"

definition publication_lease_resources :: "mod_plan \<Rightarrow> string list" where
  "publication_lease_resources p =
     normalized_strings (normalized_strings (pn_rooms p) @ installation_lease_resources p)"

definition publication_operation_key :: "string \<Rightarrow> string" where
  "publication_operation_key pub =
     (let v = ''mod.publish:'' @ pub in if length v \<le> 128 then v else ''mod.publish:'' @ hash_bytes pub)"

definition acquire_fences :: "int \<Rightarrow> mod_plan \<Rightarrow> string \<Rightarrow> ('s lease_db_scheme, errs, fence list) act" where
  "acquire_fences ttl p pub = acquire_resources ttl (publication_lease_resources p) (publication_operation_key pub)"

fun borrowed_map :: "fence list \<Rightarrow> (string \<times> fence) list \<Rightarrow> errs + (string \<times> fence) list" where
  "borrowed_map [] m = Inr m"
| "borrowed_map (f # fs) m =
     (if fc_room f = [] \<or> \<not> valid_id (fc_lease f) \<or> fc_key f = [] \<or> fc_token f = 0 then Inl [Invalid_Input]
      else if map_of m (fc_room f) \<noteq> None then Inl [Invalid_Input]
      else borrowed_map fs (put (fc_room f) f m))"

text \<open>All the fences, those acquired here, and how many were borrowed.\<close>

fun acquire_or_borrow ::
  "int \<Rightarrow> string \<Rightarrow> (string \<times> fence) list \<Rightarrow> string list \<Rightarrow> fence list \<Rightarrow> fence list \<Rightarrow> nat \<Rightarrow>
   ('s lease_db_scheme, errs, fence list \<times> fence list \<times> nat) act" where
  "acquire_or_borrow ttl key borrowed [] all owned used = return_ok (all, owned, used)"
| "acquire_or_borrow ttl key borrowed (r # rs) all owned used =
     (case map_of borrowed r of
        Some f \<Rightarrow>
          andthen (on_error (lease_renew f ttl) (\<lambda>e. andthen (release_fences owned) (\<lambda>_. return_ok e))) (\<lambda>g.
            if fc_room g \<noteq> fc_room f \<or> fc_lease g \<noteq> fc_lease f \<or> fc_token g \<noteq> fc_token f
            then andthen (release_fences owned) (\<lambda>_. raise [Pub_Conflict])
            else acquire_or_borrow ttl key borrowed rs (all @ [g]) owned (Suc used))
      | None \<Rightarrow>
          andthen (on_error (lease_acquire r key ttl) (\<lambda>e. andthen (release_fences owned) (\<lambda>_. return_ok e))) (\<lambda>f.
            if \<not> fence_fits r key f then andthen (release_fences (owned @ [f])) (\<lambda>_. raise [Invalid_Input])
            else acquire_or_borrow ttl key borrowed rs (all @ [f]) (owned @ [f]) used))"

definition acquire_with_borrowed ::
  "int \<Rightarrow> mod_plan \<Rightarrow> string \<Rightarrow> fence list \<Rightarrow> ('s lease_db_scheme, errs, fence list \<times> fence list) act" where
  "acquire_with_borrowed ttl p pub borrowed =
     (if borrowed = [] then andthen (acquire_fences ttl p pub) (\<lambda>fs. return_ok (fs, fs))
      else
        andthen (lift (borrowed_map borrowed [])) (\<lambda>m.
        andthen (acquire_or_borrow ttl (publication_operation_key pub) m (publication_lease_resources p) [] [] 0)
        (\<lambda>(all, owned, used).
          if used \<noteq> length borrowed then andthen (release_fences owned) (\<lambda>_. raise [Invalid_Input])
          else return_ok (all, owned))))"

section \<open>Runtime calls\<close>

definition operation :: "publication \<Rightarrow> target_plan \<Rightarrow> fence list \<Rightarrow> string \<Rightarrow> runtime_operation" where
  "operation pub t fences action =
     (let tries = (case fences of [] \<Rightarrow> [] | f # _ \<Rightarrow> fc_key f)
      in \<lparr>ro_mode = Unset_Mode, ro_publication = pb_id pub, ro_revision = pn_revision (pb_plan pub),
          ro_hash = pn_hash (pb_plan pub), ro_fences = fences, ro_action = action,
          ro_key = pb_id pub @ '':'' @ tg_target t @ '':'' @ tg_installation t @ '':'' @ action @ '':'' @ tries\<rparr>)"

definition runtime_call :: "runtime_step \<Rightarrow> string \<Rightarrow> runtime_operation \<Rightarrow> ('s pub_system_scheme, errs, unit) act" where
  "runtime_call kind key op s =
     (let n = step s;
          s' = s\<lparr>step := Suc n, runtime_log := runtime_log s @
            [\<lparr>re_step = kind, re_key = key, re_operation = op, re_ok = (\<not> fault s n)\<rparr>]\<rparr>
      in if fault s n then (Inl [Call_Failed (fresh s n)], s') else (Inr (), s'))"

definition target_call ::
  "runtime_step \<Rightarrow> publication \<Rightarrow> target_plan \<Rightarrow> fence list \<Rightarrow> string \<Rightarrow> ('s pub_system_scheme, errs, unit) act" where
  "target_call kind pub t fences action = runtime_call kind (target_plan_key t) (operation pub t fences action)"

definition with_replicas ::
  "coordinator \<Rightarrow> ('s replica_store_scheme, errs, unit) act \<Rightarrow> ('s replica_store_scheme, errs, unit) act" where
  "with_replicas c m = (if co_replicas c then m else return_ok ())"

definition set_target :: "publication \<Rightarrow> nat \<Rightarrow> pub_target \<Rightarrow> publication" where
  "set_target pub i t = pub\<lparr>pb_targets := (pb_targets pub)[i := t]\<rparr>"

definition failed_target :: "pub_status \<Rightarrow> string \<Rightarrow> errs \<Rightarrow> pub_target \<Rightarrow> pub_target" where
  "failed_target st code e t = t\<lparr>pt_status := st, pt_code := code, pt_message := errs_text e\<rparr>"

text \<open>\<open>Publication{}\<close>, which an operation of the store returns beside its error.\<close>

definition empty_plan :: mod_plan where
  "empty_plan =
     \<lparr>pn_version = 0, pn_room = [], pn_revision = [], pn_hash = [], pn_rooms = [], pn_targets = [], pn_blockers = [],
      pn_ready = False, pn_restart = False, pn_created = zero_time\<rparr>"

definition empty_publication :: publication where
  "empty_publication =
     \<lparr>pb_id = [], pb_source = [], pb_room = [], pb_status = Pub_Unset, pb_outcome = Out_Unset, pb_plan = empty_plan,
      pb_backups = [], pb_fences = [], pb_decision = False, pb_restart = False, pb_activation = unset_activation,
      pb_code = [], pb_message = [], pb_targets = [], pb_decided_at = None, pb_created = zero_time,
      pb_updated = zero_time, pb_finished = None\<rparr>"

text \<open>\<open>return c.store.Save(publication)\<close> with the error joined to an earlier one.\<close>

definition save_and_return :: "publication \<Rightarrow> errs \<Rightarrow> ('s pub_store_scheme, 'f, publication \<times> errs) act" where
  "save_and_return pub e =
     andthen (attempt (store_save pub)) (\<lambda>r.
     return_ok (case r of Inr saved \<Rightarrow> (saved, e) | Inl e' \<Rightarrow> (empty_publication, e @ e')))"

definition fail_publication ::
  "publication \<Rightarrow> string \<Rightarrow> errs \<Rightarrow> ('s pub_store_scheme, 'f, publication \<times> errs) act" where
  "fail_publication pub code e =
     andthen read_now (\<lambda>finished.
     save_and_return (pub\<lparr>pb_status := Pub_Failed, pb_outcome := Out_None, pb_code := code, pb_message := errs_text e,
       pb_finished := Some finished, pb_updated := finished\<rparr>) e)"

end
