(* ===== verification/Mod_Activation.thy ===== *)
theory Mod_Activation
  imports Mod_Runtime
begin

text \<open>
  \<open>internal/modpublication/activation.go\<close>: the restart of the worlds a committed publication changed, and the
  confirmation from their logs that the mods were loaded. Letters of a log line outside ASCII are left as they
  are. Where the code indexes the shards of a publication with the result of \<open>activationShardIndex\<close>, the
  shards are those of the plan's worlds, so the index exists. The renewals of the leases that go on while the
  rooms are notified happen before the outcome of the notification is known.
\<close>

section \<open>Orders and shards\<close>

definition is_master :: "world_plan \<Rightarrow> bool" where
  "is_master w \<longleftrightarrow> wp_master w \<or> to_lower (wp_world_dir w) = ''master''"

definition activation_worlds :: "mod_plan \<Rightarrow> world_plan list" where
  "activation_worlds p = concat (map tg_worlds (pn_targets p))"

definition activation_stop_order :: "world_plan list \<Rightarrow> world_plan list" where
  "activation_stop_order ws = sort_key (\<lambda>w. (if is_master w then 1 else 0 :: nat, world_key (wp_room w) (wp_world w))) ws"

definition activation_start_order :: "world_plan list \<Rightarrow> world_plan list" where
  "activation_start_order ws = sort_key (\<lambda>w. (if is_master w then 0 else 1 :: nat, world_key (wp_room w) (wp_world w))) ws"

definition activation_shards :: "mod_plan \<Rightarrow> int \<Rightarrow> shard_result list" where
  "activation_shards p now =
     sort_key (\<lambda>r. world_key (sr_room r) (sr_world r))
       (concat (map (\<lambda>t. map (\<lambda>w.
          \<lparr>sr_mode = Unset_Mode, sr_room = wp_room w, sr_world = wp_world w, sr_target = tg_target t,
           sr_installation = tg_installation t, sr_status = Act_Pending, sr_was_running = False, sr_state = [],
           sr_marker = [], sr_code = [], sr_message = [], sr_restarted = None, sr_confirmed = None,
           sr_updated = now\<rparr>) (tg_worlds t)) (pn_targets p)))"

fun update_first :: "('x \<Rightarrow> bool) \<Rightarrow> ('x \<Rightarrow> 'x) \<Rightarrow> 'x list \<Rightarrow> 'x list" where
  "update_first P f [] = []"
| "update_first P f (x # xs) = (if P x then f x # xs else x # update_first P f xs)"

definition shard_of :: "world_plan \<Rightarrow> shard_result \<Rightarrow> bool" where
  "shard_of w r \<longleftrightarrow> sr_room r = wp_room w \<and> sr_world r = wp_world w"

definition update_shard :: "world_plan \<Rightarrow> (shard_result \<Rightarrow> shard_result) \<Rightarrow> publication \<Rightarrow> publication" where
  "update_shard w f pub =
     pub\<lparr>pb_activation := (pb_activation pub)\<lparr>ac_shards := update_first (shard_of w) f (ac_shards (pb_activation pub))\<rparr>\<rparr>"

definition activation_failure :: "string \<Rightarrow> errs \<Rightarrow> int \<Rightarrow> shard_result \<Rightarrow> shard_result" where
  "activation_failure code e now r =
     r\<lparr>sr_status := Act_Failed, sr_code := code, sr_message := errs_text e, sr_updated := now\<rparr>"

definition activation_operation_key :: "string \<Rightarrow> string \<Rightarrow> string" where
  "activation_operation_key pub activation_id = ''mod.activate:'' @ hash_bytes (pub @ [nul] @ activation_id)"

definition activation_operation ::
  "publication \<Rightarrow> world_plan \<Rightarrow> fence list \<Rightarrow> string \<Rightarrow> runtime_operation" where
  "activation_operation pub w fences action =
     (let tries = (case List.find (\<lambda>f. fc_room f = wp_room w) fences of None \<Rightarrow> [] | Some f \<Rightarrow> fc_key f);
          shard = List.find (shard_of w) (ac_shards (pb_activation pub))
      in \<lparr>ro_mode = (if action = ''stop'' then Unset_Mode
                       else case shard of None \<Rightarrow> Unset_Mode | Some r \<Rightarrow> sr_mode r),
          ro_publication = pb_id pub, ro_revision = pn_revision (pb_plan pub), ro_hash = pn_hash (pb_plan pub),
          ro_fences = fences, ro_action = ''activate-'' @ action,
          ro_key = ''mod-activation:'' @ hash_bytes (join_nul [pb_id pub, wp_room w, wp_world w, action, tries])\<rparr>)"

definition world_call ::
  "runtime_step \<Rightarrow> publication \<Rightarrow> world_plan \<Rightarrow> fence list \<Rightarrow> string \<Rightarrow> ('s pub_system_scheme, errs, unit) act" where
  "world_call kind pub w fences action =
     runtime_call kind (world_key (wp_room w) (wp_world w)) (activation_operation pub w fences action)"

definition fail_activation ::
  "coordinator \<Rightarrow> publication \<Rightarrow> world_plan option \<Rightarrow> string \<Rightarrow> errs \<Rightarrow>
   ('s pub_system_scheme, 'f, publication \<times> errs) act" where
  "fail_activation c pub shard code e =
     andthen read_now (\<lambda>now.
     andthen
       (case shard of
          None \<Rightarrow> return_ok pub
        | Some w \<Rightarrow>
            andthen (ignoring (with_replicas c (mark_world_loaded (pb_plan pub) (wp_room w) (wp_world w) False e))) (\<lambda>_.
            return_ok (update_shard w (activation_failure code e now) pub))) (\<lambda>pub'.
     save_and_return
       (pub'\<lparr>pb_activation := (pb_activation pub')\<lparr>ac_status := Act_Failed, ac_code := code, ac_message := errs_text e,
              ac_finished := Some now\<rparr>,
             pb_restart := True, pb_updated := now\<rparr>) ([Activation_Failed] @ e)))"

section \<open>Confirmation from the logs\<close>

fun has_part :: "string \<Rightarrow> string \<Rightarrow> bool" where
  "has_part [] p = (p = [])"
| "has_part (c # cs) p = (has_prefix (c # cs) p \<or> has_part cs p)"

text \<open>The submatches of \<open>(?i)workshop[-_](\d+)\<close>, from left to right.\<close>

function workshop_log_ids :: "string \<Rightarrow> string list" where
  "workshop_log_ids [] = []"
| "workshop_log_ids (c # cs) =
     (let s = c # cs; rest = drop 9 s; found = takeWhile is_digit rest
      in if has_prefix (to_lower s) ''workshop'' \<and> length s > 9 \<and> s ! 8 \<in> {CHR ''-'', CHR ''_''} \<and> found \<noteq> []
         then found # workshop_log_ids (drop (length found) rest)
         else workshop_log_ids cs)"
  by pat_completeness auto
termination by (relation "measure length") auto

definition expected_workshop_ids :: "world_plan \<Rightarrow> string list" where
  "expected_workshop_ids w = normalized_strings (map af_workshop (wp_mods w))"

definition missing_workshop_ids :: "string list \<Rightarrow> string list \<Rightarrow> string list" where
  "missing_workshop_ids expected confirmed = filter (\<lambda>v. v \<notin> set confirmed) expected"

fun join_comma :: "string list \<Rightarrow> string" where
  "join_comma [] = []"
| "join_comma [s] = s"
| "join_comma (s # ss) = s @ '', '' @ join_comma ss"

definition activation_load_marker :: "world_plan \<Rightarrow> string \<Rightarrow> string" where
  "activation_load_marker w line =
     (let lower = to_lower line
      in if has_part lower ''[dst-admin-runtime ready]'' then ''dst-admin-runtime-ready''
         else if is_master w
         then if has_part lower ''[shard] shard server started on port:'' then ''master-shard-server-started'' else []
         else if has_part lower ''[shard] secondary shard lua is now ready!'' then ''secondary-shard-lua-ready'' else [])"

text \<open>One batch of lines: the Workshop items seen and the last marker, or the error that ends the wait.\<close>

fun read_lines ::
  "world_plan \<Rightarrow> string list \<Rightarrow> string list \<Rightarrow> string list \<Rightarrow> string \<Rightarrow> errs + string list \<times> string" where
  "read_lines w expected [] confirmed marker = Inr (confirmed, marker)"
| "read_lines w expected (line # ls) confirmed marker =
     (let lower = to_lower line
      in if expected \<noteq> [] \<and> has_part lower ''no mods registered''
         then Inl [Other_Failure (''DST reported no registered mods; expected Workshop IDs: '' @ join_comma expected)]
         else
           let seen = (if has_part lower ''registering mod'' \<or> has_part lower ''loading mod:''
                       then filter (\<lambda>v. v \<in> set expected) (workshop_log_ids line) else []);
               found = activation_load_marker w line
           in read_lines w expected ls (fold List.insert seen confirmed) (if found \<noteq> [] then found else marker))"

definition context_error :: "('s env_scheme, 'f, string) act" where
  "context_error s =
     (Inr (if cancelled s (step s) then ''context canceled'' else ''context deadline exceeded''),
      s\<lparr>step := Suc (step s)\<rparr>)"

text \<open>At most \<open>n\<close> polls before the context ends: the marker and the state of the world.\<close>

fun confirm_polls ::
  "nat \<Rightarrow> world_plan \<Rightarrow> load_confirmation \<Rightarrow> log_cursor \<Rightarrow> string list \<Rightarrow> string \<Rightarrow>
   ('s pub_system_scheme, errs, string \<times> string) act" where
  "confirm_polls n w confirmation cursor confirmed marker =
     (let expected = expected_workshop_ids w in
      andthen (receive (\<lambda>s k. rd_status s k w)) (\<lambda>status.
      if so_state status = ''failed'' \<or> so_state status = ''stopped'' \<and> \<not> so_session status
      then raise [Other_Failure ''DST shard stopped before load confirmation'']
      else if so_state status = ''running'' \<and> confirmation = Confirm_None
      then return_ok (''runtime:running'', so_state status)
      else
        andthen
          (if so_state status \<noteq> ''running'' then return_ok (cursor, confirmed, marker)
           else
             andthen (receive (\<lambda>s k. rd_logs s k w cursor)) (\<lambda>logs.
             andthen (lift (read_lines w expected (sl_lines logs) confirmed marker)) (\<lambda>(confirmed', marker').
             return_ok (sl_cursor logs, confirmed', marker')))) (\<lambda>(cursor', confirmed', marker').
        if so_state status = ''running'' \<and> marker' \<noteq> [] \<and> length confirmed' = length expected
        then return_ok
          (if expected = [] then marker'
           else marker' @ '';mods='' @ decimal (length confirmed') @ ''/'' @ decimal (length expected), so_state status)
        else
          let missing = missing_workshop_ids expected confirmed'
          in if so_state status = ''running'' \<and> marker' \<noteq> [] \<and> missing \<noteq> []
             then raise [Other_Failure (''world became ready before expected mods were observed in startup logs: '' @
               join_comma missing)]
             else
               (case n of
                  Suc m \<Rightarrow> confirm_polls m w confirmation cursor' confirmed' marker'
                | 0 \<Rightarrow>
                    andthen context_error (\<lambda>t. raise [Other_Failure
                      (if missing = [] then t
                       else t @ '': expected mods were not observed in startup logs: '' @ join_comma missing)])))))"

declare confirm_polls.simps [simp del]

definition confirm_shard_loaded ::
  "world_plan \<Rightarrow> log_cursor \<Rightarrow> load_confirmation \<Rightarrow> ('s pub_system_scheme, errs, string \<times> string) act" where
  "confirm_shard_loaded w cursor confirmation =
     andthen (query (\<lambda>s. rd_polls s (step s))) (\<lambda>n. confirm_polls n w confirmation cursor [] [])"

definition no_cursor :: log_cursor where
  "no_cursor = \<lparr>lc_file = [], lc_cursor = 0\<rparr>"

text \<open>\<open>ConfirmWorldLoaded\<close>.\<close>

definition confirm_world_loaded ::
  "coordinator \<Rightarrow> mod_plan \<Rightarrow> string \<Rightarrow> string \<Rightarrow> ('s pub_system_scheme, 'f, errs) act" where
  "confirm_world_loaded c p room world =
     (if \<not> co_activation c \<or> plan_check p \<noteq> None \<or> \<not> valid_id room \<or> \<not> valid_id world then return_ok [Invalid_Input]
      else
        case List.find (\<lambda>w. wp_room w = room \<and> wp_world w = world) (activation_worlds p) of
          None \<Rightarrow> return_ok [Invalid_Input]
        | Some w \<Rightarrow>
            andthen (attempt (confirm_shard_loaded w no_cursor Confirm_Logs)) (\<lambda>r.
            if \<not> co_replicas c then return_ok (error_of r)
            else
              andthen (attempt (mark_world_loaded p room world (error_of r = []) (error_of r))) (\<lambda>r'.
              return_ok (error_of r @ error_of r'))))"

section \<open>Restarting the worlds\<close>

text \<open>The renewals while the rooms are notified stop at the first that fails.\<close>

fun renew_times :: "nat \<Rightarrow> int \<Rightarrow> fence list \<Rightarrow> ('s lease_db_scheme, 'f, fence list \<times> errs) act" where
  "renew_times 0 ttl fences = return_ok (fences, [])"
| "renew_times (Suc n) ttl fences =
     andthen (renew_fences ttl fences) (\<lambda>(fences', e).
       if e \<noteq> [] then return_ok (fences, e) else renew_times n ttl fences')"

text \<open>The fences, the error of the notification and the error of the leases.\<close>

definition notify_activation ::
  "coordinator \<Rightarrow> fence list \<Rightarrow> ('s pub_system_scheme, 'f, fence list \<times> errs \<times> errs) act" where
  "notify_activation c fences =
     andthen (renew_times 1 (co_ttl c) fences) (\<lambda>(fences', e).
       if e \<noteq> [] then return_ok (fences', [], e)
       else
         andthen (query (\<lambda>s. rd_ticks s (step s))) (\<lambda>n.
         andthen (renew_times n (co_ttl c) fences') (\<lambda>(fences'', lease_error).
         andthen (attempt statement) (\<lambda>r. return_ok (fences'', error_of r, lease_error)))))"

definition map_flag :: "(string \<times> bool) list \<Rightarrow> string \<Rightarrow> bool" where
  "map_flag m k \<longleftrightarrow> map_of m k = Some True"

definition original_modes :: "publication \<Rightarrow> string \<Rightarrow> performance_mode" where
  "original_modes pub key =
     (case map_of (rev (map (\<lambda>r. (world_key (sr_room r) (sr_world r), sr_mode r)) (ac_shards (pb_activation pub)))) key of
        None \<Rightarrow> Unset_Mode | Some m \<Rightarrow> m)"

text \<open>The state of each world: the publication and the worlds that were running.\<close>

fun observe_shards ::
  "coordinator \<Rightarrow> (string \<times> bool) list option \<Rightarrow> (string \<Rightarrow> performance_mode) \<Rightarrow> world_plan list \<Rightarrow> publication \<Rightarrow>
   string list \<Rightarrow> ('s pub_system_scheme, publication \<times> errs, publication \<times> string list) act" where
  "observe_shards c original modes [] pub running = return_ok (pub, running)"
| "observe_shards c original modes (w # ws) pub running =
     (let key = world_key (wp_room w) (wp_world w) in
      andthen (on_error (receive (\<lambda>s n. rd_status s n w)) (\<lambda>e. fail_activation c pub (Some w) ''SHARD_STATUS_FAILED'' e)) (\<lambda>ob.
      let was = (case original of
            None \<Rightarrow> so_session ob \<or> so_state ob = ''running'' \<or> so_state ob = ''starting''
          | Some m \<Rightarrow> map_flag m key);
          mode = (case original of None \<Rightarrow> so_mode ob | Some _ \<Rightarrow> modes key);
          pub1 = update_shard w (\<lambda>r. r\<lparr>sr_state := so_state ob, sr_mode := mode, sr_was_running := was\<rparr>) pub
      in if \<not> was
         then andthen read_now (\<lambda>now.
           observe_shards c original modes ws (update_shard w (\<lambda>r. r\<lparr>sr_status := Act_Skipped, sr_updated := now\<rparr>) pub1) running)
         else if normalize_performance_mode mode = None
         then andthen (fail_activation c pub1 (Some w) ''RUNTIME_MODE_UNKNOWN''
           [Other_Failure (bytes
     [0xE6, 0x97, 0xA0, 0xE6, 0xB3, 0x95, 0xE7, 0xA1, 0xAE, 0xE8, 0xAE, 0xA4, 0xE4, 0xB8,
      0x96, 0xE7, 0x95, 0x8C, 0xE7, 0x9A, 0x84, 0x20, 0x4C, 0x75, 0x61, 0x20, 0xE8, 0xBF,
      0x90, 0xE8, 0xA1, 0x8C, 0xE6, 0xA8, 0xA1, 0xE5, 0xBC, 0x8F, 0xEF, 0xBC, 0x8C, 0xE8,
      0xAF, 0xB7, 0xE7, 0xAD, 0x89, 0xE5, 0xBE, 0x85, 0xE5, 0x90, 0xAF, 0xE5, 0x8A, 0xA8,
      0xE5, 0xAE, 0x8C, 0xE6, 0x88, 0x90, 0xE6, 0x88, 0x96, 0xE5, 0x8D, 0x87, 0xE7, 0xBA,
      0xA7, 0x20, 0x41, 0x67, 0x65, 0x6E, 0x74, 0x20, 0xE5, 0x90, 0x8E, 0xE9, 0x87, 0x8D,
      0xE8, 0xAF, 0x95])]) raise
         else observe_shards c original modes ws pub1 (key # running)))"

fun capture_cursors ::
  "coordinator \<Rightarrow> publication \<Rightarrow> world_plan list \<Rightarrow> (string \<times> log_cursor) list \<Rightarrow>
   ('s pub_system_scheme, publication \<times> errs, (string \<times> log_cursor) list) act" where
  "capture_cursors c pub [] cursors = return_ok cursors"
| "capture_cursors c pub (w # ws) cursors =
     andthen (on_error (receive (\<lambda>s n. rd_cursor s n w)) (\<lambda>e. fail_activation c pub (Some w) ''LOG_CURSOR_FAILED'' e)) (\<lambda>cursor.
     capture_cursors c pub ws (put (world_key (wp_room w) (wp_world w)) cursor cursors))"

fun stop_worlds ::
  "coordinator \<Rightarrow> publication \<Rightarrow> world_plan list \<Rightarrow> fence list \<Rightarrow> world_plan list \<Rightarrow>
   ('s pub_system_scheme, publication \<times> errs, fence list) act" where
  "stop_worlds c pub [] fences stopped = return_ok fences"
| "stop_worlds c pub (w # ws) fences stopped =
     andthen (renew_fences (co_ttl c) fences) (\<lambda>(fences', e).
       if e \<noteq> [] then andthen (fail_activation c pub (Some w) ''ACTIVATION_LEASE_LOST'' e) raise
       else
         andthen (on_error (world_call Step_Stop pub w fences' ''stop'')
           (\<lambda>e. andthen (each (\<lambda>v. ignoring (world_call Step_Start pub v fences' ''restore'')) (activation_start_order stopped)) (\<lambda>_.
            fail_activation c pub (Some w) ''SHARD_STOP_FAILED'' e))) (\<lambda>_.
         stop_worlds c pub ws fences' (stopped @ [w])))"

text \<open>The publication, the fences, the worlds started and the errors so far.\<close>

fun start_worlds ::
  "coordinator \<Rightarrow> world_plan list \<Rightarrow> publication \<Rightarrow> fence list \<Rightarrow> string list \<Rightarrow> errs \<Rightarrow>
   ('s pub_system_scheme, publication \<times> errs, publication \<times> fence list \<times> string list \<times> errs) act" where
  "start_worlds c [] pub fences started failed = return_ok (pub, fences, started, failed)"
| "start_worlds c (w # ws) pub fences started failed =
     andthen (renew_fences (co_ttl c) fences) (\<lambda>(fences', e).
       if e \<noteq> []
       then andthen read_now (\<lambda>now.
         start_worlds c ws (update_shard w (activation_failure ''ACTIVATION_LEASE_LOST'' e now) pub) fences' started (failed @ e))
       else
         andthen (attempt (world_call Step_Start pub w fences' ''start'')) (\<lambda>r.
           case r of
             Inl e \<Rightarrow>
               andthen read_now (\<lambda>now.
               let pub1 = update_shard w (activation_failure ''SHARD_START_FAILED'' e now) pub
               in andthen (on_error (store_save pub1) (\<lambda>e'. return_ok (pub1, [Activation_Failed] @ failed @ e @ e'))) (\<lambda>saved.
                  start_worlds c ws saved fences' started (failed @ e)))
           | Inr _ \<Rightarrow>
               andthen read_now (\<lambda>now.
               let pub1 = update_shard w (\<lambda>r. r\<lparr>sr_status := Act_Confirming, sr_restarted := Some now, sr_updated := now\<rparr>) pub;
                   pub2 = pub1\<lparr>pb_activation := (pb_activation pub1)\<lparr>ac_status := Act_Confirming\<rparr>, pb_updated := now\<rparr>
               in andthen (on_error (store_save pub2) (\<lambda>e'. return_ok (pub2, [Activation_Failed] @ e'))) (\<lambda>saved.
                  start_worlds c ws saved fences' (world_key (wp_room w) (wp_world w) # started) failed))))"

fun confirm_worlds ::
  "coordinator \<Rightarrow> load_confirmation \<Rightarrow> (string \<times> log_cursor) list \<Rightarrow> world_plan list \<Rightarrow> publication \<Rightarrow> errs \<Rightarrow>
   ('s pub_system_scheme, publication \<times> errs, publication \<times> errs) act" where
  "confirm_worlds c confirmation cursors [] pub failed = return_ok (pub, failed)"
| "confirm_worlds c confirmation cursors (w # ws) pub failed =
     (let cursor = (case map_of cursors (world_key (wp_room w) (wp_world w)) of None \<Rightarrow> no_cursor | Some v \<Rightarrow> v) in
      andthen (attempt (confirm_shard_loaded w cursor confirmation)) (\<lambda>r.
      andthen
        (case r of
           Inl e \<Rightarrow>
             andthen read_now (\<lambda>now.
             andthen (ignoring (with_replicas c (mark_world_loaded (pb_plan pub) (wp_room w) (wp_world w) False e))) (\<lambda>_.
             return_ok (update_shard w (activation_failure ''SHARD_LOAD_CONFIRMATION_FAILED'' e now) pub, failed @ e)))
         | Inr (marker, state) \<Rightarrow>
             andthen read_now (\<lambda>now.
             let pub1 = update_shard w (\<lambda>r. r\<lparr>sr_status := Act_Succeeded, sr_state := state, sr_marker := marker,
                   sr_confirmed := Some now, sr_updated := now\<rparr>) pub
             in andthen (attempt (with_replicas c (mark_world_loaded (pb_plan pub) (wp_room w) (wp_world w) True []))) (\<lambda>r'.
                case r' of
                  Inr _ \<Rightarrow> return_ok (pub1, failed)
                | Inl e \<Rightarrow>
                    andthen read_now (\<lambda>now'.
                    return_ok (update_shard w (activation_failure ''REPLICA_ACTIVATION_STATE_FAILED'' e now') pub1, failed @ e)))))
        (\<lambda>(pub2, failed').
      andthen (on_error (store_save pub2) (\<lambda>e. return_ok (pub2, [Activation_Failed] @ failed' @ e))) (\<lambda>saved.
      confirm_worlds c confirmation cursors ws saved failed'))))"

definition activate_body ::
  "coordinator \<Rightarrow> publication \<Rightarrow> fence list \<Rightarrow> activation_policy \<Rightarrow> (string \<times> bool) list option \<Rightarrow>
   ('s pub_system_scheme, publication \<times> errs, publication \<times> errs) act" where
  "activate_body c pub0 fences0 policy original =
     andthen read_now (\<lambda>requested.
     let modes = original_modes pub0;
         shards = map (\<lambda>r. case original of None \<Rightarrow> r
             | Some m \<Rightarrow> r\<lparr>sr_was_running := map_flag m (world_key (sr_room r) (sr_world r)),
                          sr_mode := modes (world_key (sr_room r) (sr_world r))\<rparr>) (activation_shards (pb_plan pub0) requested);
         pub1 = pub0\<lparr>pb_activation := \<lparr>ac_policy = policy, ac_status = Act_Restarting, ac_code = [], ac_message = [],
                  ac_shards = shards, ac_requested = Some requested, ac_finished = None\<rparr>,
                pb_restart := True, pb_updated := requested\<rparr>
     in andthen (on_error (store_save pub1) (\<lambda>e. return_ok (empty_publication, e))) (\<lambda>pub2.
        let worlds = activation_worlds (pb_plan pub2) in
        andthen (observe_shards c original modes worlds pub2 []) (\<lambda>(pub3, running).
        if running = []
        then andthen read_now (\<lambda>finished.
          save_and_return (pub3\<lparr>pb_activation := (pb_activation pub3)\<lparr>ac_status := Act_Skipped, ac_finished := Some finished\<rparr>,
            pb_restart := False, pb_updated := finished\<rparr>) [])
        else
          andthen (on_error (store_save pub3) (\<lambda>e. return_ok (empty_publication, e))) (\<lambda>pub4.
          andthen
            (if \<not> co_notifier c then return_ok fences0
             else andthen (notify_activation c fences0) (\<lambda>(fences1, notify_error, lease_error).
               if lease_error \<noteq> [] then andthen (fail_activation c pub4 None ''ACTIVATION_LEASE_LOST'' lease_error) raise
               else if notify_error \<noteq> [] then raise (pub4, notify_error)
               else return_ok fences1)) (\<lambda>fences1.
          let up = (\<lambda>w. world_key (wp_room w) (wp_world w) \<in> set running) in
          andthen
            (if ap_confirm policy = Confirm_Logs then capture_cursors c pub4 (filter up worlds) [] else return_ok []) (\<lambda>cursors.
          andthen (stop_worlds c pub4 (filter up (activation_stop_order worlds)) fences1 []) (\<lambda>fences2.
          andthen (start_worlds c (filter up (activation_start_order worlds)) pub4 fences2 [] []) (\<lambda>(pub5, fences3, started, failed).
          andthen (confirm_worlds c (ap_confirm policy) cursors
            (filter (\<lambda>w. world_key (wp_room w) (wp_world w) \<in> set started) (activation_start_order worlds)) pub5 failed)
          (\<lambda>(pub6, failed').
          if failed' \<noteq> [] then fail_activation c pub6 None ''ACTIVATION_INCOMPLETE'' failed'
          else
            andthen read_now (\<lambda>finished.
            save_and_return (pub6\<lparr>pb_activation := (pb_activation pub6)\<lparr>ac_status := Act_Succeeded, ac_code := [],
                ac_message := [], ac_finished := Some finished\<rparr>,
              pb_restart := False, pb_updated := finished\<rparr>) []))))))))))"

definition activate_committed ::
  "coordinator \<Rightarrow> publication \<Rightarrow> fence list \<Rightarrow> activation_policy \<Rightarrow> (string \<times> bool) list option \<Rightarrow>
   ('s pub_system_scheme, 'f, publication \<times> errs) act" where
  "activate_committed c pub fences policy0 original =
     (if \<not> co_activation c
      then fail_activation c pub None ''ACTIVATION_UNAVAILABLE'' [Other_Failure ''Mod activation runtime is unavailable'']
      else
        case normalize_policy policy0 of
          Inl _ \<Rightarrow> return_ok (pub, [Invalid_Input])
        | Inr policy \<Rightarrow>
            if ap_mode policy \<noteq> Mode_Restart then return_ok (pub, [Invalid_Input])
            else function_body (activate_body c pub fences policy original))"

text \<open>Whether each world ran when the activation that is to be resumed began.\<close>

fun known_running :: "shard_result list \<Rightarrow> (string \<times> bool) list \<Rightarrow> (string \<times> bool) list option" where
  "known_running [] m = Some m"
| "known_running (r # rs) m =
     (let key = world_key (sr_room r) (sr_world r)
      in if map_of m key \<noteq> None then None else known_running rs (put key (sr_was_running r) m))"

definition activation_running_snapshot :: "publication \<Rightarrow> (string \<times> bool) list option" where
  "activation_running_snapshot pub =
     (let worlds = activation_worlds (pb_plan pub); shards = ac_shards (pb_activation pub)
      in if worlds = [] \<or> length shards \<noteq> length worlds then None
         else
           case known_running shards [] of
             None \<Rightarrow> None
           | Some known \<Rightarrow>
               if list_all (\<lambda>w. map_of known (world_key (wp_room w) (wp_world w)) \<noteq> None) worlds \<and>
                  (\<exists>r \<in> set shards. sr_was_running r \<or> sr_status r \<noteq> Act_Pending)
               then Some known else None)"

text \<open>\<open>Activate\<close>.\<close>

definition activate ::
  "coordinator \<Rightarrow> string \<Rightarrow> string \<Rightarrow> activation_policy \<Rightarrow> ('s pub_system_scheme, 'f, publication \<times> errs) act" where
  "activate c pub_id activation_id policy0 =
     (if \<not> valid_id pub_id \<or> \<not> valid_id activation_id then return_ok (empty_publication, [Invalid_Input])
      else
        case normalize_policy policy0 of
          Inl _ \<Rightarrow> return_ok (empty_publication, [Invalid_Input])
        | Inr policy \<Rightarrow>
            if ap_mode policy \<noteq> Mode_Restart then return_ok (empty_publication, [Invalid_Input])
            else
              andthen (attempt (store_get pub_id)) (\<lambda>r.
                case r of
                  Inl e \<Rightarrow> return_ok (empty_publication, e)
                | Inr pub \<Rightarrow>
                    if pb_status pub \<noteq> Pub_Succeeded \<or> \<not> pb_decision pub \<or>
                       ac_status (pb_activation pub) \<in> {Act_Restarting, Act_Confirming}
                    then return_ok (pub, [Activation_State])
                    else
                      andthen (attempt (acquire_resources (co_ttl c) (publication_lease_resources (pb_plan pub))
                        (activation_operation_key pub_id activation_id))) (\<lambda>r'.
                        case r' of
                          Inl e \<Rightarrow> return_ok (pub, e)
                        | Inr fences \<Rightarrow>
                            andthen (activate_committed c pub fences policy None) (\<lambda>result.
                            andthen (release_fences fences) (\<lambda>_. return_ok result)))))"

end
