(* ===== verification/Mod_Coordinator.thy ===== *)
theory Mod_Coordinator
  imports Mod_Activation
begin

text \<open>
  \<open>internal/modpublication/coordinator.go\<close>, \<open>transaction.go\<close> and \<open>recovery.go\<close>: a publication is a two-phase
  commit over the runtimes of its targets. \<open>begin_transaction\<close> prepares every target, \<open>tx_publish\<close> publishes
  every target, \<open>tx_commit\<close> stores the decision and completes every target; whatever fails before the decision
  rolls the prepared targets back. \<open>recover_publication\<close> finishes what a crash left, by the stored decision. The
  progress reports are left out. The lists of targets and of results a publication holds have the same length
  wherever the code indexes the one by the other.
\<close>

section \<open>Rolling back\<close>

definition rolled_back :: "int \<Rightarrow> pub_target \<Rightarrow> pub_target" where
  "rolled_back now t = t\<lparr>pt_rolled := True, pt_rolled_at := Some now, pt_status := Pub_RolledBack\<rparr>"

text \<open>The loop of \<open>rollbackAfterFailure\<close>, from the last target to the first: the publication, the fences, the
  errors and whether any target had been prepared.\<close>

fun rollback_targets ::
  "coordinator \<Rightarrow> errs \<Rightarrow> nat \<Rightarrow> publication \<Rightarrow> fence list \<Rightarrow> errs \<Rightarrow> bool \<Rightarrow>
   ('s pub_system_scheme, 'f, publication \<times> fence list \<times> errs \<times> bool) act" where
  "rollback_targets c reason 0 pub fences failed any = return_ok (pub, fences, failed, any)"
| "rollback_targets c reason (Suc i) pub fences failed any =
     (let result = pb_targets pub ! i; t = pn_targets (pb_plan pub) ! i in
      if \<not> pt_prepared result \<and> \<not> pt_cached result then rollback_targets c reason i pub fences failed any
      else
        andthen (background (renew_fences (co_ttl c) fences)) (\<lambda>(fences', e).
        andthen (if e \<noteq> [] then return_ok e
                 else andthen (attempt (target_call Step_Rollback pub t fences' ''rollback'')) (\<lambda>r. return_ok (error_of r))) (\<lambda>e'.
        andthen
          (if e' \<noteq> []
           then
             andthen (ignoring (with_replicas c (mark_target_error t (pn_hash (pb_plan pub)) Stage_Rollback e'))) (\<lambda>_.
             return_ok (failed_target Pub_RecoveryRequired ''TARGET_ROLLBACK_FAILED'' e' result, failed @ e'))
           else
             andthen (attempt (with_replicas c (mark_rolled_back t (pn_hash (pb_plan pub)) reason))) (\<lambda>r.
             andthen read_now (\<lambda>now. return_ok (rolled_back now result, failed @ error_of r)))) (\<lambda>(result1, failed1).
        andthen read_now (\<lambda>now.
        let result2 = result1\<lparr>pt_updated := now\<rparr>
        in andthen (attempt (save_target (pb_id pub) result2)) (\<lambda>r.
           rollback_targets c reason i (set_target pub i result2) fences' (failed1 @ error_of r) True))))))"

definition rollback_after_failure ::
  "coordinator \<Rightarrow> publication \<Rightarrow> fence list \<Rightarrow> string \<Rightarrow> errs \<Rightarrow> ('s pub_system_scheme, 'f, publication \<times> errs) act" where
  "rollback_after_failure c pub fences code reason =
     andthen (rollback_targets c reason (length (pn_targets (pb_plan pub))) pub fences [] False) (\<lambda>(pub1, fences1, failed, any).
     andthen read_now (\<lambda>finished.
     let pub2 = pub1\<lparr>pb_fences := fences1, pb_code := code, pb_message := errs_text reason, pb_updated := finished,
           pb_finished := Some finished\<rparr>;
         pub3 = (if failed \<noteq> [] then pub2\<lparr>pb_status := Pub_RecoveryRequired, pb_outcome := Out_Partial,
                   pb_message := errs_text (reason @ failed)\<rparr>
                 else if any then pub2\<lparr>pb_status := Pub_RolledBack, pb_outcome := Out_None\<rparr>
                 else pub2\<lparr>pb_status := Pub_Failed, pb_outcome := Out_None\<rparr>)
     in save_and_return pub3 (reason @ failed)))"

section \<open>Preparing\<close>

record transaction_handle =
  tx_publication :: publication
  tx_fences :: "fence list"
  tx_owned :: "fence list"
  tx_closed :: bool

text \<open>The loop body of \<open>beginTransaction\<close>; an early return is the publication with the error.\<close>

definition prepare_target ::
  "coordinator \<Rightarrow> nat \<Rightarrow> target_plan \<Rightarrow> publication \<Rightarrow> fence list \<Rightarrow>
   ('s pub_system_scheme, publication \<times> errs, publication \<times> fence list) act" where
  "prepare_target c i t pub0 fences0 =
     andthen (renew_fences (co_ttl c) fences0) (\<lambda>(fences, e).
     if e \<noteq> [] then andthen (rollback_after_failure c pub0 fences ''LEASE_RENEW_FAILED'' e) raise
     else
       let pub = pub0\<lparr>pb_fences := fences\<rparr>; hash = pn_hash (pb_plan pub);
           broken = (\<lambda>p stage code e.
             andthen (ignoring (with_replicas c (mark_target_error t hash stage e))) (\<lambda>_.
             let p' = set_target p i (failed_target Pub_Failed code e (pb_targets p ! i))
             in andthen (ignoring (save_target (pb_id p') (pb_targets p' ! i))) (\<lambda>_.
                rollback_after_failure c p' fences code e)))
       in
       andthen (on_error (target_call Step_Cache pub t fences ''ensure-cache'') (broken pub Stage_Cache ''CACHE_ENSURE_FAILED'')) (\<lambda>_.
       andthen (on_error (with_replicas c (mark_cache t hash))
         (\<lambda>e. rollback_after_failure c pub fences ''REPLICA_CACHE_STATE_FAILED'' e)) (\<lambda>_.
       andthen read_now (\<lambda>now.
       let pub1 = set_target pub i ((pb_targets pub ! i)\<lparr>pt_cached := True, pt_status := Pub_Preparing, pt_updated := now\<rparr>)
       in
       andthen (on_error (save_target (pb_id pub1) (pb_targets pub1 ! i))
         (\<lambda>e. rollback_after_failure c pub1 fences ''TARGET_STATE_FAILED'' e)) (\<lambda>saved.
       let pub2 = set_target pub1 i saved
       in
       andthen (on_error (target_call Step_Prepare pub2 t fences ''prepare'') (broken pub2 Stage_Publish ''TARGET_PREPARE_FAILED'')) (\<lambda>_.
       andthen read_now (\<lambda>prepared.
       let pub3 = set_target pub2 i ((pb_targets pub2 ! i)\<lparr>pt_prepared := True, pt_prepared_at := Some prepared,
             pt_status := Pub_Prepared, pt_updated := prepared\<rparr>)
       in
       andthen (on_error (save_target (pb_id pub3) (pb_targets pub3 ! i))
         (\<lambda>e. rollback_after_failure c pub3 fences ''TARGET_STATE_FAILED'' e)) (\<lambda>saved'.
       return_ok (set_target pub3 i saved', fences)))))))))"

fun prepare_targets ::
  "coordinator \<Rightarrow> nat \<Rightarrow> target_plan list \<Rightarrow> publication \<Rightarrow> fence list \<Rightarrow>
   ('s pub_system_scheme, publication \<times> errs, publication \<times> fence list) act" where
  "prepare_targets c i [] pub fences = return_ok (pub, fences)"
| "prepare_targets c i (t # ts) pub fences =
     andthen (prepare_target c i t pub fences) (\<lambda>(pub', fences'). prepare_targets c (Suc i) ts pub' fences')"

definition new_publication :: "publish_request \<Rightarrow> activation_policy \<Rightarrow> fence list \<Rightarrow> int \<Rightarrow> publication" where
  "new_publication rq policy fences now =
     \<lparr>pb_id = rq_id rq, pb_source = rq_source rq, pb_room = pn_room (rq_plan rq), pb_status = Pub_Previewed,
      pb_outcome = Out_None, pb_plan = rq_plan rq, pb_backups = [], pb_fences = fences, pb_decision = False,
      pb_restart = pn_restart (rq_plan rq), pb_activation = initial_activation policy, pb_code = [], pb_message = [],
      pb_targets = map (\<lambda>t. \<lparr>pt_target = tg_target t, pt_installation = tg_installation t, pt_status = Pub_Previewed,
        pt_cached = False, pt_prepared = False, pt_published = False, pt_completed = False, pt_rolled = False,
        pt_code = [], pt_message = [], pt_prepared_at = None, pt_published_at = None, pt_completed_at = None,
        pt_rolled_at = None, pt_updated = now\<rparr>) (pn_targets (rq_plan rq)),
      pb_decided_at = None, pb_created = now, pb_updated = now, pb_finished = None\<rparr>"

text \<open>The answer for a publication that exists already, which may differ from the one asked for.\<close>

definition answer_existing :: "publish_request \<Rightarrow> activation_policy \<Rightarrow> bool \<Rightarrow> publication \<Rightarrow> publication \<times> errs" where
  "answer_existing rq policy other_id existing =
     (existing,
      if pn_hash (pb_plan existing) \<noteq> pn_hash (rq_plan rq) \<or> ac_policy (pb_activation existing) \<noteq> policy \<or> other_id
      then [Idempotency_Conflict] else [])"

definition protect ::
  "publish_request \<Rightarrow> publication \<Rightarrow> ('s pub_system_scheme, publication \<times> errs, publication) act" where
  "protect rq pub =
     (if rq_skip_backup rq then return_ok pub
      else
        andthen (attempt (receive rd_backups)) (\<lambda>r.
        let e = (case r of Inl e \<Rightarrow> e | Inr backups \<Rightarrow>
              if backups = [] then [Other_Failure ''protection backup returned no backup IDs''] else [])
        in if e \<noteq> [] then andthen (fail_publication pub ''PROTECTION_BACKUP_FAILED'' e) raise
           else
             andthen read_now (\<lambda>now.
             on_error (store_save (pub\<lparr>pb_backups := normalized_strings (case r of Inr b \<Rightarrow> b | Inl _ \<Rightarrow> []), pb_updated := now\<rparr>))
               (\<lambda>e. return_ok (empty_publication, e)))))"

text \<open>What follows the acquisition of the fences; the result is an open transaction.\<close>

definition begin_body ::
  "coordinator \<Rightarrow> publish_request \<Rightarrow> activation_policy \<Rightarrow> fence list \<Rightarrow> fence list \<Rightarrow>
   ('s pub_system_scheme, publication \<times> errs, transaction_handle) act" where
  "begin_body c rq policy fences0 owned =
     (let failing = (\<lambda>pub code e. andthen (fail_publication pub code e) raise) in
      andthen (attempt (find_idempotent (rq_id rq) (rq_source rq))) (\<lambda>found.
      case found of
        Inr existing \<Rightarrow> raise (answer_existing rq policy False existing)
      | Inl e \<Rightarrow>
          if Pub_Not_Found \<notin> set e then raise (empty_publication, e)
          else
            andthen read_now (\<lambda>now.
            andthen
              (on_error (store_create (new_publication rq policy fences0 now)) (\<lambda>e.
                 andthen (attempt (find_idempotent (rq_id rq) (rq_source rq))) (\<lambda>again.
                 return_ok (case again of
                   Inr existing \<Rightarrow> answer_existing rq policy False existing
                 | Inl _ \<Rightarrow> (empty_publication, e))))) (\<lambda>pub1.
            andthen (on_error (with_replicas c (set_desired (pb_plan pub1)))
              (\<lambda>e. fail_publication pub1 ''REPLICA_DESIRED_STATE_FAILED'' e)) (\<lambda>_.
            andthen (on_error (preview (co_minimum c) (pn_room (rq_plan rq)))
              (\<lambda>e. fail_publication pub1 ''PREVIEW_RECHECK_FAILED'' e)) (\<lambda>renewed.
            if pn_revision renewed \<noteq> pn_revision (rq_plan rq) then failing pub1 ''TOPOLOGY_CHANGED'' [Topology_Changed]
            else if pn_hash renewed \<noteq> pn_hash (rq_plan rq) then failing pub1 ''PLAN_CHANGED'' [Plan_Changed]
            else if \<not> pn_ready renewed then failing pub1 ''PREVIEW_BLOCKED'' [Preview_Blocked]
            else
              andthen read_now (\<lambda>now2.
              andthen (on_error (store_save (pub1\<lparr>pb_status := Pub_Preparing, pb_updated := now2\<rparr>))
                (\<lambda>e. return_ok (empty_publication, e))) (\<lambda>pub2.
              andthen (renew_fences (co_ttl c) fences0) (\<lambda>(fences1, e).
              if e \<noteq> [] then failing pub2 ''LEASE_RENEW_FAILED'' e
              else
                andthen (protect rq (pub2\<lparr>pb_fences := fences1\<rparr>)) (\<lambda>pub3.
                andthen (prepare_targets c 0 (pn_targets (pb_plan pub3)) pub3 fences1) (\<lambda>(pub4, fences2).
                andthen read_now (\<lambda>now3.
                andthen
                  (on_error (store_save (pub4\<lparr>pb_status := Pub_Prepared, pb_fences := fences2, pb_updated := now3\<rparr>))
                    (\<lambda>e. rollback_after_failure c empty_publication fences2 ''PUBLICATION_STATE_FAILED'' e)) (\<lambda>pub5.
                return_ok \<lparr>tx_publication = pub5, tx_fences = fences2, tx_owned = owned, tx_closed = False\<rparr>)))))))))))))"

text \<open>\<open>beginTransaction\<close>: the publication, the transaction if there is one, and the error.\<close>

definition begin_transaction ::
  "coordinator \<Rightarrow> publish_request \<Rightarrow> ('s pub_system_scheme, 'f, publication \<times> transaction_handle option \<times> errs) act" where
  "begin_transaction c rq =
     (let refused = (\<lambda>e. return_ok (empty_publication, None, e)) in
      case normalize_policy (rq_activation rq) of
        Inl _ \<Rightarrow> refused [Invalid_Input]
      | Inr policy \<Rightarrow>
          if \<not> valid_id (rq_id rq) \<or> rq_source rq \<noteq> [] \<and> \<not> valid_id (rq_source rq) \<or> plan_check (rq_plan rq) \<noteq> None
          then refused [Invalid_Input]
          else
            andthen (attempt (find_idempotent (rq_id rq) (rq_source rq))) (\<lambda>found.
            case found of
              Inr existing \<Rightarrow>
                (case answer_existing rq policy (pb_id existing \<noteq> rq_id rq \<and> rq_source rq = []) existing of
                   (v, e) \<Rightarrow> return_ok (v, None, e))
            | Inl e \<Rightarrow>
                if Pub_Not_Found \<notin> set e then refused e
                else
                  andthen (attempt (acquire_with_borrowed (co_ttl c) (rq_plan rq) (rq_id rq) (rq_borrowed rq))) (\<lambda>r.
                  case r of
                    Inl e \<Rightarrow> refused e
                  | Inr (fences, owned) \<Rightarrow>
                      andthen (attempt (begin_body c rq policy fences owned)) (\<lambda>r'.
                      case r' of
                        Inr tx \<Rightarrow> return_ok (tx_publication tx, Some tx, [])
                      | Inl (v, e) \<Rightarrow> andthen (release_fences owned) (\<lambda>_. return_ok (v, None, e))))))"

section \<open>Completing\<close>

definition completed_target :: "int \<Rightarrow> pub_target \<Rightarrow> pub_target" where
  "completed_target now t =
     t\<lparr>pt_completed := True, pt_completed_at := Some now, pt_status := Pub_Succeeded, pt_code := [], pt_message := []\<rparr>"

fun complete_targets ::
  "coordinator \<Rightarrow> nat \<Rightarrow> target_plan list \<Rightarrow> publication \<Rightarrow> fence list \<Rightarrow> errs \<Rightarrow>
   ('s pub_system_scheme, 'f, publication \<times> fence list \<times> errs) act" where
  "complete_targets c i [] pub fences failed = return_ok (pub, fences, failed)"
| "complete_targets c i (t # ts) pub fences failed =
     andthen (renew_fences (co_ttl c) fences) (\<lambda>(fences', e).
     andthen (if e \<noteq> [] then return_ok e
              else andthen (attempt (target_call Step_Complete pub t fences' ''complete'')) (\<lambda>r. return_ok (error_of r))) (\<lambda>e'.
     andthen
       (if e' \<noteq> []
        then
          andthen (ignoring (with_replicas c (mark_target_error t (pn_hash (pb_plan pub)) Stage_Complete e'))) (\<lambda>_.
          return_ok (failed_target Pub_RecoveryRequired ''TARGET_COMPLETE_FAILED'' e' (pb_targets pub ! i), e'))
        else
          andthen (attempt (with_replicas c (mark_completed t (pn_hash (pb_plan pub))))) (\<lambda>r.
          case r of
            Inl e'' \<Rightarrow>
              return_ok (failed_target Pub_RecoveryRequired ''REPLICA_COMPLETE_STATE_FAILED'' e'' (pb_targets pub ! i), e'')
          | Inr _ \<Rightarrow> andthen read_now (\<lambda>now. return_ok (completed_target now (pb_targets pub ! i), [])))) (\<lambda>(result, e'').
     andthen read_now (\<lambda>now.
     let result' = result\<lparr>pt_updated := now\<rparr>
     in andthen (attempt (save_target (pb_id pub) result')) (\<lambda>r.
        complete_targets c (Suc i) ts (set_target pub i result') fences' (failed @ e'' @ error_of r))))))"

definition complete_committed ::
  "coordinator \<Rightarrow> publication \<Rightarrow> fence list \<Rightarrow> ('s pub_system_scheme, 'f, publication \<times> errs) act" where
  "complete_committed c pub0 fences =
     andthen read_now (\<lambda>now.
     let pub1 = pub0\<lparr>pb_status := Pub_Completing, pb_outcome := Out_Full, pb_fences := fences, pb_updated := now\<rparr>
     in andthen (attempt (store_save pub1)) (\<lambda>r.
        case r of
          Inl e \<Rightarrow>
            andthen read_now (\<lambda>now2.
            let pub2 = pub1\<lparr>pb_status := Pub_RecoveryRequired, pb_code := ''COMPLETE_STATE_FAILED'',
                  pb_message := errs_text e, pb_updated := now2\<rparr>
            in andthen (attempt (store_save pub2)) (\<lambda>r2.
               return_ok (case r2 of Inr saved \<Rightarrow> (saved, [Recovery_Required] @ e)
                                   | Inl e2 \<Rightarrow> (pub2, [Recovery_Required] @ e @ e2))))
        | Inr pub2 \<Rightarrow>
            andthen (complete_targets c 0 (pn_targets (pb_plan pub2)) pub2 fences []) (\<lambda>(pub3, fences', failed).
            andthen read_now (\<lambda>now2.
            let pub4 = pub3\<lparr>pb_fences := fences', pb_updated := now2\<rparr>
            in if failed \<noteq> []
               then save_and_return (pub4\<lparr>pb_status := Pub_RecoveryRequired, pb_outcome := Out_Full,
                 pb_code := ''COMPLETE_RECOVERY_REQUIRED'', pb_message := errs_text failed\<rparr>) ([Recovery_Required] @ failed)
               else
                 andthen read_now (\<lambda>finished.
                 save_and_return (pub4\<lparr>pb_status := Pub_Succeeded, pb_outcome := Out_Full, pb_code := [], pb_message := [],
                   pb_finished := Some finished, pb_updated := finished, pb_restart := True\<rparr>) [])))))"

definition complete_and_activate ::
  "coordinator \<Rightarrow> publication \<Rightarrow> fence list \<Rightarrow> ('s pub_system_scheme, 'f, publication \<times> errs) act" where
  "complete_and_activate c pub fences =
     andthen (complete_committed c pub fences) (\<lambda>(done, e).
       if e \<noteq> [] \<or> ap_mode (ac_policy (pb_activation done)) \<noteq> Mode_Restart then return_ok (done, e)
       else activate_committed c done fences (ac_policy (pb_activation done)) None)"

section \<open>Transactions\<close>

text \<open>The methods of a transaction return their result and the transaction afterwards.\<close>

definition tx_close :: "transaction_handle \<Rightarrow> ('s pub_system_scheme, 'f, transaction_handle) act" where
  "tx_close tx =
     (if tx_closed tx then return_ok tx
      else andthen (release_fences (tx_owned tx)) (\<lambda>_. return_ok (tx\<lparr>tx_owned := [], tx_closed := True\<rparr>)))"

definition tx_rollback_locked ::
  "coordinator \<Rightarrow> transaction_handle \<Rightarrow> string \<Rightarrow> errs \<Rightarrow>
   ('s pub_system_scheme, 'f, (publication \<times> errs) \<times> transaction_handle) act" where
  "tx_rollback_locked c tx code reason =
     (if tx_closed tx then return_ok ((tx_publication tx, []), tx)
      else if pb_decision (tx_publication tx) then return_ok ((tx_publication tx, [Pub_Conflict]), tx)
      else
        andthen (rollback_after_failure c (tx_publication tx) (tx_fences tx) code reason) (\<lambda>(pub, e).
        andthen (tx_close (tx\<lparr>tx_publication := pub\<rparr>)) (\<lambda>tx'. return_ok ((pub, e), tx'))))"

definition tx_rollback ::
  "coordinator \<Rightarrow> transaction_handle \<Rightarrow> string \<Rightarrow> errs \<Rightarrow>
   ('s pub_system_scheme, 'f, (publication \<times> errs) \<times> transaction_handle) act" where
  "tx_rollback c tx code reason =
     tx_rollback_locked c tx code (if reason = [] then [Other_Failure ''publication transaction was cancelled''] else reason)"

definition tx_renew ::
  "coordinator \<Rightarrow> transaction_handle \<Rightarrow> ('s pub_system_scheme, 'f, errs \<times> transaction_handle) act" where
  "tx_renew c tx =
     (if tx_closed tx \<or> pb_decision (tx_publication tx) then return_ok ([Pub_Conflict], tx)
      else
        andthen (renew_fences (co_ttl c) (tx_fences tx)) (\<lambda>(fences, e).
        if e \<noteq> [] then return_ok (e, tx)
        else return_ok ([], tx\<lparr>tx_fences := fences, tx_publication := (tx_publication tx)\<lparr>pb_fences := fences\<rparr>\<rparr>)))"

text \<open>The loop of \<open>Publish\<close>. An early return is the transaction to be rolled back, with the reason.\<close>

fun publish_targets ::
  "coordinator \<Rightarrow> nat \<Rightarrow> target_plan list \<Rightarrow> publication \<Rightarrow> transaction_handle \<Rightarrow>
   ('s pub_system_scheme, transaction_handle \<times> string \<times> errs, publication \<times> transaction_handle) act" where
  "publish_targets c i [] pub tx = return_ok (pub, tx)"
| "publish_targets c i (t # ts) pub tx =
     andthen (renew_fences (co_ttl c) (tx_fences tx)) (\<lambda>(fences, e).
     let tx1 = tx\<lparr>tx_fences := fences\<rparr>; hash = pn_hash (pb_plan pub) in
     if e \<noteq> [] then raise (tx1\<lparr>tx_publication := pub\<rparr>, ''LEASE_RENEW_FAILED'', e)
     else
       andthen (on_error (target_call Step_Publish pub t fences ''publish'') (\<lambda>e.
         andthen (ignoring (with_replicas c (mark_target_error t hash Stage_Publish e))) (\<lambda>_.
         let pub' = set_target pub i (failed_target Pub_Failed ''TARGET_PUBLISH_FAILED'' e (pb_targets pub ! i))
         in andthen (ignoring (save_target (pb_id pub') (pb_targets pub' ! i))) (\<lambda>_.
            return_ok (tx1\<lparr>tx_publication := pub'\<rparr>, ''TARGET_PUBLISH_FAILED'', e))))) (\<lambda>_.
       andthen (on_error (with_replicas c (mark_published t hash))
         (\<lambda>e. return_ok (tx1\<lparr>tx_publication := pub\<rparr>, ''REPLICA_PUBLISH_STATE_FAILED'', e))) (\<lambda>_.
       andthen read_now (\<lambda>now.
       let pub1 = set_target pub i ((pb_targets pub ! i)\<lparr>pt_published := True, pt_published_at := Some now,
             pt_status := Pub_Publishing, pt_updated := now\<rparr>)
       in andthen (on_error (save_target (pb_id pub1) (pb_targets pub1 ! i))
            (\<lambda>e. return_ok (tx1\<lparr>tx_publication := pub1\<rparr>, ''TARGET_STATE_FAILED'', e))) (\<lambda>saved.
          publish_targets c (Suc i) ts (set_target pub1 i saved) tx1)))))"

definition publish_body ::
  "coordinator \<Rightarrow> transaction_handle \<Rightarrow>
   ('s pub_system_scheme, transaction_handle \<times> string \<times> errs, publication \<times> transaction_handle) act" where
  "publish_body c tx =
     andthen (renew_fences (co_ttl c) (tx_fences tx)) (\<lambda>(fences, e).
     if e \<noteq> [] then raise (tx, ''LEASE_RENEW_FAILED'', e)
     else
       let tx1 = tx\<lparr>tx_fences := fences\<rparr> in
       andthen read_now (\<lambda>now.
       andthen (on_error (store_save ((tx_publication tx)\<lparr>pb_fences := fences, pb_status := Pub_Publishing, pb_updated := now\<rparr>))
         (\<lambda>e. return_ok (tx1\<lparr>tx_publication := empty_publication\<rparr>, ''PUBLICATION_STATE_FAILED'', e))) (\<lambda>pub1.
       andthen (publish_targets c 0 (pn_targets (pb_plan pub1)) pub1 tx1) (\<lambda>(pub2, tx2).
       andthen read_now (\<lambda>now2.
       andthen (on_error (store_save (pub2\<lparr>pb_fences := tx_fences tx2, pb_updated := now2\<rparr>))
         (\<lambda>e. return_ok (tx2\<lparr>tx_publication := empty_publication\<rparr>, ''PUBLICATION_STATE_FAILED'', e))) (\<lambda>pub3.
       return_ok (pub3, tx2\<lparr>tx_publication := pub3\<rparr>)))))))"

definition tx_publish ::
  "coordinator \<Rightarrow> transaction_handle \<Rightarrow> ('s pub_system_scheme, 'f, (publication \<times> errs) \<times> transaction_handle) act" where
  "tx_publish c tx =
     (if tx_closed tx \<or> pb_status (tx_publication tx) \<noteq> Pub_Prepared \<or> pb_decision (tx_publication tx)
      then return_ok ((tx_publication tx, [Pub_Conflict]), tx)
      else
        andthen (attempt (publish_body c tx)) (\<lambda>r.
          case r of
            Inr (pub, tx') \<Rightarrow> return_ok ((pub, []), tx')
          | Inl (tx', code, e) \<Rightarrow> tx_rollback_locked c tx' code e))"

definition tx_commit ::
  "coordinator \<Rightarrow> transaction_handle \<Rightarrow> ('s pub_system_scheme, 'f, (publication \<times> errs) \<times> transaction_handle) act" where
  "tx_commit c tx =
     (if tx_closed tx \<or> pb_status (tx_publication tx) \<noteq> Pub_Publishing \<or> pb_decision (tx_publication tx)
      then return_ok ((tx_publication tx, [Pub_Conflict]), tx)
      else
        andthen (renew_fences (co_ttl c) (tx_fences tx)) (\<lambda>(fences, e).
        if e \<noteq> [] then tx_rollback_locked c tx ''LEASE_RENEW_FAILED'' e
        else
          let tx1 = tx\<lparr>tx_fences := fences, tx_publication := (tx_publication tx)\<lparr>pb_fences := fences\<rparr>\<rparr>;
              finish = (\<lambda>pub.
                andthen (complete_and_activate c pub fences) (\<lambda>(done, e').
                andthen (tx_close (tx1\<lparr>tx_publication := done\<rparr>)) (\<lambda>tx'. return_ok ((done, e'), tx'))))
          in
          andthen read_now (\<lambda>now.
          andthen (attempt (decide_commit (pb_id (tx_publication tx)) now)) (\<lambda>r.
          case r of
            Inr pub \<Rightarrow> finish pub
          | Inl e' \<Rightarrow>
              andthen (attempt (store_get (pb_id (tx_publication tx)))) (\<lambda>r'.
              case r' of
                Inr current \<Rightarrow>
                  if pb_decision current then finish current
                  else tx_rollback_locked c tx1 ''COMMIT_DECISION_FAILED'' e'
              | Inl _ \<Rightarrow> tx_rollback_locked c tx1 ''COMMIT_DECISION_FAILED'' e')))))"

text \<open>\<open>Coordinator.Publish\<close>: all of it, with the transaction closed at the end.\<close>

definition publish_plan ::
  "coordinator \<Rightarrow> publish_request \<Rightarrow> ('s pub_system_scheme, 'f, publication \<times> errs) act" where
  "publish_plan c rq =
     andthen (begin_transaction c rq) (\<lambda>(pub, handle, e).
       case handle of
         None \<Rightarrow> return_ok (pub, e)
       | Some tx \<Rightarrow>
           andthen (tx_publish c tx) (\<lambda>((pub1, e1), tx1).
             if e1 \<noteq> [] then andthen (tx_close tx1) (\<lambda>_. return_ok (pub1, e1))
             else
               andthen (tx_commit c tx1) (\<lambda>((pub2, e2), tx2).
               andthen (tx_close tx2) (\<lambda>_. return_ok (pub2, e2)))))"

section \<open>Preparing the cache only\<close>

record cache_target =
  ct_target :: string
  ct_installation :: string
  ct_prepared :: bool
  ct_code :: string
  ct_message :: string
  ct_updated :: int

record cache_preparation =
  cp_room :: string
  cp_revision :: string
  cp_hash :: string
  cp_ready :: bool
  cp_targets :: "cache_target list"
  cp_at :: int

fun cache_targets ::
  "coordinator \<Rightarrow> publication \<Rightarrow> target_plan list \<Rightarrow> fence list \<Rightarrow> cache_preparation \<Rightarrow>
   ('s pub_system_scheme, 'f, cache_preparation \<times> errs) act" where
  "cache_targets c pub [] fences result =
     andthen read_now (\<lambda>now. return_ok (result\<lparr>cp_ready := True, cp_at := now\<rparr>, []))"
| "cache_targets c pub (t # ts) fences result =
     andthen (renew_fences (co_ttl c) fences) (\<lambda>(fences', e).
     andthen read_now (\<lambda>begun.
     andthen (if e \<noteq> [] then return_ok e
              else andthen (attempt (target_call Step_Cache pub t fences' ''prepare-cache'')) (\<lambda>r. return_ok (error_of r))) (\<lambda>e'.
     let item = \<lparr>ct_target = tg_target t, ct_installation = tg_installation t, ct_prepared = False, ct_code = [],
           ct_message = [], ct_updated = begun\<rparr>
     in if e' \<noteq> []
        then andthen read_now (\<lambda>now.
          return_ok (result\<lparr>cp_targets := cp_targets result @ [item\<lparr>ct_code := ''CACHE_PREPARATION_FAILED'',
            ct_message := errs_text e'\<rparr>], cp_at := now\<rparr>, e'))
        else andthen read_now (\<lambda>now.
          cache_targets c pub ts fences' (result\<lparr>cp_targets := cp_targets result @
            [item\<lparr>ct_prepared := True, ct_updated := now\<rparr>]\<rparr>)))))"

definition ensure_cache ::
  "coordinator \<Rightarrow> mod_plan \<Rightarrow> ('s pub_system_scheme, 'f, cache_preparation \<times> errs) act" where
  "ensure_cache c p =
     andthen read_now (\<lambda>now.
     let result = \<lparr>cp_room = pn_room p, cp_revision = pn_revision p, cp_hash = pn_hash p, cp_ready = False,
           cp_targets = [], cp_at = now\<rparr>
     in if plan_check p \<noteq> None \<or> \<not> pn_ready p then return_ok (result, [Invalid_Input])
        else
          andthen (attempt (preview (co_minimum c) (pn_room p))) (\<lambda>r.
          case r of
            Inl e \<Rightarrow> return_ok (result, e)
          | Inr renewed \<Rightarrow>
              if pn_revision renewed \<noteq> pn_revision p then return_ok (result, [Topology_Changed])
              else if pn_hash renewed \<noteq> pn_hash p then return_ok (result, [Plan_Changed])
              else if \<not> pn_ready renewed then return_ok (result, [Preview_Blocked])
              else
                andthen (attempt (acquire_resources (co_ttl c) (installation_lease_resources p)
                  (''mod.cache:'' @ take 32 (pn_hash p)))) (\<lambda>r'.
                case r' of
                  Inl e \<Rightarrow> return_ok (result, e)
                | Inr fences \<Rightarrow>
                    andthen (cache_targets c (empty_publication\<lparr>pb_id := ''modcache-'' @ take 32 (pn_hash p),
                      pb_room := pn_room p, pb_plan := p\<rparr>) (pn_targets p) fences result) (\<lambda>answer.
                    andthen (release_fences fences) (\<lambda>_. return_ok answer)))))"

section \<open>Recovery\<close>

fun target_index :: "pub_target list \<Rightarrow> target_plan \<Rightarrow> nat \<Rightarrow> nat option" where
  "target_index [] t i = None"
| "target_index (r # rs) t i =
     (if pt_target r = tg_target t \<and> pt_installation r = tg_installation t then Some i else target_index rs t (Suc i))"

text \<open>The loop of \<open>recoverRollback\<close>, over the targets of the plan from the last to the first.\<close>

fun recover_targets ::
  "coordinator \<Rightarrow> target_plan list \<Rightarrow> publication \<Rightarrow> fence list \<Rightarrow> errs \<Rightarrow>
   ('s pub_system_scheme, 'f, publication \<times> fence list \<times> errs) act" where
  "recover_targets c [] pub fences failed = return_ok (pub, fences, failed)"
| "recover_targets c (t # ts) pub fences failed =
     (case target_index (pb_targets pub) t 0 of
        None \<Rightarrow> recover_targets c ts pub fences (failed @ [Invalid_Input])
      | Some i \<Rightarrow>
          andthen (background (renew_fences (co_ttl c) fences)) (\<lambda>(renewed, e).
          andthen (if e \<noteq> [] then return_ok (fences, e)
                   else andthen (attempt (target_call Step_Rollback pub t renewed ''rollback'')) (\<lambda>r.
                     return_ok (renewed, error_of r))) (\<lambda>(fences', e').
          let result = pb_targets pub ! i in
          andthen
            (if e' \<noteq> []
             then return_ok (failed_target Pub_RecoveryRequired ''TARGET_ROLLBACK_FAILED'' e' result)
             else andthen read_now (\<lambda>now. return_ok ((rolled_back now result)\<lparr>pt_code := [], pt_message := []\<rparr>))) (\<lambda>result1.
          andthen read_now (\<lambda>now.
          let result2 = result1\<lparr>pt_updated := now\<rparr>
          in andthen (attempt (save_target (pb_id pub) result2)) (\<lambda>r.
             recover_targets c ts (set_target pub i result2) fences' (failed @ e' @ error_of r)))))))"

definition recover_rollback ::
  "coordinator \<Rightarrow> publication \<Rightarrow> fence list \<Rightarrow> ('s pub_system_scheme, 'f, publication \<times> errs) act" where
  "recover_rollback c pub fences =
     andthen (recover_targets c (rev (pn_targets (pb_plan pub))) pub fences []) (\<lambda>(pub1, fences1, failed).
     andthen read_now (\<lambda>finished.
     let pub2 = pub1\<lparr>pb_fences := fences1, pb_updated := finished, pb_finished := Some finished\<rparr>
     in if failed \<noteq> []
        then save_and_return (pub2\<lparr>pb_status := Pub_RecoveryRequired, pb_outcome := Out_Partial,
          pb_code := ''ROLLBACK_RECOVERY_REQUIRED'', pb_message := errs_text failed\<rparr>) failed
        else save_and_return (pub2\<lparr>pb_status := Pub_RolledBack, pb_outcome := Out_None,
          pb_code := ''RECOVERED_WITHOUT_COMMIT'',
          pb_message := bytes
     [0xE6, 0x9C, 0xAA, 0xE5, 0x8F, 0x91, 0xE7, 0x8E, 0xB0, 0xE5, 0x85, 0xA8, 0xE5, 0xB1,
      0x80, 0x20, 0x63, 0x6F, 0x6D, 0x6D, 0x69, 0x74, 0x20, 0x64, 0x65, 0x63, 0x69, 0x73,
      0x69, 0x6F, 0x6E, 0xEF, 0xBC, 0x8C, 0xE5, 0xB7, 0xB2, 0xE5, 0x9B, 0x9E, 0xE6, 0xBB,
      0x9A, 0xE5, 0x85, 0xA8, 0xE9, 0x83, 0xA8, 0xE7, 0x9B, 0xAE, 0xE6, 0xA0, 0x87]\<rparr>) []))"

definition activation_unfinished :: "publication \<Rightarrow> bool" where
  "activation_unfinished pub \<longleftrightarrow>
     pb_status pub = Pub_Succeeded \<and> pb_restart pub \<and>
     ac_status (pb_activation pub) \<in> {Act_Pending, Act_Restarting, Act_Confirming}"

definition recover_publication ::
  "coordinator \<Rightarrow> string \<Rightarrow> ('s pub_system_scheme, 'f, publication \<times> errs) act" where
  "recover_publication c pub_id =
     andthen (attempt (store_get pub_id)) (\<lambda>r.
     case r of
       Inl e \<Rightarrow> return_ok (empty_publication, e)
     | Inr pub \<Rightarrow>
         if pb_status pub = Pub_Succeeded \<and> \<not> activation_unfinished pub \<or> pb_status pub = Pub_Failed \<or>
            pb_status pub = Pub_RolledBack
         then return_ok (pub, [Pub_Conflict])
         else
           andthen new_uuid (\<lambda>uuid.
           andthen (attempt (acquire_fences (co_ttl c) (pb_plan pub) (pb_id pub @ '':recover:'' @ uuid))) (\<lambda>r'.
           case r' of
             Inl e \<Rightarrow> return_ok (pub, e)
           | Inr fences \<Rightarrow>
               andthen read_now (\<lambda>now.
               let pub1 = pub\<lparr>pb_fences := fences, pb_updated := now\<rparr> in
               andthen (attempt (store_save pub1)) (\<lambda>saved.
               andthen
                 (case saved of
                    Inl e \<Rightarrow> return_ok (pub1, e)
                  | Inr pub2 \<Rightarrow>
                      if activation_unfinished pub
                      then activate_committed c pub2 fences (ac_policy (pb_activation pub2)) (activation_running_snapshot pub2)
                      else if pb_decision pub2 then complete_and_activate c pub2 fences
                      else recover_rollback c pub2 fences) (\<lambda>result.
               andthen (release_fences fences) (\<lambda>_. return_ok result)))))))"

fun recover_each ::
  "coordinator \<Rightarrow> string list \<Rightarrow> publication list \<Rightarrow> errs \<Rightarrow> ('s pub_system_scheme, 'f, publication list \<times> errs) act" where
  "recover_each c [] results failed = return_ok (results, failed)"
| "recover_each c (i # is) results failed =
     andthen (attempt (ctx_err [Other_Failure ''context canceled''])) (\<lambda>r.
     if error_of r \<noteq> [] then return_ok (results, failed @ error_of r)
     else
       andthen (recover_publication c i) (\<lambda>(pub, e). recover_each c is (results @ [pub]) (failed @ e)))"

definition recover_publications :: "coordinator \<Rightarrow> ('s pub_system_scheme, 'f, publication list \<times> errs) act" where
  "recover_publications c =
     andthen (attempt store_active) (\<lambda>r.
     case r of
       Inl e \<Rightarrow> return_ok ([], e)
     | Inr active \<Rightarrow> recover_each c (map pb_id active) [] [])"

end
