(* ===== verification/Mod_Journal.thy ===== *)
theory Mod_Journal
  imports Mod_Coordinator
begin

text \<open>
  What the operations of the publication do to the state, whatever their outcome. \<open>moves R m\<close> says that every
  run of \<open>m\<close> relates the state before to the state after by \<open>R\<close>. A relation that ignores the leases, the
  results of the targets and the replicas (the locale \<open>quiet\<close>) is kept by every operation on them; one that
  also ignores the columns a publication may change (\<open>journaled\<close>) is kept by every operation of the store
  except the creation of a publication. The relations used are \<open>emits S\<close>, that the journal of runtime calls
  grew by calls of the kinds \<open>S\<close> and that no plan changed, and \<open>unsaved\<close>, that no publication changed at all.
  \<open>returns m\<close> says that \<open>m\<close> never fails: its error is a part of its result.
\<close>

section \<open>Results of the combinators\<close>

lemma statement_eq_Inr:
  "statement s = (Inr u, s') \<longleftrightarrow> \<not> fault s (step s) \<and> s' = s\<lparr>step := Suc (step s)\<rparr>"
  by (auto simp: statement_def receive_def Let_def)

lemma on_error_eq_Inr [simp]: "on_error m h s = (Inr a, s') \<longleftrightarrow> m s = (Inr a, s')"
  by (auto simp: on_error_def split: prod.splits sum.splits)

lemma attempt_eq [simp]: "attempt m s = (Inr r, s') \<longleftrightarrow> m s = (r, s')"
  by (auto simp: attempt_def split: prod.splits)

lemma attempt_not_Inl [simp]: "attempt m s \<noteq> (Inl e, s')"
  by (auto simp: attempt_def split: prod.splits)

lemma on_error_eq_Inl:
  "on_error m h s = (Inl f, s') \<longleftrightarrow> (\<exists>e s1. m s = (Inl e, s1) \<and> (h e s1 = (Inl f, s') \<or> h e s1 = (Inr f, s')))"
  by (auto simp: on_error_def split: prod.splits sum.splits)

lemma ignoring_eq [simp]: "ignoring m s = (Inr u, s') \<longleftrightarrow> (\<exists>r. m s = (r, s'))"
  by (auto simp: ignoring_def andthen_eq_Inr_iff)

section \<open>Relations an action keeps\<close>

lemma moves_function_body [moves_intros]: "moves R m \<Longrightarrow> moves R (function_body m)"
  by (auto simp: moves_def function_body_def split: prod.split sum.split) (metis snd_conv)+

context step_relation
begin

lemma lifted [moves_intros]: "moves R (lift r)"
  by (simp add: moves_def lift_def refl_R)

lemma database [moves_intros]: "moves R (receive g)" "moves R context_error" "moves R statement"
  by (simp_all add: moves_def receive_def context_error_def statement_def steps Let_def)

lemma handled [moves_intros]:
  assumes "moves R m" and "\<And>e. moves R (h e)"
  shows "moves R (on_error m h)"
  using assms by (auto simp: moves_def on_error_def split: prod.split sum.split) (metis trans_R snd_conv)+

lemma dropped [moves_intros]: "moves R m \<Longrightarrow> moves R (ignoring m)"
  unfolding ignoring_def by (intro moves_intros)

lemma each_of [moves_intros]:
  assumes "\<And>x. moves R (f x)"
  shows "moves R (each f xs)"
  using assms by (induction xs) (auto simp: basic intro!: sequence)

end

section \<open>Readings and leases\<close>

locale reading = step_relation R
  for R :: "'s pub_system_scheme \<Rightarrow> 's pub_system_scheme \<Rightarrow> bool"
begin

lemma preview_quiet [moves_intros]: "moves R (preview minimum room)"
proof -
  have mods: "moves R (resolve_mods qs cache)" for qs cache
    by (induction qs arbitrary: cache) (auto intro!: moves_intros split: option.split)
  have "moves R (collect_worlds minimum placed requested ws ts cache rooms)" for placed requested ws ts cache rooms
    by (induction ws arbitrary: ts cache rooms) (auto intro!: moves_intros mods)
  moreover have "moves R (finish_targets minimum ts)" for ts
  proof (induction ts)
    case (Cons t ts)
    then show ?case unfolding finish_targets.simps finish_target_def by (intro moves_intros)
  qed (simp only: finish_targets.simps basic)
  ultimately show ?thesis unfolding preview_def by (intro moves_intros)
qed

lemma get_quiet [moves_intros]: "moves R (store_get pid)"
  unfolding store_get_def by (intro moves_intros)

lemma find_quiet [moves_intros]: "moves R (find_idempotent pid source)"
  unfolding find_idempotent_def Let_def by (intro moves_intros)

end

locale leasing = reading R
  for R :: "'s pub_system_scheme \<Rightarrow> 's pub_system_scheme \<Rightarrow> bool" +
  assumes leases: "R s (s\<lparr>lease_rows := ls\<rparr>)"
begin

lemma acquire_quiet [moves_intros]: "moves R (acquire room key ttl)"
proof -
  have "moves R (acquire_tx r k t now)" for r k t now
    unfolding acquire_tx_def by (intro moves_intros leases)
  then have tx: "moves R (transaction (Some Lease_DB) (acquire_tx r k t now))" for r k t now
    by (rule in_transaction)
  have "moves R (acquire_once r k t)" for r k t
    unfolding acquire_once_def
  proof (intro moves_intros)
    show "moves R (\<lambda>s. case transaction (Some Lease_DB) (acquire_tx r k t now) s of
        (Inr lease, s') \<Rightarrow> (Inr (Some lease), s') | (Inl None, s') \<Rightarrow> (Inr None, s') | (Inl (Some e), s') \<Rightarrow> (Inl e, s'))" for now
      unfolding moves_def using tx [of r k t now]
      by (auto simp: moves_def split: prod.split sum.split option.split) (metis snd_conv)+
  qed
  then have "moves R (acquire_attempts n r k t)" for n r k t
    by (induction n) (auto intro!: moves_intros)
  then show ?thesis unfolding acquire_def by (intro moves_intros)
qed

lemma lease_calls [moves_intros]:
  "moves R (renew l ttl)" "moves R (release l)" "moves R (lease_acquire room key ttl)" "moves R (lease_renew f ttl)"
  "moves R (lease_release f)"
  unfolding lease_acquire_def lease_renew_def lease_release_def renew_def release_def by (intro moves_intros leases)+

lemma fences_quiet [moves_intros]: "moves R (release_fences fs)" "moves R (renew_fences ttl fs)"
proof -
  show "moves R (release_fences fs)" unfolding release_fences_def by (intro moves_intros)
  show "moves R (renew_fences ttl fs)" 
  proof (induction fs)
    case (Cons f fs)
    then show ?case unfolding renew_fences.simps by (intro moves_intros)
  qed (simp only: renew_fences.simps basic)
qed

lemma acquire_each_quiet [moves_intros]: "moves R (acquire_each ttl key rs fs)"
  by (induction rs arbitrary: fs) (auto intro!: moves_intros)

lemma borrow_quiet [moves_intros]: "moves R (acquire_or_borrow ttl key m rs all own n)"
  by (induction rs arbitrary: all own n) (auto intro!: moves_intros)

lemma acquisition [moves_intros]:
  "moves R (acquire_resources ttl rs key)" "moves R (acquire_fences ttl p pub)"
  "moves R (acquire_with_borrowed ttl p pub fs)"
  unfolding acquire_resources_def acquire_fences_def acquire_with_borrowed_def by (intro moves_intros)+

end

section \<open>Replicas and the results of targets\<close>

locale quiet = leasing R
  for R :: "'s pub_system_scheme \<Rightarrow> 's pub_system_scheme \<Rightarrow> bool" +
  assumes other_context: "R s (s\<lparr>cancelled := c\<rparr>)"
    and results: "R s (s\<lparr>target_rows := ts\<rparr>)"
    and artifacts: "R s (s\<lparr>artifact_rows := as\<rparr>)"
    and worlds: "R s (s\<lparr>world_rows := ws\<rparr>)"
begin

lemma in_background [moves_intros]:
  assumes "moves R m"
  shows "moves R (background m)"
  unfolding moves_def
proof
  fix s
  obtain r s' where run: "m (s\<lparr>cancelled := (\<lambda>_. False)\<rparr>) = (r, s')" by fastforce
  with assms have "R (s\<lparr>cancelled := (\<lambda>_. False)\<rparr>) s'" by (auto dest: movesD)
  with other_context trans_R have "R s (s'\<lparr>cancelled := cancelled s\<rparr>)" by blast
  with run show "R s (snd (background m s))" by (simp add: background_def)
qed

lemma upserts [moves_intros]: "moves R (upsert_artifact d)" "moves R (upsert_world w)"
  unfolding upsert_artifact_def upsert_world_def by (intro moves_intros artifacts worlds)+

lemma replica_updates [moves_intros]:
  "moves R (update_artifact P f)" "moves R (update_world Q g)" "moves R n \<Longrightarrow> moves R (exactly_one n)"
  unfolding update_artifact_def update_world_def exactly_one_def by (intro moves_intros artifacts worlds; assumption)+

lemma replicas_quiet [moves_intros]:
  "moves R (set_desired p)" "moves R (update_target t v st b1 b2 b3 msg)"
  "moves R (mark_world_loaded p room world b e)" "moves R (observe_target t v ob)"
proof -
  show "moves R (set_desired p)" "moves R (update_target t v st b1 b2 b3 msg)" "moves R (mark_world_loaded p room world b e)"
    unfolding set_desired_def set_desired_tx_def update_target_def mark_world_loaded_def
    by (intro moves_intros worlds)+
  show "moves R (observe_target t v ob)"
    unfolding observe_target_def observe_artifact_def observe_world_def by (intro moves_intros)
qed

lemma marks [moves_intros]:
  "moves R (mark_cache t v)" "moves R (mark_published t v)" "moves R (mark_completed t v)"
  "moves R (mark_rolled_back t v e)" "moves R (mark_target_error t v st e)"
  "moves R m \<Longrightarrow> moves R (with_replicas c m)"
  unfolding mark_cache_def mark_published_def mark_completed_def mark_rolled_back_def mark_target_error_def with_replicas_def
  by (intro moves_intros; assumption)+

lemma save_target_quiet [moves_intros]: "moves R (save_target pub t)"
  unfolding save_target_def by (intro moves_intros results)

lemma confirmation_quiet [moves_intros]: "moves R (confirm_shard_loaded w cursor confirmation)"
proof -
  have "moves R (confirm_polls n w confirmation cursor confirmed marker)" for n cursor confirmed marker
  proof (induction n arbitrary: cursor confirmed marker)
    case 0
    then show ?case by (subst confirm_polls.simps) (simp only: nat.case, intro moves_intros)
  next
    case (Suc n)
    then show ?case by (subst confirm_polls.simps) (simp only: nat.case, intro moves_intros)
  qed
  then show ?thesis unfolding confirm_shard_loaded_def by (intro moves_intros)
qed

lemma notification_quiet [moves_intros]: "moves R (notify_activation c fs)"
proof -
  have "moves R (renew_times n ttl fs)" for n ttl fs
    by (induction n arbitrary: fs) (auto intro!: moves_intros)
  then show ?thesis unfolding notify_activation_def by (intro moves_intros)
qed

end

section \<open>The store of publications\<close>

definition plans :: "'s pub_store_scheme \<Rightarrow> (string \<times> mod_plan) list" where
  "plans s = map (\<lambda>r. (pr_id r, pr_plan r)) (pub_rows s)"

lemma plans_update:
  "(\<And>r. pr_id (f r) = pr_id r \<and> pr_plan (f r) = pr_plan r) \<Longrightarrow>
   map (\<lambda>r. (pr_id r, pr_plan r)) (update_where P f rows) = map (\<lambda>r. (pr_id r, pr_plan r)) rows"
  by (simp add: map_update_where)

locale journaled = quiet R
  for R :: "'s pub_system_scheme \<Rightarrow> 's pub_system_scheme \<Rightarrow> bool" +
  assumes saved: "map (\<lambda>r. (pr_id r, pr_plan r)) rows = plans s \<Longrightarrow> R s (s\<lparr>pub_rows := rows\<rparr>)"
begin

lemma writes [moves_intros]: "moves R (store_save v)" "moves R (decide_commit pid at)"
  unfolding store_save_def decide_commit_def
  by (intro moves_intros saved; simp add: plans_def plans_update save_columns_def)+

lemma outcomes [moves_intros]: "moves R (save_and_return v e)" "moves R (fail_publication v code e)"
  "moves R (fail_activation c v w code e)"
  unfolding save_and_return_def fail_publication_def fail_activation_def by (intro moves_intros)+

lemma observation [moves_intros]:
  "moves R (observe_shards c original modes ws v running)" "moves R (capture_cursors c v ws cursors)"
  "moves R (confirm_worlds c confirmation cs ws v failed)"
proof -
  show "moves R (observe_shards c original modes ws v running)"
    by (induction ws arbitrary: v running) (simp_all only: observe_shards.simps, (intro moves_intros; assumption?)+)
  show "moves R (capture_cursors c v ws cursors)"
    by (induction ws arbitrary: cursors) (simp_all only: capture_cursors.simps, (intro moves_intros; assumption?)+)
  show "moves R (confirm_worlds c confirmation cs ws v failed)"
    by (induction ws arbitrary: v failed) (simp_all only: confirm_worlds.simps, (intro moves_intros; assumption?)+)
qed

lemma protect_journaled [moves_intros]: "moves R (protect rq v)"
  unfolding protect_def by (intro moves_intros)

end

section \<open>Runtime calls\<close>

text \<open>A relation that allows calls of the kinds \<open>S\<close>.\<close>

locale calling = journaled R
  for R :: "'s pub_system_scheme \<Rightarrow> 's pub_system_scheme \<Rightarrow> bool" +
  fixes S :: "runtime_step set"
  assumes called: "re_step e \<in> S \<Longrightarrow> R s (s\<lparr>runtime_log := runtime_log s @ [e]\<rparr>)"
begin

lemma calls:
  assumes "kind \<in> S"
  shows "moves R (runtime_call kind key op)"
  unfolding moves_def
proof
  fix s :: "'s pub_system_scheme"
  define e where "e = \<lparr>re_step = kind, re_key = key, re_operation = op, re_ok = (\<not> fault s (step s))\<rparr>"
  have "re_step e \<in> S" using assms by (simp add: e_def)
  then have "R s (s\<lparr>step := Suc (step s), runtime_log := runtime_log s @ [e]\<rparr>)"
    using trans_R [OF steps called] by fastforce
  then show "R s (snd (runtime_call kind key op s))"
    by (cases "fault s (step s)") (simp_all add: runtime_call_def Let_def e_def)
qed

lemma target_and_world_calls:
  "kind \<in> S \<Longrightarrow> moves R (target_call kind v t fs action)" "kind \<in> S \<Longrightarrow> moves R (world_call kind v w fs action)"
  by (simp_all add: target_call_def world_call_def calls)

lemma rollback_moves:
  assumes "Step_Rollback \<in> S"
  shows "moves R (rollback_after_failure c v fs code reason)" "moves R (recover_rollback c v fs)"
proof -
  have "moves R (rollback_targets c reason n v fs failed any)" for n v fs failed any
    by (induction n arbitrary: v fs failed any)
      (simp_all only: rollback_targets.simps, (intro moves_intros target_and_world_calls assms; assumption?)+)
  then show "moves R (rollback_after_failure c v fs code reason)"
    unfolding rollback_after_failure_def by (intro moves_intros)
  have "moves R (recover_targets c ts v fs failed)" for ts v fs failed
    by (induction ts arbitrary: v fs failed)
      (simp_all only: recover_targets.simps, (intro moves_intros target_and_world_calls assms; assumption?)+)
  then show "moves R (recover_rollback c v fs)"
    unfolding recover_rollback_def by (intro moves_intros)
qed

lemma prepare_moves:
  assumes "{Step_Cache, Step_Prepare, Step_Rollback} \<subseteq> S"
  shows "moves R (prepare_targets c i ts v fs)"
proof -
  from assms have kinds: "Step_Cache \<in> S" "Step_Prepare \<in> S" "Step_Rollback \<in> S" by auto
  have target: "moves R (prepare_target c i t v fs)" for i t v fs
    unfolding prepare_target_def Let_def by (intro moves_intros target_and_world_calls rollback_moves kinds)
  show ?thesis
    by (induction ts arbitrary: i v fs) (simp_all only: prepare_targets.simps, (intro moves_intros target; assumption?)+)
qed

lemma publish_moves:
  assumes "Step_Publish \<in> S"
  shows "moves R (publish_targets c i ts v tx)" "moves R (publish_body c tx)"
proof -
  show targets: "moves R (publish_targets c i ts v tx)" for i ts v tx
    by (induction ts arbitrary: i v tx)
      (simp_all only: publish_targets.simps, (intro moves_intros target_and_world_calls assms; assumption?)+)
  show "moves R (publish_body c tx)" unfolding publish_body_def by (intro moves_intros targets)
qed

lemma activation_moves:
  assumes "{Step_Stop, Step_Start} \<subseteq> S"
  shows "moves R (activate_committed c v fs policy original)"
proof -
  from assms have kinds: "Step_Stop \<in> S" "Step_Start \<in> S" by auto
  have stop: "moves R (stop_worlds c v ws fs stopped)" for v ws fs stopped
    by (induction ws arbitrary: fs stopped)
      (simp_all only: stop_worlds.simps, (intro moves_intros target_and_world_calls kinds; assumption?)+)
  have start: "moves R (start_worlds c ws v fs started failed)" for v ws fs started failed
    by (induction ws arbitrary: v fs started failed)
      (simp_all only: start_worlds.simps, (intro moves_intros target_and_world_calls kinds; assumption?)+)
  show ?thesis
    unfolding activate_committed_def activate_body_def by (intro moves_intros stop start)
qed

lemma complete_moves:
  assumes "{Step_Complete, Step_Stop, Step_Start} \<subseteq> S"
  shows "moves R (complete_and_activate c v fs)"
proof -
  from assms have kinds: "Step_Complete \<in> S" "{Step_Stop, Step_Start} \<subseteq> S" by auto
  have "moves R (complete_targets c i ts v fs failed)" for i ts v fs failed
    by (induction ts arbitrary: i v fs failed)
      (simp_all only: complete_targets.simps, (intro moves_intros target_and_world_calls kinds; assumption?)+)
  then show ?thesis
    unfolding complete_and_activate_def complete_committed_def by (intro moves_intros activation_moves kinds)
qed

lemma transaction_moves:
  shows "moves R (tx_close tx)" and "moves R (tx_renew c tx)"
    and "Step_Rollback \<in> S \<Longrightarrow> moves R (tx_rollback_locked c tx code reason)"
  unfolding tx_close_def tx_renew_def tx_rollback_locked_def by (intro moves_intros rollback_moves; assumption?)+

end

locale publishing = calling R S
  for R :: "'s pub_system_scheme \<Rightarrow> 's pub_system_scheme \<Rightarrow> bool" and S +
  assumes created: "R s (s\<lparr>pub_rows := pub_rows s @ [row]\<rparr>)"
begin

lemma create_moves [moves_intros]: "moves R (store_create v)"
proof -
  have "moves R (insert_targets i t ts)" for i t ts
    by (induction ts) (simp_all only: insert_targets.simps, (intro moves_intros results; assumption?)+)
  then show ?thesis
    unfolding store_create_def create_tx_def by (intro moves_intros created)
qed

lemma begin_moves:
  assumes "{Step_Cache, Step_Prepare, Step_Rollback} \<subseteq> S"
  shows "moves R (begin_transaction c rq)"
proof -
  from assms have "Step_Rollback \<in> S" by simp
  then have "moves R (begin_body c rq policy fs own)" for policy fs own
    unfolding begin_body_def Let_def by (intro moves_intros prepare_moves rollback_moves assms)
  then show ?thesis
    unfolding begin_transaction_def Let_def by (intro moves_intros)
qed

end

section \<open>The relations used\<close>

definition unsaved :: "'s pub_system_scheme \<Rightarrow> 's pub_system_scheme \<Rightarrow> bool" where
  "unsaved s s' \<longleftrightarrow> pub_rows s' = pub_rows s \<and> runtime_log s' = runtime_log s"

definition logs :: "runtime_step set \<Rightarrow> 's pub_system_scheme \<Rightarrow> 's pub_system_scheme \<Rightarrow> bool" where
  "logs S s s' \<longleftrightarrow> (\<exists>es. runtime_log s' = runtime_log s @ es \<and> re_step ` set es \<subseteq> S)"

definition emits :: "runtime_step set \<Rightarrow> 's pub_system_scheme \<Rightarrow> 's pub_system_scheme \<Rightarrow> bool" where
  "emits S s s' \<longleftrightarrow> plans s' = plans s \<and> logs S s s'"

lemma logs_trans: "logs S s s1 \<Longrightarrow> logs S s1 s2 \<Longrightarrow> logs S s s2"
  by (auto simp: logs_def image_Un)

lemma logs_simps:
  "logs S s s" "logs S s (s\<lparr>step := n\<rparr>)" "logs S s (s\<lparr>cancelled := c\<rparr>)" "logs S s (s\<lparr>lease_rows := ls\<rparr>)"
  "logs S s (s\<lparr>target_rows := ts\<rparr>)" "logs S s (s\<lparr>artifact_rows := as\<rparr>)" "logs S s (s\<lparr>world_rows := ws\<rparr>)"
  "logs S s (s\<lparr>pub_rows := rows\<rparr>)" "re_step e \<in> S \<Longrightarrow> logs S s (s\<lparr>runtime_log := runtime_log s @ [e]\<rparr>)"
  by (simp_all add: logs_def)

interpretation unsaved: quiet unsaved
  by unfold_locales (auto simp: unsaved_def)

interpretation logs: publishing "logs S" S for S
  by unfold_locales (auto simp: logs_simps intro: logs_trans)

interpretation emits: calling "emits S" S for S
  by unfold_locales (auto simp: emits_def plans_def logs_simps intro: logs_trans)

section \<open>Functions that hand their error over as a value\<close>

named_theorems returns_intros \<open>rules for returns\<close>

definition returns :: "('s, 'e, 'a) act \<Rightarrow> bool" where
  "returns m \<longleftrightarrow> (\<forall>s e s'. m s \<noteq> (Inl e, s'))"

lemma returns_eq: "returns m \<Longrightarrow> \<exists>a s'. m s = (Inr a, s')"
  unfolding returns_def by (metis obj_sumE prod.exhaust)

lemma returns_basic [returns_intros]:
  "returns (return_ok a)" "returns (attempt m)" "returns (query f)" "returns read_now" "returns new_uuid"
  "returns (function_body n)" "returns (ignoring l)" "returns (Pair (Inr a))"
  by (auto simp: returns_def attempt_def function_body_def ignoring_def andthen_def split: prod.splits sum.splits)

lemma returns_andthen [returns_intros]: "returns m \<Longrightarrow> (\<And>a. returns (f a)) \<Longrightarrow> returns (andthen m f)"
  by (auto simp: returns_def andthen_eq_Inl_iff)

lemma returns_background [returns_intros]: "returns m \<Longrightarrow> returns (background m)"
  by (auto simp: returns_def background_def split: prod.splits)

lemma returns_each [returns_intros]: "(\<And>x. returns (f x)) \<Longrightarrow> returns (each f xs)"
  by (induction xs) (auto simp: returns_def andthen_eq_Inl_iff)

lemma returns_cases [returns_intros]:
  "returns m1 \<Longrightarrow> returns m2 \<Longrightarrow> returns (if b then m1 else m2)"
  "returns n \<Longrightarrow> (\<And>x. returns (f x)) \<Longrightarrow> returns (case opt of None \<Rightarrow> n | Some x \<Rightarrow> f x)"
  "(\<And>a b. returns (g a b)) \<Longrightarrow> returns (case p of (a, b) \<Rightarrow> g a b)"
  "(\<And>e. returns (h e)) \<Longrightarrow> (\<And>x. returns (f x)) \<Longrightarrow> returns (case v of Inl e \<Rightarrow> h e | Inr x \<Rightarrow> f x)"
  "(\<And>a b. returns (k a b y)) \<Longrightarrow> returns ((case p of (a, b) \<Rightarrow> k a b) y)"
  by (auto split: option.split prod.split sum.split)

lemma returns_Let [returns_intros]: "(\<And>x. returns (h x)) \<Longrightarrow> returns (Let y h)"
  by simp

lemma leases_return [returns_intros]: "returns (release_fences fs)" "returns (renew_fences ttl fs)"
proof -
  show "returns (release_fences fs)" unfolding release_fences_def by (intro returns_intros)
  show "returns (renew_fences ttl fs)"
    by (induction fs) (simp_all only: renew_fences.simps, (intro returns_intros; assumption?)+)
qed

lemma outcomes_return [returns_intros]:
  "returns (save_and_return v e)" "returns (fail_publication v code e)" "returns (fail_activation c v w code e)"
  unfolding save_and_return_def fail_publication_def fail_activation_def by (intro returns_intros)+

lemma rollback_returns [returns_intros]: "returns (rollback_after_failure c v fs code reason)" "returns (recover_rollback c v fs)"
proof -
  have "returns (rollback_targets c reason n v fs failed any)" for n v fs failed any
    by (induction n arbitrary: v fs failed any) (simp_all only: rollback_targets.simps, (intro returns_intros; assumption?)+)
  then show "returns (rollback_after_failure c v fs code reason)"
    unfolding rollback_after_failure_def by (intro returns_intros)
  have "returns (recover_targets c ts v fs failed)" for ts v fs failed
    by (induction ts arbitrary: v fs failed) (simp_all only: recover_targets.simps, (intro returns_intros; assumption?)+)
  then show "returns (recover_rollback c v fs)"
    unfolding recover_rollback_def by (intro returns_intros)
qed

lemma complete_returns [returns_intros]:
  "returns (activate_committed c v fs policy original)" "returns (complete_and_activate c v fs)"
proof -
  show activation: "returns (activate_committed c v fs policy original)" for c v fs policy original
    unfolding activate_committed_def by (intro returns_intros)
  have "returns (complete_targets c i ts v fs failed)" for i ts v fs failed
    by (induction ts arbitrary: i v fs failed) (simp_all only: complete_targets.simps, (intro returns_intros; assumption?)+)
  then show "returns (complete_and_activate c v fs)"
    unfolding complete_and_activate_def complete_committed_def by (intro returns_intros activation)
qed

lemma transactions_return [returns_intros]:
  "returns (tx_close tx)" "returns (tx_rollback_locked c tx code reason)" "returns (tx_rollback c tx code reason)"
  "returns (tx_renew c tx)" "returns (tx_publish c tx)" "returns (tx_commit c tx)"
  unfolding tx_close_def tx_rollback_locked_def tx_rollback_def tx_renew_def tx_publish_def tx_commit_def Let_def
  by (intro returns_intros)+

text \<open>The operations of the coordinator always come back, with the error among their results.\<close>

lemma coordinator_returns [returns_intros]:
  "returns (begin_transaction c rq)" "returns (publish_plan c rq)" "returns (activate c pid aid policy)"
  "returns (recover_publication c pid)" "returns (recover_publications c)" "returns (ensure_cache c p)"
proof -
  show begun: "returns (begin_transaction c rq)" for c rq
    unfolding begin_transaction_def Let_def by (intro returns_intros)
  show "returns (publish_plan c rq)" unfolding publish_plan_def by (intro returns_intros begun)
  show "returns (activate c pid aid policy)" unfolding activate_def by (intro returns_intros)
  show one: "returns (recover_publication c pid)" for pid unfolding recover_publication_def by (intro returns_intros)
  have "returns (recover_each c is vs failed)" for "is" vs failed
    by (induction "is" arbitrary: vs failed) (simp_all only: recover_each.simps, (intro returns_intros one; assumption?)+)
  then show "returns (recover_publications c)" unfolding recover_publications_def by (intro returns_intros)
  have "returns (cache_targets c v ts fs result)" for v ts fs result
    by (induction ts arbitrary: fs result) (simp_all only: cache_targets.simps, (intro returns_intros; assumption?)+)
  then show "returns (ensure_cache c p)" unfolding ensure_cache_def by (intro returns_intros)
qed

end
