(* ===== verification/Mod_Protocol.thy ===== *)
theory Mod_Protocol
  imports Mod_Journal
begin

text \<open>
  A publication is a two-phase commit. The lemmas follow the journal of runtime calls: what a successful
  phase adds to it, what a failed one may add, and which publication the store hands back. The theorem at the end
  covers any sequence of calls of an open transaction, every pattern of failures, and whatever the rest of the
  program does to the store in between.
\<close>

section \<open>What the store answers\<close>

definition row_of :: "string \<Rightarrow> 's pub_store_scheme \<Rightarrow> pub_row option" where
  "row_of pid s = List.find (\<lambda>r. pr_id r = pid) (pub_rows s)"

definition plan_of :: "string \<Rightarrow> 's pub_store_scheme \<Rightarrow> mod_plan option" where
  "plan_of pid s = map_of (plans s) pid"

text \<open>The identifier is the primary key of the table.\<close>

definition keyed :: "'s pub_store_scheme \<Rightarrow> bool" where
  "keyed s \<longleftrightarrow> distinct (map fst (plans s))"

lemma plan_of_row: "row_of pid s = Some r \<Longrightarrow> plan_of pid s = Some (pr_plan r)"
proof -
  have "List.find (\<lambda>r. pr_id r = pid) rows = Some r \<Longrightarrow> map_of (map (\<lambda>r. (pr_id r, pr_plan r)) rows) pid = Some (pr_plan r)" for rows
    by (induction rows) (auto split: if_splits)
  then show "row_of pid s = Some r \<Longrightarrow> plan_of pid s = Some (pr_plan r)"
    by (simp add: row_of_def plan_of_def plans_def)
qed

lemma publication_from_record_Inr:
  assumes "publication_from_record r = Inr v"
  shows "pb_id v = pr_id r" "pb_plan v = pr_plan r" "pb_decision v = pr_decision r" "pb_status v = pr_status r"
    "pb_outcome v = pr_outcome r" "pb_fences v = pr_fences r" "pb_restart v = pr_restart r" "pb_code v = pr_code r"
    "plan_check (pr_plan r) = None"
  using assms by (auto simp: publication_from_record_def Let_def split: if_splits option.splits)

lemma store_get_Inr:
  assumes "store_get pid s = (Inr v, s')"
  obtains r where "row_of pid s = Some r" and "pb_id v = pid" and "pb_plan v = pr_plan r" and "pb_decision v = pr_decision r"
    and "pb_status v = pr_status r" and "length (pb_targets v) = length (pn_targets (pr_plan r))"
    and "only_steps s s'"
proof -
  let ?ts = "sort_key (\<lambda>t. (tr_target t, tr_installation t)) (filter (\<lambda>t. tr_publication t = pid) (target_rows s))"
  from assms obtain r v0 where r: "row_of pid s = Some r" and v0: "publication_from_record r = Inr v0"
    and n: "length ?ts = length (pn_targets (pb_plan v0))" and v: "v = v0\<lparr>pb_targets := map pub_target_from_record ?ts\<rparr>"
    and s': "only_steps s s'"
    by (auto simp: store_get_def andthen_eq_Inr_iff statement_eq_Inr lift_def row_of_def split: option.splits)
  have "pr_id r = pid" using find_SomeD [OF r [unfolded row_of_def]] by simp
  with r v0 n v s' show thesis by (intro that) (simp_all add: publication_from_record_Inr)
qed

lemma row_of_update:
  assumes "\<And>r. pr_id (f r) = pr_id r"
  shows "List.find (\<lambda>r. pr_id r = pid) (update_where P f rows) =
    map_option (\<lambda>r. if P r then f r else r) (List.find (\<lambda>r. pr_id r = pid) rows)"
  using assms by (induction rows) auto

lemma hit_row:
  assumes "keyed s" and "count_where (\<lambda>r. pr_id r = pid \<and> Q r) (pub_rows s) = 1"
  shows "\<exists>r. row_of pid s = Some r \<and> Q r"
proof -
  from count_where_1D [OF assms(2)] obtain r where r: "r \<in> set (pub_rows s)" "pr_id r = pid" "Q r" by auto
  have "distinct (map pr_id (pub_rows s))" using assms(1) by (simp add: keyed_def plans_def comp_def)
  from find_distinct_key [OF this r(1)] r show ?thesis by (simp add: row_of_def)
qed

lemma publication_record_from_Inr:
  assumes "publication_record_from v = Inr row"
  shows "pr_decision row = pb_decision v" "pr_status row = pb_status v" "pr_id row = pb_id v"
    "pr_plan row = copy_plan (pb_plan v)"
  using assms by (auto simp: publication_record_from_def Let_def split: if_splits)

lemma store_save_Inr:
  assumes "store_save v s = (Inr v', s')"
  shows "pb_id v' = pb_id v" and "plan_of (pb_id v) s = Some (pb_plan v')"
    and "length (pb_targets v') = length (pn_targets (pb_plan v'))"
    and "row_of (pb_id v) s' \<noteq> None"
    and "keyed s \<Longrightarrow> pb_status v' = pb_status v \<and> pb_decision v' = pb_decision v"
proof -
  from assms obtain row s1 where row: "publication_record_from v = Inr row"
    and hit: "count_where (\<lambda>r. pr_id r = pb_id v \<and> pr_hash r = pn_hash (pb_plan v)) (pub_rows s) = 1"
    and s1: "s1 = s\<lparr>step := Suc (step s), pub_rows := update_where (\<lambda>r. pr_id r = pb_id v \<and> pr_hash r = pn_hash (pb_plan v))
        (save_columns row) (pub_rows s)\<rparr>"
    and get: "store_get (pb_id v) s1 = (Inr v', s')"
    by (auto simp: store_save_def andthen_eq_Inr_iff statement_eq_Inr lift_def Let_def split: option.splits)
  obtain r where r: "row_of (pb_id v) s1 = Some r" "pb_id v' = pb_id v" "pb_plan v' = pr_plan r"
    "pb_decision v' = pr_decision r" "pb_status v' = pr_status r" "length (pb_targets v') = length (pn_targets (pr_plan r))"
    and s': "only_steps s1 s'"
    by (rule store_get_Inr [OF get])
  have "plans s1 = plans s" by (simp add: s1 plans_def plans_update save_columns_def)
  with plan_of_row [OF r(1)] r(2,3) show "pb_id v' = pb_id v" and "plan_of (pb_id v) s = Some (pb_plan v')"
    by (simp_all add: plan_of_def)
  show "length (pb_targets v') = length (pn_targets (pb_plan v'))" using r by simp
  have "row_of (pb_id v) s' = row_of (pb_id v) s1" using s' by (auto simp: only_steps_def row_of_def)
  with r show "row_of (pb_id v) s' \<noteq> None" by simp
  show "pb_status v' = pb_status v \<and> pb_decision v' = pb_decision v" if "keyed s"
  proof -
    from hit_row [OF that hit] obtain r0 where "row_of (pb_id v) s = Some r0" "pr_hash r0 = pn_hash (pb_plan v)" "pr_id r0 = pb_id v"
      by (auto simp: row_of_def dest: find_SomeD)
    then have "r = save_columns row r0"
      using r(1) by (auto simp: s1 row_of_def row_of_update save_columns_def)
    then show ?thesis using r row by (simp add: save_columns_def publication_record_from_Inr)
  qed
qed

section \<open>The calls a successful phase makes\<close>

text \<open>No plan changed and the journal grew by \<open>es\<close>.\<close>

definition adds :: "runtime_entry list \<Rightarrow> 's pub_system_scheme \<Rightarrow> 's pub_system_scheme \<Rightarrow> bool" where
  "adds es s s' \<longleftrightarrow> plans s' = plans s \<and> runtime_log s' = runtime_log s @ es"

definition call_of :: "runtime_entry \<Rightarrow> runtime_step \<times> string \<times> string \<times> bool" where
  "call_of e = (re_step e, ro_publication (re_operation e), re_key e, re_ok e)"

lemma adds_trans: "adds es s s1 \<Longrightarrow> adds fs s1 s2 \<Longrightarrow> adds (es @ fs) s s2"
  by (simp add: adds_def)

lemma plans_step [simp]: "plans (s\<lparr>step := n\<rparr>) = plans s"
  by (simp add: plans_def)

lemma adds_steps [simp]: "adds es s (s'\<lparr>step := n\<rparr>) = adds es s s'" "adds es (s\<lparr>step := n\<rparr>) s' = adds es s s'"
  by (simp_all add: adds_def plans_def)

lemma adds_Nil_trans: "adds [] s s1 \<Longrightarrow> adds fs s1 s2 \<Longrightarrow> adds fs s s2" "adds es s s1 \<Longrightarrow> adds [] s1 s2 \<Longrightarrow> adds es s s2"
  by (simp_all add: adds_def)

lemma adds_nothing: "moves (emits {}) m \<Longrightarrow> m s = (r, s') \<Longrightarrow> adds [] s s'"
  by (auto dest!: movesD simp: emits_def logs_def adds_def)

lemma adds_plan: "adds es s s' \<Longrightarrow> plan_of pid s' = plan_of pid s" "adds es s s' \<Longrightarrow> keyed s' = keyed s"
  by (simp_all add: adds_def plan_of_def keyed_def)

lemma target_call_Inr:
  assumes "target_call kind v t fs action s = (Inr u, s')"
  obtains e where "adds [e] s s'" and "call_of e = (kind, pb_id v, target_plan_key t, True)"
proof -
  from assms have ok: "\<not> fault s (step s)"
    and s': "s' = s\<lparr>step := Suc (step s), runtime_log := runtime_log s @
      [\<lparr>re_step = kind, re_key = target_plan_key t, re_operation = operation v t fs action, re_ok = True\<rparr>]\<rparr>"
    by (auto simp: target_call_def runtime_call_def Let_def split: if_splits)
  show thesis
    by (rule that [of "\<lparr>re_step = kind, re_key = target_plan_key t, re_operation = operation v t fs action, re_ok = True\<rparr>"])
      (simp_all add: s' adds_def plans_def call_of_def operation_def Let_def)
qed

lemma save_target_Inr:
  assumes "save_target pid t s = (Inr u, s')"
  shows "adds [] s s'"
  by (rule adds_nothing [OF emits.save_target_quiet assms])

lemma prepare_target_Inr:
  assumes "prepare_target c i t v fs s = (Inr (v', fs'), s')"
  obtains es where "adds es s s'"
    and "map call_of es = [(Step_Cache, pb_id v, target_plan_key t, True), (Step_Prepare, pb_id v, target_plan_key t, True)]"
    and "pb_id v' = pb_id v" and "pb_plan v' = pb_plan v"
proof -
  from assms obtain fs1 s1 u1 s2 u2 s3 v2 saved s4 s5 u5 v6 saved' xs where
      renew: "renew_fences (co_ttl c) fs s = (Inr (fs1, []) :: (publication \<times> errs) + _, s1)"
    and cache: "target_call Step_Cache (v\<lparr>pb_fences := fs1\<rparr>) t fs1 ''ensure-cache'' s1 = (Inr u1, s2)"
    and mark: "with_replicas c (mark_cache t (pn_hash (pb_plan v))) s2 = (Inr u2, s3)"
    and save: "save_target (pb_id v) v2 (s3\<lparr>step := Suc (step s3)\<rparr>) = (Inr saved, s4)"
    and prepare: "target_call Step_Prepare (v\<lparr>pb_fences := fs1, pb_targets := xs\<rparr>) t fs1 ''prepare'' s4 = (Inr u5, s5)"
    and save': "save_target (pb_id v) v6 (s5\<lparr>step := Suc (step s5)\<rparr>) = (Inr saved', s')"
    and v': "pb_id v' = pb_id v" "pb_plan v' = pb_plan v"
    by (auto simp: prepare_target_def andthen_eq_Inr_iff Let_def set_target_def split: if_splits)
  from target_call_Inr [OF cache] obtain e where e: "adds [e] s1 s2" "call_of e = (Step_Cache, pb_id v, target_plan_key t, True)"
    by auto
  from target_call_Inr [OF prepare] obtain f where f: "adds [f] s4 s5" "call_of f = (Step_Prepare, pb_id v, target_plan_key t, True)"
    by auto
  have "adds [] s s1" by (rule adds_nothing [OF emits.fences_quiet(2) renew])
  moreover have "adds [] s2 s3" by (rule adds_nothing [OF emits.marks(6) [OF emits.marks(1)] mark])
  moreover note save_target_Inr [OF save] save_target_Inr [OF save']
  ultimately have "adds ([e] @ [f]) s s'"
    using e(1) f(1) by (simp add: adds_def)
  with e f v' show thesis by (intro that [of "[e, f]"]) simp_all
qed

lemma prepare_targets_Inr:
  assumes "prepare_targets c i ts v fs s = (Inr (v', fs'), s')"
  shows "\<exists>es. adds es s s' \<and> pb_id v' = pb_id v \<and> pb_plan v' = pb_plan v \<and>
    map call_of es = concat (map (\<lambda>t. [(Step_Cache, pb_id v, target_plan_key t, True),
      (Step_Prepare, pb_id v, target_plan_key t, True)]) ts)"
  using assms
proof (induction ts arbitrary: i v fs s)
  case (Cons t ts)
  from Cons.prems obtain v1 fs1 s1 where one: "prepare_target c i t v fs s = (Inr (v1, fs1), s1)"
    and rest: "prepare_targets c (Suc i) ts v1 fs1 s1 = (Inr (v', fs'), s')"
    by (auto simp: andthen_eq_Inr_iff)
  from prepare_target_Inr [OF one] obtain es where es: "adds es s s1" "pb_id v1 = pb_id v" "pb_plan v1 = pb_plan v"
    "map call_of es = [(Step_Cache, pb_id v, target_plan_key t, True), (Step_Prepare, pb_id v, target_plan_key t, True)]"
    by metis
  from Cons.IH [OF rest] obtain fs where "adds fs s1 s'" "pb_id v' = pb_id v1" "pb_plan v' = pb_plan v1"
    "map call_of fs = concat (map (\<lambda>t. [(Step_Cache, pb_id v1, target_plan_key t, True),
      (Step_Prepare, pb_id v1, target_plan_key t, True)]) ts)"
    by blast
  with es show ?case by (intro exI [of _ "es @ fs"]) (auto intro: adds_trans)
qed (simp add: adds_def)

lemma publish_targets_Inr:
  assumes "publish_targets c i ts v tx s = (Inr (v', tx'), s')"
  shows "\<exists>es. adds es s s' \<and> pb_id v' = pb_id v \<and> pb_plan v' = pb_plan v \<and>
    pb_status v' = pb_status v \<and> tx_closed tx' = tx_closed tx \<and> tx_owned tx' = tx_owned tx \<and>
    map call_of es = map (\<lambda>t. (Step_Publish, pb_id v, target_plan_key t, True)) ts"
  using assms
proof (induction ts arbitrary: i v tx s)
  case (Cons t ts)
  from Cons.prems obtain fs1 s1 u1 s2 u2 s3 v2 saved s4 xs where
      renew: "renew_fences (co_ttl c) (tx_fences tx) s = (Inr (fs1, []) :: (transaction_handle \<times> string \<times> errs) + _, s1)"
    and publish: "target_call Step_Publish v t fs1 ''publish'' s1 = (Inr u1, s2)"
    and mark: "with_replicas c (mark_published t (pn_hash (pb_plan v))) s2 = (Inr u2, s3)"
    and save: "save_target (pb_id v) v2 (s3\<lparr>step := Suc (step s3)\<rparr>) = (Inr saved, s4)"
    and rest: "publish_targets c (Suc i) ts (v\<lparr>pb_targets := xs\<rparr>) (tx\<lparr>tx_fences := fs1\<rparr>) s4 = (Inr (v', tx'), s')"
    by (auto simp: andthen_eq_Inr_iff Let_def set_target_def split: if_splits)
  from target_call_Inr [OF publish] obtain e where e: "adds [e] s1 s2" "call_of e = (Step_Publish, pb_id v, target_plan_key t, True)"
    by metis
  have "adds [] s s1" by (rule adds_nothing [OF emits.fences_quiet(2) renew])
  moreover have "adds [] s2 s3" by (rule adds_nothing [OF emits.marks(6) [OF emits.marks(2)] mark])
  moreover note save_target_Inr [OF save]
  ultimately have one: "adds [e] s s4" using e(1) by (simp add: adds_def plans_def)
  from Cons.IH [OF rest] obtain fs where "adds fs s4 s'" "pb_id v' = pb_id v" "pb_plan v' = pb_plan v"
    "pb_status v' = pb_status v" "tx_closed tx' = tx_closed tx" "tx_owned tx' = tx_owned tx"
    "map call_of fs = map (\<lambda>t. (Step_Publish, pb_id v, target_plan_key t, True)) ts"
    by auto
  with one e show ?case by (intro exI [of _ "[e] @ fs"]) (auto dest: adds_trans)
qed (simp add: adds_def)

section \<open>Opening a transaction\<close>

lemma logs_nothing: "moves (logs {}) m \<Longrightarrow> m s = (r, s') \<Longrightarrow> runtime_log s' = runtime_log s"
  by (auto dest!: movesD simp: logs_def)

lemma map_of_append_fresh: "k \<notin> fst ` set xs \<Longrightarrow> map_of (xs @ [(k, v)]) k = Some v"
  by (induction xs) auto

lemma unsaved_plans: "unsaved s s' \<Longrightarrow> plans s' = plans s \<and> runtime_log s' = runtime_log s"
  by (simp add: unsaved_def plans_def)

lemma insert_targets_unsaved: "moves unsaved (insert_targets i t ts)"
  by (induction ts) (simp_all only: insert_targets.simps, (intro moves_intros unsaved.results; assumption?)+)

lemma store_create_Inr:
  assumes "store_create v s = (Inr v', s')"
  shows "pb_id v' = pb_id v" and "plan_of (pb_id v) s' = Some (pb_plan v')" and "runtime_log s' = runtime_log s"
    and "keyed s \<Longrightarrow> keyed s'"
proof -
  from assms obtain s1 where tx: "transaction [connection_failed] (create_tx v) s = (Inr (), s1)"
    and get: "store_get (pb_id v) s1 = (Inr v', s')"
    by (auto simp: store_create_def andthen_eq_Inr_iff split: option.splits)
  from tx obtain row n s3 k where row: "publication_record_from v = Inr row"
    and fresh: "pr_id row \<notin> pr_id ` set (pub_rows s)"
    and ins: "insert_targets (pb_id v) (pb_created v) (pb_targets v) (s\<lparr>step := n, pub_rows := pub_rows s @ [row]\<rparr>) = (Inr (), s3)"
    and s1: "s1 = s3\<lparr>step := k\<rparr>"
    by (auto simp: transaction_eq_Inr create_tx_def andthen_eq_Inr_iff statement_eq_Inr lift_def split: if_splits)
  have s3: "unsaved (s\<lparr>step := n, pub_rows := pub_rows s @ [row]\<rparr>) s3" by (rule movesD [OF insert_targets_unsaved ins])
  have id: "pr_id row = pb_id v" using row by (rule publication_record_from_Inr)
  obtain r where r: "row_of (pb_id v) s1 = Some r" "pb_id v' = pb_id v" "pb_plan v' = pr_plan r" and s': "only_steps s1 s'"
    by (rule store_get_Inr [OF get])
  from s' have plans': "plans s' = plans s1" and log': "runtime_log s' = runtime_log s1"
    by (auto simp: only_steps_def)
  from s1 s3 have "plans s1 = plans s @ [(pr_id row, pr_plan row)]" and "runtime_log s1 = runtime_log s"
    by (simp_all add: unsaved_def plans_def)
  moreover from fresh have "pr_id row \<notin> fst ` set (plans s)"
    by (auto simp: plans_def)
  ultimately show "runtime_log s' = runtime_log s" and "keyed s \<Longrightarrow> keyed s'"
    using plans' log' by (simp_all add: keyed_def)
  show "pb_id v' = pb_id v" by (rule r(2))
  show "plan_of (pb_id v) s' = Some (pb_plan v')"
    using plan_of_row [OF r(1)] r(3) plans' by (simp add: plan_of_def)
qed

lemma protect_Inr:
  assumes "protect rq v s = (Inr v', s')" and "plan_of (pb_id v) s = Some (pb_plan v)"
  shows "adds [] s s'" and "pb_id v' = pb_id v" and "pb_plan v' = pb_plan v"
proof -
  show "adds [] s s'" by (rule adds_nothing [OF emits.protect_journaled assms(1)])
  show "pb_id v' = pb_id v" and "pb_plan v' = pb_plan v"
  proof (atomize (full), cases "v' = v")
    case False
    then obtain bs now n where save: "store_save (v\<lparr>pb_backups := bs, pb_updated := now\<rparr>) (s\<lparr>step := n\<rparr>) = (Inr v', s')"
      using assms(1) by (auto simp: protect_def andthen_eq_Inr_iff Let_def receive_def split: if_splits sum.splits)
    from store_save_Inr(1,2) [OF save] assms(2) show "pb_id v' = pb_id v \<and> pb_plan v' = pb_plan v"
      by (simp add: plan_of_def)
  qed simp
qed

text \<open>Every target is prepared, in the order of the plan.\<close>

definition preparations :: "string \<Rightarrow> target_plan list \<Rightarrow> (runtime_step \<times> string \<times> string \<times> bool) list" where
  "preparations pid ts =
     concat (map (\<lambda>t. [(Step_Cache, pid, target_plan_key t, True), (Step_Prepare, pid, target_plan_key t, True)]) ts)"

lemma begin_body_Inr:
  assumes "begin_body c rq policy fs own s = (Inr tx, s')"
  obtains es where "runtime_log s' = runtime_log s @ es"
    and "map call_of es = preparations (rq_id rq) (pn_targets (pb_plan (tx_publication tx)))"
    and "pb_id (tx_publication tx) = rq_id rq" and "plan_of (rq_id rq) s' = Some (pb_plan (tx_publication tx))"
    and "\<not> tx_closed tx" and "tx_owned tx = own"
    and "keyed s \<Longrightarrow> keyed s' \<and> pb_status (tx_publication tx) = Pub_Prepared"
proof -
  from assms obtain e s0 now s1 pub1 s2 u2 renewed s3 now2 pub2 s4 fs1 s5 pub3 s6 pub4 fs2 s7 now3 n pub5 where
      found: "find_idempotent (rq_id rq) (rq_source rq) s = (Inl e, s0)"
    and create: "store_create (new_publication rq policy fs now) (s0\<lparr>step := n\<rparr>) = (Inr pub1, s1)"
    and desired: "with_replicas c (set_desired (pb_plan pub1)) s1 = (Inr u2, s2)"
    and renewed: "preview (co_minimum c) (pn_room (rq_plan rq)) s2 = (Inr renewed, s3)"
    and preparing: "store_save (pub1\<lparr>pb_status := Pub_Preparing, pb_updated := now2\<rparr>) (s3\<lparr>step := Suc (step s3)\<rparr>) = (Inr pub2, s4)"
    and renew: "renew_fences (co_ttl c) fs s4 = (Inr (fs1, []) :: (publication \<times> errs) + _, s5)"
    and protect: "protect rq (pub2\<lparr>pb_fences := fs1\<rparr>) s5 = (Inr pub3, s6)"
    and prepare: "prepare_targets c 0 (pn_targets (pb_plan pub3)) pub3 fs1 s6 = (Inr (pub4, fs2), s7)"
    and prepared: "store_save (pub4\<lparr>pb_status := Pub_Prepared, pb_fences := fs2, pb_updated := now3\<rparr>) (s7\<lparr>step := Suc (step s7)\<rparr>)
      = (Inr pub5, s')"
    and tx: "tx = \<lparr>tx_publication = pub5, tx_fences = fs2, tx_owned = own, tx_closed = False\<rparr>"
    by (auto simp: begin_body_def andthen_eq_Inr_iff Let_def split_sum_ex split: if_splits)
  let ?i = "rq_id rq"
  have s0: "unsaved s s0" by (rule movesD [OF unsaved.find_quiet found])
  then have k0: "keyed (s0\<lparr>step := n\<rparr>) = keyed s" by (simp add: unsaved_def keyed_def plans_def)
  note one = store_create_Inr [OF create]
  have i1: "pb_id pub1 = ?i" and p1: "plan_of ?i s1 = Some (pb_plan pub1)"
    using one by (simp_all add: new_publication_def)
  have "adds [] s1 s2" by (rule adds_nothing [OF emits.marks(6) [OF emits.replicas_quiet(1)] desired])
  moreover have "adds [] s2 s3" by (rule adds_nothing [OF emits.preview_quiet renewed])
  moreover have "adds [] s3 s4" using adds_nothing [OF emits.writes(1) preparing] by simp
  moreover have "adds [] s4 s5" by (rule adds_nothing [OF emits.fences_quiet(2) renew])
  ultimately have a5: "adds [] s1 s5" by (meson adds_Nil_trans)
  have i2: "pb_id pub2 = ?i" and p2: "pb_plan pub2 = pb_plan pub1"
    using store_save_Inr(1,2) [OF preparing] i1 p1 \<open>adds [] s1 s2\<close> \<open>adds [] s2 s3\<close> by (auto simp: plan_of_def adds_def)
  from a5 p1 have "plan_of ?i s5 = Some (pb_plan pub2)" by (simp add: adds_plan p2)
  with protect_Inr [OF protect] i2 have a6: "adds [] s5 s6" and i3: "pb_id pub3 = ?i" and p3: "pb_plan pub3 = pb_plan pub1"
    by (simp_all add: p2)
  from prepare_targets_Inr [OF prepare] i3 obtain es where es: "adds es s6 s7" "pb_id pub4 = ?i" "pb_plan pub4 = pb_plan pub1"
    "map call_of es = preparations ?i (pn_targets (pb_plan pub1))"
    by (auto simp: p3 preparations_def)
  have a8: "adds [] s7 s'" using adds_nothing [OF emits.writes(1) prepared] by simp
  from a5 a6 es(1) a8 have all: "adds es s1 s'" by (simp add: adds_def)
  have i5: "pb_id pub5 = ?i" and p5: "pb_plan pub5 = pb_plan pub1"
    using store_save_Inr(1,2) [OF prepared] es(2) p1 a5 a6 es(1) by (auto simp: plan_of_def adds_def)
  show thesis
  proof (rule that)
    show "runtime_log s' = runtime_log s @ es" using all one(3) s0 by (simp add: adds_def unsaved_def)
    show "map call_of es = preparations ?i (pn_targets (pb_plan (tx_publication tx)))" using es(4) by (simp add: tx p5)
    show "pb_id (tx_publication tx) = ?i" "\<not> tx_closed tx" "tx_owned tx = own" by (simp_all add: tx i5)
    show "plan_of ?i s' = Some (pb_plan (tx_publication tx))" using p1 by (simp add: adds_plan [OF all] tx p5)
    show "keyed s' \<and> pb_status (tx_publication tx) = Pub_Prepared" if "keyed s"
    proof -
      from that k0 one(4) have "keyed s1" by blast
      then have "keyed (s7\<lparr>step := Suc (step s7)\<rparr>)" and "keyed s'"
        using a5 a6 es(1) all by (simp_all add: adds_def keyed_def)
      with store_save_Inr(5) [OF prepared] show ?thesis by (simp add: tx)
    qed
  qed
qed

lemma begin_transaction_open:
  assumes "begin_transaction c rq s = (Inr (v, Some tx, e), s')"
  obtains es where "runtime_log s' = runtime_log s @ es"
    and "map call_of es = preparations (rq_id rq) (pn_targets (pb_plan v))"
    and "v = tx_publication tx" and "e = []" and "pb_id v = rq_id rq" and "plan_of (rq_id rq) s' = Some (pb_plan v)"
    and "\<not> tx_closed tx" and "keyed s \<Longrightarrow> keyed s' \<and> pb_status v = Pub_Prepared"
proof -
  from assms obtain policy e1 s1 fences own s2 where
      found: "find_idempotent (rq_id rq) (rq_source rq) s = (Inl e1, s1)"
    and acquire: "acquire_with_borrowed (co_ttl c) (rq_plan rq) (rq_id rq) (rq_borrowed rq) s1 = (Inr (fences, own), s2)"
    and body: "begin_body c rq policy fences own s2 = (Inr tx, s')" and v: "v = tx_publication tx" "e = []"
    by (auto simp: begin_transaction_def andthen_eq_Inr_iff Let_def split_sum_ex split: if_splits sum.splits prod.splits)
  have "unsaved s s1" by (rule movesD [OF unsaved.find_quiet found])
  moreover have "unsaved s1 s2" by (rule movesD [OF unsaved.acquisition(3) acquire])
  ultimately have "unsaved s s2" by (simp add: unsaved_def)
  then have log: "runtime_log s2 = runtime_log s" and key: "keyed s2 = keyed s"
    by (simp_all add: unsaved_def keyed_def plans_def)
  show thesis
  proof (rule begin_body_Inr [OF body])
    fix es
    assume "runtime_log s' = runtime_log s2 @ es"
      and "map call_of es = preparations (rq_id rq) (pn_targets (pb_plan (tx_publication tx)))"
      and "pb_id (tx_publication tx) = rq_id rq" and "plan_of (rq_id rq) s' = Some (pb_plan (tx_publication tx))"
      and "\<not> tx_closed tx" and "tx_owned tx = own"
      and "keyed s2 \<Longrightarrow> keyed s' \<and> pb_status (tx_publication tx) = Pub_Prepared"
    then show thesis using v log key by (intro that [of es]) simp_all
  qed
qed

section \<open>The phases of a transaction\<close>

text \<open>Every one of the targets \<open>ks\<close> has answered a call of the kind.\<close>

definition all_done :: "runtime_step \<Rightarrow> string list \<Rightarrow> runtime_entry list \<Rightarrow> bool" where
  "all_done kind ks es \<longleftrightarrow> list_all (\<lambda>k. list_ex (\<lambda>e. re_step e = kind \<and> re_key e = k \<and> re_ok e) es) ks"

definition none_of :: "runtime_step \<Rightarrow> runtime_entry list \<Rightarrow> bool" where
  "none_of kind es \<longleftrightarrow> list_all (\<lambda>e. re_step e \<noteq> kind) es"

definition in_phase :: "string list \<Rightarrow> runtime_entry list \<Rightarrow> runtime_entry \<Rightarrow> bool" where
  "in_phase ks seen e \<longleftrightarrow>
     (re_step e = Step_Publish \<longrightarrow> all_done Step_Prepare ks seen) \<and>
     (re_step e = Step_Complete \<longrightarrow> all_done Step_Publish ks seen \<and> none_of Step_Rollback seen) \<and>
     (re_step e = Step_Rollback \<longrightarrow> none_of Step_Complete seen)"

text \<open>Two-phase commit: nothing is published before every target is prepared, nothing completed before every
  target is published, and no target is completed where another one is rolled back.\<close>

fun phased :: "string list \<Rightarrow> runtime_entry list \<Rightarrow> runtime_entry list \<Rightarrow> bool" where
  "phased ks seen [] = True"
| "phased ks seen (e # es) = (in_phase ks seen e \<and> phased ks (seen @ [e]) es)"

lemma all_done_append: "all_done kind ks es \<Longrightarrow> all_done kind ks (es @ fs)"
  by (auto simp: all_done_def list_all_iff)

lemma all_done_calls:
  "map call_of es = cs \<Longrightarrow> \<forall>k \<in> set ks. (kind, pid, k, True) \<in> set cs \<Longrightarrow> all_done kind ks (seen @ es)"
  by (fastforce simp: all_done_def list_all_iff list_ex_iff call_of_def)

lemma none_of_append [simp]: "none_of kind (es @ fs) \<longleftrightarrow> none_of kind es \<and> none_of kind fs"
  by (simp add: none_of_def)

lemma none_of_steps: "re_step ` set es \<subseteq> S \<Longrightarrow> kind \<notin> S \<Longrightarrow> none_of kind es"
  by (auto simp: none_of_def list_all_iff)

lemma phased_append [simp]: "phased ks seen (es @ fs) \<longleftrightarrow> phased ks seen es \<and> phased ks (seen @ es) fs"
  by (induction es arbitrary: seen) auto

lemma phased_steps:
  assumes "re_step ` set es \<subseteq> S"
    and "Step_Publish \<in> S \<Longrightarrow> all_done Step_Prepare ks seen"
    and "Step_Complete \<in> S \<Longrightarrow> all_done Step_Publish ks seen \<and> none_of Step_Rollback seen \<and> Step_Rollback \<notin> S"
    and "Step_Rollback \<in> S \<Longrightarrow> none_of Step_Complete seen \<and> Step_Complete \<notin> S"
  shows "phased ks seen es"
  using assms
proof (induction es arbitrary: seen)
  case (Cons e es)
  then have e: "re_step e \<in> S" by simp
  have "in_phase ks seen e" using Cons.prems e by (auto simp: in_phase_def)
  moreover have "phased ks (seen @ [e]) es"
    using Cons.prems e by (intro Cons.IH) (auto intro: all_done_append simp: none_of_def)
  ultimately show ?case by simp
qed simp

section \<open>Calls of a transaction\<close>

datatype tx_call =
    Call_Publish
  | Call_Commit
  | Call_Renew
  | Call_Rollback string errs
  | Call_Close

text \<open>What a call makes of the transaction and the state; its result goes to the caller.\<close>

definition after :: "transaction_handle \<Rightarrow> (unit + 'r \<times> transaction_handle) \<times> 's \<Rightarrow> transaction_handle \<times> 's" where
  "after tx answer = (case answer of (Inl _, s') \<Rightarrow> (tx, s') | (Inr (_, tx'), s') \<Rightarrow> (tx', s'))"

definition tx_apply ::
  "coordinator \<Rightarrow> tx_call \<Rightarrow> transaction_handle \<Rightarrow> 's pub_system_scheme \<Rightarrow> transaction_handle \<times> 's pub_system_scheme" where
  "tx_apply c call tx s =
     (case call of
        Call_Publish \<Rightarrow> after tx (tx_publish c tx s)
      | Call_Commit \<Rightarrow> after tx (tx_commit c tx s)
      | Call_Renew \<Rightarrow> after tx (tx_renew c tx s)
      | Call_Rollback code reason \<Rightarrow> after tx (tx_rollback c tx code reason s)
      | Call_Close \<Rightarrow> after tx (andthen (tx_close tx) (\<lambda>tx'. return_ok ((), tx')) s))"

text \<open>The calls made for a publication.\<close>

definition calls_for :: "string \<Rightarrow> 's pub_system_scheme \<Rightarrow> runtime_entry list" where
  "calls_for pid s = filter (\<lambda>e. ro_publication (re_operation e) = pid) (runtime_log s)"

text \<open>
  Any calls of a transaction, and between them whatever the rest of the program does: it makes no runtime call for
  the publication, does not change its plan, and keeps the primary key of the table.
\<close>

inductive transacts ::
  "coordinator \<Rightarrow> string \<Rightarrow> transaction_handle \<times> 's pub_system_scheme \<Rightarrow> transaction_handle \<times> 's pub_system_scheme \<Rightarrow> bool"
  for c pid x
where
  transacts_start: "transacts c pid x x"
| transacts_call: "transacts c pid x (tx, s) \<Longrightarrow> tx_apply c call tx s = (tx', s') \<Longrightarrow> transacts c pid x (tx', s')"
| transacts_others: "transacts c pid x (tx, s) \<Longrightarrow> keyed s' \<Longrightarrow> plan_of pid s' = plan_of pid s \<Longrightarrow>
    calls_for pid s' = calls_for pid s \<Longrightarrow> transacts c pid x (tx, s')"

lemma adds_calls_for:
  "adds es s s' \<Longrightarrow> calls_for pid s' = calls_for pid s @ filter (\<lambda>e. ro_publication (re_operation e) = pid) es"
  by (simp add: adds_def calls_for_def)

lemma calls_of_publication: "map call_of es = cs \<Longrightarrow> \<forall>x \<in> set cs. fst (snd x) = pid \<Longrightarrow>
    filter (\<lambda>e. ro_publication (re_operation e) = pid) es = es"
  by (auto simp: call_of_def intro!: filter_True)

lemma emits_calls_for:
  assumes "emits S s s'"
  obtains es where "calls_for pid s' = calls_for pid s @ es" and "re_step ` set es \<subseteq> S"
    and "plan_of pid s' = plan_of pid s" and "keyed s' = keyed s"
proof -
  from assms obtain es where es: "runtime_log s' = runtime_log s @ es" "re_step ` set es \<subseteq> S" and p: "plans s' = plans s"
    by (auto simp: emits_def logs_def)
  show thesis
    by (rule that [of "filter (\<lambda>e. ro_publication (re_operation e) = pid) es"])
      (use es p in \<open>auto simp: calls_for_def plan_of_def keyed_def\<close>)
qed

definition tx_open :: "string \<Rightarrow> mod_plan \<Rightarrow> transaction_handle \<Rightarrow> runtime_entry list \<Rightarrow> bool" where
  "tx_open pid p tx es \<longleftrightarrow>
     (let v = tx_publication tx; ks = map target_plan_key (pn_targets p)
      in \<not> tx_closed tx \<and> pb_id v = pid \<and> pb_plan v = p \<and> none_of Step_Complete es \<and> none_of Step_Rollback es \<and>
         all_done Step_Prepare ks es \<and>
         (pb_status v = Pub_Prepared \<or> pb_status v = Pub_Publishing \<and> all_done Step_Publish ks es))"

definition tx_inv :: "string \<Rightarrow> mod_plan \<Rightarrow> transaction_handle \<Rightarrow> 's pub_system_scheme \<Rightarrow> bool" where
  "tx_inv pid p tx s \<longleftrightarrow>
     keyed s \<and> plan_of pid s = Some p \<and> phased (map target_plan_key (pn_targets p)) [] (calls_for pid s) \<and>
     (tx_closed tx \<or> tx_open pid p tx (calls_for pid s))"

text \<open>The three ways an operation leaves a transaction: closed after calls that may follow, unchanged but for its
  fences, or closed already.\<close>

lemma tx_inv_closed:
  assumes "tx_inv pid p tx s" and "emits S s s'" and "tx_closed tx'"
    and "Step_Publish \<in> S \<Longrightarrow> all_done Step_Prepare (map target_plan_key (pn_targets p)) (calls_for pid s)"
    and "Step_Complete \<in> S \<Longrightarrow> all_done Step_Publish (map target_plan_key (pn_targets p)) (calls_for pid s) \<and>
      none_of Step_Rollback (calls_for pid s) \<and> Step_Rollback \<notin> S"
    and "Step_Rollback \<in> S \<Longrightarrow> none_of Step_Complete (calls_for pid s) \<and> Step_Complete \<notin> S"
  shows "tx_inv pid p tx' s'"
proof -
  obtain es where es: "calls_for pid s' = calls_for pid s @ es" "re_step ` set es \<subseteq> S"
    "plan_of pid s' = plan_of pid s" "keyed s' = keyed s"
    by (rule emits_calls_for [OF assms(2)])
  from phased_steps [OF es(2) assms(4-6)] es assms(1,3) show ?thesis by (simp add: tx_inv_def)
qed

lemma tx_inv_quiet:
  assumes "tx_inv pid p tx s" and "emits {} s s'" and "tx_closed tx' = tx_closed tx"
    and "\<And>es. tx_open pid p tx es \<Longrightarrow> tx_open pid p tx' es"
  shows "tx_inv pid p tx' s'"
proof -
  obtain es where es: "calls_for pid s' = calls_for pid s @ es" "re_step ` set es \<subseteq> {}"
    "plan_of pid s' = plan_of pid s" "keyed s' = keyed s"
    by (rule emits_calls_for [OF assms(2)])
  then have "calls_for pid s' = calls_for pid s" by simp
  with es assms show ?thesis by (auto simp: tx_inv_def)
qed

lemma tx_close_Inr:
  assumes "tx_close tx s = (Inr tx', s')"
  shows "tx_closed tx'" and "emits {} s s'"
proof -
  show "tx_closed tx'" using assms by (auto simp: tx_close_def andthen_eq_Inr_iff split: if_splits)
  show "emits {} s s'" by (rule movesD [OF emits.transaction_moves(1) assms])
qed

lemma tx_rollback_locked_Inr:
  assumes "tx_rollback_locked c tx code reason s = (Inr (answer, tx'), s')" and "\<not> pb_decision (tx_publication tx)"
  shows "tx_closed tx'" and "tx_closed tx \<Longrightarrow> s' = s" and "emits {Step_Rollback} s s'"
proof -
  show "tx_closed tx'" using assms
    by (auto simp: tx_rollback_locked_def andthen_eq_Inr_iff tx_close_Inr split: if_splits)
  show "tx_closed tx \<Longrightarrow> s' = s" using assms by (auto simp: tx_rollback_locked_def)
  have "moves (emits {Step_Rollback}) (tx_rollback_locked c tx code reason)" by (rule emits.transaction_moves) simp
  from movesD [OF this assms(1)] show "emits {Step_Rollback} s s'" .
qed

lemma renew_fences_never_fails: "renew_fences ttl fs s \<noteq> (Inl e, s')"
  by (induction fs arbitrary: s e s')
    (auto simp: andthen_eq_Inl_iff attempt_def split: prod.splits sum.splits if_splits)

lemma publish_targets_Inl:
  assumes "publish_targets c i ts v tx s = (Inl (tx', code, e), s')"
  shows "tx_closed tx' = tx_closed tx \<and> pb_decision (tx_publication tx') = pb_decision v"
  using assms
proof (induction ts arbitrary: i v tx s)
  case (Cons t ts)
  have step: "publish_targets c (Suc i) ts (v\<lparr>pb_targets := xs\<rparr>) (tx\<lparr>tx_fences := fs\<rparr>) s1 = (Inl (tx', code, e), s') \<Longrightarrow>
      tx_closed tx' = tx_closed tx \<and> pb_decision (tx_publication tx') = pb_decision v" for xs fs s1
    by (drule Cons.IH) simp
  show ?case using Cons.prems
    by (auto simp: andthen_eq_Inl_iff andthen_eq_Inr_iff on_error_eq_Inl renew_fences_never_fails Let_def set_target_def
        ignoring_def split: if_splits dest!: step)
qed simp

lemma publish_body_Inl:
  assumes "publish_body c tx s = (Inl (tx', code, e), s')" and "keyed s" and "\<not> pb_decision (tx_publication tx)"
  shows "tx_closed tx' = tx_closed tx" and "\<not> pb_decision (tx_publication tx')"
proof -
  have saved: "pb_decision v = pb_decision (tx_publication tx)"
    if renew: "renew_fences (co_ttl c) (tx_fences tx) s = (Inr (fs, e2) :: (transaction_handle \<times> string \<times> errs) + _, s1)"
      and save: "store_save ((tx_publication tx)\<lparr>pb_fences := fs, pb_status := Pub_Publishing, pb_updated := now\<rparr>) (s1\<lparr>step := n\<rparr>)
        = (Inr v, s2)" for fs e2 s1 now n v s2
  proof -
    have "adds [] s s1" by (rule adds_nothing [OF emits.fences_quiet(2) renew])
    then have "keyed (s1\<lparr>step := n\<rparr>)" using assms(2) by (simp add: adds_def keyed_def)
    from store_save_Inr(5) [OF save this] show ?thesis by simp
  qed
  have closed: "tx_closed tx2 = tx_closed tx" if "publish_targets c 0 ts v (tx\<lparr>tx_fences := fs\<rparr>) s1 = (Inr (v2, tx2), s2)"
    for ts v fs s1 v2 tx2 s2
    using publish_targets_Inr [OF that] by auto
  have "tx_closed tx' = tx_closed tx \<and> \<not> pb_decision (tx_publication tx') \<or>
    (\<exists>fs s1 now v s2. renew_fences (co_ttl c) (tx_fences tx) s = (Inr (fs, []) :: (transaction_handle \<times> string \<times> errs) + _, s1) \<and>
      store_save ((tx_publication tx)\<lparr>pb_fences := fs, pb_status := Pub_Publishing, pb_updated := now\<rparr>) (s1\<lparr>step := Suc (step s1)\<rparr>)
        = (Inr v, s2) \<and>
      publish_targets c 0 (pn_targets (pb_plan v)) v (tx\<lparr>tx_fences := fs\<rparr>) s2 = (Inl (tx', code, e), s'))"
    using assms(1,3)
    by (auto simp: publish_body_def andthen_eq_Inl_iff andthen_eq_Inr_iff on_error_eq_Inl renew_fences_never_fails Let_def
        empty_publication_def split: if_splits dest: closed)
  then have "tx_closed tx' = tx_closed tx \<and> \<not> pb_decision (tx_publication tx')"
  proof (elim disjE exE conjE)
    fix fs s1 now v s2
    assume renew: "renew_fences (co_ttl c) (tx_fences tx) s = (Inr (fs, []) :: (transaction_handle \<times> string \<times> errs) + _, s1)"
      and save: "store_save ((tx_publication tx)\<lparr>pb_fences := fs, pb_status := Pub_Publishing, pb_updated := now\<rparr>)
        (s1\<lparr>step := Suc (step s1)\<rparr>) = (Inr v, s2)"
      and "publish_targets c 0 (pn_targets (pb_plan v)) v (tx\<lparr>tx_fences := fs\<rparr>) s2 = (Inl (tx', code, e), s')"
    from publish_targets_Inl [OF this(3)] saved [OF renew save] assms(3)
    show "tx_closed tx' = tx_closed tx \<and> \<not> pb_decision (tx_publication tx')" by simp
  qed simp
  then show "tx_closed tx' = tx_closed tx" and "\<not> pb_decision (tx_publication tx')" by simp_all
qed

lemma publish_body_Inr:
  assumes "publish_body c tx s = (Inr (v, tx'), s')" and "keyed s"
    and "plan_of (pb_id (tx_publication tx)) s = Some (pb_plan (tx_publication tx))"
  obtains es where "adds es s s'" and "tx_publication tx' = v" and "tx_closed tx' = tx_closed tx"
    and "map call_of es = map (\<lambda>t. (Step_Publish, pb_id (tx_publication tx), target_plan_key t, True))
      (pn_targets (pb_plan (tx_publication tx)))"
    and "pb_id v = pb_id (tx_publication tx)" and "pb_plan v = pb_plan (tx_publication tx)" and "pb_status v = Pub_Publishing"
proof -
  let ?v = "tx_publication tx"
  from assms(1) obtain fs s1 v1 s2 v2 tx2 s3 v3 now now2 where
      renew: "renew_fences (co_ttl c) (tx_fences tx) s = (Inr (fs, []) :: (transaction_handle \<times> string \<times> errs) + _, s1)"
    and save: "store_save (?v\<lparr>pb_fences := fs, pb_status := Pub_Publishing, pb_updated := now\<rparr>) (s1\<lparr>step := Suc (step s1)\<rparr>)
      = (Inr v1, s2)"
    and targets: "publish_targets c 0 (pn_targets (pb_plan v1)) v1 (tx\<lparr>tx_fences := fs\<rparr>) s2 = (Inr (v2, tx2), s3)"
    and save2: "store_save (v2\<lparr>pb_fences := tx_fences tx2, pb_updated := now2\<rparr>) (s3\<lparr>step := Suc (step s3)\<rparr>) = (Inr v, s')"
    and tx': "tx' = tx2\<lparr>tx_publication := v\<rparr>"
    by (auto simp: publish_body_def andthen_eq_Inr_iff Let_def split: if_splits)
  have a1: "adds [] s s1" by (rule adds_nothing [OF emits.fences_quiet(2) renew])
  have a2: "adds [] s1 s2" using adds_nothing [OF emits.writes(1) save] by simp
  have p1: "pb_id v1 = pb_id ?v" "pb_plan v1 = pb_plan ?v"
    using store_save_Inr(1,2) [OF save] assms(3) a1 by (auto simp: plan_of_def adds_def)
  have "keyed (s1\<lparr>step := Suc (step s1)\<rparr>)" using assms(2) a1 by (simp add: adds_def keyed_def)
  from store_save_Inr(5) [OF save this] have st1: "pb_status v1 = Pub_Publishing" by simp
  from publish_targets_Inr [OF targets] obtain es where es: "adds es s2 s3" "pb_id v2 = pb_id v1" "pb_plan v2 = pb_plan v1"
    "pb_status v2 = pb_status v1" "tx_closed tx2 = tx_closed tx" "map call_of es = map (\<lambda>t. (Step_Publish, pb_id v1, target_plan_key t, True)) (pn_targets (pb_plan v1))"
    by auto
  have a3: "adds [] s3 s'" using adds_nothing [OF emits.writes(1) save2] by simp
  have all: "adds es s s'" using a1 a2 a3 es(1) by (simp add: adds_def)
  have "plan_of (pb_id ?v) (s3\<lparr>step := Suc (step s3)\<rparr>) = Some (pb_plan ?v)"
    using assms(3) a1 a2 es(1) by (simp add: plan_of_def adds_def)
  then have p3: "pb_id v = pb_id ?v" "pb_plan v = pb_plan ?v"
    using store_save_Inr(1,2) [OF save2] es(2) p1 by simp_all
  have "keyed (s3\<lparr>step := Suc (step s3)\<rparr>)" using assms(2) a1 a2 es(1) by (simp add: adds_def keyed_def)
  from store_save_Inr(5) [OF save2 this] have st3: "pb_status v = pb_status v2" by simp
  with st1 st3 show thesis using es p1 p3 all by (intro that [of es]) (simp_all add: tx')
qed

section \<open>The invariant of a transaction\<close>

lemma emits_trans: "emits S s s1 \<Longrightarrow> emits S s1 s2 \<Longrightarrow> emits S s s2"
  by (rule emits.trans_R)

lemma emits_mono: "emits S s s' \<Longrightarrow> S \<subseteq> T \<Longrightarrow> emits T s s'"
  by (auto simp: emits_def logs_def)

lemma emits_step [simp]: "emits S (s\<lparr>step := n\<rparr>) s' = emits S s s'"
  by (simp add: emits_def logs_def)

lemma tx_publish_inv:
  assumes inv: "tx_inv pid p tx s" and run: "tx_publish c tx s = (Inr (answer, tx') :: unit + _, s')"
  shows "tx_inv pid p tx' s'"
proof (cases "tx_closed tx \<or> pb_status (tx_publication tx) \<noteq> Pub_Prepared \<or> pb_decision (tx_publication tx)")
  case True
  with run inv show ?thesis by (auto simp: tx_publish_def)
next
  case False
  let ?v = "tx_publication tx" and ?ks = "map target_plan_key (pn_targets p)"
  from False inv have op: "tx_open pid p tx (calls_for pid s)" and key: "keyed s" and plan: "plan_of pid s = Some p"
    by (auto simp: tx_inv_def)
  then have v: "pb_id ?v = pid" "pb_plan ?v = p" and ready: "all_done Step_Prepare ?ks (calls_for pid s)"
    and none: "none_of Step_Complete (calls_for pid s)" "none_of Step_Rollback (calls_for pid s)"
    by (simp_all add: tx_open_def Let_def)
  from False run consider (ok) v' where "publish_body c tx s = (Inr (v', tx'), s')"
    | (failed) tx1 code e s1 where "publish_body c tx s = (Inl (tx1, code, e), s1)"
        and "tx_rollback_locked c tx1 code e s1 = (Inr (answer, tx') :: unit + _, s')"
    by (auto simp: tx_publish_def andthen_eq_Inr_iff split_sum_ex)
  then show ?thesis
  proof cases
    case ok
    from publish_body_Inr [OF ok key] v plan obtain es where es: "adds es s s'" "tx_publication tx' = v'" "tx_closed tx' = tx_closed tx"
      "map call_of es = map (\<lambda>t. (Step_Publish, pid, target_plan_key t, True)) (pn_targets p)"
      "pb_id v' = pid" "pb_plan v' = p" "pb_status v' = Pub_Publishing"
      by metis
    have "filter (\<lambda>e. ro_publication (re_operation e) = pid) es = es"
      by (rule calls_of_publication [OF es(4)]) auto
    then have calls: "calls_for pid s' = calls_for pid s @ es" using adds_calls_for [OF es(1)] by simp
    have steps: "re_step ` set es \<subseteq> {Step_Publish}"
    proof
      fix x assume "x \<in> re_step ` set es"
      then obtain e where "e \<in> set es" "x = re_step e" by blast
      then have "call_of e \<in> set (map (\<lambda>t. (Step_Publish, pid, target_plan_key t, True)) (pn_targets p))"
        using es(4) by (metis image_eqI list.set_map)
      with \<open>x = re_step e\<close> show "x \<in> {Step_Publish}" by (auto simp: call_of_def)
    qed
    have "all_done Step_Publish ?ks (calls_for pid s @ es)"
      by (rule all_done_calls [OF es(4)]) auto
    moreover have "phased ?ks (calls_for pid s) es"
      by (rule phased_steps [OF steps]) (simp_all add: ready)
    moreover have "none_of Step_Complete es" "none_of Step_Rollback es"
      by (rule none_of_steps [OF steps]; simp)+
    ultimately show ?thesis
      using inv es calls op False by (simp add: tx_inv_def tx_open_def Let_def adds_plan [OF es(1)] all_done_append)
  next
    case failed
    note kept = publish_body_Inl [OF failed(1) key]
    have "emits {Step_Publish, Step_Rollback} s s1"
      by (rule emits_mono [OF movesD [OF emits.publish_moves(2) failed(1)]]) auto
    moreover have "emits {Step_Publish, Step_Rollback} s1 s'"
      using kept False by (auto intro: emits_mono [OF tx_rollback_locked_Inr(3) [OF failed(2)]])
    ultimately have "emits {Step_Publish, Step_Rollback} s s'" by (rule emits_trans)
    moreover have "tx_closed tx'" using tx_rollback_locked_Inr(1) [OF failed(2)] kept False by simp
    ultimately show ?thesis by (rule tx_inv_closed [OF inv]) (use ready none in auto)
  qed
qed

text \<open>Completion, and the end of the transaction.\<close>

definition finishes :: "coordinator \<Rightarrow> 's pub_system_scheme \<Rightarrow> transaction_handle \<Rightarrow> 's pub_system_scheme \<Rightarrow> bool" where
  "finishes c s1 tx' s' \<longleftrightarrow> (\<exists>v fs d s2 tx1. complete_and_activate c v fs s1 = (Inr d :: unit + _, s2) \<and>
     tx_close tx1 s2 = (Inr tx' :: unit + _, s'))"

lemma finishesI:
  assumes "andthen (complete_and_activate c v fs) (\<lambda>(w, e). andthen (tx_close (f w)) (\<lambda>tx1. return_ok ((w, e), tx1))) s1
    = (Inr (answer, tx') :: unit + _, s')"
  shows "finishes c s1 tx' s'"
proof -
  from assms obtain w e s2 tx1 where "complete_and_activate c v fs s1 = (Inr (w, e) :: unit + _, s2)"
    and "tx_close (f w) s2 = (Inr tx' :: unit + _, s')"
    by (auto simp: andthen_eq_Inr_iff)
  then show ?thesis unfolding finishes_def by blast
qed

lemma tx_commit_cases:
  assumes run: "tx_commit c tx s = (Inr (answer, tx') :: unit + _, s')"
    and open_tx: "\<not> (tx_closed tx \<or> pb_status (tx_publication tx) \<noteq> Pub_Publishing \<or> pb_decision (tx_publication tx))"
  obtains s1 where "emits {} s s1" and "finishes c s1 tx' s'"
    | s1 tx1 code e where "emits {} s s1" and "\<not> pb_decision (tx_publication tx1)"
        and "tx_rollback_locked c tx1 code e s1 = (Inr (answer, tx') :: unit + _, s')"
proof -
  obtain fs e s1 where renew: "renew_fences (co_ttl c) (tx_fences tx) s = (Inr (fs, e) :: unit + _, s1)"
    using renew_fences_never_fails [of "co_ttl c" "tx_fences tx" s] by (metis obj_sumE prod.exhaust)
  have s1: "emits {} s s1" by (rule movesD [OF emits.fences_quiet(2) renew])
  show thesis
  proof (cases "e = []")
    case False
    with run open_tx have "tx_rollback_locked c tx ''LEASE_RENEW_FAILED'' e s1 = (Inr (answer, tx') :: unit + _, s')"
      by (simp add: tx_commit_def renew)
    with s1 open_tx show thesis by (intro that(2)) simp_all
  next
    case True
    let ?v = "tx_publication tx"
    let ?tx = "tx\<lparr>tx_fences := fs, tx_publication := ?v\<lparr>pb_fences := fs\<rparr>\<rparr>"
    obtain r s2 where decide: "decide_commit (pb_id ?v) (clock s1 (step s1)) (s1\<lparr>step := Suc (step s1)\<rparr>) = (r, s2)"
      by fastforce
    obtain r' s3 where get: "store_get (pb_id ?v) s2 = (r', s3)" by fastforce
    have s2: "emits {} s s2" using movesD [OF emits.writes(2) decide] s1 by (auto intro: emits_trans)
    have s3: "emits {} s s3" using movesD [OF emits.get_quiet get] s2 by (blast intro: emits_trans)
    show thesis
    proof (cases r)
      case (Inr v)
      with run open_tx True have "finishes c s2 tx' s'"
        by (intro finishesI) (simp add: tx_commit_def Let_def attempt_simp renew decide)
      with s2 show thesis by (rule that(1))
    next
      case (Inl e1)
      show thesis
      proof (cases "\<exists>v. r' = Inr v \<and> pb_decision v")
        case True
        then obtain v where v: "r' = Inr v" "pb_decision v" by blast
        with run open_tx \<open>e = []\<close> Inl have "finishes c s3 tx' s'"
          by (intro finishesI) (simp add: tx_commit_def Let_def attempt_simp renew decide get)
        with s3 show thesis by (rule that(1))
      next
        case False
        with run open_tx \<open>e = []\<close> Inl
        have "tx_rollback_locked c ?tx ''COMMIT_DECISION_FAILED'' e1 s3 = (Inr (answer, tx') :: unit + _, s')"
          by (cases r') (simp_all add: tx_commit_def Let_def attempt_simp renew decide get)
        with s3 open_tx show thesis by (intro that(2)) simp_all
      qed
    qed
  qed
qed

lemma tx_commit_inv:
  assumes inv: "tx_inv pid p tx s" and run: "tx_commit c tx s = (Inr (answer, tx') :: unit + _, s')"
  shows "tx_inv pid p tx' s'"
proof (cases "tx_closed tx \<or> pb_status (tx_publication tx) \<noteq> Pub_Publishing \<or> pb_decision (tx_publication tx)")
  case True
  with run inv show ?thesis by (auto simp: tx_commit_def)
next
  case False
  let ?ks = "map target_plan_key (pn_targets p)" and ?C = "{Step_Complete, Step_Stop, Step_Start}"
  from False inv have ready: "all_done Step_Publish ?ks (calls_for pid s)"
    and none: "none_of Step_Complete (calls_for pid s)" "none_of Step_Rollback (calls_for pid s)"
    by (auto simp: tx_inv_def tx_open_def Let_def)
  from tx_commit_cases [OF run False] show ?thesis
  proof cases
    case 1
    then obtain v fs d s2 tx1 s1 where complete: "complete_and_activate c v fs s1 = (Inr d :: unit + _, s2)"
      and closed: "tx_close tx1 s2 = (Inr tx' :: unit + _, s')" and s1: "emits {} s s1"
      unfolding finishes_def by blast
    have "emits ?C s s1" by (rule emits_mono [OF s1]) simp
    moreover have "emits ?C s1 s2" by (rule movesD [OF emits.complete_moves complete]) simp
    moreover have "emits ?C s2 s'" by (rule emits_mono [OF tx_close_Inr(2) [OF closed]]) simp
    ultimately have "emits ?C s s'" by (blast intro: emits_trans)
    with tx_close_Inr(1) [OF closed] show ?thesis by (intro tx_inv_closed [OF inv]) (use none ready in auto)
  next
    case (2 s1 tx1 code e)
    have "emits {Step_Rollback} s s1" by (rule emits_mono [OF 2(1)]) simp
    with tx_rollback_locked_Inr(3) [OF 2(3,2)] have "emits {Step_Rollback} s s'" by (blast intro: emits_trans)
    with tx_rollback_locked_Inr(1) [OF 2(3,2)] show ?thesis by (intro tx_inv_closed [OF inv]) (use none in auto)
  qed
qed

lemma tx_renew_inv:
  assumes inv: "tx_inv pid p tx s" and run: "tx_renew c tx s = (Inr (answer, tx') :: unit + _, s')"
  shows "tx_inv pid p tx' s'"
proof -
  have "emits {} s s'" by (rule movesD [OF emits.transaction_moves(2) run])
  moreover from run have "tx' = tx \<or> (\<exists>fs. tx' = tx\<lparr>tx_fences := fs, tx_publication := (tx_publication tx)\<lparr>pb_fences := fs\<rparr>\<rparr>)"
    by (auto simp: tx_renew_def andthen_eq_Inr_iff split: if_splits)
  ultimately show ?thesis by (intro tx_inv_quiet [OF inv]) (auto simp: tx_open_def Let_def)
qed

lemma tx_rollback_inv:
  assumes inv: "tx_inv pid p tx s" and run: "tx_rollback c tx code reason s = (Inr (answer, tx') :: unit + _, s')"
  shows "tx_inv pid p tx' s'"
proof (cases "tx_closed tx \<or> pb_decision (tx_publication tx)")
  case True
  with run inv show ?thesis by (auto simp: tx_rollback_def tx_rollback_locked_def split: if_splits)
next
  case False
  with inv have "none_of Step_Complete (calls_for pid s)" by (auto simp: tx_inv_def tx_open_def Let_def)
  moreover from False run have "tx_closed tx'" and "emits {Step_Rollback} s s'"
    by (auto simp: tx_rollback_def dest: tx_rollback_locked_Inr)
  ultimately show ?thesis by (intro tx_inv_closed [OF inv]) auto
qed

lemma tx_close_inv:
  assumes inv: "tx_inv pid p tx s" and run: "tx_close tx s = (Inr tx' :: unit + _, s')"
  shows "tx_inv pid p tx' s'"
  using tx_close_Inr [OF run] by (intro tx_inv_closed [OF inv]) auto

lemma after_returns:
  assumes "after tx (m s) = (tx', s')" and "returns m"
  obtains answer where "m s = (Inr (answer, tx') :: unit + _, s')"
  using assms by (auto simp: after_def returns_def split: prod.splits sum.splits)

lemma tx_apply_inv:
  assumes inv: "tx_inv pid p tx s" and run: "tx_apply c call tx s = (tx', s')"
  shows "tx_inv pid p tx' s'"
proof (cases call)
  case Call_Publish
  with run have "after tx (tx_publish c tx s) = (tx', s')" by (simp add: tx_apply_def)
  then show ?thesis by (rule after_returns) (auto intro: returns_intros tx_publish_inv [OF inv])
next
  case Call_Commit
  with run have "after tx (tx_commit c tx s) = (tx', s')" by (simp add: tx_apply_def)
  then show ?thesis by (rule after_returns) (auto intro: returns_intros tx_commit_inv [OF inv])
next
  case Call_Renew
  with run have "after tx (tx_renew c tx s) = (tx', s')" by (simp add: tx_apply_def)
  then show ?thesis by (rule after_returns) (auto intro: returns_intros tx_renew_inv [OF inv])
next
  case (Call_Rollback code reason)
  with run have "after tx (tx_rollback c tx code reason s) = (tx', s')" by (simp add: tx_apply_def)
  then show ?thesis by (rule after_returns) (auto intro: returns_intros tx_rollback_inv [OF inv])
next
  case Call_Close
  with run have "after tx (andthen (tx_close tx) (\<lambda>tx'. return_ok ((), tx')) s) = (tx', s')" by (simp add: tx_apply_def)
  then show ?thesis
    by (rule after_returns) (auto intro!: returns_intros intro: tx_close_inv [OF inv] simp: andthen_eq_Inr_iff)
qed

lemma transacts_inv:
  assumes "transacts c pid (tx0, s0) (tx, s)" and "tx_inv pid p tx0 s0"
  shows "tx_inv pid p tx s"
  using assms
proof (induction "(tx, s)" arbitrary: tx s rule: transacts.induct)
  case (transacts_others tx s s')
  then show ?case by (auto simp: tx_inv_def)
qed (auto intro: tx_apply_inv)

lemma begin_tx_inv:
  assumes begun: "begin_transaction c rq s = (Inr (v, Some tx, e), s')" and "keyed s" and "calls_for (rq_id rq) s = []"
  shows "tx_inv (rq_id rq) (pb_plan v) tx s'"
proof -
  let ?ks = "map target_plan_key (pn_targets (pb_plan v))"
  obtain es where es: "runtime_log s' = runtime_log s @ es" "map call_of es = preparations (rq_id rq) (pn_targets (pb_plan v))"
    and v: "v = tx_publication tx" "pb_id v = rq_id rq" "plan_of (rq_id rq) s' = Some (pb_plan v)" "\<not> tx_closed tx"
    and key: "keyed s'" "pb_status v = Pub_Prepared"
    by (rule begin_transaction_open [OF begun]) (use assms(2) in blast)
  have "filter (\<lambda>e. ro_publication (re_operation e) = rq_id rq) es = es"
    by (rule calls_of_publication [OF es(2)]) (auto simp: preparations_def)
  with es(1) assms(3) have calls: "calls_for (rq_id rq) s' = es" by (simp add: calls_for_def)
  have steps: "re_step ` set es \<subseteq> {Step_Cache, Step_Prepare}"
  proof
    fix x assume "x \<in> re_step ` set es"
    then obtain e where "e \<in> set es" "x = re_step e" by blast
    then have "call_of e \<in> set (preparations (rq_id rq) (pn_targets (pb_plan v)))"
      using es(2) by (metis image_eqI list.set_map)
    with \<open>x = re_step e\<close> show "x \<in> {Step_Cache, Step_Prepare}" by (auto simp: call_of_def preparations_def)
  qed
  have "phased ?ks [] es" by (rule phased_steps [OF steps]) simp_all
  moreover have "all_done Step_Prepare ?ks ([] @ es)"
    by (rule all_done_calls [OF es(2)]) (auto simp: preparations_def)
  moreover have "none_of Step_Complete es" "none_of Step_Rollback es" by (rule none_of_steps [OF steps]; simp)+
  ultimately show ?thesis using v key calls by (simp add: tx_inv_def tx_open_def Let_def)
qed

end
