(* ===== verification/Mod_Steady.thy ===== *)
theory Mod_Steady
  imports Mod_Protocol
begin

text \<open>
  What the stores of a publication do while nothing disturbs them: leases that are free are acquired, leases that are
  held are renewed, a publication that fits its columns is created, saved and read back, and the rows of the replicas
  follow the plan.
\<close>

section \<open>A steady system\<close>

text \<open>Nothing fails or is cancelled, and everything happens within the time of a lease, at times that can be
  written as JSON.\<close>

definition steady :: "int \<Rightarrow> 's env_scheme \<Rightarrow> bool" where
  "steady ttl s \<longleftrightarrow> calm s \<and> valid_ttl ttl \<and>
     (\<forall>m n. clock s n < clock s m + ttl \<and> json_time (clock s n) \<noteq> None \<and> json_time (clock s n + ttl) \<noteq> None)"

lemma steadyD:
  assumes "steady ttl s"
  shows "\<not> fault s n" "\<not> cancelled s n" "valid_ttl ttl" "clock s n < clock s m + ttl" "json_time (clock s n) \<noteq> None"
    "json_time (clock s n + ttl) \<noteq> None"
  using assms by (auto simp: steady_def calm_def)

lemma steady_same [simp]:
  "steady ttl (s\<lparr>step := n\<rparr>) = steady ttl s" "steady ttl (l\<lparr>lease_rows := rows\<rparr>) = steady ttl l"
  by (simp_all add: steady_def calm_def)

lemma steady_tables [simp]:
  "steady ttl (s\<lparr>pub_rows := prs\<rparr>) = steady ttl s" "steady ttl (s\<lparr>target_rows := trs\<rparr>) = steady ttl s"
  "steady ttl (t\<lparr>runtime_log := es\<rparr>) = steady ttl t"
  by (simp_all add: steady_def calm_def)

definition only_leases :: "'s pub_system_scheme \<Rightarrow> 's pub_system_scheme \<Rightarrow> bool" where
  "only_leases s s' \<longleftrightarrow> (\<exists>n rows. s' = s\<lparr>step := n, lease_rows := rows\<rparr>)"

lemma pub_system_self: "s = s\<lparr>step := step s, lease_rows := lease_rows s\<rparr>"
  by simp

lemma exI2: "P x y \<Longrightarrow> \<exists>x y. P x y"
  by blast

interpretation only_leases: leasing only_leases
proof
  show "only_leases s s" for s :: "'a pub_system_scheme"
    unfolding only_leases_def using pub_system_self by blast
  show "only_leases s s2" if "only_leases s s1" and "only_leases s1 s2" for s s1 s2 :: "'a pub_system_scheme"
  proof -
    from that obtain n rows where "s2 = s\<lparr>step := n, lease_rows := rows\<rparr>" by (auto simp: only_leases_def)
    then show ?thesis unfolding only_leases_def by (rule exI2)
  qed
  show "only_leases s (s\<lparr>step := n\<rparr>)" for s :: "'a pub_system_scheme" and n
    unfolding only_leases_def by (rule exI [of _ n], rule exI [of _ "lease_rows s"]) simp
  show "only_leases s (s\<lparr>lease_rows := ls\<rparr>)" for s :: "'a pub_system_scheme" and ls
    unfolding only_leases_def by (rule exI [of _ "step s"], rule exI [of _ ls]) simp
qed

interpretation only_steps: reading "only_steps :: 's pub_system_scheme \<Rightarrow> _"
  by unfold_locales (auto intro: only_steps_trans)

section \<open>Leases that stay live\<close>

definition live_fence :: "'s lease_db_scheme \<Rightarrow> fence \<Rightarrow> bool" where
  "live_fence s f \<longleftrightarrow> (\<exists>t. abs_leases (lease_rows s) (fc_room f) = Some ((operation_lease f)\<lparr>l_expires := t\<rparr>) \<and>
     (\<forall>n. clock s n < t))"

definition armed :: "int \<Rightarrow> fence list \<Rightarrow> 's lease_db_scheme \<Rightarrow> bool" where
  "armed ttl fs s \<longleftrightarrow> steady ttl s \<and> lease_inv s \<and> distinct (map fc_room fs) \<and>
     (\<forall>f \<in> set fs. live_fence s f \<and> json_time (fc_expires f) \<noteq> None)"

lemma armed_step [simp]: "armed ttl fs (s\<lparr>step := n\<rparr>) = armed ttl fs s"
  by (simp add: armed_def live_fence_def lease_inv_def)

lemma armed_tables [simp]:
  "armed ttl fs (s\<lparr>pub_rows := prs\<rparr>) = armed ttl fs s" "armed ttl fs (s\<lparr>target_rows := trs\<rparr>) = armed ttl fs s"
  "armed ttl fs (t\<lparr>runtime_log := es\<rparr>) = armed ttl fs t"
  by (simp_all add: armed_def live_fence_def lease_inv_def)

lemma armed_steady: "armed ttl fs s \<Longrightarrow> steady ttl s"
  by (simp add: armed_def)

lemma only_leases_steady: "only_leases s s' \<Longrightarrow> steady ttl s' = steady ttl s"
  by (auto simp: only_leases_def)

lemma renew_live:
  fixes s :: "'s pub_system_scheme"
  assumes "steady ttl s" and "lease_inv s" and "live_fence s f"
  obtains n s' where "lease_renew f ttl s = (Inr (f\<lparr>fc_expires := clock s n + ttl\<rparr>), s')" and "lease_inv s'" and "only_leases s s'"
    and "abs_leases (lease_rows s') =
      (abs_leases (lease_rows s))(fc_room f \<mapsto> (operation_lease f)\<lparr>l_expires := clock s n + ttl\<rparr>)"
proof -
  let ?l = "operation_lease f" and ?n = "Suc (step s)"
  let ?match = "\<lambda>r. same_lease ?l r \<and> lr_expires r > clock s ?n"
  from assms(3) obtain r t where r: "find_room (fc_room f) (lease_rows s) = Some r"
    "lease_from_record r = ?l\<lparr>l_expires := t\<rparr>" "\<forall>n. clock s n < t"
    by (auto simp: live_fence_def abs_leases_def)
  have fields: "lr_room r = l_room ?l" "lr_id r = l_id ?l" "lr_key r = l_key ?l" "lr_token r = l_token ?l" "lr_expires r = t"
    using r(2) by (simp_all add: lease_from_record_def operation_lease_def)
  then have "?match r" using r(3) by (simp add: same_lease_def)
  moreover have "count_where ?match (lease_rows s) = (case find_room (fc_room f) (lease_rows s) of Some r \<Rightarrow> if ?match r then 1 else 0 | None \<Rightarrow> 0)"
    by (rule match_one_row) (use assms(2) in \<open>auto simp: lease_inv_def same_lease_def operation_lease_def\<close>)
  ultimately have one: "count_where ?match (lease_rows s) = 1" using r(1) by simp
  have fence: "publication_fence (?l\<lparr>l_expires := t'\<rparr>) = f\<lparr>fc_expires := t'\<rparr>" for t'
    by (simp add: publication_fence_def operation_lease_def)
  obtain s' where run: "renew ?l ttl s = (Inr (?l\<lparr>l_expires := clock s ?n + ttl\<rparr>), s')"
    using one steadyD [OF assms(1)] by (simp add: renew_def andthen_def ctx_err_def external_def Let_def)
  then have run': "lease_renew f ttl s = (Inr (f\<lparr>fc_expires := clock s ?n + ttl\<rparr>), s')"
    by (simp add: lease_renew_def andthen_eq_Inr_iff fence)
  from renew_Inr [OF assms(2) run] obtain n where "lease_inv s'" "clock s n + ttl = clock s ?n + ttl"
    "abs_leases (lease_rows s') = (abs_leases (lease_rows s))(l_room ?l \<mapsto> ?l\<lparr>l_expires := clock s ?n + ttl\<rparr>)"
    by (auto simp: operation_lease_def)
  moreover have "only_leases s s'" by (rule movesD [OF only_leases.lease_calls(4) run'])
  ultimately show thesis using run' by (intro that [of ?n s']) (simp_all add: operation_lease_def)
qed

text \<open>Renewing changes nothing but the time a fence expires.\<close>

definition same_fences :: "fence list \<Rightarrow> fence list \<Rightarrow> bool" where
  "same_fences fs gs \<longleftrightarrow> map (\<lambda>f. f\<lparr>fc_expires := 0\<rparr>) gs = map (\<lambda>f. f\<lparr>fc_expires := 0\<rparr>) fs"

lemma renew_fences_live:
  fixes s :: "'s pub_system_scheme"
  assumes "armed ttl (done @ fs) s"
  shows "\<exists>gs s'. renew_fences ttl fs s = (Inr (gs, []) :: 'f + _, s') \<and> armed ttl (done @ gs) s' \<and> only_leases s s' \<and> same_fences fs gs"
  using assms
proof (induction fs arbitrary: "done" s)
  case Nil
  then show ?case using only_leases.refl_R by (simp add: same_fences_def)
next
  case (Cons f fs)
  from Cons.prems have steady: "steady ttl s" and inv: "lease_inv s" and live: "live_fence s f"
    by (simp_all add: armed_def)
  obtain n s1 where renewed: "lease_renew f ttl s = (Inr (f\<lparr>fc_expires := clock s n + ttl\<rparr>), s1)" and inv1: "lease_inv s1"
    and frame: "only_leases s s1"
    and table: "abs_leases (lease_rows s1) = (abs_leases (lease_rows s))(fc_room f \<mapsto> (operation_lease f)\<lparr>l_expires := clock s n + ttl\<rparr>)"
    by (rule renew_live [OF steady inv live])
  let ?g = "f\<lparr>fc_expires := clock s n + ttl\<rparr>"
  have clock: "clock s1 = clock s" using frame by (auto simp: only_leases_def)
  have "live_fence s1 ?g"
    using steadyD(4) [OF steady] by (auto simp: live_fence_def table clock operation_lease_def)
  moreover have "live_fence s1 h" if "h \<in> set (done @ fs)" for h
  proof -
    have "fc_room f \<notin> fc_room ` set (done @ fs)" using Cons.prems by (simp add: armed_def image_Un)
    then have "fc_room h \<noteq> fc_room f" using imageI [OF that, of fc_room] by metis
    moreover from that Cons.prems have "live_fence s h" by (auto simp: armed_def)
    ultimately show ?thesis by (simp add: live_fence_def table clock)
  qed
  ultimately have "armed ttl ((done @ [?g]) @ fs) s1"
    using Cons.prems inv1 steadyD(6) [OF steady] by (auto simp: armed_def only_leases_steady [OF frame])
  from Cons.IH [OF this] obtain gs s' where rest: "renew_fences ttl fs s1 = (Inr (gs, []) :: 'f + _, s')"
    "armed ttl ((done @ [?g]) @ gs) s'" "only_leases s1 s'" "same_fences fs gs" by blast
  show ?case
  proof (intro exI conjI)
    show "renew_fences ttl (f # fs) s = (Inr (?g # gs, []) :: 'f + _, s')"
      using rest(1) by (simp add: andthen_def attempt_def renewed)
    show "armed ttl (done @ ?g # gs) s'" using rest(2) by simp
    show "only_leases s s'" by (rule only_leases.trans_R [OF frame rest(3)])
    show "same_fences (f # fs) (?g # gs)" using rest(4) by (simp add: same_fences_def)
  qed
qed

lemma renew_armed:
  fixes s :: "'s pub_system_scheme"
  assumes "armed ttl fs s"
  obtains gs s' where "renew_fences ttl fs s = (Inr (gs, []) :: 'f + _, s')" and "armed ttl gs s'" and "only_leases s s'"
    and "same_fences fs gs"
  using renew_fences_live [of ttl "[]" fs s] assms by auto

section \<open>Leases that are free\<close>

text \<open>A resource and a key as \<open>Acquire\<close> takes them.\<close>

definition lease_text :: "string \<Rightarrow> string \<Rightarrow> int \<Rightarrow> bool" where
  "lease_text r key ttl \<longleftrightarrow> trim_space r = r \<and> trim_space key = key \<and> valid_lease_input r key ttl"

lemma lease_acquire_free:
  fixes s :: "'s pub_system_scheme"
  assumes "steady ttl s" and "lease_inv s" and "abs_leases (lease_rows s) r = None" and "lease_text r key ttl"
  obtains n k s' where "lease_acquire r key ttl s =
      (Inr \<lparr>fc_room = r, fc_lease = fresh s k, fc_key = key, fc_token = 1, fc_expires = clock s n + ttl\<rparr>, s')"
    and "lease_inv s'" and "only_leases s s'"
    and "abs_leases (lease_rows s') = (abs_leases (lease_rows s))
      (r \<mapsto> \<lparr>l_room = r, l_id = fresh s k, l_key = key, l_token = 1, l_expires = clock s n + ttl\<rparr>)"
proof -
  let ?n = "Suc (step s)" and ?k = "Suc (Suc (Suc (Suc (step s))))"
  let ?l = "\<lparr>l_room = r, l_id = fresh s ?k, l_key = key, l_token = 1, l_expires = clock s ?n + ttl\<rparr>"
  have none: "find_room r (lease_rows s) = None" using assms(3) by (simp add: abs_leases_def)
  obtain s1 where "acquire_once r key ttl (s\<lparr>step := Suc (step s)\<rparr>) = (Inr (Some ?l), s1)"
    using none steadyD [OF assms(1)]
    by (simp add: acquire_once_def transaction_def acquire_tx_def andthen_def external_def Let_def lease_from_record_def)
  then have run: "acquire r key ttl s = (Inr ?l, s1)"
    using steadyD [OF assms(1)] assms(4)
    by (simp add: acquire_def Let_def andthen_def ctx_err_def lease_text_def numeral_3_eq_3)
  then have run': "lease_acquire r key ttl s =
      (Inr \<lparr>fc_room = r, fc_lease = fresh s ?k, fc_key = key, fc_token = 1, fc_expires = clock s ?n + ttl\<rparr>, s1)"
    by (simp add: lease_acquire_def andthen_eq_Inr_iff publication_fence_def)
  from acquire_Inr [OF assms(2) run] assms(3,4) have "lease_inv s1"
    and "abs_leases (lease_rows s1) = (abs_leases (lease_rows s))(r \<mapsto> ?l)"
    by (auto simp: spec_acquire_def Let_def lease_text_def)
  moreover have "only_leases s s1" by (rule movesD [OF only_leases.lease_calls(3) run'])
  ultimately show thesis using run' by (intro that [of ?k ?n s1]) simp_all
qed

lemma acquire_each_free:
  fixes s :: "'s pub_system_scheme"
  assumes "armed ttl fs s" and "distinct (map fc_room fs @ rs)" and "\<And>n. valid_id (fresh s n)"
    and "\<And>r. r \<in> set rs \<Longrightarrow> abs_leases (lease_rows s) r = None \<and> lease_text r key ttl"
  shows "\<exists>gs s'. acquire_each ttl key rs fs s = (Inr gs, s') \<and> armed ttl gs s' \<and> only_leases s s'"
  using assms
proof (induction rs arbitrary: fs s)
  case Nil
  then show ?case using only_leases.refl_R by simp
next
  case (Cons r rs)
  from Cons.prems have steady: "steady ttl s" and inv: "lease_inv s" and free: "abs_leases (lease_rows s) r = None"
    and lease_ok: "lease_text r key ttl" by (simp_all add: armed_def)
  obtain n k s1 where got: "lease_acquire r key ttl s =
      (Inr \<lparr>fc_room = r, fc_lease = fresh s k, fc_key = key, fc_token = 1, fc_expires = clock s n + ttl\<rparr>, s1)"
    and inv1: "lease_inv s1" and frame: "only_leases s s1"
    and table: "abs_leases (lease_rows s1) = (abs_leases (lease_rows s))
      (r \<mapsto> \<lparr>l_room = r, l_id = fresh s k, l_key = key, l_token = 1, l_expires = clock s n + ttl\<rparr>)"
    by (rule lease_acquire_free [OF steady inv free lease_ok])
  let ?f = "\<lparr>fc_room = r, fc_lease = fresh s k, fc_key = key, fc_token = 1, fc_expires = clock s n + ttl\<rparr>"
  have same: "clock s1 = clock s" "fresh s1 = fresh s" using frame by (auto simp: only_leases_def)
  have "live_fence s1 ?f"
    using steadyD(4) [OF steady] by (auto simp: live_fence_def table same operation_lease_def)
  moreover have "live_fence s1 h" if "h \<in> set fs" for h
  proof -
    have "fc_room h \<noteq> r" using Cons.prems(2) imageI [OF that, of fc_room] by auto
    moreover from that Cons.prems have "live_fence s h" by (auto simp: armed_def)
    ultimately show ?thesis by (simp add: live_fence_def table same)
  qed
  ultimately have "armed ttl (fs @ [?f]) s1"
    using Cons.prems inv1 steadyD(6) [OF steady] by (auto simp: armed_def only_leases_steady [OF frame])
  moreover have "distinct (map fc_room (fs @ [?f]) @ rs)" using Cons.prems(2) by auto
  moreover have "abs_leases (lease_rows s1) x = None \<and> lease_text x key ttl" if "x \<in> set rs" for x
    using that Cons.prems(2,4) by (auto simp: table)
  ultimately have "\<exists>gs s'. acquire_each ttl key rs (fs @ [?f]) s1 = (Inr gs, s') \<and> armed ttl gs s' \<and> only_leases s1 s'"
    using Cons.prems(3) same by (intro Cons.IH) simp_all
  then obtain gs s' where rest: "acquire_each ttl key rs (fs @ [?f]) s1 = (Inr gs, s')" "armed ttl gs s'" "only_leases s1 s'"
    by blast
  have "fence_fits r key ?f" using Cons.prems(3) by (simp add: fence_fits_def)
  then have "acquire_each ttl key (r # rs) fs s = (Inr gs, s')"
    using rest(1) by (simp add: andthen_def on_error_def got)
  with rest(2) only_leases.trans_R [OF frame rest(3)] show ?case by blast
qed

text \<open>The resources of a plan, free and with a key \<open>Acquire\<close> takes.\<close>

lemma acquire_plan_free:
  fixes s :: "'s pub_system_scheme"
  assumes "steady ttl s" and "lease_inv s" and "\<And>n. valid_id (fresh s n)" and "publication_lease_resources p \<noteq> []"
    and "\<And>r. r \<in> set (publication_lease_resources p) \<Longrightarrow>
      abs_leases (lease_rows s) r = None \<and> lease_text r (publication_operation_key pid) ttl"
  obtains fs s' where "acquire_with_borrowed ttl p pid [] s = (Inr (fs, fs), s')" and "armed ttl fs s'" and "only_leases s s'"
proof -
  have "distinct (publication_lease_resources p)"
    by (simp add: publication_lease_resources_def normalized_strings_def)
  then have "\<exists>gs s'. acquire_each ttl (publication_operation_key pid) (publication_lease_resources p) [] s = (Inr gs, s') \<and>
      armed ttl gs s' \<and> only_leases s s'"
    using assms by (intro acquire_each_free) (auto simp: armed_def)
  then obtain fs s' where run: "acquire_each ttl (publication_operation_key pid) (publication_lease_resources p) [] s = (Inr fs, s')"
    and "armed ttl fs s'" "only_leases s s'" by blast
  with assms(4) show thesis
    by (intro that [of fs s']) (simp_all add: acquire_with_borrowed_def acquire_fences_def acquire_resources_def andthen_def)
qed

section \<open>A store that accepts a plan\<close>

text \<open>A plan every column can hold and read back.\<close>

definition storable :: "mod_plan \<Rightarrow> bool" where
  "storable p \<longleftrightarrow> plan_check p = None \<and> copy_plan p = p \<and> writable (plan_times p)"

definition plan_pairs :: "mod_plan \<Rightarrow> (string \<times> string) list" where
  "plan_pairs p = map (\<lambda>t. (tg_target t, tg_installation t)) (pn_targets p)"

abbreviation manual :: activation where
  "manual \<equiv> initial_activation manual_policy"

definition row_fits :: "string \<Rightarrow> mod_plan \<Rightarrow> pub_row \<Rightarrow> bool" where
  "row_fits pid p r \<longleftrightarrow> pr_id r = pid \<and> pr_plan r = p \<and> pr_hash r = pn_hash p \<and> pr_revision r = pn_revision p \<and>
     pr_room r = pn_room p \<and> (pr_source r = [] \<or> valid_id (pr_source r)) \<and> pr_status r \<noteq> Pub_Unset \<and>
     pr_outcome r \<noteq> Out_Unset \<and> pr_activation r = Some manual \<and> writable (map fc_expires (pr_fences r))"

definition publication_fits :: "string \<Rightarrow> mod_plan \<Rightarrow> publication \<Rightarrow> bool" where
  "publication_fits pid p v \<longleftrightarrow> pb_id v = pid \<and> pb_plan v = p \<and> pb_room v = pn_room p \<and>
     (pb_source v = [] \<or> valid_id (pb_source v)) \<and> pb_status v \<noteq> Pub_Unset \<and> pb_outcome v \<noteq> Out_Unset \<and>
     pb_activation v = manual \<and> writable (map fc_expires (pb_fences v)) \<and>
     length (pb_targets v) = length (pn_targets p) \<and>
     (\<forall>t \<in> set (pb_targets v). (pt_target t, pt_installation t) \<in> set (plan_pairs p))"

definition rows_for :: "string \<Rightarrow> 's pub_store_scheme \<Rightarrow> target_row list" where
  "rows_for pid s = filter (\<lambda>t. tr_publication t = pid) (target_rows s)"

definition target_row_fits :: "string \<Rightarrow> target_row \<Rightarrow> bool" where
  "target_row_fits pid t \<longleftrightarrow> tr_id t = target_result_id pid (tr_target t) (tr_installation t)"

definition stored :: "string \<Rightarrow> mod_plan \<Rightarrow> 's pub_store_scheme \<Rightarrow> bool" where
  "stored pid p s \<longleftrightarrow> valid_id pid \<and> storable p \<and> keyed s \<and> (\<exists>r. row_of pid s = Some r \<and> row_fits pid p r) \<and>
     distinct (map tr_id (target_rows s)) \<and> map (\<lambda>t. (tr_target t, tr_installation t)) (rows_for pid s) = plan_pairs p \<and>
     (\<forall>t \<in> set (rows_for pid s). target_row_fits pid t)"

lemma stored_step [simp]:
  "stored pid p (s\<lparr>step := n\<rparr>) = stored pid p s" "stored pid p (l\<lparr>lease_rows := rows\<rparr>) = stored pid p l"
  "stored pid p (t\<lparr>runtime_log := es\<rparr>) = stored pid p t"
  "stored pid p (s\<lparr>step := n, pub_rows := prs\<rparr>) = stored pid p (s\<lparr>pub_rows := prs\<rparr>)"
  "stored pid p (s\<lparr>step := n, target_rows := trs\<rparr>) = stored pid p (s\<lparr>target_rows := trs\<rparr>)"
  by (simp_all add: stored_def keyed_def plans_def row_of_def rows_for_def)

lemma manual_valid: "normalized_activation manual = manual" "validate_activation manual = None" "copy_activation manual = manual"
  "activation_times manual = []"
  by (simp_all add: normalized_activation_def validate_activation_def normalize_policy_def initial_activation_def
      manual_policy_def unset_activation_def unset_policy_def copy_activation_def activation_times_def Let_def)

lemma storable_ids:
  assumes "storable p" and "(x, y) \<in> set (plan_pairs p)"
  shows "valid_id x" "valid_id y"
  using assms by (auto simp: storable_def plan_check_plan_wf plan_wf_def target_wf_def target_ids_ok_def plan_pairs_def)

lemma publication_fits_valid:
  "publication_fits pid p v \<Longrightarrow> valid_id pid \<Longrightarrow> storable p \<Longrightarrow> validate_publication v = None"
  by (auto simp: publication_fits_def validate_publication_def manual_valid storable_def)

lemma row_fits_read:
  assumes "row_fits pid p r" and "valid_id pid" and "storable p"
  obtains v where "publication_from_record r = Inr v" and "pb_status v = pr_status r" and "pb_decision v = pr_decision r"
    and "pb_fences v = pr_fences r"
    and "\<forall>ts. length ts = length (pn_targets p) \<and>
      (\<forall>t \<in> set ts. (pt_target t, pt_installation t) \<in> set (plan_pairs p)) \<longrightarrow> publication_fits pid p (v\<lparr>pb_targets := ts\<rparr>)"
proof -
  let ?v = "\<lparr>pb_id = pr_id r, pb_source = pr_source r, pb_room = pr_room r, pb_status = pr_status r,
    pb_outcome = pr_outcome r, pb_plan = pr_plan r, pb_backups = pr_backups r, pb_fences = pr_fences r,
    pb_decision = pr_decision r, pb_restart = pr_restart r, pb_activation = manual,
    pb_code = pr_code r, pb_message = pr_message r, pb_targets = [], pb_decided_at = pr_decided_at r,
    pb_created = pr_created r, pb_updated = pr_updated r, pb_finished = pr_finished r\<rparr>"
  have "validate_publication ?v = None"
    using assms by (auto simp: row_fits_def validate_publication_def manual_valid storable_def)
  then have "publication_from_record r = Inr ?v"
    using assms by (simp add: publication_from_record_def Let_def row_fits_def storable_def)
  then show thesis
    by (rule that) (use assms in \<open>auto simp: row_fits_def publication_fits_def\<close>)
qed

lemma store_get_stored:
  assumes "steady ttl s" and "stored pid p s"
  obtains v where "store_get pid s = (Inr v, s\<lparr>step := Suc (Suc (step s))\<rparr>)" and "publication_fits pid p v"
    and "\<And>r. row_of pid s = Some r \<Longrightarrow> pb_status v = pr_status r \<and> pb_decision v = pr_decision r \<and> pb_fences v = pr_fences r"
proof -
  from assms(2) obtain r where row: "row_of pid s = Some r" and fits: "row_fits pid p r" and pid: "valid_id pid"
    and p: "storable p" and pairs: "map (\<lambda>t. (tr_target t, tr_installation t)) (rows_for pid s) = plan_pairs p"
    by (auto simp: stored_def)
  let ?ts = "map pub_target_from_record (sort_key (\<lambda>t. (tr_target t, tr_installation t)) (rows_for pid s))"
  obtain v where v: "publication_from_record r = Inr v" "pb_status v = pr_status r" "pb_decision v = pr_decision r"
    "pb_fences v = pr_fences r"
    and build: "\<forall>ts. length ts = length (pn_targets p) \<and>
      (\<forall>t \<in> set ts. (pt_target t, pt_installation t) \<in> set (plan_pairs p)) \<longrightarrow> publication_fits pid p (v\<lparr>pb_targets := ts\<rparr>)"
    by (rule row_fits_read [OF fits pid p])
  from arg_cong [OF pairs, of length] have len: "length (rows_for pid s) = length (pn_targets p)"
    by (simp add: plan_pairs_def)
  have "publication_fits pid p (v\<lparr>pb_targets := ?ts\<rparr>)"
    by (rule build [rule_format]) (auto simp: len pub_target_from_record_def pairs [symmetric])
  moreover have "pb_plan v = p" using v(1) fits by (simp add: publication_from_record_Inr row_fits_def)
  then have "store_get pid s = (Inr (v\<lparr>pb_targets := ?ts\<rparr>), s\<lparr>step := Suc (Suc (step s))\<rparr>)"
    using row v(1) len steadyD(1) [OF assms(1)]
    by (simp add: store_get_def andthen_def statement_def receive_def Let_def lift_def row_of_def rows_for_def)
  ultimately show thesis using v row by (intro that [of "v\<lparr>pb_targets := ?ts\<rparr>"]) auto
qed

lemma find_row_update:
  "row_of pid (s\<lparr>pub_rows := update_where P f (pub_rows s)\<rparr>) = map_option (\<lambda>r. if P r then f r else r) (row_of pid s)"
  if "\<And>r. pr_id (f r) = pr_id r"
  using row_of_update [OF that, of pid P "pub_rows s"] by (simp add: row_of_def)

text \<open>An update of the row of a publication.\<close>

lemma stored_write:
  assumes "stored pid p s" and "row_of pid s = Some r" and "P r"
    and "\<And>x. pr_id (f x) = pr_id x" and "\<And>x. pr_plan (f x) = pr_plan x" and "row_fits pid p (f r)"
  shows "stored pid p (s\<lparr>pub_rows := update_where P f (pub_rows s)\<rparr>)"
    and "row_of pid (s\<lparr>pub_rows := update_where P f (pub_rows s)\<rparr>) = Some (f r)"
proof -
  show row: "row_of pid (s\<lparr>pub_rows := update_where P f (pub_rows s)\<rparr>) = Some (f r)"
    using assms(2,3) by (simp add: find_row_update assms(4))
  have "plans (s\<lparr>pub_rows := update_where P f (pub_rows s)\<rparr>) = plans s"
    by (simp add: plans_def plans_update assms(4,5))
  with row assms(1,6) show "stored pid p (s\<lparr>pub_rows := update_where P f (pub_rows s)\<rparr>)"
    by (simp add: stored_def keyed_def rows_for_def)
qed

lemma keyed_match:
  assumes "keyed s" and "row_of pid s = Some r" and "Q r"
  shows "count_where (\<lambda>r. pr_id r = pid \<and> Q r) (pub_rows s) = 1"
proof -
  have d: "distinct (map pr_id (pub_rows s))" using assms(1) by (simp add: keyed_def plans_def comp_def)
  have r: "r \<in> set (pub_rows s)" "pr_id r = pid" using assms(2) by (auto simp: row_of_def dest: find_SomeD)
  have "count_where (\<lambda>r. pr_id r = pid \<and> Q r) (pub_rows s) \<le> 1"
    by (rule count_where_key_le_1 [OF d]) simp
  moreover have "count_where (\<lambda>r. pr_id r = pid \<and> Q r) (pub_rows s) \<noteq> 0" using r assms(3) by auto
  ultimately show ?thesis by linarith
qed

lemma copy_fence_expires [simp]: "fc_expires (copy_fence f) = fc_expires f"
  by (simp add: copy_fence_def)

lemma store_save_stored:
  assumes "steady ttl s" and "stored pid p s" and "publication_fits pid p v"
  obtains v' n rows where "store_save v s = (Inr v', s\<lparr>step := n, pub_rows := rows\<rparr>)"
    and "stored pid p (s\<lparr>step := n, pub_rows := rows\<rparr>)" and "publication_fits pid p v'"
    and "pb_status v' = pb_status v" and "pb_decision v' = pb_decision v"
proof -
  from assms(2) obtain r where row: "row_of pid s = Some r" and fits: "row_fits pid p r" and pid: "valid_id pid"
    and p: "storable p" and key: "keyed s"
    by (auto simp: stored_def)
  from assms(3) have v: "pb_id v = pid" "pb_plan v = p" and act: "pb_activation v = manual"
    and times: "writable (map fc_expires (pb_fences v))" by (auto simp: publication_fits_def)
  let ?P = "\<lambda>r. pr_id r = pb_id v \<and> pr_hash r = pn_hash (pb_plan v)"
  obtain row where new: "publication_record_from v = Inr row" "pr_status row = pb_status v" "pr_outcome row = pb_outcome v"
    "pr_fences row = map copy_fence (pb_fences v)" "pr_activation row = Some manual" "pr_decision row = pb_decision v"
    using times p by (auto simp: publication_record_from_def Let_def act manual_valid v writable_def storable_def)
  let ?s = "s\<lparr>step := Suc (step s), pub_rows := update_where ?P (save_columns row) (pub_rows s)\<rparr>"
  have "map fc_expires (pr_fences row) = map fc_expires (pb_fences v)" by (simp add: new)
  then have fits': "row_fits pid p (save_columns row r)"
    using fits new assms(3) by (simp add: row_fits_def save_columns_def publication_fits_def comp_def)
  have hit: "?P r" using fits v by (simp add: row_fits_def)
  note wrote = stored_write [of pid p s r ?P "save_columns row", OF assms(2) row hit _ _ fits']
  have st: "stored pid p ?s" and row': "row_of pid ?s = Some (save_columns row r)"
    using wrote by (simp_all add: save_columns_def row_of_def)
  have "steady ttl ?s" using assms(1) by simp
  then obtain v' where get: "store_get pid ?s = (Inr v', ?s\<lparr>step := Suc (Suc (step ?s))\<rparr>)" "publication_fits pid p v'"
    "pb_status v' = pb_status v" "pb_decision v' = pb_decision v"
    by (rule store_get_stored [OF _ st]) (use row' new in \<open>auto simp: save_columns_def\<close>)
  have one: "count_where ?P (pub_rows s) = 1" using keyed_match [OF key row, of "\<lambda>r. pr_hash r = pn_hash p"] hit v by simp
  have "store_save v s = (Inr v', s\<lparr>step := Suc (Suc (Suc (step s))), pub_rows := pub_rows ?s\<rparr>)"
    using get(1) one new(1) steadyD(1) [OF assms(1)] publication_fits_valid [OF assms(3) pid p]
    by (simp add: store_save_def andthen_def lift_def statement_def receive_def guard_def Let_def v)
  with get st show thesis by (intro that [of v' "pub_rows ?s" "Suc (Suc (Suc (step s)))"]) simp_all
qed

section \<open>The results of the targets\<close>

lemma filter_update_where:
  "(\<And>x. Q (f x) = Q x) \<Longrightarrow> filter Q (update_where P f rows) = update_where P f (filter Q rows)"
  by (induction rows) auto

lemma save_target_stored:
  assumes "steady ttl s" and "stored pid p s" and "(pt_target t, pt_installation t) \<in> set (plan_pairs p)"
    and "pt_status t \<noteq> Pub_Unset"
  obtains t' rows n where "save_target pid t s = (Inr t', s\<lparr>step := n, target_rows := rows\<rparr>)"
    and "stored pid p (s\<lparr>target_rows := rows\<rparr>)"
    and "pt_target t' = pt_target t" and "pt_installation t' = pt_installation t"
proof -
  let ?now = "clock s (step s)"
  let ?row = "pub_target_record_from pid (t\<lparr>pt_updated := ?now\<rparr>) ?now"
  let ?P = "\<lambda>r. tr_id r = tr_id ?row \<and> tr_publication r = pid"
  let ?rows = "update_where ?P (target_columns ?row) (target_rows s)"
  from assms(2) have pid: "valid_id pid" and p: "storable p" and d: "distinct (map tr_id (target_rows s))"
    and pairs: "map (\<lambda>t. (tr_target t, tr_installation t)) (rows_for pid s) = plan_pairs p"
    and fits: "\<forall>t \<in> set (rows_for pid s). target_row_fits pid t"
    by (auto simp: stored_def)
  from assms(3) obtain x where x: "x \<in> set (rows_for pid s)" "tr_target x = pt_target t" "tr_installation x = pt_installation t"
    by (auto simp: pairs [symmetric])
  then have x': "x \<in> set (target_rows s)" "?P x"
    using fits by (auto simp: rows_for_def target_row_fits_def pub_target_record_from_def)
  have "count_where ?P (target_rows s) \<le> 1" by (rule count_where_key_le_1 [OF d]) simp
  moreover have "count_where ?P (target_rows s) \<noteq> 0" using x' by auto
  ultimately have one: "count_where ?P (target_rows s) = 1" by linarith
  have ids: "map tr_id ?rows = map tr_id (target_rows s)"
    by (rule map_update_where) (simp add: target_columns_def)
  have "target_columns ?row x \<in> set ?rows" using update_where_hit [OF x'(1), of ?P "target_columns ?row"] x'(2) by simp
  from find_distinct_key [of tr_id, OF _ this] d ids x'(2)
  have found: "List.find (\<lambda>r. tr_id r = tr_id ?row) ?rows = Some (target_columns ?row x)"
    by (simp add: target_columns_def)
  have rows: "rows_for pid (s\<lparr>target_rows := ?rows\<rparr>) = update_where ?P (target_columns ?row) (rows_for pid s)"
    by (simp add: rows_for_def filter_update_where target_columns_def)
  have "map (\<lambda>t. (tr_target t, tr_installation t)) (update_where ?P (target_columns ?row) (rows_for pid s)) = plan_pairs p"
    unfolding pairs [symmetric] by (rule map_update_where) (simp add: target_columns_def)
  then have st: "stored pid p (s\<lparr>target_rows := ?rows\<rparr>)"
    using assms(2) fits unfolding stored_def rows
    by (auto simp: ids keyed_def plans_def row_of_def set_update_where target_row_fits_def target_columns_def)
  have run: "save_target pid t s = (Inr (pub_target_from_record (target_columns ?row x)),
      s\<lparr>step := Suc (Suc (Suc (step s))), target_rows := ?rows\<rparr>)"
    using one found steadyD(1) [OF assms(1)] pid storable_ids [OF p assms(3)] assms(4)
    by (simp add: save_target_def andthen_def guard_def statement_def receive_def Let_def)
  show thesis
    by (rule that [OF run st]) (use x in \<open>simp_all add: pub_target_from_record_def target_columns_def\<close>)
qed

section \<open>Creating a publication\<close>

definition result_ids :: "string \<Rightarrow> mod_plan \<Rightarrow> string list" where
  "result_ids pid p = map (\<lambda>(x, y). target_result_id pid x y) (plan_pairs p)"

text \<open>The tables have room for a publication.\<close>

definition has_room :: "string \<Rightarrow> string \<Rightarrow> mod_plan \<Rightarrow> 's pub_store_scheme \<Rightarrow> bool" where
  "has_room pid source p s \<longleftrightarrow> valid_id pid \<and> storable p \<and> (source = [] \<or> valid_id source) \<and> keyed s \<and>
     distinct (map tr_id (target_rows s) @ result_ids pid p) \<and> rows_for pid s = [] \<and>
     (\<forall>r \<in> set (pub_rows s). pr_id r \<noteq> pid \<and> (source \<noteq> [] \<longrightarrow> pr_source r \<noteq> source) \<and>
        pr_idem r \<noteq> (if source \<noteq> [] then ''job:'' @ source else ''operation:'' @ pid))"

lemma has_room_step [simp]:
  "has_room pid source p (s\<lparr>step := n\<rparr>) = has_room pid source p s"
  "has_room pid source p (l\<lparr>lease_rows := rows\<rparr>) = has_room pid source p l"
  by (simp_all add: has_room_def keyed_def plans_def rows_for_def)

lemma find_idempotent_fresh:
  assumes "steady ttl s" and "has_room pid source p s"
  obtains n where "find_idempotent pid source s = (Inl [Pub_Not_Found], s\<lparr>step := n\<rparr>)"
proof -
  have none: "List.find (\<lambda>r. pr_id r = pid) (pub_rows s) = None" "pid \<noteq> []"
    using assms(2) by (auto simp: has_room_def find_None_iff valid_id_def)
  then have get: "store_get pid s = (Inl [Pub_Not_Found], s\<lparr>step := Suc (step s)\<rparr>)"
    using steadyD(1) [OF assms(1)] by (simp add: store_get_def andthen_def statement_def receive_def Let_def)
  have "source \<noteq> [] \<Longrightarrow> filter (\<lambda>r. pr_source r = source) (pub_rows s) = []"
    using assms(2) by (auto simp: has_room_def filter_empty_conv)
  then show thesis
    using get steadyD(1) [OF assms(1)] none(2)
    by (cases "source = []")
      (auto simp: find_idempotent_def andthen_def attempt_def statement_def receive_def Let_def intro: that)
qed

lemma insert_targets_fresh:
  assumes "steady ttl s" and "distinct (map tr_id (target_rows s) @ map (\<lambda>t. target_result_id pid (pt_target t) (pt_installation t)) ts)"
  shows "\<exists>n. insert_targets pid created ts s =
    (Inr (), s\<lparr>step := n, target_rows := target_rows s @ map (\<lambda>t. pub_target_record_from pid t created) ts\<rparr>)"
  using assms
proof (induction ts arbitrary: s)
  case Nil
  show ?case by (intro exI [of _ "step s"]) simp
next
  case (Cons t ts)
  let ?s = "s\<lparr>step := Suc (step s), target_rows := target_rows s @ [pub_target_record_from pid t created]\<rparr>"
  have "steady ttl ?s" using Cons.prems(1) by simp
  moreover have "distinct (map tr_id (target_rows ?s) @ map (\<lambda>t. target_result_id pid (pt_target t) (pt_installation t)) ts)"
    using Cons.prems(2) by (auto simp: pub_target_record_from_def)
  ultimately obtain n where "insert_targets pid created ts ?s =
      (Inr (), ?s\<lparr>step := n, target_rows := target_rows ?s @ map (\<lambda>t. pub_target_record_from pid t created) ts\<rparr>)"
    using Cons.IH by blast
  moreover have "target_result_id pid (pt_target t) (pt_installation t) \<notin> tr_id ` set (target_rows s)"
    using Cons.prems(2) by auto
  ultimately show ?case
    using steadyD(1) [OF Cons.prems(1)]
    by (intro exI [of _ n]) (simp add: andthen_def statement_def receive_def guard_def Let_def)
qed

lemma new_publication_fields:
  "pb_id (new_publication rq policy fs now) = rq_id rq" "pb_source (new_publication rq policy fs now) = rq_source rq"
  "pb_plan (new_publication rq policy fs now) = rq_plan rq" "pb_room (new_publication rq policy fs now) = pn_room (rq_plan rq)"
  "pb_activation (new_publication rq policy fs now) = initial_activation policy"
  "pb_status (new_publication rq policy fs now) = Pub_Previewed" "pb_outcome (new_publication rq policy fs now) = Out_None"
  "pb_fences (new_publication rq policy fs now) = fs"
  "map (\<lambda>t. (pt_target t, pt_installation t)) (pb_targets (new_publication rq policy fs now)) = plan_pairs (rq_plan rq)"
  by (simp_all add: new_publication_def plan_pairs_def)

lemma new_publication_fits:
  assumes "rq_plan rq = p" and "rq_source rq = [] \<or> valid_id (rq_source rq)" and "writable (map fc_expires fs)"
  shows "publication_fits (rq_id rq) p (new_publication rq manual_policy fs now)"
  using assms by (auto simp: publication_fits_def new_publication_def plan_pairs_def)

lemma armed_writable: "armed ttl fs s \<Longrightarrow> writable (map fc_expires fs)"
  by (auto simp: armed_def writable_def list_all_iff)

lemma publication_row:
  assumes "publication_fits pid p v" and "storable p"
  obtains row where "publication_record_from v = Inr row" and "pr_id row = pid" and "pr_source row = pb_source v"
    and "pr_idem row = publication_idempotency_key v" and "pr_decision row = pb_decision v" and "row_fits pid p row"
proof -
  have "\<exists>row. publication_record_from v = Inr row"
    using assms by (simp add: publication_record_from_def Let_def publication_fits_def manual_valid writable_def storable_def)
  then obtain row where row: "publication_record_from v = Inr row" by blast
  moreover have "row_fits pid p row"
    using row assms by (auto simp: publication_record_from_def Let_def publication_fits_def row_fits_def manual_valid
        storable_def writable_def comp_def split: if_splits)
  moreover have "pr_id row = pid" "pr_source row = pb_source v" "pr_idem row = publication_idempotency_key v"
    "pr_decision row = pb_decision v"
    using row assms(1) by (auto simp: publication_record_from_def Let_def publication_fits_def split: if_splits)
  ultimately show thesis using that by blast
qed

lemma find_append: "List.find P (xs @ ys) = (case List.find P xs of None \<Rightarrow> List.find P ys | Some x \<Rightarrow> Some x)"
  by (induction xs) auto

lemma step_first:
  "s\<lparr>pub_rows := rows, step := n\<rparr> = s\<lparr>step := n, pub_rows := rows\<rparr>"
  "s\<lparr>target_rows := trs, step := n\<rparr> = s\<lparr>step := n, target_rows := trs\<rparr>"
  by (cases s; simp)+

lemma store_create_fresh:
  assumes "steady ttl s" and room: "has_room (rq_id rq) (rq_source rq) p s" and plan: "rq_plan rq = p"
    and fences: "writable (map fc_expires fs)"
  obtains v rows trs n where
    "store_create (new_publication rq manual_policy fs now) s = (Inr v, s\<lparr>step := n, pub_rows := rows, target_rows := trs\<rparr>)"
    and "stored (rq_id rq) p (s\<lparr>pub_rows := rows, target_rows := trs\<rparr>)" and "publication_fits (rq_id rq) p v"
    and "\<not> pb_decision v"
proof -
  let ?v = "new_publication rq manual_policy fs now" and ?i = "rq_id rq"
  let ?trs = "map (\<lambda>t. pub_target_record_from ?i t (pb_created ?v)) (pb_targets ?v)"
  from room have pid: "valid_id ?i" and p: "storable p" and key: "keyed s" and source: "rq_source rq = [] \<or> valid_id (rq_source rq)"
    and ids: "distinct (map tr_id (target_rows s) @ result_ids ?i p)" and none: "rows_for ?i s = []"
    and fresh: "\<forall>r \<in> set (pub_rows s). pr_id r \<noteq> ?i \<and> (rq_source rq \<noteq> [] \<longrightarrow> pr_source r \<noteq> rq_source rq) \<and>
      pr_idem r \<noteq> (if rq_source rq \<noteq> [] then ''job:'' @ rq_source rq else ''operation:'' @ ?i)"
    by (auto simp: has_room_def)
  have fits: "publication_fits ?i p ?v" by (rule new_publication_fits [OF plan source fences])
  obtain row where row: "publication_record_from ?v = Inr row" "pr_id row = ?i" "pr_source row = pb_source ?v"
    "pr_idem row = publication_idempotency_key ?v" "pr_decision row = pb_decision ?v" and rfits: "row_fits ?i p row"
    by (rule publication_row [OF fits p])
  have tids: "map (\<lambda>t. target_result_id ?i (pt_target t) (pt_installation t)) (pb_targets ?v) = result_ids ?i p"
    by (simp add: result_ids_def plan_pairs_def new_publication_def plan)
  let ?rows = "pub_rows s @ [row]"
  have ins: "\<exists>n. insert_targets ?i (pb_created ?v) (pb_targets ?v) (s\<lparr>step := m, pub_rows := ?rows\<rparr>) =
      (Inr (), s\<lparr>step := n, pub_rows := ?rows, target_rows := target_rows s @ ?trs\<rparr>)" for m
  proof -
    have "steady ttl (s\<lparr>step := m, pub_rows := ?rows\<rparr>)" using assms(1) by simp
    from insert_targets_fresh [OF this, of ?i "pb_targets ?v" "pb_created ?v"] ids show ?thesis by (simp add: tids step_first)
  qed
  have uniq: "pr_id row \<notin> pr_id ` set (pub_rows s)" "pr_idem row \<notin> pr_idem ` set (pub_rows s)"
    using fresh row by (auto simp: publication_idempotency_key_def new_publication_fields)
  have count: "rq_source rq \<noteq> [] \<Longrightarrow> count_where (\<lambda>r. pr_source r = rq_source rq) (pub_rows s) = 0"
    using fresh by auto
  have "\<exists>n. transaction [connection_failed] (create_tx ?v) s =
      (Inr (), s\<lparr>step := n, pub_rows := ?rows, target_rows := target_rows s @ ?trs\<rparr>)"
  proof (cases "rq_source rq = []")
    case True
    obtain n where "insert_targets ?i (pb_created ?v) (pb_targets ?v) (s\<lparr>step := Suc (Suc (step s)), pub_rows := ?rows\<rparr>) =
        (Inr (), s\<lparr>step := n, pub_rows := ?rows, target_rows := target_rows s @ ?trs\<rparr>)" using ins by blast
    then show ?thesis using True row(1) uniq steadyD(1) [OF assms(1)]
      by (intro exI [of _ "Suc n"]) (simp add: step_first transaction_def create_tx_def andthen_def external_def lift_def statement_def receive_def guard_def Let_def
          new_publication_fields)
  next
    case False
    obtain n where "insert_targets ?i (pb_created ?v) (pb_targets ?v) (s\<lparr>step := Suc (Suc (Suc (step s))), pub_rows := ?rows\<rparr>) =
        (Inr (), s\<lparr>step := n, pub_rows := ?rows, target_rows := target_rows s @ ?trs\<rparr>)" using ins by blast
    then show ?thesis using False row(1) uniq count [OF False] steadyD(1) [OF assms(1)]
      by (intro exI [of _ "Suc n"]) (simp add: step_first transaction_def create_tx_def andthen_def external_def lift_def statement_def receive_def guard_def Let_def
          new_publication_fields)
  qed
  then obtain n where tx: "transaction [connection_failed] (create_tx ?v) s =
      (Inr (), s\<lparr>step := n, pub_rows := ?rows, target_rows := target_rows s @ ?trs\<rparr>)" by blast
  let ?s = "s\<lparr>pub_rows := ?rows, target_rows := target_rows s @ ?trs\<rparr>"
  have found: "row_of ?i ?s = Some row"
  proof -
    have "List.find (\<lambda>r. pr_id r = ?i) (pub_rows s) = None" using fresh by (auto simp: find_None_iff)
    then have "List.find (\<lambda>r. pr_id r = ?i) ?rows = Some row" using row(2) by (simp add: find_append)
    then show ?thesis by (simp add: row_of_def)
  qed
  have "rows_for ?i ?s = ?trs" using none by (simp add: rows_for_def pub_target_record_from_def filter_empty_conv)
  moreover have "map (\<lambda>t. (tr_target t, tr_installation t)) ?trs = plan_pairs p"
    using new_publication_fields(9) [of rq manual_policy fs now] by (simp add: comp_def pub_target_record_from_def plan)
  moreover have "map tr_id ?trs = result_ids ?i p" using tids by (simp add: comp_def pub_target_record_from_def)
  moreover have "keyed ?s" using key uniq(1) by (auto simp: keyed_def plans_def)
  ultimately have st: "stored ?i p ?s"
    using found pid p rfits ids by (auto simp: stored_def target_row_fits_def pub_target_record_from_def)
  let ?s' = "s\<lparr>step := n, pub_rows := ?rows, target_rows := target_rows s @ ?trs\<rparr>"
  have st': "stored ?i p ?s'"
    using st by (simp add: stored_def keyed_def plans_def row_of_def rows_for_def)
  have "steady ttl ?s'" using assms(1) by simp
  then obtain v where get: "store_get ?i ?s' = (Inr v, ?s'\<lparr>step := Suc (Suc (step ?s'))\<rparr>)"
    and v: "publication_fits ?i p v"
    by (rule store_get_stored [OF _ st'])
  have "\<not> pb_decision v"
    by (rule store_get_Inr [OF get]) (use found row(5) in \<open>simp add: row_of_def new_publication_def\<close>)
  moreover have "store_create ?v s = (Inr v, s\<lparr>step := Suc (Suc n), pub_rows := ?rows, target_rows := target_rows s @ ?trs\<rparr>)"
    using tx get publication_fits_valid [OF fits pid p]
    by (simp add: store_create_def andthen_def new_publication_fields step_first)
  ultimately show thesis using st v that by blast
qed

section \<open>Replicas that follow the plan\<close>

definition only_replicas :: "'s replica_store_scheme \<Rightarrow> 's replica_store_scheme \<Rightarrow> bool" where
  "only_replicas s s' \<longleftrightarrow>
     s'\<lparr>step := step s, artifact_rows := artifact_rows s, world_rows := world_rows s\<rparr> = s"

lemma only_replicas_simps [simp]:
  "only_replicas s s" "only_replicas s (s'\<lparr>step := n\<rparr>) = only_replicas s s'"
  "only_replicas s (s'\<lparr>artifact_rows := as\<rparr>) = only_replicas s s'"
  "only_replicas s (s'\<lparr>world_rows := ws\<rparr>) = only_replicas s s'"
  by (simp_all add: only_replicas_def)

lemma only_replicas_trans:
  assumes "only_replicas s s1" and "only_replicas s1 s2"
  shows "only_replicas s s2"
proof -
  have "s2\<lparr>step := step s, artifact_rows := artifact_rows s, world_rows := world_rows s\<rparr> =
      (s2\<lparr>step := step s1, artifact_rows := artifact_rows s1, world_rows := world_rows s1\<rparr>)
        \<lparr>step := step s, artifact_rows := artifact_rows s, world_rows := world_rows s\<rparr>" by simp
  with assms show ?thesis unfolding only_replicas_def by metis
qed

lemma only_replicas_form:
  assumes "only_replicas s s'"
  obtains n as ws where "s' = s\<lparr>step := n, artifact_rows := as, world_rows := ws\<rparr>"
proof -
  have "s' = (s'\<lparr>step := step s, artifact_rows := artifact_rows s, world_rows := world_rows s\<rparr>)
      \<lparr>step := step s', artifact_rows := artifact_rows s', world_rows := world_rows s'\<rparr>" by simp
  with assms show thesis unfolding only_replicas_def by (metis that)
qed

lemma steady_replicas [simp]:
  "steady ttl (s\<lparr>artifact_rows := as\<rparr>) = steady ttl s" "steady ttl (s\<lparr>world_rows := ws\<rparr>) = steady ttl s"
  by (simp_all add: steady_def calm_def)

lemma only_replicas_same:
  assumes "only_replicas s s'"
  shows "steady ttl s' = steady ttl s" "armed ttl fs s' = armed ttl fs s" "stored pid p s' = stored pid p s"
  by (rule only_replicas_form [OF assms], simp add: steady_def calm_def armed_def live_fence_def lease_inv_def stored_def
      keyed_def plans_def row_of_def rows_for_def)+

text \<open>The identifiers of both tables are primary keys.\<close>

definition keyed_replicas :: "'s replica_store_scheme \<Rightarrow> bool" where
  "keyed_replicas s \<longleftrightarrow> distinct (map ax_id (artifact_rows s)) \<and> distinct (map wx_id (world_rows s))"

definition replica_ids :: "'s replica_store_scheme \<Rightarrow> string set \<times> string set" where
  "replica_ids s = (ax_id ` set (artifact_rows s), wx_id ` set (world_rows s))"

definition artifact_key :: "target_plan \<Rightarrow> content_artifact \<Rightarrow> string" where
  "artifact_key t a = artifact_replica_id (tg_target t) (tg_installation t) (af_workshop a) (af_tree a)"

definition world_mod_key :: "target_plan \<Rightarrow> world_plan \<times> content_artifact \<Rightarrow> string" where
  "world_mod_key t wa = world_replica_id (wp_room (fst wa)) (wp_world (fst wa)) (tg_target t) (tg_installation t)
     (af_workshop (snd wa)) (af_tree (snd wa)) (hash_bytes (wp_overrides (fst wa)))"

definition replicated :: "target_plan \<Rightarrow> 's replica_store_scheme \<Rightarrow> bool" where
  "replicated t s \<longleftrightarrow> artifact_key t ` set (tg_mods t) \<subseteq> fst (replica_ids s) \<and>
     world_mod_key t ` set (target_world_mods t) \<subseteq> snd (replica_ids s)"

lemma each_goes:
  assumes "P s" and "\<And>x s. x \<in> set xs \<Longrightarrow> P s \<Longrightarrow> \<exists>s'. f x s = (Inr (), s') \<and> P s' \<and> R s s' \<and> Q x s'"
    and "\<And>s. R s s" and "\<And>s s1 s2. R s s1 \<Longrightarrow> R s1 s2 \<Longrightarrow> R s s2" and "\<And>x s s'. R s s' \<Longrightarrow> Q x s \<Longrightarrow> Q x s'"
  shows "\<exists>s'. each f xs s = (Inr (), s') \<and> P s' \<and> R s s' \<and> (\<forall>x \<in> set xs. Q x s')"
  using assms(1,2)
proof (induction xs arbitrary: s)
  case Nil
  then show ?case using assms(3) by simp
next
  case (Cons x xs)
  from Cons.prems obtain s1 where s1: "f x s = (Inr (), s1)" "P s1" "R s s1" "Q x s1"
    using list.set_intros(1) [of x xs] by blast
  have "\<exists>s'. each f xs s1 = (Inr (), s') \<and> P s' \<and> R s1 s' \<and> (\<forall>x \<in> set xs. Q x s')"
    by (rule Cons.IH [OF s1(2) Cons.prems(2)]) simp_all
  then obtain s2 where s2: "each f xs s1 = (Inr (), s2)" "P s2" "R s1 s2" "\<forall>x \<in> set xs. Q x s2" by blast
  show ?case
  proof (intro exI conjI)
    show "each f (x # xs) s = (Inr (), s2)" using s1(1) s2(1) by (simp add: andthen_def)
    show "P s2" by fact
    show "R s s2" by (rule assms(4) [OF s1(3) s2(3)])
    show "\<forall>y \<in> set (x # xs). Q y s2" using s2(4) assms(5) [OF s2(3) s1(4)] by simp
  qed
qed

definition replicates :: "int \<Rightarrow> 's replica_store_scheme \<Rightarrow> bool" where
  "replicates ttl s \<longleftrightarrow> steady ttl s \<and> keyed_replicas s"

definition grows :: "'s replica_store_scheme \<Rightarrow> 's replica_store_scheme \<Rightarrow> bool" where
  "grows s s' \<longleftrightarrow> only_replicas s s' \<and> fst (replica_ids s) \<subseteq> fst (replica_ids s') \<and> snd (replica_ids s) \<subseteq> snd (replica_ids s')"

lemma grows_refl [simp]: "grows s s"
  by (simp add: grows_def)

lemma grows_trans: "grows s s1 \<Longrightarrow> grows s1 s2 \<Longrightarrow> grows s s2"
  unfolding grows_def using only_replicas_trans by blast

lemma grows_replicated: "grows s s' \<Longrightarrow> replicated t s \<Longrightarrow> replicated t s'"
  by (auto simp: grows_def replicated_def)

lemma image_update_where: "(\<And>r. k (f r) = k r) \<Longrightarrow> k ` set (update_where P f rows) = k ` set rows"
  using map_update_where [of rows P k f] by (metis list.set_map)

lemma upsert_artifact_steady:
  assumes "replicates ttl s"
  shows "\<exists>s'. upsert_artifact d s = (Inr (), s') \<and> replicates ttl s' \<and> grows s s' \<and> ax_id d \<in> fst (replica_ids s')"
  using assms
  by (auto simp: upsert_artifact_def andthen_def statement_def receive_def query_def modify_def Let_def replicates_def grows_def
      steadyD(1) keyed_replicas_def replica_ids_def map_update_where image_update_where)

lemma upsert_world_steady:
  assumes "replicates ttl s"
  shows "\<exists>s'. upsert_world d s = (Inr (), s') \<and> replicates ttl s' \<and> grows s s' \<and> wx_id d \<in> snd (replica_ids s')"
  using assms
  by (auto simp: upsert_world_def andthen_def statement_def receive_def query_def modify_def Let_def replicates_def grows_def
      steadyD(1) keyed_replicas_def replica_ids_def map_update_where image_update_where)

lemma exactly_one_artifact:
  assumes "replicates ttl s" and "k \<in> fst (replica_ids s)" and "\<And>r. ax_id (f r) = ax_id r"
  shows "\<exists>s'. exactly_one (update_artifact (\<lambda>r. ax_id r = k) f) s = (Inr (), s') \<and> replicates ttl s' \<and> only_replicas s s' \<and>
    replica_ids s' = replica_ids s"
proof -
  have "count_where (\<lambda>r. ax_id r = k) (artifact_rows s) \<noteq> 0" using assms(2) by (auto simp: replica_ids_def)
  moreover have "count_where (\<lambda>r. ax_id r = k) (artifact_rows s) \<le> 1"
    by (rule count_where_key_le_1 [of ax_id _ _ k]) (use assms(1) in \<open>simp_all add: replicates_def keyed_replicas_def\<close>)
  ultimately have "count_where (\<lambda>r. ax_id r = k) (artifact_rows s) = 1" by linarith
  then show ?thesis using assms(1,3)
    by (simp add: exactly_one_def update_artifact_def update_world_def andthen_def statement_def receive_def query_def modify_def
        guard_def Let_def replicates_def steadyD(1) [of ttl] keyed_replicas_def replica_ids_def map_update_where image_update_where)
qed

lemma exactly_one_world:
  assumes "replicates ttl s" and "k \<in> snd (replica_ids s)" and "\<And>r. wx_id (f r) = wx_id r"
  shows "\<exists>s'. exactly_one (update_world (\<lambda>r. wx_id r = k) f) s = (Inr (), s') \<and> replicates ttl s' \<and> only_replicas s s' \<and>
    replica_ids s' = replica_ids s"
proof -
  have "count_where (\<lambda>r. wx_id r = k) (world_rows s) \<noteq> 0" using assms(2) by (auto simp: replica_ids_def)
  moreover have "count_where (\<lambda>r. wx_id r = k) (world_rows s) \<le> 1"
    by (rule count_where_key_le_1 [of wx_id _ _ k]) (use assms(1) in \<open>simp_all add: replicates_def keyed_replicas_def\<close>)
  ultimately have "count_where (\<lambda>r. wx_id r = k) (world_rows s) = 1" by linarith
  then show ?thesis using assms(1,3)
    by (simp add: exactly_one_def update_artifact_def update_world_def andthen_def statement_def receive_def query_def modify_def
        guard_def Let_def replicates_def steadyD(1) [of ttl] keyed_replicas_def replica_ids_def map_update_where image_update_where)
qed

lemma only_replicas_step_left [simp]: "only_replicas (s\<lparr>step := n\<rparr>) s' = only_replicas s s'"
proof
  show "only_replicas (s\<lparr>step := n\<rparr>) s' \<Longrightarrow> only_replicas s s'"
    by (rule only_replicas_trans [of s "s\<lparr>step := n\<rparr>"]) simp_all
  have "only_replicas (s\<lparr>step := n\<rparr>) s" by (simp add: only_replicas_def)
  then show "only_replicas s s' \<Longrightarrow> only_replicas (s\<lparr>step := n\<rparr>) s'" by (rule only_replicas_trans)
qed

lemma upserts_steady:
  assumes "replicates ttl s"
  shows "\<exists>s'. each (\<lambda>t. andthen (each (\<lambda>a. upsert_artifact (desired_artifact t a h now)) (tg_mods t)) (\<lambda>_.
      each (\<lambda>(w, a). upsert_world (desired_world t w a h now)) (target_world_mods t))) ts s = (Inr (), s') \<and>
    replicates ttl s' \<and> grows s s' \<and> (\<forall>t \<in> set ts. replicated t s')"
proof (rule each_goes [where P = "replicates ttl" and R = grows and Q = replicated])
  fix t and s :: "'a replica_store_scheme"
  assume s: "replicates ttl s"
  have "\<exists>s'. each (\<lambda>a. upsert_artifact (desired_artifact t a h now)) (tg_mods t) s = (Inr (), s') \<and> replicates ttl s' \<and>
      grows s s' \<and> (\<forall>a \<in> set (tg_mods t). artifact_key t a \<in> fst (replica_ids s'))"
  proof (rule each_goes [where P = "replicates ttl" and R = grows and Q = "\<lambda>a s. artifact_key t a \<in> fst (replica_ids s)"])
    fix a and s :: "'a replica_store_scheme"
    assume "replicates ttl s"
    from upsert_artifact_steady [OF this, of "desired_artifact t a h now"]
    show "\<exists>s'. upsert_artifact (desired_artifact t a h now) s = (Inr (), s') \<and> replicates ttl s' \<and> grows s s' \<and>
        artifact_key t a \<in> fst (replica_ids s')"
      by (simp add: desired_artifact_def artifact_key_def)
  qed (auto simp: s grows_def intro: only_replicas_trans)
  then obtain s1 where s1: "each (\<lambda>a. upsert_artifact (desired_artifact t a h now)) (tg_mods t) s = (Inr (), s1)"
    "replicates ttl s1" "grows s s1" "\<forall>a \<in> set (tg_mods t). artifact_key t a \<in> fst (replica_ids s1)" by blast
  have "\<exists>s'. each (\<lambda>(w, a). upsert_world (desired_world t w a h now)) (target_world_mods t) s1 = (Inr (), s') \<and> replicates ttl s' \<and>
      grows s1 s' \<and> (\<forall>x \<in> set (target_world_mods t). world_mod_key t x \<in> snd (replica_ids s'))"
  proof (rule each_goes [where P = "replicates ttl" and R = grows and Q = "\<lambda>x s. world_mod_key t x \<in> snd (replica_ids s)"])
    fix x and s :: "'a replica_store_scheme"
    assume "replicates ttl s"
    from upsert_world_steady [OF this, of "desired_world t (fst x) (snd x) h now"]
    show "\<exists>s'. (\<lambda>(w, a). upsert_world (desired_world t w a h now)) x s = (Inr (), s') \<and> replicates ttl s' \<and> grows s s' \<and>
        world_mod_key t x \<in> snd (replica_ids s')"
      by (simp add: desired_world_def world_mod_key_def Let_def case_prod_unfold)
  qed (auto simp: s1 grows_def intro: only_replicas_trans)
  then obtain s2 where s2: "each (\<lambda>(w, a). upsert_world (desired_world t w a h now)) (target_world_mods t) s1 = (Inr (), s2)"
    "replicates ttl s2" "grows s1 s2" "\<forall>x \<in> set (target_world_mods t). world_mod_key t x \<in> snd (replica_ids s2)" by blast
  have "replicated t s2" using s1(4) s2(3,4) by (auto simp: replicated_def grows_def)
  then show "\<exists>s'. andthen (each (\<lambda>a. upsert_artifact (desired_artifact t a h now)) (tg_mods t)) (\<lambda>_.
      each (\<lambda>(w, a). upsert_world (desired_world t w a h now)) (target_world_mods t)) s = (Inr (), s') \<and>
      replicates ttl s' \<and> grows s s' \<and> replicated t s'"
    using s1(1) s2(1,2) grows_trans [OF s1(3) s2(3)] by (intro exI [of _ s2]) (simp add: andthen_def)
qed (auto simp: assms intro: grows_trans grows_replicated)

text \<open>Only worlds nobody wants any more are deleted.\<close>

definition keeps :: "string set \<Rightarrow> 's replica_store_scheme \<Rightarrow> 's replica_store_scheme \<Rightarrow> bool" where
  "keeps wanted s s' \<longleftrightarrow> only_replicas s s' \<and> artifact_rows s' = artifact_rows s \<and>
     snd (replica_ids s) \<inter> wanted \<subseteq> snd (replica_ids s')"

lemma cleanup_steady:
  assumes "replicates ttl s"
  shows "\<exists>s'. each (\<lambda>r. if wx_id r \<in> wanted then return_ok ()
      else andthen statement (\<lambda>_. modify (\<lambda>s. s\<lparr>world_rows := filter (\<lambda>x. wx_id x \<noteq> wx_id r) (world_rows s)\<rparr>))) rows s = (Inr (), s') \<and>
    replicates ttl s' \<and> keeps wanted s s' \<and> (\<forall>r \<in> set rows. True)"
proof (rule each_goes [where P = "replicates ttl" and R = "keeps wanted" and Q = "\<lambda>_ _. True"])
  fix r and s :: "'a replica_store_scheme"
  assume s: "replicates ttl s"
  show "\<exists>s'. (if wx_id r \<in> wanted then return_ok ()
      else andthen statement (\<lambda>_. modify (\<lambda>s. s\<lparr>world_rows := filter (\<lambda>x. wx_id x \<noteq> wx_id r) (world_rows s)\<rparr>))) s = (Inr (), s') \<and>
    replicates ttl s' \<and> keeps wanted s s' \<and> True"
    using s by (auto simp: andthen_def statement_def receive_def modify_def Let_def replicates_def steadyD(1) [of ttl]
        keyed_replicas_def keeps_def replica_ids_def distinct_map_filter)
qed (auto simp: assms keeps_def intro: only_replicas_trans)

lemma set_desired_steady:
  assumes "replicates ttl s" and "plan_check p = None"
  obtains s' where "set_desired p s = (Inr (), s')" and "replicates ttl s'" and "only_replicas s s'"
    and "\<forall>t \<in> set (pn_targets p). replicated t s'"
proof -
  let ?now = "clock s (step s)" and ?s = "s\<lparr>step := Suc (Suc (step s))\<rparr>"
  let ?wanted = "concat (map (\<lambda>t. map (\<lambda>(w, a). wx_id (desired_world t w a (pn_hash p) ?now)) (target_world_mods t)) (pn_targets p))"
  have s: "replicates ttl (s\<lparr>step := n\<rparr>)" for n using assms(1) by (simp add: replicates_def keyed_replicas_def)
  from upserts_steady [OF s, of "pn_hash p" ?now "pn_targets p" "Suc (Suc (step s))"]
  obtain s1 where s1: "each (\<lambda>t. andthen (each (\<lambda>a. upsert_artifact (desired_artifact t a (pn_hash p) ?now)) (tg_mods t)) (\<lambda>_.
      each (\<lambda>(w, a). upsert_world (desired_world t w a (pn_hash p) ?now)) (target_world_mods t))) (pn_targets p) ?s = (Inr (), s1)"
    "replicates ttl s1" "grows ?s s1" "\<forall>t \<in> set (pn_targets p). replicated t s1" by blast
  have s1': "replicates ttl (s1\<lparr>step := n\<rparr>)" for n using s1(2) by (simp add: replicates_def keyed_replicas_def)
  let ?existing = "filter (\<lambda>r. wx_room r = pn_room p) (world_rows s1)"
  from cleanup_steady [OF s1', of "set ?wanted" ?existing "Suc (step s1)"]
  obtain s2 where s2: "each (\<lambda>r. if wx_id r \<in> set ?wanted then return_ok ()
      else andthen statement (\<lambda>_. modify (\<lambda>s. s\<lparr>world_rows := filter (\<lambda>x. wx_id x \<noteq> wx_id r) (world_rows s)\<rparr>))) ?existing
      (s1\<lparr>step := Suc (step s1)\<rparr>) = (Inr (), s2)" "replicates ttl s2" "keeps (set ?wanted) (s1\<lparr>step := Suc (step s1)\<rparr>) s2"
    by blast
  have ids: "replica_ids (s1\<lparr>step := n\<rparr>) = replica_ids s1" for n by (simp add: replica_ids_def)
  have s2': "replicates ttl (s2\<lparr>step := n\<rparr>)" for n using s2(2) by (simp add: replicates_def keyed_replicas_def)
  show thesis
  proof (rule that)
    show "set_desired p s = (Inr (), s2\<lparr>step := Suc (step s2)\<rparr>)"
      using s1(1) s2(1) assms(2) s1(2) s2(2) assms(1)
      by (simp add: set_desired_def set_desired_tx_def transaction_def andthen_def guard_def read_now_def external_def
          statement_def receive_def query_def Let_def replicates_def steadyD(1) [of ttl])
    show "replicates ttl (s2\<lparr>step := Suc (step s2)\<rparr>)" by (rule s2')
    have "only_replicas s s1" using s1(3) by (simp add: grows_def)
    moreover have "only_replicas s1 s2" using s2(3) by (simp add: keeps_def)
    ultimately show "only_replicas s (s2\<lparr>step := Suc (step s2)\<rparr>)" using only_replicas_trans by simp
    show "\<forall>t \<in> set (pn_targets p). replicated t (s2\<lparr>step := Suc (step s2)\<rparr>)"
    proof
      fix t
      assume t: "t \<in> set (pn_targets p)"
      have "world_mod_key t ` set (target_world_mods t) \<subseteq> set ?wanted"
        using t by (force simp: world_mod_key_def desired_world_def Let_def)
      moreover have "snd (replica_ids s1) \<inter> set ?wanted \<subseteq> snd (replica_ids s2)"
        using s2(3) unfolding keeps_def ids by blast
      moreover have "fst (replica_ids s2) = fst (replica_ids s1)" using s2(3) by (simp add: keeps_def replica_ids_def)
      ultimately have "replicated t s2" using s1(4) [rule_format, OF t] unfolding replicated_def by blast
      then show "replicated t (s2\<lparr>step := Suc (step s2)\<rparr>)" by (simp add: replicated_def replica_ids_def)
    qed
  qed
qed

lemma update_target_steady:
  assumes "replicates ttl s" and t: "replicated t s" and "valid_id (tg_target t)" and "valid_id (tg_installation t)"
    and "trim_space revision \<noteq> []"
  obtains s' where "update_target t revision stage cached published configured message s = (Inr (), s')"
    and "replicates ttl s'" and "only_replicas s s'" and "replica_ids s' = replica_ids s"
proof -
  let ?now = "clock s (step s)"
  let ?R = "\<lambda>s s'. only_replicas s s' \<and> replica_ids s' = replica_ids s"
  let ?P = "\<lambda>s'. replicates ttl s' \<and> replica_ids s' = replica_ids s"
  let ?art = "\<lambda>a. exactly_one (update_artifact
      (\<lambda>r. ax_id r = artifact_replica_id (tg_target t) (tg_installation t) (af_workshop a) (af_tree a))
      (marked_artifact stage cached published revision message ?now))"
  let ?world = "\<lambda>(w, a). exactly_one (update_world
      (\<lambda>r. wx_id r = world_replica_id (wp_room w) (wp_world w) (tg_target t) (tg_installation t) (af_workshop a)
        (af_tree a) (hash_bytes (wp_overrides w)))
      (marked_world stage configured revision message ?now))"
  have "\<exists>s'. each ?art (tg_mods t) (s\<lparr>step := Suc (Suc (step s))\<rparr>) = (Inr (), s') \<and> ?P s' \<and>
      ?R (s\<lparr>step := Suc (Suc (step s))\<rparr>) s' \<and> (\<forall>a \<in> set (tg_mods t). True)"
  proof (rule each_goes [where P = ?P and R = ?R and Q = "\<lambda>_ _. True"])
    fix a and s1 :: "'a replica_store_scheme"
    assume a: "a \<in> set (tg_mods t)" and s1: "?P s1"
    then have "artifact_replica_id (tg_target t) (tg_installation t) (af_workshop a) (af_tree a) \<in> fst (replica_ids s1)"
      using t by (auto simp: replicated_def artifact_key_def)
    from exactly_one_artifact [OF conjunct1 [OF s1] this, of "marked_artifact stage cached published revision message ?now"]
    show "\<exists>s'. ?art a s1 = (Inr (), s') \<and> ?P s' \<and> ?R s1 s' \<and> True"
      using s1 by (simp add: marked_artifact_def) metis
  qed (use assms(1) in \<open>auto simp: replicates_def keyed_replicas_def replica_ids_def intro: only_replicas_trans\<close>)
  then obtain s1 where s1: "each ?art (tg_mods t) (s\<lparr>step := Suc (Suc (step s))\<rparr>) = (Inr (), s1)" "?P s1" "only_replicas s s1"
    by auto
  have "\<exists>s'. each ?world (target_world_mods t) s1 = (Inr (), s') \<and> ?P s' \<and> ?R s1 s' \<and>
      (\<forall>x \<in> set (target_world_mods t). True)"
  proof (rule each_goes [where P = ?P and R = ?R and Q = "\<lambda>_ _. True"])
    fix x and s1 :: "'a replica_store_scheme"
    assume x: "x \<in> set (target_world_mods t)" and s1: "?P s1"
    then have "world_mod_key t x \<in> snd (replica_ids s1)" using t by (auto simp: replicated_def)
    from exactly_one_world [OF conjunct1 [OF s1] this, of "marked_world stage configured revision message ?now"]
    show "\<exists>s'. ?world x s1 = (Inr (), s') \<and> ?P s' \<and> ?R s1 s' \<and> True"
      using s1 by (simp add: marked_world_def world_mod_key_def case_prod_unfold Let_def) metis
  qed (use s1 in \<open>auto intro: only_replicas_trans\<close>)
  then obtain s2 where s2: "each ?world (target_world_mods t) s1 = (Inr (), s2)" "?P s2" "only_replicas s1 s2" by auto
  show thesis
  proof (rule that)
    show "update_target t revision stage cached published configured message s = (Inr (), s2\<lparr>step := Suc (step s2)\<rparr>)"
      using s1(1,2) s2(1,2) assms
      by (simp add: update_target_def transaction_def andthen_def guard_def read_now_def external_def replicates_def
          steadyD(1) [of ttl] case_prod_unfold)
    show "replicates ttl (s2\<lparr>step := Suc (step s2)\<rparr>)" using s2(2) by (simp add: replicates_def keyed_replicas_def)
    show "only_replicas s (s2\<lparr>step := Suc (step s2)\<rparr>)" using only_replicas_trans [OF s1(3) s2(3)] by simp
    show "replica_ids (s2\<lparr>step := Suc (step s2)\<rparr>) = replica_ids s" using s2(2) by (simp add: replica_ids_def)
  qed
qed

end
