(* ===== verification/Mod_Progress.thy ===== *)
theory Mod_Progress
  imports Mod_Steady
begin

text \<open>
  A publication that nothing disturbs goes through: when no call fails, the leases are free and the stores accept
  the plan, every target is prepared, published and completed, in this order, and the publication succeeds. Its
  example shows that the hypotheses of the theorems on transactions can hold.
\<close>

section \<open>A running publication\<close>

definition graphic :: "char \<Rightarrow> bool" where
  "graphic c \<longleftrightarrow> 33 \<le> (of_char c :: nat) \<and> (of_char c :: nat) \<le> 126"

lemma go_space_ends: "list_all (\<lambda>w. w \<noteq> [] \<and> \<not> graphic (hd w) \<and> \<not> graphic (last w)) go_spaces"
  by code_simp

lemma trim_space_graphic:
  assumes "\<And>c. c \<in> set s \<Longrightarrow> graphic c"
  shows "trim_space s = s"
proof (rule trim_space_id)
  fix w
  assume "w \<in> set go_spaces"
  with go_space_ends have w: "w \<noteq> []" "\<not> graphic (hd w)" "\<not> graphic (last w)" by (auto simp: list_all_iff)
  have "has_prefix t v \<Longrightarrow> set v \<subseteq> set t" for t v by (metis has_prefix_def set_take_subset)
  from this [of s w] this [of "rev s" "rev w"] have "has_prefix s w \<or> has_suffix s w \<Longrightarrow> set w \<subseteq> set s"
    by (auto simp: has_suffix_def)
  with w hd_in_set [OF w(1)] assms show "\<not> has_prefix s w \<and> \<not> has_suffix s w" by blast
qed

lemma valid_sha_trim: "valid_sha h \<Longrightarrow> trim_space h = h"
  by (rule trim_space_graphic) (auto simp: valid_sha_def hex_decodes_def list_all_iff is_hex_def graphic_def Let_def)

definition running :: "coordinator \<Rightarrow> string \<Rightarrow> mod_plan \<Rightarrow> fence list \<Rightarrow> 's pub_system_scheme \<Rightarrow> bool" where
  "running c pid p fs s \<longleftrightarrow> armed (co_ttl c) fs s \<and> stored pid p s \<and>
     (co_replicas c \<longrightarrow> keyed_replicas s \<and> (\<forall>t \<in> set (pn_targets p). replicated t s))"

lemma running_writable: "running c pid p fs s \<Longrightarrow> writable (map fc_expires fs)"
  by (auto simp: running_def armed_writable)

lemma running_steady: "running c pid p fs s \<Longrightarrow> steady (co_ttl c) s"
  by (simp add: running_def armed_def)

lemma replicated_tables [simp]:
  "replicated t (s\<lparr>step := n\<rparr>) = replicated t s" "replicated t (s\<lparr>target_rows := trs\<rparr>) = replicated t s"
  "replicated t (s\<lparr>pub_rows := prs\<rparr>) = replicated t s" "replicated t (s\<lparr>lease_rows := ls\<rparr>) = replicated t s"
  "replicated t (s'\<lparr>runtime_log := es\<rparr>) = replicated t s'"
  by (simp_all add: replicated_def replica_ids_def)

lemma keyed_replicas_tables [simp]:
  "keyed_replicas (s\<lparr>step := n\<rparr>) = keyed_replicas s" "keyed_replicas (s\<lparr>target_rows := trs\<rparr>) = keyed_replicas s"
  "keyed_replicas (s\<lparr>pub_rows := prs\<rparr>) = keyed_replicas s" "keyed_replicas (s\<lparr>lease_rows := ls\<rparr>) = keyed_replicas s"
  "keyed_replicas (s'\<lparr>runtime_log := es\<rparr>) = keyed_replicas s'"
  by (simp_all add: keyed_replicas_def)

lemma running_step [simp]: "running c pid p fs (s\<lparr>step := n\<rparr>) = running c pid p fs s"
  by (simp add: running_def)

lemma running_renew:
  assumes "running c pid p fs s"
  obtains gs s' where "renew_fences (co_ttl c) fs s = (Inr (gs, []) :: 'f + _, s')" and "running c pid p gs s'"
    and "rd_backups s' = rd_backups s"
proof -
  from assms have "armed (co_ttl c) fs s" by (simp add: running_def)
  then obtain gs s' where got: "renew_fences (co_ttl c) fs s = (Inr (gs, []) :: 'f + _, s')" "armed (co_ttl c) gs s'" "only_leases s s'"
    by (rule renew_armed)
  then have "running c pid p gs s'" "rd_backups s' = rd_backups s" using assms by (auto simp: running_def only_leases_def)
  with got(1) show thesis by (rule that)
qed

lemma running_call:
  assumes "running c pid p fs s"
  obtains s' where "target_call kind v t gs a s = (Inr (), s')" and "running c pid p fs s'"
proof -
  have "\<not> fault s (step s)" using assms by (auto dest: running_steady steadyD(1))
  then have run: "target_call kind v t gs a s = (Inr (), s\<lparr>step := Suc (step s), runtime_log := runtime_log s @
      [\<lparr>re_step = kind, re_key = target_plan_key t, re_operation = operation v t gs a, re_ok = True\<rparr>]\<rparr>)"
    by (simp add: target_call_def runtime_call_def Let_def)
  show thesis by (rule that [OF run]) (use assms in \<open>simp add: running_def\<close>)
qed

lemma running_mark:
  assumes "running c pid p fs s" and "t \<in> set (pn_targets p)"
  obtains s' where "with_replicas c (update_target t (pn_hash p) stage cached published configured message) s = (Inr (), s')"
    and "running c pid p fs s'"
proof (cases "co_replicas c")
  case True
  from assms(1) have p: "plan_check p = None" by (auto simp: running_def stored_def storable_def)
  with assms(2) have ids: "valid_id (tg_target t)" "valid_id (tg_installation t)" and h: "valid_sha (pn_hash p)"
    by (auto simp: plan_check_plan_wf plan_wf_def target_wf_def target_ids_ok_def plan_header_ok_def)
  then have "trim_space (pn_hash p) \<noteq> []" using valid_sha_trim [OF h] by (auto simp: valid_sha_def)
  moreover have "replicates (co_ttl c) s" "replicated t s"
    using assms True by (auto simp: replicates_def running_def armed_def)
  ultimately obtain s' where s': "update_target t (pn_hash p) stage cached published configured message s = (Inr (), s')"
    "replicates (co_ttl c) s'" "only_replicas s s'" "replica_ids s' = replica_ids s"
    using update_target_steady [of "co_ttl c" s t "pn_hash p"] ids by metis
  then have "running c pid p fs s'"
    using assms(1) True by (simp add: running_def only_replicas_same replicates_def replicated_def)
  with s'(1) True show thesis by (intro that) (simp_all add: with_replicas_def)
next
  case False
  with assms(1) show thesis by (intro that [of s]) (simp_all add: with_replicas_def)
qed

lemma running_save_target:
  assumes "running c pid p fs s" and "(pt_target t, pt_installation t) \<in> set (plan_pairs p)" and "pt_status t \<noteq> Pub_Unset"
  obtains t' s' where "save_target pid t s = (Inr t', s')" and "running c pid p fs s'"
    and "(pt_target t', pt_installation t') \<in> set (plan_pairs p)"
proof -
  from assms(1) have "stored pid p s" by (simp add: running_def)
  from save_target_stored [OF running_steady [OF assms(1)] this assms(2,3)]
  obtain t' rows n where got: "save_target pid t s = (Inr t', s\<lparr>step := n, target_rows := rows\<rparr>)"
    "stored pid p (s\<lparr>target_rows := rows\<rparr>)" "pt_target t' = pt_target t" "pt_installation t' = pt_installation t" by blast
  show thesis by (rule that [OF got(1)]) (use assms got in \<open>auto simp: running_def\<close>)
qed

lemma running_save:
  assumes "running c pid p fs s" and "publication_fits pid p v"
  obtains v' s' where "store_save v s = (Inr v', s')" and "running c pid p fs s'" and "publication_fits pid p v'"
    and "pb_status v' = pb_status v" and "pb_decision v' = pb_decision v" and "rd_backups s' = rd_backups s"
proof -
  from assms(1) have "stored pid p s" by (simp add: running_def)
  from store_save_stored [OF running_steady [OF assms(1)] this assms(2)]
  obtain v' n rows where got: "store_save v s = (Inr v', s\<lparr>step := n, pub_rows := rows\<rparr>)"
    "stored pid p (s\<lparr>step := n, pub_rows := rows\<rparr>)" "publication_fits pid p v'"
    "pb_status v' = pb_status v" "pb_decision v' = pb_decision v" by blast
  show thesis by (rule that [OF got(1)]) (use assms(1) got in \<open>auto simp: running_def\<close>)
qed

lemma fits_set_target:
  "publication_fits pid p v \<Longrightarrow> (pt_target t, pt_installation t) \<in> set (plan_pairs p) \<Longrightarrow>
   publication_fits pid p (set_target v i t)"
  by (auto simp: publication_fits_def set_target_def dest!: subsetD [OF set_update_subset_insert])

lemma fits_pair:
  "publication_fits pid p v \<Longrightarrow> i < length (pn_targets p) \<Longrightarrow>
   (pt_target (pb_targets v ! i), pt_installation (pb_targets v ! i)) \<in> set (plan_pairs p)"
  by (auto simp: publication_fits_def)

lemma fits_fields:
  "publication_fits pid p v \<Longrightarrow> pb_id v = pid \<and> pb_plan v = p \<and> length (pb_targets v) = length (pn_targets p)"
  by (simp add: publication_fits_def)

lemma prepare_target_goes:
  assumes run: "running c pid p fs s" and fits: "publication_fits pid p v" and i: "i < length (pn_targets p)"
    and t: "t \<in> set (pn_targets p)"
  shows "\<exists>v' fs' s'. prepare_target c i t v fs s = (Inr (v', fs'), s') \<and> running c pid p fs' s' \<and> publication_fits pid p v' \<and>
    pb_decision v' = pb_decision v"
proof -
  obtain fs1 s1 where s1: "renew_fences (co_ttl c) fs s = (Inr (fs1, []) :: publication \<times> errs + _, s1)" "running c pid p fs1 s1"
    by (rule running_renew [OF run])
  let ?v = "v\<lparr>pb_fences := fs1\<rparr>"
  have v: "publication_fits pid p ?v" using fits running_writable [OF s1(2)] by (simp add: publication_fits_def)
  note f = fits_fields [OF fits]
  obtain s2 where s2: "target_call Step_Cache ?v t fs1 ''ensure-cache'' s1 = (Inr (), s2)" "running c pid p fs1 s2"
    by (rule running_call [OF s1(2)])
  obtain s3 where s3: "with_replicas c (mark_cache t (pn_hash p)) s2 = (Inr (), s3)" "running c pid p fs1 s3"
    unfolding mark_cache_def by (rule running_mark [OF s2(2) t])
  let ?s3 = "s3\<lparr>step := Suc (step s3)\<rparr>"
  let ?t1 = "(pb_targets v ! i)\<lparr>pt_cached := True, pt_status := Pub_Preparing, pt_updated := clock s3 (step s3)\<rparr>"
  let ?v1 = "set_target ?v i ?t1"
  have v1: "publication_fits pid p ?v1" by (rule fits_set_target [OF v]) (simp add: fits_pair [OF fits i])
  have t1: "pb_targets ?v1 ! i = ?t1" using i f by (simp add: set_target_def)
  obtain t2 s4 where s4: "save_target pid ?t1 ?s3 = (Inr t2, s4)" "running c pid p fs1 s4"
    "(pt_target t2, pt_installation t2) \<in> set (plan_pairs p)"
    by (rule running_save_target [of c pid p fs1 ?s3 ?t1]) (use s3 fits_pair [OF fits i] in simp_all)
  let ?v2 = "set_target ?v1 i t2"
  have v2: "publication_fits pid p ?v2" by (rule fits_set_target [OF v1 s4(3)])
  have t2: "pb_targets ?v2 ! i = t2" using i f by (simp add: set_target_def)
  obtain s5 where s5: "target_call Step_Prepare ?v2 t fs1 ''prepare'' s4 = (Inr (), s5)" "running c pid p fs1 s5"
    by (rule running_call [OF s4(2)])
  let ?s5 = "s5\<lparr>step := Suc (step s5)\<rparr>"
  let ?t3 = "t2\<lparr>pt_prepared := True, pt_prepared_at := Some (clock s5 (step s5)), pt_status := Pub_Prepared,
    pt_updated := clock s5 (step s5)\<rparr>"
  let ?v3 = "set_target ?v2 i ?t3"
  have v3: "publication_fits pid p ?v3" by (rule fits_set_target [OF v2]) (simp add: s4(3))
  have t3: "pb_targets ?v3 ! i = ?t3" using i f by (simp add: set_target_def)
  obtain t4 s6 where s6: "save_target pid ?t3 ?s5 = (Inr t4, s6)" "running c pid p fs1 s6"
    "(pt_target t4, pt_installation t4) \<in> set (plan_pairs p)"
    by (rule running_save_target [of c pid p fs1 ?s5 ?t3]) (use s5 s4(3) in simp_all)
  have v4: "publication_fits pid p (set_target ?v3 i t4)" by (rule fits_set_target [OF v3 s6(3)])
  have ids: "pb_id ?v1 = pid" "pb_id ?v3 = pid" "pb_plan ?v = p" using f by (simp_all add: set_target_def)
  have "prepare_target c i t v fs s = (Inr (set_target ?v3 i t4, fs1), s6)"
    unfolding prepare_target_def Let_def
    by (simp add: andthen_def on_error_def read_now_def s1(1) s2(1) s3(1) f t1 s4(1) ids s5(1) t2 t3 s6(1))
  moreover have "pb_decision (set_target ?v3 i t4) = pb_decision v" by (simp add: set_target_def)
  ultimately show ?thesis using s6(2) v4 by blast
qed

lemma prepare_targets_goes:
  assumes "running c pid p fs s" and "publication_fits pid p v" and "i + length ts = length (pn_targets p)"
    and "set ts \<subseteq> set (pn_targets p)"
  shows "\<exists>v' fs' s'. prepare_targets c i ts v fs s = (Inr (v', fs'), s') \<and> running c pid p fs' s' \<and> publication_fits pid p v' \<and>
    pb_decision v' = pb_decision v"
  using assms
proof (induction ts arbitrary: i v fs s)
  case (Cons t ts)
  have "i < length (pn_targets p)" "t \<in> set (pn_targets p)" using Cons.prems(3,4) by simp_all
  from prepare_target_goes [OF Cons.prems(1,2) this] obtain v1 fs1 s1 where
    one: "prepare_target c i t v fs s = (Inr (v1, fs1), s1)" "running c pid p fs1 s1" "publication_fits pid p v1"
      "pb_decision v1 = pb_decision v" by blast
  have "\<exists>v' fs' s'. prepare_targets c (Suc i) ts v1 fs1 s1 = (Inr (v', fs'), s') \<and> running c pid p fs' s' \<and>
      publication_fits pid p v' \<and> pb_decision v' = pb_decision v1"
    using Cons.IH [OF one(2,3)] Cons.prems(3,4) by simp
  then show ?case using one(1,4) by (simp add: andthen_def)
qed simp

lemma publish_targets_goes:
  assumes "running c pid p (tx_fences tx) s" and "publication_fits pid p v" and "i + length ts = length (pn_targets p)"
    and "set ts \<subseteq> set (pn_targets p)"
  shows "\<exists>v' tx' s'. publish_targets c i ts v tx s = (Inr (v', tx'), s') \<and> running c pid p (tx_fences tx') s' \<and>
    publication_fits pid p v' \<and> pb_decision v' = pb_decision v \<and> pb_status v' = pb_status v \<and> tx_closed tx' = tx_closed tx"
  using assms
proof (induction ts arbitrary: i v tx s)
  case (Cons t ts)
  have i: "i < length (pn_targets p)" and t: "t \<in> set (pn_targets p)" using Cons.prems(3,4) by simp_all
  note v = Cons.prems(2)
  note f = fits_fields [OF v]
  obtain fs1 s1 where s1: "renew_fences (co_ttl c) (tx_fences tx) s = (Inr (fs1, []) :: transaction_handle \<times> string \<times> errs + _, s1)"
    "running c pid p fs1 s1" by (rule running_renew [OF Cons.prems(1)])
  obtain s2 where s2: "target_call Step_Publish v t fs1 ''publish'' s1 = (Inr (), s2)" "running c pid p fs1 s2"
    by (rule running_call [OF s1(2)])
  obtain s3 where s3: "with_replicas c (mark_published t (pn_hash p)) s2 = (Inr (), s3)" "running c pid p fs1 s3"
    unfolding mark_published_def by (rule running_mark [OF s2(2) t])
  let ?s3 = "s3\<lparr>step := Suc (step s3)\<rparr>"
  let ?t1 = "(pb_targets v ! i)\<lparr>pt_published := True, pt_published_at := Some (clock s3 (step s3)),
    pt_status := Pub_Publishing, pt_updated := clock s3 (step s3)\<rparr>"
  let ?v1 = "set_target v i ?t1"
  have v1: "publication_fits pid p ?v1" by (rule fits_set_target [OF v]) (simp add: fits_pair [OF v i])
  have t1: "pb_targets ?v1 ! i = ?t1" using i f by (simp add: set_target_def)
  obtain t2 s4 where s4: "save_target pid ?t1 ?s3 = (Inr t2, s4)" "running c pid p fs1 s4"
    "(pt_target t2, pt_installation t2) \<in> set (plan_pairs p)"
    by (rule running_save_target [of c pid p fs1 ?s3 ?t1]) (use s3 fits_pair [OF v i] in simp_all)
  let ?v2 = "set_target ?v1 i t2" and ?tx = "tx\<lparr>tx_fences := fs1\<rparr>"
  have v2: "publication_fits pid p ?v2" by (rule fits_set_target [OF v1 s4(3)])
  have "\<exists>v' tx' s'. publish_targets c (Suc i) ts ?v2 ?tx s4 = (Inr (v', tx'), s') \<and> running c pid p (tx_fences tx') s' \<and>
    publication_fits pid p v' \<and> pb_decision v' = pb_decision ?v2 \<and> pb_status v' = pb_status ?v2 \<and> tx_closed tx' = tx_closed ?tx"
    by (rule Cons.IH) (use s4(2) v2 Cons.prems(3,4) in simp_all)
  moreover have "pb_id ?v1 = pid" "pb_decision ?v2 = pb_decision v" "pb_status ?v2 = pb_status v"
    using f by (simp_all add: set_target_def)
  ultimately show ?case
    by (simp add: andthen_def on_error_def read_now_def Let_def s1(1) s2(1) s3(1) f t1 s4(1))
qed simp

definition completions :: "string \<Rightarrow> target_plan list \<Rightarrow> (runtime_step \<times> string \<times> string \<times> bool) list" where
  "completions pid ts = map (\<lambda>t. (Step_Complete, pid, target_plan_key t, True)) ts"

lemma complete_targets_goes:
  assumes "running c pid p fs s" and "publication_fits pid p v" and "i + length ts = length (pn_targets p)"
    and "set ts \<subseteq> set (pn_targets p)"
  shows "\<exists>v' fs' s' es. complete_targets c i ts v fs [] s = (Inr (v', fs', []) :: 'f + _, s') \<and> running c pid p fs' s' \<and>
    publication_fits pid p v' \<and> pb_decision v' = pb_decision v \<and> adds es s s' \<and> map call_of es = completions pid ts"
  using assms
proof (induction ts arbitrary: i v fs s)
  case Nil
  then show ?case by (auto intro!: exI [of _ "[]"] simp: adds_def completions_def)
next
  case (Cons t ts)
  have i: "i < length (pn_targets p)" and t: "t \<in> set (pn_targets p)" using Cons.prems(3,4) by simp_all
  note v = Cons.prems(2)
  note f = fits_fields [OF v]
  obtain fs1 s1 where s1: "renew_fences (co_ttl c) fs s = (Inr (fs1, []) :: 'f + _, s1)" "running c pid p fs1 s1"
    by (rule running_renew [OF Cons.prems(1)])
  obtain s2 where s2: "target_call Step_Complete v t fs1 ''complete'' s1 = (Inr (), s2)" "running c pid p fs1 s2"
    by (rule running_call [OF s1(2)])
  obtain s3 where s3: "with_replicas c (mark_completed t (pn_hash p)) s2 = (Inr (), s3)" "running c pid p fs1 s3"
    unfolding mark_completed_def by (rule running_mark [OF s2(2) t])
  let ?s3 = "s3\<lparr>step := Suc (Suc (step s3))\<rparr>"
  let ?t1 = "(completed_target (clock s3 (step s3)) (pb_targets v ! i))\<lparr>pt_updated := clock s3 (Suc (step s3))\<rparr>"
  let ?v1 = "set_target v i ?t1"
  have pair: "(pt_target ?t1, pt_installation ?t1) \<in> set (plan_pairs p)"
    using fits_pair [OF v i] by (simp add: completed_target_def)
  have v1: "publication_fits pid p ?v1" by (rule fits_set_target [OF v pair])
  obtain t2 s4 where s4: "save_target pid ?t1 ?s3 = (Inr t2, s4)" "running c pid p fs1 s4"
    by (rule running_save_target [of c pid p fs1 ?s3 ?t1]) (use s3 pair in \<open>simp_all add: completed_target_def\<close>)
  obtain v' fs' s' es where rest: "complete_targets c (Suc i) ts ?v1 fs1 [] s4 = (Inr (v', fs', []) :: 'f + _, s')"
    "running c pid p fs' s'" "publication_fits pid p v'" "pb_decision v' = pb_decision ?v1" "adds es s4 s'"
    "map call_of es = completions pid ts"
    using Cons.IH [OF s4(2) v1, of "Suc i"] Cons.prems(3,4) by auto
  from target_call_Inr [OF s2(1)] obtain e where e: "adds [e] s1 s2" "call_of e = (Step_Complete, pb_id v, target_plan_key t, True)"
    by auto
  have "adds [] s s1" by (rule adds_nothing [OF emits.fences_quiet(2) s1(1)])
  moreover have "adds [] s2 s3" by (rule adds_nothing [OF emits.marks(6) [OF emits.marks(3)] s3(1)])
  moreover have "adds [] s3 s4" using save_target_Inr [OF s4(1)] by simp
  ultimately have "adds ([e] @ es) s s'" using e(1) rest(5) by (simp add: adds_def)
  moreover have "map call_of ([e] @ es) = completions pid (t # ts)" using e(2) rest(6) f by (simp add: completions_def)
  moreover have "complete_targets c i (t # ts) v fs [] s = (Inr (v', fs', []) :: 'f + _, s')"
    using rest(1) by (simp add: andthen_def attempt_simp error_of_def read_now_def Let_def s1(1) s2(1) s3(1) f s4(1))
  moreover have "pb_decision v' = pb_decision v" using rest(4) by (simp add: set_target_def)
  ultimately show ?case using rest(2,3) by blast
qed

lemma complete_committed_goes:
  assumes run: "running c pid p fs s" and v: "publication_fits pid p v"
  shows "\<exists>v' s' es. complete_committed c v fs s = (Inr (v', []) :: 'f + _, s') \<and> pb_status v' = Pub_Succeeded \<and>
    pb_decision v' = pb_decision v \<and> publication_fits pid p v' \<and> adds es s s' \<and> map call_of es = completions pid (pn_targets p)"
proof -
  let ?s = "s\<lparr>step := Suc (step s)\<rparr>"
  let ?v1 = "v\<lparr>pb_status := Pub_Completing, pb_outcome := Out_Full, pb_fences := fs, pb_updated := clock s (step s)\<rparr>"
  have v1: "publication_fits pid p ?v1" using v running_writable [OF run] by (simp add: publication_fits_def)
  have "running c pid p fs ?s" using run by simp
  then obtain v2 s2 where s2: "store_save ?v1 ?s = (Inr v2, s2)" "running c pid p fs s2" "publication_fits pid p v2"
    "pb_decision v2 = pb_decision ?v1" using running_save [OF _ v1] by metis
  from complete_targets_goes [OF s2(2,3), of 0 "pn_targets p"] obtain v3 fs3 s3 es where
    s3: "complete_targets c 0 (pn_targets p) v2 fs [] s2 = (Inr (v3, fs3, []) :: 'f + _, s3)" "running c pid p fs3 s3"
      "publication_fits pid p v3" "pb_decision v3 = pb_decision v2" "adds es s2 s3" "map call_of es = completions pid (pn_targets p)"
    by auto
  let ?s3 = "s3\<lparr>step := Suc (Suc (step s3))\<rparr>" and ?now = "clock s3 (Suc (step s3))"
  let ?v4 = "v3\<lparr>pb_fences := fs3, pb_status := Pub_Succeeded, pb_outcome := Out_Full, pb_code := [], pb_message := [],
    pb_finished := Some ?now, pb_updated := ?now, pb_restart := True\<rparr>"
  have v4: "publication_fits pid p ?v4" using s3(3) running_writable [OF s3(2)] by (simp add: publication_fits_def)
  have "running c pid p fs3 ?s3" using s3(2) by simp
  then obtain v5 s5 where s5: "store_save ?v4 ?s3 = (Inr v5, s5)" "publication_fits pid p v5"
    "pb_status v5 = pb_status ?v4" "pb_decision v5 = pb_decision ?v4" using running_save [OF _ v4] by metis
  have "complete_committed c v fs s = (Inr (v5, []) :: 'f + _, s5)"
    using s2(1) s3(1) s5(1) fits_fields [OF s2(3)]
    by (simp add: complete_committed_def andthen_def attempt_simp read_now_def Let_def save_and_return_def)
  moreover have "adds [] s s2" using adds_nothing [OF emits.writes(1) s2(1)] by simp
  then have "adds es s s5" using s3(5) adds_nothing [OF emits.writes(1) s5(1)] by (simp add: adds_def)
  ultimately show ?thesis using s2(4) s3(4,6) s5(2-4) by auto
qed

lemma decide_commit_goes:
  assumes run: "running c pid p fs s"
  shows "\<exists>v s'. decide_commit pid at s = (Inr v, s') \<and> running c pid p fs s' \<and> publication_fits pid p v \<and> pb_decision v"
proof -
  let ?P = "\<lambda>r. pr_id r = pid \<and> \<not> pr_decision r"
  let ?f = "\<lambda>r :: pub_row. r\<lparr>pr_decision := True, pr_status := Pub_Committed, pr_outcome := Out_Full, pr_decided_at := Some at, pr_updated := at\<rparr>"
  from run have st: "stored pid p s" and steady: "steady (co_ttl c) s" by (simp_all add: running_def armed_def)
  then obtain r where row: "row_of pid s = Some r" and fits: "row_fits pid p r" and key: "keyed s" by (auto simp: stored_def)
  have id: "pr_id r = pid" using row by (auto simp: row_of_def dest: find_SomeD)
  let ?s = "s\<lparr>step := Suc (step s), pub_rows := update_where ?P ?f (pub_rows s)\<rparr>"
  have "stored pid p ?s \<and> (\<exists>r'. row_of pid ?s = Some r' \<and> pr_decision r')"
  proof (cases "pr_decision r")
    case True
    have "\<not> ?P x" if "x \<in> set (pub_rows s)" for x
    proof
      assume "?P x"
      with keyed_match [OF key, of pid x "\<lambda>_. True"] that True row id show False
        using find_distinct_key [of pr_id "pub_rows s" x] key by (auto simp: row_of_def keyed_def plans_def comp_def)
    qed
    then have "update_where ?P ?f (pub_rows s) = pub_rows s" by (rule update_where_none)
    with st row True show ?thesis by (simp add: row_of_def)
  next
    case False
    have hit: "?P r" using id False by simp
    have fits': "row_fits pid p (?f r)" using fits by (simp add: row_fits_def)
    note wrote = stored_write [of pid p s r ?P ?f, OF st row hit _ _ fits']
    have "stored pid p (s\<lparr>pub_rows := update_where ?P ?f (pub_rows s)\<rparr>)" by (rule wrote) simp_all
    moreover have "row_of pid (s\<lparr>pub_rows := update_where ?P ?f (pub_rows s)\<rparr>) = Some (?f r)" by (rule wrote) simp_all
    ultimately show ?thesis by (simp add: row_of_def)
  qed
  then have st': "stored pid p ?s" and row': "\<exists>r'. row_of pid ?s = Some r' \<and> pr_decision r'" by simp_all
  have "steady (co_ttl c) ?s" using steady by simp
  then obtain v where v: "store_get pid ?s = (Inr v, ?s\<lparr>step := Suc (Suc (step ?s))\<rparr>)" "publication_fits pid p v"
    by (rule store_get_stored [OF _ st'])
  have d: "pb_decision v" by (rule store_get_Inr [OF v(1)]) (use row' in auto)
  have "decide_commit pid at s = (Inr v, ?s\<lparr>step := Suc (Suc (step ?s))\<rparr>)"
    using v(1) d steadyD(1) [OF steady]
    by (simp add: decide_commit_def andthen_def statement_def receive_def query_def modify_def Let_def)
  moreover have "running c pid p fs (?s\<lparr>step := Suc (Suc (step ?s))\<rparr>)" using run st' by (simp add: running_def)
  ultimately show ?thesis using v(2) d by blast
qed

section \<open>Opening a transaction\<close>

text \<open>Whoever makes the plan anew, at whatever time, comes to the same one.\<close>

definition still_current :: "coordinator \<Rightarrow> mod_plan \<Rightarrow> 's pub_system_scheme \<Rightarrow> bool" where
  "still_current c p s \<longleftrightarrow> (\<forall>n ls prs trs as ws. \<exists>q s'. preview (co_minimum c) (pn_room p)
     (s\<lparr>step := n, lease_rows := ls, pub_rows := prs, target_rows := trs, artifact_rows := as, world_rows := ws\<rparr>) = (Inr q, s') \<and>
     pn_revision q = pn_revision p \<and> pn_hash q = pn_hash p \<and> pn_ready q)"

definition backs_up :: "publish_request \<Rightarrow> 's pub_system_scheme \<Rightarrow> bool" where
  "backs_up rq s \<longleftrightarrow> rq_skip_backup rq \<or> (\<forall>n. rd_backups s n \<noteq> [])"

lemma protect_goes:
  assumes run: "running c pid p fs s" and v: "publication_fits pid p v" and "backs_up rq s"
  shows "\<exists>v' s'. protect rq v s = (Inr v', s') \<and> running c pid p fs s' \<and> publication_fits pid p v' \<and> pb_decision v' = pb_decision v"
proof (cases "rq_skip_backup rq")
  case True
  with run v show ?thesis by (simp add: protect_def)
next
  case False
  let ?b = "rd_backups s (step s)" and ?s = "s\<lparr>step := Suc (Suc (step s))\<rparr>"
  let ?v = "v\<lparr>pb_backups := normalized_strings ?b, pb_updated := clock s (Suc (step s))\<rparr>"
  have "running c pid p fs ?s" "publication_fits pid p ?v" using run v by (simp_all add: publication_fits_def)
  then obtain v' s' where "store_save ?v ?s = (Inr v', s')" "running c pid p fs s'" "publication_fits pid p v'"
    "pb_decision v' = pb_decision ?v" by (rule running_save)
  moreover have "?b \<noteq> []" using assms(3) False by (simp add: backs_up_def)
  ultimately show ?thesis using False steadyD(1) [OF running_steady [OF run]]
    by (simp add: protect_def andthen_def attempt_simp receive_def read_now_def on_error_def Let_def)
qed

lemma still_current_preview:
  assumes "still_current c p s" and "only_replicas (s\<lparr>step := n, pub_rows := prs, target_rows := trs\<rparr>) s'"
  obtains q m where "preview (co_minimum c) (pn_room p) s' = (Inr q, s'\<lparr>step := m\<rparr>)" and "pn_revision q = pn_revision p"
    and "pn_hash q = pn_hash p" and "pn_ready q"
proof -
  obtain m as ws where "s' = (s\<lparr>step := n, pub_rows := prs, target_rows := trs\<rparr>)\<lparr>step := m, artifact_rows := as, world_rows := ws\<rparr>"
    by (rule only_replicas_form [OF assms(2)])
  then have s': "s' = s\<lparr>step := m, lease_rows := lease_rows s, pub_rows := prs, target_rows := trs, artifact_rows := as, world_rows := ws\<rparr>"
    by (cases s) simp
  from assms(1) obtain q s'' where q: "preview (co_minimum c) (pn_room p) s' = (Inr q, s'')" "pn_revision q = pn_revision p"
    "pn_hash q = pn_hash p" "pn_ready q" unfolding still_current_def s' by blast
  from movesD [OF only_steps.preview_quiet q(1)] obtain m' where "s'' = s'\<lparr>step := m'\<rparr>" by (auto simp: only_steps_def)
  with q show thesis using that by blast
qed

lemma begin_body_goes:
  assumes armed: "armed (co_ttl c) fs s" and room: "has_room (rq_id rq) (rq_source rq) p s" and plan: "rq_plan rq = p"
    and current: "still_current c p s" and backs: "backs_up rq s" and replicas: "co_replicas c \<longrightarrow> keyed_replicas s"
  shows "\<exists>tx s'. begin_body c rq manual_policy fs own s = (Inr tx, s') \<and> running c (rq_id rq) p (tx_fences tx) s' \<and>
    publication_fits (rq_id rq) p (tx_publication tx) \<and> \<not> tx_closed tx \<and> \<not> pb_decision (tx_publication tx) \<and>
    pb_status (tx_publication tx) = Pub_Prepared"
proof -
  let ?i = "rq_id rq"
  have steady: "steady (co_ttl c) s" by (rule armed_steady [OF armed])
  obtain n0 where find: "find_idempotent ?i (rq_source rq) s = (Inl [Pub_Not_Found], s\<lparr>step := n0\<rparr>)"
    by (rule find_idempotent_fresh [OF steady room])
  let ?s0 = "s\<lparr>step := Suc n0\<rparr>"
  have s0: "steady (co_ttl c) ?s0" "has_room ?i (rq_source rq) p ?s0" using steady room by simp_all
  obtain v1 rows trs n1 where create: "store_create (new_publication rq manual_policy fs (clock s n0)) ?s0 =
      (Inr v1, ?s0\<lparr>step := n1, pub_rows := rows, target_rows := trs\<rparr>)"
    and st: "stored ?i p (?s0\<lparr>pub_rows := rows, target_rows := trs\<rparr>)" and v1: "publication_fits ?i p v1" "\<not> pb_decision v1"
    by (rule store_create_fresh [OF s0 plan armed_writable [OF armed]])
  let ?s1 = "s\<lparr>step := n1, pub_rows := rows, target_rows := trs\<rparr>"
  have st1: "stored ?i p ?s1" using st by (simp add: stored_def keyed_def plans_def row_of_def rows_for_def)
  have armed1: "armed (co_ttl c) fs ?s1" using armed by simp
  have p: "plan_check p = None" using room by (simp add: has_room_def storable_def)
  obtain s2 where s2: "with_replicas c (set_desired p) ?s1 = (Inr (), s2)" "only_replicas ?s1 s2" "running c ?i p fs s2"
  proof (cases "co_replicas c")
    case True
    have "replicates (co_ttl c) ?s1" using True replicas steady by (simp add: replicates_def)
    then obtain s2 where "set_desired p ?s1 = (Inr (), s2)" "replicates (co_ttl c) s2" "only_replicas ?s1 s2"
      "\<forall>t \<in> set (pn_targets p). replicated t s2" by (rule set_desired_steady [OF _ p])
    with True st1 armed1 show thesis
      by (intro that [of s2]) (simp_all add: with_replicas_def running_def only_replicas_same replicates_def)
  next
    case False
    with st1 armed1 show thesis by (intro that [of ?s1]) (simp_all add: with_replicas_def running_def)
  qed
  obtain q m where q: "preview (co_minimum c) (pn_room p) s2 = (Inr q, s2\<lparr>step := m\<rparr>)" "pn_revision q = pn_revision p"
    "pn_hash q = pn_hash p" "pn_ready q" by (rule still_current_preview [OF current s2(2)])
  let ?s3 = "s2\<lparr>step := Suc m\<rparr>"
  have backs3: "rd_backups ?s3 = rd_backups s" using s2(2) by (auto elim!: only_replicas_form)
  have "running c ?i p fs ?s3" "publication_fits ?i p (v1\<lparr>pb_status := Pub_Preparing, pb_updated := clock s2 m\<rparr>)"
    using s2(3) v1 by (simp_all add: publication_fits_def)
  then obtain v2 s4 where s4: "store_save (v1\<lparr>pb_status := Pub_Preparing, pb_updated := clock s2 m\<rparr>) ?s3 = (Inr v2, s4)"
    "running c ?i p fs s4" "publication_fits ?i p v2" "pb_decision v2 = pb_decision (v1\<lparr>pb_status := Pub_Preparing, pb_updated := clock s2 m\<rparr>)"
    "rd_backups s4 = rd_backups ?s3" by (rule running_save)
  obtain fs1 s5 where s5: "renew_fences (co_ttl c) fs s4 = (Inr (fs1, []) :: publication \<times> errs + _, s5)" "running c ?i p fs1 s5"
    "rd_backups s5 = rd_backups s4" by (rule running_renew [OF s4(2)])
  have "publication_fits ?i p (v2\<lparr>pb_fences := fs1\<rparr>)" using s4(3) running_writable [OF s5(2)] by (simp add: publication_fits_def)
  moreover have "backs_up rq s5" using backs s4(5) s5(3) backs3 by (simp add: backs_up_def)
  ultimately obtain v3 s6 where s6: "protect rq (v2\<lparr>pb_fences := fs1\<rparr>) s5 = (Inr v3, s6)" "running c ?i p fs1 s6"
    "publication_fits ?i p v3" "pb_decision v3 = pb_decision v2"
    using protect_goes [OF s5(2), of "v2\<lparr>pb_fences := fs1\<rparr>" rq] by auto
  obtain v4 fs2 s7 where s7: "prepare_targets c 0 (pn_targets p) v3 fs1 s6 = (Inr (v4, fs2), s7)" "running c ?i p fs2 s7"
    "publication_fits ?i p v4" "pb_decision v4 = pb_decision v3"
    using prepare_targets_goes [OF s6(2,3), of 0 "pn_targets p"] by auto
  let ?s7 = "s7\<lparr>step := Suc (step s7)\<rparr>"
  let ?v5 = "v4\<lparr>pb_status := Pub_Prepared, pb_fences := fs2, pb_updated := clock s7 (step s7)\<rparr>"
  have "running c ?i p fs2 ?s7" "publication_fits ?i p ?v5"
    using s7(2,3) running_writable [OF s7(2)] by (simp_all add: publication_fits_def)
  then obtain v6 s8 where s8: "store_save ?v5 ?s7 = (Inr v6, s8)" "running c ?i p fs2 s8" "publication_fits ?i p v6"
    "pb_status v6 = pb_status ?v5" "pb_decision v6 = pb_decision ?v5" by (rule running_save)
  have "begin_body c rq manual_policy fs own s = (Inr \<lparr>tx_publication = v6, tx_fences = fs2, tx_owned = own, tx_closed = False\<rparr>, s8)"
    using find create s2(1) q s4(1) s5(1) s6(1) s7(1) s8(1) fits_fields [OF v1(1)] fits_fields [OF s6(3)]
    by (simp add: begin_body_def andthen_def attempt_simp on_error_def read_now_def Let_def plan)
  then show ?thesis using s8 s7(4) s6(4) s4(4) v1(2) by simp
qed

text \<open>Nothing stands in the way of a publication.\<close>

definition undisturbed :: "coordinator \<Rightarrow> publish_request \<Rightarrow> 's pub_system_scheme \<Rightarrow> bool" where
  "undisturbed c rq s \<longleftrightarrow>
     steady (co_ttl c) s \<and> lease_inv s \<and> (\<forall>n. valid_id (fresh s n)) \<and>
     has_room (rq_id rq) (rq_source rq) (rq_plan rq) s \<and> (co_replicas c \<longrightarrow> keyed_replicas s) \<and>
     (\<forall>r \<in> set (publication_lease_resources (rq_plan rq)).
        abs_leases (lease_rows s) r = None \<and> lease_text r (publication_operation_key (rq_id rq)) (co_ttl c)) \<and>
     still_current c (rq_plan rq) s \<and> backs_up rq s"

lemma plan_resources: "plan_check p = None \<Longrightarrow> publication_lease_resources p \<noteq> []"
proof -
  assume "plan_check p = None"
  then have room: "pn_room p \<in> trim_space ` set (pn_rooms p)" "valid_id (pn_room p)"
    by (auto simp: plan_check_plan_wf plan_wf_def plan_header_ok_def)
  have "pn_room p \<noteq> []" using room(2) by (auto simp: valid_id_def)
  with room(1) have named: "pn_room p \<in> set (normalized_strings (pn_rooms p))" by (simp add: set_normalized_strings)
  from room(1) have "trim_space (pn_room p) = pn_room p" by auto
  with named \<open>pn_room p \<noteq> []\<close> have "pn_room p \<in> set (publication_lease_resources p)"
    unfolding publication_lease_resources_def by (subst set_normalized_strings) force
  then show ?thesis by auto
qed

lemma begin_transaction_goes:
  fixes s :: "'s pub_system_scheme"
  assumes ready: "undisturbed c rq s" and borrowed: "rq_borrowed rq = []"
    and policy: "normalize_policy (rq_activation rq) = Inr manual_policy"
  shows "\<exists>tx s'. begin_transaction c rq s = (Inr (tx_publication tx, Some tx, []) :: 'f + _, s') \<and>
    running c (rq_id rq) (rq_plan rq) (tx_fences tx) s' \<and> publication_fits (rq_id rq) (rq_plan rq) (tx_publication tx) \<and>
    \<not> tx_closed tx \<and> \<not> pb_decision (tx_publication tx) \<and> pb_status (tx_publication tx) = Pub_Prepared"
proof -
  let ?i = "rq_id rq" and ?p = "rq_plan rq"
  from ready have steady: "steady (co_ttl c) s" and inv: "lease_inv s" and ids: "\<And>n. valid_id (fresh s n)"
    and room: "has_room ?i (rq_source rq) ?p s" and replicas: "co_replicas c \<longrightarrow> keyed_replicas s"
    and leases: "\<And>r. r \<in> set (publication_lease_resources ?p) \<Longrightarrow>
      abs_leases (lease_rows s) r = None \<and> lease_text r (publication_operation_key ?i) (co_ttl c)"
    and current: "still_current c ?p s" and backs: "backs_up rq s"
    by (auto simp: undisturbed_def)
  from room have p: "plan_check ?p = None" and valid: "valid_id ?i" "rq_source rq = [] \<or> valid_id (rq_source rq)"
    by (auto simp: has_room_def storable_def)
  obtain n where find: "find_idempotent ?i (rq_source rq) s = (Inl [Pub_Not_Found], s\<lparr>step := n\<rparr>)"
    by (rule find_idempotent_fresh [OF steady room])
  have "steady (co_ttl c) (s\<lparr>step := n\<rparr>)" "lease_inv (s\<lparr>step := n\<rparr>)" "\<And>m. valid_id (fresh (s\<lparr>step := n\<rparr>) m)"
    "\<And>r. r \<in> set (publication_lease_resources ?p) \<Longrightarrow> abs_leases (lease_rows (s\<lparr>step := n\<rparr>)) r = None \<and>
      lease_text r (publication_operation_key ?i) (co_ttl c)"
    using steady inv ids leases by (simp_all add: lease_inv_def)
  from acquire_plan_free [OF this(1-3) plan_resources [OF p] this(4)]
  obtain fs s1 where s1: "acquire_with_borrowed (co_ttl c) ?p ?i [] (s\<lparr>step := n\<rparr>) = (Inr (fs, fs), s1)"
    "armed (co_ttl c) fs s1" "only_leases (s\<lparr>step := n\<rparr>) s1" by blast
  from s1(3) obtain m ls where form: "s1 = s\<lparr>step := m, lease_rows := ls\<rparr>" by (auto simp: only_leases_def)
  have "has_room ?i (rq_source rq) ?p s1" "co_replicas c \<longrightarrow> keyed_replicas s1" "backs_up rq s1" "still_current c ?p s1"
    using room replicas backs current by (simp_all add: form backs_up_def still_current_def)
  from begin_body_goes [OF s1(2) this(1) refl this(4,3,2), of fs]
  obtain tx s' where tx: "begin_body c rq manual_policy fs fs s1 = (Inr tx, s')" "running c ?i ?p (tx_fences tx) s'"
    "publication_fits ?i ?p (tx_publication tx)" "\<not> tx_closed tx" "\<not> pb_decision (tx_publication tx)"
    "pb_status (tx_publication tx) = Pub_Prepared" by blast
  have "begin_transaction c rq s = (Inr (tx_publication tx, Some tx, []) :: 'f + _, s')"
    using find s1(1) tx(1) p valid
    by (simp add: begin_transaction_def policy borrowed andthen_def attempt_simp Let_def)
  with tx show ?thesis by blast
qed

lemma publish_body_goes:
  assumes run: "running c pid p (tx_fences tx) s" and v: "publication_fits pid p (tx_publication tx)"
  shows "\<exists>v tx' s'. publish_body c tx s = (Inr (v, tx'), s') \<and> running c pid p (tx_fences tx') s' \<and>
    publication_fits pid p v \<and> pb_decision v = pb_decision (tx_publication tx) \<and> pb_status v = Pub_Publishing \<and>
    tx_closed tx' = tx_closed tx \<and> tx_publication tx' = v"
proof -
  obtain fs1 s1 where s1: "renew_fences (co_ttl c) (tx_fences tx) s = (Inr (fs1, []) :: transaction_handle \<times> string \<times> errs + _, s1)"
    "running c pid p fs1 s1" by (rule running_renew [OF run])
  let ?s1 = "s1\<lparr>step := Suc (step s1)\<rparr>" and ?tx = "tx\<lparr>tx_fences := fs1\<rparr>"
  let ?v1 = "(tx_publication tx)\<lparr>pb_fences := fs1, pb_status := Pub_Publishing, pb_updated := clock s1 (step s1)\<rparr>"
  have "running c pid p fs1 ?s1" "publication_fits pid p ?v1"
    using v s1(2) running_writable [OF s1(2)] by (simp_all add: publication_fits_def)
  then obtain v2 s2 where s2: "store_save ?v1 ?s1 = (Inr v2, s2)" "running c pid p fs1 s2" "publication_fits pid p v2"
    "pb_status v2 = pb_status ?v1" "pb_decision v2 = pb_decision ?v1" by (rule running_save)
  have "\<exists>v' tx' s'. publish_targets c 0 (pn_targets p) v2 ?tx s2 = (Inr (v', tx'), s') \<and> running c pid p (tx_fences tx') s' \<and>
    publication_fits pid p v' \<and> pb_decision v' = pb_decision v2 \<and> pb_status v' = pb_status v2 \<and> tx_closed tx' = tx_closed ?tx"
    by (rule publish_targets_goes) (use s2 in simp_all)
  then obtain v3 tx3 s3 where s3: "publish_targets c 0 (pn_targets p) v2 ?tx s2 = (Inr (v3, tx3), s3)"
    "running c pid p (tx_fences tx3) s3" "publication_fits pid p v3" "pb_decision v3 = pb_decision v2"
    "pb_status v3 = pb_status v2" "tx_closed tx3 = tx_closed tx" by auto
  let ?s3 = "s3\<lparr>step := Suc (step s3)\<rparr>" and ?v4 = "v3\<lparr>pb_fences := tx_fences tx3, pb_updated := clock s3 (step s3)\<rparr>"
  have "running c pid p (tx_fences tx3) ?s3" "publication_fits pid p ?v4"
    using s3(2,3) running_writable [OF s3(2)] by (simp_all add: publication_fits_def)
  then obtain v5 s5 where s5: "store_save ?v4 ?s3 = (Inr v5, s5)" "running c pid p (tx_fences tx3) s5" "publication_fits pid p v5"
    "pb_status v5 = pb_status ?v4" "pb_decision v5 = pb_decision ?v4" by (rule running_save)
  have "publish_body c tx s = (Inr (v5, tx3\<lparr>tx_publication := v5\<rparr>), s5)"
    using s1(1) s2(1) s3(1) s5(1) fits_fields [OF s2(3)]
    by (simp add: publish_body_def andthen_def on_error_def read_now_def Let_def)
  with s5 s3 s2 show ?thesis by simp
qed

definition publishings :: "string \<Rightarrow> target_plan list \<Rightarrow> (runtime_step \<times> string \<times> string \<times> bool) list" where
  "publishings pid ts = map (\<lambda>t. (Step_Publish, pid, target_plan_key t, True)) ts"

lemma close_goes:
  fixes s :: "'s pub_system_scheme"
  obtains tx' s' where "tx_close tx s = (Inr tx' :: 'f + _, s')" and "adds [] s s'"
proof -
  have "returns (tx_close tx :: ('s pub_system_scheme, 'f, transaction_handle) act)" by (intro returns_intros)
  from returns_eq [OF this, of s] obtain tx' s' where run: "tx_close tx s = (Inr tx' :: 'f + _, s')" by auto
  show thesis by (rule that [OF run adds_nothing [OF emits.transaction_moves(1) run]])
qed

lemma tx_commit_goes:
  assumes run: "running c pid p (tx_fences tx) s" and v: "publication_fits pid p (tx_publication tx)"
    and state: "\<not> tx_closed tx" "pb_status (tx_publication tx) = Pub_Publishing" "\<not> pb_decision (tx_publication tx)"
  shows "\<exists>v tx' s' es. tx_commit c tx s = (Inr ((v, []), tx') :: 'f + _, s') \<and> publication_fits pid p v \<and>
    pb_status v = Pub_Succeeded \<and> pb_decision v \<and> adds es s s' \<and> map call_of es = completions pid (pn_targets p)"
proof -
  obtain fs1 s1 where s1: "renew_fences (co_ttl c) (tx_fences tx) s = (Inr (fs1, []) :: 'f + _, s1)" "running c pid p fs1 s1"
    by (rule running_renew [OF run])
  let ?s1 = "s1\<lparr>step := Suc (step s1)\<rparr>"
  have "running c pid p fs1 ?s1" using s1(2) by simp
  from decide_commit_goes [OF this, of "clock s1 (step s1)"] obtain v2 s2 where
    s2: "decide_commit pid (clock s1 (step s1)) ?s1 = (Inr v2, s2)" "running c pid p fs1 s2" "publication_fits pid p v2" "pb_decision v2"
    by blast
  from complete_committed_goes [OF s2(2,3)] obtain v3 s3 es where
    s3: "complete_committed c v2 fs1 s2 = (Inr (v3, []) :: 'f + _, s3)" "pb_status v3 = Pub_Succeeded" "pb_decision v3 = pb_decision v2"
      "publication_fits pid p v3" "adds es s2 s3" "map call_of es = completions pid (pn_targets p)" by blast
  have manual: "ap_mode (ac_policy (pb_activation v3)) = Mode_Manual"
    using s3(4) by (simp add: publication_fits_def initial_activation_def manual_policy_def)
  let ?tx = "tx\<lparr>tx_fences := fs1, tx_publication := v3\<rparr>"
  obtain tx4 s4 where s4: "tx_close ?tx s3 = (Inr tx4 :: 'f + _, s4)" "adds [] s3 s4" by (rule close_goes)
  have "tx_commit c tx s = (Inr ((v3, []), tx4) :: 'f + _, s4)"
    using s1(1) s2(1) s3(1) s4(1) manual state fits_fields [OF v]
    by (simp add: tx_commit_def complete_and_activate_def andthen_def attempt_simp read_now_def Let_def)
  moreover have "adds [] s s1" by (rule adds_nothing [OF emits.fences_quiet(2) s1(1)])
  moreover have "adds [] s1 s2" using adds_nothing [OF emits.writes(2) s2(1)] by simp
  ultimately show ?thesis using s2(4) s3 s4(2) by (auto simp: adds_def)
qed

section \<open>An example\<close>

definition sample_observation :: runtime_observation where
  "sample_observation =
     \<lparr>ob_target = ''target'', ob_node = ''node'', ob_installation = ''inst'', ob_online = True, ob_caps = [required_capability],
      ob_available = 50, ob_version = ''1.2'', ob_cached = None\<rparr>"

definition sample_ready :: target_plan where
  "sample_ready =
     sample_target\<lparr>tg_mods := [sample_stored], tg_online := True, tg_caps := [required_capability], tg_version := ''1.2'',
       tg_available := 50, tg_required := 10\<rparr>"

definition sample_plan :: mod_plan where
  "sample_plan =
     (let p = assembled_plan ''room'' ''rev'' [''room''] True 0 [sample_ready]
      in p\<lparr>pn_hash := the (calculate_plan_hash p)\<rparr>)"

definition sample_system :: pub_system where
  "sample_system =
     \<lparr>step = 0, fault = (\<lambda>_. False), cancelled = (\<lambda>_. False), clock = (\<lambda>_. 0), fresh = (\<lambda>_. ''world''), lease_rows = [],
      rd_worlds = (\<lambda>_. [sample_world]),
      rd_placements = (\<lambda>_. \<lparr>ps_revision = ''rev'', ps_placements = [sample_placement]\<rparr>),
      rd_content = (\<lambda>_ _. sample_artifact), rd_observe = (\<lambda>_ _. sample_observation),
      pub_rows = [], target_rows = [], artifact_rows = [], world_rows = [], rd_backups = (\<lambda>_. [''backup'']),
      rd_status = (\<lambda>_ _. \<lparr>so_mode = Unset_Mode, so_state = ''stopped'', so_session = False\<rparr>),
      rd_cursor = (\<lambda>_ _. \<lparr>lc_file = [], lc_cursor = 0\<rparr>), rd_logs = (\<lambda>_ _ cursor. \<lparr>sl_cursor = cursor, sl_lines = []\<rparr>),
      rd_polls = (\<lambda>_. 0), rd_ticks = (\<lambda>_. 0),
      runtime_log = []\<rparr>"

definition sample_coordinator :: coordinator where
  "sample_coordinator = \<lparr>co_minimum = [], co_ttl = minutes 2, co_replicas = True, co_activation = False, co_notifier = False\<rparr>"

definition sample_request :: publish_request where
  "sample_request =
     \<lparr>rq_id = ''world'', rq_source = [], rq_plan = sample_plan,
      rq_activation = \<lparr>ap_mode = Mode_Unset, ap_confirm = Confirm_Unset, ap_timeout = 0\<rparr>, rq_borrowed = [],
      rq_skip_backup = False\<rparr>"

lemma sample_times: "json_time 0 \<noteq> None" "json_time (minutes 2) \<noteq> None" "valid_ttl (minutes 2)"
  by code_simp+

lemma sample_caps: "normalized_strings [required_capability] = [required_capability]" "trim_space ''1.2'' = ''1.2''"
  "contains [required_capability] required_capability"
  by code_simp+

lemma sample_finish_ready:
  fixes s :: "'s pub_env_scheme"
  assumes "\<not> fault s (step s)" and "rd_observe s = (\<lambda>_ _. sample_observation)"
  shows "finish_target [] sample_target s = (Inr sample_ready, s\<lparr>step := Suc (step s)\<rparr>)"
proof -
  have "observed_target [] (sample_target\<lparr>tg_mods := [sample_stored]\<rparr>) (Inr sample_observation) = Inr sample_ready"
    by (simp add: observed_target_def sample_observation_def sample_target_def new_target_def sample_placement_def
        sample_stored_def sample_artifact_def Let_def sample_caps observation_blockers_def disk_blockers_def
        sample_ready_def sort_blockers_def)
  with assms show ?thesis
    by (simp add: finish_target_def sample_target_def new_target_def world_plan_of_def sort_artifacts_def Let_def andthen_def lift_def
        attempt_def receive_def)
qed

lemma sample_plan_hash: "calculate_plan_hash (assembled_plan ''room'' ''rev'' [''room''] True 0 [sample_ready]) \<noteq> None"
  using sample_hash [of sample_ready] by (auto simp: sample_ready_def)

lemma sample_preview_ready:
  fixes s :: "'s pub_env_scheme"
  assumes "fault s = (\<lambda>_. False)" and "clock s = (\<lambda>_. 0)" and "rd_worlds s = (\<lambda>_. [sample_world])"
    and "rd_placements s = (\<lambda>_. \<lparr>ps_revision = ''rev'', ps_placements = [sample_placement]\<rparr>)"
    and "rd_content s = (\<lambda>_ _. sample_artifact)" and "rd_observe s = (\<lambda>_ _. sample_observation)"
  shows "\<exists>s'. preview [] ''room'' s = (Inr sample_plan, s')"
proof -
  let ?s = "s\<lparr>step := Suc (Suc (step s))\<rparr>"
  have "rd_content ?s = rd_content sample_pub_env" using assms by (simp add: sample_pub_env_def)
  then have "collect_worlds [] [(world_key ''room'' ''world'', sample_placement)] [installation_key sample_placement]
      [(world_key ''room'' ''world'', sample_world)] [] [] [] ?s =
      (Inr ([(installation_key sample_placement, sample_target)], [''room'']), ?s\<lparr>step := Suc (step ?s)\<rparr>)"
    using assms(1) by (intro sample_collect) simp_all
  moreover have "finish_target [] sample_target (s\<lparr>step := n\<rparr>) = (Inr sample_ready, s\<lparr>step := Suc n\<rparr>)" for n
    using sample_finish_ready [of "s\<lparr>step := n\<rparr>"] assms by simp
  ultimately show ?thesis
    using assms sample_plan_hash
    by (auto simp: preview_def Let_def andthen_def receive_def lift_def sample_valid_ids sample_loops sample_plan_def read_now_def
        simp del: worlds_by_key.simps placements_by_world.simps collect_worlds.simps split: option.split)
qed

lemma utf8_copy_ascii:
  assumes "\<And>c. c \<in> set s \<Longrightarrow> (of_char c :: nat) < 128"
  shows "utf8_copy s = s"
  using assms
proof (induction s)
  case (Cons c cs)
  have "rune_width (c # cs) = 1"
  proof (rule ccontr)
    assume "rune_width (c # cs) \<noteq> 1"
    moreover have "rune_width (c # cs) \<noteq> 0"
      using Cons.prems [of c] by (auto simp: rune_width_def utf8_shapes_def split: option.split)
    ultimately have "0x80 \<le> (of_char c :: nat)" using rune_width_bytes [of "c # cs" 0] by simp
    with Cons.prems [of c] show False by simp
  qed
  with Cons show ?case by (simp add: Let_def)
qed simp

lemma sample_copies: "list_all (\<lambda>v. utf8_copy v = v) [''room'', ''Cluster_1'', ''world'', ''Master'', ''rev'', ''target'', ''node'',
    ''inst'', ''1.2'', ''378160973'', ''steam'', required_capability, to_lower sample_tree, []]"
  by code_simp

lemma hash_graphic: "c \<in> set (hash_bytes s) \<Longrightarrow> graphic c"
  using hash_bytes_digits(1) [of c s] by (auto simp: is_hex_def graphic_def Let_def)

lemma sample_plan_checked: "plan_check sample_plan = None"
proof -
  obtain s' where "preview [] ''room'' sample_system = (Inr sample_plan, s')"
    using sample_preview_ready [of sample_system] by (auto simp: sample_system_def)
  from preview_checked [OF this] show ?thesis
    by (simp add: sample_plan_def assembled_plan_def Let_def plan_worlds_def zero_time_def sample_target_def sample_ready_def
        world_plan_of_def sample_world_def control_chars)
qed

lemma sample_storable: "storable sample_plan"
proof -
  obtain t where "the (calculate_plan_hash (assembled_plan ''room'' ''rev'' [''room''] True 0 [sample_ready])) = hash_bytes t"
    using sample_plan_hash calculate_plan_hash_digest by (metis option.exhaust_sel)
  moreover have "utf8_copy (hash_bytes t) = hash_bytes t" for t
    by (rule utf8_copy_ascii) (use hash_graphic in \<open>force simp: graphic_def\<close>)
  ultimately have "copy_plan sample_plan = sample_plan"
    using sample_copies
    by (simp add: copy_plan_def sample_plan_def assembled_plan_def Let_def copy_target_def copy_world_def copy_artifact_def
        sample_target_def sample_ready_def new_target_def world_plan_of_def sample_world_def sample_stored_def sample_artifact_def
        sample_placement_def sort_blockers_def sort_artifacts_def)
  moreover have "writable (plan_times sample_plan)" using sample_times(1)
    by (simp add: writable_def plan_times_def sample_plan_def assembled_plan_def Let_def sample_target_def sample_ready_def
        new_target_def world_plan_of_def sample_stored_def sample_artifact_def sort_artifacts_def)
  ultimately show ?thesis by (simp add: storable_def sample_plan_checked)
qed

lemma sample_plan_fields: "pn_targets sample_plan = [sample_ready]" "pn_room sample_plan = ''room''" "pn_rooms sample_plan = [''room'']"
  "pn_ready sample_plan"
  by (simp_all add: sample_plan_def assembled_plan_def Let_def sample_ready_def sample_target_def new_target_def sort_blockers_def)

text \<open>A key that is no longer than its column and has neither blanks at its ends nor control characters.\<close>

definition plain_key :: "string \<Rightarrow> bool" where
  "plain_key key \<longleftrightarrow> trim_space key = key \<and> key \<noteq> [] \<and> length key \<le> 128 \<and> \<not> contains_any key [nul, carriage_return, newline]"

lemma sample_lease_text:
  assumes "r \<in> set (publication_lease_resources sample_plan)" and "plain_key key"
  shows "lease_text r key (minutes 2)"
proof -
  define k where "k = ''@mod-installation/'' @ hash_bytes (''target'' @ [nul] @ ''inst'')"
  have k: "graphic c" if "c \<in> set k" for c
    using that hash_graphic [of c "''target'' @ [nul] @ ''inst''"] by (auto simp: k_def graphic_def)
  have tag: "trim_space k = k" by (rule trim_space_graphic) (rule k)
  have "installation_lease_resources sample_plan = normalized_strings [k]"
    by (simp add: installation_lease_resources_def sample_plan_fields k_def sample_ready_def sample_target_def new_target_def
        sample_placement_def)
  then have "r = k \<or> r = ''room''"
    using assms(1) by (auto simp: publication_lease_resources_def set_normalized_strings sample_plan_fields tag sample_valid_ids)
  moreover have "\<not> contains_any ''room'' [nul, carriage_return, newline]" by code_simp
  moreover have "\<not> contains_any k [nul, carriage_return, newline]"
    using k by (force simp: contains_any_def control_chars graphic_def)
  moreover have "length k = 82" "k \<noteq> []" by (simp_all add: k_def)
  ultimately show ?thesis using sample_times(3) assms(2)
    by (auto simp: lease_text_def valid_lease_input_def sample_valid_ids tag contains_any_def plain_key_def)
qed

lemma sample_key: "plain_key (publication_operation_key ''world'')"
  by code_simp

lemma sample_undisturbed: "undisturbed sample_coordinator sample_request sample_system"
proof -
  have "steady (minutes 2) sample_system"
    using sample_times by (simp add: steady_def calm_def sample_system_def valid_ttl_def seconds_def minutes_def)
  moreover have "lease_inv sample_system" "abs_leases (lease_rows sample_system) r = None" "keyed_replicas sample_system" for r
    by (simp_all add: lease_inv_def room_keyed_def sample_system_def abs_leases_def find_room_def keyed_replicas_def)
  moreover have "valid_id (fresh sample_system n)" for n by (simp add: sample_system_def sample_valid_ids)
  moreover have "has_room ''world'' [] sample_plan sample_system"
    by (simp add: has_room_def sample_valid_ids sample_storable keyed_def plans_def sample_system_def rows_for_def result_ids_def
        plan_pairs_def sample_plan_fields)
  moreover have "still_current sample_coordinator sample_plan sample_system"
  proof -
    have "\<exists>s'. preview [] ''room'' (sample_system\<lparr>step := n, lease_rows := ls, pub_rows := prs, target_rows := trs,
        artifact_rows := as, world_rows := ws\<rparr>) = (Inr sample_plan, s')" for n ls prs trs as ws
      by (rule sample_preview_ready) (simp_all add: sample_system_def)
    then show ?thesis using sample_plan_fields unfolding still_current_def sample_coordinator_def by simp blast
  qed
  moreover have "backs_up sample_request sample_system" by (simp add: backs_up_def sample_system_def)
  ultimately show ?thesis
    using sample_lease_text [OF _ sample_key] by (simp add: undisturbed_def sample_coordinator_def sample_request_def)
qed

lemma sample_activation: "normalize_policy (rq_activation sample_request) = Inr manual_policy"
  by (simp add: normalize_policy_def manual_policy_def sample_request_def)


section \<open>A whole publication\<close>

text \<open>C8: when nothing disturbs it - no call fails or is cancelled, the leases are free and the clock stays within
them, the stores have room, the plan is still current and there is a backup - \<open>Publish\<close> of a plan with the manual
activation policy, and with no fences borrowed from the caller, returns a publication that succeeded, without an error,
and made exactly the calls of the protocol: every target is cached and prepared in order, then every target is published,
then every target is completed. (Another policy goes on to stop and start worlds, which may fail after the commit.)\<close>

theorem undisturbed_publication_succeeds:
  fixes s :: "'s pub_system_scheme"
  assumes "undisturbed c rq s" and "rq_borrowed rq = []" and "normalize_policy (rq_activation rq) = Inr manual_policy"
  shows "\<exists>v s' es. publish_plan c rq s = (Inr (v, []) :: unit + _, s') \<and>
    pb_id v = rq_id rq \<and> pb_plan v = rq_plan rq \<and> pb_status v = Pub_Succeeded \<and> pb_decision v \<and>
    runtime_log s' = runtime_log s @ es \<and>
    map call_of es = preparations (rq_id rq) (pn_targets (rq_plan rq)) @ publishings (rq_id rq) (pn_targets (rq_plan rq)) @
      completions (rq_id rq) (pn_targets (rq_plan rq))"
proof -
  let ?i = "rq_id rq" and ?p = "rq_plan rq"
  from begin_transaction_goes [OF assms] obtain tx s1 where
    s1: "begin_transaction c rq s = (Inr (tx_publication tx, Some tx, []) :: unit + _, s1)" "running c ?i ?p (tx_fences tx) s1"
      "publication_fits ?i ?p (tx_publication tx)" and tx: "\<not> tx_closed tx" "\<not> pb_decision (tx_publication tx)"
      "pb_status (tx_publication tx) = Pub_Prepared" by blast
  from publish_body_goes [OF s1(2,3)] obtain v2 tx2 s2 where
    s2: "publish_body c tx s1 = (Inr (v2, tx2), s2)" "running c ?i ?p (tx_fences tx2) s2" "publication_fits ?i ?p v2"
      "pb_decision v2 = pb_decision (tx_publication tx)" "pb_status v2 = Pub_Publishing" "tx_closed tx2 = tx_closed tx"
      "tx_publication tx2 = v2" by blast
  have published: "tx_publish c tx s1 = (Inr ((v2, []), tx2) :: unit + _, s2)"
    using s2(1) tx by (simp add: tx_publish_def andthen_def attempt_simp)
  have "publication_fits ?i ?p (tx_publication tx2)" "\<not> tx_closed tx2" "pb_status (tx_publication tx2) = Pub_Publishing"
    "\<not> pb_decision (tx_publication tx2)" using s2 tx by simp_all
  from tx_commit_goes [OF s2(2) this] obtain v3 tx3 s3 es3 where
    s3: "tx_commit c tx2 s2 = (Inr ((v3, []), tx3) :: unit + _, s3)" "publication_fits ?i ?p v3" "pb_status v3 = Pub_Succeeded"
      "pb_decision v3" "adds es3 s2 s3" "map call_of es3 = completions ?i (pn_targets ?p)" by blast
  obtain tx4 s4 where s4: "tx_close tx3 s3 = (Inr tx4 :: unit + _, s4)" "adds [] s3 s4" by (rule close_goes)
  have run: "publish_plan c rq s = (Inr (v3, []) :: unit + _, s4)"
    using s1(1) published s3(1) s4(1) by (simp add: publish_plan_def andthen_def)
  from begin_transaction_open [OF s1(1)] obtain es1 where es1: "runtime_log s1 = runtime_log s @ es1"
    "map call_of es1 = preparations ?i (pn_targets (pb_plan (tx_publication tx)))" by metis
  have id: "pb_id (tx_publication tx) = ?i" "pb_plan (tx_publication tx) = ?p" using fits_fields [OF s1(3)] by auto
  from s1(2) obtain r where r: "keyed s1" "row_of ?i s1 = Some r" "pr_plan r = ?p"
    by (auto simp: running_def stored_def row_fits_def)
  then have "plan_of ?i s1 = Some ?p" by (simp add: plan_of_row)
  with publish_body_Inr [OF s2(1) r(1)] id obtain es2 where es2: "adds es2 s1 s2"
    "map call_of es2 = publishings ?i (pn_targets ?p)" by (auto simp: publishings_def)
  have "runtime_log s4 = runtime_log s @ es1 @ es2 @ es3"
    using es1(1) es2(1) s3(5) s4(2) by (simp add: adds_def)
  moreover have "map call_of (es1 @ es2 @ es3) = preparations ?i (pn_targets ?p) @ publishings ?i (pn_targets ?p) @
      completions ?i (pn_targets ?p)" using es1(2) es2(2) s3(6) id by simp
  ultimately show ?thesis using run fits_fields [OF s3(2)] s3(3,4) by blast
qed

theorem undisturbed_publication_succeeds_witness:
  "\<exists>v s' es. publish_plan sample_coordinator sample_request sample_system = (Inr (v, []) :: unit + _, s') \<and>
    pb_status v = Pub_Succeeded \<and> runtime_log s' = es \<and>
    map (\<lambda>e. re_step e) es = [Step_Cache, Step_Prepare, Step_Publish, Step_Complete]"
proof -
  have "rq_borrowed sample_request = []" by (simp add: sample_request_def)
  from undisturbed_publication_succeeds [OF sample_undisturbed this sample_activation]
  obtain v s' es where "publish_plan sample_coordinator sample_request sample_system = (Inr (v, []) :: unit + _, s')"
    and "pb_status v = Pub_Succeeded" and log: "runtime_log s' = runtime_log sample_system @ es"
    and calls: "map call_of es = preparations (rq_id sample_request) (pn_targets (rq_plan sample_request)) @
      publishings (rq_id sample_request) (pn_targets (rq_plan sample_request)) @
      completions (rq_id sample_request) (pn_targets (rq_plan sample_request))" by blast
  moreover have "map re_step es = map fst (map call_of es)" by (simp add: call_of_def comp_def)
  then have "map re_step es = [Step_Cache, Step_Prepare, Step_Publish, Step_Complete]" unfolding calls
    by (simp add: preparations_def publishings_def completions_def sample_request_def sample_plan_fields)
  ultimately show ?thesis by (auto simp: sample_system_def)
qed

section \<open>Two-phase commit\<close>

text \<open>C1: whatever calls are made on an open transaction, in whatever order, however many of the runtime calls fail and
whatever else happens to the store in between, as long as the plan and the calls for this publication are left alone: a
target is published only after every target of the plan was prepared, and completed only after every target was
published, and no target is rolled back after one was completed or completed after one was rolled back.\<close>

theorem two_phase_commit:
  assumes "begin_transaction c rq s = (Inr (v, Some tx, e), s0)" and "keyed s" and "calls_for (rq_id rq) s = []"
    and "transacts c (rq_id rq) (tx, s0) (tx', s')"
  shows "phased (map target_plan_key (pn_targets (pb_plan v))) [] (calls_for (rq_id rq) s')"
  using transacts_inv [OF assms(4) begin_tx_inv [OF assms(1-3)]] by (simp add: tx_inv_def)

theorem two_phase_commit_witness:
  "\<exists>v tx s0 tx' s'. begin_transaction sample_coordinator sample_request sample_system = (Inr (v, Some tx, []) :: unit + _, s0) \<and>
    transacts sample_coordinator ''world'' (tx, s0) (tx', s') \<and> tx_closed tx' \<and>
    phased [target_plan_key sample_ready] [] (calls_for ''world'' s')"
proof -
  let ?c = sample_coordinator and ?i = "rq_id sample_request"
  have borrowed: "rq_borrowed sample_request = []" by (simp add: sample_request_def)
  from begin_transaction_goes [OF sample_undisturbed borrowed sample_activation] obtain tx s0 where
    opened: "begin_transaction ?c sample_request sample_system = (Inr (tx_publication tx, Some tx, []) :: unit + _, s0)"
      and fits: "publication_fits ?i (rq_plan sample_request) (tx_publication tx)" by blast
  obtain tx1 s1 where one: "tx_apply ?c Call_Publish tx s0 = (tx1, s1)" by (rule prod.exhaust)
  obtain tx2 s2 where two: "tx_apply ?c Call_Commit tx1 s1 = (tx2, s2)" by (rule prod.exhaust)
  obtain tx3 s3 where closed: "tx_close tx2 s2 = (Inr tx3 :: unit + _, s3)" by (rule close_goes)
  then have three: "tx_apply ?c Call_Close tx2 s2 = (tx3, s3)" by (simp add: tx_apply_def after_def andthen_def)
  note run = transacts_call [OF transacts_call [OF transacts_call [OF transacts_start one] two] three]
  have "keyed sample_system" "calls_for ?i sample_system = []"
    by (simp_all add: keyed_def plans_def sample_system_def calls_for_def)
  from two_phase_commit [OF opened this run]
  have "phased (map target_plan_key (pn_targets (pb_plan (tx_publication tx)))) [] (calls_for ?i s3)" .
  moreover have "map target_plan_key (pn_targets (pb_plan (tx_publication tx))) = [target_plan_key sample_ready]"
    using fits_fields [OF fits] by (simp add: sample_request_def sample_plan_fields)
  moreover have "tx_closed tx3" by (rule tx_close_Inr(1) [OF closed])
  ultimately show ?thesis using opened run by (auto simp: sample_request_def)
qed

end
