(* ===== verification/Mod_Recovery.thy ===== *)
theory Mod_Recovery
  imports Mod_Progress
begin

text \<open>
  Recovery after a crash: it goes by the decision in the row of the publication, what it reports is what it did, and
  while nothing fails it brings a publication to its end.
\<close>

section \<open>The decision that was stored\<close>

text \<open>The calls recovery may make, by the status and the decision of the row.\<close>

definition recovery_calls :: "pub_row \<Rightarrow> runtime_step set" where
  "recovery_calls r =
     (if pr_status r \<in> {Pub_Failed, Pub_RolledBack} then {}
      else if pr_status r = Pub_Succeeded then {Step_Stop, Step_Start}
      else if pr_decision r then {Step_Complete, Step_Stop, Step_Start}
      else {Step_Rollback})"

lemma emits_keyed: "emits S s s' \<Longrightarrow> keyed s' = keyed s" "emits S s s' \<Longrightarrow> plan_of pid s' = plan_of pid s"
  by (simp_all add: emits_def keyed_def plan_of_def)

lemma recover_publication_cases:
  assumes run: "recover_publication c pid s = (Inr (v, e) :: unit + _, s')" and row: "row_of pid s = Some r" and key: "keyed s"
  obtains (quiet) "emits {} s s'" and "pb_status v = pr_status r \<or> v = empty_publication"
  | (activated) "emits {Step_Stop, Step_Start} s s'" and "pr_status r = Pub_Succeeded"
  | (committed) pub fs s1 s2 where "emits {} s s1" and "complete_and_activate c pub fs s1 = (Inr (v, e) :: unit + _, s2)"
      and "emits {} s2 s'" and "pr_status r \<notin> {Pub_Failed, Pub_RolledBack, Pub_Succeeded}" and "pr_decision r" and "pb_id pub = pid"
      and "pb_plan pub = pr_plan r"
  | (undecided) pub fs s1 s2 where "emits {} s s1" and "recover_rollback c pub fs s1 = (Inr (v, e) :: unit + _, s2)"
      and "emits {} s2 s'" and "pr_status r \<notin> {Pub_Failed, Pub_RolledBack, Pub_Succeeded}" and "\<not> pr_decision r" and "pb_id pub = pid"
      and "pb_plan pub = pr_plan r"
proof (cases "store_get pid s")
  case (Pair got s1)
  note got = Pair
  have s1: "emits {} s s1" by (rule movesD [OF emits.get_quiet got])
  show thesis
  proof (cases got)
    case (Inl x)
    with run got have "v = empty_publication" "s' = s1" by (auto simp: recover_publication_def andthen_def attempt_simp)
    then show thesis using s1 by (intro quiet) auto
  next
    case (Inr pub)
    with got have get: "store_get pid s = (Inr pub, s1)" by simp
    have pub: "pb_id pub = pid" "pb_plan pub = pr_plan r" "pb_decision pub = pr_decision r" "pb_status pub = pr_status r"
      by (rule store_get_Inr [OF get]; use row in simp)+
    let ?final = "pb_status pub = Pub_Succeeded \<and> \<not> activation_unfinished pub \<or> pb_status pub = Pub_Failed \<or> pb_status pub = Pub_RolledBack"
    show thesis
    proof (cases ?final)
      case True
      with run get have "v = pub" "s' = s1" by (auto simp: recover_publication_def andthen_def attempt_simp)
      then show thesis using s1 pub by (intro quiet) auto
    next
      case False
      let ?key = "pb_id pub @ '':recover:'' @ fresh s1 (step s1)"
      let ?s1 = "s1\<lparr>step := Suc (step s1)\<rparr>"
      obtain res s2 where acq: "acquire_fences (co_ttl c) (pb_plan pub) ?key ?s1 = (res, s2)" by (cases "acquire_fences (co_ttl c) (pb_plan pub) ?key ?s1")
      have s2: "emits {} s s2" using s1 movesD [OF emits.acquisition(2) acq] by (auto intro: emits_trans)
      show thesis
      proof (cases res)
        case (Inl x)
        with run get False acq have "v = pub" "s' = s2"
          by (auto simp: recover_publication_def andthen_def attempt_simp new_uuid_def)
        then show thesis using s2 pub by (intro quiet) auto
      next
        case (Inr fs)
        let ?pub = "pub\<lparr>pb_fences := fs, pb_updated := clock s2 (step s2)\<rparr>" and ?s2 = "s2\<lparr>step := Suc (step s2)\<rparr>"
        obtain saved s3 where save: "store_save ?pub ?s2 = (saved, s3)" by (cases "store_save ?pub ?s2")
        have s3: "emits {} s s3" using s2 movesD [OF emits.writes(1) save] by (auto intro: emits_trans)
        have "andthen
            (case saved of
               Inl e \<Rightarrow> return_ok (?pub, e)
             | Inr pub2 \<Rightarrow>
                 if activation_unfinished pub
                 then activate_committed c pub2 fs (ac_policy (pb_activation pub2)) (activation_running_snapshot pub2)
                 else if pb_decision pub2 then complete_and_activate c pub2 fs
                 else recover_rollback c pub2 fs) (\<lambda>result.
          andthen (release_fences fs) (\<lambda>_. return_ok result)) s3 = (Inr (v, e) :: unit + _, s')"
          using run get False acq Inr save
          by (auto simp: recover_publication_def andthen_def attempt_simp new_uuid_def read_now_def Let_def split: if_splits)
        then obtain s4 where tail: "(case saved of
               Inl e \<Rightarrow> return_ok (?pub, e)
             | Inr pub2 \<Rightarrow>
                 if activation_unfinished pub
                 then activate_committed c pub2 fs (ac_policy (pb_activation pub2)) (activation_running_snapshot pub2)
                 else if pb_decision pub2 then complete_and_activate c pub2 fs
                 else recover_rollback c pub2 fs) s3 = (Inr (v, e) :: unit + _, s4)"
          and release: "release_fences fs s4 = (Inr () :: unit + _, s')"
          by (auto simp: andthen_eq_Inr_iff)
        have s4: "emits {} s4 s'" by (rule movesD [OF emits.fences_quiet(1) release])
        show thesis
        proof (cases saved)
          case (Inl x)
          with tail have "v = ?pub" "s4 = s3" by auto
          then show thesis using s3 s4 pub by (intro quiet) (auto intro: emits_trans)
        next
          case (Inr pub2)
          have "keyed ?s2" and plan: "plan_of pid ?s2 = Some (pr_plan r)"
            using emits_keyed [OF s2] key plan_of_row [OF row] by (simp_all add: keyed_def plan_of_def)
          with store_save_Inr [OF save [unfolded Inr]] pub
          have pub2: "pb_id pub2 = pid" "pb_plan pub2 = pr_plan r" "pb_status pub2 = pr_status r" "pb_decision pub2 = pr_decision r"
            by auto
          show thesis
          proof (cases "activation_unfinished pub")
            case True
            with tail Inr have "activate_committed c pub2 fs (ac_policy (pb_activation pub2)) (activation_running_snapshot pub2) s3 =
                (Inr (v, e) :: unit + _, s4)" by simp
            from movesD [OF emits.activation_moves this, of "{Step_Stop, Step_Start}"] have "emits {Step_Stop, Step_Start} s3 s4" by simp
            then have "emits {Step_Stop, Step_Start} s s'" using s3 s4 by (meson emits_mono emits_trans empty_subsetI)
            then show thesis using True pub by (intro activated) (simp_all add: activation_unfinished_def)
          next
            case unfinished: False
            have open_status: "pr_status r \<notin> {Pub_Failed, Pub_RolledBack, Pub_Succeeded}" using False unfinished pub by auto
            show thesis
            proof (cases "pr_decision r")
              case True
              with tail Inr unfinished pub2 have "complete_and_activate c pub2 fs s3 = (Inr (v, e) :: unit + _, s4)" by simp
              then show thesis using s3 s4 True open_status pub2 by (intro committed)
            next
              case False
              with tail Inr unfinished pub2 have "recover_rollback c pub2 fs s3 = (Inr (v, e) :: unit + _, s4)" by simp
              then show thesis using s3 s4 False open_status pub2 by (intro undecided)
            qed
          qed
        qed
      qed
    qed
  qed
qed

text \<open>C2: recovery obeys the stored decision, however many calls fail: of a publication that was not at its end it
completes targets only if the decision to commit is in its row, and rolls targets back only if it is not; it never
prepares or publishes anything, and of a publication at its end it at most stops and starts worlds.\<close>

theorem recovery_obeys_decision:
  assumes "recover_publication c pid s = (Inr (v, e) :: unit + _, s')" and "row_of pid s = Some r" and "keyed s"
  shows "\<exists>es. runtime_log s' = runtime_log s @ es \<and> re_step ` set es \<subseteq> recovery_calls r"
proof -
  have "emits (recovery_calls r) s s'"
    using assms
  proof (cases rule: recover_publication_cases)
    case quiet
    then show ?thesis by (auto intro: emits_mono)
  next
    case activated
    then show ?thesis by (simp add: recovery_calls_def)
  next
    case (committed pub fs s1 s2)
    have "emits {Step_Complete, Step_Stop, Step_Start} s1 s2"
      by (rule movesD [OF emits.complete_moves committed(2)]) simp
    then have "emits {Step_Complete, Step_Stop, Step_Start} s s'"
      using committed(1,3) by (meson emits_mono emits_trans empty_subsetI)
    then show ?thesis using committed(4,5) by (simp add: recovery_calls_def)
  next
    case (undecided pub fs s1 s2)
    have "emits {Step_Rollback} s1 s2" by (rule movesD [OF emits.rollback_moves(2) undecided(2)]) simp
    then have "emits {Step_Rollback} s s'" using undecided(1,3) by (meson emits_mono emits_trans empty_subsetI)
    then show ?thesis using undecided(4,5) by (simp add: recovery_calls_def)
  qed
  then show ?thesis by (auto simp: emits_def logs_def)
qed

section \<open>What recovery reports\<close>

definition rollbacks :: "string \<Rightarrow> target_plan list \<Rightarrow> (runtime_step \<times> string \<times> string \<times> bool) list" where
  "rollbacks pid ts = map (\<lambda>t. (Step_Rollback, pid, target_plan_key t, True)) ts"

text \<open>A call that leaves no error was made, and answered.\<close>

lemma target_call_no_error:
  assumes "attempt (target_call kind v t fs action) s = (Inr r, s')" and "error_of r = []"
  obtains e where "adds [e] s s'" and "call_of e = (kind, pb_id v, target_plan_key t, True)"
proof -
  have "target_call kind v t fs action s \<noteq> (Inl [], s')"
    by (simp add: target_call_def runtime_call_def Let_def)
  moreover obtain a s1 where "target_call kind v t fs action s = (a, s1)" by (cases "target_call kind v t fs action s")
  ultimately obtain u where "target_call kind v t fs action s = (Inr u, s')"
    using assms by (cases a) (auto simp: attempt_simp error_of_def)
  then show thesis using that by (rule target_call_Inr)
qed

lemma recover_targets_done:
  assumes "recover_targets c ts v fs failed s = (Inr (v', fs', []) :: unit + _, s')"
  shows "failed = [] \<and> pb_id v' = pb_id v \<and> pb_plan v' = pb_plan v \<and>
    (\<exists>es. adds es s s' \<and> map call_of es = rollbacks (pb_id v) ts)"
  using assms
proof (induction ts arbitrary: v fs failed s)
  case Nil
  then show ?case by (auto simp: rollbacks_def adds_def intro!: exI [of _ "[]"])
next
  case (Cons t ts)
  show ?case
  proof (cases "target_index (pb_targets v) t 0")
    case None
    with Cons.prems have "recover_targets c ts v fs (failed @ [Invalid_Input]) s = (Inr (v', fs', []) :: unit + _, s')" by simp
    from Cons.IH [OF this] show ?thesis by simp
  next
    case (Some i)
    from Cons.prems Some obtain gs x s1 hs y s2 result s3 now s4 r s5 result' where
        renew: "background (renew_fences (co_ttl c) fs) s = (Inr (gs, x) :: unit + _, s1)"
      and call: "(if x \<noteq> [] then return_ok (fs, x)
          else andthen (attempt (target_call Step_Rollback v t gs ''rollback'')) (\<lambda>r. return_ok (gs, error_of r))) s1 =
          (Inr (hs, y) :: unit + _, s2)"
      and mark: "(if y \<noteq> [] then return_ok (failed_target Pub_RecoveryRequired ''TARGET_ROLLBACK_FAILED'' y (pb_targets v ! i))
          else andthen read_now (\<lambda>now. return_ok ((rolled_back now (pb_targets v ! i))\<lparr>pt_code := [], pt_message := []\<rparr>))) s2 =
          (Inr result :: unit + _, s3)"
      and save: "attempt (save_target (pb_id v) result') (s3\<lparr>step := Suc (step s3)\<rparr>) = (Inr r :: unit + _, s5)"
      and rest: "recover_targets c ts (set_target v i result') hs (failed @ y @ error_of r) s5 = (Inr (v', fs', []) :: unit + _, s')"
      by (auto simp: andthen_eq_Inr_iff Let_def read_now_def)
    from Cons.IH [OF rest] obtain es where fin: "failed = []" "y = []" "error_of r = []"
      "pb_id v' = pb_id v" "pb_plan v' = pb_plan v" "adds es s5 s'" "map call_of es = rollbacks (pb_id v) ts"
      by (auto simp: set_target_def)
    with call obtain r1 where "attempt (target_call Step_Rollback v t gs ''rollback'') s1 = (Inr r1 :: unit + _, s2)" "error_of r1 = []"
      by (auto simp: andthen_eq_Inr_iff split: if_splits)
    then obtain e where e: "adds [e] s1 s2" "call_of e = (Step_Rollback, pb_id v, target_plan_key t, True)"
      by (rule target_call_no_error)
    have quiet: "moves (emits {}) (background (renew_fences (co_ttl c) fs))" by (intro moves_intros)
    from adds_nothing [OF quiet renew] have "adds [] s s1" .
    moreover have "adds [] s2 s3" using mark fin(2) by (auto simp: andthen_eq_Inr_iff read_now_def adds_def plans_def)
    moreover have "moves (emits {}) (attempt (save_target (pb_id v) result'))" by (intro moves_intros)
    from adds_nothing [OF this save] have "adds [] s3 s5" by simp
    ultimately have "adds ([e] @ es) s s'" using e(1) fin(6) by (simp add: adds_def)
    moreover have "map call_of ([e] @ es) = rollbacks (pb_id v) (t # ts)" using e(2) fin(7) by (simp add: rollbacks_def)
    ultimately show ?thesis using fin by blast
  qed
qed

lemma complete_targets_done:
  assumes "complete_targets c i ts v fs failed s = (Inr (v', fs', []) :: unit + _, s')"
  shows "failed = [] \<and> pb_id v' = pb_id v \<and> (\<exists>es. adds es s s' \<and> map call_of es = completions (pb_id v) ts)"
  using assms
proof (induction ts arbitrary: i v fs failed s)
  case Nil
  then show ?case by (auto simp: completions_def adds_def intro!: exI [of _ "[]"])
next
  case (Cons t ts)
  let ?mark = "with_replicas c (mark_completed t (pn_hash (pb_plan v)))"
  from Cons.prems obtain gs x s1 y s2 result z s3 now s4 r s5 result' where
      renew: "renew_fences (co_ttl c) fs s = (Inr (gs, x) :: unit + _, s1)"
    and call: "(if x \<noteq> [] then return_ok x
        else andthen (attempt (target_call Step_Complete v t gs ''complete'')) (\<lambda>r. return_ok (error_of r))) s1 =
        (Inr y :: unit + _, s2)"
    and mark: "(if y \<noteq> []
        then
          andthen (ignoring (with_replicas c (mark_target_error t (pn_hash (pb_plan v)) Stage_Complete y))) (\<lambda>_.
          return_ok (failed_target Pub_RecoveryRequired ''TARGET_COMPLETE_FAILED'' y (pb_targets v ! i), y))
        else
          andthen (attempt ?mark) (\<lambda>r.
          case r of
            Inl e \<Rightarrow> return_ok (failed_target Pub_RecoveryRequired ''REPLICA_COMPLETE_STATE_FAILED'' e (pb_targets v ! i), e)
          | Inr _ \<Rightarrow> andthen read_now (\<lambda>now. return_ok (completed_target now (pb_targets v ! i), [])))) s2 =
        (Inr (result, z) :: unit + _, s3)"
    and save: "attempt (save_target (pb_id v) result') (s3\<lparr>step := Suc (step s3)\<rparr>) = (Inr r :: unit + _, s5)"
    and rest: "complete_targets c (Suc i) ts (set_target v i result') gs (failed @ z @ error_of r) s5 = (Inr (v', fs', []) :: unit + _, s')"
    by (auto simp: andthen_eq_Inr_iff Let_def read_now_def)
  from Cons.IH [OF rest] obtain es where fin: "failed = []" "z = []" "error_of r = []" "pb_id v' = pb_id v"
    "adds es s5 s'" "map call_of es = completions (pb_id v) ts"
    by (auto simp: set_target_def)
  have y: "y = []" using mark fin(2) by (auto simp: andthen_eq_Inr_iff split: if_splits)
  with call obtain r1 where "attempt (target_call Step_Complete v t gs ''complete'') s1 = (Inr r1 :: unit + _, s2)" "error_of r1 = []"
    by (auto simp: andthen_eq_Inr_iff split: if_splits)
  then obtain e where e: "adds [e] s1 s2" "call_of e = (Step_Complete, pb_id v, target_plan_key t, True)"
    by (rule target_call_no_error)
  have "adds [] s s1" by (rule adds_nothing [OF emits.fences_quiet(2) renew])
  moreover have "moves (emits {}) (andthen (attempt ?mark) (\<lambda>r.
      case r of
        Inl e \<Rightarrow> return_ok (failed_target Pub_RecoveryRequired ''REPLICA_COMPLETE_STATE_FAILED'' e (pb_targets v ! i), e)
      | Inr _ \<Rightarrow> andthen read_now (\<lambda>now. return_ok (completed_target now (pb_targets v ! i), []))))" by (intro moves_intros)
  from adds_nothing [OF this] mark y have "adds [] s2 s3" by simp
  moreover have "moves (emits {}) (attempt (save_target (pb_id v) result'))" by (intro moves_intros)
  from adds_nothing [OF this save] have "adds [] s3 s5" by simp
  ultimately have "adds ([e] @ es) s s'" using e(1) fin(5) by (simp add: adds_def)
  moreover have "map call_of ([e] @ es) = completions (pb_id v) (t # ts)" using e(2) fin(6) by (simp add: completions_def)
  ultimately show ?case using fin by blast
qed

lemma save_and_return_status:
  assumes "save_and_return v e s = (Inr (w, e') :: unit + _, s')" and "keyed s"
  shows "pb_status w = pb_status v \<or> w = empty_publication"
proof (cases "store_save v s")
  case (Pair r s1)
  with assms store_save_Inr(5) [of v s] show ?thesis
    by (cases r) (auto simp: save_and_return_def andthen_def attempt_simp)
qed

lemma save_and_return_error: "save_and_return v e s = (Inr (w, e') :: unit + _, s') \<Longrightarrow> e \<noteq> [] \<Longrightarrow> e' \<noteq> []"
  by (auto simp: save_and_return_def andthen_def attempt_simp split: sum.splits)

lemma recover_rollback_status:
  assumes run: "recover_rollback c v fs s = (Inr (w, e) :: unit + _, s')" and "keyed s"
  shows "pb_status w \<noteq> Pub_Succeeded" and "pb_status w = Pub_RolledBack \<Longrightarrow> \<exists>es. adds es s s' \<and> map call_of es = rollbacks (pb_id v) (rev (pn_targets (pb_plan v)))"
proof -
  obtain v1 fs1 failed s1 x y where targets: "recover_targets c (rev (pn_targets (pb_plan v))) v fs [] s =
      (Inr (v1, fs1, failed) :: unit + _, s1)"
    and save: "save_and_return x y (s1\<lparr>step := Suc (step s1)\<rparr>) = (Inr (w, e) :: unit + _, s')"
    and status: "failed \<noteq> [] \<Longrightarrow> pb_status x = Pub_RecoveryRequired" "pb_status x \<noteq> Pub_Succeeded"
    using run by (auto simp: recover_rollback_def andthen_eq_Inr_iff read_now_def Let_def split: if_splits)
  have "emits {Step_Rollback} s s1"
  proof -
    have "moves (emits {Step_Rollback}) (recover_targets c ts v fs failed)" for ts v fs failed
      by (induction ts arbitrary: v fs failed)
        (simp_all only: recover_targets.simps, (intro moves_intros emits.target_and_world_calls; (assumption | simp)?)+)
    from movesD [OF this targets] show ?thesis .
  qed
  from emits_keyed(1) [OF this] assms(2) have key: "keyed (s1\<lparr>step := Suc (step s1)\<rparr>)" by (simp add: keyed_def)
  note saved = save_and_return_status [OF save key]
  show "pb_status w \<noteq> Pub_Succeeded" using saved status(2) by (auto simp: empty_publication_def)
  assume rolled: "pb_status w = Pub_RolledBack"
  have "failed = []"
  proof (rule ccontr)
    assume "failed \<noteq> []"
    with saved status(1) rolled show False by (auto simp: empty_publication_def)
  qed
  with targets recover_targets_done obtain es where "adds es s s1" "map call_of es = rollbacks (pb_id v) (rev (pn_targets (pb_plan v)))"
    by blast
  moreover have "moves (emits {}) (save_and_return x y)" by (intro moves_intros)
  from adds_nothing [OF this save] have "adds [] s1 s'" by simp
  ultimately show "\<exists>es. adds es s s' \<and> map call_of es = rollbacks (pb_id v) (rev (pn_targets (pb_plan v)))"
    by (metis adds_Nil_trans(2))
qed

lemma complete_committed_status:
  assumes run: "complete_committed c v fs s = (Inr (w, e) :: unit + _, s')" and key: "keyed s" and plan: "plan_of (pb_id v) s = Some p"
    and status: "pb_status w = Pub_Succeeded \<or> e = []"
  shows "\<exists>es. adds es s s' \<and> map call_of es = completions (pb_id v) (pn_targets p)"
proof -
  let ?v1 = "v\<lparr>pb_status := Pub_Completing, pb_outcome := Out_Full, pb_fences := fs, pb_updated := clock s (step s)\<rparr>"
  let ?s = "s\<lparr>step := Suc (step s)\<rparr>"
  obtain r s1 where save: "store_save ?v1 ?s = (r, s1)" by (cases "store_save ?v1 ?s")
  have s1: "adds [] s s1" using adds_nothing [OF emits.writes(1) save] by simp
  have keys: "keyed ?s" "keyed (s1\<lparr>step := n\<rparr>)" for n using key s1 by (simp_all add: keyed_def adds_def)
  show ?thesis
  proof (cases r)
    case (Inl x)
    let ?v2 = "?v1\<lparr>pb_status := Pub_RecoveryRequired, pb_code := ''COMPLETE_STATE_FAILED'', pb_message := errs_text x,
      pb_updated := clock s1 (step s1)\<rparr>"
    obtain r2 s2 where save2: "store_save ?v2 (s1\<lparr>step := Suc (step s1)\<rparr>) = (r2, s2)"
      by (cases "store_save ?v2 (s1\<lparr>step := Suc (step s1)\<rparr>)")
    have "pb_status w = Pub_RecoveryRequired \<and> e \<noteq> []"
      using run save Inl save2 store_save_Inr(5) [of ?v2 "s1\<lparr>step := Suc (step s1)\<rparr>" w] keys
      by (cases r2) (auto simp: complete_committed_def andthen_def attempt_simp read_now_def Let_def)
    with status show ?thesis by simp
  next
    case (Inr v2)
    note saved = save [unfolded Inr]
    have v2: "pb_id v2 = pb_id v" "pb_plan v2 = p"
      using store_save_Inr(1,2) [OF saved] plan by (auto simp: plan_of_def)
    obtain v3 fs3 failed s3 x y m where targets: "complete_targets c 0 (pn_targets p) v2 fs [] s1 =
        (Inr (v3, fs3, failed) :: unit + _, s3)"
      and last: "save_and_return x y (s3\<lparr>step := m\<rparr>) = (Inr (w, e) :: unit + _, s')"
      and bad: "failed \<noteq> [] \<Longrightarrow> pb_status x = Pub_RecoveryRequired \<and> y \<noteq> []"
      using run saved v2 by (auto simp: complete_committed_def andthen_eq_Inr_iff attempt_simp read_now_def Let_def split: if_splits)
    have "emits {Step_Complete} s1 s3"
    proof -
      have "moves (emits {Step_Complete}) (complete_targets c i ts v fs failed)" for i ts v fs failed
        by (induction ts arbitrary: i v fs failed)
          (simp_all only: complete_targets.simps, (intro moves_intros emits.target_and_world_calls; (assumption | simp)?)+)
      from movesD [OF this targets] show ?thesis .
    qed
    from emits_keyed(1) [OF this] keys(2) [of "step s1"] have "keyed (s3\<lparr>step := m\<rparr>)" by (simp add: keyed_def)
    with save_and_return_status [OF last] save_and_return_error [OF last] bad status have "failed = []"
      by (cases failed) (auto simp: empty_publication_def)
    with targets complete_targets_done obtain es where "adds es s1 s3" "map call_of es = completions (pb_id v2) (pn_targets p)"
      by blast
    moreover have "moves (emits {}) (save_and_return x y)" by (intro moves_intros)
    from adds_nothing [OF this last] have "adds [] s3 s'" by simp
    ultimately show ?thesis using s1 v2 by (metis adds_Nil_trans)
  qed
qed

lemma complete_and_activate_status:
  assumes run: "complete_and_activate c v fs s = (Inr (w, e) :: unit + _, s')" and key: "keyed s" and plan: "plan_of (pb_id v) s = Some p"
    and status: "pb_status w = Pub_Succeeded"
  shows "\<exists>es fs. runtime_log s' = runtime_log s @ es @ fs \<and> map call_of es = completions (pb_id v) (pn_targets p) \<and>
    re_step ` set fs \<subseteq> {Step_Stop, Step_Start}"
proof -
  from run obtain w1 e1 s1 where committed: "complete_committed c v fs s = (Inr (w1, e1) :: unit + _, s1)"
    and rest: "(if e1 \<noteq> [] \<or> ap_mode (ac_policy (pb_activation w1)) \<noteq> Mode_Restart then return_ok (w1, e1)
       else activate_committed c w1 fs (ac_policy (pb_activation w1)) None) s1 = (Inr (w, e) :: unit + _, s')"
    by (auto simp: complete_and_activate_def andthen_eq_Inr_iff)
  show ?thesis
  proof (cases "e1 \<noteq> [] \<or> ap_mode (ac_policy (pb_activation w1)) \<noteq> Mode_Restart")
    case True
    with rest have "w = w1" "s' = s1" by auto
    with complete_committed_status [OF committed key plan] status show ?thesis by (force simp: adds_def)
  next
    case False
    with rest have "activate_committed c w1 fs (ac_policy (pb_activation w1)) None s1 = (Inr (w, e) :: unit + _, s')" by simp
    from movesD [OF emits.activation_moves this, of "{Step_Stop, Step_Start}"] have "emits {Step_Stop, Step_Start} s1 s'" by simp
    then obtain xs where xs: "runtime_log s' = runtime_log s1 @ xs" "re_step ` set xs \<subseteq> {Step_Stop, Step_Start}"
      by (auto simp: emits_def logs_def)
    from complete_committed_status [OF committed key plan] False obtain es where
      "runtime_log s1 = runtime_log s @ es" "map call_of es = completions (pb_id v) (pn_targets p)" by (auto simp: adds_def)
    with xs show ?thesis by (intro exI [of _ es] exI [of _ xs]) simp
  qed
qed

text \<open>C9: what recovery reports is what happened. A publication that was not at its end (its row neither failed, nor
rolled back, nor succeeded) and that it reports as succeeded had the decision to commit and had every target completed,
in order and each call answered; one it reports as rolled back without a decision had every target rolled back, from the
last to the first. One that had failed or been rolled back before is reported with the status of its row (or, when the
row cannot be read, as the empty publication) and no call is made: how far that rollback went is what \<open>Publish\<close> left. One
that had succeeded at most has worlds stopped and started, for an activation that was not finished.\<close>

theorem recovery_report_is_true:
  assumes run: "recover_publication c pid s = (Inr (v, e) :: unit + _, s')" and row: "row_of pid s = Some r" and key: "keyed s"
  shows "\<exists>es. runtime_log s' = runtime_log s @ es \<and>
    (if pr_status r \<in> {Pub_Failed, Pub_RolledBack}
     then es = [] \<and> (pb_status v = pr_status r \<or> v = empty_publication)
     else if pr_status r = Pub_Succeeded then re_step ` set es \<subseteq> {Step_Stop, Step_Start}
     else
       (pb_status v = Pub_Succeeded \<longrightarrow> pr_decision r \<and>
          map call_of (filter (\<lambda>e. re_step e = Step_Complete) es) = completions pid (pn_targets (pr_plan r))) \<and>
       (pb_status v = Pub_RolledBack \<and> \<not> pr_decision r \<longrightarrow> map call_of es = rollbacks pid (rev (pn_targets (pr_plan r)))))"
  using run row key
proof (cases rule: recover_publication_cases)
  case quiet
  have "runtime_log s' = runtime_log s @ []" using quiet(1) by (auto simp: emits_def logs_def)
  then show ?thesis using quiet(2) by (intro exI [of _ "[]"]) (auto simp: empty_publication_def)
next
  case activated
  then show ?thesis by (auto simp: emits_def logs_def)
next
  case (committed pub fs s1 s2)
  have "keyed s1" "plan_of (pb_id pub) s1 = Some (pr_plan r)"
    using emits_keyed [OF committed(1)] key plan_of_row [OF row] committed(6) by simp_all
  note completed = complete_and_activate_status [OF committed(2) this]
  have "emits {Step_Complete, Step_Stop, Step_Start} s1 s2"
    by (rule movesD [OF emits.complete_moves committed(2)]) simp
  then obtain es where es: "runtime_log s2 = runtime_log s1 @ es" by (auto simp: emits_def logs_def)
  have logs: "runtime_log s1 = runtime_log s" "runtime_log s' = runtime_log s2"
    using committed(1,3) by (auto simp: emits_def logs_def)
  have "runtime_log s' = runtime_log s @ es \<and>
    (pb_status v = Pub_Succeeded \<longrightarrow> pr_decision r \<and>
       map call_of (filter (\<lambda>e. re_step e = Step_Complete) es) = completions pid (pn_targets (pr_plan r))) \<and>
    (pb_status v = Pub_RolledBack \<and> \<not> pr_decision r \<longrightarrow> map call_of es = rollbacks pid (rev (pn_targets (pr_plan r))))"
  proof (intro conjI impI)
    show "runtime_log s' = runtime_log s @ es" using es logs by simp
    show "pr_decision r" by fact
    assume "pb_status v = Pub_Succeeded"
    from completed [OF this] obtain xs ys where split: "es = xs @ ys" "map call_of xs = completions pid (pn_targets (pr_plan r))"
      "re_step ` set ys \<subseteq> {Step_Stop, Step_Start}"
      using es committed(6) by auto
    have "filter (\<lambda>e. re_step e = Step_Complete) ys = []" using split(3) by (force simp: filter_empty_conv)
    moreover have "filter (\<lambda>e. re_step e = Step_Complete) xs = xs"
    proof (rule filter_True)
      show "\<forall>x \<in> set xs. re_step x = Step_Complete"
      proof
        fix x
        assume "x \<in> set xs"
        then have "call_of x \<in> set (completions pid (pn_targets (pr_plan r)))" by (simp add: split(2) [symmetric])
        then show "re_step x = Step_Complete" by (auto simp: completions_def call_of_def)
      qed
    qed
    ultimately show "map call_of (filter (\<lambda>e. re_step e = Step_Complete) es) = completions pid (pn_targets (pr_plan r))"
      using split by simp
  qed (use committed(5) in simp)
  then show ?thesis using committed(4) by auto
next
  case (undecided pub fs s1 s2)
  have "keyed s1" using emits_keyed(1) [OF undecided(1)] key by simp
  note rolled = recover_rollback_status [OF undecided(2) this]
  have "emits {Step_Rollback} s1 s2" by (rule movesD [OF emits.rollback_moves(2) undecided(2)]) simp
  then obtain es where es: "runtime_log s2 = runtime_log s1 @ es" by (auto simp: emits_def logs_def)
  have logs: "runtime_log s1 = runtime_log s" "runtime_log s' = runtime_log s2"
    using undecided(1,3) by (auto simp: emits_def logs_def)
  show ?thesis using rolled es logs undecided(4,5,6,7) by (auto simp: adds_def)
qed

section \<open>Recovery gets through\<close>

definition covers :: "mod_plan \<Rightarrow> publication \<Rightarrow> bool" where
  "covers p v \<longleftrightarrow> set (plan_pairs p) \<subseteq> (\<lambda>t. (pt_target t, pt_installation t)) ` set (pb_targets v)"

lemma store_get_covers:
  assumes "store_get pid s = (Inr v, s')" and "map (\<lambda>t. (tr_target t, tr_installation t)) (rows_for pid s) = plan_pairs p"
  shows "covers p v"
proof -
  from assms(1) have "pb_targets v = map pub_target_from_record (sort_key (\<lambda>t. (tr_target t, tr_installation t)) (rows_for pid s))"
    by (auto simp: store_get_def andthen_eq_Inr_iff statement_eq_Inr lift_def rows_for_def split: option.splits)
  with arg_cong [OF assms(2), of set] show ?thesis
    by (auto simp: covers_def pub_target_from_record_def image_image)
qed

lemma store_save_covers:
  assumes "store_save v s = (Inr v', s')" and "pb_id v = pid" and "stored pid p s"
  shows "covers p v'"
proof -
  from assms(1,2) obtain s1 where get: "store_get pid s1 = (Inr v', s')" and same: "target_rows s1 = target_rows s"
    by (auto simp: store_save_def andthen_eq_Inr_iff statement_eq_Inr lift_def Let_def query_def modify_def only_steps_def
        split: option.splits)
  have "map (\<lambda>t. (tr_target t, tr_installation t)) (rows_for pid s1) = plan_pairs p"
    using assms(3) same by (simp add: stored_def rows_for_def)
  with get show ?thesis by (rule store_get_covers)
qed

lemma target_index_found:
  assumes "(tg_target t, tg_installation t) \<in> (\<lambda>t. (pt_target t, pt_installation t)) ` set ts"
  shows "\<exists>j. target_index ts t i = Some (i + j) \<and> j < length ts \<and> pt_target (ts ! j) = tg_target t \<and> pt_installation (ts ! j) = tg_installation t"
  using assms
proof (induction ts arbitrary: i)
  case (Cons r rs)
  show ?case
  proof (cases "pt_target r = tg_target t \<and> pt_installation r = tg_installation t")
    case False
    then obtain j where "target_index rs t (Suc i) = Some (Suc i + j)" "j < length rs" "pt_target (rs ! j) = tg_target t"
      "pt_installation (rs ! j) = tg_installation t" using Cons.IH [of "Suc i"] Cons.prems by auto
    then show ?thesis using False by (intro exI [of _ "Suc j"]) auto
  qed (intro exI [of _ 0], simp)
qed simp

lemma covers_set_target:
  assumes "covers p v" and "i < length (pb_targets v)" and "pt_target t = pt_target (pb_targets v ! i)"
    and "pt_installation t = pt_installation (pb_targets v ! i)"
  shows "covers p (set_target v i t)"
proof -
  let ?f = "\<lambda>t. (pt_target t, pt_installation t)"
  have "?f t = ?f (pb_targets v ! i)" using assms(3,4) by simp
  then have "map ?f ((pb_targets v)[i := t]) = map ?f ((pb_targets v)[i := pb_targets v ! i])" by (simp only: map_update)
  then have "map ?f ((pb_targets v)[i := t]) = map ?f (pb_targets v)" by (simp only: list_update_id)
  from arg_cong [OF this, of set] have "?f ` set ((pb_targets v)[i := t]) = ?f ` set (pb_targets v)" by (simp only: set_map)
  then show ?thesis using assms(1) by (simp add: covers_def set_target_def)
qed

lemma background_steady:
  assumes "steady ttl s" and "m s = (r, s')" and "cancelled s' = cancelled s"
  shows "background m s = (r, s')"
proof -
  have never: "cancelled s = (\<lambda>_. False)" using steadyD(2) [OF assms(1)] by auto
  have "s\<lparr>cancelled := cancelled s\<rparr> = s" "s'\<lparr>cancelled := cancelled s'\<rparr> = s'" by simp_all
  then have "s\<lparr>cancelled := (\<lambda>_. False)\<rparr> = s" "s'\<lparr>cancelled := (\<lambda>_. False)\<rparr> = s'" by (simp_all only: assms(3) never)
  then show ?thesis by (simp only: background_def never assms(2) prod.case)
qed

lemma recover_targets_goes:
  assumes "running c pid p fs s" and "publication_fits pid p v" and "covers p v" and "set ts \<subseteq> set (pn_targets p)"
  shows "\<exists>v' fs' s'. recover_targets c ts v fs [] s = (Inr (v', fs', []) :: 'f + _, s') \<and> running c pid p fs' s' \<and>
    publication_fits pid p v'"
  using assms
proof (induction ts arbitrary: v fs s)
  case (Cons t ts)
  have t: "t \<in> set (pn_targets p)" using Cons.prems(4) by simp
  note v = Cons.prems(2)
  note f = fits_fields [OF v]
  have "(tg_target t, tg_installation t) \<in> (\<lambda>t. (pt_target t, pt_installation t)) ` set (pb_targets v)"
    using Cons.prems(3) t unfolding covers_def plan_pairs_def by force
  from target_index_found [OF this, of 0] obtain i where i: "target_index (pb_targets v) t 0 = Some i" "i < length (pb_targets v)"
    by auto
  obtain fs1 s1 where s1: "renew_fences (co_ttl c) fs s = (Inr (fs1, []) :: 'f + _, s1)" "running c pid p fs1 s1"
    by (rule running_renew [OF Cons.prems(1)])
  have "cancelled s1 = cancelled s"
    using running_steady [OF s1(2)] running_steady [OF Cons.prems(1)] by (auto intro!: ext dest: steadyD(2))
  then have renew: "background (renew_fences (co_ttl c) fs) s = (Inr (fs1, []) :: 'f + _, s1)"
    by (intro background_steady [of "co_ttl c"] running_steady [OF Cons.prems(1)] s1(1))
  obtain s2 where s2: "target_call Step_Rollback v t fs1 ''rollback'' s1 = (Inr (), s2)" "running c pid p fs1 s2"
    by (rule running_call [OF s1(2)])
  let ?s3 = "s2\<lparr>step := Suc (Suc (step s2))\<rparr>"
  let ?t1 = "(rolled_back (clock s2 (step s2)) (pb_targets v ! i))\<lparr>pt_code := [], pt_message := [],
    pt_updated := clock s2 (Suc (step s2))\<rparr>"
  let ?v1 = "set_target v i ?t1"
  have pair: "(pt_target ?t1, pt_installation ?t1) \<in> set (plan_pairs p)"
    using fits_pair [OF v] i(2) f by (simp add: rolled_back_def)
  have v1: "publication_fits pid p ?v1" by (rule fits_set_target [OF v pair])
  have c1: "covers p ?v1" by (rule covers_set_target [OF Cons.prems(3) i(2)]) (simp_all add: rolled_back_def)
  have "running c pid p fs1 ?s3" using s2(2) by simp
  then obtain t2 s4 where s4: "save_target pid ?t1 ?s3 = (Inr t2, s4)" "running c pid p fs1 s4"
    by (rule running_save_target [OF _ pair]) (simp add: rolled_back_def)
  have "\<exists>v' fs' s'. recover_targets c ts ?v1 fs1 [] s4 = (Inr (v', fs', []) :: 'f + _, s') \<and> running c pid p fs' s' \<and>
      publication_fits pid p v'"
    by (rule Cons.IH [OF s4(2) v1 c1]) (use Cons.prems(4) in simp)
  then show ?case using i(1) f
    by (simp add: andthen_def attempt_simp error_of_def read_now_def Let_def renew s2(1) s4(1))
qed simp

text \<open>A publication of the manual policy (its row \<open>row_fits\<close> the plan) that was left in the middle, by a process whose
leases have run out, in a system where nothing fails.\<close>

definition interrupted :: "coordinator \<Rightarrow> string \<Rightarrow> mod_plan \<Rightarrow> 's pub_system_scheme \<Rightarrow> bool" where
  "interrupted c pid p s \<longleftrightarrow>
     steady (co_ttl c) s \<and> lease_inv s \<and> (\<forall>n. valid_id (fresh s n)) \<and> stored pid p s \<and>
     (co_replicas c \<longrightarrow> keyed_replicas s \<and> (\<forall>t \<in> set (pn_targets p). replicated t s)) \<and>
     (\<forall>r \<in> set (publication_lease_resources p). abs_leases (lease_rows s) r = None \<and>
        (\<forall>n. lease_text r (publication_operation_key (pid @ '':recover:'' @ fresh s n)) (co_ttl c)))"

lemma recover_rollback_goes:
  assumes "running c pid p fs s" and "publication_fits pid p v" and "covers p v"
  shows "\<exists>v' s'. recover_rollback c v fs s = (Inr (v', []) :: 'f + _, s') \<and> pb_id v' = pid \<and> pb_status v' = Pub_RolledBack"
proof -
  note f = fits_fields [OF assms(2)]
  have "\<exists>v' fs' s'. recover_targets c (rev (pn_targets p)) v fs [] s = (Inr (v', fs', []) :: 'f + _, s') \<and> running c pid p fs' s' \<and>
      publication_fits pid p v'" by (rule recover_targets_goes [OF assms]) simp
  then obtain v1 fs1 s1 where s1: "recover_targets c (rev (pn_targets p)) v fs [] s = (Inr (v1, fs1, []) :: 'f + _, s1)"
    "running c pid p fs1 s1" "publication_fits pid p v1" by blast
  let ?s1 = "s1\<lparr>step := Suc (step s1)\<rparr>" and ?now = "clock s1 (step s1)"
  have save: "\<exists>w s'. store_save (v1\<lparr>pb_fences := fs1, pb_updated := ?now, pb_finished := Some ?now, pb_status := Pub_RolledBack,
      pb_outcome := Out_None, pb_code := code, pb_message := message\<rparr>) ?s1 = (Inr w, s') \<and>
    pb_id w = pid \<and> pb_status w = Pub_RolledBack" for code message
  proof -
    let ?v = "v1\<lparr>pb_fences := fs1, pb_updated := ?now, pb_finished := Some ?now, pb_status := Pub_RolledBack,
      pb_outcome := Out_None, pb_code := code, pb_message := message\<rparr>"
    have "running c pid p fs1 ?s1" "publication_fits pid p ?v"
      using s1(2,3) running_writable [OF s1(2)] by (simp_all add: publication_fits_def)
    then obtain w s2 where w: "store_save ?v ?s1 = (Inr w, s2)" "publication_fits pid p w" "pb_status w = pb_status ?v"
      by (rule running_save)
    then show ?thesis using fits_fields [OF w(2)] by simp
  qed
  obtain code message where run: "recover_rollback c v fs s = (save_and_return (v1\<lparr>pb_fences := fs1, pb_updated := ?now,
      pb_finished := Some ?now, pb_status := Pub_RolledBack, pb_outcome := Out_None, pb_code := code, pb_message := message\<rparr>) [] ?s1
      :: ('f + _) \<times> _)"
    using s1(1) f by (simp add: recover_rollback_def andthen_def read_now_def Let_def)
  show ?thesis using save [where code = code and message = message] by (auto simp: run save_and_return_def andthen_def attempt_simp)
qed

lemma recover_interrupted:
  fixes s :: "'s pub_system_scheme"
  assumes ready: "interrupted c pid p s" and row: "row_of pid s = Some r"
    and unfinished: "pr_status r \<notin> {Pub_Failed, Pub_RolledBack, Pub_Succeeded}"
  shows "\<exists>v s'. recover_publication c pid s = (Inr (v, []) :: unit + _, s') \<and> pb_id v = pid \<and>
    pb_status v = (if pr_decision r then Pub_Succeeded else Pub_RolledBack)"
proof -
  from ready have steady: "steady (co_ttl c) s" and inv: "lease_inv s" and ids: "\<And>n. valid_id (fresh s n)" and st: "stored pid p s"
    and replicas: "co_replicas c \<longrightarrow> keyed_replicas s \<and> (\<forall>t \<in> set (pn_targets p). replicated t s)"
    and leases: "\<And>r n. r \<in> set (publication_lease_resources p) \<Longrightarrow> abs_leases (lease_rows s) r = None \<and>
      lease_text r (publication_operation_key (pid @ '':recover:'' @ fresh s n)) (co_ttl c)"
    by (auto simp: interrupted_def)
  from st have p: "plan_check p = None" by (simp add: stored_def storable_def)
  obtain v where v: "store_get pid s = (Inr v, s\<lparr>step := Suc (Suc (step s))\<rparr>)" "publication_fits pid p v"
    by (rule store_get_stored [OF steady st])
  have status: "pb_status v = pr_status r" by (rule store_get_Inr [OF v(1)]) (use row in simp)
  note f = fits_fields [OF v(2)]
  let ?n = "Suc (Suc (step s))"
  let ?key = "pid @ '':recover:'' @ fresh s ?n" and ?s1 = "s\<lparr>step := Suc ?n\<rparr>"
  have "steady (co_ttl c) ?s1" "lease_inv ?s1" "\<And>m. valid_id (fresh ?s1 m)"
    "\<And>r. r \<in> set (publication_lease_resources p) \<Longrightarrow> abs_leases (lease_rows ?s1) r = None \<and>
      lease_text r (publication_operation_key ?key) (co_ttl c)"
    using steady inv ids leases by (simp_all add: lease_inv_def)
  from acquire_plan_free [OF this(1-3) plan_resources [OF p] this(4)]
  obtain fs s2 where s2: "acquire_with_borrowed (co_ttl c) p ?key [] ?s1 = (Inr (fs, fs), s2)"
    "armed (co_ttl c) fs s2" "only_leases ?s1 s2" by blast
  then have acquired: "acquire_fences (co_ttl c) p ?key ?s1 = (Inr fs, s2)"
    by (simp add: acquire_with_borrowed_def andthen_eq_Inr_iff)
  from s2(3) obtain m ls where form: "s2 = s\<lparr>step := m, lease_rows := ls\<rparr>" by (auto simp: only_leases_def)
  let ?s2 = "s2\<lparr>step := Suc (step s2)\<rparr>" and ?v = "v\<lparr>pb_fences := fs, pb_updated := clock s2 (step s2)\<rparr>"
  have "stored pid p s2" "co_replicas c \<longrightarrow> keyed_replicas s2 \<and> (\<forall>t \<in> set (pn_targets p). replicated t s2)"
    using st replicas by (simp_all add: form)
  with s2(2) have run2: "running c pid p fs ?s2" by (simp add: running_def)
  have fits: "publication_fits pid p ?v" using v(2) armed_writable [OF s2(2)] by (simp add: publication_fits_def)
  obtain w s3 where s3: "store_save ?v ?s2 = (Inr w, s3)" "running c pid p fs s3" "publication_fits pid p w"
    "pb_decision w = pb_decision ?v" by (rule running_save [OF run2 fits])
  have "pb_id ?v = pid" "stored pid p ?s2" using f run2 unfolding running_def by auto
  with s3(1) have covered: "covers p w" by (rule store_save_covers)
  have decision: "pb_decision w = pr_decision r"
    using s3(4) by (simp) (rule store_get_Inr [OF v(1)], use row in simp)
  have unfin: "\<not> activation_unfinished v" using status unfinished by (simp add: activation_unfinished_def)
  obtain u s4 where u: "(if pb_decision w then complete_and_activate c w fs else recover_rollback c w fs) s3 = (Inr (u, []) :: unit + _, s4)"
    "pb_id u = pid" "pb_status u = (if pr_decision r then Pub_Succeeded else Pub_RolledBack)"
  proof (cases "pr_decision r")
    case True
    from complete_committed_goes [OF s3(2,3)] obtain u s4 where u: "complete_committed c w fs s3 = (Inr (u, []) :: unit + _, s4)"
      "pb_status u = Pub_Succeeded" "publication_fits pid p u" by blast
    then have "ap_mode (ac_policy (pb_activation u)) = Mode_Manual"
      by (simp add: publication_fits_def initial_activation_def manual_policy_def)
    with u True decision fits_fields [OF u(3)] show thesis
      by (intro that [of u s4]) (simp_all add: complete_and_activate_def andthen_def)
  next
    case False
    with recover_rollback_goes [OF s3(2,3) covered] decision show thesis using that by auto
  qed
  have "returns (release_fences fs :: ('s pub_system_scheme, unit, unit) act)" by (intro returns_intros)
  from returns_eq [OF this, of s4] obtain s5 where "release_fences fs s4 = (Inr () :: unit + _, s5)" by auto
  then have "recover_publication c pid s = (Inr (u, []) :: unit + _, s5)"
    using v(1) f status unfinished unfin acquired s3(1) u(1)
    by (simp add: recover_publication_def andthen_def attempt_simp new_uuid_def read_now_def Let_def)
  with u(2,3) show ?thesis by blast
qed

section \<open>A save that fails\<close>

text \<open>When \<open>Save\<close> fails, \<open>Publish\<close> has replaced the publication by the empty one before it rolls back: no target is
  rolled back, whatever was prepared or published, and the leases are given up.\<close>

lemma publish_targets_code: "publish_targets c i ts v tx s \<noteq> (Inl (tx', ''PUBLICATION_STATE_FAILED'', e), s')"
proof (induction ts arbitrary: i v tx s)
  case (Cons t ts)
  show ?case
    by (auto simp: andthen_eq_Inl_iff andthen_eq_Inr_iff on_error_eq_Inl renew_fences_never_fails Let_def set_target_def
        ignoring_def Cons.IH split: if_splits)
qed simp

lemma save_failure_rolls_nothing_back:
  assumes body: "publish_body c tx s = (Inl (tx1, ''PUBLICATION_STATE_FAILED'', e1), s1)"
    and run: "tx_publish c tx s = (Inr ((v, e), tx') :: unit + _, s')"
    and state: "\<not> tx_closed tx" "pb_status (tx_publication tx) = Pub_Prepared" "\<not> pb_decision (tx_publication tx)"
  shows "runtime_log s' = runtime_log s1" and "tx_closed tx'"
proof -
  have empty: "tx_publication tx1 = empty_publication"
    using body
    by (auto simp: publish_body_def andthen_eq_Inl_iff andthen_eq_Inr_iff on_error_eq_Inl renew_fences_never_fails Let_def
        publish_targets_code
        split: if_splits)
  have locked: "tx_rollback_locked c tx1 ''PUBLICATION_STATE_FAILED'' e1 s1 = (Inr ((v, e), tx') :: unit + _, s')"
    using run body state by (simp add: tx_publish_def andthen_def attempt_simp)
  have "\<not> pb_decision (tx_publication tx1)" by (simp add: empty empty_publication_def)
  from tx_rollback_locked_Inr [OF locked this] show "tx_closed tx'" by simp
  have "moves (emits {}) (rollback_after_failure c empty_publication fs code reason)" for fs code reason
    unfolding rollback_after_failure_def by (simp add: empty_publication_def empty_plan_def) (intro moves_intros)
  note quiet = this
  have "s' = s1 \<or> (\<exists>w s2 tx2 tx3. rollback_after_failure c empty_publication (tx_fences tx1) ''PUBLICATION_STATE_FAILED'' e1 s1 =
      (Inr w :: unit + _, s2) \<and> tx_close tx2 s2 = (Inr tx3 :: unit + _, s'))"
    using locked empty by (auto simp: tx_rollback_locked_def andthen_eq_Inr_iff empty_publication_def split: if_splits)
  then show "runtime_log s' = runtime_log s1"
    by (auto dest!: movesD [OF quiet] tx_close_Inr(2) simp: emits_def logs_def)
qed

section \<open>An example\<close>

text \<open>A process died while it prepared the only target, or after it had stored the decision to commit.\<close>

definition sample_row :: "bool \<Rightarrow> pub_row" where
  "sample_row decided =
     \<lparr>pr_id = ''world'', pr_idem = ''operation:world'', pr_source = [], pr_room = ''room'',
      pr_status = (if decided then Pub_Committed else Pub_Preparing), pr_outcome = Out_None, pr_revision = pn_revision sample_plan,
      pr_hash = pn_hash sample_plan, pr_plan = sample_plan, pr_backups = [], pr_fences = [], pr_activation = Some manual,
      pr_decision = decided, pr_restart = True, pr_code = [], pr_message = [], pr_decided_at = None, pr_finished = None,
      pr_created = 0, pr_updated = 0\<rparr>"

definition sample_target_row :: target_row where
  "sample_target_row =
     \<lparr>tr_id = target_result_id ''world'' ''target'' ''inst'', tr_publication = ''world'', tr_target = ''target'',
      tr_installation = ''inst'', tr_status = Pub_Preparing, tr_cached = True, tr_prepared = False, tr_published = False,
      tr_completed = False, tr_rolled = False, tr_code = [], tr_message = [], tr_prepared_at = None, tr_published_at = None,
      tr_completed_at = None, tr_rolled_at = None, tr_created = 0, tr_updated = 0\<rparr>"

definition sample_crashed :: "bool \<Rightarrow> pub_system" where
  "sample_crashed decided =
     sample_system\<lparr>pub_rows := [sample_row decided], target_rows := [sample_target_row],
       artifact_rows := map (\<lambda>a. desired_artifact sample_ready a (pn_hash sample_plan) 0) (tg_mods sample_ready),
       world_rows := map (\<lambda>(w, a). desired_world sample_ready w a (pn_hash sample_plan) 0) (target_world_mods sample_ready)\<rparr>"

lemma sample_crashed_row: "row_of ''world'' (sample_crashed d) = Some (sample_row d)" "keyed (sample_crashed d)"
  "pr_status (sample_row d) \<notin> {Pub_Failed, Pub_RolledBack, Pub_Succeeded}" "pr_decision (sample_row d) = d" "pr_plan (sample_row d) = sample_plan"
  by (simp_all add: row_of_def sample_crashed_def sample_row_def keyed_def plans_def)

lemma sample_manual: "pr_activation (sample_row d) = Some manual"
  by (simp add: sample_row_def)

lemma sample_recovery_key: "plain_key (publication_operation_key ''world:recover:world'')"
  by code_simp

lemma sample_interrupted: "interrupted sample_coordinator ''world'' sample_plan (sample_crashed d)"
proof -
  have "steady (minutes 2) (sample_crashed d)"
    using sample_times by (simp add: steady_def calm_def sample_crashed_def sample_system_def valid_ttl_def seconds_def minutes_def)
  moreover have "lease_inv (sample_crashed d)" "abs_leases (lease_rows (sample_crashed d)) r = None" for r
    by (simp_all add: lease_inv_def room_keyed_def sample_crashed_def sample_system_def abs_leases_def find_room_def)
  moreover have "fresh (sample_crashed d) = (\<lambda>_. ''world'')" by (simp add: sample_crashed_def sample_system_def)
  moreover have "stored ''world'' sample_plan (sample_crashed d)"
  proof -
    have "row_fits ''world'' sample_plan (sample_row d)"
      by (simp add: row_fits_def sample_row_def sample_plan_fields writable_def)
    moreover have "plan_pairs sample_plan = [(''target'', ''inst'')]"
      by (simp add: plan_pairs_def sample_plan_fields sample_ready_def sample_target_def new_target_def sample_placement_def)
    ultimately show ?thesis using sample_crashed_row [of d]
      by (simp add: stored_def sample_valid_ids sample_storable rows_for_def sample_crashed_def sample_target_row_def target_row_fits_def)
  qed
  moreover have "keyed_replicas (sample_crashed d)" "replicated sample_ready (sample_crashed d)"
    by (simp_all add: keyed_replicas_def replicated_def replica_ids_def sample_crashed_def desired_artifact_def desired_world_def
        artifact_key_def world_mod_key_def target_world_mods_def sample_ready_def sample_target_def world_plan_of_def sort_artifacts_def
        new_target_def Let_def)
  ultimately show ?thesis using sample_lease_text [OF _ sample_recovery_key]
    by (simp add: interrupted_def sample_coordinator_def sample_valid_ids sample_plan_fields)
qed

section \<open>The theorems\<close>

theorem recovery_obeys_decision_witness:
  "\<exists>v e s' es. recover_publication sample_coordinator ''world'' (sample_crashed False) = (Inr (v, e) :: unit + _, s') \<and>
    runtime_log s' = es \<and> re_step ` set es \<subseteq> {Step_Rollback}"
proof -
  from recover_interrupted [OF sample_interrupted [of False] sample_crashed_row(1,3)] obtain v s' where
    run: "recover_publication sample_coordinator ''world'' (sample_crashed False) = (Inr (v, []) :: unit + _, s')" by blast
  have "runtime_log (sample_crashed False) = []" "recovery_calls (sample_row False) = {Step_Rollback}"
    by (simp_all add: sample_crashed_def sample_system_def recovery_calls_def sample_row_def)
  with recovery_obeys_decision [OF run sample_crashed_row(1,2)] run show ?thesis by auto
qed

theorem recovery_report_is_true_witness:
  "\<exists>v s'. recover_publication sample_coordinator ''world'' (sample_crashed False) = (Inr (v, []) :: unit + _, s') \<and>
    pb_status v = Pub_RolledBack \<and>
    map call_of (runtime_log s') = [(Step_Rollback, ''world'', target_plan_key sample_ready, True)]"
proof -
  from recover_interrupted [OF sample_interrupted [of False] sample_crashed_row(1,3)] obtain v s' where
    run: "recover_publication sample_coordinator ''world'' (sample_crashed False) = (Inr (v, []) :: unit + _, s')"
      "pb_status v = Pub_RolledBack" by (auto simp: sample_crashed_row)
  have "runtime_log (sample_crashed False) = []" by (simp add: sample_crashed_def sample_system_def)
  with recovery_report_is_true [OF run(1) sample_crashed_row(1,2)] run sample_crashed_row(3-5) [of False] show ?thesis
    by (auto simp: rollbacks_def sample_plan_fields)
qed

text \<open>C10: a publication of the manual activation policy that was interrupted before its end gets through, once its leases
have run out and while nothing fails (the database and the runtime answer, and the clock stays within the leases that
recovery takes): one with the decision to commit succeeds, any other is rolled back, and recovery returns no error. With
another policy the worlds are then stopped and started, which may leave an activation error after the commit.\<close>

theorem interrupted_publication_recovers:
  fixes s :: "'s pub_system_scheme"
  assumes "interrupted c pid p s" and "row_of pid s = Some r" and "pr_status r \<notin> {Pub_Failed, Pub_RolledBack, Pub_Succeeded}"
    and "pr_activation r = Some manual"
  shows "\<exists>v s'. recover_publication c pid s = (Inr (v, []) :: unit + _, s') \<and> pb_id v = pid \<and>
    pb_status v = (if pr_decision r then Pub_Succeeded else Pub_RolledBack)"
  using assms(1-3) by (rule recover_interrupted)

theorem interrupted_publication_recovers_witness:
  "(\<exists>v s'. recover_publication sample_coordinator ''world'' (sample_crashed True) = (Inr (v, []) :: unit + _, s') \<and>
     pb_status v = Pub_Succeeded) \<and>
   (\<exists>v s'. recover_publication sample_coordinator ''world'' (sample_crashed False) = (Inr (v, []) :: unit + _, s') \<and>
     pb_status v = Pub_RolledBack)"
  using interrupted_publication_recovers [OF sample_interrupted [of True] sample_crashed_row(1,3) sample_manual]
    interrupted_publication_recovers [OF sample_interrupted [of False] sample_crashed_row(1,3) sample_manual]
  by (auto simp: sample_crashed_row(4))

end
