(* ===== verification/Go_Files.thy ===== *)
theory Go_Files
  imports Go_Strings Lifecycle "HOL-Library.Sublist"
begin

unbundle bit_operations_syntax

text \<open>
  Files as Go's \<open>os\<close> and \<open>path/filepath\<close> show them: a tree whose inner nodes are directories, and the
  system calls the modelled code makes. A path is absolute and clean, so it is the list of its components:
  \<open>filepath.Dir\<close> is \<open>butlast\<close> and \<open>filepath.Join\<close> appends. A symbolic link is a leaf that is not followed
  (the modelled code refuses every path with a link in it before it uses the path). Permission bits are kept, and
  a call they would forbid is one of the calls the script lets fail: each call takes a step of the script, and
  a call of several steps (\<open>os.RemoveAll\<close>, \<open>os.MkdirAll\<close>) may stop after any of them.
\<close>

section \<open>Trees\<close>

type_synonym path = "string list"

datatype file_node =
    Plain nat string
  | Folder nat "(string \<times> file_node) list"
  | Link path
  | Special

fun is_folder :: "file_node \<Rightarrow> bool" where
  "is_folder (Folder m es) = True"
| "is_folder _ = False"

fun is_plain :: "file_node \<Rightarrow> bool" where
  "is_plain (Plain m c) = True"
| "is_plain _ = False"

fun is_link :: "file_node \<Rightarrow> bool" where
  "is_link (Link p) = True"
| "is_link _ = False"

fun find_node :: "file_node \<Rightarrow> path \<Rightarrow> file_node option" where
  "find_node n [] = Some n"
| "find_node (Folder m es) (c # cs) = (case map_of es c of None \<Rightarrow> None | Some n \<Rightarrow> find_node n cs)"
| "find_node _ (c # cs) = None"

definition put_entry :: "string \<Rightarrow> 'v option \<Rightarrow> (string \<times> 'v) list \<Rightarrow> (string \<times> 'v) list" where
  "put_entry c x es = (case x of Some v \<Rightarrow> put c v es | None \<Rightarrow> filter (\<lambda>(k, _). k \<noteq> c) es)"

fun update_entry :: "string \<Rightarrow> ('v \<Rightarrow> 'v) \<Rightarrow> (string \<times> 'v) list \<Rightarrow> (string \<times> 'v) list" where
  "update_entry c f [] = []"
| "update_entry c f ((k, v) # es) = (if k = c then (k, f v) # es else (k, v) # update_entry c f es)"

text \<open>The one way a tree changes: what stands under a name is replaced by what \<open>f\<close> makes of it.\<close>

fun change :: "path \<Rightarrow> (file_node option \<Rightarrow> file_node option) \<Rightarrow> file_node \<Rightarrow> file_node" where
  "change [] f n = n"
| "change [c] f (Folder m es) = Folder m (put_entry c (f (map_of es c)) es)"
| "change (c # d # cs) f (Folder m es) = Folder m (update_entry c (\<lambda>k. change (d # cs) f k) es)"
| "change _ f n = n"

lemma map_of_update_entry: "map_of (update_entry c f es) k = (if k = c then map_option f (map_of es c) else map_of es k)"
  by (induction es) auto

lemma update_entry_id: "(\<And>v. map_of es c = Some v \<Longrightarrow> f v = v) \<Longrightarrow> update_entry c f es = es"
  by (induction es) (auto split: if_splits)

lemma map_of_put_entry: "map_of (put_entry c x es) = (map_of es)(c := x)"
proof -
  have "map_of (filter (\<lambda>(k, _). k \<noteq> c) es) = (map_of es)(c := None)"
    by (induction es) (auto simp: fun_eq_iff)
  then show ?thesis by (auto simp: put_entry_def fun_upd_def split: option.split)
qed

definition folder_at :: "file_node \<Rightarrow> path \<Rightarrow> bool" where
  "folder_at n p \<longleftrightarrow> (\<exists>m. find_node n p = Some m \<and> is_folder m)"

lemma folder_at_code [code]: "folder_at n p = (case find_node n p of None \<Rightarrow> False | Some m \<Rightarrow> is_folder m)"
  by (simp add: folder_at_def split: option.split)

lemma folder_at_Cons:
  "folder_at n (c # cs) \<longleftrightarrow> (\<exists>m es k. n = Folder m es \<and> map_of es c = Some k \<and> folder_at k cs)"
  by (cases n) (auto simp: folder_at_def split: option.splits)

lemma folder_at_Nil [simp]: "folder_at n [] = is_folder n"
  by (simp add: folder_at_def)

lemma find_node_append:
  "find_node n (p @ q) = (case find_node n p of None \<Rightarrow> None | Some m \<Rightarrow> find_node m q)"
proof (induction p arbitrary: n)
  case (Cons c p)
  then show ?case by (cases n) (auto split: option.split)
qed simp

lemma find_node_parent: "find_node n (p @ [c]) = Some k \<Longrightarrow> folder_at n p"
  by (auto simp: find_node_append folder_at_def split: option.splits elim: find_node.elims)

text \<open>What a change does: at the path, below it, beside it, above it.\<close>

lemma find_change_at:
  assumes "folder_at n (butlast p)" and "p \<noteq> []"
  shows "find_node (change p f n) p = f (find_node n p)"
  using assms
proof (induction p f n rule: change.induct)
  case (2 c f m es)
  then show ?case by (auto simp: map_of_put_entry split: option.split)
next
  case (3 c d cs f m es)
  then show ?case by (auto simp: folder_at_Cons map_of_update_entry)
qed (auto simp: folder_at_Cons split: if_splits)

lemma find_change_below:
  assumes "folder_at n (butlast p)" and "p \<noteq> []"
  shows "find_node (change p f n) (p @ q) = (case f (find_node n p) of None \<Rightarrow> None | Some k \<Rightarrow> find_node k q)"
  by (simp add: find_node_append find_change_at [OF assms])

lemma find_change_beside:
  assumes "p \<parallel> q"
  shows "find_node (change p f n) q = find_node n q"
  using assms
proof (induction p f n arbitrary: q rule: change.induct)
  case (2 c f m es)
  then show ?case by (cases q) (auto simp: map_of_put_entry)
next
  case (3 c d cs f m es)
  show ?case
  proof (cases q)
    case (Cons a q')
    have "find_node (change (d # cs) f k) q' = find_node k q'" if "a = c" for k
      using 3 Cons that by (simp add: parallel_def)
    with Cons show ?thesis by (auto simp: map_of_update_entry split: option.split)
  qed (use 3 in simp)
qed (auto simp: prefix_def)

lemma folder_change_above:
  assumes "\<not> prefix p q"
  shows "folder_at (change p f n) q = folder_at n q"
  using assms
proof (induction p f n arbitrary: q rule: change.induct)
  case (2 c f m es)
  then show ?case by (cases q) (auto simp: folder_at_Cons map_of_put_entry)
next
  case (3 c d cs f m es)
  show ?case
  proof (cases q)
    case (Cons a q')
    with 3 show ?thesis by (cases "a = c") (auto simp: folder_at_Cons map_of_update_entry)
  qed simp
qed auto

lemma change_no_parent:
  assumes "\<not> folder_at n (butlast p)"
  shows "change p f n = n"
  using assms
proof (induction p f n rule: change.induct)
  case (3 c d cs f m es)
  have "change (d # cs) f k = k" if "map_of es c = Some k" for k
    using 3 that by (auto simp: folder_at_Cons)
  then show ?case by (simp add: update_entry_id)
qed auto

lemma create_beside:
  assumes "\<not> prefix q p" and "find_node n p = None"
  shows "find_node (change p (\<lambda>_. Some (Folder m [])) n) q = find_node n q"
proof (cases "p \<parallel> q")
  case False
  with assms(1) obtain r where q: "q = p @ r" "r \<noteq> []" by (auto simp: parallel_def prefix_def)
  have none: "find_node n q = None" using assms(2) q by (simp add: find_node_append)
  show ?thesis
  proof (cases "folder_at n (butlast p) \<and> p \<noteq> []")
    case True
    with none q show ?thesis by (cases r) (auto simp: find_change_below)
  next
    case False
    then show ?thesis using assms(2) by (auto simp: change_no_parent)
  qed
qed (rule find_change_beside)

lemma create_above:
  assumes "find_node n p = None" and "folder_at n q"
  shows "folder_at (change p (\<lambda>_. Some (Folder m [])) n) q"
proof (cases "prefix p q")
  case True
  with assms show ?thesis by (auto simp: prefix_def folder_at_def find_node_append)
qed (simp add: folder_change_above assms)

section \<open>System calls\<close>

text \<open>\<open>written\<close> is how much of a file a failing write leaves behind.\<close>

record files = env +
  tree :: file_node
  written :: "nat \<Rightarrow> nat"

datatype file_error = Not_Exist | Exists | Not_Directory | Not_Empty | Bad_Argument | Is_Directory | Input_Output

type_synonym ('s, 'a) file_act = "('s files_scheme, file_error, 'a) act"

text \<open>A path below something that is not a directory is an error of its own; a path whose parent is missing does
  not exist.\<close>

definition blocked :: "file_node \<Rightarrow> path \<Rightarrow> bool" where
  "blocked n p \<longleftrightarrow>
     list_ex (\<lambda>q. case find_node n q of Some m \<Rightarrow> \<not> is_folder m | None \<Rightarrow> False) (map (\<lambda>k. take k p) [0 ..< length p])"

definition lstat :: "path \<Rightarrow> ('s, file_node option) file_act" where
  "lstat p =
     andthen (external Input_Output) (\<lambda>_.
     andthen (query tree) (\<lambda>n.
       if blocked n p then raise Not_Directory else return_ok (find_node n p)))"

definition set_at :: "path \<Rightarrow> (file_node option \<Rightarrow> file_node option) \<Rightarrow> ('s, unit) file_act" where
  "set_at p f = modify (\<lambda>s. s\<lparr>tree := change p f (tree s)\<rparr>)"

text \<open>\<open>os.Chmod\<close>: \<open>f\<close> gives the new permissions.\<close>

fun with_mode :: "(nat \<Rightarrow> nat) \<Rightarrow> file_node \<Rightarrow> file_node" where
  "with_mode f (Plain m c) = Plain (f m) c"
| "with_mode f (Folder m es) = Folder (f m) es"
| "with_mode f n = n"

fun mode_of :: "file_node \<Rightarrow> nat" where
  "mode_of (Plain m c) = m"
| "mode_of (Folder m es) = m"
| "mode_of _ = 0x1FF"

definition chmod :: "path \<Rightarrow> (nat \<Rightarrow> nat) \<Rightarrow> ('s, unit) file_act" where
  "chmod p f =
     andthen (lstat p) (\<lambda>x.
       if x = None then raise Not_Exist else set_at p (map_option (with_mode f)))"

text \<open>\<open>os.Rename\<close> on Unix: it refuses any directory at the new path before it asks the system.\<close>

definition rename_allowed :: "file_node \<Rightarrow> file_node option \<Rightarrow> file_error option" where
  "rename_allowed x y =
     (case y of
        None \<Rightarrow> None
      | Some (Folder m es) \<Rightarrow> Some Exists
      | Some _ \<Rightarrow> (if is_folder x then Some Not_Directory else None))"

definition rename_error :: "path \<Rightarrow> path \<Rightarrow> file_node \<Rightarrow> file_node \<Rightarrow> file_error option" where
  "rename_error p q k n =
     (if blocked n q then Some Not_Directory
      else if \<not> folder_at n (butlast q) then Some Not_Exist
      else if strict_prefix p q \<and> (case find_node n q of Some (Folder m es) \<Rightarrow> False | _ \<Rightarrow> True) then Some Bad_Argument
      else rename_allowed k (find_node n q))"

definition rename :: "path \<Rightarrow> path \<Rightarrow> ('s, unit) file_act" where
  "rename p q =
     andthen (lstat p) (\<lambda>x.
     andthen (query tree) (\<lambda>n.
       case x of
         None \<Rightarrow> raise Not_Exist
       | Some k \<Rightarrow>
           (case rename_error p q k n of
              Some e \<Rightarrow> raise e
            | None \<Rightarrow> andthen (set_at p (\<lambda>_. None)) (\<lambda>_. set_at q (\<lambda>_. Some k)))))"

text \<open>\<open>os.Remove\<close>.\<close>

definition remove :: "path \<Rightarrow> ('s, unit) file_act" where
  "remove p =
     andthen (lstat p) (\<lambda>x.
       case x of
         None \<Rightarrow> raise Not_Exist
       | Some (Folder m es) \<Rightarrow> if es = [] then set_at p (\<lambda>_. None) else raise Not_Empty
       | Some _ \<Rightarrow> set_at p (\<lambda>_. None))"

text \<open>
  \<open>os.RemoveAll\<close> removes what it can, depth first, and goes on after a failure: \<open>sweep\<close> returns the entries that
  are left and the number of the next step.
\<close>

fun sweep :: "(nat \<Rightarrow> bool) \<Rightarrow> nat \<Rightarrow> (string \<times> file_node) list \<Rightarrow> (string \<times> file_node) list \<times> nat" where
  "sweep bad n [] = ([], n)"
| "sweep bad n ((c, x) # rest) =
     (let (left, n1) =
            (case x of
               Folder m es \<Rightarrow>
                 (let (es', k) = sweep bad n es
                  in if es' = [] \<and> \<not> bad k then ([], Suc k) else ([(c, Folder m es')], Suc k))
             | _ \<Rightarrow> (if bad n then [(c, x)] else [], Suc n));
          (rest', n2) = sweep bad n1 rest
      in (left @ rest', n2))"

definition remove_all :: "path \<Rightarrow> ('s, unit) file_act" where
  "remove_all p =
     andthen (query (\<lambda>s. (find_node (tree s) p, fault s, step s))) (\<lambda>(x, bad, n).
       case x of
         None \<Rightarrow> return_ok ()
       | Some k \<Rightarrow>
           (let (left, n') = sweep bad n [(last p, k)]
            in andthen (modify (\<lambda>s. s\<lparr>step := n'\<rparr>)) (\<lambda>_.
               andthen (set_at p (\<lambda>_. case left of [] \<Rightarrow> None | (_, y) # _ \<Rightarrow> Some y)) (\<lambda>_.
               guard Input_Output (left = [])))))"

text \<open>\<open>os.MkdirAll\<close>, from the root down.\<close>

fun mkdir_each :: "nat \<Rightarrow> path list \<Rightarrow> ('s, unit) file_act" where
  "mkdir_each perm [] = return_ok ()"
| "mkdir_each perm (q # qs) =
     andthen (lstat q) (\<lambda>x.
       case x of
         Some (Folder m es) \<Rightarrow> mkdir_each perm qs
       | Some _ \<Rightarrow> raise Not_Directory
       | None \<Rightarrow> andthen (external Input_Output) (\<lambda>_.
                 andthen (set_at q (\<lambda>_. Some (Folder perm []))) (\<lambda>_. mkdir_each perm qs)))"

definition up_to :: "path \<Rightarrow> path list" where
  "up_to p = map (\<lambda>k. take k p) [1 ..< Suc (length p)]"

definition mkdir_all :: "path \<Rightarrow> nat \<Rightarrow> ('s, unit) file_act" where
  "mkdir_all p perm = mkdir_each perm (up_to p)"

text \<open>\<open>os.OpenFile\<close> with \<open>O_CREATE|O_EXCL|O_WRONLY\<close>.\<close>

definition create_new :: "path \<Rightarrow> nat \<Rightarrow> ('s, unit) file_act" where
  "create_new p perm =
     andthen (lstat p) (\<lambda>x.
     andthen (query tree) (\<lambda>n.
       if x \<noteq> None then raise Exists
       else if \<not> folder_at n (butlast p) then raise Not_Exist
       else set_at p (\<lambda>_. Some (Plain perm []))))"

text \<open>Writing, syncing and closing a file just created.\<close>

definition write_out :: "path \<Rightarrow> string \<Rightarrow> ('s, unit) file_act" where
  "write_out p content =
     andthen (query (\<lambda>s. (fault s (step s), written s (step s)))) (\<lambda>(failed, k).
     andthen (set_at p (map_option (\<lambda>x. case x of Plain m _ \<Rightarrow> Plain m (if failed then take k content else content) | _ \<Rightarrow> x))) (\<lambda>_.
     external Input_Output))"

definition read_file :: "path \<Rightarrow> ('s, string) file_act" where
  "read_file p =
     andthen (lstat p) (\<lambda>x.
       case x of
         None \<Rightarrow> raise Not_Exist
       | Some (Plain m c) \<Rightarrow> return_ok c
       | Some _ \<Rightarrow> raise Is_Directory)"

text \<open>Opening a directory and syncing it.\<close>

definition sync_directory :: "path \<Rightarrow> ('s, unit) file_act" where
  "sync_directory p = andthen (lstat p) (\<lambda>x. guard Not_Exist (x \<noteq> None))"

text \<open>\<open>filepath.WalkDir\<close>: what is below a directory, in lexical order.\<close>

fun walk_entries :: "path \<Rightarrow> (string \<times> file_node) list \<Rightarrow> (path \<times> file_node) list" where
  "walk_entries p [] = []"
| "walk_entries p ((c, x) # rest) =
     (p @ [c], x) # (case x of Folder m es \<Rightarrow> walk_entries (p @ [c]) es | _ \<Rightarrow> []) @ walk_entries p rest"

fun walk_dir :: "file_node \<Rightarrow> (path \<times> file_node) list" where
  "walk_dir (Folder m es) = ([], Folder m es) # walk_entries [] es"
| "walk_dir n = [([], n)]"

section \<open>What system calls leave alone\<close>

text \<open>
  A relation on states that changes at the paths \<open>may\<close>, and the creation of missing directories at the paths
  \<open>mk\<close>, keep. Every call that stays within those paths keeps it.
\<close>

locale file_relation = step_relation R
  for R :: "'s files_scheme \<Rightarrow> 's files_scheme \<Rightarrow> bool" +
  fixes may :: "path \<Rightarrow> bool" and mk :: "path \<Rightarrow> bool"
  assumes change_R: "may p \<Longrightarrow> R s (s\<lparr>tree := change p f (tree s)\<rparr>)"
    and create_R: "mk p \<Longrightarrow> find_node (tree s) p = None \<Longrightarrow> p \<noteq> [] \<Longrightarrow>
        R s (s\<lparr>tree := change p (\<lambda>_. Some (Folder m [])) (tree s)\<rparr>)"
    and below: "may p \<Longrightarrow> may (p @ q)"
    and above: "mk (p @ q) \<Longrightarrow> mk p"
    and restored: "R (s\<lparr>cancelled := c\<rparr>) s' \<Longrightarrow> R s (s'\<lparr>cancelled := cancelled s\<rparr>)"
begin

lemma set_at [moves_intros]: "may p \<Longrightarrow> moves R (set_at p f)"
  unfolding set_at_def by (intro moves_intros change_R)

lemma lstat [moves_intros]: "moves R (lstat p)"
  unfolding lstat_def by (intro moves_intros)

lemma chmod [moves_intros]: "may p \<Longrightarrow> moves R (chmod p f)"
  unfolding chmod_def by (intro moves_intros)

lemma rename [moves_intros]: "may p \<Longrightarrow> may q \<Longrightarrow> moves R (rename p q)"
  unfolding rename_def by (intro moves_intros)

lemma remove [moves_intros]: "may p \<Longrightarrow> moves R (remove p)"
  unfolding remove_def by (intro moves_intros) (auto split: file_node.split intro!: moves_intros)

lemma remove_all [moves_intros]: "may p \<Longrightarrow> moves R (remove_all p)"
  unfolding remove_all_def Let_def by (intro moves_intros steps)

lemma mkdir_each:
  assumes "\<And>q. q \<in> set qs \<Longrightarrow> mk q \<and> q \<noteq> []"
  shows "moves R (mkdir_each perm qs)"
  using assms
proof (induction qs)
  case (Cons q qs)
  have later: "moves R (mkdir_each perm qs)" using Cons by simp
  show ?case
    unfolding moves_def
  proof
    fix s
    show "R s (snd (mkdir_each perm (q # qs) s))"
    proof (cases "lstat q s")
      case (Pair r s1)
      have s1: "R s s1" by (rule movesD [OF lstat Pair])
      have goal: "R s (snd (m s1))" if "moves R m" for m :: "('s, unit) file_act"
        using that s1 trans_R unfolding moves_def by blast
      show ?thesis
      proof (cases r)
        case (Inr x)
        show ?thesis
        proof (cases x)
          case None
          with Pair Inr have none: "find_node (tree s1) q = None"
            by (auto simp: lstat_def andthen_eq_Inr_iff split: if_splits)
          obtain w s2 where ext: "external Input_Output s1 = (w, s2)" by fastforce
          have s2: "R s s2" using movesD [OF environment(1) ext] s1 trans_R by blast
          have "find_node (tree s2) q = None" using ext none by (auto simp: external_def split: if_splits)
          then have "R s2 (s2\<lparr>tree := change q (\<lambda>_. Some (Folder perm [])) (tree s2)\<rparr>)"
            using Cons.prems by (intro create_R) simp_all
          with s2 later Pair Inr None ext show ?thesis
            unfolding moves_def
            by (cases w) (auto simp: andthen_def set_at_def intro: trans_R simp del: external_eq_Inr external_eq_Inl)
        next
          case (Some n)
          with Pair Inr goal [OF later] s1 show ?thesis
            by (cases n) (simp_all add: andthen_def)
        qed
      qed (use Pair s1 in \<open>simp add: andthen_def\<close>)
    qed
  qed
qed (simp add: basic)

lemma mkdir_all [moves_intros]: "mk p \<Longrightarrow> moves R (mkdir_all p perm)"
  unfolding mkdir_all_def up_to_def
proof (rule mkdir_each)
  fix q
  assume "mk p" and "q \<in> set (map (\<lambda>k. take k p) [1 ..< Suc (length p)])"
  then show "mk q \<and> q \<noteq> []" using above [of q "drop (length q) p"] by (auto simp: min_def)
qed

lemma create_new [moves_intros]: "may p \<Longrightarrow> moves R (create_new p perm)"
  unfolding create_new_def by (intro moves_intros)

lemma write_out [moves_intros]: "may p \<Longrightarrow> moves R (write_out p c)"
  unfolding write_out_def by (intro moves_intros)

lemma read_file [moves_intros]: "moves R (read_file p)"
  unfolding read_file_def by (intro moves_intros) (auto split: file_node.split intro!: moves_intros)

lemma sync_directory [moves_intros]: "moves R (sync_directory p)"
  unfolding sync_directory_def by (intro moves_intros)

lemma in_background [moves_intros]:
  assumes "moves R m"
  shows "moves R (background m)"
  unfolding moves_def background_def
proof
  fix s
  obtain r s' where "m (s\<lparr>cancelled := (\<lambda>_. False)\<rparr>) = (r, s')" by fastforce
  with movesD [OF assms this] restored
  show "R s (snd (case m (s\<lparr>cancelled := (\<lambda>_. False)\<rparr>) of (r, s') \<Rightarrow> (r, s'\<lparr>cancelled := cancelled s\<rparr>)))"
    by simp
qed

end

end
