(* ===== verification/Dist_Types.thy ===== *)
theory Dist_Types
  imports Go_Files Go_Encoding
begin

text \<open>
  The data of \<open>internal/moddistribution\<close> (\<open>types.go\<close>): the mods a node has cached, the plan of a release, the
  journal in which an agent carries it out, and the state it leaves. Sizes are \<open>int64\<close>, kept by the code's own
  checks; a time is a number of nanoseconds; an empty byte slice is nil.
\<close>

section \<open>Errors\<close>

datatype dist_error =
    Dist_Invalid
  | Dist_Not_Found
  | Dist_Conflict
  | Dist_Integrity
  | Dist_Unsafe
  | Dist_Space
  | Dist_In_Progress string
  | Dist_Registration string
  | Dist_Canceled
  | File_Failed file_error
  | Dist_Other

text \<open>An error is what \<open>errors.Join\<close> joined, and \<open>errors.Is\<close> is membership. The text of an error is not kept: where
  the code stores it, the model stores the error.\<close>

type_synonym dist_errs = "dist_error list"
type_synonym ('s, 'a) dist_act = "('s, dist_errs, 'a) act"

definition sys :: "('s, 'a) file_act \<Rightarrow> ('s files_scheme, 'a) dist_act" where
  "sys m = map_error (\<lambda>e. [File_Failed e]) m"

definition is_not_exist :: "dist_errs \<Rightarrow> bool" where
  "is_not_exist e \<longleftrightarrow> File_Failed Not_Exist \<in> set e"

definition ctx_ok :: "('s env_scheme, unit) dist_act" where
  "ctx_ok = ctx_err [Dist_Canceled]"

section \<open>Cached content\<close>

record metadata =
  dm_title :: string
  dm_version :: string
  dm_size :: int
  dm_manifest :: string
  dm_updated :: int

datatype entry_kind = Directory_Entry | File_Entry

record tree_entry =
  de_path :: string
  de_kind :: entry_kind
  de_mode :: nat
  de_size :: int
  de_sha :: string

record dist_manifest =
  df_version :: int
  df_workshop :: string
  df_tree :: string
  df_sha :: string
  df_size :: int
  df_files :: int
  df_entries :: "tree_entry list"
  df_metadata :: metadata
  df_created :: int

record trusted_installation =
  di_id :: string
  di_node :: string
  di_server :: path
  di_save :: path
  di_content :: "path option"
  di_manifest :: "path option"

record mod_version =
  dv_workshop :: string
  dv_tree :: string
  dv_metadata :: metadata

section \<open>Plans\<close>

record shard_release =
  ds_installation :: string
  ds_room :: string
  ds_room_dir :: string
  ds_world :: string
  ds_world_dir :: string
  ds_mods :: "mod_version list"
  ds_overrides :: string

record plan_input =
  pi_operation :: string
  pi_node :: string
  pi_shards :: "shard_release list"

datatype plan_mode = Release_Mode | Content_Mode | Other_Mode string

record content_plan_input =
  ci_operation :: string
  ci_node :: string
  ci_installation :: string
  ci_mods :: "mod_version list"

record installation_plan =
  dp_installation :: string
  dp_node :: string
  dp_mods :: "mod_version list"
  dp_shards :: "shard_release list"
  dp_setup :: string
  dp_setup_base :: string
  dp_manifest :: string
  dp_manifest_base :: string

record dist_plan =
  dn_operation :: string
  dn_node :: string
  dn_mode :: plan_mode
  dn_created :: int
  dn_installations :: "installation_plan list"

section \<open>Journals\<close>

datatype dist_phase =
    Phase_Preparing
  | Phase_Prepared
  | Phase_Publishing
  | Phase_Published
  | Phase_Completing
  | Phase_Committed
  | Phase_Rolling_Back

datatype mutation_kind = Mutate_Mod | Mutate_Overrides | Mutate_Setup | Mutate_Manifest

record mutation =
  du_index :: int
  du_kind :: mutation_kind
  du_installation :: string
  du_workshop :: string
  du_tree :: string
  du_room_dir :: string
  du_world_dir :: string
  du_config :: string
  du_original :: string
  du_had :: bool

record dist_journal =
  dj_version :: int
  dj_operation :: string
  dj_phase :: dist_phase
  dj_next :: int
  dj_plan :: dist_plan
  dj_mutations :: "mutation list"
  dj_created :: int
  dj_updated :: int
  dj_integrity :: string

record shard_state =
  dh_room :: string
  dh_room_dir :: string
  dh_world :: string
  dh_world_dir :: string
  dh_mods :: "mod_version list"
  dh_config :: string

record installation_state =
  dt_installation :: string
  dt_operation :: string
  dt_mods :: "(string \<times> string) list"
  dt_setup :: string
  dt_manifest :: string
  dt_shards :: "(string \<times> shard_state) list"
  dt_updated :: int

datatype recovery_action = Recovered_Completed | Recovered_Rolled_Back | Recovery_Blocked

record recovery_result =
  dr_operation :: string
  dr_action :: recovery_action
  dr_error :: dist_errs

section \<open>The manager and its state\<close>

record manager =
  mg_node :: string
  mg_reserve :: int
  mg_installations :: "(string \<times> trusted_installation) list"

text \<open>
  A JSON file holds what decoding it yields, or is \<open>Unreadable\<close>. The files of the manager's own two roots are
  stores of their own: the journals by operation, the states of all installations, and the cached versions by
  workshop item and digest; \<open>tree\<close> is the rest of the file system, with the installations. \<open>free_space\<close> is what the
  disk reports, \<open>usable\<close> whether the directory of a mod can be used (\<open>observation.go\<close>).
\<close>

datatype 'a document = Document 'a | Unreadable

record cached_version =
  cv_manifest :: "dist_manifest document option"
  cv_content :: "file_node option"

record dist_db = files +
  journal_files :: "(string \<times> dist_journal document) list"
  state_file :: "(string \<times> installation_state) list document option"
  cache_versions :: "((string \<times> string) \<times> cached_version) list"
  issues :: "(string \<times> dist_errs) list"
  free_space :: "nat \<Rightarrow> 64 word"
  usable :: "nat \<Rightarrow> path \<Rightarrow> bool"

section \<open>Constants\<close>

definition max_entries :: nat where "max_entries = 100000"
definition max_tree_bytes :: int where "max_tree_bytes = 68719476736"
definition max_file_bytes :: int where "max_file_bytes = 17179869184"
definition max_overrides :: nat where "max_overrides = 8388608"
definition max_plan_config :: nat where "max_plan_config = 33554432"

section \<open>Names\<close>

definition is_alnum :: "char \<Rightarrow> bool" where
  "is_alnum c = (let n = (of_char c :: nat) in 48 \<le> n \<and> n \<le> 57 \<or> 65 \<le> n \<and> n \<le> 90 \<or> 97 \<le> n \<and> n \<le> 122)"

text \<open>\<open>^[1-9][0-9]{0,19}$\<close> and \<open>^[A-Za-z0-9][A-Za-z0-9._-]{7,127}$\<close>.\<close>

definition valid_workshop :: "string \<Rightarrow> bool" where
  "valid_workshop s \<longleftrightarrow>
     (case s of [] \<Rightarrow> False | c # cs \<Rightarrow> is_digit c \<and> c \<noteq> CHR ''0'' \<and> length cs \<le> 19 \<and> list_all is_digit cs)"

definition valid_operation :: "string \<Rightarrow> bool" where
  "valid_operation s \<longleftrightarrow>
     (case s of
        [] \<Rightarrow> False
      | c # cs \<Rightarrow>
          is_alnum c \<and> 7 \<le> length cs \<and> length cs \<le> 127 \<and>
          list_all (\<lambda>x. is_alnum x \<or> x = CHR ''.'' \<or> x = CHR ''_'' \<or> x = CHR ''-'') cs)"

definition valid_sha256 :: "string \<Rightarrow> bool" where
  "valid_sha256 s \<longleftrightarrow> length s = 64 \<and> hex_decodes s"

definition valid_identity :: "string \<Rightarrow> bool" where
  "valid_identity s \<longleftrightarrow>
     s = trim_space s \<and> s \<noteq> [] \<and> length s \<le> 128 \<and> \<not> contains_any s [nul, carriage_return, newline]"

text \<open>\<open>filepath.Base(value) == value\<close> holds of a value with no slash that is not empty.\<close>

definition safe_dir_name :: "string \<Rightarrow> bool" where
  "safe_dir_name s \<longleftrightarrow>
     s = trim_space s \<and> s \<noteq> [] \<and> s \<noteq> ''.'' \<and> s \<noteq> ''..'' \<and> length s \<le> 255 \<and>
     \<not> contains_any s [CHR ''/'', CHR 0x5C, nul, carriage_return, newline]"

definition valid_metadata :: "metadata \<Rightarrow> bool" where
  "valid_metadata m \<longleftrightarrow>
     dm_size m \<ge> 0 \<and> length (dm_title m) \<le> 1024 \<and> length (dm_version m) \<le> 256 \<and>
     \<not> contains_any (dm_title m @ dm_version m) [nul, carriage_return, newline] \<and>
     (dm_manifest m = [] \<or> valid_workshop (dm_manifest m))"

definition path_within :: "path \<Rightarrow> path \<Rightarrow> bool" where
  "path_within p root \<longleftrightarrow> prefix root p"

definition sort_mods :: "mod_version list \<Rightarrow> mod_version list" where
  "sort_mods = sort_key dv_workshop"

lemma valid_sha256_hash [simp]: "valid_sha256 (hash_bytes s)"
  by (simp add: valid_sha256_def hex_decodes_def list_all_iff hash_bytes_digits)

lemma valid_sha256_Nil [simp]: "\<not> valid_sha256 []"
  by (simp add: valid_sha256_def)

lemma valid_workshop_digits: "valid_workshop s \<Longrightarrow> c \<in> set s \<Longrightarrow> is_digit c"
  by (auto simp: valid_workshop_def list_all_iff split: list.splits)

lemma valid_workshop_not: "valid_workshop s \<Longrightarrow> \<not> is_digit c \<Longrightarrow> c \<notin> set s"
  using valid_workshop_digits by blast

end
