(* ===== verification/Dist_Setup.thy ===== *)
theory Dist_Setup
  imports Dist_Types
begin

text \<open>
  \<open>setup.go\<close>: the block of \<open>dedicated_server_mods_setup.lua\<close> the program manages. \<open>compose_managed_setup\<close> replaces
  the block, or adds one. The property is that it keeps what the operator wrote around it, but for the line ends
  next to the block, and that composing again only replaces the block: nothing outside of it depends on how often
  it was written.
\<close>

section \<open>Searching in texts\<close>

fun find_sub :: "string \<Rightarrow> string \<Rightarrow> nat option" where
  "find_sub p [] = (if p = [] then Some 0 else None)"
| "find_sub p (c # cs) = (if has_prefix (c # cs) p then Some 0 else map_option Suc (find_sub p cs))"

text \<open>\<open>strings.Count\<close> of a text that is not empty.\<close>

function count_sub :: "string \<Rightarrow> string \<Rightarrow> nat" where
  "count_sub p [] = 0"
| "count_sub p (c # cs) =
     (if has_prefix (c # cs) p then Suc (count_sub p (drop (length p - 1) cs)) else count_sub p cs)"
  by pat_completeness auto
termination by (relation "measure (\<lambda>(p, s). length s)") auto

definition line_end :: "char \<Rightarrow> bool" where
  "line_end c \<longleftrightarrow> c = carriage_return \<or> c = newline"

definition trim_line_ends :: "string \<Rightarrow> string" where
  "trim_line_ends s = rev (dropWhile line_end (rev s))"

section \<open>The managed block\<close>

definition begin_mark :: string where
  "begin_mark = ''-- BEGIN DST-ADMIN MANAGED MODS''"

definition end_mark :: string where
  "end_mark = ''-- END DST-ADMIN MANAGED MODS''"

definition crlf :: string where
  "crlf = [carriage_return, newline]"

definition setup_newline :: "string \<Rightarrow> string" where
  "setup_newline current = (if find_sub crlf current \<noteq> None then crlf else [newline])"

definition setup_line :: "string \<Rightarrow> mod_version \<Rightarrow> string" where
  "setup_line nl m = ''ServerModSetup('' @ [CHR 0x22] @ dv_workshop m @ [CHR 0x22] @ '')'' @ nl"

definition setup_text :: "string \<Rightarrow> string \<Rightarrow> string \<Rightarrow> mod_version list \<Rightarrow> string" where
  "setup_text nl pre suf mods =
     (if pre = [] then [] else pre @ nl @ nl) @ begin_mark @ nl @ concat (map (setup_line nl) mods) @ end_mark @ nl @
     (if suf = [] then [] else nl @ suf @ (if line_end (last suf) then [] else nl))"

text \<open>What stands before and after the block.\<close>

definition setup_parts :: "string \<Rightarrow> (string \<times> string) option" where
  "setup_parts current =
     (let b = find_sub begin_mark current; e = find_sub end_mark current
      in if (b \<noteq> None) \<noteq> (e \<noteq> None) \<or> (b \<noteq> None \<and> the e < the b) \<or>
            count_sub begin_mark current > 1 \<or> count_sub end_mark current > 1
         then None
         else
           (let (pre, suf) = (case b of None \<Rightarrow> (current, []) | Some i \<Rightarrow> (take i current, drop (the e + length end_mark) current))
            in Some (trim_line_ends pre, dropWhile line_end suf)))"

definition compose_managed_setup :: "string \<Rightarrow> mod_version list \<Rightarrow> dist_errs + string" where
  "compose_managed_setup current mods =
     (if length current > max_overrides \<or> nul \<in> set current then Inl [Dist_Integrity]
      else case setup_parts current of
        None \<Rightarrow> Inl [Dist_Conflict]
      | Some (pre, suf) \<Rightarrow>
          if \<not> list_all (\<lambda>m. valid_workshop (dv_workshop m)) mods then Inl [Dist_Invalid]
          else Inr (setup_text (setup_newline current) pre suf mods))"

section \<open>Where a text occurs\<close>

lemma has_prefix_iff: "has_prefix s p \<longleftrightarrow> prefix p s"
  by (auto simp: has_prefix_def prefix_def) (metis append_take_drop_id)

lemma find_sub_None: "find_sub p s = None \<longleftrightarrow> \<not> sublist p s"
  by (induction s) (auto simp: has_prefix_iff sublist_Cons_right)

lemma find_sub_SomeD: "find_sub p s = Some i \<Longrightarrow> prefix p (drop i s) \<and> (p \<noteq> [] \<longrightarrow> i < length s)"
  by (induction s arbitrary: i) (auto simp: has_prefix_iff split: if_splits)

lemma count_sub_0: "p \<noteq> [] \<Longrightarrow> count_sub p s = 0 \<longleftrightarrow> \<not> sublist p s"
  by (induction p s rule: count_sub.induct) (auto simp: has_prefix_iff sublist_Cons_right)

text \<open>A character the text does not contain separates its occurrences.\<close>

lemma sublist_separated:
  assumes "c \<notin> set p" and "p \<noteq> []"
  shows "sublist p (x @ c # y) \<longleftrightarrow> sublist p x \<or> sublist p y"
proof
  assume "sublist p (x @ c # y)"
  then obtain u v where "x @ c # y = u @ p @ v" by (auto simp: sublist_def)
  then consider us where "x @ us = u" "c # y = us @ p @ v" | us where "x = u @ us" "us @ c # y = p @ v"
    by (auto simp: append_eq_append_conv2)
  then show "sublist p x \<or> sublist p y"
  proof cases
    case 1
    with assms show ?thesis by (cases us) (auto simp: Cons_eq_append_conv sublist_def)
  next
    case 2
    then obtain ws where "us = p @ ws \<or> us @ ws = p \<and> c # y = ws @ v" by (auto simp: append_eq_append_conv2)
    with assms 2(1) show ?thesis
      by (auto simp: sublist_def Cons_eq_append_conv) (metis append_Nil2)
  qed
qed (auto simp: sublist_append sublist_Cons_right)

lemma prefix_separated: "c \<notin> set p \<Longrightarrow> prefix p (x @ c # y) \<longleftrightarrow> prefix p x"
  by (auto simp: prefix_append prefix_Cons)

lemma find_sub_skip:
  assumes "\<not> sublist p x" and "c \<notin> set p" and "p \<noteq> []"
  shows "find_sub p (x @ c # y) = map_option (\<lambda>i. Suc (length x) + i) (find_sub p y)"
  using assms(1)
proof (induction x)
  case Nil
  from assms(2,3) show ?case by (cases p) (auto simp: has_prefix_iff option.map_comp comp_def intro: option.map_cong)
next
  case (Cons a x)
  then have "\<not> prefix p ((a # x) @ c # y)" and "\<not> sublist p x"
    unfolding prefix_separated [OF assms(2)] by (simp_all add: sublist_Cons_right)
  with Cons.IH show ?case by (simp add: has_prefix_iff option.map_comp comp_def)
qed

lemma count_sub_skip:
  assumes "\<not> sublist p x" and "c \<notin> set p" and "p \<noteq> []"
  shows "count_sub p (x @ c # y) = count_sub p y"
  using assms(1)
proof (induction x)
  case Nil
  from assms(2,3) show ?case by (cases p) (auto simp: has_prefix_iff)
next
  case (Cons a x)
  then have "\<not> prefix p ((a # x) @ c # y)" and "\<not> sublist p x"
    unfolding prefix_separated [OF assms(2)] by (simp_all add: sublist_Cons_right)
  with Cons.IH show ?case by (simp add: has_prefix_iff)
qed

lemma find_sub_here: "p \<noteq> [] \<Longrightarrow> find_sub p (p @ y) = Some 0"
  by (cases p) (auto simp: has_prefix_iff)

lemma count_sub_here: "p \<noteq> [] \<Longrightarrow> count_sub p (p @ y) = Suc (count_sub p y)"
  by (cases p) (auto simp: has_prefix_iff)

text \<open>A text that occurs at most once occurs neither before nor after the place where it is found.\<close>

lemma not_before: "find_sub p s = Some i \<Longrightarrow> p \<noteq> [] \<Longrightarrow> \<not> sublist p (take i s)"
proof (induction s arbitrary: i)
  case (Cons c cs)
  show ?case
  proof (cases "has_prefix (c # cs) p")
    case False
    with Cons.prems obtain j where j: "i = Suc j" "find_sub p cs = Some j" by auto
    have "\<not> prefix p (take i (c # cs))"
      using False prefix_order.trans [OF _ take_is_prefix] unfolding has_prefix_iff by blast
    with Cons.IH [OF j(2) Cons.prems(2)] j(1) show ?thesis by (simp add: sublist_Cons_right)
  qed (use Cons.prems in simp)
qed simp

lemma not_after:
  "find_sub p s = Some i \<Longrightarrow> count_sub p s \<le> 1 \<Longrightarrow> p \<noteq> [] \<Longrightarrow> \<not> sublist p (drop (i + length p) s)"
proof (induction p s arbitrary: i rule: count_sub.induct)
  case (2 p c cs)
  show ?case
  proof (cases "has_prefix (c # cs) p")
    case True
    with 2(3-5) have "i = 0" and "count_sub p (drop (length p - 1) cs) = 0" by simp_all
    moreover from this count_sub_0 [OF 2(5)] have "\<not> sublist p (drop (length p - 1) cs)" by blast
    ultimately show ?thesis using 2(5) by (cases p) simp_all
  next
    case False
    with 2(3) obtain j where "i = Suc j" "find_sub p cs = Some j" by auto
    with 2(2) [OF False] 2(4,5) False show ?thesis by simp
  qed
qed simp

section \<open>Composing twice\<close>

text \<open>\<open>breaks p x\<close>: no occurrence of \<open>p\<close> reaches from \<open>x\<close> into what follows.\<close>

definition breaks :: "string \<Rightarrow> string \<Rightarrow> bool" where
  "breaks p x \<longleftrightarrow> p \<noteq> [] \<and> (x = [] \<or> last x \<notin> set p)"

lemma breaks_append:
  assumes "breaks p x"
  shows "sublist p (x @ y) \<longleftrightarrow> sublist p x \<or> sublist p y"
    and "\<not> sublist p x \<Longrightarrow> find_sub p (x @ y) = map_option (\<lambda>i. length x + i) (find_sub p y)"
    and "\<not> sublist p x \<Longrightarrow> count_sub p (x @ y) = count_sub p y"
proof -
  consider "x = []" | z c where "x = z @ [c]" "c \<notin> set p" "p \<noteq> []"
    using assms by (cases x rule: rev_cases) (auto simp: breaks_def)
  note parts = this
  then show "sublist p (x @ y) \<longleftrightarrow> sublist p x \<or> sublist p y"
  proof cases
    case 2
    then show ?thesis using sublist_separated [of c p z y] sublist_separated [of c p z "[]"] by simp
  qed (use assms in \<open>auto simp: breaks_def\<close>)
  show "find_sub p (x @ y) = map_option (\<lambda>i. length x + i) (find_sub p y)" if "\<not> sublist p x"
    using parts
  proof cases
    case 2
    then have "\<not> sublist p z" using that by (auto simp: sublist_append)
    with 2 show ?thesis using find_sub_skip [of p z c y] by simp
  qed (simp add: option.map_ident)
  show "count_sub p (x @ y) = count_sub p y" if "\<not> sublist p x"
    using parts
  proof cases
    case 2
    then have "\<not> sublist p z" using that by (auto simp: sublist_append)
    with 2 show ?thesis using count_sub_skip [of p z c y] by simp
  qed simp
qed

definition is_newline :: "string \<Rightarrow> bool" where
  "is_newline nl \<longleftrightarrow> nl = crlf \<or> nl = [newline]"

definition is_mark :: "string \<Rightarrow> bool" where
  "is_mark p \<longleftrightarrow> p = begin_mark \<or> p = end_mark"

lemmas mark_defs = begin_mark_def end_mark_def

lemma mark_props:
  assumes "is_mark p"
  shows "p \<noteq> []" "newline \<notin> set p" "carriage_return \<notin> set p" "CHR ''-'' \<in> set p"
  using assms by (auto simp: is_mark_def mark_defs control_chars)

lemma mark_in_other:
  assumes "is_newline nl"
  shows "\<not> sublist end_mark (begin_mark @ nl)" "\<not> sublist begin_mark (end_mark @ nl)"
  using assms
  by (auto simp: is_newline_def crlf_def mark_defs control_chars sublist_Cons_right prefix_Cons)

lemma ends_line [simp]:
  "is_mark p \<Longrightarrow> is_newline nl \<Longrightarrow> breaks p (x @ nl)" "is_newline nl \<Longrightarrow> nl \<noteq> []"
  by (auto simp: breaks_def is_newline_def crlf_def mark_props)

lemma newline_free [simp]: "is_mark p \<Longrightarrow> is_newline nl \<Longrightarrow> \<not> sublist p nl"
  by (auto simp: is_newline_def is_mark_def crlf_def mark_defs control_chars sublist_Cons_right prefix_Cons)

lemma before_newline:
  assumes "is_mark p" and "is_newline nl"
  shows "sublist p (x @ nl @ y) \<longleftrightarrow> sublist p x \<or> sublist p y"
proof -
  note split = sublist_separated [OF mark_props(2) mark_props(1), OF assms(1) assms(1)]
    sublist_separated [OF mark_props(3) mark_props(1), OF assms(1) assms(1)]
  from assms(2) consider "nl = crlf" | "nl = [newline]" by (auto simp: is_newline_def)
  then show ?thesis
  proof cases
    case 1
    have "sublist p (x @ carriage_return # newline # y) \<longleftrightarrow> sublist p x \<or> sublist p ([] @ newline # y)"
      by (simp add: split(2))
    with 1 split(1) [of "[]" y] mark_props(1) [OF assms(1)] show ?thesis by (simp add: crlf_def)
  qed (simp add: split)
qed

lemma lines_free:
  assumes "is_mark p" and "is_newline nl" and "list_all (\<lambda>m. valid_workshop (dv_workshop m)) mods"
  shows "\<not> sublist p (concat (map (setup_line nl) mods))" and "breaks p (concat (map (setup_line nl) mods))"
proof -
  have "CHR ''-'' \<notin> set (setup_line nl m)" if "m \<in> set mods" for m
    using assms(2,3) that valid_workshop_not [of "dv_workshop m" "CHR ''-''"]
    by (auto simp: setup_line_def is_newline_def crlf_def control_chars list_all_iff is_digit_def)
  then have "CHR ''-'' \<notin> set (concat (map (setup_line nl) mods))" by auto
  then show "\<not> sublist p (concat (map (setup_line nl) mods))"
    using mark_props(4) [OF assms(1)] set_mono_sublist by blast
  show "breaks p (concat (map (setup_line nl) mods))"
  proof (cases mods rule: rev_cases)
    case (snoc ms m)
    then have "concat (map (setup_line nl) mods) =
        (concat (map (setup_line nl) ms) @ ''ServerModSetup('' @ [CHR 0x22] @ dv_workshop m @ [CHR 0x22] @ '')'') @ nl"
      by (simp add: setup_line_def)
    then show ?thesis by (simp only: ends_line assms)
  qed (simp add: breaks_def mark_props [OF assms(1)])
qed

text \<open>Parts between which no mark stands, and which line ends do not touch.\<close>

definition parts_ok :: "string \<Rightarrow> string \<Rightarrow> bool" where
  "parts_ok pre suf \<longleftrightarrow>
     (\<forall>p. is_mark p \<longrightarrow> \<not> sublist p pre \<and> \<not> sublist p suf) \<and>
     (pre = [] \<or> \<not> line_end (last pre)) \<and> (suf = [] \<or> \<not> line_end (hd suf))"

lemma sublist_parts: "sublist p (take n s) \<Longrightarrow> sublist p s" "sublist p (drop n s) \<Longrightarrow> sublist p s"
  by (blast intro: sublist_order.order_trans)+

lemma trim_ends_sublist: "sublist (trim_line_ends s) s" "sublist (dropWhile line_end s) s"
proof -
  have "s = trim_line_ends s @ rev (takeWhile line_end (rev s))"
    unfolding trim_line_ends_def by (metis rev_append rev_rev_ident takeWhile_dropWhile_id)
  then show "sublist (trim_line_ends s) s" by (metis sublist_append_rightI)
  show "sublist (dropWhile line_end s) s" by (metis sublist_append_leftI takeWhile_dropWhile_id)
qed

text \<open>The end mark does not begin within the begin mark.\<close>

lemma end_mark_inside: "k < length begin_mark \<Longrightarrow> \<not> prefix end_mark (drop k (begin_mark @ u))"
proof
  assume k: "k < length begin_mark" and p: "prefix end_mark (drop k (begin_mark @ u))"
  have "take 4 (drop k (begin_mark @ u)) = take 4 end_mark"
    using p by (auto simp: prefix_def mark_defs)
  moreover have "k \<in> {0..<31}" using k by (simp add: mark_defs)
  moreover have "\<forall>k \<in> {0..<31}. take 4 (drop k (begin_mark @ u)) \<noteq> take 4 end_mark"
    by (simp add: mark_defs atLeastLessThan_nat_numeral)
  ultimately show False by blast
qed

lemma marks_apart:
  assumes "find_sub begin_mark s = Some i" and "find_sub end_mark s = Some j" and "i \<le> j"
  shows "i + length begin_mark \<le> j"
proof (rule ccontr)
  assume "\<not> i + length begin_mark \<le> j"
  then have "j - i < length begin_mark" using assms(3) by simp
  moreover obtain u where u: "drop i s = begin_mark @ u"
    using find_sub_SomeD [OF assms(1)] by (auto simp: prefix_def)
  moreover have "drop j s = drop (j - i) (begin_mark @ u)" using assms(3) by (simp add: u [symmetric])
  ultimately show False using end_mark_inside find_sub_SomeD [OF assms(2)] by metis
qed

text \<open>The operator's text: what stands around the one block, or all of it.\<close>

definition around_block :: "string \<Rightarrow> string \<Rightarrow> string \<Rightarrow> bool" where
  "around_block s a b \<longleftrightarrow>
     (s = a \<and> b = [] \<or> (\<exists>c. s = a @ begin_mark @ c @ end_mark @ b)) \<and>
     (\<forall>p \<in> {begin_mark, end_mark}. \<not> sublist p a \<and> \<not> sublist p b)"

lemma setup_parts_cut:
  assumes "setup_parts s = Some (pre, suf)"
  obtains a b where "around_block s a b" "pre = trim_line_ends a" "suf = dropWhile line_end b"
proof (cases "find_sub begin_mark s")
  case None
  with assms have "find_sub end_mark s = None" and "pre = trim_line_ends s" "suf = dropWhile line_end []"
    by (auto simp: setup_parts_def Let_def split: if_splits)
  with None that [of s "[]"] show thesis
    by (auto simp: find_sub_None mark_defs around_block_def)
next
  case (Some i)
  with assms obtain j where j: "find_sub end_mark s = Some j" "i \<le> j"
    and once: "count_sub begin_mark s \<le> 1" "count_sub end_mark s \<le> 1"
    and cut: "pre = trim_line_ends (take i s)" "suf = dropWhile line_end (drop (j + length end_mark) s)"
    by (auto simp: setup_parts_def Let_def split: if_splits)
  have far: "i + length begin_mark \<le> j" by (rule marks_apart [OF Some j])
  have free: "\<not> sublist p (take i s) \<and> \<not> sublist p (drop (j + length end_mark) s)" if "p \<in> {begin_mark, end_mark}" for p
    using that unfolding insert_iff
  proof (elim disjE emptyE)
    assume p: "p = begin_mark"
    have "drop (j + length end_mark) s =
        drop (j + length end_mark - (i + length begin_mark)) (drop (i + length begin_mark) s)"
      using far by simp
    with not_before [OF Some] not_after [OF Some once(1)] p show ?thesis
      by (metis sublist_parts(2) is_mark_def mark_props(1))
  next
    assume p: "p = end_mark"
    have "take i s = take i (take j s)" using j(2) by (simp add: min_def)
    with not_before [OF j(1)] not_after [OF j(1) once(2)] p show ?thesis
      by (metis sublist_parts(1) is_mark_def mark_props(1))
  qed
  obtain u where u: "drop i s = begin_mark @ u"
    using find_sub_SomeD [OF Some] by (auto simp: prefix_def)
  obtain v where v: "drop j s = end_mark @ v"
    using find_sub_SomeD [OF j(1)] by (auto simp: prefix_def)
  define k where "k = j - (i + length begin_mark)"
  have "drop k u = drop (length begin_mark + k) (drop i s)" by (simp add: u)
  also have "\<dots> = drop j s" using far by (simp add: k_def add.commute)
  finally have "u = take k u @ end_mark @ v" using v by (metis append_take_drop_id)
  then have "s = take i s @ begin_mark @ take k u @ end_mark @ v" using u by (metis append_take_drop_id)
  moreover have "v = drop (j + length end_mark) s"
    using v by (metis add.commute append_eq_conv_conj drop_drop)
  ultimately have "around_block s (take i s) (drop (j + length end_mark) s)"
    unfolding around_block_def using free by blast
  then show thesis using cut by (rule that)
qed

lemma setup_parts_ok:
  assumes "setup_parts s = Some (pre, suf)"
  shows "parts_ok pre suf"
proof -
  obtain a b where "around_block s a b" and cut: "pre = trim_line_ends a" "suf = dropWhile line_end b"
    by (rule setup_parts_cut [OF assms])
  then have free: "\<not> sublist p a \<and> \<not> sublist p b" if "is_mark p" for p
    using that by (auto simp: around_block_def is_mark_def)
  have "\<not> sublist p pre \<and> \<not> sublist p suf" if "is_mark p" for p
    using trim_ends_sublist free [OF that] unfolding cut by (metis sublist_order.order_trans)
  moreover have "pre = [] \<or> \<not> line_end (last pre)"
    unfolding cut trim_line_ends_def using hd_dropWhile [of line_end "rev a"] by (auto simp: last_rev)
  moreover have "suf = [] \<or> \<not> line_end (hd suf)"
    unfolding cut using hd_dropWhile by blast
  ultimately show ?thesis by (simp add: parts_ok_def)
qed

text \<open>The suffix as it is after it was written, with a line end of its own.\<close>

definition closed_suffix :: "string \<Rightarrow> string \<Rightarrow> string" where
  "closed_suffix nl suf = suf @ (if suf = [] \<or> line_end (last suf) then [] else nl)"

lemma setup_text_closed:
  assumes "is_newline nl"
  shows "setup_text nl pre (closed_suffix nl suf) mods = setup_text nl pre suf mods"
  using assms by (auto simp: setup_text_def closed_suffix_def is_newline_def crlf_def line_end_def)

lemma setup_parts_text:
  assumes parts: "parts_ok pre suf" and nl: "is_newline nl"
    and mods: "list_all (\<lambda>m. valid_workshop (dv_workshop m)) mods"
  shows "setup_parts (setup_text nl pre suf mods) = Some (pre, closed_suffix nl suf)"
proof -
  define before where "before = (if pre = [] then [] else (pre @ nl) @ nl)"
  define block where "block = concat (map (setup_line nl) mods)"
  define after where "after = nl @ (if suf = [] then [] else nl @ closed_suffix nl suf)"
  have out: "setup_text nl pre suf mods = before @ begin_mark @ nl @ block @ end_mark @ after"
    by (simp add: setup_text_def before_def block_def after_def closed_suffix_def)
  have marks: "is_mark begin_mark" "is_mark end_mark" by (simp_all add: is_mark_def)
  have pre_free: "\<not> sublist p before" "breaks p before" if "is_mark p" for p
  proof -
    show "\<not> sublist p before"
      using parts that before_newline [OF that nl, of pre nl] by (simp add: before_def parts_ok_def nl mark_props)
    show "breaks p before"
      unfolding before_def using ends_line(1) [OF that nl, of "pre @ nl"] mark_props(1) [OF that]
      by (cases "pre = []") (simp_all add: breaks_def)
  qed
  have suf_free: "\<not> sublist p after" if "is_mark p" for p
  proof -
    have "\<not> sublist p (closed_suffix nl suf)"
      using parts that before_newline [OF that nl, of suf "[]"] mark_props(1) [OF that]
      by (simp add: closed_suffix_def parts_ok_def)
    then show ?thesis
      using before_newline [OF that nl, of "[]"] before_newline [OF that nl, of "[]" "[]"] mark_props(1) [OF that]
      by (simp add: after_def)
  qed
  note block_free = lines_free [OF _ nl mods, folded block_def]
  have head: "breaks end_mark (before @ (begin_mark @ nl) @ block)" "\<not> sublist end_mark (before @ (begin_mark @ nl) @ block)"
  proof -
    have "block = [] \<or> (\<exists>z. before @ (begin_mark @ nl) @ block = z @ block \<and> block \<noteq> [])" by simp
    then show "breaks end_mark (before @ (begin_mark @ nl) @ block)"
      using block_free(2) [OF marks(2)] ends_line(1) [OF marks(2) nl, of "before @ begin_mark"]
      by (cases "block = []") (auto simp: breaks_def)
    show "\<not> sublist end_mark (before @ (begin_mark @ nl) @ block)"
      using pre_free [OF marks(2)] block_free(1) [OF marks(2)] mark_in_other(1) [OF nl]
      by (simp add: breaks_append(1) ends_line(1) [OF marks(2) nl] del: append_assoc)
  qed
  have e: "find_sub end_mark (setup_text nl pre suf mods) = Some (length (before @ (begin_mark @ nl) @ block))"
    "count_sub end_mark (setup_text nl pre suf mods) = 1"
  proof -
    have t: "setup_text nl pre suf mods = (before @ (begin_mark @ nl) @ block) @ end_mark @ after" by (simp add: out)
    have "count_sub end_mark after = 0" using suf_free [OF marks(2)] count_sub_0 mark_props(1) [OF marks(2)] by blast
    then show "find_sub end_mark (setup_text nl pre suf mods) = Some (length (before @ (begin_mark @ nl) @ block))"
      "count_sub end_mark (setup_text nl pre suf mods) = 1"
      unfolding t breaks_append(2,3) [OF head]
      by (simp_all add: find_sub_here count_sub_here mark_props(1) [OF marks(2)])
  qed
  have rest: "\<not> sublist begin_mark (nl @ block @ end_mark @ after)"
  proof -
    have "\<not> sublist begin_mark ((end_mark @ nl) @ drop (length nl) after)"
      using mark_in_other(2) [OF nl] suf_free [OF marks(1)] sublist_parts(2)
      by (subst breaks_append(1) [OF ends_line(1) [OF marks(1) nl]]) blast
    moreover have "(end_mark @ nl) @ drop (length nl) after = end_mark @ after" by (simp add: after_def)
    ultimately have "\<not> sublist begin_mark (end_mark @ after)" by simp
    then have "\<not> sublist begin_mark (block @ end_mark @ after)"
      using block_free [OF marks(1)] breaks_append(1) by blast
    then show ?thesis
      using before_newline [OF marks(1) nl, of "[]"] mark_props(1) [OF marks(1)] by simp
  qed
  have b: "find_sub begin_mark (setup_text nl pre suf mods) = Some (length before)"
    "count_sub begin_mark (setup_text nl pre suf mods) = 1"
  proof -
    have "count_sub begin_mark (nl @ block @ end_mark @ after) = 0"
      using rest count_sub_0 mark_props(1) [OF marks(1)] by blast
    then show "find_sub begin_mark (setup_text nl pre suf mods) = Some (length before)"
      "count_sub begin_mark (setup_text nl pre suf mods) = 1"
      unfolding out breaks_append(2,3) [OF pre_free(2) [OF marks(1)] pre_free(1) [OF marks(1)]]
      by (simp_all add: find_sub_here count_sub_here mark_props(1) [OF marks(1)])
  qed
  have "trim_line_ends before = pre"
    using parts nl
    by (cases pre rule: rev_cases)
      (auto simp: before_def trim_line_ends_def parts_ok_def is_newline_def crlf_def line_end_def)
  moreover have "dropWhile line_end after = closed_suffix nl suf"
    using parts nl
    by (cases suf)
      (auto simp: after_def closed_suffix_def parts_ok_def is_newline_def crlf_def line_end_def)
  moreover have "take (length before) (setup_text nl pre suf mods) = before"
    "drop (length (before @ (begin_mark @ nl) @ block) + length end_mark) (setup_text nl pre suf mods) = after"
    by (simp_all add: out)
  ultimately show ?thesis unfolding setup_parts_def Let_def b e by simp
qed

lemma setup_parts_sublist:
  assumes "setup_parts s = Some (pre, suf)"
  shows "sublist pre s" and "sublist suf s"
proof -
  from assms have "(pre = trim_line_ends s \<and> suf = []) \<or>
      (\<exists>i j. pre = trim_line_ends (take i s) \<and> suf = dropWhile line_end (drop j s))"
    by (auto simp: setup_parts_def Let_def split: if_splits option.splits)
  then show "sublist pre s" and "sublist suf s"
    using trim_ends_sublist sublist_parts by (blast intro: sublist_order.order_trans)+
qed

text \<open>The kind of line end is kept.\<close>

lemma crlf_in_append:
  "sublist crlf (x @ y) \<longleftrightarrow>
     sublist crlf x \<or> sublist crlf y \<or> (x \<noteq> [] \<and> y \<noteq> [] \<and> last x = carriage_return \<and> hd y = newline)"
proof (induction x)
  case (Cons a x)
  then show ?case by (cases x; cases y) (auto simp: crlf_def sublist_Cons_right prefix_Cons)
qed (auto simp: crlf_def)

lemma crlf_newline: "sublist crlf (newline # x) \<longleftrightarrow> sublist crlf x"
  by (auto simp: crlf_def control_chars sublist_Cons_right)

lemma setup_newline_iff: "setup_newline s = (if sublist crlf s then crlf else [newline])"
  unfolding setup_newline_def using find_sub_None [of crlf s] by auto

lemma setup_newline_text:
  assumes "setup_parts s = Some (pre, suf)" and "list_all (\<lambda>m. valid_workshop (dv_workshop m)) mods"
  shows "setup_newline (setup_text (setup_newline s) pre suf mods) = setup_newline s"
proof (cases "sublist crlf s")
  case True
  then have "sublist crlf (setup_text crlf pre suf mods)"
    unfolding setup_text_def crlf_in_append by blast
  with True show ?thesis by (simp add: setup_newline_iff)
next
  case False
  from False setup_parts_sublist [OF assms(1)] have free: "\<not> sublist crlf pre" "\<not> sublist crlf suf"
    using sublist_order.order_trans by blast+
  have ends: "pre \<noteq> [] \<Longrightarrow> last pre \<noteq> carriage_return" "suf \<noteq> [] \<Longrightarrow> hd suf \<noteq> newline"
    using setup_parts_ok [OF assms(1)] by (auto simp: parts_ok_def line_end_def)
  define block where "block = concat (map (setup_line [newline]) mods)"
  have "carriage_return \<notin> set block"
    using assms(2) valid_workshop_not [of _ carriage_return]
    by (auto simp: block_def setup_line_def control_chars list_all_iff is_digit_def)
  then have block: "\<not> sublist crlf block" "block \<noteq> [] \<Longrightarrow> last block \<noteq> carriage_return"
    using set_mono_sublist [of crlf block] by (auto simp: crlf_def) (metis last_in_set)
  have marks: "\<not> sublist crlf begin_mark" "\<not> sublist crlf end_mark" "\<not> sublist crlf [newline]"
    "begin_mark \<noteq> []" "end_mark \<noteq> []" "last begin_mark \<noteq> carriage_return" "last end_mark \<noteq> carriage_return"
    by (simp_all add: mark_defs crlf_def control_chars sublist_Cons_right prefix_Cons)
  have chars: "newline \<noteq> carriage_return" "\<not> sublist crlf []" by (simp_all add: control_chars crlf_def)
  have tail: "\<not> sublist crlf (if suf = [] then [] else [newline] @ suf @ (if line_end (last suf) then [] else [newline]))"
    using ends free by (auto simp: crlf_newline crlf_in_append marks chars line_end_def)
  have head: "\<not> sublist crlf (if pre = [] then [] else pre @ [newline] @ [newline])"
    using ends free by (auto simp: crlf_newline crlf_in_append marks chars)
  have "\<not> sublist crlf (setup_text [newline] pre suf mods)"
    unfolding setup_text_def crlf_in_append block_def [symmetric]
    using tail head block marks chars ends by auto
  with False show ?thesis by (simp add: setup_newline_iff)
qed

lemma setup_text_keeps:
  assumes "is_newline nl"
  shows "\<exists>x y z. setup_text nl pre suf mods =
      pre @ x @ begin_mark @ nl @ concat (map (setup_line nl) mods) @ end_mark @ y @ suf @ z \<and>
    (\<forall>c \<in> set (x @ y @ z). line_end c)"
proof -
  have ends: "\<forall>c \<in> set nl. line_end c" using assms by (auto simp: is_newline_def crlf_def line_end_def)
  let ?x = "if pre = [] then [] else nl @ nl" and ?y = "if suf = [] then nl else nl @ nl"
    and ?z = "if suf = [] \<or> line_end (last suf) then [] else nl"
  have "setup_text nl pre suf mods =
      pre @ ?x @ begin_mark @ nl @ concat (map (setup_line nl) mods) @ end_mark @ ?y @ suf @ ?z"
    by (simp add: setup_text_def)
  moreover have "\<forall>c \<in> set (?x @ ?y @ ?z). line_end c" using ends by auto
  ultimately show ?thesis by blast
qed

text \<open>C34: what the operator wrote around the block is kept: the result is the text before the old block (all of
  the file, if it had none) without the line ends at its end, the new block with one line for each mod, and the text
  after the old block without the line ends at its start, joined by line ends only. And composing the setup file twice
  is composing it once: as long as the result is not longer than a setup file may be (8 MiB), a second call replaces
  the block the first one wrote, whatever mods it held.\<close>

theorem compose_setup_twice:
  assumes "compose_managed_setup current mods = Inr out"
  shows "(\<exists>a b nl x y z. around_block current a b \<and> nl \<in> {[newline], crlf} \<and>
      out = trim_line_ends a @ x @ begin_mark @ nl @ concat (map (setup_line nl) mods) @ end_mark @
        y @ dropWhile line_end b @ z \<and>
      (\<forall>c \<in> set (x @ y @ z). line_end c)) \<and>
    (length out \<le> max_overrides \<longrightarrow> compose_managed_setup out mods' = compose_managed_setup current mods')"
proof (intro conjI impI)
  from assms obtain pre suf where parts: "setup_parts current = Some (pre, suf)"
    and mods: "list_all (\<lambda>m. valid_workshop (dv_workshop m)) mods"
    and fits: "length current \<le> max_overrides" "nul \<notin> set current"
    and out: "out = setup_text (setup_newline current) pre suf mods"
    by (auto simp: compose_managed_setup_def split: if_splits option.splits)
  have nl: "is_newline (setup_newline current)" by (simp add: setup_newline_def is_newline_def)
  obtain a b where cut: "around_block current a b" "pre = trim_line_ends a" "suf = dropWhile line_end b"
    by (rule setup_parts_cut [OF parts])
  have "setup_newline current \<in> {[newline], crlf}" by (simp add: setup_newline_def)
  with cut setup_text_keeps [OF nl, of pre suf mods] show "\<exists>a b nl x y z. around_block current a b \<and> nl \<in> {[newline], crlf} \<and>
      out = trim_line_ends a @ x @ begin_mark @ nl @ concat (map (setup_line nl) mods) @ end_mark @
        y @ dropWhile line_end b @ z \<and>
      (\<forall>c \<in> set (x @ y @ z). line_end c)"
    unfolding out by blast
  have "setup_parts out = Some (pre, closed_suffix (setup_newline current) suf)"
    unfolding out by (rule setup_parts_text [OF setup_parts_ok [OF parts] nl mods])
  moreover have "setup_newline out = setup_newline current"
    unfolding out by (rule setup_newline_text [OF parts mods])
  moreover have "nul \<notin> set out"
    using setup_parts_sublist [OF parts] fits(2) mods valid_workshop_not [of _ nul]
    by (auto simp: out setup_text_def setup_line_def setup_newline_def crlf_def mark_defs control_chars list_all_iff
        is_digit_def dest!: set_mono_sublist)
  moreover assume "length out \<le> max_overrides"
  ultimately show "compose_managed_setup out mods' = compose_managed_setup current mods'"
    using fits parts by (simp add: compose_managed_setup_def setup_text_closed [OF nl])
qed

definition sample_setup :: string where
  "sample_setup = ''-- mine'' @ [newline] @ begin_mark @ [newline] @ ''x'' @ end_mark @ [newline] @ ''print(1)''"

definition sample_mod :: mod_version where
  "sample_mod =
     \<lparr>dv_workshop = ''378160973'', dv_tree = hash_bytes ''t'',
      dv_metadata = \<lparr>dm_title = ''Global Positions'', dm_version = ''1.0'', dm_size = 4096, dm_manifest = ''77'', dm_updated = 1000000000\<rparr>\<rparr>"

theorem compose_setup_twice_witness:
  "\<exists>out. compose_managed_setup sample_setup [sample_mod] = Inr out \<and>
     compose_managed_setup out [] = compose_managed_setup sample_setup []"
proof -
  let ?out = "setup_text [newline] ''-- mine'' ''print(1)'' [sample_mod]"
  have "setup_parts sample_setup = Some (''-- mine'', ''print(1)'')" "setup_newline sample_setup = [newline]"
    "nul \<notin> set sample_setup" "valid_workshop (dv_workshop sample_mod)"
    by (simp_all add: setup_parts_def setup_newline_def sample_setup_def sample_mod_def mark_defs crlf_def
        control_chars has_prefix_def trim_line_ends_def line_end_def valid_workshop_def is_digit_def)
  moreover have "length sample_setup \<le> max_overrides"
    by (simp add: sample_setup_def mark_defs max_overrides_def)
  ultimately have "compose_managed_setup sample_setup [sample_mod] = Inr ?out"
    by (simp add: compose_managed_setup_def)
  moreover have "length ?out \<le> max_overrides" by (simp add: setup_text_def mark_defs setup_line_def sample_mod_def line_end_def max_overrides_def)
  ultimately show ?thesis using compose_setup_twice [of sample_setup "[sample_mod]" ?out "[]"] by blast
qed

end
