(* ===== verification/Dist_Manifest.thy ===== *)
theory Dist_Manifest
  imports Dist_Setup Steam_VDF
begin

text \<open>
  \<open>workshop_manifest.go\<close>: the file in which Steam records the Workshop items of an installation, which a release
  extends by the mods it installs. The file is Valve KeyValues (\<open>Steam_VDF\<close>); a Go map is the list of its entries by
  key. \<open>childObject\<close> hands out a map that is changed in place; here the child is put back after its change.
\<close>

type_synonym vdf_fields = "(string \<times> vdf) list"

section \<open>Numbers\<close>

definition wrap64 :: "int \<Rightarrow> int" where
  "wrap64 n = (n + 9223372036854775808) mod 18446744073709551616 - 9223372036854775808"

text \<open>\<open>strconv.ParseInt(s, 10, 64)\<close>: the value, which is the nearest bound when it is out of range and 0 when the
  text is not a number, and whether there was no error.\<close>

definition parse_int64 :: "string \<Rightarrow> int \<times> bool" where
  "parse_int64 s =
     (let neg = has_prefix s ''-''; ds = (if neg \<or> has_prefix s ''+'' then drop 1 s else s);
          n = int (digit_value ds)
      in if ds = [] \<or> \<not> list_all is_digit ds then (0, False)
         else if neg \<and> n > 9223372036854775808 then (- 9223372036854775808, False)
         else if \<not> neg \<and> n > 9223372036854775807 then (9223372036854775807, False)
         else (if neg then - n else n, True))"

section \<open>Fields\<close>

definition string_field :: "vdf_fields \<Rightarrow> string \<Rightarrow> string" where
  "string_field m k = (case map_of m k of Some (Text s) \<Rightarrow> s | _ \<Rightarrow> [])"

definition object_field :: "vdf_fields \<Rightarrow> string \<Rightarrow> vdf_fields option" where
  "object_field m k = (case map_of m k of Some (Object c) \<Rightarrow> Some c | _ \<Rightarrow> None)"

definition child_object :: "vdf_fields \<Rightarrow> string \<Rightarrow> vdf_fields" where
  "child_object m k = (case object_field m k of Some c \<Rightarrow> c | None \<Rightarrow> [])"

definition set_default :: "string \<Rightarrow> string \<Rightarrow> vdf_fields \<Rightarrow> vdf_fields" where
  "set_default k v m = (if map_of m k = None then put k (Text v) m else m)"

definition text_object :: "(string \<times> string) list \<Rightarrow> vdf" where
  "text_object kvs = Object (fold (\<lambda>(k, v). put k (Text v)) kvs [])"

section \<open>Composing\<close>

definition installed_item :: "string \<Rightarrow> string \<Rightarrow> string \<Rightarrow> vdf" where
  "installed_item manifest sz updated =
     text_object [(''manifest'', manifest), (''size'', sz), (''timeupdated'', updated)]"

definition detail_item :: "string \<Rightarrow> string \<Rightarrow> vdf" where
  "detail_item manifest updated =
     text_object [(''latest_manifest'', manifest), (''latest_timeupdated'', updated), (''manifest'', manifest),
       (''timetouched'', updated), (''timeupdated'', updated)]"

definition registered_size :: "vdf_fields \<Rightarrow> metadata \<Rightarrow> int" where
  "registered_size existing md = (if dm_size md < 1 then fst (parse_int64 (string_field existing ''size'')) else dm_size md)"

fun register_mods ::
  "mod_version list \<Rightarrow> vdf_fields \<Rightarrow> vdf_fields \<Rightarrow> dist_errs + vdf_fields \<times> vdf_fields" where
  "register_mods [] installed details = Inr (installed, details)"
| "register_mods (m # ms) installed details =
     (let w = dv_workshop m; md = dv_metadata m; existing = object_field installed w
      in if trim_space (dm_manifest md) = [] then
           (if existing \<noteq> None then register_mods ms installed details else Inl [Dist_Registration w])
         else
           (let updated = json_int (max 0 (dm_updated md div 1000000000));
                sz = registered_size (case existing of Some c \<Rightarrow> c | None \<Rightarrow> []) md
            in if sz < 1 then Inl [Dist_Registration w]
               else register_mods ms (put w (installed_item (dm_manifest md) (json_int sz) updated) installed)
                      (put w (detail_item (dm_manifest md) updated) details)))"

definition size_on_disk :: "vdf_fields \<Rightarrow> int" where
  "size_on_disk installed =
     fold (\<lambda>(_, raw) total.
         let sz = fst (parse_int64 (string_field (case raw of Object c \<Rightarrow> c | _ \<Rightarrow> []) ''size''))
         in if sz > 0 then wrap64 (total + sz) else total)
       installed 0"

definition compose_manifest_map :: "vdf_fields \<Rightarrow> string \<Rightarrow> mod_version list \<Rightarrow> dist_errs + vdf_fields" where
  "compose_manifest_map root app_id mods =
     (let app = child_object root ''AppWorkshop''; configured = string_field app ''appid''
      in if configured \<noteq> [] \<and> configured \<noteq> app_id then Inl [Dist_Conflict]
         else
           (let app1 = fold (\<lambda>k. set_default k ''0'')
                  [''NeedsDownload'', ''NeedsUpdate'', ''TimeLastAppRan'', ''TimeLastUpdated'', ''LastBuildID'']
                  (put ''appid'' (Text app_id) app)
            in case register_mods mods (child_object app1 ''WorkshopItemsInstalled'') (child_object app1 ''WorkshopItemDetails'') of
                 Inl e \<Rightarrow> Inl e
               | Inr (installed, details) \<Rightarrow>
                   Inr (put ''AppWorkshop''
                     (Object (put ''SizeOnDisk'' (Text (json_int (size_on_disk installed)))
                       (put ''WorkshopItemDetails'' (Object details)
                         (put ''WorkshopItemsInstalled'' (Object installed) app1)))) root)))"

text \<open>The installation has a content directory when it has a manifest.\<close>

definition compose_workshop_manifest :: "string \<Rightarrow> trusted_installation \<Rightarrow> mod_version list \<Rightarrow> dist_errs + string" where
  "compose_workshop_manifest current inst mods =
     (case (di_manifest inst, di_content inst) of
        (Some _, Some content) \<Rightarrow>
          (case if current = [] then Inr [] else vdf_parse current of
             Inl _ \<Rightarrow> Inl [Dist_Other]
           | Inr root \<Rightarrow>
               (case compose_manifest_map root (last content) mods of
                  Inl e \<Rightarrow> Inl e
                | Inr m \<Rightarrow> (case vdf_marshal m of Inl _ \<Rightarrow> Inl [Dist_Other] | Inr encoded \<Rightarrow> Inr encoded)))
      | _ \<Rightarrow> Inr [])"

section \<open>Where the manifest lies\<close>

text \<open>The path is derived from the path of the content; that its directory exists is not part of it.\<close>

definition derive_manifest :: "path \<Rightarrow> path option" where
  "derive_manifest content =
     (if length content \<ge> 2 \<and> valid_workshop (last content) \<and> last (butlast content) = ''content''
      then Some (butlast (butlast content) @ [''appworkshop_'' @ last content @ ''.acf'']) else None)"

section \<open>Checking\<close>

definition item_valid :: "vdf_fields \<Rightarrow> bool" where
  "item_valid m \<longleftrightarrow>
     (let (sz, ok) = parse_int64 (string_field m ''size'')
      in \<not> (trim_space (string_field m ''manifest'') = [] \<or> \<not> ok \<or> sz < 1))"

definition validate_inventory :: "string \<Rightarrow> (string \<times> string) list \<Rightarrow> dist_errs + unit" where
  "validate_inventory content expected =
     (if expected = [] then Inr ()
      else case vdf_parse content of
        Inl _ \<Rightarrow> Inl [Dist_Conflict]
      | Inr root \<Rightarrow>
          (case object_field root ''AppWorkshop'' of
             None \<Rightarrow> Inl [Dist_Conflict]
           | Some app \<Rightarrow>
               (case object_field app ''WorkshopItemsInstalled'' of
                  None \<Rightarrow> Inl [Dist_Conflict]
                | Some installed \<Rightarrow>
                    (if list_ex (\<lambda>(w, _). object_field installed w = None) expected then Inl [Dist_Conflict]
                     else if list_ex (\<lambda>(w, _). \<not> item_valid (child_object installed w)) expected then Inl [Dist_Conflict]
                     else Inr ()))))"

section \<open>What was registered is found\<close>

lemma digit_value_append: "digit_value (s @ [c]) = 10 * digit_value s + (of_char c - 48)"
  by (simp add: digit_value_def)

lemma digit_char: "n < 10 \<Longrightarrow> of_char (char_of (48 + n :: nat) :: char) = 48 + n"
  by (simp add: of_char_of)

lemma decimal_digits: "list_all is_digit (decimal n) \<and> digit_value (decimal n) = n \<and> decimal n \<noteq> []"
proof (induction n rule: decimal.induct)
  case (1 n)
  show ?case
  proof (cases "n < 10")
    case True
    then show ?thesis by (simp add: decimal.simps [of n] is_digit_def digit_value_def digit_char)
  next
    case False
    with 1 show ?thesis
      by (simp add: decimal.simps [of n] digit_value_append is_digit_def digit_char)
  qed
qed

lemma parse_json_int:
  assumes "0 \<le> n" and "n \<le> 9223372036854775807"
  shows "parse_int64 (json_int n) = (n, True)"
proof -
  have d: "list_all is_digit (decimal (nat n))" "digit_value (decimal (nat n)) = nat n" "decimal (nat n) \<noteq> []"
    using decimal_digits by simp_all
  then have "\<not> has_prefix (decimal (nat n)) ''-''" "\<not> has_prefix (decimal (nat n)) ''+''"
    by (cases "decimal (nat n)"; auto simp: has_prefix_def is_digit_def)+
  with assms d show ?thesis by (simp add: parse_int64_def json_int_def Let_def)
qed

lemma parse_int64_le: "fst (parse_int64 s) \<le> 9223372036854775807"
  by (auto simp: parse_int64_def Let_def)

definition registered :: "vdf_fields \<Rightarrow> string \<Rightarrow> bool" where
  "registered installed w \<longleftrightarrow> (\<exists>c. object_field installed w = Some c \<and> item_valid c)"

lemma registered_put:
  assumes "trim_space manifest \<noteq> []" and "1 \<le> n" and "n \<le> 9223372036854775807"
  shows "registered (put w (installed_item manifest (json_int n) updated) m) v \<longleftrightarrow> v = w \<or> registered m v"
proof -
  have "parse_int64 (json_int n) = (n, True)" using assms by (intro parse_json_int) simp_all
  with assms show ?thesis
    by (auto simp: registered_def object_field_def installed_item_def text_object_def item_valid_def string_field_def)
qed

lemma register_mods_registers:
  assumes "register_mods ms installed details = Inr (installed', details')"
    and "\<forall>m \<in> set ms. dm_size (dv_metadata m) \<le> 9223372036854775807"
  shows "registered installed' w \<longleftrightarrow> registered installed w \<or>
    (\<exists>m \<in> set ms. dv_workshop m = w \<and> trim_space (dm_manifest (dv_metadata m)) \<noteq> [])"
  using assms
proof (induction ms installed details rule: register_mods.induct)
  case (2 m ms installed details)
  let ?md = "dv_metadata m" and ?existing = "object_field installed (dv_workshop m)"
  let ?sz = "registered_size (case ?existing of Some c \<Rightarrow> c | None \<Rightarrow> []) ?md"
  show ?case
  proof (cases "trim_space (dm_manifest ?md) = []")
    case True
    with 2 show ?thesis by (auto simp: Let_def split: if_splits)
  next
    case False
    have sz: "1 \<le> ?sz" "?sz \<le> 9223372036854775807"
      using 2(3,4) False parse_int64_le by (auto simp: Let_def registered_size_def split: if_splits)
    with 2 False show ?thesis by (auto simp: Let_def registered_put)
  qed
qed simp

lemma object_field_put:
  "object_field (put k (Object c) m) k' = (if k' = k then Some c else object_field m k')"
  "k' \<noteq> k \<Longrightarrow> object_field (put k v m) k' = object_field m k'"
  by (auto simp: object_field_def)

text \<open>What the manifest already listed, with a manifest identifier and a size.\<close>

definition listed :: "vdf_fields \<Rightarrow> string \<Rightarrow> bool" where
  "listed root w \<longleftrightarrow> registered (child_object (child_object root ''AppWorkshop'') ''WorkshopItemsInstalled'') w"

lemma child_set_default:
  "k \<noteq> k' \<Longrightarrow> child_object (set_default k t m) k' = child_object m k'"
  "k \<noteq> k' \<Longrightarrow> child_object (put k v m) k' = child_object m k'"
  by (auto simp: child_object_def set_default_def object_field_put)

text \<open>C35: the Workshop manifest that is composed for the mods of a release can be read back, and the check of the
  inventory accepts it for a set of mods exactly if each of them is one of the release that carries a Steam manifest
  identifier, or was listed with a manifest and a size before: a mod of the release without an identifier is not
  registered, its old entry stays as it is. (The composed fields have to be within the limits of the format, and
  the sizes within 64 bits.)\<close>

theorem composed_inventory_valid:
  assumes "compose_manifest_map root app_id mods = Inr m" and "vdf_ok 0 m" and "length (vdf_tokens m) \<le> token_limit"
    and "current = [] \<and> root = [] \<or> current \<noteq> [] \<and> vdf_parse current = Inr root"
    and "di_manifest inst = Some path" and "di_content inst = Some content" and "last content = app_id"
    and "\<forall>x \<in> set mods. dm_size (dv_metadata x) \<le> 9223372036854775807"
  shows "\<exists>out. compose_workshop_manifest current inst mods = Inr out \<and> vdf_parse out = Inr m \<and>
    (validate_inventory out expected = Inr () \<longleftrightarrow>
       (\<forall>(w, _) \<in> set expected. listed root w \<or>
          (\<exists>x \<in> set mods. dv_workshop x = w \<and> trim_space (dm_manifest (dv_metadata x)) \<noteq> [])))"
proof -
  obtain out where out: "vdf_marshal m = Inr out" "vdf_parse out = Inr m"
    using vdf_codec.decodes assms(2,3) by blast
  then have composed: "compose_workshop_manifest current inst mods = Inr out"
    using assms(1,4-7) by (auto simp: compose_workshop_manifest_def)
  define app1 where "app1 = fold (\<lambda>k. set_default k ''0'')
      [''NeedsDownload'', ''NeedsUpdate'', ''TimeLastAppRan'', ''TimeLastUpdated'', ''LastBuildID'']
      (put ''appid'' (Text app_id) (child_object root ''AppWorkshop''))"
  obtain installed details where
    reg: "register_mods mods (child_object app1 ''WorkshopItemsInstalled'') (child_object app1 ''WorkshopItemDetails'') =
        Inr (installed, details)" and
    m: "m = put ''AppWorkshop'' (Object (put ''SizeOnDisk'' (Text (json_int (size_on_disk installed)))
          (put ''WorkshopItemDetails'' (Object details) (put ''WorkshopItemsInstalled'' (Object installed) app1)))) root"
    using assms(1) unfolding compose_manifest_map_def Let_def app1_def
    by (auto split: if_splits sum.splits prod.splits)
  have "child_object app1 ''WorkshopItemsInstalled'' =
      child_object (child_object root ''AppWorkshop'') ''WorkshopItemsInstalled''"
    by (simp add: app1_def child_set_default)
  then have reg_iff: "registered installed w \<longleftrightarrow> listed root w \<or>
      (\<exists>x \<in> set mods. dv_workshop x = w \<and> trim_space (dm_manifest (dv_metadata x)) \<noteq> [])" for w
    using register_mods_registers [OF reg assms(8)] by (simp add: listed_def)
  have reg_def: "registered installed w \<longleftrightarrow> object_field installed w \<noteq> None \<and> item_valid (child_object installed w)" for w
    by (auto simp: registered_def child_object_def)
  have "validate_inventory out expected = Inr () \<longleftrightarrow>
      expected = [] \<or> \<not> list_ex (\<lambda>(w, _). object_field installed w = None) expected \<and>
        \<not> list_ex (\<lambda>(w, _). \<not> item_valid (child_object installed w)) expected"
    by (simp add: validate_inventory_def out(2) m object_field_put)
  also have "\<dots> \<longleftrightarrow> (\<forall>(w, _) \<in> set expected. registered installed w)"
    unfolding reg_def list_ex_iff by fastforce
  finally have "validate_inventory out expected = Inr () \<longleftrightarrow> (\<forall>(w, _) \<in> set expected. registered installed w)" .
  then show ?thesis using composed out(2) unfolding reg_iff by blast
qed

definition sample_installation :: trusted_installation where
  "sample_installation =
     \<lparr>di_id = ''dst'', di_node = ''node-1'', di_server = [''srv''], di_save = [''save''],
      di_content = Some [''ugc'', ''content'', ''322330''], di_manifest = Some [''ugc'', ''appworkshop_322330.acf'']\<rparr>"

definition sample_inventory :: vdf_fields where
  "sample_inventory =
     [(''AppWorkshop'', Object
        [(''LastBuildID'', Text ''0''), (''NeedsDownload'', Text ''0''), (''NeedsUpdate'', Text ''0''), (''SizeOnDisk'', Text ''4096''),
         (''TimeLastAppRan'', Text ''0''), (''TimeLastUpdated'', Text ''0''),
         (''WorkshopItemDetails'', Object [(''378160973'', detail_item ''77'' ''1'')]),
         (''WorkshopItemsInstalled'', Object [(''378160973'', installed_item ''77'' ''4096'' ''1'')]),
         (''appid'', Text ''322330'')])]"

lemmas sample_simps = sample_inventory_def sample_mod_def detail_item_def installed_item_def text_object_def less_char_def

lemma sample_composed: "compose_manifest_map [] ''322330'' [sample_mod] = Inr sample_inventory"
proof -
  have "json_int 4096 = ''4096''" "json_int 1 = ''1''"
    by (simp_all add: json_int_def decimal.simps char_of_def bit_0)
  moreover have "parse_int64 ''4096'' = (4096, True)"
    by (simp add: parse_int64_def has_prefix_def digit_value_def is_digit_def Let_def)
  moreover have "trim_space ''77'' = ''77''" by code_simp
  ultimately show ?thesis
    by (simp add: compose_manifest_map_def child_object_def object_field_def string_field_def set_default_def
        registered_size_def size_on_disk_def wrap64_def Let_def sample_simps)
qed

theorem composed_inventory_valid_witness:
  "\<exists>out. compose_workshop_manifest [] sample_installation [sample_mod] = Inr out \<and>
     validate_inventory out [(''378160973'', hash_bytes ''t'')] = Inr () \<and>
     validate_inventory out [(''1'', hash_bytes ''t'')] \<noteq> Inr ()"
proof -
  have ok: "vdf_ok 0 sample_inventory"
    by (simp add: sample_simps rune_width_def utf8_shapes_def)
  have short: "length (vdf_tokens sample_inventory) \<le> token_limit"
    by (simp add: token_limit_def sample_simps)
  have at: "di_manifest sample_installation = Some [''ugc'', ''appworkshop_322330.acf'']"
    "di_content sample_installation = Some [''ugc'', ''content'', ''322330'']" "last [''ugc'', ''content'', ''322330''] = ''322330''"
    "\<forall>x \<in> set [sample_mod]. dm_size (dv_metadata x) \<le> 9223372036854775807"
    by (simp_all add: sample_installation_def sample_mod_def)
  have "trim_space ''77'' = ''77''" by code_simp
  then have "dv_workshop sample_mod = ''378160973''" "trim_space (dm_manifest (dv_metadata sample_mod)) \<noteq> []"
    by (simp_all add: sample_mod_def)
  moreover have "\<not> listed [] ''1''" by (simp add: listed_def registered_def child_object_def object_field_def)
  moreover note composed_inventory_valid [OF sample_composed ok short _ at, of "[]" "[(''378160973'', hash_bytes ''t'')]"]
    composed_inventory_valid [OF sample_composed ok short _ at, of "[]" "[(''1'', hash_bytes ''t'')]"]
  ultimately show ?thesis by auto
qed

end
