(* ===== verification/Dist_Cache.thy ===== *)
theory Dist_Cache
  imports Dist_Setup
begin

text \<open>
  \<open>cache.go\<close>, and the helpers on files of \<open>manager.go\<close> and \<open>publisher.go\<close>: the digest of a tree, the check of a
  cached version, the copy of a version into an installation, and what the publisher does with a target. A call
  that only reads may fail once, at its end, because nothing else changes the files while it runs.
\<close>

section \<open>Paths without links\<close>

fun reject_each :: "path list \<Rightarrow> ('s files_scheme, unit) dist_act" where
  "reject_each [] = return_ok ()"
| "reject_each (q # qs) =
     andthen (sys (lstat q)) (\<lambda>x.
       case x of
         None \<Rightarrow> reject_each qs
       | Some n \<Rightarrow> if is_link n then raise [Dist_Unsafe] else reject_each qs)"

definition reject_links :: "path \<Rightarrow> ('s files_scheme, unit) dist_act" where
  "reject_links p = reject_each ([] # up_to p)"

text \<open>Without a link in it, \<open>filepath.EvalSymlinks\<close> gives the path back, if it exists.\<close>

definition trusted_directory :: "path \<Rightarrow> ('s files_scheme, unit) dist_act" where
  "trusted_directory p =
     andthen (reject_links p) (\<lambda>_.
     andthen (sys (lstat p)) (\<lambda>x.
     andthen (guard [File_Failed Not_Exist] (x \<noteq> None)) (\<lambda>_.
     andthen (reject_links p) (\<lambda>_.
     andthen (sys (lstat p)) (\<lambda>y.
       case y of
         None \<Rightarrow> raise [File_Failed Not_Exist]
       | Some n \<Rightarrow> guard [Dist_Unsafe] (is_folder n))))))"

section \<open>The digest of a tree\<close>

text \<open>The entries found so far are counted by \<open>k\<close>, their bytes by \<open>tot\<close>.\<close>

fun scan_walk :: "nat \<Rightarrow> int \<Rightarrow> (path \<times> file_node) list \<Rightarrow> dist_errs + tree_entry list \<times> int" where
  "scan_walk k tot [] = Inr ([], tot)"
| "scan_walk k tot ((rel, n) # rest) =
     (if k \<ge> max_entries \<or> length (join_slash rel) > 2048 then Inl [Dist_Integrity]
      else
        (let found = (\<lambda>e t. case scan_walk (Suc k) t rest of Inl x \<Rightarrow> Inl x | Inr (es, t') \<Rightarrow> Inr (e # es, t'))
         in case n of
              Link _ \<Rightarrow> Inl [Dist_Unsafe]
            | Special \<Rightarrow> Inl [Dist_Integrity]
            | Folder m es \<Rightarrow>
                found \<lparr>de_path = join_slash rel, de_kind = Directory_Entry, de_mode = 365, de_size = 0, de_sha = []\<rparr> tot
            | Plain m c \<Rightarrow>
                (let sz = int (length c)
                 in if sz > max_file_bytes \<or> tot > max_tree_bytes - sz then Inl [Dist_Integrity]
                    else found \<lparr>de_path = join_slash rel, de_kind = File_Entry,
                           de_mode = (if m AND 73 \<noteq> 0 then 365 else 292), de_size = sz, de_sha = hash_bytes c\<rparr> (tot + sz))))"

definition scan_node :: "file_node \<Rightarrow> dist_errs + tree_entry list \<times> int" where
  "scan_node n =
     (case scan_walk 0 0 (tl (walk_dir n)) of Inl e \<Rightarrow> Inl e | Inr (es, tot) \<Rightarrow> Inr (sort_key de_path es, tot))"

definition raise_left :: "dist_errs + 'a \<Rightarrow> ('s, 'a) dist_act" where
  "raise_left r s = (r, s)"

definition scan_tree :: "path \<Rightarrow> ('s files_scheme, tree_entry list \<times> int) dist_act" where
  "scan_tree p =
     andthen (trusted_directory p) (\<lambda>_.
     andthen ctx_ok (\<lambda>_.
     andthen (sys (lstat p)) (\<lambda>x.
       case x of None \<Rightarrow> raise [File_Failed Not_Exist] | Some n \<Rightarrow> raise_left (scan_node n))))"

fun octal :: "nat \<Rightarrow> string" where
  "octal n = (if n < 8 then [char_of (48 + n)] else octal (n div 8) @ [char_of (48 + n mod 8)])"

declare octal.simps [simp del]

fun kind_text :: "entry_kind \<Rightarrow> string" where
  "kind_text Directory_Entry = ''directory''"
| "kind_text File_Entry = ''file''"

definition entry_line :: "tree_entry \<Rightarrow> string" where
  "entry_line e =
     kind_text (de_kind e) @ [nul] @ de_path e @ [nul] @ octal (de_mode e) @ [nul] @ json_int (de_size e) @ [nul] @
     to_lower (de_sha e) @ [newline]"

definition hash_entries :: "tree_entry list \<Rightarrow> string" where
  "hash_entries es = hash_bytes (concat (map entry_line es))"

definition count_files :: "tree_entry list \<Rightarrow> int" where
  "count_files es = int (length (filter (\<lambda>e. de_kind e = File_Entry) es))"

definition hash_file :: "path \<Rightarrow> ('s files_scheme, string) dist_act" where
  "hash_file p = andthen (sys (read_file p)) (\<lambda>c. andthen ctx_ok (\<lambda>_. return_ok (hash_bytes c)))"

section \<open>JSON\<close>

text \<open>\<open>json.Marshal\<close>, \<open>None\<close> for an error, whose empty text the code hashes. An empty slice is nil unless \<open>make\<close>
  made it; bytes are in base 64.\<close>

definition base64_char :: "nat \<Rightarrow> char" where
  "base64_char n = (''ABCDEFGHIJKLMNOPQRSTUVWXYZabcdefghijklmnopqrstuvwxyz0123456789+/'') ! n"

fun base64 :: "nat list \<Rightarrow> string" where
  "base64 [] = []"
| "base64 [a] = [base64_char (a div 4), base64_char (a mod 4 * 16), CHR ''='', CHR ''='']"
| "base64 [a, b] = [base64_char (a div 4), base64_char (a mod 4 * 16 + b div 16), base64_char (b mod 16 * 4), CHR ''='']"
| "base64 (a # b # c # rest) =
     [base64_char (a div 4), base64_char (a mod 4 * 16 + b div 16), base64_char (b mod 16 * 4 + c div 64),
      base64_char (c mod 64)] @ base64 rest"

definition json_bytes :: "string \<Rightarrow> string" where
  "json_bytes s = (if s = [] then ''null'' else [CHR 0x22] @ base64 (map of_char s) @ [CHR 0x22])"

definition json_array :: "string list \<Rightarrow> string" where
  "json_array vs = ''['' @ json_items vs @ '']''"

definition unless_empty :: "string \<Rightarrow> string \<Rightarrow> (string \<times> string) list" where
  "unless_empty k v = (if v = [] then [] else [(k, json_string v)])"

definition json_metadata :: "metadata \<Rightarrow> string option" where
  "json_metadata m =
     (case json_time (dm_updated m) of
        None \<Rightarrow> None
      | Some t \<Rightarrow> Some (json_struct
          (unless_empty ''title'' (dm_title m) @ unless_empty ''version'' (dm_version m) @
           (if dm_size m = 0 then [] else [(''publishedFileSize'', json_int (dm_size m))]) @
           unless_empty ''steamManifestId'' (dm_manifest m) @ [(''steamUpdatedAt'', t)])))"

definition json_entry :: "tree_entry \<Rightarrow> string" where
  "json_entry e =
     json_struct ([(''path'', json_string (de_path e)), (''kind'', json_string (kind_text (de_kind e))),
       (''mode'', decimal (de_mode e))] @ (if de_size e = 0 then [] else [(''size'', json_int (de_size e))]) @
       unless_empty ''sha256'' (de_sha e))"

definition json_manifest :: "dist_manifest \<Rightarrow> string option" where
  "json_manifest m =
     (case (json_metadata (df_metadata m), json_time (df_created m)) of
        (Some md, Some created) \<Rightarrow> Some (json_struct
          [(''version'', json_int (df_version m)), (''workshopId'', json_string (df_workshop m)),
           (''treeSha256'', json_string (df_tree m)), (''manifestSha256'', json_string (df_sha m)),
           (''size'', json_int (df_size m)), (''fileCount'', json_int (df_files m)),
           (''entries'', json_array (map json_entry (df_entries m))), (''metadata'', md), (''createdAt'', created)])
      | _ \<Rightarrow> None)"

definition digest_of :: "string option \<Rightarrow> string" where
  "digest_of j = hash_bytes (case j of None \<Rightarrow> [] | Some t \<Rightarrow> t)"

definition manifest_digest :: "dist_manifest \<Rightarrow> string" where
  "manifest_digest m = digest_of (json_manifest (m\<lparr>df_sha := []\<rparr>))"

section \<open>Cached versions\<close>

definition cached :: "string \<Rightarrow> string \<Rightarrow> 's dist_db_scheme \<Rightarrow> cached_version" where
  "cached w tree_sha s =
     (case map_of (cache_versions s) (w, to_lower tree_sha) of None \<Rightarrow> \<lparr>cv_manifest = None, cv_content = None\<rparr> | Some v \<Rightarrow> v)"

definition manifest_fits :: "string \<Rightarrow> string \<Rightarrow> dist_manifest \<Rightarrow> bool" where
  "manifest_fits w tree_sha m \<longleftrightarrow>
     \<not> (df_version m \<noteq> 1 \<or> df_workshop m \<noteq> w \<or> to_lower (df_tree m) \<noteq> to_lower tree_sha \<or>
        \<not> valid_sha256 (df_sha m) \<or> manifest_digest m \<noteq> to_lower (df_sha m))"

definition read_manifest :: "string \<Rightarrow> string \<Rightarrow> ('s dist_db_scheme, dist_manifest) dist_act" where
  "read_manifest w tree_sha =
     andthen (guard [Dist_Invalid] (valid_workshop w \<and> valid_sha256 tree_sha)) (\<lambda>_.
     andthen (external [File_Failed Input_Output]) (\<lambda>_.
     andthen (query (cached w tree_sha)) (\<lambda>v.
       case cv_manifest v of
         None \<Rightarrow> raise [File_Failed Not_Exist]
       | Some Unreadable \<Rightarrow> raise [Dist_Other]
       | Some (Document m) \<Rightarrow>
           if manifest_fits w tree_sha m then return_ok m else raise [Dist_Integrity])))"

definition content_matches :: "dist_manifest \<Rightarrow> tree_entry list \<times> int \<Rightarrow> bool" where
  "content_matches m es \<longleftrightarrow>
     \<not> (snd es \<noteq> df_size m \<or> count_files (fst es) \<noteq> df_files m \<or>
        hash_entries (fst es) \<noteq> to_lower (df_tree m) \<or> fst es \<noteq> df_entries m)"

definition scan_content :: "string \<Rightarrow> string \<Rightarrow> ('s dist_db_scheme, tree_entry list \<times> int) dist_act" where
  "scan_content w tree_sha =
     andthen (external [File_Failed Input_Output]) (\<lambda>_.
     andthen ctx_ok (\<lambda>_.
     andthen (query (cached w tree_sha)) (\<lambda>v.
       case cv_content v of
         None \<Rightarrow> raise [File_Failed Not_Exist]
       | Some n \<Rightarrow> if is_folder n then raise_left (scan_node n) else raise [Dist_Unsafe])))"

definition verify_manifest :: "dist_manifest \<Rightarrow> ('s dist_db_scheme, unit) dist_act" where
  "verify_manifest m =
     andthen (guard [Dist_Integrity] (df_version m = 1 \<and> valid_workshop (df_workshop m) \<and> valid_sha256 (df_tree m))) (\<lambda>_.
     andthen (attempt (scan_content (df_workshop m) (df_tree m))) (\<lambda>r.
       case r of
         Inl e \<Rightarrow> raise (Dist_Integrity # e)
       | Inr es \<Rightarrow> guard [Dist_Integrity] (content_matches m es)))"

definition verify_cached :: "string \<Rightarrow> string \<Rightarrow> ('s dist_db_scheme, dist_manifest) dist_act" where
  "verify_cached w tree_sha =
     andthen (attempt (read_manifest w tree_sha)) (\<lambda>r.
       case r of
         Inl e \<Rightarrow> raise (if is_not_exist e then [Dist_Not_Found] else e)
       | Inr m \<Rightarrow> andthen (verify_manifest m) (\<lambda>_. return_ok m))"

section \<open>Copying a version\<close>

text \<open>\<open>filepath.Clean\<close> changes a relative path when one of its components is empty, \<open>.\<close>, or a \<open>..\<close> that follows
  another component; a \<open>..\<close> it leaves in front is refused as well.\<close>

definition safe_manifest_path :: "string \<Rightarrow> bool" where
  "safe_manifest_path v \<longleftrightarrow>
     \<not> (v = [] \<or> CHR 0x5C \<in> set v \<or> nul \<in> set v \<or> has_prefix v ''/'') \<and>
     list_all (\<lambda>c. c \<noteq> [] \<and> c \<noteq> ''.'' \<and> c \<noteq> ''..'') (split_slash v)"

definition copy_verified_file :: "file_node \<Rightarrow> path \<Rightarrow> path \<Rightarrow> tree_entry \<Rightarrow> ('s files_scheme, unit) dist_act" where
  "copy_verified_file src from dest e =
     andthen (external [File_Failed Input_Output]) (\<lambda>_.
       case find_node src from of
         Some (Plain m c) \<Rightarrow>
           andthen (sys (create_new dest 384)) (\<lambda>_.
           andthen ctx_ok (\<lambda>_.
           andthen (sys (write_out dest c)) (\<lambda>_.
           andthen (guard [Dist_Integrity] (\<not> (int (length c) \<noteq> de_size e \<or> hash_bytes c \<noteq> to_lower (de_sha e)))) (\<lambda>_.
           sys (chmod dest (\<lambda>_. de_mode e))))))
       | _ \<Rightarrow> raise [File_Failed Not_Exist])"

fun copy_entries :: "file_node \<Rightarrow> path \<Rightarrow> tree_entry list \<Rightarrow> ('s files_scheme, unit) dist_act" where
  "copy_entries src dest [] = return_ok ()"
| "copy_entries src dest (e # es) =
     andthen ctx_ok (\<lambda>_.
     andthen (guard [Dist_Integrity] (safe_manifest_path (de_path e))) (\<lambda>_.
     (let rel = split_slash (de_path e)
      in andthen
           (case de_kind e of
              Directory_Entry \<Rightarrow> sys (mkdir_all (dest @ rel) 448)
            | File_Entry \<Rightarrow> andthen (sys (mkdir_all (butlast (dest @ rel)) 448)) (\<lambda>_. copy_verified_file src rel (dest @ rel) e))
           (\<lambda>_. copy_entries src dest es))))"

fun seal_directories :: "path \<Rightarrow> tree_entry list \<Rightarrow> ('s files_scheme, unit) dist_act" where
  "seal_directories dest [] = return_ok ()"
| "seal_directories dest (e # es) =
     (case de_kind e of
        Directory_Entry \<Rightarrow>
          andthen (sys (chmod (dest @ split_slash (de_path e)) (\<lambda>_. de_mode e))) (\<lambda>_. seal_directories dest es)
      | File_Entry \<Rightarrow> seal_directories dest es)"

definition copy_manifest_tree :: "file_node \<Rightarrow> path \<Rightarrow> dist_manifest \<Rightarrow> ('s files_scheme, unit) dist_act" where
  "copy_manifest_tree src dest m =
     andthen (sys (mkdir_all dest 448)) (\<lambda>_.
     andthen (copy_entries src dest (df_entries m)) (\<lambda>_.
     andthen (seal_directories dest (rev (df_entries m))) (\<lambda>_.
     sys (chmod dest (\<lambda>_. 365)))))"

definition ensure_disk_space :: "int \<Rightarrow> int \<Rightarrow> ('s dist_db_scheme, unit) dist_act" where
  "ensure_disk_space required reserve =
     andthen (guard [Dist_Invalid] (\<not> (required < 0 \<or> reserve < 0))) (\<lambda>_.
     andthen (query (\<lambda>s. sint (free_space s (step s)))) (\<lambda>free.
     andthen (external [Dist_Other]) (\<lambda>_.
     guard [Dist_Space] (\<not> (required > free \<or> reserve > free - required)))))"

section \<open>Targets\<close>

definition accept_node :: "bool \<Rightarrow> file_node \<Rightarrow> ('s files_scheme, bool) dist_act" where
  "accept_node directory n =
     (if is_link n \<or> directory \<noteq> is_folder n \<or> \<not> directory \<and> \<not> is_plain n then raise [Dist_Unsafe]
      else if directory then
        andthen (external [File_Failed Input_Output]) (\<lambda>_.
        andthen (guard [Dist_Unsafe] (\<not> list_ex (\<lambda>(_, k). is_link k) (walk_dir n))) (\<lambda>_. return_ok True))
      else return_ok True)"

definition inspect_target :: "path \<Rightarrow> bool \<Rightarrow> ('s files_scheme, bool) dist_act" where
  "inspect_target p directory =
     andthen (reject_links (butlast p)) (\<lambda>_.
     andthen (sys (lstat p)) (\<lambda>x. case x of None \<Rightarrow> return_ok False | Some n \<Rightarrow> accept_node directory n))"

definition target_digest :: "path \<Rightarrow> bool \<Rightarrow> bool \<Rightarrow> ('s files_scheme, string) dist_act" where
  "target_digest p directory exists =
     (if \<not> exists then return_ok []
      else if directory then andthen (scan_tree p) (\<lambda>(es, _). return_ok (hash_entries es))
      else hash_file p)"

fun chmod_each :: "(file_node \<Rightarrow> nat \<Rightarrow> nat) \<Rightarrow> path \<Rightarrow> (path \<times> file_node) list \<Rightarrow> ('s files_scheme, unit) dist_act" where
  "chmod_each f p [] = return_ok ()"
| "chmod_each f p ((rel, n) # rest) =
     (if is_link n then raise [Dist_Unsafe]
      else andthen (sys (chmod (p @ rel) (f n))) (\<lambda>_. chmod_each f p rest))"

definition walked :: "path \<Rightarrow> ((path \<times> file_node) list \<Rightarrow> ('s files_scheme, unit) dist_act) \<Rightarrow> ('s files_scheme, unit) dist_act" where
  "walked p f =
     andthen (sys (lstat p)) (\<lambda>x. case x of None \<Rightarrow> raise [File_Failed Not_Exist] | Some n \<Rightarrow> f (walk_dir n))"

definition make_tree_writable :: "path \<Rightarrow> ('s files_scheme, unit) dist_act" where
  "make_tree_writable p = walked p (chmod_each (\<lambda>n _. if is_folder n then 448 else 384) p)"

definition make_owner_writable :: "path \<Rightarrow> ('s files_scheme, unit) dist_act" where
  "make_owner_writable p = walked p (chmod_each (\<lambda>_ m. m OR 128) p)"

definition remove_target :: "path \<Rightarrow> bool \<Rightarrow> ('s files_scheme, unit) dist_act" where
  "remove_target p directory =
     andthen (inspect_target p directory) (\<lambda>exists.
       if \<not> exists then return_ok ()
       else if directory then andthen (make_tree_writable p) (\<lambda>_. sys (remove_all p))
       else sys (remove p))"

text \<open>A directory its owner may not write is made writable for the rename alone.\<close>

definition make_movable :: "path \<Rightarrow> file_node \<Rightarrow> ('s files_scheme, unit) dist_act" where
  "make_movable p n = (if mode_of n AND 128 = 0 then sys (chmod p (\<lambda>_. mode_of n OR 128)) else return_ok ())"

definition restore_mode :: "path \<Rightarrow> file_node \<Rightarrow> ('s files_scheme, unit) dist_act" where
  "restore_mode p n = (if mode_of n AND 128 = 0 then sys (chmod p (\<lambda>_. mode_of n)) else return_ok ())"

definition move_directory :: "path \<Rightarrow> path \<Rightarrow> file_node \<Rightarrow> ('s files_scheme, unit) dist_act" where
  "move_directory source dest n =
     andthen (attempt (sys (rename source dest))) (\<lambda>r.
       case r of
         Inl e \<Rightarrow> andthen (attempt (restore_mode source n)) (\<lambda>q. raise (e @ (case q of Inl e' \<Rightarrow> e' | Inr _ \<Rightarrow> [])))
       | Inr _ \<Rightarrow> restore_mode dest n)"

definition rename_target :: "path \<Rightarrow> path \<Rightarrow> bool \<Rightarrow> ('s files_scheme, unit) dist_act" where
  "rename_target source dest directory =
     (if \<not> directory then sys (rename source dest)
      else
        andthen (sys (lstat source)) (\<lambda>x.
          case x of
            None \<Rightarrow> raise [File_Failed Not_Exist]
          | Some n \<Rightarrow> andthen (make_movable source n) (\<lambda>_. move_directory source dest n)))"

end
