(* ===== verification/Dist_Plan.thy ===== *)
theory Dist_Plan
  imports Dist_Manifest Dist_Cache
begin

text \<open>
  The plan of a release (\<open>manager.go\<close>): for each installation the shards with their configuration, the union of their
  mods, and the two files the program manages. Go's map of groups is the list of groups by installation; the
  code's loop over it may take another order, which changes neither the plan nor whether there is an error.
\<close>

section \<open>Reading\<close>

definition read_optional :: "path \<Rightarrow> ('s files_scheme, string option) dist_act" where
  "read_optional p =
     andthen (reject_links (butlast p)) (\<lambda>_.
     andthen (sys (lstat p)) (\<lambda>x.
       case x of
         None \<Rightarrow> return_ok None
       | Some n \<Rightarrow>
           if \<not> is_plain n \<or> (case n of Plain m c \<Rightarrow> length c > max_overrides | _ \<Rightarrow> True) then raise [Dist_Unsafe]
           else andthen (sys (read_file p)) (\<lambda>c.
             if length c > max_overrides then raise [Dist_Integrity, Dist_Invalid] else return_ok (Some c))))"

definition setup_path :: "trusted_installation \<Rightarrow> path" where
  "setup_path inst = di_server inst @ [''mods'', ''dedicated_server_mods_setup.lua'']"

definition overrides_path :: "trusted_installation \<Rightarrow> string \<Rightarrow> string \<Rightarrow> path" where
  "overrides_path inst room world = di_save inst @ [room, world, ''modoverrides.lua'']"

definition bytes_of :: "string option \<Rightarrow> string" where
  "bytes_of x = (case x of None \<Rightarrow> [] | Some c \<Rightarrow> c)"

definition sha_of :: "string option \<Rightarrow> string" where
  "sha_of x = (case x of None \<Rightarrow> [] | Some c \<Rightarrow> hash_bytes c)"

section \<open>Shards and their mods\<close>

definition render_default_overrides :: "mod_version list \<Rightarrow> string" where
  "render_default_overrides mods =
     ''return {'' @ [newline] @
     concat (map (\<lambda>m. ''  ['' @ [CHR 0x22] @ ''workshop-'' @ dv_workshop m @ [CHR 0x22] @ ''] = { enabled = true },'' @ [newline])
       (filter (\<lambda>m. valid_workshop (dv_workshop m)) (sort_mods mods))) @
     ''}'' @ [newline]"

definition merge_metadata :: "metadata \<Rightarrow> metadata \<Rightarrow> metadata" where
  "merge_metadata current incoming =
     (let named = current\<lparr>dm_title := (if dm_title incoming \<noteq> [] then dm_title incoming else dm_title current),
             dm_version := (if dm_version incoming \<noteq> [] then dm_version incoming else dm_version current),
             dm_size := (if dm_size incoming > 0 then dm_size incoming else dm_size current)\<rparr>
      in if dm_manifest incoming \<noteq> [] \<and>
            (dm_manifest current = [] \<or> dm_updated current = zero_time \<or> \<not> dm_updated incoming < dm_updated current)
         then named\<lparr>dm_manifest := dm_manifest incoming, dm_updated := dm_updated incoming\<rparr>
         else if dm_updated current = zero_time \<and> dm_updated incoming \<noteq> zero_time
         then named\<lparr>dm_updated := dm_updated incoming\<rparr>
         else named)"

type_synonym seen_mods = "(string \<times> mod_version) list"

definition normal_mod :: "mod_version \<Rightarrow> mod_version" where
  "normal_mod m = m\<lparr>dv_tree := to_lower (trim_space (dv_tree m))\<rparr>"

definition mod_ok :: "mod_version \<Rightarrow> bool" where
  "mod_ok m \<longleftrightarrow> valid_workshop (dv_workshop m) \<and> valid_sha256 (dv_tree m) \<and> valid_metadata (dv_metadata m)"

text \<open>The mods of a shard: those seen in the installation, and those of the shard so far.\<close>

fun shard_mods ::
  "mod_version list \<Rightarrow> seen_mods \<Rightarrow> mod_version list \<Rightarrow> ('s dist_db_scheme, seen_mods \<times> mod_version list) dist_act" where
  "shard_mods [] seen mods = return_ok (seen, mods)"
| "shard_mods (raw # ms) seen mods =
     (let m = normal_mod raw; w = dv_workshop m; prior = map_of seen w
      in andthen (guard [Dist_Invalid] (mod_ok m \<and> w \<notin> dv_workshop ` set mods)) (\<lambda>_.
         andthen (guard [Dist_Conflict] (case prior of None \<Rightarrow> True | Some p \<Rightarrow> dv_tree p = dv_tree m)) (\<lambda>_.
         andthen (verify_cached w (dv_tree m)) (\<lambda>_.
         (let m' = (case prior of None \<Rightarrow> m | Some p \<Rightarrow> m\<lparr>dv_metadata := merge_metadata (dv_metadata p) (dv_metadata m)\<rparr>)
          in shard_mods ms (put w m' seen) (mods @ [m']))))))"

definition shard_overrides :: "trusted_installation \<Rightarrow> shard_release \<Rightarrow> ('s files_scheme, string) dist_act" where
  "shard_overrides inst raw =
     (if ds_overrides raw \<noteq> [] then return_ok (ds_overrides raw)
      else
        (let p = overrides_path inst (ds_room_dir raw) (ds_world_dir raw)
         in andthen (reject_links p) (\<lambda>_.
            andthen (sys (lstat p)) (\<lambda>x.
            andthen (guard [Dist_Invalid] (x = None)) (\<lambda>_.
            return_ok (render_default_overrides (ds_mods raw)))))))"

definition shard_ok :: "manager \<Rightarrow> shard_release \<Rightarrow> bool" where
  "shard_ok mg raw \<longleftrightarrow>
     map_of (mg_installations mg) (ds_installation raw) \<noteq> None \<and> valid_identity (ds_room raw) \<and>
     valid_identity (ds_world raw) \<and> safe_dir_name (ds_room_dir raw) \<and> safe_dir_name (ds_world_dir raw)"

definition destination_key :: "shard_release \<Rightarrow> string \<times> string \<times> string" where
  "destination_key r = (ds_installation r, ds_room_dir r, ds_world_dir r)"

definition empty_group :: "string \<Rightarrow> trusted_installation \<Rightarrow> installation_plan" where
  "empty_group iid inst =
     \<lparr>dp_installation = iid, dp_node = di_node inst, dp_mods = [], dp_shards = [], dp_setup = [], dp_setup_base = [],
      dp_manifest = [], dp_manifest_base = []\<rparr>"

type_synonym plan_groups = "(string \<times> installation_plan) list"

fun collect_shards ::
  "manager \<Rightarrow> shard_release list \<Rightarrow> plan_groups \<Rightarrow> (string \<times> string \<times> string) list \<Rightarrow> nat \<Rightarrow>
   ('s dist_db_scheme, plan_groups) dist_act" where
  "collect_shards mg [] groups dests used = return_ok groups"
| "collect_shards mg (raw # rest) groups dests used =
     andthen ctx_ok (\<lambda>_.
     andthen (guard [Dist_Invalid] (shard_ok mg raw)) (\<lambda>_.
     (let iid = ds_installation raw; inst = the (map_of (mg_installations mg) iid)
      in andthen (shard_overrides inst raw) (\<lambda>config.
         andthen (guard [Dist_Invalid] (\<not> (length config > max_overrides \<or> nul \<in> set config))) (\<lambda>_.
         andthen (guard [Dist_Invalid] (\<not> used + length config > max_plan_config)) (\<lambda>_.
         andthen (guard [Dist_Conflict] (destination_key raw \<notin> set dests)) (\<lambda>_.
         (let group = (case map_of groups iid of None \<Rightarrow> empty_group iid inst | Some g \<Rightarrow> g)
          in andthen (shard_mods (ds_mods raw) (fold (\<lambda>m. put (dv_workshop m) m) (dp_mods group) []) []) (\<lambda>(seen, mods).
             collect_shards mg rest
               (put iid (group\<lparr>dp_mods := sort_mods (map snd seen),
                  dp_shards := dp_shards group @ [raw\<lparr>ds_mods := sort_mods mods, ds_overrides := config\<rparr>]\<rparr>) groups)
               (destination_key raw # dests) (used + length config))))))))))"

section \<open>The managed files\<close>

definition with_manifest :: "trusted_installation \<Rightarrow> installation_plan \<Rightarrow> ('s files_scheme, installation_plan) dist_act" where
  "with_manifest inst g =
     (case di_manifest inst of
        None \<Rightarrow> return_ok g
      | Some p \<Rightarrow>
          andthen (read_optional p) (\<lambda>current.
          andthen (raise_left (compose_workshop_manifest (bytes_of current) inst (dp_mods g))) (\<lambda>content.
          return_ok (g\<lparr>dp_manifest := content, dp_manifest_base := sha_of current\<rparr>))))"

definition finish_group :: "manager \<Rightarrow> installation_plan \<Rightarrow> ('s files_scheme, installation_plan) dist_act" where
  "finish_group mg g =
     (let inst = the (map_of (mg_installations mg) (dp_installation g))
      in andthen (read_optional (setup_path inst)) (\<lambda>current.
         andthen (raise_left (compose_managed_setup (bytes_of current) (dp_mods g))) (\<lambda>content.
         with_manifest inst (g\<lparr>dp_shards := sort_key (\<lambda>r. (ds_room_dir r, ds_world_dir r)) (dp_shards g),
           dp_setup := content, dp_setup_base := sha_of current\<rparr>))))"

fun finish_groups :: "manager \<Rightarrow> installation_plan list \<Rightarrow> ('s files_scheme, installation_plan list) dist_act" where
  "finish_groups mg [] = return_ok []"
| "finish_groups mg (g # gs) =
     andthen (finish_group mg g) (\<lambda>h. andthen (finish_groups mg gs) (\<lambda>hs. return_ok (h # hs)))"

definition build_plan :: "manager \<Rightarrow> plan_input \<Rightarrow> ('s dist_db_scheme, dist_plan) dist_act" where
  "build_plan mg input =
     andthen (guard [Dist_Invalid] (valid_operation (pi_operation input) \<and> pi_node input = mg_node mg \<and> pi_shards input \<noteq> [])) (\<lambda>_.
     andthen (collect_shards mg (pi_shards input) [] [] 0) (\<lambda>groups.
     andthen read_now (\<lambda>now.
     andthen (finish_groups mg (map snd groups)) (\<lambda>gs.
     return_ok \<lparr>dn_operation = pi_operation input, dn_node = mg_node mg, dn_mode = Release_Mode, dn_created = now,
       dn_installations = sort_key dp_installation gs\<rparr>))))"

section \<open>Plans that only change content\<close>

fun content_mods :: "mod_version list \<Rightarrow> mod_version list \<Rightarrow> ('s dist_db_scheme, mod_version list) dist_act" where
  "content_mods [] mods = return_ok mods"
| "content_mods (raw # ms) mods =
     (let m = normal_mod raw
      in andthen ctx_ok (\<lambda>_.
         andthen (guard [Dist_Invalid] (mod_ok m \<and> dv_workshop m \<notin> dv_workshop ` set mods)) (\<lambda>_.
         andthen (verify_cached (dv_workshop m) (dv_tree m)) (\<lambda>_. content_mods ms (mods @ [m])))))"

definition build_content_plan :: "manager \<Rightarrow> content_plan_input \<Rightarrow> ('s dist_db_scheme, dist_plan) dist_act" where
  "build_content_plan mg input =
     andthen (guard [Dist_Invalid] (valid_operation (ci_operation input) \<and> ci_node input = mg_node mg \<and> ci_mods input \<noteq> [])) (\<lambda>_.
     andthen (guard [Dist_Invalid] (map_of (mg_installations mg) (ci_installation input) \<noteq> None)) (\<lambda>_.
     (let inst = the (map_of (mg_installations mg) (ci_installation input))
      in andthen (content_mods (ci_mods input) []) (\<lambda>mods.
         andthen (read_optional (setup_path inst)) (\<lambda>current.
         andthen (with_manifest inst ((empty_group (ci_installation input) inst)\<lparr>dp_mods := sort_mods mods,
             dp_setup := bytes_of current, dp_setup_base := sha_of current\<rparr>)) (\<lambda>g.
         andthen read_now (\<lambda>now.
         return_ok \<lparr>dn_operation = ci_operation input, dn_node = mg_node mg, dn_mode = Content_Mode, dn_created = now,
           dn_installations = [g]\<rparr>)))))))"

section \<open>Building a plan again\<close>

fun plan_shards :: "string \<Rightarrow> installation_plan list \<Rightarrow> shard_release list option" where
  "plan_shards node [] = Some []"
| "plan_shards node (g # gs) =
     (if dp_installation g = [] \<or> dp_node g \<noteq> node \<or>
         list_ex (\<lambda>r. ds_installation r \<noteq> dp_installation g) (dp_shards g) then None
      else map_option ((@) (dp_shards g)) (plan_shards node gs))"

definition keep_created :: "int \<Rightarrow> dist_plan \<Rightarrow> ('s env_scheme, dist_plan) dist_act" where
  "keep_created t p =
     (if t = zero_time then andthen read_now (\<lambda>now. return_ok (p\<lparr>dn_created := now\<rparr>)) else return_ok (p\<lparr>dn_created := t\<rparr>))"

definition rebuild_plan :: "manager \<Rightarrow> dist_plan \<Rightarrow> ('s dist_db_scheme, dist_plan) dist_act" where
  "rebuild_plan mg p =
     (if dn_mode p = Content_Mode then
        (case dn_installations p of
           [g] \<Rightarrow>
             andthen (build_content_plan mg \<lparr>ci_operation = dn_operation p, ci_node = dn_node p,
               ci_installation = dp_installation g, ci_mods = dp_mods g\<rparr>) (keep_created (dn_created p))
         | _ \<Rightarrow> raise [Dist_Invalid])
      else
        (case plan_shards (dn_node p) (dn_installations p) of
           None \<Rightarrow> raise [Dist_Invalid]
         | Some shards \<Rightarrow>
             andthen (build_plan mg \<lparr>pi_operation = dn_operation p, pi_node = dn_node p, pi_shards = shards\<rparr>)
               (keep_created (dn_created p))))"

end
