(* ===== verification/Dist_Publisher.thy ===== *)
theory Dist_Publisher
  imports Dist_Plan
begin

text \<open>
  \<open>publisher.go\<close>, \<open>journal.go\<close> and \<open>local_files.go\<close>: the agent's half of a publication. \<open>Prepare\<close> stages every
  changed file beside its target, \<open>Publish\<close> swaps them in one by one and keeps the originals as backups, \<open>Complete\<close>
  checks the result, records it and drops the backups, \<open>Rollback\<close> puts the originals back. A journal says how
  far an operation has come, and \<open>Recover\<close> finishes or undoes what a crash interrupted. The manager's mutex makes
  each operation one step of the program, in which any system call may fail.
\<close>

section \<open>Journals\<close>

fun mode_text :: "plan_mode \<Rightarrow> string" where
  "mode_text Release_Mode = []"
| "mode_text Content_Mode = ''content''"
| "mode_text (Other_Mode s) = s"

fun phase_text :: "dist_phase \<Rightarrow> string" where
  "phase_text Phase_Preparing = ''preparing''"
| "phase_text Phase_Prepared = ''prepared''"
| "phase_text Phase_Publishing = ''publishing''"
| "phase_text Phase_Published = ''published''"
| "phase_text Phase_Completing = ''completing''"
| "phase_text Phase_Committed = ''committed''"
| "phase_text Phase_Rolling_Back = ''rolling_back''"

fun mutation_text :: "mutation_kind \<Rightarrow> string" where
  "mutation_text Mutate_Mod = ''mod''"
| "mutation_text Mutate_Overrides = ''modoverrides''"
| "mutation_text Mutate_Setup = ''dedicated_server_mods_setup''"
| "mutation_text Mutate_Manifest = ''steam_workshop_manifest''"

definition json_mod :: "mod_version \<Rightarrow> string option" where
  "json_mod m =
     map_option (\<lambda>md. json_struct [(''workshopId'', json_string (dv_workshop m)), (''treeSha256'', json_string (dv_tree m)), (''metadata'', md)])
       (json_metadata (dv_metadata m))"

definition json_shard :: "shard_release \<Rightarrow> string option" where
  "json_shard r =
     map_option (\<lambda>ms. json_struct
         [(''installationId'', json_string (ds_installation r)), (''roomId'', json_string (ds_room r)),
          (''roomDirectory'', json_string (ds_room_dir r)), (''worldId'', json_string (ds_world r)),
          (''worldDirectory'', json_string (ds_world_dir r)), (''mods'', json_array ms),
          (''modOverrides'', json_bytes (ds_overrides r))])
       (all_some (map json_mod (ds_mods r)))"

definition json_installation_plan :: "installation_plan \<Rightarrow> string option" where
  "json_installation_plan g =
     (case (all_some (map json_mod (dp_mods g)), all_some (map json_shard (dp_shards g))) of
        (Some ms, Some ss) \<Rightarrow> Some (json_struct
          ([(''installationId'', json_string (dp_installation g)), (''nodeId'', json_string (dp_node g)),
            (''mods'', json_slice ms), (''shards'', json_slice ss), (''managedSetup'', json_bytes (dp_setup g))] @
           unless_empty ''setupBaseSha256'' (dp_setup_base g) @
           (if dp_manifest g = [] then [] else [(''managedWorkshopManifest'', json_bytes (dp_manifest g))]) @
           unless_empty ''workshopManifestBaseSha256'' (dp_manifest_base g)))
      | _ \<Rightarrow> None)"

definition json_plan :: "dist_plan \<Rightarrow> string option" where
  "json_plan p =
     (case (all_some (map json_installation_plan (dn_installations p)), json_time (dn_created p)) of
        (Some gs, Some created) \<Rightarrow> Some (json_struct
          ([(''operationId'', json_string (dn_operation p)), (''nodeId'', json_string (dn_node p))] @
           unless_empty ''mode'' (mode_text (dn_mode p)) @ [(''createdAt'', created), (''installations'', json_slice gs)]))
      | _ \<Rightarrow> None)"

definition json_mutation :: "mutation \<Rightarrow> string" where
  "json_mutation u =
     json_struct ([(''index'', json_int (du_index u)), (''kind'', json_string (mutation_text (du_kind u))),
       (''installationId'', json_string (du_installation u))] @
       unless_empty ''workshopId'' (du_workshop u) @ unless_empty ''treeSha256'' (du_tree u) @
       unless_empty ''roomDirectory'' (du_room_dir u) @ unless_empty ''worldDirectory'' (du_world_dir u) @
       unless_empty ''configSha256'' (du_config u) @ unless_empty ''originalSha256'' (du_original u) @
       [(''hadOriginal'', if du_had u then ''true'' else ''false'')])"

definition json_journal :: "dist_journal \<Rightarrow> string option" where
  "json_journal j =
     (case (json_plan (dj_plan j), json_time (dj_created j), json_time (dj_updated j)) of
        (Some p, Some created, Some updated) \<Rightarrow> Some (json_struct
          [(''version'', json_int (dj_version j)), (''operationId'', json_string (dj_operation j)),
           (''phase'', json_string (phase_text (dj_phase j))), (''nextMutation'', json_int (dj_next j)), (''plan'', p),
           (''mutations'', json_array (map json_mutation (dj_mutations j))), (''createdAt'', created),
           (''updatedAt'', updated), (''integritySha256'', json_string (dj_integrity j))])
      | _ \<Rightarrow> None)"

definition journal_digest :: "dist_journal \<Rightarrow> string" where
  "journal_digest j = digest_of (json_journal (j\<lparr>dj_integrity := []\<rparr>))"

section \<open>The paths of a mutation\<close>

definition mod_target :: "trusted_installation \<Rightarrow> string \<Rightarrow> path" where
  "mod_target inst w =
     (case di_content inst of Some c \<Rightarrow> c @ [w] | None \<Rightarrow> di_server inst @ [''mods'', ''workshop-'' @ w])"

definition is_mod :: "mutation \<Rightarrow> bool" where
  "is_mod u \<longleftrightarrow> du_kind u = Mutate_Mod"

text \<open>The target, the word its stage and backup have in their names, and the root they must lie in.\<close>

definition mutation_place :: "trusted_installation \<Rightarrow> mutation \<Rightarrow> (path \<times> string \<times> path) option" where
  "mutation_place inst u =
     (case du_kind u of
        Mutate_Mod \<Rightarrow>
          (if valid_workshop (du_workshop u) \<and> valid_sha256 (du_tree u)
           then Some (mod_target inst (du_workshop u), ''mod'', case di_content inst of Some c \<Rightarrow> c | None \<Rightarrow> di_server inst) else None)
      | Mutate_Setup \<Rightarrow>
          (if valid_sha256 (du_config u) then Some (setup_path inst, ''setup'', di_server inst) else None)
      | Mutate_Manifest \<Rightarrow>
          (case di_manifest inst of
             Some p \<Rightarrow> if valid_sha256 (du_config u) then Some (p, ''workshop'', butlast p) else None
           | None \<Rightarrow> None)
      | Mutate_Overrides \<Rightarrow>
          (if safe_dir_name (du_room_dir u) \<and> safe_dir_name (du_world_dir u) \<and> valid_sha256 (du_config u)
           then Some (overrides_path inst (du_room_dir u) (du_world_dir u), ''overrides'', di_save inst) else None))"

definition mutation_suffix :: "dist_journal \<Rightarrow> mutation \<Rightarrow> string" where
  "mutation_suffix j u = dj_operation j @ ''-'' @ digits 3 (du_index u)"

definition mutation_paths :: "manager \<Rightarrow> dist_journal \<Rightarrow> mutation \<Rightarrow> dist_errs + path \<times> path \<times> path" where
  "mutation_paths mg j u =
     (if dj_operation j = [] \<or> du_index u < 0 \<or> du_index u \<ge> int (length (dj_mutations j)) \<or>
         dj_mutations j ! nat (du_index u) \<noteq> u then Inl [Dist_Integrity]
      else case map_of (mg_installations mg) (du_installation u) of
        None \<Rightarrow> Inl [Dist_Unsafe]
      | Some inst \<Rightarrow>
          (case mutation_place inst u of
             None \<Rightarrow> Inl [Dist_Integrity]
           | Some (target, word, root) \<Rightarrow>
               (let stage = butlast target @ [''.dst-admin-'' @ word @ ''-stage-'' @ mutation_suffix j u];
                    backup = butlast target @ [''.dst-admin-'' @ word @ ''-backup-'' @ mutation_suffix j u]
                in if list_all (\<lambda>p. path_within p root) [target, stage, backup] then Inr (target, stage, backup)
                   else Inl [Dist_Unsafe])))"

section \<open>Reading and writing journals\<close>

definition journal_ok :: "manager \<Rightarrow> string \<Rightarrow> dist_journal \<Rightarrow> bool" where
  "journal_ok mg oid j \<longleftrightarrow>
     \<not> (dj_version j \<noteq> 1 \<or> dj_operation j \<noteq> oid \<or> dn_operation (dj_plan j) \<noteq> oid \<or> dn_node (dj_plan j) \<noteq> mg_node mg \<or>
        dj_mutations j = [] \<or> dj_next j < 0 \<or> dj_next j > int (length (dj_mutations j)))"

fun check_mutations :: "manager \<Rightarrow> dist_journal \<Rightarrow> nat \<Rightarrow> mutation list \<Rightarrow> dist_errs + unit" where
  "check_mutations mg j i [] = Inr ()"
| "check_mutations mg j i (u # us) =
     (if du_index u \<noteq> int i then Inl [Dist_Integrity]
      else if du_had u \<noteq> valid_sha256 (du_original u) \<or> \<not> du_had u \<and> du_original u \<noteq> [] then Inl [Dist_Integrity]
      else case mutation_paths mg j u of Inl e \<Rightarrow> Inl e | Inr _ \<Rightarrow> check_mutations mg j (Suc i) us)"

definition check_journal :: "manager \<Rightarrow> string \<Rightarrow> dist_journal \<Rightarrow> dist_errs + dist_journal" where
  "check_journal mg oid j =
     (if \<not> journal_ok mg oid j then Inl [Dist_Integrity]
      else if \<not> valid_sha256 (dj_integrity j) \<or> journal_digest j \<noteq> dj_integrity j then Inl [Dist_Integrity]
      else case check_mutations mg j 0 (dj_mutations j) of Inl e \<Rightarrow> Inl e | Inr _ \<Rightarrow> Inr j)"

definition read_journal :: "manager \<Rightarrow> string \<Rightarrow> ('s dist_db_scheme, dist_journal) dist_act" where
  "read_journal mg oid =
     andthen (guard [Dist_Invalid] (valid_operation oid)) (\<lambda>_.
     andthen (external [File_Failed Input_Output]) (\<lambda>_.
     andthen (query journal_files) (\<lambda>files.
       case map_of files oid of
         None \<Rightarrow> raise [File_Failed Not_Exist]
       | Some Unreadable \<Rightarrow> raise [Dist_Other]
       | Some (Document j) \<Rightarrow> raise_left (check_journal mg oid j))))"

text \<open>\<open>writeJSONAtomic\<close>: a temporary file takes the place of the old one; the directory is synced after that, so a
  failure may leave either.\<close>

definition write_atomic :: "('s env_scheme \<Rightarrow> 's env_scheme) \<Rightarrow> ('s env_scheme, unit) dist_act" where
  "write_atomic f =
     andthen (external [File_Failed Input_Output]) (\<lambda>_. andthen (modify f) (\<lambda>_. external [File_Failed Input_Output]))"

definition sealed :: "dist_journal \<Rightarrow> dist_journal" where
  "sealed j = j\<lparr>dj_integrity := journal_digest j\<rparr>"

definition write_journal :: "dist_journal \<Rightarrow> ('s dist_db_scheme, unit) dist_act" where
  "write_journal j =
     andthen (guard [Dist_Invalid] (valid_operation (dj_operation j) \<and> dj_version j = 1)) (\<lambda>_.
     write_atomic (\<lambda>s. s\<lparr>journal_files := put (dj_operation j) (Document (sealed j)) (journal_files s)\<rparr>))"

definition remove_journal :: "string \<Rightarrow> ('s dist_db_scheme, unit) dist_act" where
  "remove_journal oid =
     andthen (external [File_Failed Input_Output]) (\<lambda>_.
     andthen (query journal_files) (\<lambda>files.
       if map_of files oid = None then raise [File_Failed Not_Exist]
       else modify (\<lambda>s. s\<lparr>journal_files := put_entry oid None (journal_files s)\<rparr>)))"

definition ensure_no_active_journal :: "string \<Rightarrow> ('s dist_db_scheme, unit) dist_act" where
  "ensure_no_active_journal oid =
     andthen (external [File_Failed Input_Output]) (\<lambda>_.
     andthen (query journal_files) (\<lambda>files.
       case List.find (\<lambda>(k, _). k \<noteq> oid) files of
         None \<Rightarrow> return_ok ()
       | Some (k, _) \<Rightarrow> raise [Dist_In_Progress k]))"

text \<open>A phase is written with a new time of change.\<close>

definition enter_phase :: "dist_phase \<Rightarrow> dist_journal \<Rightarrow> ('s dist_db_scheme, dist_journal) dist_act" where
  "enter_phase ph j =
     andthen read_now (\<lambda>now.
     (let j' = j\<lparr>dj_phase := ph, dj_updated := now\<rparr> in andthen (write_journal j') (\<lambda>_. return_ok j')))"

section \<open>States of installations\<close>

definition read_states :: "('s dist_db_scheme, (string \<times> installation_state) list) dist_act" where
  "read_states =
     andthen (external [File_Failed Input_Output]) (\<lambda>_.
     andthen (query state_file) (\<lambda>f.
       case f of
         None \<Rightarrow> raise [File_Failed Not_Exist]
       | Some Unreadable \<Rightarrow> raise [Dist_Other]
       | Some (Document states) \<Rightarrow>
           if list_ex (\<lambda>(iid, st). iid \<noteq> dt_installation st \<or> \<not> valid_identity iid \<or> \<not> valid_operation (dt_operation st)) states
           then raise [Dist_Integrity] else return_ok states))"

definition states_or_none :: "('s dist_db_scheme, (string \<times> installation_state) list) dist_act" where
  "states_or_none =
     andthen (attempt read_states) (\<lambda>r.
       case r of Inr states \<Rightarrow> return_ok states | Inl e \<Rightarrow> if is_not_exist e then return_ok [] else raise e)"

definition installation_state_of :: "manager \<Rightarrow> string \<Rightarrow> ('s dist_db_scheme, installation_state) dist_act" where
  "installation_state_of mg iid =
     andthen (guard [Dist_Invalid] (map_of (mg_installations mg) iid \<noteq> None)) (\<lambda>_.
     andthen (attempt read_states) (\<lambda>r.
       case r of
         Inl e \<Rightarrow> raise (if is_not_exist e then [Dist_Not_Found] else e)
       | Inr states \<Rightarrow>
           (case map_of states iid of
              None \<Rightarrow> raise [Dist_Not_Found]
            | Some st \<Rightarrow>
                if dt_installation st \<noteq> iid \<or> \<not> valid_operation (dt_operation st) then raise [Dist_Integrity] else return_ok st)))"

fun states_committed :: "manager \<Rightarrow> string \<Rightarrow> installation_plan list \<Rightarrow> ('s dist_db_scheme, bool) dist_act" where
  "states_committed mg oid [] = return_ok True"
| "states_committed mg oid (g # gs) =
     andthen (attempt (installation_state_of mg (dp_installation g))) (\<lambda>r.
       case r of
         Inl e \<Rightarrow> return_ok False
       | Inr st \<Rightarrow> if dt_operation st \<noteq> oid then return_ok False else states_committed mg oid gs)"

definition operation_committed :: "string \<Rightarrow> ('s dist_db_scheme, bool) dist_act" where
  "operation_committed oid =
     andthen (attempt read_states) (\<lambda>r.
       case r of
         Inl e \<Rightarrow> if is_not_exist e then return_ok False else raise e
       | Inr states \<Rightarrow> return_ok (list_ex (\<lambda>(_, st). dt_operation st = oid) states))"

definition replace_mod :: "mod_version \<Rightarrow> mod_version list \<Rightarrow> mod_version list" where
  "replace_mod m ms = map (\<lambda>x. if dv_workshop x = dv_workshop m then m else x) ms"

definition content_update :: "mod_version \<Rightarrow> installation_state \<Rightarrow> installation_state" where
  "content_update m st =
     st\<lparr>dt_mods := (if map_of (dt_mods st) (dv_workshop m) \<noteq> None then put (dv_workshop m) (dv_tree m) (dt_mods st) else dt_mods st),
       dt_shards := map (\<lambda>(k, h). (k, h\<lparr>dh_mods := replace_mod m (dh_mods h)\<rparr>)) (dt_shards st)\<rparr>"

definition content_state :: "dist_plan \<Rightarrow> installation_plan \<Rightarrow> int \<Rightarrow> (string \<times> installation_state) list \<Rightarrow> installation_state" where
  "content_state p g now states =
     (let st = (case map_of states (dp_installation g) of
                  Some st \<Rightarrow> st
                | None \<Rightarrow> \<lparr>dt_installation = dp_installation g, dt_operation = [], dt_mods = [],
                    dt_setup = hash_bytes (dp_setup g), dt_manifest = [], dt_shards = [], dt_updated = zero_time\<rparr>)
      in (fold content_update (dp_mods g) st)
           \<lparr>dt_operation := dn_operation p, dt_manifest := hash_bytes (dp_manifest g), dt_updated := now\<rparr>)"

definition shard_state_of :: "shard_release \<Rightarrow> shard_state" where
  "shard_state_of r =
     \<lparr>dh_room = ds_room r, dh_room_dir = ds_room_dir r, dh_world = ds_world r, dh_world_dir = ds_world_dir r,
      dh_mods = ds_mods r, dh_config = hash_bytes (ds_overrides r)\<rparr>"

definition release_state :: "dist_plan \<Rightarrow> installation_plan \<Rightarrow> int \<Rightarrow> installation_state" where
  "release_state p g now =
     \<lparr>dt_installation = dp_installation g, dt_operation = dn_operation p,
      dt_mods = fold (\<lambda>m. put (dv_workshop m) (dv_tree m)) (dp_mods g) [],
      dt_setup = hash_bytes (dp_setup g), dt_manifest = hash_bytes (dp_manifest g),
      dt_shards = fold (\<lambda>r. put (ds_room r @ ''/'' @ ds_world r) (shard_state_of r)) (dp_shards g) [], dt_updated = now\<rparr>"

fun new_states ::
  "dist_plan \<Rightarrow> installation_plan list \<Rightarrow> (string \<times> installation_state) list \<Rightarrow>
   ('s dist_db_scheme, (string \<times> installation_state) list) dist_act" where
  "new_states p [] states = return_ok states"
| "new_states p (g # gs) states =
     andthen ctx_ok (\<lambda>_.
     andthen read_now (\<lambda>now.
     new_states p gs
       (put (dp_installation g)
         (if dn_mode p = Content_Mode then content_state p g now states else release_state p g now) states)))"

definition write_installation_states :: "dist_plan \<Rightarrow> ('s dist_db_scheme, unit) dist_act" where
  "write_installation_states p =
     andthen states_or_none (\<lambda>states.
     andthen (new_states p (dn_installations p) states) (\<lambda>states'.
     write_atomic (\<lambda>s. s\<lparr>state_file := Some (Document states')\<rparr>)))"

end
