(* ===== verification/Dist_Operations.thy ===== *)
theory Dist_Operations
  imports Dist_Publisher
begin

text \<open>The operations of the publisher (\<open>publisher.go\<close>, \<open>journal.go\<close>), over the paths, journals and states of
  \<open>Dist_Publisher\<close>.\<close>

section \<open>Which files change\<close>

definition new_mutation :: "mutation_kind \<Rightarrow> string \<Rightarrow> string \<Rightarrow> string \<Rightarrow> bool \<Rightarrow> mutation" where
  "new_mutation kind iid config original had =
     \<lparr>du_index = 0, du_kind = kind, du_installation = iid, du_workshop = [], du_tree = [], du_room_dir = [], du_world_dir = [],
      du_config = config, du_original = original, du_had = had\<rparr>"

primrec mod_mutations ::
  "trusted_installation \<Rightarrow> string \<Rightarrow> (string \<times> string) list \<Rightarrow> mod_version list \<Rightarrow> ('s dist_db_scheme, mutation list) dist_act" where
  "mod_mutations inst iid known [] = return_ok []"
| "mod_mutations inst iid known (m # ms) =
     (let target = mod_target inst (dv_workshop m)
      in andthen (inspect_target target True) (\<lambda>had.
           if had \<and> map_of known (dv_workshop m) = Some (dv_tree m) then mod_mutations inst iid known ms
           else
             andthen (target_digest target True had) (\<lambda>original.
             andthen (mod_mutations inst iid known ms) (\<lambda>us.
             return_ok
               (if original = dv_tree m then us
                else (new_mutation Mutate_Mod iid [] original had)\<lparr>du_workshop := dv_workshop m, du_tree := dv_tree m\<rparr> # us)))))"

text \<open>A file the program manages as a whole: it must still be what the plan was made from.\<close>

definition managed_mutation ::
  "path \<Rightarrow> mutation_kind \<Rightarrow> string \<Rightarrow> string \<Rightarrow> string \<Rightarrow> ('s files_scheme, mutation list) dist_act" where
  "managed_mutation p kind iid content base =
     andthen (inspect_target p False) (\<lambda>had.
     andthen (target_digest p False had) (\<lambda>original.
     andthen (guard [Dist_Conflict] (original = base)) (\<lambda>_.
     return_ok (if original \<noteq> hash_bytes content then [new_mutation kind iid (hash_bytes content) original had] else []))))"

primrec shard_mutations :: "trusted_installation \<Rightarrow> string \<Rightarrow> shard_release list \<Rightarrow> ('s dist_db_scheme, mutation list) dist_act" where
  "shard_mutations inst iid [] = return_ok []"
| "shard_mutations inst iid (r # rs) =
     (let p = overrides_path inst (ds_room_dir r) (ds_world_dir r)
      in andthen (inspect_target p False) (\<lambda>had.
         andthen (target_digest p False had) (\<lambda>original.
         andthen (shard_mutations inst iid rs) (\<lambda>us.
         return_ok
           (if original = hash_bytes (ds_overrides r) then us
            else (new_mutation Mutate_Overrides iid (hash_bytes (ds_overrides r)) original had)
                   \<lparr>du_room_dir := ds_room_dir r, du_world_dir := ds_world_dir r\<rparr> # us)))))"

definition installation_mutations ::
  "manager \<Rightarrow> plan_mode \<Rightarrow> (string \<times> installation_state) list \<Rightarrow> installation_plan \<Rightarrow> ('s dist_db_scheme, mutation list) dist_act" where
  "installation_mutations mg mode states g =
     (let iid = dp_installation g; inst = the (map_of (mg_installations mg) iid);
          known = (case map_of states iid of None \<Rightarrow> [] | Some st \<Rightarrow> dt_mods st)
      in andthen (mod_mutations inst iid known (dp_mods g)) (\<lambda>mods.
         andthen
           (case di_manifest inst of
              None \<Rightarrow> return_ok []
            | Some p \<Rightarrow> managed_mutation p Mutate_Manifest iid (dp_manifest g) (dp_manifest_base g)) (\<lambda>manifest.
         if mode = Content_Mode then return_ok (mods @ manifest)
         else
           andthen (managed_mutation (setup_path inst) Mutate_Setup iid (dp_setup g) (dp_setup_base g)) (\<lambda>setup.
           andthen (shard_mutations inst iid (dp_shards g)) (\<lambda>shards.
           return_ok (mods @ manifest @ setup @ shards))))))"

primrec all_mutations ::
  "manager \<Rightarrow> plan_mode \<Rightarrow> (string \<times> installation_state) list \<Rightarrow> installation_plan list \<Rightarrow> ('s dist_db_scheme, mutation list) dist_act" where
  "all_mutations mg mode states [] = return_ok []"
| "all_mutations mg mode states (g # gs) =
     andthen (installation_mutations mg mode states g) (\<lambda>us.
     andthen (all_mutations mg mode states gs) (\<lambda>vs. return_ok (us @ vs)))"

definition number_mutations :: "mutation list \<Rightarrow> mutation list" where
  "number_mutations us = map (\<lambda>(i, u). u\<lparr>du_index := int i\<rparr>) (enumerate 0 us)"

definition build_mutations :: "manager \<Rightarrow> dist_plan \<Rightarrow> ('s dist_db_scheme, mutation list) dist_act" where
  "build_mutations mg p =
     andthen states_or_none (\<lambda>states.
     andthen (all_mutations mg (dn_mode p) states (dn_installations p)) (\<lambda>us. return_ok (number_mutations us)))"

section \<open>Staging\<close>

primrec mutation_content :: "installation_plan list \<Rightarrow> mutation \<Rightarrow> string option" where
  "mutation_content [] u = None"
| "mutation_content (g # gs) u =
     (if dp_installation g \<noteq> du_installation u then mutation_content gs u
      else case du_kind u of
        Mutate_Setup \<Rightarrow> Some (dp_setup g)
      | Mutate_Manifest \<Rightarrow> Some (dp_manifest g)
      | _ \<Rightarrow>
          (case List.find (\<lambda>r. ds_room_dir r = du_room_dir u \<and> ds_world_dir r = du_world_dir u) (dp_shards g) of
             Some r \<Rightarrow> Some (ds_overrides r)
           | None \<Rightarrow> mutation_content gs u))"

definition must_be_absent :: "path \<Rightarrow> ('s files_scheme, unit) dist_act" where
  "must_be_absent p = andthen (sys (lstat p)) (\<lambda>x. guard [Dist_Conflict] (x = None))"

definition stage_mod :: "manager \<Rightarrow> mutation \<Rightarrow> path \<Rightarrow> ('s dist_db_scheme, unit) dist_act" where
  "stage_mod mg u stage =
     andthen (verify_cached (du_workshop u) (du_tree u)) (\<lambda>m.
     andthen (ensure_disk_space (df_size m) (mg_reserve mg)) (\<lambda>_.
     andthen (query (cached (du_workshop u) (du_tree u))) (\<lambda>v.
       case cv_content v of
         None \<Rightarrow> raise [File_Failed Not_Exist]
       | Some src \<Rightarrow> andthen (copy_manifest_tree src stage m) (\<lambda>_. make_owner_writable stage))))"

definition stage_file :: "manager \<Rightarrow> dist_journal \<Rightarrow> mutation \<Rightarrow> path \<Rightarrow> ('s dist_db_scheme, unit) dist_act" where
  "stage_file mg j u stage =
     (case mutation_content (dn_installations (dj_plan j)) u of
        None \<Rightarrow> raise [Dist_Integrity]
      | Some content \<Rightarrow>
          andthen (guard [Dist_Integrity] (hash_bytes content = du_config u)) (\<lambda>_.
          andthen (ensure_disk_space (int (length content)) (mg_reserve mg)) (\<lambda>_.
          andthen (sys (create_new stage 416)) (\<lambda>_.
          andthen (sys (write_out stage content)) (\<lambda>_. sys (sync_directory (butlast stage)))))))"

definition stage_mutation :: "manager \<Rightarrow> dist_journal \<Rightarrow> mutation \<Rightarrow> ('s dist_db_scheme, unit) dist_act" where
  "stage_mutation mg j u =
     andthen (raise_left (mutation_paths mg j u)) (\<lambda>(target, stage, backup).
     andthen (must_be_absent stage) (\<lambda>_.
     andthen (must_be_absent backup) (\<lambda>_.
     andthen (sys (mkdir_all (butlast target) 488)) (\<lambda>_.
     andthen (reject_links (butlast target)) (\<lambda>_.
     if is_mod u then stage_mod mg u stage else stage_file mg j u stage)))))"

section \<open>Swapping\<close>

text \<open>The original moves to the backup, unless it is there already; the result is whether the target exists then.\<close>

definition set_aside :: "mutation \<Rightarrow> path \<Rightarrow> path \<Rightarrow> bool \<Rightarrow> bool \<Rightarrow> ('s dist_db_scheme, bool) dist_act" where
  "set_aside u target backup backed_up there =
     (if du_had u \<and> \<not> backed_up then
        andthen (guard [Dist_Conflict] there) (\<lambda>_.
        andthen (background (target_digest target (is_mod u) True)) (\<lambda>current.
        andthen (guard [Dist_Conflict] (current = du_original u)) (\<lambda>_.
        andthen (rename_target target backup (is_mod u)) (\<lambda>_. return_ok False))))
      else return_ok there)"

definition install :: "mutation \<Rightarrow> path \<Rightarrow> path \<Rightarrow> bool \<Rightarrow> ('s dist_db_scheme, unit) dist_act" where
  "install u target stage there =
     andthen (guard [Dist_Conflict] (\<not> there)) (\<lambda>_.
     andthen (rename_target stage target (is_mod u)) (\<lambda>_.
     sys (sync_directory (butlast target))))"

definition publish_mutation :: "manager \<Rightarrow> dist_journal \<Rightarrow> mutation \<Rightarrow> ('s dist_db_scheme, unit) dist_act" where
  "publish_mutation mg j u =
     andthen (raise_left (mutation_paths mg j u)) (\<lambda>(target, stage, backup).
     andthen (inspect_target stage (is_mod u)) (\<lambda>staged.
     andthen (inspect_target backup (is_mod u)) (\<lambda>backed_up.
     andthen (inspect_target target (is_mod u)) (\<lambda>there.
       if \<not> staged then
         (if there \<and> (backed_up \<or> \<not> du_had u) then return_ok () else raise [Dist_Conflict])
       else andthen (set_aside u target backup backed_up there) (install u target stage)))))"

definition ensure_target_unchanged :: "path \<Rightarrow> mutation \<Rightarrow> ('s files_scheme, unit) dist_act" where
  "ensure_target_unchanged target u =
     andthen (inspect_target target (is_mod u)) (\<lambda>there.
       if \<not> there then return_ok ()
       else
         andthen (target_digest target (is_mod u) True) (\<lambda>current.
         guard [Dist_Conflict] (current = (if is_mod u then du_tree u else du_config u))))"

text \<open>\<open>errors.Join\<close> of the errors so far, if any, with the outcome of a call.\<close>

definition join_error :: "dist_errs option \<Rightarrow> dist_errs + 'a \<Rightarrow> dist_errs option" where
  "join_error failed r =
     (case r of Inr _ \<Rightarrow> failed | Inl e \<Rightarrow> Some (case failed of None \<Rightarrow> e | Some f \<Rightarrow> f @ e))"

definition end_with :: "dist_errs option \<Rightarrow> ('s, unit) dist_act" where
  "end_with failed = (case failed of None \<Rightarrow> return_ok () | Some e \<Rightarrow> raise e)"

text \<open>Two calls of which the second runs whatever the first returned.\<close>

definition joined :: "('s, unit) dist_act \<Rightarrow> ('s, unit) dist_act \<Rightarrow> ('s, unit) dist_act" where
  "joined m n =
     andthen (attempt m) (\<lambda>r. andthen (attempt n) (\<lambda>q. end_with (join_error (join_error None r) q)))"

definition rollback_mutation :: "manager \<Rightarrow> dist_journal \<Rightarrow> mutation \<Rightarrow> ('s dist_db_scheme, unit) dist_act" where
  "rollback_mutation mg j u =
     andthen (raise_left (mutation_paths mg j u)) (\<lambda>(target, stage, backup).
     andthen (inspect_target backup (is_mod u)) (\<lambda>backed_up.
     andthen (inspect_target stage (is_mod u)) (\<lambda>staged.
       if backed_up then
         andthen (ensure_target_unchanged target u) (\<lambda>_.
         andthen (remove_target target (is_mod u)) (\<lambda>_.
         andthen (rename_target backup target (is_mod u)) (\<lambda>_.
         remove_target stage (is_mod u))))
       else if \<not> du_had u \<and> \<not> staged then
         andthen (ensure_target_unchanged target u) (\<lambda>_.
         joined (remove_target target (is_mod u)) (remove_target stage (is_mod u)))
       else remove_target stage (is_mod u))))"

text \<open>The loop goes on after an error, with the errors so far.\<close>

primrec rollback_each ::
  "manager \<Rightarrow> dist_journal \<Rightarrow> mutation list \<Rightarrow> dist_errs option \<Rightarrow> ('s dist_db_scheme, unit) dist_act" where
  "rollback_each mg j [] failed = end_with failed"
| "rollback_each mg j (u # us) failed =
     andthen (attempt ctx_ok) (\<lambda>c.
       case c of
         Inl e \<Rightarrow> end_with (join_error failed c)
       | Inr _ \<Rightarrow>
           andthen (attempt (rollback_mutation mg j u)) (\<lambda>r. rollback_each mg j us (join_error failed r)))"

primrec cleanup_each ::
  "manager \<Rightarrow> dist_journal \<Rightarrow> mutation list \<Rightarrow> dist_errs option \<Rightarrow> ('s dist_db_scheme, unit) dist_act" where
  "cleanup_each mg j [] failed = end_with failed"
| "cleanup_each mg j (u # us) failed =
     andthen (attempt
       (andthen (raise_left (mutation_paths mg j u)) (\<lambda>(target, stage, backup).
        joined (remove_target stage (is_mod u)) (remove_target backup (is_mod u))))) (\<lambda>r.
     cleanup_each mg j us (join_error failed r))"

definition cleanup_artifacts :: "manager \<Rightarrow> dist_journal \<Rightarrow> ('s dist_db_scheme, unit) dist_act" where
  "cleanup_artifacts mg j = cleanup_each mg j (dj_mutations j) None"

definition rollback_journal :: "manager \<Rightarrow> dist_journal \<Rightarrow> ('s dist_db_scheme, unit) dist_act" where
  "rollback_journal mg j0 =
     andthen (enter_phase Phase_Rolling_Back j0) (\<lambda>j.
     andthen (rollback_each mg j (rev (dj_mutations j)) None) (\<lambda>_.
     andthen (cleanup_artifacts mg j) (\<lambda>_.
     remove_journal (dj_operation j))))"

section \<open>Local links\<close>

definition max_observed :: nat where "max_observed = 4096"

definition observe_usable :: "path \<Rightarrow> ('s dist_db_scheme, unit) dist_act" where
  "observe_usable p =
     andthen (query (\<lambda>s. usable s (step s) p)) (\<lambda>ok. andthen (external [Dist_Other]) (\<lambda>_. guard [Dist_Other] ok))"

definition local_mod_entry :: "path \<Rightarrow> path \<Rightarrow> ('s dist_db_scheme, bool) dist_act" where
  "local_mod_entry p source =
     andthen (sys (lstat p)) (\<lambda>x.
       case x of
         None \<Rightarrow> return_ok False
       | Some (Folder m es) \<Rightarrow> andthen (observe_usable p) (\<lambda>_. return_ok True)
       | Some (Link dest) \<Rightarrow>
           andthen (guard [Dist_Unsafe] (dest = source)) (\<lambda>_. andthen (observe_usable source) (\<lambda>_. return_ok True))
       | Some _ \<Rightarrow> raise [Dist_Unsafe])"

definition symlink :: "path \<Rightarrow> path \<Rightarrow> ('s, unit) file_act" where
  "symlink source p =
     andthen (lstat p) (\<lambda>x.
     andthen (query tree) (\<lambda>n.
       if x \<noteq> None then raise Exists
       else if \<not> folder_at n (butlast p) then raise Not_Exist
       else set_at p (\<lambda>_. Some (Link source))))"

primrec check_links :: "path \<Rightarrow> path \<Rightarrow> string list \<Rightarrow> ('s dist_db_scheme, unit) dist_act" where
  "check_links mods content [] = return_ok ()"
| "check_links mods content (w # ws) =
     andthen (guard [Dist_Invalid] (valid_workshop w)) (\<lambda>_.
     andthen ctx_ok (\<lambda>_.
     andthen (local_mod_entry (mods @ [''workshop-'' @ w]) (content @ [w])) (\<lambda>there.
     andthen (if there then return_ok () else observe_usable (content @ [w])) (\<lambda>_. check_links mods content ws))))"

primrec make_links :: "path \<Rightarrow> path \<Rightarrow> string list \<Rightarrow> ('s dist_db_scheme, unit) dist_act" where
  "make_links mods content [] = return_ok ()"
| "make_links mods content (w # ws) =
     (let target = mods @ [''workshop-'' @ w]; source = content @ [w]
      in andthen ctx_ok (\<lambda>_.
         andthen (local_mod_entry target source) (\<lambda>there.
         andthen
           (if there then return_ok ()
            else
              andthen (attempt (symlink source target)) (\<lambda>r.
                case r of
                  Inr _ \<Rightarrow> return_ok ()
                | Inl e \<Rightarrow>
                    andthen (attempt (local_mod_entry target source)) (\<lambda>q.
                      if e = Exists \<and> q = Inr True then return_ok ()
                      else raise (File_Failed e # (case q of Inl e' \<Rightarrow> e' | Inr _ \<Rightarrow> []))))) (\<lambda>_.
         make_links mods content ws))))"

definition link_workshop_mods :: "path \<Rightarrow> path \<Rightarrow> string list \<Rightarrow> ('s dist_db_scheme, unit) dist_act" where
  "link_workshop_mods server content ws =
     andthen (guard [Dist_Invalid] (length ws \<le> max_observed)) (\<lambda>_.
       if ws = [] then ctx_ok
       else
         (let mods = server @ [''mods'']
          in andthen (reject_links mods) (\<lambda>_.
             andthen (reject_links content) (\<lambda>_.
             andthen (check_links mods content ws) (\<lambda>_.
             andthen (sys (mkdir_all mods 488)) (\<lambda>_. make_links mods content ws))))))"

definition link_local_mods :: "manager \<Rightarrow> string \<Rightarrow> string list \<Rightarrow> ('s dist_db_scheme, unit) dist_act" where
  "link_local_mods mg iid ws =
     (case map_of (mg_installations mg) iid of
        None \<Rightarrow> raise [Dist_Invalid]
      | Some inst \<Rightarrow> (case di_content inst of None \<Rightarrow> return_ok () | Some content \<Rightarrow> link_workshop_mods (di_server inst) content ws))"

primrec link_installations :: "manager \<Rightarrow> installation_plan list \<Rightarrow> ('s dist_db_scheme, unit) dist_act" where
  "link_installations mg [] = return_ok ()"
| "link_installations mg (g # gs) =
     andthen (link_local_mods mg (dp_installation g) (map dv_workshop (dp_mods g))) (\<lambda>_. link_installations mg gs)"

section \<open>Checking what was published\<close>

definition verify_target :: "mutation \<Rightarrow> path \<Rightarrow> ('s dist_db_scheme, unit) dist_act" where
  "verify_target u target =
     (if is_mod u then
        andthen (verify_cached (du_workshop u) (du_tree u)) (\<lambda>m.
        andthen (attempt (scan_tree target)) (\<lambda>r.
          case r of
            Inl e \<Rightarrow> raise (Dist_Integrity # e)
          | Inr (es, sz) \<Rightarrow>
              guard [Dist_Integrity] (\<not> (sz \<noteq> df_size m \<or> hash_entries es \<noteq> df_tree m \<or> es \<noteq> df_entries m))))
      else
        andthen (attempt (sys (read_file target))) (\<lambda>r.
          case r of
            Inl e \<Rightarrow> raise (Dist_Integrity # e)
          | Inr c \<Rightarrow> guard [Dist_Integrity] (hash_bytes c = du_config u)))"

primrec verify_published :: "manager \<Rightarrow> dist_journal \<Rightarrow> mutation list \<Rightarrow> ('s dist_db_scheme, unit) dist_act" where
  "verify_published mg j [] = return_ok ()"
| "verify_published mg j (u # us) =
     andthen ctx_ok (\<lambda>_.
     andthen (raise_left (mutation_paths mg j u)) (\<lambda>(target, _, _).
     andthen (verify_target u target) (\<lambda>_. verify_published mg j us)))"

section \<open>The operations\<close>

primrec stage_each :: "manager \<Rightarrow> dist_journal \<Rightarrow> mutation list \<Rightarrow> ('s dist_db_scheme, unit) dist_act" where
  "stage_each mg j [] = return_ok ()"
| "stage_each mg j (u # us) =
     andthen ctx_ok (\<lambda>_. andthen (stage_mutation mg j u) (\<lambda>_. stage_each mg j us))"

text \<open>A failure after the journal was written is followed by a rollback of it, whose error is dropped.\<close>

definition or_rollback :: "manager \<Rightarrow> dist_journal \<Rightarrow> ('s dist_db_scheme, 'a) dist_act \<Rightarrow> ('s dist_db_scheme, 'a) dist_act" where
  "or_rollback mg j m =
     andthen (attempt m) (\<lambda>r.
       case r of
         Inr a \<Rightarrow> return_ok a
       | Inl e \<Rightarrow> andthen (attempt (background (rollback_journal mg j))) (\<lambda>_. raise e))"

definition new_journal :: "dist_plan \<Rightarrow> mutation list \<Rightarrow> int \<Rightarrow> dist_journal" where
  "new_journal canonical us now =
     \<lparr>dj_version = 1, dj_operation = dn_operation canonical, dj_phase = Phase_Preparing, dj_next = 0,
      dj_plan = canonical, dj_mutations = us, dj_created = now, dj_updated = now, dj_integrity = []\<rparr>"

definition stage_journal :: "manager \<Rightarrow> dist_journal \<Rightarrow> ('s dist_db_scheme, dist_journal) dist_act" where
  "stage_journal mg j =
     andthen (write_journal j) (\<lambda>_.
     andthen (or_rollback mg j (stage_each mg j (dj_mutations j))) (\<lambda>_.
     andthen read_now (\<lambda>now.
     (let j' = j\<lparr>dj_phase := Phase_Prepared, dj_updated := now\<rparr>
      in or_rollback mg j' (andthen (write_journal j') (\<lambda>_. return_ok j'))))))"

definition prepare_new :: "manager \<Rightarrow> dist_plan \<Rightarrow> ('s dist_db_scheme, dist_journal) dist_act" where
  "prepare_new mg canonical =
     andthen (build_mutations mg canonical) (\<lambda>us.
     andthen read_now (\<lambda>now. stage_journal mg (new_journal canonical us now)))"

definition prepare :: "manager \<Rightarrow> dist_plan \<Rightarrow> ('s dist_db_scheme, dist_journal) dist_act" where
  "prepare mg p =
     andthen (ensure_no_active_journal (dn_operation p)) (\<lambda>_.
     andthen (rebuild_plan mg p) (\<lambda>canonical.
     andthen (attempt (read_journal mg (dn_operation p))) (\<lambda>r.
       case r of
         Inr old \<Rightarrow>
           if dj_phase old = Phase_Prepared \<or> dj_phase old = Phase_Published then return_ok old else raise [Dist_Conflict]
       | Inl e \<Rightarrow> if \<not> is_not_exist e then raise e else prepare_new mg canonical)))"

primrec publish_each :: "manager \<Rightarrow> dist_journal \<Rightarrow> mutation list \<Rightarrow> ('s dist_db_scheme, dist_journal) dist_act" where
  "publish_each mg j [] = return_ok j"
| "publish_each mg j (u # us) =
     andthen ctx_ok (\<lambda>_.
     andthen (publish_mutation mg j u) (\<lambda>_.
     andthen read_now (\<lambda>now.
     (let j' = j\<lparr>dj_next := dj_next j + 1, dj_updated := now\<rparr>
      in andthen (write_journal j') (\<lambda>_. publish_each mg j' us)))))"

definition publish_operation :: "manager \<Rightarrow> string \<Rightarrow> ('s dist_db_scheme, dist_journal) dist_act" where
  "publish_operation mg oid =
     andthen (read_journal mg oid) (\<lambda>j0.
       if dj_phase j0 = Phase_Published then return_ok j0
       else
         andthen (guard [Dist_Conflict] (dj_phase j0 = Phase_Prepared \<or> dj_phase j0 = Phase_Publishing)) (\<lambda>_.
         andthen (enter_phase Phase_Publishing j0) (\<lambda>j.
         andthen (publish_each mg j (drop (nat (dj_next j)) (dj_mutations j))) (\<lambda>j'.
         enter_phase Phase_Published j'))))"

definition complete :: "manager \<Rightarrow> string \<Rightarrow> ('s dist_db_scheme, unit) dist_act" where
  "complete mg oid =
     andthen (attempt (read_journal mg oid)) (\<lambda>r.
       case r of
         Inl e \<Rightarrow>
           if is_not_exist e
           then andthen (operation_committed oid) (\<lambda>known. if known then return_ok () else raise e)
           else raise e
       | Inr j0 \<Rightarrow>
           andthen (guard [Dist_Conflict] (dj_phase j0 = Phase_Published \<or> dj_phase j0 = Phase_Completing \<or> dj_phase j0 = Phase_Committed)) (\<lambda>_.
           andthen
             (if dj_phase j0 = Phase_Committed then return_ok j0
              else
                andthen (enter_phase Phase_Completing j0) (\<lambda>j.
                andthen (verify_published mg j (dj_mutations j)) (\<lambda>_.
                andthen (link_installations mg (dn_installations (dj_plan j))) (\<lambda>_.
                andthen (write_installation_states (dj_plan j)) (\<lambda>_.
                enter_phase Phase_Committed j))))) (\<lambda>j.
           andthen (cleanup_artifacts mg j) (\<lambda>_. remove_journal oid))))"

definition rollback :: "manager \<Rightarrow> string \<Rightarrow> ('s dist_db_scheme, unit) dist_act" where
  "rollback mg oid =
     andthen (attempt (read_journal mg oid)) (\<lambda>r.
       case r of
         Inl e \<Rightarrow> if is_not_exist e then return_ok () else raise e
       | Inr j \<Rightarrow> rollback_journal mg j)"

definition apply_plan :: "manager \<Rightarrow> dist_plan \<Rightarrow> ('s dist_db_scheme, unit) dist_act" where
  "apply_plan mg p =
     andthen (prepare mg p) (\<lambda>_.
     andthen (attempt (publish_operation mg (dn_operation p))) (\<lambda>r.
       case r of
         Inl e \<Rightarrow> andthen (attempt (background (rollback mg (dn_operation p)))) (\<lambda>_. raise e)
       | Inr _ \<Rightarrow> complete mg (dn_operation p)))"

section \<open>Recovery\<close>

definition recover_journal :: "manager \<Rightarrow> string \<Rightarrow> ('s dist_db_scheme, recovery_result) dist_act" where
  "recover_journal mg oid =
     andthen (attempt (read_journal mg oid)) (\<lambda>r.
       case r of
         Inl e \<Rightarrow> return_ok \<lparr>dr_operation = oid, dr_action = Recovery_Blocked, dr_error = e\<rparr>
       | Inr j \<Rightarrow>
           andthen (if dj_phase j = Phase_Committed then return_ok True
                    else if dj_phase j = Phase_Completing then states_committed mg (dn_operation (dj_plan j)) (dn_installations (dj_plan j))
                    else return_ok False) (\<lambda>committed.
           andthen (attempt
             (if committed then andthen (cleanup_artifacts mg j) (\<lambda>_. remove_journal oid) else rollback_journal mg j)) (\<lambda>q.
           return_ok
             (case q of
                Inl e \<Rightarrow> \<lparr>dr_operation = oid, dr_action = Recovery_Blocked, dr_error = e\<rparr>
              | Inr _ \<Rightarrow> \<lparr>dr_operation = oid, dr_action = (if committed then Recovered_Completed else Recovered_Rolled_Back), dr_error = []\<rparr>))))"

definition note_result :: "recovery_result \<Rightarrow> (string \<times> dist_errs) list \<Rightarrow> (string \<times> dist_errs) list" where
  "note_result r known =
     (if dr_action r = Recovery_Blocked \<and> dr_error r \<noteq> [] then put (dr_operation r) (dr_error r) known
      else put_entry (dr_operation r) None known)"

text \<open>The results, the errors joined so far, and whether a cancelled context ended the loop.\<close>

primrec recover_journals ::
  "manager \<Rightarrow> string list \<Rightarrow> recovery_result list \<Rightarrow> dist_errs \<Rightarrow> ('s dist_db_scheme, recovery_result list \<times> dist_errs) dist_act" where
  "recover_journals mg [] results failed = return_ok (sort_key dr_operation results, failed)"
| "recover_journals mg (oid # oids) results failed =
     andthen (attempt ctx_ok) (\<lambda>c.
       case c of
         Inl e \<Rightarrow> return_ok (results, failed @ e)
       | Inr _ \<Rightarrow> andthen (recover_journal mg oid) (\<lambda>r. recover_journals mg oids (results @ [r]) (failed @ dr_error r)))"

definition recover :: "manager \<Rightarrow> ('s dist_db_scheme, recovery_result list \<times> dist_errs) dist_act" where
  "recover mg =
     andthen (external [File_Failed Input_Output]) (\<lambda>_.
     andthen (query (\<lambda>s. map fst (journal_files s))) (\<lambda>oids.
     andthen (recover_journals mg oids [] []) (\<lambda>(results, failed).
     andthen (modify (\<lambda>s. s\<lparr>issues := fold note_result results (issues s)\<rparr>)) (\<lambda>_.
     return_ok (results, failed)))))"

end
