(* ===== verification/Dist_Frame.thy ===== *)
theory Dist_Frame
  imports Dist_Operations
begin

text \<open>
  What the publisher's calls leave alone: each of them keeps every relation on states that its own paths keep. So
  one case per call, proved once, serves what is shown of other mutations' files, of journals, and of reading.
\<close>

lemma raise_left_eq [simp]: "raise_left r s = (q, s') \<longleftrightarrow> q = r \<and> s' = s"
  by (auto simp: raise_left_def)

lemma sys_eq_Inr [simp]: "sys m s = (Inr a, s') \<longleftrightarrow> m s = (Inr a, s')"
  by (simp add: sys_def)

lemma sys_eq_Inl [simp]: "sys m s = (Inl e, s') \<longleftrightarrow> (\<exists>e0. m s = (Inl e0, s') \<and> e = [File_Failed e0])"
  by (simp add: sys_def)

locale dist_relation = file_relation R may mk
  for R :: "'s dist_db_scheme \<Rightarrow> 's dist_db_scheme \<Rightarrow> bool" and may mk
begin

section \<open>Calls that only read\<close>

lemma from_sys [moves_intros]: "moves R m \<Longrightarrow> moves R (sys m)"
  unfolding sys_def by (rule moves_map_error)

lemma small [moves_intros]: "moves R (raise_left r)" "moves R ctx_ok" "moves R (Pair r)"
  by (simp_all add: moves_def refl_R raise_left_def ctx_ok_def ctx_err_def steps)

lemma reject [moves_intros]: "moves R (reject_links p)"
proof -
  have "moves R (reject_each ps)" for ps
    by (induction ps) (auto intro!: moves_intros)
  then show ?thesis unfolding reject_links_def .
qed

lemma reading [moves_intros]:
  "moves R (trusted_directory p)" "moves R (scan_tree p)" "moves R (hash_file p)" "moves R (inspect_target p d)"
  "moves R (target_digest p d b)" "moves R (read_optional p)" "moves R (must_be_absent p)"
proof -
  show trusted: "moves R (trusted_directory p)" unfolding trusted_directory_def by (intro moves_intros)
  show scan: "moves R (scan_tree p)" unfolding scan_tree_def by (intro moves_intros trusted)
  show hash: "moves R (hash_file p)" unfolding hash_file_def by (intro moves_intros)
  show "moves R (inspect_target p d)" unfolding inspect_target_def accept_node_def by (intro moves_intros)
  show "moves R (target_digest p d b)" unfolding target_digest_def by (intro moves_intros scan hash)
  show "moves R (read_optional p)" unfolding read_optional_def by (intro moves_intros)
  show "moves R (must_be_absent p)" unfolding must_be_absent_def by (intro moves_intros)
qed

lemma cached_reading [moves_intros]:
  "moves R (read_manifest w h)" "moves R (verify_manifest m)" "moves R (verify_cached w h)" "moves R (ensure_disk_space n k)"
proof -
  have document: "moves R (case d of None \<Rightarrow> a | Some Unreadable \<Rightarrow> b | Some (Document x) \<Rightarrow> f x)"
    if "moves R a" "moves R b" "\<And>x. moves R (f x)"
    for d :: "'d document option" and a b :: "('s dist_db_scheme, 'a) dist_act" and f
    using that by (auto split: option.split document.split)
  show manifest: "moves R (read_manifest w h)" for w h unfolding read_manifest_def by (intro moves_intros document)
  have "moves R (scan_content w h)" for w h unfolding scan_content_def by (intro moves_intros)
  then show verify: "moves R (verify_manifest m)" for m unfolding verify_manifest_def by (intro moves_intros)
  show "moves R (verify_cached w h)" unfolding verify_cached_def by (intro moves_intros manifest verify)
  show "moves R (ensure_disk_space n k)" unfolding ensure_disk_space_def by (intro moves_intros)
qed

lemma document_cases [moves_intros]:
  "moves R a \<Longrightarrow> moves R b \<Longrightarrow> (\<And>x. moves R (f x)) \<Longrightarrow>
   moves R (case d of None \<Rightarrow> a | Some Unreadable \<Rightarrow> b | Some (Document x) \<Rightarrow> f x)"
  by (auto split: option.split document.split)

lemma planning [moves_intros]: "moves R (rebuild_plan mg p)"
proof -
  have mods: "moves R (shard_mods ms seen acc)" for ms seen acc
    by (induction ms arbitrary: seen acc) (auto simp: Let_def intro!: moves_intros)
  have overrides: "moves R (shard_overrides inst raw)" for inst raw
    unfolding shard_overrides_def by (intro moves_intros)
  have collect: "moves R (collect_shards mg rs groups dests n)" for rs groups dests n
    by (induction rs arbitrary: groups dests n) (auto simp: Let_def intro!: moves_intros mods overrides split: option.split)
  have manifest: "moves R (with_manifest inst g)" for inst g
    unfolding with_manifest_def by (intro moves_intros)
  have "moves R (finish_group mg g)" for g
    unfolding finish_group_def by (intro moves_intros manifest)
  then have finish: "moves R (finish_groups mg gs)" for gs
    by (induction gs) (auto intro!: moves_intros)
  have plan: "moves R (build_plan mg inp)" for inp
    unfolding build_plan_def by (intro moves_intros collect finish)
  have content: "moves R (content_mods ms acc)" for ms acc
    by (induction ms arbitrary: acc) (auto simp: Let_def intro!: moves_intros)
  have content_plan: "moves R (build_content_plan mg inp)" for inp
    unfolding build_content_plan_def by (intro moves_intros content manifest)
  have "moves R (keep_created t p)" for t p
    unfolding keep_created_def by (intro moves_intros)
  then show ?thesis unfolding rebuild_plan_def by (intro moves_intros plan content_plan)
qed

lemma books_reading [moves_intros]:
  "moves R (read_journal mg oid)" "moves R read_states" "moves R (operation_committed oid)"
  "moves R (states_committed mg oid gs)" "moves R (ensure_no_active_journal oid)"
proof -
  show "moves R (read_journal mg oid)" unfolding read_journal_def by (intro moves_intros)
  show states: "moves R read_states" unfolding read_states_def by (intro moves_intros)
  then show "moves R (operation_committed oid)" unfolding operation_committed_def by (intro moves_intros)
  have "moves R (installation_state_of mg iid)" for iid
    unfolding installation_state_of_def by (intro moves_intros states)
  then show "moves R (states_committed mg oid gs)"
    by (induction gs) (auto intro!: moves_intros)
  show "moves R (ensure_no_active_journal oid)" unfolding ensure_no_active_journal_def by (intro moves_intros)
qed

lemma mutations_reading [moves_intros]:
  "moves R (mod_mutations inst iid known ms)" "moves R (managed_mutation q kind iid content base)"
  "moves R (shard_mutations inst iid rs)" "moves R (installation_mutations mg mode states g)"
  "moves R (all_mutations mg mode states gs)" "moves R (build_mutations mg p)"
proof -
  show mods: "moves R (mod_mutations inst iid known ms)" for inst iid known ms
    by (induction ms) (auto simp: Let_def intro!: moves_intros)
  show managed: "moves R (managed_mutation q kind iid content base)" for q kind iid content base
    unfolding managed_mutation_def by (intro moves_intros)
  show shards: "moves R (shard_mutations inst iid rs)" for inst iid rs
    by (induction rs) (auto simp: Let_def intro!: moves_intros)
  show "moves R (installation_mutations mg mode states g)" for mode states g
    unfolding installation_mutations_def by (intro moves_intros mods managed shards)
  then show all: "moves R (all_mutations mg mode states gs)" for mode states gs
    by (induction gs) (auto intro!: moves_intros)
  show "moves R (build_mutations mg p)"
    unfolding build_mutations_def states_or_none_def by (intro moves_intros all)
qed

lemma verifying [moves_intros]: "moves R (verify_target u t)" "moves R (verify_published mg j us)"
proof -
  show target: "moves R (verify_target u t)" for u t unfolding verify_target_def by (intro moves_intros)
  show "moves R (verify_published mg j us)" by (induction us) (auto intro!: moves_intros target)
qed

section \<open>Calls that change a path\<close>

lemma chmod_each [moves_intros]: "may p \<Longrightarrow> moves R (chmod_each f p l)"
  by (induction l) (auto intro!: moves_intros below)

lemma target_calls [moves_intros]:
  "may p \<Longrightarrow> moves R (make_tree_writable p)" "may p \<Longrightarrow> moves R (make_owner_writable p)"
  "may p \<Longrightarrow> moves R (remove_target p d)" "may p \<Longrightarrow> may q \<Longrightarrow> moves R (rename_target p q d)"
proof -
  show writable: "moves R (make_tree_writable p)" if "may p" for p
    unfolding make_tree_writable_def walked_def using that by (intro moves_intros)
  show "moves R (make_owner_writable p)" if "may p" for p
    unfolding make_owner_writable_def walked_def using that by (intro moves_intros)
  show "moves R (remove_target p d)" if "may p" for p
    unfolding remove_target_def using that by (intro moves_intros writable)
  show "may p \<Longrightarrow> may q \<Longrightarrow> moves R (rename_target p q d)"
    unfolding rename_target_def make_movable_def move_directory_def restore_mode_def by (intro moves_intros)
qed

lemma copying [moves_intros]:
  assumes dest: "may dest" and mk: "\<And>r. mk (dest @ r)"
  shows "moves R (copy_manifest_tree src dest m)"
proof -
  have one: "moves R (copy_verified_file src source (dest @ r) e)" for source r e
    unfolding copy_verified_file_def
    by (intro moves_intros below dest) (auto split: file_node.split intro!: moves_intros below dest)
  have parent: "mk (butlast (dest @ r))" for r
    using mk [of "butlast r"] mk [of "[]"] above [of "butlast dest" "[last dest]"]
    by (cases r rule: rev_cases; cases "dest = []") (auto simp: butlast_append)
  have "moves R (copy_entries src dest es)" for es
  proof (induction es)
    case (Cons e es)
    have "moves R (case k of Directory_Entry \<Rightarrow> sys (mkdir_all (dest @ r) 448)
        | File_Entry \<Rightarrow> andthen (sys (mkdir_all (butlast (dest @ r)) 448)) (\<lambda>_. copy_verified_file src r (dest @ r) e))" for k r
      by (cases k) (auto intro!: moves_intros one mk parent)
    then show ?case unfolding copy_entries.simps by (intro moves_intros Cons)
  qed (auto intro: moves_intros)
  moreover have "moves R (seal_directories dest es)" for es
    by (induction es) (auto split: entry_kind.split intro!: moves_intros below dest)
  moreover have "mk dest" using mk [of "[]"] by simp
  ultimately show ?thesis
    unfolding copy_manifest_tree_def by (intro moves_intros dest)
qed

text \<open>The paths of a mutation lie within the relation.\<close>

definition places :: "manager \<Rightarrow> dist_journal \<Rightarrow> mutation \<Rightarrow> bool" where
  "places mg j u \<longleftrightarrow>
     (\<forall>t s b. mutation_paths mg j u = Inr (t, s, b) \<longrightarrow>
        may t \<and> may s \<and> may b \<and> mk (butlast t) \<and> (\<forall>r. mk (s @ r)))"

lemma on_paths:
  assumes "\<And>t s b. mutation_paths mg j u = Inr (t, s, b) \<Longrightarrow> moves R (f (t, s, b))"
  shows "moves R (andthen (raise_left (mutation_paths mg j u)) f)"
  using assms by (auto simp: moves_def andthen_def raise_left_def refl_R split: sum.split)

lemma ending [moves_intros]: "moves R (end_with failed)"
  unfolding end_with_def by (intro moves_intros)

lemma joined [moves_intros]: "moves R m \<Longrightarrow> moves R n \<Longrightarrow> moves R (joined m n)"
  unfolding joined_def by (intro moves_intros)

lemma unchanged [moves_intros]: "moves R (ensure_target_unchanged t u)"
  unfolding ensure_target_unchanged_def by (intro moves_intros)

lemma staging:
  assumes "\<And>t s b. mutation_paths mg j u = Inr (t, s, b) \<Longrightarrow> may s \<and> mk (butlast t) \<and> (\<forall>r. mk (s @ r))"
  shows "moves R (stage_mutation mg j u)"
  unfolding stage_mutation_def
proof (rule on_paths)
  fix t s b
  assume "mutation_paths mg j u = Inr (t, s, b)"
  with assms have ok: "may s" "mk (butlast t)" "\<And>r. mk (s @ r)" by blast+
  then have "moves R (stage_mod mg u s)" "moves R (stage_file mg j u s)"
    unfolding stage_mod_def stage_file_def by (auto intro!: moves_intros split: option.split)
  with ok show "moves R (case (t, s, b) of (target, stage, backup) \<Rightarrow>
      andthen (must_be_absent stage) (\<lambda>_. andthen (must_be_absent backup) (\<lambda>_.
      andthen (sys (mkdir_all (butlast target) 488)) (\<lambda>_. andthen (reject_links (butlast target)) (\<lambda>_.
      if is_mod u then stage_mod mg u stage else stage_file mg j u stage)))))"
    by (auto intro!: moves_intros)
qed

lemma publishing [moves_intros]:
  assumes "places mg j u"
  shows "moves R (publish_mutation mg j u)"
  unfolding publish_mutation_def set_aside_def install_def
  by (rule on_paths) (use assms in \<open>auto simp: places_def intro!: moves_intros\<close>)

lemma rolling_back [moves_intros]:
  assumes "places mg j u"
  shows "moves R (rollback_mutation mg j u)"
  unfolding rollback_mutation_def
  by (rule on_paths) (use assms in \<open>auto simp: places_def intro!: moves_intros\<close>)

lemma rolling_back_each [moves_intros]:
  assumes "\<And>u. u \<in> set us \<Longrightarrow> places mg j u"
  shows "moves R (rollback_each mg j us failed)"
  using assms
proof (induction us arbitrary: failed)
  case (Cons u us)
  then have "places mg j u" "\<And>f. moves R (rollback_each mg j us f)" by simp_all
  then show ?case unfolding rollback_each.simps by (intro moves_intros)
qed (auto intro!: moves_intros)

lemma cleaning_up_each [moves_intros]:
  assumes "\<And>u. u \<in> set us \<Longrightarrow> places mg j u"
  shows "moves R (cleanup_each mg j us failed)"
  using assms
proof (induction us arbitrary: failed)
  case (Cons u us)
  then have later: "\<And>f. moves R (cleanup_each mg j us f)" by simp
  have "moves R (andthen (raise_left (mutation_paths mg j u)) (\<lambda>(target, stage, backup).
      joined (remove_target stage (is_mod u)) (remove_target backup (is_mod u))))"
    by (rule on_paths) (use Cons.prems [of u] in \<open>auto simp: places_def intro!: joined target_calls\<close>)
  from sequence [OF moves_attempt [OF this] later] show ?case by simp
qed (auto intro!: moves_intros)

lemma staging_each:
  assumes "\<And>u. u \<in> set us \<Longrightarrow> moves R (stage_mutation mg j u)"
  shows "moves R (stage_each mg j us)"
  using assms
proof (induction us)
  case (Cons u us)
  then have "moves R (stage_mutation mg j u)" "moves R (stage_each mg j us)" by simp_all
  then show ?case unfolding stage_each.simps by (intro moves_intros)
qed (auto intro!: moves_intros)

end

end
