(* ===== verification/Dist_Slots.thy ===== *)
theory Dist_Slots
  imports Dist_Frame
begin

text \<open>
  What single calls of the publisher do to a path: a call that only reads changes nothing, a call on a path leaves
  what is beside it, a rename moves a node or leaves it, a removal that succeeds leaves nothing.
\<close>

section \<open>Reading changes nothing\<close>

interpretation reads: dist_relation only_steps "\<lambda>_. False" "\<lambda>_. False"
proof unfold_locales
  fix s s' :: "'s dist_db_scheme" and c
  assume "only_steps (s\<lparr>cancelled := c\<rparr>) s'"
  then show "only_steps s (s'\<lparr>cancelled := cancelled s\<rparr>)" by (auto simp: only_steps_def)
qed (auto intro: only_steps_trans simp: only_steps_def intro: exI [of _ "step s" for s])

definition file_at :: "path \<Rightarrow> 's files_scheme \<Rightarrow> file_node option" where
  "file_at p s = find_node (tree s) p"

lemma only_steps_tree: "only_steps s s' \<Longrightarrow> tree s' = tree s"
  by (auto simp: only_steps_def)

lemma only_steps_file: "only_steps s s' \<Longrightarrow> file_at p s' = file_at p s"
  by (simp add: file_at_def only_steps_tree)

lemma lstat_Inr:
  fixes s :: "'s dist_db_scheme"
  assumes "lstat p s = (Inr x, s')"
  shows "x = file_at p s" and "only_steps s s'"
  using assms by (auto simp: lstat_def andthen_eq_Inr_iff file_at_def split: if_splits)

text \<open>Whether a node is of the kind a mutation has.\<close>

definition of_kind :: "bool \<Rightarrow> file_node \<Rightarrow> bool" where
  "of_kind directory n \<longleftrightarrow> \<not> is_link n \<and> directory = is_folder n \<and> (\<not> directory \<longrightarrow> is_plain n)"

lemma inspect_Inr:
  fixes s :: "'s dist_db_scheme"
  assumes "inspect_target p d s = (Inr x, s')"
  shows "x = (file_at p s \<noteq> None)" and "only_steps s s'" and "file_at p s = Some n \<Longrightarrow> of_kind d n"
proof -
  obtain w s1 where s1: "reject_links (butlast p) s = (Inr w, s1)"
    and rest: "andthen (sys (lstat p)) (\<lambda>x. case x of None \<Rightarrow> return_ok False | Some n \<Rightarrow> accept_node d n) s1 = (Inr x, s')"
    using assms unfolding inspect_target_def by (rule andthen_InrE)
  obtain y s2 where y: "sys (lstat p) s1 = (Inr y, s2)"
    and out: "(case y of None \<Rightarrow> return_ok False | Some n \<Rightarrow> accept_node d n) s2 = (Inr x, s')"
    using rest by (rule andthen_InrE)
  have "y = file_at p s"
    using y lstat_Inr(1) [of p s1 y s2] only_steps_file [OF movesD [OF reads.reject s1]] by simp
  with out show "x = (file_at p s \<noteq> None)" and "file_at p s = Some n \<Longrightarrow> of_kind d n"
    by (auto simp: accept_node_def andthen_eq_Inr_iff of_kind_def split: option.splits if_splits)
  show "only_steps s s'" by (rule movesD [OF reads.reading(4) assms])
qed

definition digest_is :: "bool \<Rightarrow> file_node \<Rightarrow> string \<Rightarrow> bool" where
  "digest_is directory n h \<longleftrightarrow>
     (if directory then \<exists>es k. scan_node n = Inr (es, k) \<and> hash_entries es = h
      else \<exists>m c. n = Plain m c \<and> hash_bytes c = h)"

lemma digest_Inr:
  fixes s :: "'s dist_db_scheme"
  assumes "target_digest p d True s = (Inr h, s')"
  obtains n where "file_at p s = Some n" "digest_is d n h"
proof (cases d)
  case True
  with assms obtain es k where scan: "scan_tree p s = (Inr (es, k), s')" and h: "h = hash_entries es"
    by (auto simp: target_digest_def andthen_eq_Inr_iff)
  from scan obtain s1 s2 s3 x where "trusted_directory p s = (Inr (), s1)" "ctx_ok s1 = (Inr (), s2)"
    and x: "lstat p s2 = (Inr x, s3)" and found: "\<exists>n. x = Some n \<and> scan_node n = Inr (es, k)"
    by (auto simp: scan_tree_def andthen_eq_Inr_iff split: option.splits)
  then have "only_steps s s2"
    using movesD [OF reads.reading(1)] movesD [OF reads.small(2)] only_steps_trans by blast
  with x lstat_Inr(1) have "x = file_at p s" by (metis only_steps_file)
  with found h True that show ?thesis by (auto simp: digest_is_def)
next
  case False
  with assms obtain c s1 where "read_file p s = (Inr c, s1)" and h: "h = hash_bytes c"
    by (auto simp: target_digest_def hash_file_def andthen_eq_Inr_iff)
  then obtain x s2 where x: "lstat p s = (Inr x, s2)"
    and rest: "(case x of None \<Rightarrow> raise Not_Exist | Some (Plain m c) \<Rightarrow> return_ok c | Some _ \<Rightarrow> raise Is_Directory) s2 = (Inr c, s1)"
    unfolding read_file_def by (auto elim: andthen_InrE)
  then obtain m where "x = Some (Plain m c)" by (auto split: option.splits file_node.splits)
  with lstat_Inr(1) [OF x] h False show ?thesis by (intro that [of "Plain m c"]) (auto simp: digest_is_def)
qed

section \<open>Nodes up to their permissions\<close>

definition alike :: "file_node \<Rightarrow> file_node \<Rightarrow> bool" where
  "alike x y \<longleftrightarrow> with_mode (\<lambda>_. 0) x = with_mode (\<lambda>_. 0) y"

lemma alike_refl [simp]: "alike x x"
  by (simp add: alike_def)

lemma alike_trans: "alike x y \<Longrightarrow> alike y z \<Longrightarrow> alike x z"
  by (simp add: alike_def)

lemma alike_sym: "alike x y \<Longrightarrow> alike y x"
  by (simp add: alike_def)

lemma alike_with_mode [simp]: "alike (with_mode f x) x" "alike x (with_mode f x)"
  by (cases x; simp add: alike_def)+

lemma alike_digest: "alike x y \<Longrightarrow> digest_is d x h \<longleftrightarrow> digest_is d y h"
  by (cases x; cases y) (auto simp: alike_def digest_is_def scan_node_def)

section \<open>Changing one of two siblings\<close>

lemma siblings_parallel: "a \<noteq> b \<Longrightarrow> d @ [a] \<parallel> d @ [b]"
  by (induction d) (auto simp: parallel_def)

text \<open>A call that changes a path leaves a sibling.\<close>

definition elsewhere :: "path \<Rightarrow> 's files_scheme \<Rightarrow> 's files_scheme \<Rightarrow> bool" where
  "elsewhere q s s' \<longleftrightarrow> file_at q s' = file_at q s"

interpretation elsewhere: dist_relation "elsewhere q" "\<lambda>p. p \<parallel> q" "\<lambda>p. \<not> prefix q p" for q
proof unfold_locales
  show "(p @ r) \<parallel> q" if "p \<parallel> q" for p r :: path
    using that by (metis append_prefixD parallelD1 parallelD2 parallelI prefixI prefix_same_cases)
  show "\<not> prefix q p" if "\<not> prefix q (p @ r)" for p r :: path
    using that by (simp add: prefix_append)
qed (auto simp: elsewhere_def file_at_def find_change_beside create_beside)

lemma rename_Inr:
  assumes "rename p q s = (Inr u, s')"
  obtains n s1 where "lstat p s = (Inr (Some n), s1)" "folder_at (tree s1) (butlast q)"
    "s' = s1\<lparr>tree := change q (\<lambda>_. Some n) (change p (\<lambda>_. None) (tree s1))\<rparr>"
proof -
  obtain x s1 where l: "lstat p s = (Inr x, s1)"
    and rest: "andthen (query tree) (\<lambda>n. case x of None \<Rightarrow> raise Not_Exist | Some k \<Rightarrow>
        (case rename_error p q k n of Some e \<Rightarrow> raise e | None \<Rightarrow> andthen (set_at p (\<lambda>_. None)) (\<lambda>_. set_at q (\<lambda>_. Some k)))) s1 = (Inr u, s')"
    using assms unfolding rename_def by (rule andthen_InrE)
  then obtain n where x: "x = Some n" and ok: "rename_error p q n (tree s1) = None"
    by (auto simp: andthen_eq_Inr_iff split: option.splits)
  then have "folder_at (tree s1) (butlast q)" by (auto simp: rename_error_def split: if_splits)
  with that l rest x ok show ?thesis by (simp add: andthen_def set_at_def)
qed

lemma rename_Inl:
  fixes s :: "'s dist_db_scheme"
  assumes "rename p q s = (Inl e, s')"
  shows "only_steps s s'"
proof -
  obtain x s1 where l: "lstat p s = (x, s1)" by fastforce
  then have "only_steps s s1" by (rule movesD [OF reads.lstat])
  moreover from assms l have "s' = s1"
    by (cases x) (auto simp: rename_def andthen_def set_at_def split: option.splits)
  ultimately show ?thesis by simp
qed

lemma rename_cases:
  fixes s :: "'s dist_db_scheme"
  assumes "rename (d @ [a]) (d @ [b]) s = (r, s')" and "a \<noteq> b"
  obtains (failed) e where "r = Inl e" "only_steps s s'"
    | (moved) n where "r = Inr ()" "file_at (d @ [a]) s = Some n" "file_at (d @ [a]) s' = None" "file_at (d @ [b]) s' = Some n"
proof (cases r)
  case (Inl e)
  with assms(1) rename_Inl failed show ?thesis by blast
next
  case (Inr u)
  with assms(1) have "rename (d @ [a]) (d @ [b]) s = (Inr u, s')" by simp
  then obtain n s1 where l: "lstat (d @ [a]) s = (Inr (Some n), s1)"
    and f: "folder_at (tree s1) (butlast (d @ [b]))"
    and s': "s' = s1\<lparr>tree := change (d @ [b]) (\<lambda>_. Some n) (change (d @ [a]) (\<lambda>_. None) (tree s1))\<rparr>"
    by (rule rename_Inr)
  have par: "d @ [b] \<parallel> d @ [a]" using assms(2) by (simp add: siblings_parallel)
  have "folder_at (change (d @ [a]) (\<lambda>_. None) (tree s1)) d" using f by (simp add: folder_change_above)
  then have "file_at (d @ [b]) s' = Some n" "file_at (d @ [a]) s' = None"
    unfolding s' using f par by (simp_all add: file_at_def find_change_at find_change_beside)
  then show ?thesis using moved [of n] Inr lstat_Inr(1) [OF l, symmetric] by simp
qed

lemma chmod_cases:
  fixes s :: "'s dist_db_scheme"
  assumes "chmod p f s = (r, s')" and "p \<noteq> []"
  obtains (failed) e where "r = Inl e" "only_steps s s'"
    | (changed) n where "r = Inr ()" "file_at p s = Some n" "file_at p s' = Some (with_mode f n)"
proof (cases r)
  case (Inl e)
  obtain x s1 where l: "lstat p s = (x, s1)" by fastforce
  then have "only_steps s s1" by (rule movesD [OF reads.lstat])
  moreover from assms(1) l Inl have "s' = s1"
    by (auto simp: chmod_def andthen_def set_at_def split: sum.splits if_splits)
  ultimately show ?thesis using failed Inl by blast
next
  case (Inr u)
  with assms(1) obtain n s1 where l: "lstat p s = (Inr (Some n), s1)"
    and s': "s' = s1\<lparr>tree := change p (map_option (with_mode f)) (tree s1)\<rparr>"
    by (auto simp: chmod_def andthen_eq_Inr_iff set_at_def split: if_splits)
  have n: "file_at p s = Some n" "tree s1 = tree s"
    using lstat_Inr [OF l] by (simp_all add: only_steps_tree)
  then have "folder_at (tree s1) (butlast p)"
    using find_node_parent [of "tree s" "butlast p" "last p" n] assms(2) by (simp add: file_at_def)
  with n s' assms(2) have "file_at p s' = Some (with_mode f n)" by (simp add: file_at_def find_change_at)
  with n Inr changed show ?thesis by simp
qed

lemma chmod_outcome:
  fixes s :: "'s dist_db_scheme"
  assumes "chmod p f s = (r, s')" and "p \<noteq> []" and "file_at p s = Some n"
  shows "\<exists>n'. file_at p s' = Some n' \<and> alike n n'"
  using assms(1,2)
proof (cases rule: chmod_cases)
  case failed
  then show ?thesis using assms(3) only_steps_file by (metis alike_refl)
next
  case (changed k)
  then show ?thesis using assms(3) by simp
qed

lemma sys_eq: "sys m s = (r, s') \<Longrightarrow> \<exists>x. m s = (x, s') \<and> ((\<exists>e. x = Inl e) \<longleftrightarrow> (\<exists>e. r = Inl e))"
  by (auto simp: sys_def map_error_def split: prod.splits sum.splits)

text \<open>\<open>places p q n s\<close>: the node stands at \<open>p\<close>, but for its permissions, and nothing at \<open>q\<close>.\<close>

definition stands :: "path \<Rightarrow> path \<Rightarrow> file_node \<Rightarrow> 's files_scheme \<Rightarrow> bool" where
  "stands p q n s \<longleftrightarrow> (\<exists>n'. alike n n' \<and> file_at p s = Some n') \<and> file_at q s = None"

lemma stands_chmod:
  fixes s :: "'s dist_db_scheme"
  assumes "stands p q n s" and "chmod p f s = (r, s')" and "p \<parallel> q"
  shows "stands p q n s'"
proof -
  have "p \<noteq> []" using assms(3) by auto
  moreover have "file_at q s' = file_at q s"
    using movesD [OF elsewhere.chmod [OF assms(3)] assms(2)] by (simp add: elsewhere_def)
  ultimately show ?thesis
    using chmod_outcome [OF assms(2)] assms(1) alike_trans unfolding stands_def by metis
qed

lemma stands_modes:
  fixes s :: "'s dist_db_scheme"
  assumes "stands p q n s" and "p \<parallel> q"
  shows "make_movable p m s = (r, s') \<Longrightarrow> stands p q n s'" and "restore_mode p m s = (r, s') \<Longrightarrow> stands p q n s'"
  using assms stands_chmod by (fastforce simp: make_movable_def restore_mode_def dest: sys_eq split: if_splits)+

lemma stands_rename:
  fixes s :: "'s dist_db_scheme"
  assumes "stands (d @ [a]) (d @ [b]) n s" and "rename (d @ [a]) (d @ [b]) s = (r, s')" and "a \<noteq> b"
  shows "(\<exists>e. r = Inl e) \<and> stands (d @ [a]) (d @ [b]) n s' \<or> r = Inr () \<and> stands (d @ [b]) (d @ [a]) n s'"
  using assms(2,3)
proof (cases rule: rename_cases)
  case failed
  then show ?thesis using assms(1) by (auto simp: stands_def only_steps_file)
next
  case moved
  then show ?thesis using assms(1) by (auto simp: stands_def)
qed

text \<open>A swap either leaves the node where it was or moves it; only its permissions may differ.\<close>

lemma rename_target_outcome:
  fixes s :: "'s dist_db_scheme"
  assumes run: "rename_target (d @ [a]) (d @ [b]) dir s = (r, s')" and ab: "a \<noteq> b"
    and start: "stands (d @ [a]) (d @ [b]) n s"
  shows "(\<exists>e. r = Inl e) \<and> stands (d @ [a]) (d @ [b]) n s' \<or> stands (d @ [b]) (d @ [a]) n s'"
proof (cases dir)
  case False
  with run stands_rename [OF start _ ab] show ?thesis by (auto simp: rename_target_def dest!: sys_eq)
next
  case True
  have par: "d @ [a] \<parallel> d @ [b]" "d @ [b] \<parallel> d @ [a]" using ab by (simp_all add: siblings_parallel)
  have moved: "(\<exists>e. r = Inl e) \<and> stands (d @ [a]) (d @ [b]) n s' \<or> stands (d @ [b]) (d @ [a]) n s'"
    if "move_directory (d @ [a]) (d @ [b]) m t = (r, s')" "stands (d @ [a]) (d @ [b]) n t" for m and t :: "'s dist_db_scheme"
  proof -
    obtain x t' where x: "rename (d @ [a]) (d @ [b]) t = (x, t')" by fastforce
    show ?thesis
    proof (cases x)
      case (Inl e)
      then have "stands (d @ [a]) (d @ [b]) n t'" using stands_rename [OF that(2) x ab] by auto
      with that(1) x Inl stands_modes(2) [OF _ par(1)] show ?thesis
        by (auto simp: move_directory_def andthen_def attempt_def sys_def map_error_def split: prod.splits)
    next
      case (Inr u)
      then have "stands (d @ [b]) (d @ [a]) n t'" using stands_rename [OF that(2) x ab] by auto
      moreover have "restore_mode (d @ [b]) m t' = (r, s')"
        using that(1) x Inr by (simp add: move_directory_def andthen_def attempt_def sys_def map_error_def)
      ultimately show ?thesis using stands_modes(2) [OF _ par(2)] by blast
    qed
  qed
  obtain x s1 where l: "sys (lstat (d @ [a])) s = (x, s1)" by fastforce
  then have s1: "stands (d @ [a]) (d @ [b]) n s1"
    using start movesD [OF reads.from_sys [OF reads.lstat] l] by (simp add: stands_def only_steps_file)
  show ?thesis
  proof (cases "\<exists>m. x = Inr (Some m)")
    case False
    with True run l s1 show ?thesis
      by (cases x) (auto simp: rename_target_def andthen_def split: option.splits)
  next
    case m: True
    then obtain m where "x = Inr (Some m)" by blast
    with True run l have "andthen (make_movable (d @ [a]) m) (\<lambda>_. move_directory (d @ [a]) (d @ [b]) m) s1 = (r, s')"
      by (simp add: rename_target_def andthen_def)
    then show ?thesis
      using stands_modes(1) [OF s1 par(1)] moved by (auto simp: andthen_def split: prod.splits sum.splits)
  qed
qed

text \<open>A removal that succeeds leaves nothing.\<close>

lemma find_removed: "p \<noteq> [] \<Longrightarrow> find_node (change p (\<lambda>_. None) n) p = None"
proof (cases "folder_at n (butlast p)")
  case False
  then show "p \<noteq> [] \<Longrightarrow> find_node (change p (\<lambda>_. None) n) p = None"
    using find_node_parent [of n "butlast p" "last p"] by (cases "find_node n p") (auto simp: change_no_parent)
qed (simp add: find_change_at)

lemma remove_target_Inr:
  fixes s :: "'s dist_db_scheme"
  assumes run: "remove_target p dir s = (Inr u, s')" and p: "p \<noteq> []"
  shows "file_at p s' = None"
proof -
  obtain there s1 where i: "inspect_target p dir s = (Inr there, s1)"
    and rest: "(if \<not> there then return_ok () else if dir then andthen (make_tree_writable p) (\<lambda>_. sys (remove_all p))
        else sys (remove p)) s1 = (Inr u, s')"
    using run unfolding remove_target_def by (rule andthen_InrE)
  have gone: "file_at p t' = None" if "remove_all p t = (Inr u, t')" for t t' :: "'s dist_db_scheme"
    using that p find_removed by (auto simp: remove_all_def andthen_def guard_def set_at_def file_at_def Let_def
        split: option.splits prod.splits if_splits)
  have gone': "file_at p t' = None" if "remove p t = (Inr u, t')" for t t' :: "'s dist_db_scheme"
  proof -
    have "\<exists>t1. t' = t1\<lparr>tree := change p (\<lambda>_. None) (tree t1)\<rparr>"
      using that by (auto simp: remove_def andthen_def set_at_def
          split: prod.splits sum.splits option.splits file_node.splits if_splits)
    then show ?thesis using p find_removed by (auto simp: file_at_def)
  qed
  show ?thesis
  proof (cases there)
    case True
    with rest gone gone' show ?thesis by (auto simp: andthen_eq_Inr_iff split: if_splits)
  next
    case False
    with rest inspect_Inr(1,2) [OF i] show ?thesis by (auto simp: only_steps_file)
  qed
qed

lemma remove_target_nothing:
  fixes s :: "'s dist_db_scheme"
  assumes "remove_target p dir s = (r, s')" and "file_at p s = None"
  shows "file_at p s' = None"
proof -
  obtain x s1 where i: "inspect_target p dir s = (x, s1)" by fastforce
  have "file_at p s1 = None" using movesD [OF reads.reading(4) i] assms(2) by (simp add: only_steps_file)
  moreover have "s' = s1"
    using assms i inspect_Inr(1) [of p dir s _ s1] by (cases x) (auto simp: remove_target_def andthen_def)
  ultimately show ?thesis by simp
qed

end
