(* ===== verification/Dist_Machine.thy ===== *)
theory Dist_Machine
  imports Dist_Slots
begin

text \<open>
  What an operation does to the three paths of one mutation, its slot: target, stage and backup. \<open>slot_step\<close> is the
  abstract machine: each step of it is one change of the file system, after which the program may stop. The
  publisher's calls are shown to run this machine, whatever fails; the property that matters is an invariant of it.
\<close>

section \<open>The machine of one mutation\<close>

text \<open>What stands at the target, the stage and the backup.\<close>

type_synonym slot = "file_node option \<times> file_node option \<times> file_node option"

definition new_digest :: "mutation \<Rightarrow> string" where
  "new_digest u = (if is_mod u then du_tree u else du_config u)"

inductive slot_step :: "mutation \<Rightarrow> slot \<Rightarrow> slot \<Rightarrow> bool" for u where
  aside: "du_had u \<Longrightarrow> digest_is (is_mod u) x (du_original u) \<Longrightarrow> alike x y \<Longrightarrow>
    slot_step u (Some x, Some n, None) (None, Some n, Some y)"
| install: "(du_had u \<Longrightarrow> b \<noteq> None) \<Longrightarrow> alike x y \<Longrightarrow> slot_step u (None, Some x, b) (Some y, None, b)"
| take_down: "b \<noteq> None \<or> \<not> du_had u \<and> p = None \<Longrightarrow> digest_is (is_mod u) x (new_digest u) \<Longrightarrow>
    slot_step u (Some x, p, b) (y, p, b)"
| put_back: "alike x y \<Longrightarrow> slot_step u (None, p, Some x) (Some y, p, None)"
| restage: "q \<noteq> None \<Longrightarrow> p = None \<Longrightarrow> b = None \<and> (\<not> du_had u \<longrightarrow> t = None) \<Longrightarrow> slot_step u (t, p, b) (t, q, b)"
| unstage: "slot_step u (t, Some p, b) (t, q, b)"
| target_mode: "alike x y \<Longrightarrow> slot_step u (Some x, p, b) (Some y, p, b)"
| backup_mode: "alike x y \<Longrightarrow> slot_step u (t, p, Some x) (t, p, Some y)"

inductive_cases slot_stepE: "slot_step u (t, p, b) c"

abbreviation slot_run :: "mutation \<Rightarrow> slot \<Rightarrow> slot \<Rightarrow> bool" where
  "slot_run u \<equiv> (slot_step u)\<^sup>*\<^sup>*"

text \<open>The original is at the target or in the backup; a target that had none is empty while its stage stands.\<close>

fun holds :: "mutation \<Rightarrow> file_node option \<Rightarrow> slot \<Rightarrow> bool" where
  "holds u orig (t, p, b) \<longleftrightarrow>
     (if du_had u then \<exists>x y. orig = Some x \<and> alike x y \<and> (b = Some y \<or> b = None \<and> t = Some y)
      else orig = None \<and> b = None \<and> (p \<noteq> None \<longrightarrow> t = None))"

lemma holds_step: "slot_step u c c' \<Longrightarrow> holds u orig c \<Longrightarrow> holds u orig c'"
  by (induction rule: slot_step.induct) (auto split: if_splits dest: alike_trans)

lemma holds_run: "slot_run u c c' \<Longrightarrow> holds u orig c \<Longrightarrow> holds u orig c'"
  by (induction rule: rtranclp_induct) (auto dest: holds_step)

text \<open>Everything is as before the operation.\<close>

fun restored :: "file_node option \<Rightarrow> slot \<Rightarrow> bool" where
  "restored orig (t, p, b) \<longleftrightarrow>
     p = None \<and> b = None \<and> (case orig of None \<Rightarrow> t = None | Some x \<Rightarrow> \<exists>y. alike x y \<and> t = Some y)"

section \<open>The paths of a mutation\<close>

text \<open>What \<open>newManager\<close> makes of a configuration: the manifest's path is derived from the content's.\<close>

definition manager_ok :: "manager \<Rightarrow> bool" where
  "manager_ok mg \<longleftrightarrow>
     (\<forall>(iid, inst) \<in> set (mg_installations mg).
        di_id inst = iid \<and> di_node inst = mg_node mg \<and>
        (case di_content inst of None \<Rightarrow> di_manifest inst = None
         | Some c \<Rightarrow> di_manifest inst = derive_manifest c \<and> di_manifest inst \<noteq> None))"

definition hidden :: "string \<Rightarrow> bool" where
  "hidden name \<longleftrightarrow> has_prefix name ''.dst-admin-''"

lemma place_name:
  assumes "manager_ok mg" and "map_of (mg_installations mg) iid = Some inst"
    and "mutation_place inst u = Some (t, word, root)"
  obtains d a where "t = d @ [a]" "\<not> hidden a"
proof -
  have inst: "di_manifest inst = Some p \<Longrightarrow> \<exists>c. derive_manifest c = Some p" for p
    using assms(1) map_of_SomeD [OF assms(2)] by (force simp: manager_ok_def split: option.splits)
  have shown: "\<exists>d a. t = d @ [a] \<and> \<not> hidden a"
  proof (cases "du_kind u")
    case Mutate_Mod
    with assms(3) have "valid_workshop (du_workshop u)" "t = mod_target inst (du_workshop u)"
      by (auto simp: mutation_place_def split: if_splits)
    moreover from this have "\<not> hidden (du_workshop u)"
      by (auto simp: hidden_def has_prefix_def valid_workshop_def is_digit_def split: list.splits)
    ultimately show ?thesis
      by (cases "di_content inst") (auto simp: mod_target_def hidden_def has_prefix_def)
  next
    case Mutate_Overrides
    with assms(3) show ?thesis
      by (auto simp: mutation_place_def overrides_path_def hidden_def has_prefix_def split: if_splits)
  next
    case Mutate_Setup
    with assms(3) show ?thesis
      by (auto simp: mutation_place_def setup_path_def hidden_def has_prefix_def split: if_splits)
  next
    case Mutate_Manifest
    with assms(3) have "di_manifest inst = Some t" by (auto simp: mutation_place_def split: option.splits if_splits)
    with inst show ?thesis by (auto simp: derive_manifest_def hidden_def has_prefix_def split: if_splits)
  qed
  with that show ?thesis by blast
qed

lemma paths_shape:
  assumes "manager_ok mg" and "mutation_paths mg j u = Inr (t, p, b)"
  obtains d x y z where "t = d @ [x]" "p = d @ [y]" "b = d @ [z]" "x \<noteq> y" "x \<noteq> z" "y \<noteq> z"
proof -
  from assms(2) obtain inst word root where i: "map_of (mg_installations mg) (du_installation u) = Some inst"
    and place: "mutation_place inst u = Some (t, word, root)"
    and p: "p = butlast t @ [''.dst-admin-'' @ word @ ''-stage-'' @ mutation_suffix j u]"
    and b: "b = butlast t @ [''.dst-admin-'' @ word @ ''-backup-'' @ mutation_suffix j u]"
    by (auto simp: mutation_paths_def Let_def split: if_splits option.splits prod.splits)
  from place_name [OF assms(1) i place] obtain d a where t: "t = d @ [a]" and a: "\<not> hidden a" by blast
  have "hidden (''.dst-admin-'' @ v)" for v by (simp add: hidden_def has_prefix_def)
  with a have "a \<noteq> ''.dst-admin-'' @ word @ ''-stage-'' @ mutation_suffix j u"
    "a \<noteq> ''.dst-admin-'' @ word @ ''-backup-'' @ mutation_suffix j u" by metis+
  with that t p b show ?thesis by simp
qed

definition slot_at :: "path \<times> path \<times> path \<Rightarrow> 's files_scheme \<Rightarrow> slot" where
  "slot_at ps s = (case ps of (t, p, b) \<Rightarrow> (file_at t s, file_at p s, file_at b s))"

lemma slot_at_simp [simp]: "slot_at (t, p, b) s = (file_at t s, file_at p s, file_at b s)"
  by (simp add: slot_at_def)

lemma only_steps_slot: "only_steps s s' \<Longrightarrow> slot_at ps s' = slot_at ps s"
  by (cases ps) (simp add: only_steps_file)

text \<open>Three names in one directory.\<close>

definition siblings :: "path \<Rightarrow> path \<Rightarrow> path \<Rightarrow> bool" where
  "siblings t p b \<longleftrightarrow> (\<exists>d x y z. t = d @ [x] \<and> p = d @ [y] \<and> b = d @ [z] \<and> x \<noteq> y \<and> x \<noteq> z \<and> y \<noteq> z)"

lemma paths_siblings: "manager_ok mg \<Longrightarrow> mutation_paths mg j u = Inr (t, p, b) \<Longrightarrow> siblings t p b"
  unfolding siblings_def by (erule (1) paths_shape) blast

lemma siblings_apart:
  assumes "siblings t p b"
  shows "t \<parallel> p" "t \<parallel> b" "p \<parallel> t" "p \<parallel> b" "b \<parallel> t" "b \<parallel> p" "t \<noteq> []" "p \<noteq> []" "b \<noteq> []"
  using assms by (auto simp: siblings_def siblings_parallel)

text \<open>A swap between two of them, with the third untouched.\<close>

lemma swap_siblings:
  fixes s :: "'s dist_db_scheme"
  assumes "rename_target p q dir s = (r, s')" and "p = d @ [a]" "q = d @ [c]" "a \<noteq> c"
    and "file_at p s = Some n" "file_at q s = None"
  shows "\<exists>n'. alike n n' \<and> ((\<exists>e. r = Inl e) \<and> file_at p s' = Some n' \<and> file_at q s' = None \<or>
    file_at p s' = None \<and> file_at q s' = Some n')"
proof -
  have "stands p q n s" using assms(5,6) by (auto simp: stands_def)
  with rename_target_outcome [of d a c dir s r s' n] assms(1-4) show ?thesis
    by (auto simp: stands_def)
qed

lemma swap_elsewhere:
  fixes s :: "'s dist_db_scheme"
  assumes "rename_target p q dir s = (r, s')" and "p \<parallel> x" and "q \<parallel> x"
  shows "file_at x s' = file_at x s"
  using movesD [OF elsewhere.target_calls(4) [OF assms(2,3)] assms(1)] by (simp add: elsewhere_def)

section \<open>Publishing runs the machine\<close>

lemma set_aside_run:
  fixes s :: "'s dist_db_scheme"
  assumes run: "set_aside u t b backed_up there s = (r, s')" and sib: "siblings t p b"
    and now: "backed_up = (file_at b s \<noteq> None)" "there = (file_at t s \<noteq> None)" "file_at p s = Some n"
  shows "slot_run u (slot_at (t, p, b) s) (slot_at (t, p, b) s') \<and>
    (\<forall>there'. r = Inr there' \<longrightarrow> there' = (file_at t s' \<noteq> None) \<and> file_at p s' = Some n \<and> (du_had u \<longrightarrow> file_at b s' \<noteq> None))"
proof (cases "du_had u \<and> \<not> backed_up \<and> there")
  case False
  with run now show ?thesis by (auto simp: set_aside_def andthen_def guard_def split: if_splits)
next
  case True
  then obtain x where x: "file_at t s = Some x" "file_at b s = None" using now by auto
  obtain h s1 where h: "background (target_digest t (is_mod u) True) s = (h, s1)" by fastforce
  have s1: "only_steps s s1" by (rule movesD [OF reads.in_background [OF reads.reading(5)] h])
  show ?thesis
  proof (cases "h = Inr (du_original u)")
    case False
    with run True h have "s' = s1 \<and> (\<exists>e. r = Inl e)"
      by (cases h) (auto simp: set_aside_def andthen_def guard_def)
    with only_steps_slot [OF s1, of "(t, p, b)"] show ?thesis by auto
  next
    case ok: True
    then obtain s2 where "target_digest t (is_mod u) True (s\<lparr>cancelled := (\<lambda>_. False)\<rparr>) = (Inr (du_original u), s2)"
      using h by (auto simp: background_def split: prod.splits)
    then have dig: "digest_is (is_mod u) x (du_original u)"
      using x(1) by (auto elim!: digest_Inr simp: file_at_def)
    obtain q s3 where mv: "rename_target t b (is_mod u) s1 = (q, s3)" by fastforce
    with run True h ok have s': "s' = s3" "r = map_sum id (\<lambda>_. False) q"
      by (auto simp: set_aside_def andthen_def guard_def split: sum.splits)
    from sib obtain d a y z where sh: "t = d @ [a]" "p = d @ [y]" "b = d @ [z]" "a \<noteq> y" "a \<noteq> z" "y \<noteq> z"
      by (auto simp: siblings_def)
    have before: "file_at t s1 = Some x" "file_at b s1 = None" "file_at p s1 = Some n"
      using only_steps_file [OF s1] x now(3) by simp_all
    have stage: "file_at p s3 = Some n"
      using swap_elsewhere [OF mv] siblings_apart(1,6) [OF sib] before(3) by simp
    from swap_siblings [OF mv sh(1,3,5) before(1,2)] obtain x' where x': "alike x x'"
      "(\<exists>e. q = Inl e) \<and> file_at t s3 = Some x' \<and> file_at b s3 = None \<or> file_at t s3 = None \<and> file_at b s3 = Some x'"
      by blast
    from x'(2) show ?thesis
    proof
      assume a: "(\<exists>e. q = Inl e) \<and> file_at t s3 = Some x' \<and> file_at b s3 = None"
      have "slot_step u (Some x, Some n, None) (Some x', Some n, None)" by (rule slot_step.target_mode [OF x'(1)])
      with a x now(3) stage s' show ?thesis by auto
    next
      assume a: "file_at t s3 = None \<and> file_at b s3 = Some x'"
      have "slot_step u (Some x, Some n, None) (None, Some n, Some x')"
        by (rule slot_step.aside) (use True dig x'(1) in simp_all)
      with a x now(3) stage s' show ?thesis by (cases q) auto
    qed
  qed
qed

lemma install_run:
  fixes s :: "'s dist_db_scheme"
  assumes run: "install u t p there s = (r, s')" and sib: "siblings t p b"
    and now: "there = (file_at t s \<noteq> None)" "file_at p s = Some n" "du_had u \<longrightarrow> file_at b s \<noteq> None"
  shows "slot_run u (slot_at (t, p, b) s) (slot_at (t, p, b) s') \<and>
    (r = Inr () \<longrightarrow> (\<exists>n'. alike n n' \<and> file_at t s' = Some n') \<and> file_at p s' = None \<and> file_at b s' = file_at b s)"
proof (cases there)
  case True
  with run show ?thesis by (auto simp: install_def andthen_def guard_def)
next
  case False
  obtain q s1 where mv: "rename_target p t (is_mod u) s = (q, s1)" by fastforce
  from sib obtain d a y z where sh: "t = d @ [a]" "p = d @ [y]" "b = d @ [z]" "a \<noteq> y" "a \<noteq> z" "y \<noteq> z"
    by (auto simp: siblings_def)
  have b: "file_at b s1 = file_at b s"
    using swap_elsewhere [OF mv] siblings_apart(2,4) [OF sib] by simp
  have s': "only_steps s1 s'" "r = Inr () \<longrightarrow> q = Inr ()"
    using run mv False movesD [OF reads.from_sys [OF reads.sync_directory]]
    by (auto simp: install_def andthen_def guard_def split: sum.splits)
  from swap_siblings [OF mv sh(2,1) sh(4) [symmetric] now(2)] now(1) False
  obtain n' where n': "alike n n'"
    "(\<exists>e. q = Inl e) \<and> file_at p s1 = Some n' \<and> file_at t s1 = None \<or> file_at p s1 = None \<and> file_at t s1 = Some n'"
    by auto
  from n'(2) show ?thesis
  proof
    assume a: "(\<exists>e. q = Inl e) \<and> file_at p s1 = Some n' \<and> file_at t s1 = None"
    have "slot_step u (None, Some n, file_at b s) (None, Some n', file_at b s)" by (rule slot_step.unstage)
    with a b now False s' only_steps_file [OF s'(1)] show ?thesis by auto
  next
    assume a: "file_at p s1 = None \<and> file_at t s1 = Some n'"
    have "slot_step u (None, Some n, file_at b s) (Some n', None, file_at b s)"
      by (rule slot_step.install) (use now(3) n'(1) in simp_all)
    with a b now False n'(1) only_steps_file [OF s'(1)] show ?thesis by auto
  qed
qed

lemma publish_mutation_run:
  fixes s :: "'s dist_db_scheme"
  assumes run: "publish_mutation mg j u s = (r, s')" and paths: "mutation_paths mg j u = Inr (t, p, b)"
    and sib: "siblings t p b"
  shows "slot_run u (slot_at (t, p, b) s) (slot_at (t, p, b) s') \<and>
    (r = Inr () \<longrightarrow> file_at t s' \<noteq> None \<and> file_at p s' = None \<and> (du_had u \<longrightarrow> file_at b s' \<noteq> None))"
proof -
  obtain x1 s1 where i1: "inspect_target p (is_mod u) s = (x1, s1)" by fastforce
  obtain x2 s2 where i2: "inspect_target b (is_mod u) s1 = (x2, s2)" by fastforce
  obtain x3 s3 where i3: "inspect_target t (is_mod u) s2 = (x3, s3)" by fastforce
  have o: "only_steps s s1" "only_steps s s2" "only_steps s s3"
    using movesD [OF reads.reading(4) i1] movesD [OF reads.reading(4) i2] movesD [OF reads.reading(4) i3]
    by (blast intro: only_steps_trans)+
  note same = o [THEN only_steps_slot, of "(t, p, b)"]
  show ?thesis
  proof (cases "\<exists>c1 c2 c3. x1 = Inr c1 \<and> x2 = Inr c2 \<and> x3 = Inr c3")
    case False
    have "publish_mutation mg j u s = andthen (inspect_target p (is_mod u)) (\<lambda>staged.
        andthen (inspect_target b (is_mod u)) (\<lambda>backed_up. andthen (inspect_target t (is_mod u)) (\<lambda>there.
          if \<not> staged then (if there \<and> (backed_up \<or> \<not> du_had u) then return_ok () else raise [Dist_Conflict])
          else andthen (set_aside u t b backed_up there) (install u t p)))) s"
      by (simp add: publish_mutation_def andthen_def paths raise_left_def)
    with run False i1 i2 i3 have "(\<exists>e. r = Inl e) \<and> s' \<in> {s1, s2, s3}"
      by (cases x1; cases x2; cases x3) (simp_all add: andthen_def, auto)
    with same show ?thesis by auto
  next
    case True
    then obtain c1 c2 c3 where c: "x1 = Inr c1" "x2 = Inr c2" "x3 = Inr c3" by blast
    with inspect_Inr(1) i1 i2 i3 o have now: "c1 = (file_at p s3 \<noteq> None)" "c2 = (file_at b s3 \<noteq> None)" "c3 = (file_at t s3 \<noteq> None)"
      by (metis only_steps_file)+
    have rest: "(if \<not> c1 then (if c3 \<and> (c2 \<or> \<not> du_had u) then return_ok () else raise [Dist_Conflict])
        else andthen (set_aside u t b c2 c3) (install u t p)) s3 = (r, s')"
      using run paths i1 i2 i3 c by (simp add: publish_mutation_def andthen_def raise_left_def del: raise_left_eq)
    show ?thesis
    proof (cases c1)
      case False
      with rest now same show ?thesis by (auto split: if_splits)
    next
      case True
      then obtain n where n: "file_at p s3 = Some n" using now by auto
      obtain y s4 where a: "set_aside u t b c2 c3 s3 = (y, s4)" by fastforce
      note aside = set_aside_run [OF a sib now(2,3) n]
      show ?thesis
      proof (cases y)
        case (Inl e)
        with rest a True aside same show ?thesis by (auto simp: andthen_def)
      next
        case (Inr there)
        with aside have "install u t p there s4 = (r, s')" "there = (file_at t s4 \<noteq> None)" "file_at p s4 = Some n"
          "du_had u \<longrightarrow> file_at b s4 \<noteq> None"
          using rest a True by (auto simp: andthen_def)
        from install_run [OF this(1) sib this(2-4)] aside same this(4) show ?thesis
          by (auto intro: rtranclp_trans)
      qed
    qed
  qed
qed

end
