(* ===== verification/Dist_Rollback.thy ===== *)
theory Dist_Rollback
  imports Dist_Machine
begin

text \<open>
  Rolling back runs the machine of each mutation too, and where it reports no error, everything is as it was.
\<close>

section \<open>Removing and putting back\<close>

definition runs :: "mutation \<Rightarrow> path \<times> path \<times> path \<Rightarrow> 's files_scheme \<Rightarrow> 's files_scheme \<Rightarrow> bool" where
  "runs u ps s s' \<longleftrightarrow> slot_run u (slot_at ps s) (slot_at ps s')"

lemma runs_trans [trans]: "runs u ps s s1 \<Longrightarrow> runs u ps s1 s2 \<Longrightarrow> runs u ps s s2"
  by (simp add: runs_def)

lemma runs_same: "slot_at ps s' = slot_at ps s \<Longrightarrow> runs u ps s s'"
  by (simp add: runs_def)

lemma runs_only_steps: "only_steps s s' \<Longrightarrow> runs u ps s s'"
  by (rule runs_same) (rule only_steps_slot)

lemma runs_step: "slot_step u (slot_at ps s) (slot_at ps s') \<Longrightarrow> runs u ps s s'"
  by (auto simp: runs_def)

lemma runs_holds: "runs u ps s s' \<Longrightarrow> holds u orig (slot_at ps s) \<Longrightarrow> holds u orig (slot_at ps s')"
  unfolding runs_def by (rule holds_run)

lemma remove_elsewhere:
  fixes s :: "'s dist_db_scheme"
  assumes "remove_target p dir s = (r, s')" and "p \<parallel> x"
  shows "file_at x s' = file_at x s"
  using movesD [OF elsewhere.target_calls(3) [OF assms(2)] assms(1)] by (simp add: elsewhere_def)

lemma take_down_runs:
  fixes s :: "'s dist_db_scheme"
  assumes run: "remove_target t dir s = (r, s')" and sib: "siblings t p b"
    and may: "\<And>x. file_at t s = Some x \<Longrightarrow> digest_is (is_mod u) x (new_digest u)"
    and spare: "file_at b s \<noteq> None \<or> \<not> du_had u \<and> file_at p s = None"
  shows "runs u (t, p, b) s s'" and "file_at p s' = file_at p s" and "file_at b s' = file_at b s"
    and "r = Inr () \<Longrightarrow> file_at t s' = None"
proof -
  note a = siblings_apart [OF sib]
  show others: "file_at p s' = file_at p s" "file_at b s' = file_at b s"
    using remove_elsewhere [OF run] a(1,2) by simp_all
  show "r = Inr () \<Longrightarrow> file_at t s' = None" using remove_target_Inr run a(7) by blast
  show "runs u (t, p, b) s s'"
  proof (cases "file_at t s")
    case None
    then show ?thesis using remove_target_nothing [OF run] others by (intro runs_same) simp
  next
    case (Some x)
    then show ?thesis using others spare may by (intro runs_step) (auto intro: slot_step.take_down)
  qed
qed

lemma unstage_runs:
  fixes s :: "'s dist_db_scheme"
  assumes run: "remove_target p dir s = (r, s')" and sib: "siblings t p b"
  shows "runs u (t, p, b) s s'" and "file_at t s' = file_at t s" and "file_at b s' = file_at b s"
    and "r = Inr () \<Longrightarrow> file_at p s' = None"
proof -
  note a = siblings_apart [OF sib]
  show others: "file_at t s' = file_at t s" "file_at b s' = file_at b s"
    using remove_elsewhere [OF run] a(3,4) by simp_all
  show "r = Inr () \<Longrightarrow> file_at p s' = None" using remove_target_Inr run a(8) by blast
  show "runs u (t, p, b) s s'"
  proof (cases "file_at p s")
    case None
    then show ?thesis using remove_target_nothing [OF run] others by (intro runs_same) simp
  next
    case (Some x)
    then show ?thesis using others by (intro runs_step) (auto intro: slot_step.unstage)
  qed
qed

lemma put_back_runs:
  fixes s :: "'s dist_db_scheme"
  assumes run: "rename_target b t dir s = (r, s')" and sib: "siblings t p b"
    and now: "file_at t s = None" "file_at b s = Some x"
  shows "runs u (t, p, b) s s'" and "r = Inr () \<Longrightarrow> file_at b s' = None"
proof -
  from sib obtain d a y z where sh: "t = d @ [a]" "b = d @ [z]" "z \<noteq> a" by (auto simp: siblings_def)
  have p: "file_at p s' = file_at p s" using swap_elsewhere [OF run] siblings_apart(1,6) [OF sib] by simp
  obtain x' where x': "alike x x'"
    "(\<exists>e. r = Inl e) \<and> file_at b s' = Some x' \<and> file_at t s' = None \<or> file_at b s' = None \<and> file_at t s' = Some x'"
    using swap_siblings [OF run sh(2,1,3) now(2,1)] by blast
  then show "r = Inr () \<Longrightarrow> file_at b s' = None" by auto
  from x' p now show "runs u (t, p, b) s s'"
    by (intro runs_step) (auto intro: slot_step.backup_mode slot_step.put_back)
qed

lemma ensure_unchanged:
  fixes s :: "'s dist_db_scheme"
  assumes "ensure_target_unchanged t u s = (r, s')"
  shows "only_steps s s'" and "r = Inr () \<Longrightarrow> file_at t s = Some x \<Longrightarrow> digest_is (is_mod u) x (new_digest u)"
proof -
  show "only_steps s s'" by (rule movesD [OF reads.unchanged assms])
  assume "r = Inr ()"
  with assms have run: "ensure_target_unchanged t u s = (Inr (), s')" by simp
  obtain there s1 where i: "inspect_target t (is_mod u) s = (Inr there, s1)"
    and rest: "(if \<not> there then return_ok () else andthen (target_digest t (is_mod u) True)
        (\<lambda>current. guard [Dist_Conflict] (current = (if is_mod u then du_tree u else du_config u)))) s1 = (Inr (), s')"
    using run unfolding ensure_target_unchanged_def by (rule andthen_InrE)
  assume x: "file_at t s = Some x"
  with inspect_Inr(1) [OF i] rest
  obtain s2 where d: "target_digest t (is_mod u) True s1 = (Inr (new_digest u), s2)"
    by (auto simp: andthen_eq_Inr_iff guard_def new_digest_def split: if_splits)
  have "file_at t s1 = Some x" using x only_steps_file [OF inspect_Inr(2) [OF i]] by simp
  with digest_Inr [OF d] show "digest_is (is_mod u) x (new_digest u)" by auto
qed

section \<open>Rolling back a mutation\<close>

lemma restored_slot:
  "holds u orig (t, None, None) \<Longrightarrow> du_had u \<or> t = None \<Longrightarrow> restored orig (t, None, None)"
  by (auto split: if_splits)

text \<open>With a backup: what is at the target goes, the backup takes its place, the stage goes.\<close>

definition undo_swap :: "mutation \<Rightarrow> path \<Rightarrow> path \<Rightarrow> path \<Rightarrow> ('s dist_db_scheme, unit) dist_act" where
  "undo_swap u target stage backup =
     andthen (ensure_target_unchanged target u) (\<lambda>_.
     andthen (remove_target target (is_mod u)) (\<lambda>_.
     andthen (rename_target backup target (is_mod u)) (\<lambda>_.
     remove_target stage (is_mod u))))"

definition undo_install :: "mutation \<Rightarrow> path \<Rightarrow> path \<Rightarrow> ('s dist_db_scheme, unit) dist_act" where
  "undo_install u target stage =
     andthen (ensure_target_unchanged target u) (\<lambda>_.
     joined (remove_target target (is_mod u)) (remove_target stage (is_mod u)))"

lemma undo_swap_runs:
  fixes s :: "'s dist_db_scheme"
  assumes run: "undo_swap u t p b s = (r, s')" and sib: "siblings t p b" and b: "file_at b s = Some x"
  shows "runs u (t, p, b) s s' \<and> (r = Inr () \<longrightarrow> file_at p s' = None \<and> file_at b s' = None)"
proof -
  obtain e1 s1 where 1: "ensure_target_unchanged t u s = (e1, s1)" by fastforce
  obtain e2 s2 where 2: "remove_target t (is_mod u) s1 = (e2, s2)" by fastforce
  obtain e3 s3 where 3: "rename_target b t (is_mod u) s2 = (e3, s3)" by fastforce
  obtain e4 s4 where 4: "remove_target p (is_mod u) s3 = (e4, s4)" by fastforce
  note same = ensure_unchanged(1) [OF 1]
  note first = runs_only_steps [OF same, of u "(t, p, b)"]
  have out: "(\<exists>e. r = Inl e) \<and> s' = s1 \<or> e1 = Inr () \<and> (\<exists>e. r = Inl e) \<and> s' = s2 \<or>
      e1 = Inr () \<and> e2 = Inr () \<and> (\<exists>e. r = Inl e) \<and> s' = s3 \<or>
      e1 = Inr () \<and> e2 = Inr () \<and> e3 = Inr () \<and> r = e4 \<and> s' = s4"
    using run 1 2 3 4 by (cases e1; cases e2; cases e3) (auto simp: undo_swap_def andthen_def)
  note down = take_down_runs [OF 2 sib, of u]
  have digest: "e1 = Inr () \<Longrightarrow> file_at t s1 = Some n \<Longrightarrow> digest_is (is_mod u) n (new_digest u)" for n
    using ensure_unchanged(2) [OF 1] only_steps_file [OF same] by metis
  have b1: "file_at b s1 = Some x" using b only_steps_file [OF same] by simp
  have second: "e1 = Inr () \<Longrightarrow> runs u (t, p, b) s s2 \<and> file_at b s2 = Some x \<and> (e2 = Inr () \<longrightarrow> file_at t s2 = None)"
    using down digest b1 runs_trans [OF first] by simp
  have third: "e1 = Inr () \<Longrightarrow> e2 = Inr () \<Longrightarrow> runs u (t, p, b) s s3 \<and> (e3 = Inr () \<longrightarrow> file_at b s3 = None)"
    using second put_back_runs [OF 3 sib] runs_trans by blast
  have "runs u (t, p, b) s3 s4" "file_at b s4 = file_at b s3" "e4 = Inr () \<Longrightarrow> file_at p s4 = None"
    using unstage_runs [OF 4 sib] by blast+
  with third have fourth: "e1 = Inr () \<Longrightarrow> e2 = Inr () \<Longrightarrow> e3 = Inr () \<Longrightarrow>
      runs u (t, p, b) s s4 \<and> (e4 = Inr () \<longrightarrow> file_at p s4 = None \<and> file_at b s4 = None)"
    using runs_trans by metis
  from out first second third fourth show ?thesis by blast
qed

lemma join_error_simps [simp]:
  "join_error failed (Inr a) = failed" "join_error None (Inl e) = Some e" "join_error (Some f) (Inl e) = Some (f @ e)"
  by (simp_all add: join_error_def)

lemma end_with_simps [simp]: "end_with None = return_ok ()" "end_with (Some e) = raise e"
  by (simp_all add: end_with_def)

lemma joined_run:
  assumes "joined m n s = (r, s')"
  obtains x s1 y where "m s = (x, s1)" "n s1 = (y, s')" "r = Inr () \<longleftrightarrow> x = Inr () \<and> y = Inr ()"
proof -
  obtain x s1 where m: "m s = (x, s1)" by fastforce
  obtain y s2 where n: "n s1 = (y, s2)" by fastforce
  from assms m n have "s' = s2 \<and> (r = Inr () \<longleftrightarrow> x = Inr () \<and> y = Inr ())"
    by (cases x; cases y) (auto simp: joined_def andthen_def attempt_def)
  with that m n show ?thesis by blast
qed

lemma undo_install_runs:
  fixes s :: "'s dist_db_scheme"
  assumes run: "undo_install u t p s = (r, s')" and sib: "siblings t p b"
    and now: "\<not> du_had u" "file_at p s = None" "file_at b s = None"
  shows "runs u (t, p, b) s s' \<and> (r = Inr () \<longrightarrow> file_at t s' = None \<and> file_at p s' = None \<and> file_at b s' = None)"
proof -
  obtain e1 s1 where 1: "ensure_target_unchanged t u s = (e1, s1)" by fastforce
  note same = ensure_unchanged(1) [OF 1]
  note first = runs_only_steps [OF same, of u "(t, p, b)"]
  show ?thesis
  proof (cases e1)
    case (Inl e)
    with run 1 first show ?thesis by (auto simp: undo_install_def andthen_def)
  next
    case (Inr a)
    with run 1 have "joined (remove_target t (is_mod u)) (remove_target p (is_mod u)) s1 = (r, s')"
      by (simp add: undo_install_def andthen_def)
    then obtain e2 s2 e3 where 2: "remove_target t (is_mod u) s1 = (e2, s2)" and 3: "remove_target p (is_mod u) s2 = (e3, s')"
      and r: "r = Inr () \<longleftrightarrow> e2 = Inr () \<and> e3 = Inr ()"
      by (rule joined_run)
    have "file_at p s1 = None" "file_at b s1 = None" using now(2,3) only_steps_file [OF same] by simp_all
    moreover have "file_at t s1 = Some n \<Longrightarrow> digest_is (is_mod u) n (new_digest u)" for n
      using ensure_unchanged(2) [OF 1] only_steps_file [OF same] Inr by (metis old.unit.exhaust)
    ultimately have second: "runs u (t, p, b) s1 s2" "file_at p s2 = None" "file_at b s2 = None"
      "e2 = Inr () \<Longrightarrow> file_at t s2 = None"
      using take_down_runs [OF 2 sib, of u] now(1) by simp_all
    have third: "runs u (t, p, b) s2 s'" "file_at t s' = file_at t s2" "file_at b s' = file_at b s2"
      "e3 = Inr () \<Longrightarrow> file_at p s' = None"
      using unstage_runs [OF 3 sib] by blast+
    from first second third r show ?thesis using runs_trans by metis
  qed
qed

text \<open>Whatever a rollback does, it runs the machine; without an error it restores.\<close>

lemma rollback_mutation_runs:
  fixes s :: "'s dist_db_scheme"
  assumes run: "rollback_mutation mg j u s = (r, s')" and paths: "mutation_paths mg j u = Inr (t, p, b)"
    and sib: "siblings t p b"
  shows "runs u (t, p, b) s s'"
    and "r = Inr () \<Longrightarrow> holds u orig (slot_at (t, p, b) s) \<Longrightarrow> restored orig (slot_at (t, p, b) s')"
proof -
  obtain x1 s1 where i1: "inspect_target b (is_mod u) s = (x1, s1)" by fastforce
  obtain x2 s2 where i2: "inspect_target p (is_mod u) s1 = (x2, s2)" by fastforce
  have o: "only_steps s s1" "only_steps s s2"
    using movesD [OF reads.reading(4) i1] movesD [OF reads.reading(4) i2] by (blast intro: only_steps_trans)+
  have unfolded: "rollback_mutation mg j u s = andthen (inspect_target b (is_mod u)) (\<lambda>backed_up.
      andthen (inspect_target p (is_mod u)) (\<lambda>staged.
        if backed_up then undo_swap u t p b
        else if \<not> du_had u \<and> \<not> staged then undo_install u t p
        else remove_target p (is_mod u))) s"
    unfolding undo_swap_def undo_install_def rollback_mutation_def by (simp add: andthen_def paths raise_left_def)
  have both: "runs u (t, p, b) s s' \<and> (r = Inr () \<longrightarrow> file_at p s' = None \<and> file_at b s' = None \<and>
      (du_had u \<or> file_at t s' = None \<or> file_at b s \<noteq> None \<or> file_at p s \<noteq> None \<and> file_at t s' = file_at t s))"
  proof (cases "\<exists>c1 c2. x1 = Inr c1 \<and> x2 = Inr c2")
    case False
    with run unfolded i1 i2 have "(\<exists>e. r = Inl e) \<and> s' \<in> {s1, s2}"
      by (cases x1; cases x2) (simp_all add: andthen_def, auto)
    with o show ?thesis by (auto intro: runs_only_steps)
  next
    case True
    then obtain c1 c2 where c: "x1 = Inr c1" "x2 = Inr c2" by blast
    have now: "c1 = (file_at b s2 \<noteq> None)" "c2 = (file_at p s2 \<noteq> None)" "file_at p s2 = file_at p s" "file_at t s2 = file_at t s"
      using inspect_Inr(1) i1 i2 c o by (metis only_steps_file)+
    have rest: "(if c1 then undo_swap u t p b else if \<not> du_had u \<and> \<not> c2 then undo_install u t p
        else remove_target p (is_mod u)) s2 = (r, s')"
      using run unfolded i1 i2 c by (simp add: andthen_def)
    note first = runs_trans [OF runs_only_steps [OF o(2), of u "(t, p, b)"]]
    consider "c1" | "\<not> c1" "\<not> du_had u \<and> \<not> c2" | "\<not> c1" "\<not> (\<not> du_had u \<and> \<not> c2)" by blast
    then show ?thesis
    proof cases
      case 1
      with now obtain x where "file_at b s2 = Some x" by auto
      with rest 1 undo_swap_runs [of u t p b s2 r s' x] sib have
        swap: "runs u (t, p, b) s2 s'" "r = Inr () \<longrightarrow> file_at p s' = None \<and> file_at b s' = None" by simp_all
      moreover have "file_at b s \<noteq> None" using 1 now(1) only_steps_file [OF o(2), of b] by simp
      ultimately show ?thesis using first by blast
    next
      case 2
      with rest now undo_install_runs [of u t p s2 r s' b] sib first show ?thesis by auto
    next
      case 3
      with rest have "remove_target p (is_mod u) s2 = (r, s')" by (simp split: if_splits)
      from unstage_runs [OF this sib] now 3 first show ?thesis by auto
    qed
  qed
  then show "runs u (t, p, b) s s'" by simp
  show "restored orig (slot_at (t, p, b) s')" if "r = Inr ()" "holds u orig (slot_at (t, p, b) s)"
    using both that runs_holds [of u "(t, p, b)" s s' orig] restored_slot [of u orig "file_at t s'"]
    by (auto split: if_splits)
qed

end
