(* ===== verification/Dist_Safety.thy ===== *)
theory Dist_Safety
  imports Dist_Rollback
begin

text \<open>
  What holds of all mutations of a journal: while none is committed, no operation loses an original, whatever fails;
  and a rollback that reports no error has restored every file and removed the journal.
\<close>

section \<open>Calls on the books\<close>

text \<open>Journals and states are kept apart from the files.\<close>

locale dist_books = dist_relation R may mk
  for R :: "'s dist_db_scheme \<Rightarrow> 's dist_db_scheme \<Rightarrow> bool" and may mk +
  assumes journals: "R s (s\<lparr>journal_files := js\<rparr>)"
    and states: "R s (s\<lparr>state_file := st\<rparr>)"
    and noted: "R s (s\<lparr>issues := es\<rparr>)"
begin

lemma write_atomic [moves_intros]: "(\<And>s. R s (f s)) \<Longrightarrow> moves R (write_atomic f)"
  unfolding write_atomic_def by (intro moves_intros)

lemma journal_calls [moves_intros]:
  "moves R (write_journal j)" "moves R (remove_journal oid)" "moves R (enter_phase ph j)"
proof -
  show writing: "moves R (write_journal j)" for j unfolding write_journal_def by (intro moves_intros journals)
  show "moves R (remove_journal oid)" unfolding remove_journal_def by (intro moves_intros journals)
  show "moves R (enter_phase ph j)" unfolding enter_phase_def by (intro moves_intros writing)
qed

end

section \<open>Journals with the same mutations\<close>

definition same_paths :: "dist_journal \<Rightarrow> dist_journal \<Rightarrow> bool" where
  "same_paths j j' \<longleftrightarrow> dj_operation j' = dj_operation j \<and> dj_mutations j' = dj_mutations j"

lemma same_paths_refl [simp]: "same_paths j j"
  by (simp add: same_paths_def)

lemma mutation_paths_same:
  assumes "same_paths j j'"
  shows "mutation_paths mg j' = mutation_paths mg j"
proof
  fix u
  have "mutation_suffix j' u = mutation_suffix j u" using assms by (simp add: mutation_suffix_def same_paths_def)
  then show "mutation_paths mg j' u = mutation_paths mg j u"
    using assms by (simp only: mutation_paths_def same_paths_def)
qed

lemma mutation_calls_same:
  assumes "same_paths j j'"
  shows "publish_mutation mg j' = publish_mutation mg j" and "rollback_mutation mg j' = rollback_mutation mg j"
  unfolding fun_eq_iff publish_mutation_def rollback_mutation_def mutation_paths_same [OF assms] by simp_all

lemma rollback_each_same:
  assumes "same_paths j j'"
  shows "rollback_each mg j' us failed = rollback_each mg j us failed"
  by (induction us arbitrary: failed) (simp_all only: rollback_each.simps mutation_calls_same [OF assms])

lemma cleanup_each_same:
  assumes "same_paths j j'"
  shows "cleanup_each mg j' us failed = cleanup_each mg j us failed"
  by (induction us arbitrary: failed) (simp_all only: cleanup_each.simps mutation_paths_same [OF assms])

section \<open>The files of the mutations\<close>

definition mutation_files :: "manager \<Rightarrow> dist_journal \<Rightarrow> mutation \<Rightarrow> path list" where
  "mutation_files mg j u = (case mutation_paths mg j u of Inl _ \<Rightarrow> [] | Inr (t, p, b) \<Rightarrow> [t, p, b])"

definition apart :: "manager \<Rightarrow> dist_journal \<Rightarrow> bool" where
  "apart mg j \<longleftrightarrow>
     (\<forall>u \<in> set (dj_mutations j). \<forall>v \<in> set (dj_mutations j). u \<noteq> v \<longrightarrow>
        (\<forall>x \<in> set (mutation_files mg j u). \<forall>y \<in> set (mutation_files mg j v). x \<parallel> y))"

lemma apart_same: "same_paths j j' \<Longrightarrow> apart mg j' = apart mg j"
  by (simp add: apart_def mutation_files_def mutation_paths_same) (simp add: same_paths_def)

definition intact :: "manager \<Rightarrow> dist_journal \<Rightarrow> (mutation \<Rightarrow> file_node option) \<Rightarrow> 's files_scheme \<Rightarrow> bool" where
  "intact mg j orig s \<longleftrightarrow>
     (\<forall>u \<in> set (dj_mutations j). case mutation_paths mg j u of Inl _ \<Rightarrow> True | Inr ps \<Rightarrow> holds u (orig u) (slot_at ps s))"

definition all_restored :: "manager \<Rightarrow> dist_journal \<Rightarrow> (mutation \<Rightarrow> file_node option) \<Rightarrow> mutation list \<Rightarrow> 's files_scheme \<Rightarrow> bool" where
  "all_restored mg j orig us s \<longleftrightarrow>
     (\<forall>u \<in> set us. case mutation_paths mg j u of Inl _ \<Rightarrow> False | Inr ps \<Rightarrow> restored (orig u) (slot_at ps s))"

lemma all_restoredE:
  assumes "all_restored mg j orig us s" and "u \<in> set us"
  obtains ps where "mutation_paths mg j u = Inr ps" "restored (orig u) (slot_at ps s)"
  using assms by (cases "mutation_paths mg j u") (auto simp: all_restored_def)

lemma intact_same: "same_paths j j' \<Longrightarrow> intact mg j' orig s = intact mg j orig s"
  by (simp add: intact_def mutation_paths_same) (simp add: same_paths_def)

text \<open>What a call keeps: the originals.\<close>

definition keeps_intact :: "manager \<Rightarrow> dist_journal \<Rightarrow> (mutation \<Rightarrow> file_node option) \<Rightarrow> 's files_scheme \<Rightarrow> 's files_scheme \<Rightarrow> bool" where
  "keeps_intact mg j orig s s' \<longleftrightarrow> (intact mg j orig s \<longrightarrow> intact mg j orig s')"

definition all_files :: "manager \<Rightarrow> dist_journal \<Rightarrow> path set" where
  "all_files mg j = (\<Union>u \<in> set (dj_mutations j). set (mutation_files mg j u))"

lemma intact_cong:
  assumes "\<And>q. q \<in> all_files mg j \<Longrightarrow> file_at q s' = file_at q s"
  shows "intact mg j orig s' = intact mg j orig s"
proof -
  have "slot_at ps s' = slot_at ps s" if "u \<in> set (dj_mutations j)" "mutation_paths mg j u = Inr ps" for u ps
  proof -
    obtain t p b where ps: "ps = (t, p, b)" by (cases ps) auto
    with that have "{t, p, b} \<subseteq> all_files mg j" by (force simp: all_files_def mutation_files_def)
    with assms ps show ?thesis by simp
  qed
  then show ?thesis by (auto simp: intact_def split: sum.splits)
qed

interpretation kept: dist_books "keeps_intact mg j orig" "\<lambda>p. \<forall>q \<in> all_files mg j. p \<parallel> q" "\<lambda>p. \<forall>q \<in> all_files mg j. \<not> prefix q p"
  for mg j orig
proof -
  have same: "keeps_intact mg j orig s s'" if "tree s' = tree s" for s s' :: "'s dist_db_scheme"
    using that intact_cong [of mg j s' s orig] by (simp add: keeps_intact_def file_at_def)
  show "dist_books (keeps_intact mg j orig) (\<lambda>p. \<forall>q \<in> all_files mg j. p \<parallel> q) (\<lambda>p. \<forall>q \<in> all_files mg j. \<not> prefix q p)"
  proof unfold_locales
    fix s :: "'s dist_db_scheme" and p f m
    show "keeps_intact mg j orig s (s\<lparr>tree := change p f (tree s)\<rparr>)" if "\<forall>q \<in> all_files mg j. p \<parallel> q"
      using that intact_cong [of mg j "s\<lparr>tree := change p f (tree s)\<rparr>" s orig]
      by (simp add: keeps_intact_def file_at_def find_change_beside)
    show "keeps_intact mg j orig s (s\<lparr>tree := change p (\<lambda>_. Some (Folder m [])) (tree s)\<rparr>)"
      if "\<forall>q \<in> all_files mg j. \<not> prefix q p" "find_node (tree s) p = None"
      using that intact_cong [of mg j "s\<lparr>tree := change p (\<lambda>_. Some (Folder m [])) (tree s)\<rparr>" s orig]
      by (simp add: keeps_intact_def file_at_def create_beside)
  next
    fix s s' :: "'s dist_db_scheme" and c
    assume "keeps_intact mg j orig (s\<lparr>cancelled := c\<rparr>) s'"
    then show "keeps_intact mg j orig s (s'\<lparr>cancelled := cancelled s\<rparr>)"
      using same [of "s\<lparr>cancelled := c\<rparr>" s] same [of "s'\<lparr>cancelled := cancelled s\<rparr>" s'] same [of s "s\<lparr>cancelled := c\<rparr>"] same [of s' "s'\<lparr>cancelled := cancelled s\<rparr>"]
      by (simp add: keeps_intact_def)
  next
    show "\<forall>q \<in> all_files mg j. (p @ r) \<parallel> q" if "\<forall>q \<in> all_files mg j. p \<parallel> q" for p r :: path
      using that elsewhere.below by blast
    show "\<forall>q \<in> all_files mg j. \<not> prefix q p" if "\<forall>q \<in> all_files mg j. \<not> prefix q (p @ r)" for p r :: path
      using that by (simp add: prefix_append)
  qed ((rule same, simp; fail) | fastforce simp: keeps_intact_def)+
qed

section \<open>One mutation leaves the others\<close>

lemma files_paths: "mutation_paths mg j u = Inr (t, p, b) \<Longrightarrow> mutation_files mg j u = [t, p, b]"
  by (simp add: mutation_files_def)

lemma elsewhere_places:
  assumes "\<forall>x \<in> set (mutation_files mg j u). x \<parallel> q"
  shows "elsewhere.places q mg j u"
  unfolding elsewhere.places_def
proof (intro allI impI)
  fix t p b
  assume "mutation_paths mg j u = Inr (t, p, b)"
  with assms have par: "t \<parallel> q" "p \<parallel> q" "b \<parallel> q" by (simp_all add: files_paths)
  have "\<not> prefix q (butlast t)" using par(1) by (metis append_butlast_last_id butlast.simps(1) parallelD2 prefix_append)
  moreover have "\<not> prefix q (p @ r)" for r using par(2) by (metis elsewhere.below parallelD2)
  ultimately show "t \<parallel> q \<and> p \<parallel> q \<and> b \<parallel> q \<and> \<not> prefix q (butlast t) \<and> (\<forall>r. \<not> prefix q (p @ r))"
    using par by simp
qed

lemma apart_places:
  assumes "apart mg j" and "u \<in> set (dj_mutations j)" and "v \<in> set (dj_mutations j)" and "u \<noteq> v"
    and "q \<in> set (mutation_files mg j v)"
  shows "elsewhere.places q mg j u"
  using assms by (intro elsewhere_places) (auto simp: apart_def)

lemma other_slot:
  fixes m :: "('s dist_db_scheme, 'a) dist_act"
  assumes m: "\<And>q. elsewhere.places q mg j u \<Longrightarrow> moves (elsewhere q) m" and run: "m s = (r, s')"
    and apart: "apart mg j" and uv: "u \<in> set (dj_mutations j)" "v \<in> set (dj_mutations j)" "u \<noteq> v"
    and ps: "mutation_paths mg j v = Inr ps"
  shows "slot_at ps s' = slot_at ps s"
proof -
  obtain t p b where ps': "ps = (t, p, b)" by (cases ps) auto
  have "file_at q s' = file_at q s" if "q \<in> {t, p, b}" for q
  proof -
    have "q \<in> set (mutation_files mg j v)" using that ps ps' by (simp add: files_paths)
    from movesD [OF m [OF apart_places [OF apart uv this]] run] show ?thesis by (simp add: elsewhere_def)
  qed
  with ps' show ?thesis by simp
qed

text \<open>A call on one mutation that keeps its original keeps all of them.\<close>

lemma one_keeps_all:
  fixes m :: "('s dist_db_scheme, 'a) dist_act"
  assumes apart: "apart mg j" and u: "u \<in> set (dj_mutations j)"
    and other: "\<And>q. elsewhere.places q mg j u \<Longrightarrow> moves (elsewhere q) m"
    and run: "m s = (r, s')"
    and own: "\<And>ps. mutation_paths mg j u = Inr ps \<Longrightarrow> holds u (orig u) (slot_at ps s) \<Longrightarrow> holds u (orig u) (slot_at ps s')"
    and intact: "intact mg j orig s"
  shows "intact mg j orig s'"
  unfolding intact_def
proof
  fix v
  assume v: "v \<in> set (dj_mutations j)"
  show "case mutation_paths mg j v of Inl _ \<Rightarrow> True | Inr ps \<Rightarrow> holds v (orig v) (slot_at ps s')"
  proof (cases "mutation_paths mg j v")
    case (Inr ps)
    with v intact have "holds v (orig v) (slot_at ps s)" by (auto simp: intact_def)
    with own Inr other_slot [OF other run apart u v _ Inr] show ?thesis by (cases "u = v") auto
  qed simp
qed

lemma running_kept:
  fixes m :: "('s dist_db_scheme, 'a) dist_act"
  assumes "manager_ok mg" and "apart mg j" and "u \<in> set (dj_mutations j)"
    and other: "\<And>q. elsewhere.places q mg j u \<Longrightarrow> moves (elsewhere q) m"
    and runs: "\<And>t p b s r s'. mutation_paths mg j u = Inr (t, p, b) \<Longrightarrow> siblings t p b \<Longrightarrow> m s = (r, s') \<Longrightarrow> runs u (t, p, b) s s'"
  shows "moves (keeps_intact mg j orig) m"
  unfolding moves_def keeps_intact_def
proof (intro allI impI)
  fix s :: "'s dist_db_scheme"
  obtain r s' where run: "m s = (r, s')" by fastforce
  assume "intact mg j orig s"
  then have "intact mg j orig s'"
  proof (rule one_keeps_all [OF assms(2,3) other run, rotated -1])
    fix ps
    assume ps: "mutation_paths mg j u = Inr ps" and h: "holds u (orig u) (slot_at ps s)"
    obtain t p b where "ps = (t, p, b)" by (cases ps) auto
    with runs [OF _ paths_siblings [OF assms(1)] run] ps have "runs u ps s s'" by simp
    with h show "holds u (orig u) (slot_at ps s')" by (rule runs_holds [rotated])
  qed
  with run show "intact mg j orig (snd (m s))" by simp
qed

lemma mutations_kept:
  assumes "manager_ok mg" and "apart mg j" and "u \<in> set (dj_mutations j)"
  shows "moves (keeps_intact mg j orig) (publish_mutation mg j u)"
    and "moves (keeps_intact mg j orig) (rollback_mutation mg j u)"
proof -
  show "moves (keeps_intact mg j orig) (publish_mutation mg j u)"
    by (rule running_kept [OF assms elsewhere.publishing]) (auto dest!: publish_mutation_run simp: runs_def)
  show "moves (keeps_intact mg j orig) (rollback_mutation mg j u)"
    by (rule running_kept [OF assms elsewhere.rolling_back]) (blast dest: rollback_mutation_runs(1))+
qed

section \<open>Publishing and rolling back a journal\<close>

lemmas kept_steps = kept.sequence kept.basic kept.environment kept.small kept.ending kept.journal_calls moves_attempt moves_cases

lemma rollback_each_kept:
  assumes "manager_ok mg" and "apart mg j" and "set us \<subseteq> set (dj_mutations j)"
  shows "moves (keeps_intact mg j orig) (rollback_each mg j us failed :: ('s dist_db_scheme, unit) dist_act)"
  using assms(3)
proof (induction us arbitrary: failed)
  case (Cons u us)
  then have "u \<in> set (dj_mutations j)" and 
    later: "\<And>f. moves (keeps_intact mg j orig) (rollback_each mg j us f :: ('s dist_db_scheme, unit) dist_act)"
    by simp_all
  then show ?case unfolding rollback_each.simps by (intro kept_steps later mutations_kept(2) [OF assms(1,2)])
qed (simp add: kept.ending)

lemma publish_each_kept:
  assumes "manager_ok mg" and "apart mg j" and "set us \<subseteq> set (dj_mutations j)" and "same_paths j j'"
  shows "moves (keeps_intact mg j orig) (publish_each mg j' us :: ('s dist_db_scheme, dist_journal) dist_act)"
  using assms(3,4)
proof (induction us arbitrary: j')
  case (Cons u us)
  from Cons.prems have "u \<in> set (dj_mutations j)" by simp
  from mutations_kept(1) [OF assms(1,2) this] have "moves (keeps_intact mg j orig) (publish_mutation mg j' u)"
    by (simp add: mutation_calls_same(1) [OF Cons.prems(2)])
  moreover have "moves (keeps_intact mg j orig) (publish_each mg (j'\<lparr>dj_next := n, dj_updated := t\<rparr>) us
      :: ('s dist_db_scheme, dist_journal) dist_act)" for n t
    using Cons by (simp add: same_paths_def)
  ultimately show ?case unfolding publish_each.simps Let_def by (intro kept_steps)
qed (simp add: kept.basic)

text \<open>A rollback that goes through restores each mutation, and later ones leave the earlier ones alone.\<close>

lemma rollback_each_fails: "rollback_each mg j us (Some e) s = (r, s') \<Longrightarrow> \<exists>e. r = Inl e"
proof (induction us arbitrary: e s)
  case (Cons u us)
  from Cons.prems show ?case
    by (auto simp: andthen_def attempt_def join_error_def split: prod.splits sum.splits intro: Cons.IH)
qed auto

lemma rollback_each_restores:
  fixes s :: "'s dist_db_scheme"
  assumes ok: "manager_ok mg" "apart mg j"
    and "rollback_each mg j us failed s = (Inr (), s')" and "set us \<subseteq> set (dj_mutations j)" and "intact mg j orig s"
  shows "all_restored mg j orig us s'"
  using assms(3-)
proof (induction us arbitrary: failed s)
  case (Cons u us)
  obtain c s1 where c: "ctx_ok s = (c, s1)" by fastforce
  obtain r s2 where r: "rollback_mutation mg j u s1 = (r, s2)" by fastforce
  have "only_steps s s1" by (rule movesD [OF reads.small(2) c])
  then have i1: "intact mg j orig s1" using Cons.prems(3) intact_cong only_steps_file by metis
  show ?case
  proof (cases "c = Inr () \<and> r = Inr ()")
    case False
    then have "\<exists>e. failed' = Some e" if "failed' = join_error (join_error failed c) r" for failed'
      using that by (cases c; cases r) (auto simp: join_error_def)
    with Cons.prems(1) c r False show ?thesis
      by (cases c; cases r) (auto simp: andthen_def attempt_def join_error_def dest: rollback_each_fails split: option.splits)
  next
    case True
    with Cons.prems(1) c r have rest: "rollback_each mg j us failed s2 = (Inr (), s')"
      by (simp add: andthen_def attempt_def)
    have i2: "intact mg j orig s2"
      using movesD [OF mutations_kept(2) [OF ok] r] Cons.prems(2) i1 by (simp add: keeps_intact_def)
    have later: "all_restored mg j orig us s'" using Cons.IH [OF rest] Cons.prems(2) i2 by simp
    from r True obtain ps where ps: "mutation_paths mg j u = Inr ps"
      by (auto simp: rollback_mutation_def andthen_def raise_left_def split: sum.splits)
    obtain t p b where tpb: "ps = (t, p, b)" by (cases ps) auto
    with ps have paths: "mutation_paths mg j u = Inr (t, p, b)" by simp
    have "restored (orig u) (slot_at ps s2)"
      using rollback_mutation_runs(2) [OF r paths paths_siblings [OF ok(1) paths]] True i1 Cons.prems(2) ps tpb
      by (auto simp: intact_def)
    moreover have "slot_at ps s' = slot_at ps s2" if "u \<notin> set us"
    proof -
      have "moves (elsewhere q) (rollback_each mg j us failed)" if "q \<in> set (mutation_files mg j u)" for q
        using apart_places [OF ok(2) _ _ _ that] Cons.prems(2) \<open>u \<notin> set us\<close> by (intro elsewhere.rolling_back_each) auto
      then have "file_at q s' = file_at q s2" if "q \<in> set (mutation_files mg j u)" for q
        using movesD [of "elsewhere q" "rollback_each mg j us failed" s2] rest that by (auto simp: elsewhere_def)
      with paths tpb show ?thesis by (simp add: files_paths)
    qed
    ultimately have "restored (orig u) (slot_at ps s')"
      using later ps by (cases "u \<in> set us") (force simp: all_restored_def)+
    with later ps show ?thesis by (simp add: all_restored_def)
  qed
qed (simp add: all_restored_def)

text \<open>Once everything is restored, the cleanup finds nothing to remove.\<close>

lemma all_filesE:
  assumes "x \<in> all_files mg j"
  obtains u t p b where "u \<in> set (dj_mutations j)" "mutation_paths mg j u = Inr (t, p, b)" "x \<in> {t, p, b}"
proof -
  from assms obtain u where u: "u \<in> set (dj_mutations j)" "x \<in> set (mutation_files mg j u)" by (auto simp: all_files_def)
  then obtain ps where "mutation_paths mg j u = Inr ps" by (cases "mutation_paths mg j u") (auto simp: mutation_files_def)
  with that u show ?thesis by (cases ps) (simp add: mutation_files_def)
qed

lemma all_files_apart:
  assumes "manager_ok mg" and "apart mg j" and "x \<in> all_files mg j" and "y \<in> all_files mg j" and "x \<noteq> y"
  shows "x \<parallel> y"
proof -
  from assms(3) obtain u t p b where u: "u \<in> set (dj_mutations j)" "mutation_paths mg j u = Inr (t, p, b)" "x \<in> {t, p, b}"
    by (rule all_filesE)
  from assms(4) obtain v t' p' b' where v: "v \<in> set (dj_mutations j)" "mutation_paths mg j v = Inr (t', p', b')" "y \<in> {t', p', b'}"
    by (rule all_filesE)
  show ?thesis
  proof (cases "u = v")
    case True
    with u v assms(5) siblings_apart [OF paths_siblings [OF assms(1) u(2)]] show ?thesis by auto
  next
    case False
    with assms(2) u v show ?thesis by (auto simp: apart_def files_paths)
  qed
qed

definition cleaned :: "manager \<Rightarrow> dist_journal \<Rightarrow> 's files_scheme \<Rightarrow> bool" where
  "cleaned mg j s \<longleftrightarrow>
     (\<forall>u \<in> set (dj_mutations j). \<forall>t p b. mutation_paths mg j u = Inr (t, p, b) \<longrightarrow> file_at p s = None \<and> file_at b s = None)"

definition same_files :: "manager \<Rightarrow> dist_journal \<Rightarrow> 's files_scheme \<Rightarrow> 's files_scheme \<Rightarrow> bool" where
  "same_files mg j s s' \<longleftrightarrow> (\<forall>q \<in> all_files mg j. file_at q s' = file_at q s)"

lemma same_files_trans: "same_files mg j s s1 \<Longrightarrow> same_files mg j s1 s2 \<Longrightarrow> same_files mg j s s2"
  by (simp add: same_files_def)

lemma same_files_slot:
  assumes "same_files mg j s s'" and "u \<in> set (dj_mutations j)" and "mutation_paths mg j u = Inr ps"
  shows "slot_at ps s' = slot_at ps s"
proof -
  obtain t p b where ps: "ps = (t, p, b)" by (cases ps) auto
  with assms(2,3) have "{t, p, b} \<subseteq> all_files mg j" by (force simp: all_files_def mutation_files_def)
  with assms(1) ps show ?thesis by (simp add: same_files_def)
qed

lemma same_files_cleaned:
  assumes "same_files mg j s s'" and "cleaned mg j s"
  shows "cleaned mg j s'"
  unfolding cleaned_def
proof (intro ballI allI impI)
  fix u t p b
  assume u: "u \<in> set (dj_mutations j)" "mutation_paths mg j u = Inr (t, p, b)"
  with same_files_slot [OF assms(1) u] assms(2) show "file_at p s' = None \<and> file_at b s' = None"
    by (simp add: cleaned_def)
qed

lemma same_files_restored:
  assumes "same_files mg j s s'" and "set us \<subseteq> set (dj_mutations j)" and "all_restored mg j orig us s"
  shows "all_restored mg j orig us s'"
  unfolding all_restored_def
proof
  fix u
  assume u: "u \<in> set us"
  with assms(3) obtain ps where ps: "mutation_paths mg j u = Inr ps" "restored (orig u) (slot_at ps s)"
    by (rule all_restoredE)
  have "u \<in> set (dj_mutations j)" using u assms(2) by blast
  from same_files_slot [OF assms(1) this ps(1)] ps
  show "case mutation_paths mg j u of Inl _ \<Rightarrow> False | Inr ps \<Rightarrow> restored (orig u) (slot_at ps s')" by simp
qed

lemma remove_absent:
  fixes s :: "'s dist_db_scheme"
  assumes "manager_ok mg" "apart mg j" and "remove_target p d s = (r, s')" and "file_at p s = None" and "p \<in> all_files mg j"
  shows "same_files mg j s s'"
  unfolding same_files_def
proof
  fix q
  assume "q \<in> all_files mg j"
  with all_files_apart [OF assms(1,2,5)] show "file_at q s' = file_at q s"
    using remove_target_nothing [OF assms(3,4)] remove_elsewhere [OF assms(3)] assms(4) by (cases "p = q") auto
qed

lemma cleanup_nothing:
  fixes s :: "'s dist_db_scheme"
  assumes ok: "manager_ok mg" "apart mg j"
    and "cleanup_each mg j us failed s = (r, s')" and "set us \<subseteq> set (dj_mutations j)" and "cleaned mg j s"
  shows "same_files mg j s s'"
  using assms(3-)
proof (induction us arbitrary: failed s)
  case (Cons u us)
  obtain x s1 where one: "andthen (raise_left (mutation_paths mg j u)) (\<lambda>(target, stage, backup).
      joined (remove_target stage (is_mod u)) (remove_target backup (is_mod u))) s = (x, s1)" by fastforce
  with Cons.prems(1) have rest: "cleanup_each mg j us (join_error failed x) s1 = (r, s')"
    by (simp add: andthen_def attempt_def)
  have first: "same_files mg j s s1"
  proof (cases "mutation_paths mg j u")
    case (Inl e)
    with one show ?thesis by (auto simp: andthen_def raise_left_def same_files_def)
  next
    case (Inr ps)
    obtain t p b where ps: "ps = (t, p, b)" by (cases ps) auto
    with one Inr have "joined (remove_target p (is_mod u)) (remove_target b (is_mod u)) s = (x, s1)"
      by (simp add: andthen_def raise_left_def)
    then obtain x1 s2 x2 where 1: "remove_target p (is_mod u) s = (x1, s2)" and 2: "remove_target b (is_mod u) s2 = (x2, s1)"
      by (rule joined_run)
    have u: "u \<in> set (dj_mutations j)" "mutation_paths mg j u = Inr (t, p, b)" using Cons.prems(2) Inr ps by auto
    then have mem: "p \<in> all_files mg j" "b \<in> all_files mg j" by (force simp: all_files_def mutation_files_def)+
    have none: "file_at p s = None" using Cons.prems(3) u by (auto simp: cleaned_def)
    have s2: "same_files mg j s s2" by (rule remove_absent [OF ok 1 none mem(1)])
    then have "file_at b s2 = None" using same_files_cleaned [OF s2 Cons.prems(3)] u unfolding cleaned_def by blast
    from same_files_trans [OF s2 remove_absent [OF ok 2 this mem(2)]] show ?thesis .
  qed
  with Cons.IH [OF rest] Cons.prems(2) same_files_cleaned [OF first Cons.prems(3)] show ?case
    by (auto intro: same_files_trans)
qed (auto simp: same_files_def end_with_def split: option.splits)

lemma restored_cleaned:
  assumes "all_restored mg j orig (dj_mutations j) s"
  shows "cleaned mg j s"
  unfolding cleaned_def
proof (intro ballI allI impI)
  fix u t p b
  assume "u \<in> set (dj_mutations j)" "mutation_paths mg j u = Inr (t, p, b)"
  with assms have "restored (orig u) (slot_at (t, p, b) s)" by (force simp: all_restored_def)
  then show "file_at p s = None \<and> file_at b s = None" by simp
qed

lemma restored_holds: "restored orig c \<Longrightarrow> du_had u = (orig \<noteq> None) \<Longrightarrow> holds u orig c"
  by (cases c) (auto split: option.splits)

lemma restored_intact:
  assumes "all_restored mg j orig (dj_mutations j) s" and "\<And>u. u \<in> set (dj_mutations j) \<Longrightarrow> du_had u = (orig u \<noteq> None)"
  shows "intact mg j orig s"
  unfolding intact_def
proof
  fix u
  assume u: "u \<in> set (dj_mutations j)"
  with assms(1) obtain ps where "mutation_paths mg j u = Inr ps" "restored (orig u) (slot_at ps s)"
    by (rule all_restoredE)
  with restored_holds assms(2) [OF u]
  show "case mutation_paths mg j u of Inl _ \<Rightarrow> True | Inr ps \<Rightarrow> holds u (orig u) (slot_at ps s)" by simp
qed

end
