(* ===== verification/Dist_Release.thy ===== *)
theory Dist_Release
  imports Dist_Safety
begin

text \<open>
  From the preparation of a release to its end: a preparation that succeeds has kept every original and written the
  only journal; until \<open>Complete\<close>, every sequence of \<open>Publish\<close>, \<open>Rollback\<close> and \<open>Recover\<close>, whatever fails in it, keeps
  them; and a rollback that succeeds after it restores everything.
\<close>

section \<open>The journal of a release\<close>

definition undecided :: "dist_phase \<Rightarrow> bool" where
  "undecided ph \<longleftrightarrow> ph \<noteq> Phase_Completing \<and> ph \<noteq> Phase_Committed"

text \<open>The one journal of a release that \<open>Complete\<close> has not touched.\<close>

definition pending :: "dist_journal \<Rightarrow> 's dist_db_scheme \<Rightarrow> bool" where
  "pending j s \<longleftrightarrow>
     (\<exists>j'. journal_files s = [(dj_operation j, Document j')] \<and> same_paths j j' \<and> undecided (dj_phase j'))"

definition keeps_pending :: "dist_journal \<Rightarrow> 's dist_db_scheme \<Rightarrow> 's dist_db_scheme \<Rightarrow> bool" where
  "keeps_pending j s s' \<longleftrightarrow> (pending j s \<longrightarrow> pending j s')"

definition same_books :: "'s dist_db_scheme \<Rightarrow> 's dist_db_scheme \<Rightarrow> bool" where
  "same_books s s' \<longleftrightarrow> journal_files s' = journal_files s \<and> state_file s' = state_file s"

interpretation books: dist_relation same_books "\<lambda>_. True" "\<lambda>_. True"
  by unfold_locales (auto simp: same_books_def)

interpretation pend: dist_relation "keeps_pending j" "\<lambda>_. True" "\<lambda>_. True" for j
  by unfold_locales (auto simp: keeps_pending_def pending_def)

lemma books_places [simp]: "books.places mg j u"
  by (simp add: books.places_def)

lemma pend_places [simp]: "pend.places mg j u"
  by (simp add: pend.places_def)

lemma sealed_same: "same_paths j j' \<Longrightarrow> same_paths j (sealed j')"
  by (simp add: same_paths_def sealed_def)

lemma put_single [simp]: "put k v [] = [(k, v)]" "put k v [(k, w)] = [(k, v)]"
  by simp_all

lemma write_journal_pending:
  assumes "same_paths j j'" and "undecided (dj_phase j')"
  shows "moves (keeps_pending j) (write_journal j')"
proof -
  have op: "dj_operation j' = dj_operation j" using assms(1) by (simp add: same_paths_def)
  have "keeps_pending j s (s\<lparr>journal_files := put (dj_operation j') (Document (sealed j')) (journal_files s)\<rparr>)" for s :: "'s dist_db_scheme"
    using sealed_same [OF assms(1)] assms(2) op by (auto simp: keeps_pending_def pending_def sealed_def)
  then show ?thesis unfolding write_journal_def write_atomic_def by (intro pend.sequence pend.basic pend.environment pend.modify)
qed

lemma enter_phase_Inr:
  "enter_phase ph j s = (Inr j', s') \<Longrightarrow> same_paths j j' \<and> dj_phase j' = ph"
  by (auto simp: enter_phase_def andthen_eq_Inr_iff Let_def same_paths_def)

lemma same_paths_trans: "same_paths j j' \<Longrightarrow> same_paths j' k \<Longrightarrow> same_paths j k"
  by (simp add: same_paths_def)

lemma enter_phase_pending:
  assumes "same_paths j j'" and "undecided ph"
  shows "moves (keeps_pending j) (enter_phase ph j')"
proof -
  have "moves (keeps_pending j) (write_journal (j'\<lparr>dj_phase := ph, dj_updated := now\<rparr>))" for now
    using assms by (intro write_journal_pending) (simp_all add: same_paths_def)
  then show ?thesis unfolding enter_phase_def Let_def by (intro pend.sequence pend.basic pend.environment)
qed

lemma publish_each_pending:
  assumes "same_paths j j'" and "undecided (dj_phase j')"
  shows "moves (keeps_pending j) (publish_each mg j' us :: ('s dist_db_scheme, dist_journal) dist_act)"
  using assms
proof (induction us arbitrary: j')
  case (Cons u us)
  have "same_paths j (j'\<lparr>dj_next := n, dj_updated := t\<rparr>)" for n t using Cons.prems by (simp add: same_paths_def)
  then have "moves (keeps_pending j) (write_journal (j'\<lparr>dj_next := n, dj_updated := t\<rparr>) :: ('s dist_db_scheme, unit) dist_act)"
    "moves (keeps_pending j) (publish_each mg (j'\<lparr>dj_next := n, dj_updated := t\<rparr>) us :: ('s dist_db_scheme, dist_journal) dist_act)" for n t
    using Cons by (auto intro!: write_journal_pending)
  then show ?case unfolding publish_each.simps Let_def
    by (intro pend.sequence pend.basic pend.environment pend.small pend.publishing pend_places)
qed (simp add: pend.basic)

lemma publish_each_Inr: "publish_each mg j us s = (Inr j', s') \<Longrightarrow> same_paths j j' \<and> dj_phase j' = dj_phase j"
proof (induction us arbitrary: j s)
  case (Cons u us)
  then show ?case by (fastforce simp: andthen_eq_Inr_iff Let_def same_paths_def)
qed (auto simp: same_paths_def)

section \<open>Publishing and rolling back one journal\<close>

text \<open>What \<open>Publish\<close> does once it has read the journal.\<close>

definition publish_rest :: "manager \<Rightarrow> dist_journal \<Rightarrow> ('s dist_db_scheme, dist_journal) dist_act" where
  "publish_rest mg j0 =
     andthen (enter_phase Phase_Publishing j0) (\<lambda>j.
     andthen (publish_each mg j (drop (nat (dj_next j)) (dj_mutations j))) (\<lambda>j'.
     enter_phase Phase_Published j'))"

lemma moves_result:
  assumes "moves R m" and "\<And>s a s'. m s = (Inr a, s') \<Longrightarrow> P a" and "\<And>a. P a \<Longrightarrow> moves R (f a)"
    and trans: "\<And>s1 s2 s3. R s1 s2 \<Longrightarrow> R s2 s3 \<Longrightarrow> R s1 s3"
  shows "moves R (andthen m f)"
  unfolding moves_def andthen_def
proof
  fix s
  obtain r s' where run: "m s = (r, s')" by fastforce
  then have first: "R s s'" by (rule movesD [OF assms(1)])
  show "R s (snd (case m s of (Inl e, s') \<Rightarrow> (Inl e, s') | (Inr a, s') \<Rightarrow> f a s'))"
  proof (cases r)
    case (Inr a)
    with run assms(2) have "P a" by blast
    then have "R s' (snd (f a s'))" using assms(3) by (simp add: moves_def)
    with first trans run Inr show ?thesis by auto
  qed (use run first in simp)
qed

lemma publish_rest_moves:
  assumes ok: "manager_ok mg" "apart mg j" and j0: "same_paths j j0"
  shows "moves (keeps_intact mg j orig) (publish_rest mg j0 :: ('s dist_db_scheme, dist_journal) dist_act)"
    and "moves (keeps_pending j) (publish_rest mg j0 :: ('s dist_db_scheme, dist_journal) dist_act)"
proof -
  let ?P = "\<lambda>j1. same_paths j j1 \<and> dj_phase j1 = Phase_Publishing"
  have P: "enter_phase Phase_Publishing j0 s = (Inr j1, s') \<Longrightarrow> ?P j1" for s :: "'s dist_db_scheme" and j1 s'
    using enter_phase_Inr same_paths_trans [OF j0] by blast
  have Q: "publish_each mg j1 us s = (Inr j2, s') \<Longrightarrow> ?P j1 \<Longrightarrow> ?P j2" for s :: "'s dist_db_scheme" and j1 us j2 s'
    using publish_each_Inr same_paths_trans by metis
  have sub: "same_paths j j1 \<Longrightarrow> set (drop n (dj_mutations j1)) \<subseteq> set (dj_mutations j)" for j1 n
    using set_drop_subset by (fastforce simp: same_paths_def)
  have u: "undecided Phase_Publishing" "undecided Phase_Published" by (simp_all add: undecided_def)
  show "moves (keeps_intact mg j orig) (publish_rest mg j0 :: ('s dist_db_scheme, dist_journal) dist_act)"
    unfolding publish_rest_def
    by (rule moves_result [where P = ?P], rule kept.journal_calls, erule P, rule kept.sequence,
        rule publish_each_kept [OF ok sub], simp, simp, rule kept.journal_calls, rule kept.trans_R)
  show "moves (keeps_pending j) (publish_rest mg j0 :: ('s dist_db_scheme, dist_journal) dist_act)"
    unfolding publish_rest_def
  proof (rule moves_result [where P = ?P])
    fix j1
    assume j1: "?P j1"
    show "moves (keeps_pending j) (andthen (publish_each mg j1 (drop (nat (dj_next j1)) (dj_mutations j1)))
        (enter_phase Phase_Published) :: ('s dist_db_scheme, dist_journal) dist_act)"
      by (rule moves_result [where P = ?P]) (use j1 Q u in \<open>auto intro: publish_each_pending enter_phase_pending pend.trans_R\<close>)
  qed (use P u j0 in \<open>auto intro: enter_phase_pending pend.trans_R\<close>)
qed

text \<open>A rollback keeps the originals, and removes the journal only once they are restored.\<close>

lemma remove_journal_outcome:
  assumes "remove_journal oid s = (r, s')"
  shows "tree s' = tree s" and "r = Inr () \<Longrightarrow> journal_files s' = put_entry oid None (journal_files s)"
    and "r = Inl e \<Longrightarrow> journal_files s' = journal_files s"
  using assms by (auto simp: remove_journal_def andthen_def external_def split: if_splits)

lemma all_restored_tree: "tree s' = tree s \<Longrightarrow> all_restored mg j orig us s' = all_restored mg j orig us s"
  by (simp add: all_restored_def slot_at_def file_at_def cong: sum.case_cong split: prod.split)

lemma intact_tree: "tree s' = tree s \<Longrightarrow> intact mg j orig s' = intact mg j orig s"
  by (rule intact_cong) (simp add: file_at_def)

lemma rollback_journal_outcome:
  fixes s :: "'s dist_db_scheme"
  assumes ok: "manager_ok mg" "apart mg j" and j0: "same_paths j j0"
    and run: "rollback_journal mg j0 s = (r, s')" and pending: "pending j s" and intact: "intact mg j orig s"
    and had: "\<And>u. u \<in> set (dj_mutations j) \<Longrightarrow> du_had u = (orig u \<noteq> None)"
  shows "intact mg j orig s' \<and>
    ((\<exists>e. r = Inl e) \<and> pending j s' \<or> r = Inr () \<and> journal_files s' = [] \<and> all_restored mg j orig (dj_mutations j) s')"
proof -
  obtain x1 s1 where 1: "enter_phase Phase_Rolling_Back j0 s = (x1, s1)" by fastforce
  have i1: "intact mg j orig s1"
    using movesD [OF kept.journal_calls(3) 1, of mg j orig] intact by (simp add: keeps_intact_def)
  have p1: "pending j s1"
    using movesD [OF enter_phase_pending [OF j0] 1] pending by (simp add: keeps_pending_def undecided_def)
  show ?thesis
  proof (cases x1)
    case (Inl e)
    with run 1 i1 p1 show ?thesis by (auto simp: rollback_journal_def andthen_def)
  next
    case (Inr j1)
    with enter_phase_Inr 1 same_paths_trans [OF j0] have j1: "same_paths j j1" by blast
    then have same: "dj_mutations j1 = dj_mutations j" "dj_operation j1 = dj_operation j" by (simp_all add: same_paths_def)
    obtain x2 s2 where 2: "rollback_each mg j (rev (dj_mutations j)) None s1 = (x2, s2)" by fastforce
    obtain x3 s3 where 3: "cleanup_each mg j (dj_mutations j) None s2 = (x3, s3)" by fastforce
    obtain x4 s4 where 4: "remove_journal (dj_operation j) s3 = (x4, s4)" by fastforce
    have out: "(\<exists>e. x2 = Inl e \<and> r = Inl e) \<and> s' = s2 \<or> x2 = Inr () \<and> (\<exists>e. x3 = Inl e \<and> r = Inl e) \<and> s' = s3 \<or>
        x2 = Inr () \<and> x3 = Inr () \<and> r = x4 \<and> s' = s4"
      using run 1 2 3 4 Inr
      by (cases x2; cases x3) (auto simp: rollback_journal_def andthen_def cleanup_artifacts_def same
          rollback_each_same [OF j1] cleanup_each_same [OF j1])
    have sub: "set (rev (dj_mutations j)) \<subseteq> set (dj_mutations j)" by simp
    have i2: "intact mg j orig s2"
      using movesD [OF rollback_each_kept [OF ok sub] 2] i1 by (simp add: keeps_intact_def)
    have p2: "pending j s2" and p3: "pending j s3"
      using movesD [OF pend.rolling_back_each 2, of j] movesD [OF pend.cleaning_up_each 3, of j] p1 by (simp_all add: keeps_pending_def)
    have r3: "all_restored mg j orig (dj_mutations j) s3" if "x2 = Inr ()"
    proof -
      from that 2 have "rollback_each mg j (rev (dj_mutations j)) None s1 = (Inr (), s2)" by simp
      from rollback_each_restores [OF ok this sub i1] have r2: "all_restored mg j orig (dj_mutations j) s2"
        by (simp add: all_restored_def)
      from cleanup_nothing [OF ok 3 order_refl restored_cleaned [OF this]]
      show ?thesis by (rule same_files_restored [OF _ order_refl r2])
    qed
    have i3: "intact mg j orig s3" if "x2 = Inr ()" using r3 that restored_intact had by blast
    note tree = remove_journal_outcome(1) [OF 4]
    have end4: "pending j s4 \<and> (\<exists>e. x4 = Inl e) \<or> x4 = Inr () \<and> journal_files s4 = []"
      using remove_journal_outcome(2,3) [OF 4] p3 by (cases x4) (auto simp: pending_def put_entry_def)
    from out i2 i3 p2 p3 r3 end4 intact_tree [OF tree] all_restored_tree [OF tree] show ?thesis by auto
  qed
qed

section \<open>What may happen before a release is complete\<close>

datatype dist_call = Call_Publish | Call_Rollback | Call_Recover

fun run_call :: "manager \<Rightarrow> string \<Rightarrow> dist_call \<Rightarrow> 's dist_db_scheme \<Rightarrow> 's dist_db_scheme" where
  "run_call mg oid Call_Publish s = snd (publish_operation mg oid s)"
| "run_call mg oid Call_Rollback s = snd (rollback mg oid s)"
| "run_call mg oid Call_Recover s = snd (recover mg s)"

definition run_calls :: "manager \<Rightarrow> string \<Rightarrow> dist_call list \<Rightarrow> 's dist_db_scheme \<Rightarrow> 's dist_db_scheme" where
  "run_calls mg oid cs s = fold (run_call mg oid) cs s"

text \<open>A release that \<open>Complete\<close> has not touched: its originals are safe, and restored once its journal is gone.\<close>

definition reversible :: "manager \<Rightarrow> dist_journal \<Rightarrow> (mutation \<Rightarrow> file_node option) \<Rightarrow> 's dist_db_scheme \<Rightarrow> bool" where
  "reversible mg j orig s \<longleftrightarrow>
     intact mg j orig s \<and> (pending j s \<or> journal_files s = [] \<and> all_restored mg j orig (dj_mutations j) s)"

lemma reversible_cong:
  assumes "tree s' = tree s" and "journal_files s' = journal_files s"
  shows "reversible mg j orig s' = reversible mg j orig s"
  using intact_tree [OF assms(1)] all_restored_tree [OF assms(1)] assms(2) by (simp add: reversible_def pending_def)

lemma read_journal_outcome:
  fixes s :: "'s dist_db_scheme"
  assumes "read_journal mg oid s = (r, s')"
  shows "tree s' = tree s" and "journal_files s' = journal_files s"
    and "r = Inr j' \<Longrightarrow> map_of (journal_files s) oid = Some (Document j')"
proof -
  have "only_steps s s'" by (rule movesD [OF reads.books_reading(1) assms])
  then show "tree s' = tree s" "journal_files s' = journal_files s" by (auto simp: only_steps_def)
  assume "r = Inr j'"
  with assms show "map_of (journal_files s) oid = Some (Document j')"
    by (auto simp: read_journal_def andthen_eq_Inr_iff check_journal_def split: option.splits document.splits if_splits sum.splits)
qed

lemma reversible_steps: "only_steps s s' \<Longrightarrow> reversible mg j orig s' = reversible mg j orig s"
  by (rule reversible_cong) (auto simp: only_steps_def)

lemma mutation_paths_error: "mutation_paths mg j u = Inl e \<Longrightarrow> e = [Dist_Integrity] \<or> e = [Dist_Unsafe]"
  by (auto simp: mutation_paths_def Let_def split: if_splits option.splits)

lemma check_mutations_error: "check_mutations mg j i us = Inl e \<Longrightarrow> e = [Dist_Integrity] \<or> e = [Dist_Unsafe]"
  by (induction mg j i us rule: check_mutations.induct)
    (auto split: if_splits sum.splits dest: mutation_paths_error)

lemma read_journal_exists:
  fixes s :: "'s dist_db_scheme"
  assumes "read_journal mg oid s = (Inl e, s')" and "map_of (journal_files s) oid \<noteq> None"
  shows "\<not> is_not_exist e"
proof -
  obtain d where d: "map_of (journal_files s) oid = Some d" using assms(2) by blast
  have "check_journal mg oid j = Inl e \<Longrightarrow> \<not> is_not_exist e" for j
    by (auto simp: check_journal_def is_not_exist_def split: if_splits sum.splits dest: check_mutations_error)
  with assms(1) d show ?thesis
    by (cases d) (auto simp: read_journal_def andthen_eq_Inl_iff guard_def external_def is_not_exist_def split: if_splits)
qed

lemma reversible_read:
  fixes s :: "'s dist_db_scheme"
  assumes "reversible mg j orig s" and "read_journal mg oid s = (Inr j', s')"
  shows "same_paths j j'" and "undecided (dj_phase j')" and "pending j s'" and "intact mg j orig s'"
  using read_journal_outcome [OF assms(2)] assms(1) intact_tree [of s' s]
  by (auto simp: reversible_def pending_def split: if_splits)

lemma reversible_rollback:
  fixes s :: "'s dist_db_scheme"
  assumes ok: "manager_ok mg" "apart mg j" and had: "\<And>u. u \<in> set (dj_mutations j) \<Longrightarrow> du_had u = (orig u \<noteq> None)"
    and rev: "reversible mg j orig s" and run: "rollback mg oid s = (r, s')"
  shows "reversible mg j orig s'" and "oid = dj_operation j \<Longrightarrow> r = Inr () \<Longrightarrow> journal_files s' = []"
proof -
  obtain x s1 where x: "read_journal mg oid s = (x, s1)" by fastforce
  note read = read_journal_outcome(1,2) [OF x]
  have both: "reversible mg j orig s' \<and> (oid = dj_operation j \<and> r = Inr () \<longrightarrow> journal_files s' = [])"
  proof (cases x)
    case (Inl e)
    with run x have s': "s' = s1" "r = Inr () \<longrightarrow> is_not_exist e"
      by (auto simp: rollback_def andthen_def attempt_def split: if_splits)
    have "journal_files s = []" if "oid = dj_operation j" "r = Inr ()"
    proof (rule ccontr)
      assume "journal_files s \<noteq> []"
      with rev that(1) obtain j' where "map_of (journal_files s) oid = Some (Document j')"
        by (auto simp: reversible_def pending_def)
      with read_journal_exists [of mg oid s e s1] x Inl s'(2) that(2) show False by simp
    qed
    with s' read reversible_cong rev show ?thesis by metis
  next
    case (Inr j')
    with run x have rest: "rollback_journal mg j' s1 = (r, s')" by (simp add: rollback_def andthen_def attempt_def)
    from x Inr have "read_journal mg oid s = (Inr j', s1)" by simp
    note j' = reversible_read [OF rev this]
    from rollback_journal_outcome [OF ok j'(1) rest j'(3,4) had] show ?thesis by (auto simp: reversible_def)
  qed
  then show "reversible mg j orig s'" "oid = dj_operation j \<Longrightarrow> r = Inr () \<Longrightarrow> journal_files s' = []" by simp_all
qed

lemma reversible_publish:
  fixes s :: "'s dist_db_scheme"
  assumes ok: "manager_ok mg" "apart mg j" and rev: "reversible mg j orig s" and run: "publish_operation mg oid s = (r, s')"
  shows "reversible mg j orig s'"
proof -
  obtain x s1 where x: "read_journal mg oid s = (x, s1)" by fastforce
  show ?thesis
  proof (cases x)
    case (Inl e)
    with run x have "s' = s1" by (auto simp: publish_operation_def andthen_def)
    with read_journal_outcome(1,2) [OF x] reversible_cong rev show ?thesis by metis
  next
    case (Inr j0)
    with x have "read_journal mg oid s = (Inr j0, s1)" by simp
    note j0 = reversible_read [OF rev this]
    have "(if dj_phase j0 = Phase_Published then return_ok j0
        else andthen (guard [Dist_Conflict] (dj_phase j0 = Phase_Prepared \<or> dj_phase j0 = Phase_Publishing))
          (\<lambda>_. publish_rest mg j0)) s1 = (r, s')"
      using run x Inr unfolding publish_operation_def publish_rest_def by (simp add: andthen_Inr)
    then consider "s' = s1" | "publish_rest mg j0 s1 = (r, s')"
      by (auto simp: andthen_def guard_def split: if_splits)
    then have "pending j s' \<and> intact mg j orig s'"
    proof cases
      case 2
      from movesD [OF publish_rest_moves(1) [OF ok j0(1)] 2] movesD [OF publish_rest_moves(2) [OF ok j0(1)] 2] j0(3,4)
      show ?thesis by (simp add: keeps_pending_def keeps_intact_def)
    qed (use j0 in simp)
    then show ?thesis by (simp add: reversible_def)
  qed
qed

lemma reversible_recover_journal:
  fixes s :: "'s dist_db_scheme"
  assumes ok: "manager_ok mg" "apart mg j" and had: "\<And>u. u \<in> set (dj_mutations j) \<Longrightarrow> du_had u = (orig u \<noteq> None)"
    and rev: "reversible mg j orig s" and run: "recover_journal mg oid s = (r, s')"
  shows "reversible mg j orig s'"
proof -
  obtain x s1 where x: "read_journal mg oid s = (x, s1)" by fastforce
  show ?thesis
  proof (cases x)
    case (Inl e)
    with run x have "s' = s1" by (auto simp: recover_journal_def andthen_def attempt_def)
    with read_journal_outcome(1,2) [OF x] reversible_cong rev show ?thesis by metis
  next
    case (Inr j0)
    with x have "read_journal mg oid s = (Inr j0, s1)" by simp
    note j0 = reversible_read [OF rev this]
    obtain y s2 where rest: "rollback_journal mg j0 s1 = (y, s2)" by fastforce
    with run x Inr j0(2) have "s' = s2"
      by (auto simp: recover_journal_def andthen_def attempt_def undecided_def)
    with rollback_journal_outcome [OF ok j0(1) rest j0(3,4) had] show ?thesis by (auto simp: reversible_def)
  qed
qed

lemma reversible_recover_journals:
  fixes s :: "'s dist_db_scheme"
  assumes ok: "manager_ok mg" "apart mg j" and had: "\<And>u. u \<in> set (dj_mutations j) \<Longrightarrow> du_had u = (orig u \<noteq> None)"
  shows "reversible mg j orig s \<Longrightarrow> recover_journals mg oids results failed s = (r, s') \<Longrightarrow> reversible mg j orig s'"
proof (induction oids arbitrary: results failed s)
  case (Cons oid oids)
  obtain c s1 where c: "ctx_ok s = (c, s1)" by fastforce
  then have s1: "reversible mg j orig s1"
    using Cons.prems(1) reversible_steps [OF movesD [OF reads.small(2) c]] by simp
  obtain x s2 where x: "recover_journal mg oid s1 = (x, s2)" by fastforce
  note s2 = reversible_recover_journal [OF ok had s1 x]
  from Cons.prems(2) c x have "s' = s1 \<or> s' = s2 \<or> (\<exists>r'. recover_journals mg oids (results @ [r']) (failed @ dr_error r') s2 = (r, s'))"
    by (cases c; cases x) (auto simp: andthen_def attempt_def)
  with s1 s2 Cons.IH [OF s2] show ?case by auto
qed auto

lemma reversible_recover:
  fixes s :: "'s dist_db_scheme"
  assumes ok: "manager_ok mg" "apart mg j" and had: "\<And>u. u \<in> set (dj_mutations j) \<Longrightarrow> du_had u = (orig u \<noteq> None)"
    and rev: "reversible mg j orig s" and run: "recover mg s = (r, s')"
  shows "reversible mg j orig s'"
proof -
  obtain w s0 where w: "external [File_Failed Input_Output] s = (w :: dist_errs + unit, s0)" by fastforce
  then have s0: "reversible mg j orig s0"
    using rev reversible_steps [OF movesD [OF reads.environment(1) w]] by simp
  obtain x s1 where x: "recover_journals mg (map fst (journal_files s0)) [] [] s0 = (x, s1)" by fastforce
  note s1 = reversible_recover_journals [OF ok had s0 x]
  have "tree s' = tree s1 \<and> journal_files s' = journal_files s1 \<or> s' = s0"
    using run w x by (cases w; cases x) (auto simp: recover_def andthen_def split: prod.splits)
  with s0 s1 reversible_cong show ?thesis by metis
qed

lemma reversible_calls:
  fixes s :: "'s dist_db_scheme"
  assumes ok: "manager_ok mg" "apart mg j" and had: "\<And>u. u \<in> set (dj_mutations j) \<Longrightarrow> du_had u = (orig u \<noteq> None)"
  shows "reversible mg j orig s \<Longrightarrow> reversible mg j orig (run_calls mg oid cs s)"
proof (induction cs arbitrary: s)
  case (Cons c cs)
  have "reversible mg j orig (run_call mg oid c s)"
    using reversible_publish [OF ok Cons.prems] reversible_rollback(1) [OF ok had Cons.prems] reversible_recover [OF ok had Cons.prems]
    by (cases c) (simp_all add: prod_eq_iff)
  with Cons.IH show ?case by (simp add: run_calls_def)
qed (simp add: run_calls_def)

end
