(* ===== verification/Dist_Prepare.thy ===== *)
theory Dist_Prepare
  imports Dist_Release
begin

text \<open>
  What a preparation that succeeds leaves behind: the mutations say truly whether their targets existed, no target has
  changed, nothing stands in a backup, and the journal is the only one.
\<close>

section \<open>What the mutations note\<close>

definition noted :: "manager \<Rightarrow> 's files_scheme \<Rightarrow> mutation \<Rightarrow> bool" where
  "noted mg s u \<longleftrightarrow>
     (\<forall>inst t word root. map_of (mg_installations mg) (du_installation u) = Some inst \<longrightarrow>
        mutation_place inst u = Some (t, word, root) \<longrightarrow> du_had u = (file_at t s \<noteq> None))"

lemma noted_steps: "only_steps s s' \<Longrightarrow> noted mg s' u = noted mg s u"
  by (simp add: noted_def only_steps_file)

lemma noted_index [simp]: "noted mg s (u\<lparr>du_index := n\<rparr>) = noted mg s u"
proof -
  have "mutation_place inst (u\<lparr>du_index := n\<rparr>) = mutation_place inst u" for inst
    unfolding mutation_place_def by (cases "du_kind u") (simp_all cong: option.case_cong)
  then show ?thesis by (simp add: noted_def)
qed

lemma noted_paths:
  assumes "noted mg s u" and "mutation_paths mg j u = Inr (t, p, b)"
  shows "du_had u = (file_at t s \<noteq> None)"
  using assms by (auto simp: noted_def mutation_paths_def Let_def split: if_splits option.splits prod.splits)

text \<open>A mutation built from an inspection of its target.\<close>

lemma noted_mod:
  assumes "\<And>i. map_of (mg_installations mg) iid = Some i \<Longrightarrow> i = inst" and "had = (file_at (mod_target inst w) s \<noteq> None)"
  shows "noted mg s ((new_mutation Mutate_Mod iid [] original had)\<lparr>du_workshop := w, du_tree := h\<rparr>)"
  using assms by (auto simp: noted_def new_mutation_def mutation_place_def split: if_splits)

lemma noted_file:
  assumes "\<And>i. map_of (mg_installations mg) iid = Some i \<Longrightarrow> i = inst" and "had = (file_at p s \<noteq> None)"
  shows "p = setup_path inst \<Longrightarrow> noted mg s (new_mutation Mutate_Setup iid config original had)"
    and "di_manifest inst = Some p \<Longrightarrow> noted mg s (new_mutation Mutate_Manifest iid config original had)"
    and "p = overrides_path inst room world \<Longrightarrow>
      noted mg s ((new_mutation Mutate_Overrides iid config original had)\<lparr>du_room_dir := room, du_world_dir := world\<rparr>)"
  using assms by (auto simp: noted_def new_mutation_def mutation_place_def split: if_splits option.splits)

lemma mod_mutations_noted:
  fixes s :: "'s dist_db_scheme"
  assumes inst: "\<And>i. map_of (mg_installations mg) iid = Some i \<Longrightarrow> i = inst"
  shows "mod_mutations inst iid known ms s = (Inr us, s') \<Longrightarrow> u \<in> set us \<Longrightarrow> noted mg s u"
proof (induction ms arbitrary: s us s')
  case (Cons m ms)
  let ?t = "mod_target inst (dv_workshop m)"
  obtain had s1 where i: "inspect_target ?t True s = (Inr had, s1)" and
    rest: "(if had \<and> map_of known (dv_workshop m) = Some (dv_tree m) then mod_mutations inst iid known ms
      else andthen (target_digest ?t True had) (\<lambda>original.
        andthen (mod_mutations inst iid known ms) (\<lambda>us.
          return_ok (if original = dv_tree m then us
            else (new_mutation Mutate_Mod iid [] original had)\<lparr>du_workshop := dv_workshop m, du_tree := dv_tree m\<rparr> # us)))) s1 = (Inr us, s')"
    using Cons.prems(1) unfolding mod_mutations.simps Let_def by (rule andthen_InrE)
  note had = inspect_Inr(1,2) [OF i]
  show ?case
  proof (cases "had \<and> map_of known (dv_workshop m) = Some (dv_tree m)")
    case True
    with rest Cons.IH [of s1 us] Cons.prems(2) noted_steps [OF had(2)] show ?thesis by simp
  next
    case False
    with rest obtain original s2 where d: "target_digest ?t True had s1 = (Inr original, s2)" and
      rest2: "andthen (mod_mutations inst iid known ms) (\<lambda>us.
          return_ok (if original = dv_tree m then us
            else (new_mutation Mutate_Mod iid [] original had)\<lparr>du_workshop := dv_workshop m, du_tree := dv_tree m\<rparr> # us)) s2 = (Inr us, s')"
      by (auto elim: andthen_InrE)
    then obtain vs s3 where vs: "mod_mutations inst iid known ms s2 = (Inr vs, s3)" and
      us: "us = (if original = dv_tree m then vs
            else (new_mutation Mutate_Mod iid [] original had)\<lparr>du_workshop := dv_workshop m, du_tree := dv_tree m\<rparr> # vs)"
      by (auto simp: andthen_eq_Inr_iff)
    have "only_steps s s2" using had(2) movesD [OF reads.reading(5) d] by (rule only_steps_trans)
    with Cons.IH [OF vs] noted_steps have "u \<in> set vs \<Longrightarrow> noted mg s u" by blast
    with Cons.prems(2) us noted_mod [OF inst had(1)] show ?thesis by (auto split: if_splits)
  qed
qed simp

lemma managed_mutation_noted:
  fixes s :: "'s dist_db_scheme"
  assumes run: "managed_mutation p kind iid content base s = (Inr us, s')" and u: "u \<in> set us"
    and noted: "\<And>config original. noted mg s (new_mutation kind iid config original (file_at p s \<noteq> None))"
  shows "noted mg s u"
proof -
  obtain had s1 where i: "inspect_target p False s = (Inr had, s1)" and
    rest: "andthen (target_digest p False had) (\<lambda>original. andthen (guard [Dist_Conflict] (original = base)) (\<lambda>_.
      return_ok (if original \<noteq> hash_bytes content then [new_mutation kind iid (hash_bytes content) original had] else []))) s1 = (Inr us, s')"
    using run unfolding managed_mutation_def by (rule andthen_InrE)
  with u obtain original where "u = new_mutation kind iid (hash_bytes content) original had"
    by (auto simp: andthen_eq_Inr_iff split: if_splits)
  with noted inspect_Inr(1) [OF i] show ?thesis by simp
qed

lemma shard_mutations_noted:
  fixes s :: "'s dist_db_scheme"
  assumes inst: "\<And>i. map_of (mg_installations mg) iid = Some i \<Longrightarrow> i = inst"
  shows "shard_mutations inst iid rs s = (Inr us, s') \<Longrightarrow> u \<in> set us \<Longrightarrow> noted mg s u"
proof (induction rs arbitrary: s us s')
  case (Cons r rs)
  let ?t = "overrides_path inst (ds_room_dir r) (ds_world_dir r)"
  let ?u = "\<lambda>original had. (new_mutation Mutate_Overrides iid (hash_bytes (ds_overrides r)) original had)
      \<lparr>du_room_dir := ds_room_dir r, du_world_dir := ds_world_dir r\<rparr>"
  obtain had s1 where i: "inspect_target ?t False s = (Inr had, s1)" and
    rest: "andthen (target_digest ?t False had) (\<lambda>original. andthen (shard_mutations inst iid rs) (\<lambda>us.
        return_ok (if original = hash_bytes (ds_overrides r) then us else ?u original had # us))) s1 = (Inr us, s')"
    using Cons.prems(1) unfolding shard_mutations.simps Let_def by (rule andthen_InrE)
  obtain original s2 where d: "target_digest ?t False had s1 = (Inr original, s2)" and
    rest2: "andthen (shard_mutations inst iid rs) (\<lambda>us.
        return_ok (if original = hash_bytes (ds_overrides r) then us else ?u original had # us)) s2 = (Inr us, s')"
    using rest by (rule andthen_InrE)
  then obtain vs s3 where vs: "shard_mutations inst iid rs s2 = (Inr vs, s3)" and
    us: "us = (if original = hash_bytes (ds_overrides r) then vs else ?u original had # vs)"
    by (auto simp: andthen_eq_Inr_iff)
  note had = inspect_Inr(1,2) [OF i]
  have "only_steps s s2" using had(2) movesD [OF reads.reading(5) d] by (rule only_steps_trans)
  with Cons.IH [OF vs] noted_steps have "u \<in> set vs \<Longrightarrow> noted mg s u" by blast
  with Cons.prems(2) us noted_file(3) [OF inst had(1)] show ?case by (auto split: if_splits)
qed simp

lemma installation_mutations_noted:
  fixes s :: "'s dist_db_scheme"
  assumes run: "installation_mutations mg mode states g s = (Inr us, s')" and u: "u \<in> set us"
  shows "noted mg s u"
proof -
  define iid inst where id: "iid = dp_installation g" "inst = the (map_of (mg_installations mg) iid)"
  have inst: "map_of (mg_installations mg) iid = Some i \<Longrightarrow> i = inst" for i by (simp add: id(2))
  define known where "known = (case map_of states iid of None \<Rightarrow> [] | Some st \<Rightarrow> dt_mods st)"
  obtain mods s1 where m: "mod_mutations inst iid known (dp_mods g) s = (Inr mods, s1)" and
    rest: "andthen (case di_manifest inst of None \<Rightarrow> return_ok []
        | Some p \<Rightarrow> managed_mutation p Mutate_Manifest iid (dp_manifest g) (dp_manifest_base g)) (\<lambda>manifest.
      if mode = Content_Mode then return_ok (mods @ manifest)
      else andthen (managed_mutation (setup_path inst) Mutate_Setup iid (dp_setup g) (dp_setup_base g)) (\<lambda>sets.
        andthen (shard_mutations inst iid (dp_shards g)) (\<lambda>shards. return_ok (mods @ manifest @ sets @ shards)))) s1 = (Inr us, s')"
    using run unfolding installation_mutations_def Let_def id known_def by (rule andthen_InrE)
  obtain manifest s2 where f: "(case di_manifest inst of None \<Rightarrow> return_ok []
        | Some p \<Rightarrow> managed_mutation p Mutate_Manifest iid (dp_manifest g) (dp_manifest_base g)) s1 = (Inr manifest, s2)" and
    rest2: "(if mode = Content_Mode then return_ok (mods @ manifest)
      else andthen (managed_mutation (setup_path inst) Mutate_Setup iid (dp_setup g) (dp_setup_base g)) (\<lambda>sets.
        andthen (shard_mutations inst iid (dp_shards g)) (\<lambda>shards. return_ok (mods @ manifest @ sets @ shards)))) s2 = (Inr us, s')"
    using rest by (rule andthen_InrE)
  have o1: "only_steps s s1" by (rule movesD [OF reads.mutations_reading(1) m])
  have "moves only_steps ((case di_manifest inst of None \<Rightarrow> return_ok []
        | Some p \<Rightarrow> managed_mutation p Mutate_Manifest iid (dp_manifest g) (dp_manifest_base g)) :: ('s dist_db_scheme, mutation list) dist_act)"
    by (intro reads.mutations_reading reads.basic moves_cases)
  with f o1 have o2: "only_steps s s2" by (blast dest: movesD intro: only_steps_trans)
  have mods: "u \<in> set mods \<Longrightarrow> noted mg s u" by (rule mod_mutations_noted [OF inst m])
  have manifest: "noted mg s u" if "u \<in> set manifest"
  proof (cases "di_manifest inst")
    case (Some p)
    with f have run: "managed_mutation p Mutate_Manifest iid (dp_manifest g) (dp_manifest_base g) s1 = (Inr manifest, s2)" by simp
    from managed_mutation_noted [OF this that] noted_file(2) [OF inst refl Some] noted_steps [OF o1] show ?thesis by blast
  qed (use f that in simp)
  show ?thesis
  proof (cases "mode = Content_Mode")
    case True
    with rest2 u mods manifest show ?thesis by auto
  next
    case False
    with rest2 obtain sets s3 shards s4 where
      e: "managed_mutation (setup_path inst) Mutate_Setup iid (dp_setup g) (dp_setup_base g) s2 = (Inr sets, s3)" and
      h: "shard_mutations inst iid (dp_shards g) s3 = (Inr shards, s4)" and us: "us = mods @ manifest @ sets @ shards"
      by (auto simp: andthen_eq_Inr_iff)
    have o3: "only_steps s s3" using o2 movesD [OF reads.mutations_reading(2) e] by (rule only_steps_trans)
    have "u \<in> set sets \<Longrightarrow> noted mg s u"
      using managed_mutation_noted [OF e] noted_file(1) [OF inst] noted_steps [OF o2] by blast
    moreover have "u \<in> set shards \<Longrightarrow> noted mg s u"
      using shard_mutations_noted [OF inst h] noted_steps [OF o3] by blast
    ultimately show ?thesis using mods manifest us u by auto
  qed
qed

lemma build_mutations_noted:
  fixes s :: "'s dist_db_scheme"
  assumes run: "build_mutations mg p s = (Inr us, s')" and u: "u \<in> set us"
  shows "noted mg s u"
proof -
  have all: "all_mutations mg mode states gs t = (Inr vs, t') \<Longrightarrow> v \<in> set vs \<Longrightarrow> noted mg t v"
    for mode states gs and t t' :: "'s dist_db_scheme" and v vs
  proof (induction gs arbitrary: t vs t')
    case (Cons g gs)
    then obtain xs t1 ys where x: "installation_mutations mg mode states g t = (Inr xs, t1)"
      and y: "all_mutations mg mode states gs t1 = (Inr ys, t')" and vs: "vs = xs @ ys"
      by (auto simp: andthen_eq_Inr_iff)
    from Cons.IH [OF y] noted_steps [OF movesD [OF reads.mutations_reading(4) x]] installation_mutations_noted [OF x]
    show ?case using Cons.prems(2) vs by auto
  qed simp
  obtain states s1 where st: "states_or_none s = (Inr states, s1)" and
    rest: "andthen (all_mutations mg (dn_mode p) states (dn_installations p)) (\<lambda>us. return_ok (number_mutations us)) s1 = (Inr us, s')"
    using run unfolding build_mutations_def by (rule andthen_InrE)
  then obtain vs where vs: "all_mutations mg (dn_mode p) states (dn_installations p) s1 = (Inr vs, s')" and us: "us = number_mutations vs"
    by (auto simp: andthen_eq_Inr_iff)
  have "moves only_steps (states_or_none :: ('s dist_db_scheme, (string \<times> installation_state) list) dist_act)" unfolding states_or_none_def
    by (intro reads.books_reading reads.sequence reads.basic moves_attempt moves_cases)
  with st have "only_steps s s1" by (blast dest: movesD)
  moreover obtain i v where v: "(i, v) \<in> set (enumerate 0 vs)" "u = v\<lparr>du_index := int i\<rparr>"
    using u us by (auto simp: number_mutations_def)
  moreover from v(1) have "v \<in> set vs" by (auto simp: in_set_enumerate_eq)
  ultimately show ?thesis using all [OF vs, of v] noted_steps [of s s1] by simp
qed

section \<open>Staging\<close>

lemma stage_mutation_frame:
  fixes s :: "'s dist_db_scheme"
  assumes ok: "manager_ok mg" "apart mg j" and u: "u \<in> set (dj_mutations j)" and v: "v \<in> set (dj_mutations j)"
    and paths: "mutation_paths mg j v = Inr (t, p, b)" and run: "stage_mutation mg j u s = (r, s')"
  shows "file_at t s' = file_at t s \<and> file_at b s' = file_at b s"
proof -
  have "moves (elsewhere q) (stage_mutation mg j u :: ('s dist_db_scheme, unit) dist_act)" if q: "q = t \<or> q = b" for q
  proof (rule elsewhere.staging)
    fix t' p' b'
    assume u': "mutation_paths mg j u = Inr (t', p', b')"
    have own: "p \<noteq> q" "t \<noteq> []" using siblings_apart [OF paths_siblings [OF ok(1) paths]] q by auto
    have mem: "q \<in> all_files mg j" "p' \<in> all_files mg j" "t' \<in> all_files mg j"
      using q paths v u u' by (force simp: all_files_def mutation_files_def)+
    have "p' \<noteq> q"
    proof (cases "u = v")
      case False
      with ok(2) u v q paths u' have "p' \<parallel> q" by (auto simp: apart_def files_paths)
      then show ?thesis by auto
    qed (use own(1) paths u' in simp)
    then have par: "p' \<parallel> q" using all_files_apart [OF ok mem(2,1)] by simp
    have "\<not> prefix q (butlast t')"
    proof (cases "t' = q")
      case True
      have "length (butlast t') < length t'" using siblings_apart(7) [OF paths_siblings [OF ok(1) u']] by simp
      then show ?thesis using True prefix_length_le [of q "butlast t'"] by auto
    next
      case False
      then have "t' \<parallel> q" using all_files_apart [OF ok mem(3,1)] by simp
      then show ?thesis by (metis append_butlast_last_id butlast.simps(1) parallelD2 prefix_append)
    qed
    moreover have "\<not> prefix q (p' @ x)" for x using par by (metis elsewhere.below parallelD2)
    ultimately show "p' \<parallel> q \<and> \<not> prefix q (butlast t') \<and> (\<forall>x. \<not> prefix q (p' @ x))" using par by blast
  qed
  from movesD [OF this run] show ?thesis by (simp add: elsewhere_def)
qed

lemma stage_mutation_Inr:
  fixes s :: "'s dist_db_scheme"
  assumes "stage_mutation mg j u s = (Inr (), s')"
  shows "\<exists>t p b. mutation_paths mg j u = Inr (t, p, b) \<and> file_at b s = None"
proof -
  obtain ps where ps: "mutation_paths mg j u = Inr ps"
    using assms by (cases "mutation_paths mg j u") (auto simp: stage_mutation_def andthen_def raise_left_def)
  obtain t p b where tpb: "ps = (t, p, b)" by (cases ps) auto
  with assms ps have "andthen (must_be_absent p) (\<lambda>_. andthen (must_be_absent b) (\<lambda>_.
      andthen (sys (mkdir_all (butlast t) 488)) (\<lambda>_. andthen (reject_links (butlast t)) (\<lambda>_.
      if is_mod u then stage_mod mg u p else stage_file mg j u p)))) s = (Inr (), s')"
    by (simp add: stage_mutation_def andthen_def raise_left_def)
  then obtain s1 s2 where 1: "must_be_absent p s = (Inr (), s1)" and 2: "must_be_absent b s1 = (Inr (), s2)"
    by (auto elim!: andthen_InrE)
  from 2 lstat_Inr(1) have "file_at b s1 = None"
    by (fastforce simp: must_be_absent_def andthen_eq_Inr_iff guard_def split: if_splits)
  with only_steps_file [OF movesD [OF reads.reading(7) 1]] ps tpb show ?thesis by simp
qed

lemma stage_each_Inr:
  fixes s :: "'s dist_db_scheme"
  assumes ok: "manager_ok mg" "apart mg j"
    and "stage_each mg j us s = (Inr (), s')" and "set us \<subseteq> set (dj_mutations j)"
  shows "(\<forall>v \<in> set (dj_mutations j). \<forall>t p b. mutation_paths mg j v = Inr (t, p, b) \<longrightarrow>
      file_at t s' = file_at t s \<and> file_at b s' = file_at b s) \<and>
    (\<forall>u \<in> set us. \<exists>t p b. mutation_paths mg j u = Inr (t, p, b) \<and> file_at b s = None)"
  using assms(3,4)
proof (induction us arbitrary: s)
  case (Cons u us)
  then obtain s1 s2 where c: "ctx_ok s = (Inr (), s1)" and u: "stage_mutation mg j u s1 = (Inr (), s2)"
    and rest: "stage_each mg j us s2 = (Inr (), s')"
    by (auto simp: andthen_eq_Inr_iff)
  note s1 = only_steps_file [OF movesD [OF reads.small(2) c]]
  have sub: "u \<in> set (dj_mutations j)" "set us \<subseteq> set (dj_mutations j)" using Cons.prems(2) by auto
  have frame: "file_at t s2 = file_at t s \<and> file_at b s2 = file_at b s"
    if "v \<in> set (dj_mutations j)" "mutation_paths mg j v = Inr (t, p, b)" for v t p b
    using stage_mutation_frame [OF ok sub(1) that u] s1 by simp
  note later = Cons.IH [OF rest sub(2)]
  have "\<exists>t p b. mutation_paths mg j u = Inr (t, p, b) \<and> file_at b s = None"
    using stage_mutation_Inr [OF u] s1 by simp
  moreover have "\<exists>t p b. mutation_paths mg j x = Inr (t, p, b) \<and> file_at b s = None" if x: "x \<in> set us" for x
  proof -
    from later x obtain t p b where tpb: "mutation_paths mg j x = Inr (t, p, b)" "file_at b s2 = None" by blast
    with frame x sub(2) show ?thesis by (metis subsetD)
  qed
  moreover have "file_at t s' = file_at t s \<and> file_at b s' = file_at b s"
    if "v \<in> set (dj_mutations j)" "mutation_paths mg j v = Inr (t, p, b)" for v t p b
    using frame [OF that] later that by metis
  ultimately show ?case by simp
qed simp

section \<open>Preparing\<close>

text \<open>What stood at the target of a mutation.\<close>

definition original :: "manager \<Rightarrow> dist_journal \<Rightarrow> 's files_scheme \<Rightarrow> mutation \<Rightarrow> file_node option" where
  "original mg j s u = (case mutation_paths mg j u of Inl _ \<Rightarrow> None | Inr (t, _, _) \<Rightarrow> file_at t s)"

lemma write_journal_Inr:
  assumes "write_journal j s = (Inr x, s')"
  shows "tree s' = tree s" and "journal_files s' = put (dj_operation j) (Document (sealed j)) (journal_files s)"
  using assms by (auto simp: write_journal_def write_atomic_def andthen_eq_Inr_iff)

lemma or_rollback_Inr:
  assumes "or_rollback mg j m s = (Inr a, s')"
  shows "m s = (Inr a, s')"
proof -
  obtain x s1 where "m s = (x, s1)" by fastforce
  with assms show ?thesis by (cases x) (auto simp: or_rollback_def andthen_def attempt_def split: prod.splits)
qed

lemma alone_journal:
  fixes s :: "'s dist_db_scheme"
  assumes "ensure_no_active_journal oid s = (Inr (), s')" and "map_of (journal_files s) oid = None"
  shows "journal_files s = []"
proof (rule ccontr)
  assume "journal_files s \<noteq> []"
  then obtain k d rest where c: "journal_files s = (k, d) # rest" by (cases "journal_files s") auto
  with assms(2) have "k \<noteq> oid" by auto
  with c have "List.find (\<lambda>(k, _). k \<noteq> oid) (journal_files s) = Some (k, d)" by simp
  with assms(1) show False by (auto simp: ensure_no_active_journal_def andthen_eq_Inr_iff)
qed

text \<open>A preparation that finds no journal of its operation.\<close>

lemma prepare_Inr:
  fixes s :: "'s dist_db_scheme"
  assumes run: "prepare mg p s = (Inr j, s')" and new: "map_of (journal_files s) (dn_operation p) = None"
  obtains j1 and s1 s2 :: "'s dist_db_scheme" where "same_paths j1 j" "dj_phase j = Phase_Prepared" "journal_files s = []"
    "journal_files s' = [(dj_operation j, Document (sealed j))]"
    "\<forall>u \<in> set (dj_mutations j). noted mg s u"
    "tree s1 = tree s" "tree s' = tree s2" "stage_each mg j1 (dj_mutations j1) s1 = (Inr (), s2)"
proof -
  obtain a1 where 1: "ensure_no_active_journal (dn_operation p) s = (Inr (), a1)" and
    r1: "andthen (rebuild_plan mg p) (\<lambda>canonical. andthen (attempt (read_journal mg (dn_operation p))) (\<lambda>r.
        case r of Inr old \<Rightarrow> if dj_phase old = Phase_Prepared \<or> dj_phase old = Phase_Published then return_ok old else raise [Dist_Conflict]
        | Inl e \<Rightarrow> if \<not> is_not_exist e then raise e else prepare_new mg canonical)) a1 = (Inr j, s')"
    using run unfolding prepare_def by (auto elim: andthen_InrE)
  obtain canonical a2 where 2: "rebuild_plan mg p a1 = (Inr canonical, a2)" and
    r2: "andthen (attempt (read_journal mg (dn_operation p))) (\<lambda>r.
        case r of Inr old \<Rightarrow> if dj_phase old = Phase_Prepared \<or> dj_phase old = Phase_Published then return_ok old else raise [Dist_Conflict]
        | Inl e \<Rightarrow> if \<not> is_not_exist e then raise e else prepare_new mg canonical) a2 = (Inr j, s')"
    using r1 by (rule andthen_InrE)
  have o2: "only_steps s a2"
    using movesD [OF reads.books_reading(5) 1] movesD [OF reads.planning 2] by (rule only_steps_trans)
  have empty: "journal_files s = []" by (rule alone_journal [OF 1 new])
  then have files: "journal_files a2 = []" using o2 by (auto simp: only_steps_def)
  obtain x a3 where x: "read_journal mg (dn_operation p) a2 = (x, a3)" by fastforce
  have o3: "only_steps s a3" using o2 movesD [OF reads.books_reading(1) x] by (rule only_steps_trans)
  have "\<not> (\<exists>old. x = Inr old)" using read_journal_outcome(3) [OF x] files by fastforce
  with r2 x have r3: "prepare_new mg canonical a3 = (Inr j, s')"
    by (cases x) (auto simp: andthen_def [of "attempt _"] attempt_def split: if_splits)
  then obtain us a4 where 4: "build_mutations mg canonical a3 = (Inr us, a4)" and
    r4: "andthen read_now (\<lambda>now. stage_journal mg (new_journal canonical us now)) a4 = (Inr j, s')"
    unfolding prepare_new_def by (rule andthen_InrE)
  have o4: "only_steps s a4" using o3 movesD [OF reads.mutations_reading(6) 4] by (rule only_steps_trans)
  obtain now a5 where 5: "read_now a4 = (Inr now :: dist_errs + int, a5)" and
    r5: "stage_journal mg (new_journal canonical us now) a5 = (Inr j, s')"
    using r4 by (rule andthen_InrE)
  have o5: "only_steps s a5" using o4 movesD [OF reads.environment(3) 5] by (rule only_steps_trans)
  define j1 where "j1 = new_journal canonical us now"
  obtain x6 a6 where 6: "write_journal j1 a5 = (Inr x6, a6)" and
    r6: "andthen (or_rollback mg j1 (stage_each mg j1 (dj_mutations j1))) (\<lambda>_. andthen read_now (\<lambda>now.
        let j' = j1\<lparr>dj_phase := Phase_Prepared, dj_updated := now\<rparr>
        in or_rollback mg j' (andthen (write_journal j') (\<lambda>_. return_ok j')))) a6 = (Inr j, s')"
    using r5 unfolding stage_journal_def j1_def by (rule andthen_InrE)
  obtain x7 a7 where 7: "or_rollback mg j1 (stage_each mg j1 (dj_mutations j1)) a6 = (Inr x7, a7)" and
    r7: "andthen read_now (\<lambda>now. let j' = j1\<lparr>dj_phase := Phase_Prepared, dj_updated := now\<rparr>
        in or_rollback mg j' (andthen (write_journal j') (\<lambda>_. return_ok j'))) a7 = (Inr j, s')"
    using r6 by (rule andthen_InrE)
  note st = or_rollback_Inr [OF 7, simplified]
  obtain now' a8 where 8: "read_now a7 = (Inr now' :: dist_errs + int, a8)" and
    r8: "or_rollback mg (j1\<lparr>dj_phase := Phase_Prepared, dj_updated := now'\<rparr>)
        (andthen (write_journal (j1\<lparr>dj_phase := Phase_Prepared, dj_updated := now'\<rparr>))
          (\<lambda>_. return_ok (j1\<lparr>dj_phase := Phase_Prepared, dj_updated := now'\<rparr>))) a8 = (Inr j, s')"
    using r7 unfolding Let_def by (rule andthen_InrE)
  from or_rollback_Inr [OF r8] have j: "j = j1\<lparr>dj_phase := Phase_Prepared, dj_updated := now'\<rparr>" and
    9: "write_journal j a8 = (Inr (), s')"
    by (auto simp: andthen_eq_Inr_iff)
  have same: "same_paths j1 j" "dj_mutations j = us" "dj_operation j = dj_operation j1" "dj_mutations j1 = us"
    using j by (simp_all add: same_paths_def j1_def new_journal_def)
  have b7: "journal_files a7 = journal_files a6"
    using movesD [OF books.staging_each st] by (simp add: same_books_def books.staging)
  have b8: "tree a8 = tree a7" "journal_files a8 = journal_files a7"
    using movesD [OF reads.environment(3) 8] by (auto simp: only_steps_def)
  have "journal_files a5 = []" "tree a5 = tree s" using o5 empty by (auto simp: only_steps_def)
  with write_journal_Inr [OF 6] write_journal_Inr [OF 9] b7 b8 same(3)
  have files': "journal_files s' = [(dj_operation j, Document (sealed j))]" and trees: "tree a6 = tree s" "tree s' = tree a7"
    by simp_all
  have noted: "\<forall>u \<in> set (dj_mutations j). noted mg s u"
    using build_mutations_noted [OF 4] noted_steps [OF o3] same(2) by simp
  have "dj_phase j = Phase_Prepared" using j by simp
  then show ?thesis by (rule that [OF same(1) _ empty files' noted trees st])
qed

lemma prepared_reversible:
  fixes s :: "'s dist_db_scheme"
  assumes ok: "manager_ok mg" "apart mg j" and run: "prepare mg p s = (Inr j, s')"
    and new: "map_of (journal_files s) (dn_operation p) = None"
  shows "reversible mg j (original mg j s) s'"
    and "u \<in> set (dj_mutations j) \<Longrightarrow> \<exists>t p b. mutation_paths mg j u = Inr (t, p, b) \<and> du_had u = (file_at t s \<noteq> None)"
proof -
  from run new obtain j1 and s1 s2 :: "'s dist_db_scheme" where same: "same_paths j1 j" and ph: "dj_phase j = Phase_Prepared" "journal_files s = []"
    and files: "journal_files s' = [(dj_operation j, Document (sealed j))]"
    and noted: "\<forall>u \<in> set (dj_mutations j). noted mg s u"
    and trees: "tree s1 = tree s" "tree s' = tree s2" and st: "stage_each mg j1 (dj_mutations j1) s1 = (Inr (), s2)"
    by (rule prepare_Inr)
  have m: "dj_mutations j1 = dj_mutations j" "mutation_paths mg j = mutation_paths mg j1"
    using same mutation_paths_same [OF same] by (simp_all add: same_paths_def)
  have ok1: "apart mg j1" using ok(2) apart_same [OF same] by simp
  note staged = stage_each_Inr [OF ok(1) ok1 st order_refl]
  have at: "file_at q s1 = file_at q s" "file_at q s' = file_at q s2" for q using trees by (simp_all add: file_at_def)
  have each: "\<exists>t p b. mutation_paths mg j u = Inr (t, p, b) \<and> du_had u = (file_at t s \<noteq> None) \<and>
      file_at t s' = file_at t s \<and> file_at b s' = None" if u: "u \<in> set (dj_mutations j)" for u
  proof -
    from staged u obtain t p b where tpb: "mutation_paths mg j1 u = Inr (t, p, b)" "file_at b s1 = None" by (auto simp: m)
    moreover from this staged u have "file_at t s2 = file_at t s1 \<and> file_at b s2 = file_at b s1" by (auto simp: m)
    ultimately show ?thesis using noted_paths [OF bspec [OF noted u], of j t p b] at m(2) by simp
  qed
  then show "u \<in> set (dj_mutations j) \<Longrightarrow> \<exists>t p b. mutation_paths mg j u = Inr (t, p, b) \<and> du_had u = (file_at t s \<noteq> None)"
    by blast
  have "intact mg j (original mg j s) s'"
    unfolding intact_def
  proof
    fix u
    assume "u \<in> set (dj_mutations j)"
    with each obtain t p b where "mutation_paths mg j u = Inr (t, p, b)" "du_had u = (file_at t s \<noteq> None)"
      "file_at t s' = file_at t s" "file_at b s' = None" by blast
    then show "case mutation_paths mg j u of Inl _ \<Rightarrow> True | Inr ps \<Rightarrow> holds u (original mg j s u) (slot_at ps s')"
      by (auto simp: original_def)
  qed
  moreover have "pending j s'"
    using files ph sealed_same [of j j] by (auto simp: pending_def undecided_def sealed_def)
  ultimately show "reversible mg j (original mg j s) s'" by (simp add: reversible_def)
qed

end
