(* ===== verification/Dist_Reversal.thy ===== *)
theory Dist_Reversal
  imports Dist_Prepare
begin

text \<open>
  The promise of a release: until \<open>Complete\<close>, whatever the agent calls and whatever fails, every original can be
  put back, and a rollback that reports success has put it back.
\<close>

section \<open>An example\<close>

text \<open>An installation with one shard, whose configuration is about to change.\<close>

definition example_manager :: manager where
  "example_manager =
     \<lparr>mg_node = ''n'', mg_reserve = 0,
      mg_installations = [(''i'', \<lparr>di_id = ''i'', di_node = ''n'', di_server = [''d''], di_save = [''s''], di_content = None, di_manifest = None\<rparr>)]\<rparr>"

definition example_mutation :: mutation where
  "example_mutation =
     (new_mutation Mutate_Overrides ''i'' (hash_bytes ''new'') (hash_bytes ''old'') True)\<lparr>du_room_dir := ''r'', du_world_dir := ''w''\<rparr>"

definition example_journal :: dist_journal where
  "example_journal =
     sealed \<lparr>dj_version = 1, dj_operation = ''release1'', dj_phase = Phase_Prepared, dj_next = 0,
       dj_plan = \<lparr>dn_operation = ''release1'', dn_node = ''n'', dn_mode = Release_Mode, dn_created = 0, dn_installations = []\<rparr>,
       dj_mutations = [example_mutation], dj_created = 0, dj_updated = 0, dj_integrity = []\<rparr>"

definition example_state :: "nat \<Rightarrow> dist_journal \<Rightarrow> (string \<times> file_node) list \<Rightarrow> dist_db" where
  "example_state n j files =
     \<lparr>step = n, fault = \<lambda>_. False, cancelled = \<lambda>_. False, clock = \<lambda>_. 0, fresh = \<lambda>_. [],
      tree = Folder 493 [(''s'', Folder 493 [(''r'', Folder 493 [(''w'', Folder 493 files)])])], written = \<lambda>_. 0,
      journal_files = [(''release1'', Document j)], state_file = None, cache_versions = [], issues = [],
      free_space = \<lambda>_. 0, usable = \<lambda>_ _. True\<rparr>"

text \<open>Before and after its publication.\<close>

definition example_staged :: "(string \<times> file_node) list" where
  "example_staged = [(''modoverrides.lua'', Plain 420 ''old''), (''.dst-admin-overrides-stage-release1-000'', Plain 416 ''new'')]"

definition example_swapped :: "(string \<times> file_node) list" where
  "example_swapped = [(''.dst-admin-overrides-backup-release1-000'', Plain 420 ''old''), (''modoverrides.lua'', Plain 416 ''new'')]"

lemma example_state_simps [simp]:
  "step (example_state n j files) = n" "clock (example_state n j files) t = 0" "cancelled (example_state n j files) t = False"
  "(example_state n j files)\<lparr>step := m\<rparr> = example_state m j files"
  by (simp_all add: example_state_def)

lemmas example_defs = example_manager_def example_mutation_def new_mutation_def

lemma example_names: "safe_dir_name ''r''" "safe_dir_name ''w''" "digits 3 0 = ''000''" "valid_operation ''release1''"
  by code_simp+

lemma example_paths: "mutation_paths mg j u =
   Inr ([''s'', ''r'', ''w'', ''modoverrides.lua''], [''s'', ''r'', ''w'', ''.dst-admin-overrides-stage-release1-000''],
     [''s'', ''r'', ''w'', ''.dst-admin-overrides-backup-release1-000''])"
  if "mg = example_manager" "u = example_mutation" "same_paths example_journal j"
  using that by (simp add: mutation_paths_def same_paths_def example_journal_def sealed_def example_defs mutation_place_def
      overrides_path_def example_names mutation_suffix_def path_within_def Let_def)

lemmas run_simps = andthen_def attempt_def raise_left_def return_ok_def raise_def guard_def query_def modify_def external_def
  ctx_err_def ctx_ok_def read_now_def background_def sys_def map_error_def lstat_def blocked_def set_at_def
  up_to_def reject_links_def inspect_target_def accept_node_def trusted_directory_def target_digest_def hash_file_def read_file_def
  rename_target_def rename_def rename_error_def rename_allowed_def folder_at_def put_entry_def remove_target_def remove_def
  sync_directory_def

text \<open>The journals of the example.\<close>

definition of_example :: "dist_journal \<Rightarrow> bool" where
  "of_example j \<longleftrightarrow> same_paths example_journal j \<and> dj_version j = 1 \<and> dj_plan j = dj_plan example_journal \<and> (dj_next j = 0 \<or> dj_next j = 1)"

lemma of_example_simps:
  "of_example j \<Longrightarrow> dj_operation j = ''release1''" "of_example j \<Longrightarrow> dj_mutations j = [example_mutation]"
  "of_example j \<Longrightarrow> same_paths example_journal j" "of_example j \<Longrightarrow> dj_version j = 1"
  "of_example j \<Longrightarrow> of_example (j\<lparr>dj_phase := ph, dj_updated := now\<rparr>)" "of_example j \<Longrightarrow> of_example (sealed j)"
  by (simp_all add: of_example_def same_paths_def example_journal_def sealed_def)

lemma example_read:
  assumes "of_example j"
  shows "read_journal example_manager ''release1'' (example_state n (sealed j) files) = (Inr (sealed j), example_state (Suc n) (sealed j) files)"
proof -
  have "check_mutations example_manager (sealed j) 0 (dj_mutations (sealed j)) = Inr ()"
    using of_example_simps(3) [OF of_example_simps(6) [OF assms]] of_example_simps(2) [OF of_example_simps(6) [OF assms]]
    by (simp add: example_paths) (simp add: example_mutation_def new_mutation_def)
  moreover have "journal_ok example_manager ''release1'' (sealed j)"
    using assms by (auto simp: journal_ok_def sealed_def of_example_def same_paths_def example_journal_def example_manager_def)
  moreover have "dj_integrity (sealed j) = journal_digest j" "journal_digest (sealed j) = journal_digest j" "valid_sha256 (journal_digest j)"
    by (simp_all add: sealed_def journal_digest_def digest_of_def)
  ultimately show ?thesis by (simp add: read_journal_def run_simps example_names check_journal_def example_state_def)
qed

lemma example_phase:
  assumes "of_example j"
  obtains m where "enter_phase ph j (example_state n k files) =
    (Inr (j\<lparr>dj_phase := ph, dj_updated := 0\<rparr>), example_state m (sealed (j\<lparr>dj_phase := ph, dj_updated := 0\<rparr>)) files)"
  using of_example_simps [OF assms]
  by (simp add: enter_phase_def write_journal_def write_atomic_def run_simps example_names example_state_def Let_def)

lemma example_publish_mutation:
  assumes "same_paths example_journal j"
  obtains m where "publish_mutation example_manager j example_mutation (example_state n k example_staged) = (Inr (), example_state m k example_swapped)"
  using assms
  by (simp add: publish_mutation_def example_paths run_simps set_aside_def install_def example_state_def Let_def upt_rec
      example_mutation_def is_mod_def new_mutation_def example_staged_def example_swapped_def)

lemma example_rollback_mutation:
  assumes "same_paths example_journal j"
  obtains m where "rollback_mutation example_manager j example_mutation (example_state n k example_swapped) =
    (Inr (), example_state m k [(''modoverrides.lua'', Plain 420 ''old'')])"
  using assms
  by (simp add: rollback_mutation_def ensure_target_unchanged_def example_paths run_simps example_state_def Let_def upt_rec
      example_mutation_def is_mod_def new_mutation_def example_swapped_def)

lemma example_publish:
  obtains m k where "of_example k" "snd (publish_operation example_manager ''release1'' (example_state 0 example_journal example_staged)) =
    example_state m (sealed k) example_swapped"
proof -
  have e: "of_example example_journal" "sealed example_journal = example_journal" "dj_phase example_journal = Phase_Prepared" "dj_next example_journal = 0"
    by (simp_all add: of_example_def same_paths_def) (simp_all add: example_journal_def sealed_def journal_digest_def)
  let ?j = "example_journal\<lparr>dj_phase := Phase_Publishing, dj_updated := 0\<rparr>"
  let ?k = "?j\<lparr>dj_next := 1, dj_updated := 0\<rparr>"
  have j: "of_example ?j" and k: "of_example ?k" using e(1) by (simp_all add: of_example_def same_paths_def)
  obtain m1 where 1: "enter_phase Phase_Publishing example_journal (example_state (Suc 0) example_journal example_staged) =
      (Inr ?j, example_state m1 (sealed ?j) example_staged)" by (rule example_phase [OF e(1)])
  obtain m2 where 2: "publish_mutation example_manager ?j example_mutation (example_state (Suc m1) (sealed ?j) example_staged) =
      (Inr (), example_state m2 (sealed ?j) example_swapped)" by (rule example_publish_mutation [OF of_example_simps(3) [OF j]])
  obtain m3 where 3: "write_journal ?k (example_state (Suc m2) (sealed ?j) example_swapped) = (Inr (), example_state m3 (sealed ?k) example_swapped)"
    using of_example_simps [OF k] by (simp add: write_journal_def write_atomic_def run_simps example_names example_state_def)
  obtain m4 where 4: "enter_phase Phase_Published ?k (example_state m3 (sealed ?k) example_swapped) =
      (Inr (?k\<lparr>dj_phase := Phase_Published, dj_updated := 0\<rparr>), example_state m4 (sealed (?k\<lparr>dj_phase := Phase_Published, dj_updated := 0\<rparr>)) example_swapped)"
    by (rule example_phase [OF k])
  have "snd (publish_operation example_manager ''release1'' (example_state 0 example_journal example_staged)) =
      example_state m4 (sealed (?k\<lparr>dj_phase := Phase_Published, dj_updated := 0\<rparr>)) example_swapped"
    using example_read [OF e(1), of 0 example_staged] 1 2 3 4
    by (simp add: publish_operation_def andthen_def guard_def e of_example_simps(2) [OF e(1)] ctx_ok_def ctx_err_def Let_def)
  then show ?thesis by (rule that [OF of_example_simps(5) [OF k]])
qed

lemma example_clean:
  assumes "same_paths example_journal j"
  obtains m where "cleanup_each example_manager j [example_mutation] None (example_state n k [(''modoverrides.lua'', Plain 420 ''old'')]) =
    (Inr (), example_state m k [(''modoverrides.lua'', Plain 420 ''old'')])"
  using assms
  by (simp add: joined_def end_with_def join_error_def example_paths run_simps example_state_def Let_def upt_rec
      example_mutation_def is_mod_def new_mutation_def)

lemma example_rollback:
  assumes k: "of_example k"
  obtains m where "rollback example_manager ''release1'' (example_state n (sealed k) example_swapped) =
    (Inr (), (example_state m k [(''modoverrides.lua'', Plain 420 ''old'')])\<lparr>journal_files := []\<rparr>)"
proof -
  let ?k = "(sealed k)\<lparr>dj_phase := Phase_Rolling_Back, dj_updated := 0\<rparr>"
  let ?old = "[(''modoverrides.lua'', Plain 420 ''old'')]"
  have k': "of_example (sealed k)" "of_example ?k" using of_example_simps(6) [OF k] by (simp_all add: of_example_simps(5))
  note same = of_example_simps(3) [OF k'(2)]
  obtain m1 where 1: "enter_phase Phase_Rolling_Back (sealed k) (example_state (Suc n) (sealed k) example_swapped) =
      (Inr ?k, example_state m1 (sealed ?k) example_swapped)" by (rule example_phase [OF k'(1)])
  obtain m2 where 2: "rollback_mutation example_manager ?k example_mutation (example_state (Suc m1) (sealed ?k) example_swapped) =
      (Inr (), example_state m2 (sealed ?k) ?old)" by (rule example_rollback_mutation [OF same])
  obtain m3 where 3: "cleanup_each example_manager ?k [example_mutation] None (example_state m2 (sealed ?k) ?old) =
      (Inr (), example_state m3 (sealed ?k) ?old)" by (rule example_clean [OF same])
  have 4: "remove_journal ''release1'' (example_state m3 (sealed ?k) ?old) = (Inr (), (example_state (Suc m3) k ?old)\<lparr>journal_files := []\<rparr>)"
    by (simp add: remove_journal_def run_simps example_state_def)
  have "rollback example_manager ''release1'' (example_state n (sealed k) example_swapped) =
      (Inr (), (example_state (Suc m3) k ?old)\<lparr>journal_files := []\<rparr>)"
    using example_read [OF k, of n example_swapped] 1 2 3 4 of_example_simps(1,2) [OF k'(2)]
    by (simp add: rollback_def rollback_journal_def cleanup_artifacts_def andthen_def attempt_def ctx_ok_def ctx_err_def end_with_def
        join_error_def del: cleanup_each.simps)
  then show ?thesis by (rule that)
qed

section \<open>A release that is not complete\<close>

lemma reversible_slot:
  fixes s :: "'s dist_db_scheme"
  assumes rev: "reversible mg j orig s" and had: "\<And>v. v \<in> set (dj_mutations j) \<Longrightarrow> du_had v = (orig v \<noteq> None)"
    and u: "u \<in> set (dj_mutations j)" "mutation_paths mg j u = Inr (t, p, b)"
  shows "orig u = Some x \<Longrightarrow> \<exists>y. alike x y \<and> (file_at t s = Some y \<or> file_at b s = Some y)"
    and "journal_files s = [] \<Longrightarrow> restored (orig u) (slot_at (t, p, b) s)"
proof -
  from rev u have "holds u (orig u) (slot_at (t, p, b) s)" by (auto simp: reversible_def intact_def)
  then show "orig u = Some x \<Longrightarrow> \<exists>y. alike x y \<and> (file_at t s = Some y \<or> file_at b s = Some y)"
    using had [OF u(1)] by (auto split: if_splits)
  show "journal_files s = [] \<Longrightarrow> restored (orig u) (slot_at (t, p, b) s)"
    using rev u by (auto simp: reversible_def pending_def elim!: all_restoredE)
qed

lemma reversible_release:
  fixes s :: "'s dist_db_scheme"
  assumes ok: "manager_ok mg" "apart mg j" and had: "\<And>v. v \<in> set (dj_mutations j) \<Longrightarrow> du_had v = (orig v \<noteq> None)"
    and rev: "reversible mg j orig s" and u: "u \<in> set (dj_mutations j)" "mutation_paths mg j u = Inr (t, p, b)"
  shows "(\<forall>x. orig u = Some x \<longrightarrow> (\<exists>y. alike x y \<and> (file_at t (run_calls mg oid cs s) = Some y \<or> file_at b (run_calls mg oid cs s) = Some y))) \<and>
    (\<forall>s2. rollback mg (dj_operation j) (run_calls mg oid cs s) = (Inr (), s2) \<longrightarrow>
      restored (orig u) (slot_at (t, p, b) s2) \<and> journal_files s2 = [])"
proof -
  note rev1 = reversible_calls [OF ok had rev, of oid cs]
  have "restored (orig u) (slot_at (t, p, b) s2) \<and> journal_files s2 = []"
    if "rollback mg (dj_operation j) (run_calls mg oid cs s) = (Inr (), s2)" for s2
    using reversible_rollback [OF ok had rev1 that] reversible_slot(2) [OF _ had u] by simp
  with reversible_slot(1) [OF rev1 had u] show ?thesis by blast
qed

text \<open>C36: Suppose the journal of a release is on disk, \<open>Complete\<close> has not begun, and every original stands at its target
  or as its backup. Then any sequence of \<open>Publish\<close>, \<open>Rollback\<close> and \<open>Recover\<close>, whatever calls fail in it, leaves every
  original, but for its permissions, at its target or as its backup; and a \<open>Rollback\<close> after it that reports no error
  has put every original back, removed the stages and backups, and removed the journal.\<close>

theorem unfinished_release_is_reversible:
  fixes s :: "'s dist_db_scheme"
  assumes "manager_ok mg" and "apart mg j"
    and "\<forall>v \<in> set (dj_mutations j). du_had v = (orig v \<noteq> None)" and "intact mg j orig s"
    and "journal_files s = [(dj_operation j, Document j)]"
    and "dj_phase j \<noteq> Phase_Completing \<and> dj_phase j \<noteq> Phase_Committed"
    and "u \<in> set (dj_mutations j)" and "mutation_paths mg j u = Inr (t, p, b)"
    and "s1 = run_calls mg oid cs s"
  shows "(\<forall>x. orig u = Some x \<longrightarrow> (\<exists>y. alike x y \<and> (file_at t s1 = Some y \<or> file_at b s1 = Some y))) \<and>
    (\<forall>s2. rollback mg (dj_operation j) s1 = (Inr (), s2) \<longrightarrow>
      restored (orig u) (slot_at (t, p, b) s2) \<and> journal_files s2 = [])"
proof -
  have "reversible mg j orig s" using assms(4-6) by (auto simp: reversible_def pending_def undecided_def)
  with assms show ?thesis by (simp only:) (rule reversible_release, auto)
qed

text \<open>The example: its release is published and then rolled back.\<close>

theorem unfinished_release_is_reversible_witness:
  "\<exists>s2. rollback example_manager ''release1'' (run_calls example_manager ''release1'' [Call_Publish] (example_state 0 example_journal example_staged)) = (Inr (), s2) \<and>
    file_at [''s'', ''r'', ''w'', ''.dst-admin-overrides-backup-release1-000'']
      (run_calls example_manager ''release1'' [Call_Publish] (example_state 0 example_journal example_staged)) = Some (Plain 420 ''old'') \<and>
    restored (Some (Plain 420 ''old'')) (slot_at ([''s'', ''r'', ''w'', ''modoverrides.lua''],
      [''s'', ''r'', ''w'', ''.dst-admin-overrides-stage-release1-000''],
      [''s'', ''r'', ''w'', ''.dst-admin-overrides-backup-release1-000'']) s2)"
proof -
  let ?s = "example_state 0 example_journal example_staged"
  let ?s1 = "run_calls example_manager ''release1'' [Call_Publish] ?s"
  let ?orig = "\<lambda>_. Some (Plain 420 ''old'')"
  have j: "dj_operation example_journal = ''release1''" "dj_mutations example_journal = [example_mutation]"
    "dj_phase example_journal = Phase_Prepared"
    by (simp_all add: example_journal_def sealed_def)
  note paths = example_paths [OF refl refl same_paths_refl]
  obtain m k where k: "of_example k" and "snd (publish_operation example_manager ''release1'' ?s) = example_state m (sealed k) example_swapped"
    by (rule example_publish)
  then have s1: "?s1 = example_state m (sealed k) example_swapped" by (simp add: run_calls_def)
  from k obtain n where undone: "rollback example_manager ''release1'' ?s1 =
      (Inr (), (example_state n k [(''modoverrides.lua'', Plain 420 ''old'')])\<lparr>journal_files := []\<rparr>)"
    unfolding s1 by (rule example_rollback)
  have "manager_ok example_manager" by (simp add: manager_ok_def example_manager_def)
  moreover have "apart example_manager example_journal" by (simp add: apart_def j)
  moreover have "\<forall>v \<in> set (dj_mutations example_journal). du_had v = (?orig v \<noteq> None)"
    by (simp add: j example_mutation_def new_mutation_def)
  moreover have "intact example_manager example_journal ?orig ?s"
    by (simp add: intact_def j paths file_at_def example_state_def example_staged_def)
       (simp add: example_mutation_def new_mutation_def)
  moreover have "journal_files ?s = [(dj_operation example_journal, Document example_journal)]"
    by (simp add: example_state_def j)
  ultimately have "\<forall>s2. rollback example_manager (dj_operation example_journal) ?s1 = (Inr (), s2) \<longrightarrow>
      restored (?orig example_mutation) (slot_at ([''s'', ''r'', ''w'', ''modoverrides.lua''],
        [''s'', ''r'', ''w'', ''.dst-admin-overrides-stage-release1-000''],
        [''s'', ''r'', ''w'', ''.dst-admin-overrides-backup-release1-000'']) s2) \<and> journal_files s2 = []"
    using unfinished_release_is_reversible [OF _ _ _ _ _ _ _ paths refl, of ?orig ?s "''release1''" "[Call_Publish]"]
    by (simp add: j)
  with undone j have "restored (Some (Plain 420 ''old'')) (slot_at ([''s'', ''r'', ''w'', ''modoverrides.lua''],
      [''s'', ''r'', ''w'', ''.dst-admin-overrides-stage-release1-000''],
      [''s'', ''r'', ''w'', ''.dst-admin-overrides-backup-release1-000''])
      ((example_state n k [(''modoverrides.lua'', Plain 420 ''old'')])\<lparr>journal_files := []\<rparr>))" by auto
  moreover have "file_at [''s'', ''r'', ''w'', ''.dst-admin-overrides-backup-release1-000''] ?s1 = Some (Plain 420 ''old'')"
    unfolding s1 by (simp add: file_at_def example_state_def example_swapped_def)
  ultimately show ?thesis using undone by blast
qed

end
