(* ===== verification/Dist_Promise.thy ===== *)
theory Dist_Promise
  imports Dist_Reversal
begin

text \<open>
  The whole of a release, from a preparation that succeeds: what was there before it can be put back until \<open>Complete\<close>.
\<close>

section \<open>An example\<close>

text \<open>A release of one shard to an installation that has no configuration yet.\<close>

definition fresh_shard :: shard_release where
  "fresh_shard =
     \<lparr>ds_installation = ''i'', ds_room = ''a'', ds_room_dir = ''r'', ds_world = ''b'', ds_world_dir = ''w'', ds_mods = [],
      ds_overrides = ''new''\<rparr>"

definition fresh_plan :: "string \<Rightarrow> dist_plan" where
  "fresh_plan setup =
     \<lparr>dn_operation = ''release1'', dn_node = ''n'', dn_mode = Release_Mode, dn_created = 1,
      dn_installations = [(empty_group ''i'' (the (map_of (mg_installations example_manager) ''i'')))\<lparr>dp_shards := [fresh_shard], dp_setup := setup\<rparr>]\<rparr>"

definition fresh_state :: "nat \<Rightarrow> (string \<times> dist_journal document) list \<Rightarrow> (string \<times> file_node) list \<Rightarrow> (string \<times> file_node) list \<Rightarrow> dist_db" where
  "fresh_state n js mods files =
     \<lparr>step = n, fault = \<lambda>_. False, cancelled = \<lambda>_. False, clock = \<lambda>_. 0, fresh = \<lambda>_. [],
      tree = Folder 493 [(''d'', Folder 493 [(''mods'', Folder 493 mods)]), (''s'', Folder 493 [(''r'', Folder 493 [(''w'', Folder 493 files)])])],
      written = \<lambda>_. 0, journal_files = js, state_file = None, cache_versions = [], issues = [],
      free_space = \<lambda>_. 1000000, usable = \<lambda>_ _. True\<rparr>"

definition fresh_setup :: string where
  "fresh_setup = setup_text [newline] [] [] []"

lemma fresh_compose: "compose_managed_setup [] [] = Inr fresh_setup"
  by (simp add: compose_managed_setup_def fresh_setup_def setup_parts_def setup_newline_def trim_line_ends_def mark_defs crlf_def
      max_overrides_def)

lemma fresh_facts: "valid_identity ''a''" "valid_identity ''b''" "zero_time \<noteq> 1" "digits 3 1 = ''001''" "hash_bytes c \<noteq> []" "[] \<noteq> hash_bytes c"
proof -
  show "valid_identity ''a''" "valid_identity ''b''" "digits 3 1 = ''001''" by code_simp+
  show "zero_time \<noteq> 1" by (simp add: zero_time_def)
  show "hash_bytes c \<noteq> []" by (metis valid_sha256_hash valid_sha256_Nil)
  then show "[] \<noteq> hash_bytes c" by simp
qed

lemma fresh_length: "length fresh_setup \<le> 1000000"
  by (simp add: fresh_setup_def setup_text_def mark_defs)

lemma fresh_rebuild:
  obtains m where "rebuild_plan example_manager (fresh_plan []) (fresh_state n js [] []) = (Inr (fresh_plan fresh_setup), fresh_state m js [] [])"
  by (simp add: rebuild_plan_def fresh_plan_def empty_group_def example_manager_def fresh_shard_def build_plan_def
    run_simps example_names fresh_facts Let_def shard_ok_def shard_overrides_def max_overrides_def max_plan_config_def control_chars
    finish_group_def with_manifest_def read_optional_def upt_rec sort_mods_def fresh_state_def setup_path_def
    keep_created_def bytes_of_def sha_of_def fresh_compose)

definition fresh_mutations :: "mutation list" where
  "fresh_mutations =
     [new_mutation Mutate_Setup ''i'' (hash_bytes fresh_setup) [] False,
      (new_mutation Mutate_Overrides ''i'' (hash_bytes ''new'') [] False)\<lparr>du_index := 1, du_room_dir := ''r'', du_world_dir := ''w''\<rparr>]"

lemma fresh_build:
  obtains m where "build_mutations example_manager (fresh_plan fresh_setup) (fresh_state n js [] []) = (Inr fresh_mutations, fresh_state m js [] [])"
  by (simp add: build_mutations_def states_or_none_def read_states_def is_not_exist_def fresh_plan_def empty_group_def example_manager_def fresh_shard_def
    run_simps example_names fresh_facts Let_def installation_mutations_def managed_mutation_def overrides_path_def
    upt_rec fresh_state_def setup_path_def new_mutation_def number_mutations_def fresh_mutations_def)

definition fresh_journal :: dist_journal where
  "fresh_journal = new_journal (fresh_plan fresh_setup) fresh_mutations 0"

lemma fresh_paths:
  assumes "same_paths fresh_journal j"
  shows "mutation_paths example_manager j (fresh_mutations ! 0) =
     Inr ([''d'', ''mods'', ''dedicated_server_mods_setup.lua''], [''d'', ''mods'', ''.dst-admin-setup-stage-release1-000''],
       [''d'', ''mods'', ''.dst-admin-setup-backup-release1-000''])"
    and "mutation_paths example_manager j (fresh_mutations ! 1) =
     Inr ([''s'', ''r'', ''w'', ''modoverrides.lua''], [''s'', ''r'', ''w'', ''.dst-admin-overrides-stage-release1-001''],
       [''s'', ''r'', ''w'', ''.dst-admin-overrides-backup-release1-001''])"
  using assms by (simp_all add: mutation_paths_def same_paths_def fresh_journal_def new_journal_def fresh_mutations_def fresh_plan_def
      new_mutation_def example_manager_def mutation_place_def setup_path_def
      overrides_path_def example_names fresh_facts mutation_suffix_def path_within_def Let_def)

lemma fresh_stage:
  "\<exists>m. stage_each example_manager fresh_journal fresh_mutations (fresh_state n js [] []) =
    (Inr (), fresh_state m js [(''.dst-admin-setup-stage-release1-000'', Plain 416 fresh_setup)] [(''.dst-admin-overrides-stage-release1-001'', Plain 416 ''new'')])"
  using fresh_paths [OF same_paths_refl] fresh_length
  by (simp add: fresh_mutations_def new_mutation_def stage_mutation_def run_simps must_be_absent_def mkdir_all_def upt_rec
    is_mod_def stage_file_def fresh_journal_def new_journal_def ensure_disk_space_def fresh_plan_def empty_group_def fresh_shard_def example_manager_def
    create_new_def write_out_def fresh_state_def Let_def)


definition of_fresh :: "dist_journal \<Rightarrow> bool" where
  "of_fresh j \<longleftrightarrow> same_paths fresh_journal j \<and> dj_version j = 1 \<and> dj_plan j = dj_plan fresh_journal \<and> dj_next j = 0"

lemma of_fresh_simps:
  "of_fresh j \<Longrightarrow> dj_operation j = ''release1''" "of_fresh j \<Longrightarrow> dj_mutations j = fresh_mutations"
  "of_fresh j \<Longrightarrow> same_paths fresh_journal j" "of_fresh j \<Longrightarrow> of_fresh (j\<lparr>dj_phase := ph, dj_updated := now\<rparr>)"
  "of_fresh j \<Longrightarrow> of_fresh (sealed j)"
  by (simp_all add: of_fresh_def same_paths_def fresh_journal_def new_journal_def fresh_plan_def sealed_def)

lemma fresh_prepare:
  obtains m j where "of_fresh j"
    "prepare example_manager (fresh_plan []) (fresh_state 0 [] [] []) = (Inr j, fresh_state m [(''release1'', Document (sealed j))]
       [(''.dst-admin-setup-stage-release1-000'', Plain 416 fresh_setup)] [(''.dst-admin-overrides-stage-release1-001'', Plain 416 ''new'')])"
proof -
  have 1: "ensure_no_active_journal ''release1'' (fresh_state 0 [] [] []) = (Inr (), fresh_state 1 [] [] [])"
    by (simp add: ensure_no_active_journal_def run_simps fresh_state_def)
  obtain m2 where 2: "rebuild_plan example_manager (fresh_plan []) (fresh_state 1 [] [] []) = (Inr (fresh_plan fresh_setup), fresh_state m2 [] [] [])"
    by (rule fresh_rebuild)
  have 3: "read_journal example_manager ''release1'' (fresh_state m2 [] [] []) = (Inl [File_Failed Not_Exist], fresh_state (Suc m2) [] [] [])"
    by (simp add: read_journal_def run_simps example_names fresh_state_def)
  obtain m4 where 4: "build_mutations example_manager (fresh_plan fresh_setup) (fresh_state (Suc m2) [] [] []) = (Inr fresh_mutations, fresh_state m4 [] [] [])"
    by (rule fresh_build)
  have w: "\<exists>m. write_journal j (fresh_state n js mods files) = (Inr (), fresh_state m (put ''release1'' (Document (sealed j)) js) mods files)"
    if "dj_operation j = ''release1''" "dj_version j = 1" for j n js mods files
    using that by (simp add: write_journal_def write_atomic_def run_simps example_names fresh_state_def)
  have j: "dj_operation fresh_journal = ''release1''" "dj_version fresh_journal = 1" "dj_mutations fresh_journal = fresh_mutations"
    by (simp_all add: fresh_journal_def new_journal_def fresh_plan_def)
  obtain m5 where 5: "write_journal fresh_journal (fresh_state (Suc m4) [] [] []) =
      (Inr (), fresh_state m5 [(''release1'', Document (sealed fresh_journal))] [] [])" using w [OF j(1,2), where n = "Suc m4" and js = "[]" and mods = "[]" and files = "[]"] by auto
  let ?mods = "[(''.dst-admin-setup-stage-release1-000'', Plain 416 fresh_setup)]"
  let ?files = "[(''.dst-admin-overrides-stage-release1-001'', Plain 416 ''new'')]"
  obtain m6 where 6: "stage_each example_manager fresh_journal fresh_mutations (fresh_state m5 [(''release1'', Document (sealed fresh_journal))] [] []) =
      (Inr (), fresh_state m6 [(''release1'', Document (sealed fresh_journal))] ?mods ?files)" using fresh_stage by blast
  let ?j = "fresh_journal\<lparr>dj_phase := Phase_Prepared, dj_updated := 0\<rparr>"
  obtain m7 where 7: "write_journal ?j (fresh_state (Suc m6) [(''release1'', Document (sealed fresh_journal))] ?mods ?files) =
      (Inr (), fresh_state m7 [(''release1'', Document (sealed ?j))] ?mods ?files)" using w [of ?j, where js = "[(''release1'', Document (sealed fresh_journal))]" and n = "Suc m6" and mods = ?mods and files = ?files] j by auto
  have [simp]: "clock (fresh_state n js mods files) t = 0" "step (fresh_state n js mods files) = n"
    "(fresh_state n js mods files)\<lparr>step := m\<rparr> = fresh_state m js mods files" for n m t js mods files
    by (simp_all add: fresh_state_def)
  have op: "dn_operation (fresh_plan s) = ''release1''" for s by (simp add: fresh_plan_def)
  have "stage_journal example_manager fresh_journal (fresh_state (Suc m4) [] [] []) = (Inr ?j, fresh_state m7 [(''release1'', Document (sealed ?j))] ?mods ?files)"
    using 5 6 7 by (simp add: stage_journal_def or_rollback_def andthen_def attempt_def j Let_def)
  then have "prepare example_manager (fresh_plan []) (fresh_state 0 [] [] []) = (Inr ?j, fresh_state m7 [(''release1'', Document (sealed ?j))] ?mods ?files)"
    using 1 2 3 4 by (simp add: prepare_def prepare_new_def andthen_def attempt_def op is_not_exist_def flip: fresh_journal_def)
  then show ?thesis by (rule that [rotated]) (simp add: of_fresh_def same_paths_def j(2), simp add: fresh_journal_def new_journal_def)
qed

text \<open>The prepared release is rolled back.\<close>

lemma fresh_read:
  assumes "of_fresh j"
  shows "read_journal example_manager ''release1'' (fresh_state n [(''release1'', Document (sealed j))] mods files) =
    (Inr (sealed j), fresh_state (Suc n) [(''release1'', Document (sealed j))] mods files)"
proof -
  note paths = fresh_paths [OF of_fresh_simps(3) [OF of_fresh_simps(5) [OF assms]]]
  have "check_mutations example_manager (sealed j) 0 fresh_mutations = Inr ()"
    using paths by (simp add: fresh_mutations_def new_mutation_def)
  then have "check_mutations example_manager (sealed j) 0 (dj_mutations (sealed j)) = Inr ()"
    using of_fresh_simps(2) [OF of_fresh_simps(5) [OF assms]] by simp
  moreover have "journal_ok example_manager ''release1'' (sealed j)"
    using assms by (auto simp: journal_ok_def sealed_def of_fresh_def same_paths_def fresh_journal_def new_journal_def fresh_plan_def
        example_manager_def fresh_mutations_def)
  moreover have "dj_integrity (sealed j) = journal_digest j" "journal_digest (sealed j) = journal_digest j" "valid_sha256 (journal_digest j)"
    by (simp_all add: sealed_def journal_digest_def digest_of_def)
  ultimately show ?thesis by (simp add: read_journal_def run_simps example_names check_journal_def fresh_state_def)
qed

lemma fresh_undo:
  assumes "same_paths fresh_journal j"
  obtains m where "rollback_each example_manager j (rev fresh_mutations) None
      (fresh_state n k [(''.dst-admin-setup-stage-release1-000'', Plain 416 fresh_setup)] [(''.dst-admin-overrides-stage-release1-001'', Plain 416 ''new'')]) =
    (Inr (), fresh_state m k [] [])"
  using fresh_paths [OF assms]
  by (simp add: fresh_mutations_def new_mutation_def rollback_mutation_def run_simps end_with_def join_error_def is_mod_def upt_rec fresh_state_def)

lemma fresh_clean:
  assumes "same_paths fresh_journal j"
  obtains m where "cleanup_each example_manager j fresh_mutations None (fresh_state n k [] []) = (Inr (), fresh_state m k [] [])"
  using fresh_paths [OF assms]
  by (simp add: fresh_mutations_def new_mutation_def joined_def run_simps end_with_def join_error_def is_mod_def upt_rec fresh_state_def)

lemma fresh_rollback:
  assumes j: "of_fresh j"
  obtains m where "rollback example_manager ''release1'' (fresh_state n [(''release1'', Document (sealed j))]
       [(''.dst-admin-setup-stage-release1-000'', Plain 416 fresh_setup)] [(''.dst-admin-overrides-stage-release1-001'', Plain 416 ''new'')]) =
    (Inr (), fresh_state m [] [] [])"
proof -
  let ?mods = "[(''.dst-admin-setup-stage-release1-000'', Plain 416 fresh_setup)]"
  let ?files = "[(''.dst-admin-overrides-stage-release1-001'', Plain 416 ''new'')]"
  let ?k = "(sealed j)\<lparr>dj_phase := Phase_Rolling_Back, dj_updated := 0\<rparr>"
  let ?js = "[(''release1'', Document (sealed ?k))]"
  have j': "of_fresh (sealed j)" and k: "of_fresh ?k" using of_fresh_simps(4,5) [OF of_fresh_simps(5) [OF j]] of_fresh_simps(5) [OF j] by simp_all
  note same = of_fresh_simps(3) [OF k]
  obtain m1 where 1: "enter_phase Phase_Rolling_Back (sealed j) (fresh_state (Suc n) [(''release1'', Document (sealed j))] ?mods ?files) =
      (Inr ?k, fresh_state m1 ?js ?mods ?files)"
    using of_fresh_simps(1) [OF j'] j'
    by (simp add: enter_phase_def write_journal_def write_atomic_def run_simps example_names fresh_state_def of_fresh_def Let_def)
  obtain m2 where 2: "rollback_each example_manager ?k (rev fresh_mutations) None (fresh_state m1 ?js ?mods ?files) = (Inr (), fresh_state m2 ?js [] [])"
    by (rule fresh_undo [OF same])
  obtain m3 where 3: "cleanup_each example_manager ?k fresh_mutations None (fresh_state m2 ?js [] []) = (Inr (), fresh_state m3 ?js [] [])"
    by (rule fresh_clean [OF same])
  have 4: "remove_journal ''release1'' (fresh_state m3 ?js [] []) = (Inr (), fresh_state (Suc m3) [] [] [])"
    by (simp add: remove_journal_def run_simps fresh_state_def)
  have "rollback example_manager ''release1'' (fresh_state n [(''release1'', Document (sealed j))] ?mods ?files) = (Inr (), fresh_state (Suc m3) [] [] [])"
    using fresh_read [OF j, of n ?mods ?files] 1 2 3 4 of_fresh_simps(1,2) [OF k]
    by (simp add: rollback_def rollback_journal_def cleanup_artifacts_def andthen_def attempt_def del: cleanup_each.simps rollback_each.simps)
  then show ?thesis by (rule that)
qed

section \<open>From the preparation on\<close>

text \<open>C3: Suppose \<open>Prepare\<close> has returned a journal of a new operation without an error, and no target of it lies within
  another. After any sequence of \<open>Publish\<close>, \<open>Rollback\<close> and \<open>Recover\<close>, whatever calls fail in it, whatever stood at a
  target before \<open>Prepare\<close> stands there or beside it as the backup, but for its permissions; and a \<open>Rollback\<close> after it
  that reports no error has put every target back to what it was before \<open>Prepare\<close>, with no stage, no backup and no
  journal left.\<close>

theorem prepared_release_is_reversible:
  fixes s s0 :: "'s dist_db_scheme"
  assumes "manager_ok mg" and "prepare mg pl s = (Inr j, s0)" and "map_of (journal_files s) (dn_operation pl) = None"
    and "apart mg j" and "u \<in> set (dj_mutations j)" and "s1 = run_calls mg oid cs s0"
  shows "\<exists>t p b. mutation_paths mg j u = Inr (t, p, b) \<and> du_had u = (file_at t s \<noteq> None) \<and>
    (\<forall>x. file_at t s = Some x \<longrightarrow> (\<exists>y. alike x y \<and> (file_at t s1 = Some y \<or> file_at b s1 = Some y))) \<and>
    (\<forall>s2. rollback mg (dj_operation j) s1 = (Inr (), s2) \<longrightarrow>
      restored (file_at t s) (slot_at (t, p, b) s2) \<and> journal_files s2 = [])"
proof -
  note kept = prepared_reversible [OF assms(1,4,2,3)]
  from kept(2) assms(5) obtain t p b where tpb: "mutation_paths mg j u = Inr (t, p, b)" and had: "du_had u = (file_at t s \<noteq> None)"
    by blast
  have hads: "du_had v = (original mg j s v \<noteq> None)" if "v \<in> set (dj_mutations j)" for v
    using kept(2) [OF that] by (auto simp: original_def)
  have "original mg j s u = file_at t s" using tpb by (simp add: original_def)
  with reversible_release [OF assms(1,4) hads kept(1) assms(5) tpb, of oid cs] tpb had assms(6) show ?thesis by simp
qed

text \<open>The example: its release is prepared and rolled back.\<close>

theorem prepared_release_is_reversible_witness:
  "\<exists>j s0 s2. prepare example_manager (fresh_plan []) (fresh_state 0 [] [] []) = (Inr j, s0) \<and>
     rollback example_manager ''release1'' (run_calls example_manager ''release1'' [] s0) = (Inr (), s2) \<and>
     file_at [''s'', ''r'', ''w'', ''.dst-admin-overrides-stage-release1-001''] s0 = Some (Plain 416 ''new'') \<and>
     restored None (slot_at ([''s'', ''r'', ''w'', ''modoverrides.lua''], [''s'', ''r'', ''w'', ''.dst-admin-overrides-stage-release1-001''],
       [''s'', ''r'', ''w'', ''.dst-admin-overrides-backup-release1-001'']) s2) \<and> journal_files s2 = []"
proof -
  let ?mods = "[(''.dst-admin-setup-stage-release1-000'', Plain 416 fresh_setup)]"
  let ?files = "[(''.dst-admin-overrides-stage-release1-001'', Plain 416 ''new'')]"
  let ?s = "fresh_state 0 [] [] []"
  let ?u = "fresh_mutations ! 1"
  obtain m j where j: "of_fresh j" and prep: "prepare example_manager (fresh_plan []) ?s = (Inr j, fresh_state m [(''release1'', Document (sealed j))] ?mods ?files)"
    by (rule fresh_prepare)
  let ?later = "fresh_state m [(''release1'', Document (sealed j))] ?mods ?files"
  obtain m2 where undone: "rollback example_manager ''release1'' ?later = (Inr (), fresh_state m2 [] [] [])" by (rule fresh_rollback [OF j])
  note paths = fresh_paths [OF of_fresh_simps(3) [OF j]]
  have ok: "manager_ok example_manager" by (simp add: manager_ok_def example_manager_def)
  have apart: "apart example_manager j"
    using paths by (simp add: apart_def of_fresh_simps(2) [OF j] mutation_files_def) (simp add: fresh_mutations_def parallel_def)
  have none: "map_of (journal_files ?s) (dn_operation (fresh_plan [])) = None" by (simp add: fresh_state_def fresh_plan_def)
  have u: "?u \<in> set (dj_mutations j)" by (simp add: of_fresh_simps(2) [OF j] fresh_mutations_def)
  from prepared_release_is_reversible [OF ok prep none apart u refl, of "''release1''" "[]"]
  have "restored (file_at [''s'', ''r'', ''w'', ''modoverrides.lua''] ?s)
      (slot_at ([''s'', ''r'', ''w'', ''modoverrides.lua''], [''s'', ''r'', ''w'', ''.dst-admin-overrides-stage-release1-001''],
       [''s'', ''r'', ''w'', ''.dst-admin-overrides-backup-release1-001'']) (fresh_state m2 [] [] [])) \<and> journal_files (fresh_state m2 [] [] []) = []"
    using undone paths(2) by (simp add: run_calls_def of_fresh_simps(1) [OF j])
  moreover have "file_at [''s'', ''r'', ''w'', ''modoverrides.lua''] ?s = None"
    "file_at [''s'', ''r'', ''w'', ''.dst-admin-overrides-stage-release1-001''] ?later = Some (Plain 416 ''new'')"
    by (simp_all add: file_at_def fresh_state_def)
  ultimately show ?thesis using prep undone unfolding run_calls_def by auto
qed

end
