(* ===== verification/Dist_Unchanged.thy ===== *)
theory Dist_Unchanged
  imports Dist_Promise
begin

text \<open>
  A release that changes no file: \<open>Prepare\<close> writes a journal without mutations and reports success, but \<open>readJournal\<close>
  takes such a journal for a broken one. So the release can neither be published, nor completed, nor rolled back, and
  its journal keeps every other release from being prepared.
\<close>

section \<open>A journal without mutations\<close>

definition stuck :: "string \<Rightarrow> 's dist_db_scheme \<Rightarrow> bool" where
  "stuck oid s \<longleftrightarrow> (\<exists>j. journal_files s = [(oid, Document j)] \<and> dj_mutations j = [])"

lemma stuck_cong: "journal_files s' = journal_files s \<Longrightarrow> stuck oid s' = stuck oid s"
  by (simp add: stuck_def)

lemma check_no_mutations: "dj_mutations j = [] \<Longrightarrow> check_journal mg oid j = Inl [Dist_Integrity]"
  by (simp add: check_journal_def journal_ok_def)

lemma stuck_read:
  fixes s :: "'s dist_db_scheme"
  assumes "stuck oid s" and run: "read_journal mg oid s = (r, s')"
  obtains e where "r = Inl e" "\<not> is_not_exist e" "stuck oid s'"
proof -
  from assms(1) obtain j where j: "journal_files s = [(oid, Document j)]" "dj_mutations j = []" by (auto simp: stuck_def)
  note read = read_journal_outcome(2) [OF run]
  have "\<exists>e. r = Inl e"
    using run j check_no_mutations [OF j(2)]
    by (cases r) (auto simp: read_journal_def andthen_eq_Inr_iff)
  moreover have "map_of (journal_files s) oid \<noteq> None" using j by simp
  ultimately show ?thesis using that read_journal_exists run stuck_cong [OF read] assms(1) by blast
qed

lemma stuck_publish:
  fixes s :: "'s dist_db_scheme"
  assumes "stuck oid s" and "publish_operation mg oid s = (r, s')"
  shows "(\<exists>e. r = Inl e) \<and> stuck oid s'"
proof -
  obtain x s1 where x: "read_journal mg oid s = (x, s1)" by fastforce
  with assms(1) obtain e where "x = Inl e" "stuck oid s1" by (rule stuck_read)
  with x assms(2) show ?thesis by (auto simp: publish_operation_def andthen_def)
qed

lemma stuck_complete:
  fixes s :: "'s dist_db_scheme"
  assumes "stuck oid s" and "complete mg oid s = (r, s')"
  shows "(\<exists>e. r = Inl e) \<and> stuck oid s'"
proof -
  obtain x s1 where x: "read_journal mg oid s = (x, s1)" by fastforce
  with assms(1) obtain e where "x = Inl e" "\<not> is_not_exist e" "stuck oid s1" by (rule stuck_read)
  with x assms(2) show ?thesis by (auto simp: complete_def andthen_def attempt_def)
qed

lemma stuck_rollback:
  fixes s :: "'s dist_db_scheme"
  assumes "stuck oid s" and "rollback mg oid s = (r, s')"
  shows "(\<exists>e. r = Inl e) \<and> stuck oid s'"
proof -
  obtain x s1 where x: "read_journal mg oid s = (x, s1)" by fastforce
  with assms(1) obtain e where "x = Inl e" "\<not> is_not_exist e" "stuck oid s1" by (rule stuck_read)
  with x assms(2) show ?thesis by (auto simp: rollback_def andthen_def attempt_def)
qed

lemma stuck_recover:
  fixes s :: "'s dist_db_scheme"
  assumes "stuck oid s" and "recover mg s = (r, s')"
  shows "stuck oid s'"
proof -
  obtain w s1 where w: "external [File_Failed Input_Output] s = (w :: dist_errs + unit, s1)" by fastforce
  then have s1: "stuck oid s1" and files: "map fst (journal_files s1) = [oid]"
    using assms(1) by (auto simp: external_def stuck_def split: if_splits)
  obtain c s2 where c: "ctx_ok s1 = (c, s2)" by fastforce
  then have s2: "stuck oid s2" using s1 by (auto simp: ctx_ok_def ctx_err_def stuck_def split: if_splits)
  obtain x s3 where x: "read_journal mg oid s2 = (x, s3)" by fastforce
  with s2 obtain e where "x = Inl e" and s3: "stuck oid s3" by (rule stuck_read)
  with x have "recover_journal mg oid s2 = (Inr \<lparr>dr_operation = oid, dr_action = Recovery_Blocked, dr_error = e\<rparr>, s3)"
    by (simp add: recover_journal_def andthen_def attempt_def)
  with w c files assms(2) have "journal_files s' \<in> {journal_files s1, journal_files s2, journal_files s3}"
    by (cases w; cases c) (auto simp: recover_def andthen_def attempt_def)
  with s1 s2 s3 stuck_cong show ?thesis by (metis empty_iff insert_iff)
qed

lemma stuck_prepare:
  fixes s :: "'s dist_db_scheme"
  assumes "stuck oid s"
  shows "\<exists>e s'. prepare mg p s = (Inl e, s')"
proof (rule ccontr)
  assume "\<not> ?thesis"
  then obtain j s' where "prepare mg p s = (Inr j, s')" by (metis surj_pair sum.exhaust)
  then obtain s1 where "ensure_no_active_journal (dn_operation p) s = (Inr (), s1)"
    and "andthen (rebuild_plan mg p) (\<lambda>canonical. andthen (attempt (read_journal mg (dn_operation p))) (\<lambda>r.
        case r of Inr old \<Rightarrow> if dj_phase old = Phase_Prepared \<or> dj_phase old = Phase_Published then return_ok old else raise [Dist_Conflict]
        | Inl e \<Rightarrow> if \<not> is_not_exist e then raise e else prepare_new mg canonical)) s1 = (Inr j, s')"
    unfolding prepare_def by (auto elim: andthen_InrE)
  then obtain canonical s2 where 1: "ensure_no_active_journal (dn_operation p) s = (Inr (), s1)" and 2: "rebuild_plan mg p s1 = (Inr canonical, s2)"
    and 3: "andthen (attempt (read_journal mg (dn_operation p))) (\<lambda>r.
        case r of Inr old \<Rightarrow> if dj_phase old = Phase_Prepared \<or> dj_phase old = Phase_Published then return_ok old else raise [Dist_Conflict]
        | Inl e \<Rightarrow> if \<not> is_not_exist e then raise e else prepare_new mg canonical) s2 = (Inr j, s')"
    by (blast elim: andthen_InrE)
  have "oid = dn_operation p"
    using 1 assms by (auto simp: ensure_no_active_journal_def andthen_eq_Inr_iff stuck_def split: if_splits)
  moreover have "stuck oid s2"
    using only_steps_trans [OF movesD [OF reads.books_reading(5) 1] movesD [OF reads.planning 2]] assms
    by (auto simp: only_steps_def stuck_def)
  ultimately obtain e s3 where "read_journal mg (dn_operation p) s2 = (Inl e, s3)" "\<not> is_not_exist e"
    by (metis stuck_read surj_pair)
  with 3 show False by (simp add: andthen_def attempt_def)
qed

section \<open>A release that changes nothing\<close>

datatype agent_call = Before_Complete dist_call | Call_Complete

fun run_agent :: "manager \<Rightarrow> string \<Rightarrow> agent_call \<Rightarrow> 's dist_db_scheme \<Rightarrow> 's dist_db_scheme" where
  "run_agent mg oid (Before_Complete c) s = run_call mg oid c s"
| "run_agent mg oid Call_Complete s = snd (complete mg oid s)"

lemma stuck_agent: "stuck oid s \<Longrightarrow> stuck oid (fold (run_agent mg oid) cs s)"
proof (induction cs arbitrary: s)
  case (Cons c cs)
  note one = stuck_publish [OF Cons.prems, of mg] stuck_complete [OF Cons.prems, of mg] stuck_rollback [OF Cons.prems, of mg]
    stuck_recover [OF Cons.prems, of mg]
  have "stuck oid (run_agent mg oid c s)"
  proof (cases c)
    case (Before_Complete d)
    with one show ?thesis by (cases d) (simp_all add: prod_eq_iff)
  qed (use one in \<open>simp add: prod_eq_iff\<close>)
  with Cons.IH show ?case by simp
qed simp

text \<open>C38: Suppose \<open>Prepare\<close> of a new operation succeeds, and its journal has no mutation, since every file is what the
  release makes it. Whatever the agent then calls, \<open>Publish\<close>, \<open>Complete\<close>, \<open>Rollback\<close> and \<open>Recover\<close> in any order,
  the journal stays, so that each further \<open>Publish\<close>, \<open>Complete\<close> and \<open>Rollback\<close> of it fails, and so does \<open>Prepare\<close> of
  every release, this one or another.\<close>

theorem unchanged_release_blocks:
  fixes s s0 :: "'s dist_db_scheme"
  assumes "prepare mg pl s = (Inr j, s0)" and "map_of (journal_files s) (dn_operation pl) = None"
    and "dj_mutations j = []" and "s1 = fold (run_agent mg (dj_operation j)) cs s0"
  shows "journal_files s1 \<noteq> [] \<and> (\<exists>e. fst (publish_operation mg (dj_operation j) s1) = Inl e) \<and>
    (\<exists>e. fst (complete mg (dj_operation j) s1) = Inl e) \<and> (\<exists>e. fst (rollback mg (dj_operation j) s1) = Inl e) \<and>
    (\<exists>e. fst (prepare mg pl' s1) = Inl e)"
proof -
  from assms(1,2) have "journal_files s0 = [(dj_operation j, Document (sealed j))]" by (rule prepare_Inr)
  then have "stuck (dj_operation j) s0" using assms(3) by (simp add: stuck_def sealed_def)
  then have s1: "stuck (dj_operation j) s1" unfolding assms(4) by (rule stuck_agent)
  show ?thesis
    using stuck_publish [OF s1] stuck_complete [OF s1] stuck_rollback [OF s1] stuck_prepare [OF s1] s1
    by (auto simp: stuck_def prod_eq_iff)
qed

section \<open>An example\<close>

text \<open>The same release again, over the files it has made.\<close>

lemma again_compose: "compose_managed_setup fresh_setup [] = Inr fresh_setup"
  by (simp add: compose_managed_setup_def fresh_setup_def setup_text_def setup_parts_def setup_newline_def trim_line_ends_def mark_defs crlf_def
      max_overrides_def control_chars has_prefix_def line_end_def)

definition again_mods :: "(string \<times> file_node) list" where
  "again_mods = [(''dedicated_server_mods_setup.lua'', Plain 420 fresh_setup)]"

definition again_files :: "(string \<times> file_node) list" where
  "again_files = [(''modoverrides.lua'', Plain 420 ''new'')]"

definition again_plan :: dist_plan where
  "again_plan = (fresh_plan fresh_setup)\<lparr>dn_installations := map (\<lambda>g. g\<lparr>dp_setup_base := hash_bytes fresh_setup\<rparr>) (dn_installations (fresh_plan fresh_setup))\<rparr>"

lemma again_rebuild:
  obtains m where "rebuild_plan example_manager (fresh_plan []) (fresh_state n js again_mods again_files) = (Inr again_plan, fresh_state m js again_mods again_files)"
  using fresh_length
  by (simp add: rebuild_plan_def again_plan_def fresh_plan_def empty_group_def example_manager_def fresh_shard_def build_plan_def
    run_simps example_names fresh_facts Let_def shard_ok_def shard_overrides_def max_overrides_def max_plan_config_def control_chars
    finish_group_def with_manifest_def read_optional_def upt_rec sort_mods_def fresh_state_def setup_path_def
    keep_created_def bytes_of_def sha_of_def again_compose again_mods_def again_files_def)

lemma again_build:
  obtains m where "build_mutations example_manager again_plan (fresh_state n js again_mods again_files) = (Inr [], fresh_state m js again_mods again_files)"
  by (simp add: build_mutations_def states_or_none_def read_states_def is_not_exist_def again_plan_def fresh_plan_def empty_group_def
    example_manager_def fresh_shard_def run_simps example_names fresh_facts Let_def installation_mutations_def managed_mutation_def
    overrides_path_def upt_rec fresh_state_def setup_path_def number_mutations_def again_mods_def again_files_def)

lemma again_prepare:
  obtains m where "prepare example_manager (fresh_plan []) (fresh_state 0 [] again_mods again_files) =
    (Inr (new_journal again_plan [] 0\<lparr>dj_phase := Phase_Prepared\<rparr>), m)"
proof -
  have 1: "ensure_no_active_journal ''release1'' (fresh_state 0 [] again_mods again_files) = (Inr (), fresh_state 1 [] again_mods again_files)"
    by (simp add: ensure_no_active_journal_def run_simps fresh_state_def)
  obtain m2 where 2: "rebuild_plan example_manager (fresh_plan []) (fresh_state 1 [] again_mods again_files) = (Inr again_plan, fresh_state m2 [] again_mods again_files)"
    by (rule again_rebuild)
  have 3: "read_journal example_manager ''release1'' (fresh_state m2 [] again_mods again_files) =
      (Inl [File_Failed Not_Exist], fresh_state (Suc m2) [] again_mods again_files)"
    by (simp add: read_journal_def run_simps example_names fresh_state_def)
  obtain m4 where 4: "build_mutations example_manager again_plan (fresh_state (Suc m2) [] again_mods again_files) = (Inr [], fresh_state m4 [] again_mods again_files)"
    by (rule again_build)
  have 5: "\<exists>m. stage_journal example_manager (new_journal again_plan [] 0) (fresh_state n [] again_mods again_files) =
      (Inr (new_journal again_plan [] 0\<lparr>dj_phase := Phase_Prepared\<rparr>), m)" for n
    by (simp add: stage_journal_def or_rollback_def write_journal_def write_atomic_def run_simps example_names Let_def new_journal_def
        again_plan_def fresh_plan_def fresh_state_def)
  have op: "dn_operation (fresh_plan []) = ''release1''" by (simp add: fresh_plan_def)
  obtain m6 where 6: "stage_journal example_manager (new_journal again_plan [] 0) (fresh_state (Suc m4) [] again_mods again_files) =
      (Inr (new_journal again_plan [] 0\<lparr>dj_phase := Phase_Prepared\<rparr>), m6)" using 5 by blast
  have now: "read_now (fresh_state n js mods files) = (Inr 0 :: dist_errs + int, fresh_state (Suc n) js mods files)" for n js mods files
    unfolding read_now_def by (simp add: fresh_state_def)
  have "prepare example_manager (fresh_plan []) (fresh_state 0 [] again_mods again_files) = (Inr (new_journal again_plan [] 0\<lparr>dj_phase := Phase_Prepared\<rparr>), m6)"
    using 1 2 3 4 6 now by (simp add: prepare_def prepare_new_def andthen_def attempt_def op is_not_exist_def)
  then show ?thesis by (rule that)
qed

text \<open>A rollback and a recovery do not help; the next release cannot be prepared.\<close>

theorem unchanged_release_blocks_witness:
  "\<exists>j s0. prepare example_manager (fresh_plan []) (fresh_state 0 [] again_mods again_files) = (Inr j, s0) \<and>
    (\<exists>e. fst (publish_operation example_manager ''release1'' s0) = Inl e) \<and>
    (\<exists>e. fst (prepare example_manager ((fresh_plan [])\<lparr>dn_operation := ''release2''\<rparr>)
       (fold (run_agent example_manager ''release1'') [Before_Complete Call_Rollback, Before_Complete Call_Recover] s0)) = Inl e)"
proof -
  let ?j = "new_journal again_plan [] 0\<lparr>dj_phase := Phase_Prepared\<rparr>"
  let ?calls = "[Before_Complete Call_Rollback, Before_Complete Call_Recover]"
  obtain start where prep: "prepare example_manager (fresh_plan []) (fresh_state 0 [] again_mods again_files) = (Inr ?j, start)" by (rule again_prepare)
  have none: "map_of (journal_files (fresh_state 0 [] again_mods again_files)) (dn_operation (fresh_plan [])) = None"
    by (simp add: fresh_state_def)
  have j: "dj_mutations ?j = []" "dj_operation ?j = ''release1''" by (simp_all add: new_journal_def again_plan_def fresh_plan_def)
  from unchanged_release_blocks [OF prep none j(1) refl, of "[]"] unchanged_release_blocks [OF prep none j(1) refl, of ?calls "(fresh_plan [])\<lparr>dn_operation := ''release2''\<rparr>"]
  show ?thesis using prep j(2) by auto
qed

end
