(* ===== verification/Dist_Complete.thy ===== *)
theory Dist_Complete
  imports Dist_Promise
begin

text \<open>
  The end of a release: \<open>Complete\<close> checks what was published, records it and only then drops the originals.
\<close>

section \<open>Local links\<close>

context dist_relation begin

lemma observing: "moves R (observe_usable p)"
  unfolding observe_usable_def by (intro moves_intros)

lemma local_entry: "moves R (local_mod_entry p source)"
  unfolding local_mod_entry_def by (intro moves_intros observing) (auto split: file_node.split intro!: moves_intros observing)

lemma symlink: "may p \<Longrightarrow> moves R (symlink source p)"
  unfolding symlink_def by (intro moves_intros)

lemma checking_links: "moves R (check_links mods content ws)"
  by (induction ws) (auto intro!: moves_intros observing local_entry)

lemma making_links:
  assumes "\<And>w. w \<in> set ws \<Longrightarrow> may (mods @ [''workshop-'' @ w])"
  shows "moves R (make_links mods content ws)"
  using assms
proof (induction ws)
  case (Cons w ws)
  then have "may (mods @ [''workshop-'' @ w])" and "moves R (make_links mods content ws)" by simp_all
  then show ?case unfolding make_links.simps Let_def by (intro moves_intros local_entry symlink)
qed (auto intro: moves_intros)

lemma linking:
  assumes "\<And>w. w \<in> set ws \<Longrightarrow> may (server @ [''mods'', ''workshop-'' @ w])" and "ws \<noteq> [] \<Longrightarrow> mk (server @ [''mods''])"
  shows "moves R (link_workshop_mods server content ws)"
proof (cases "ws = []")
  case False
  then have "mk (server @ [''mods''])" using assms(2) by simp
  moreover have "moves R (make_links (server @ [''mods'']) content ws)" by (rule making_links) (use assms(1) in simp)
  ultimately show ?thesis unfolding link_workshop_mods_def Let_def by (intro moves_intros checking_links)
qed (auto simp: link_workshop_mods_def intro!: moves_intros)

end

text \<open>The links that completing a plan makes.\<close>

definition links_of :: "manager \<Rightarrow> installation_plan \<Rightarrow> path list" where
  "links_of mg g =
     (case map_of (mg_installations mg) (dp_installation g) of
        None \<Rightarrow> []
      | Some inst \<Rightarrow>
          (case di_content inst of
             None \<Rightarrow> []
           | Some c \<Rightarrow> map (\<lambda>m. di_server inst @ [''mods'', ''workshop-'' @ dv_workshop m]) (dp_mods g)))"

definition link_paths :: "manager \<Rightarrow> dist_plan \<Rightarrow> path list" where
  "link_paths mg p = concat (map (links_of mg) (dn_installations p))"

context dist_relation begin

lemma linking_installations:
  assumes "\<And>g q. g \<in> set gs \<Longrightarrow> q \<in> set (links_of mg g) \<Longrightarrow> may q \<and> mk (butlast q)"
  shows "moves R (link_installations mg gs)"
  using assms
proof (induction gs)
  case (Cons g gs)
  have "moves R (link_local_mods mg (dp_installation g) (map dv_workshop (dp_mods g)))"
  proof (cases "map_of (mg_installations mg) (dp_installation g)")
    case (Some inst)
    show ?thesis
    proof (cases "di_content inst")
      case (Some content)
      have at: "may (di_server inst @ [''mods'', ''workshop-'' @ dv_workshop m]) \<and> mk (di_server inst @ [''mods''])"
        if "m \<in> set (dp_mods g)" for m
      proof -
        have "di_server inst @ [''mods'', ''workshop-'' @ dv_workshop m] \<in> set (links_of mg g)"
          using that Some \<open>map_of (mg_installations mg) (dp_installation g) = Some inst\<close> by (simp add: links_of_def)
        with Cons.prems [of g] show ?thesis by (fastforce simp: butlast_append)
      qed
      have "moves R (link_workshop_mods (di_server inst) content (map dv_workshop (dp_mods g)))"
      proof (rule linking)
        show "mk (di_server inst @ [''mods''])" if "map dv_workshop (dp_mods g) \<noteq> []"
          using at that by (metis list.set_intros(1) list.simps(8) neq_Nil_conv)
      qed (use at in auto)
      with Some \<open>map_of (mg_installations mg) (dp_installation g) = Some inst\<close> show ?thesis by (simp add: link_local_mods_def)
    qed (simp add: link_local_mods_def \<open>map_of (mg_installations mg) (dp_installation g) = Some inst\<close> basic)
  qed (auto simp: link_local_mods_def intro: moves_intros)
  moreover have "moves R (link_installations mg gs)" by (rule Cons.IH) (rule Cons.prems, simp_all)
  ultimately show ?case unfolding link_installations.simps by (rule sequence)
qed (auto intro: moves_intros)

lemma making_states: "moves R states_or_none" "moves R (new_states p gs states)"
proof -
  show "moves R states_or_none" unfolding states_or_none_def by (intro moves_intros)
  show "moves R (new_states p gs states)"
    by (induction gs arbitrary: states) (auto simp: Let_def intro!: moves_intros)
qed

end

context dist_books begin

lemma writing_states: "moves R (write_installation_states p)"
  unfolding write_installation_states_def by (intro moves_intros making_states states)

end

interpretation paper: dist_books "\<lambda>s s'. tree s' = tree s" "\<lambda>_. False" "\<lambda>_. False"
  by unfold_locales auto

interpretation ledger: dist_relation "\<lambda>s s'. state_file s' = state_file s" "\<lambda>_. True" "\<lambda>_. True"
  by unfold_locales auto

lemma ledger_phase: "moves (\<lambda>s s'. state_file s' = state_file s) (enter_phase ph j)"
  unfolding enter_phase_def write_journal_def write_atomic_def Let_def
  by (intro ledger.sequence ledger.basic ledger.environment ledger.modify) simp


section \<open>What is checked\<close>

text \<open>The target of a mutation is what the release makes it.\<close>

definition published_at :: "manager \<Rightarrow> dist_journal \<Rightarrow> 's files_scheme \<Rightarrow> mutation \<Rightarrow> bool" where
  "published_at mg j s u \<longleftrightarrow>
     (\<exists>t p b n h. mutation_paths mg j u = Inr (t, p, b) \<and> file_at t s = Some n \<and> digest_is (is_mod u) n h \<and>
        to_lower h = to_lower (new_digest u))"

lemma published_cong:
  assumes "\<And>t p b. mutation_paths mg j u = Inr (t, p, b) \<Longrightarrow> file_at t s' = file_at t s"
  shows "published_at mg j s' u = published_at mg j s u"
proof (cases "mutation_paths mg j u")
  case (Inr ps)
  with assms show ?thesis by (cases ps) (simp add: published_at_def)
qed (simp add: published_at_def)

lemma verify_cached_Inr:
  fixes s :: "'s dist_db_scheme"
  assumes "verify_cached w h s = (Inr m, s')"
  shows "to_lower (df_tree m) = to_lower h"
proof -
  obtain r s1 where r: "read_manifest w h s = (r, s1)" by fastforce
  with assms have "r = Inr m" by (cases r) (auto simp: verify_cached_def andthen_def [of "attempt _"] attempt_def elim!: andthen_InrE)
  with r show ?thesis
    by (auto simp: read_manifest_def manifest_fits_def andthen_eq_Inr_iff split: option.splits document.splits if_splits)
qed

lemma read_file_Inr:
  fixes s :: "'s dist_db_scheme"
  assumes "read_file p s = (Inr c, s')"
  shows "\<exists>m. file_at p s = Some (Plain m c)"
proof -
  obtain x s1 where x: "lstat p s = (Inr x, s1)"
    and rest: "(case x of None \<Rightarrow> raise Not_Exist | Some (Plain m c) \<Rightarrow> return_ok c | Some _ \<Rightarrow> raise Is_Directory) s1 = (Inr c, s')"
    using assms unfolding read_file_def by (rule andthen_InrE)
  from rest obtain m where "x = Some (Plain m c)" by (auto split: option.splits file_node.splits)
  with lstat_Inr(1) [OF x] show ?thesis by metis
qed

lemma verify_target_Inr:
  fixes s :: "'s dist_db_scheme"
  assumes "verify_target u t s = (Inr x, s')"
  obtains n h where "file_at t s = Some n" "digest_is (is_mod u) n h" "to_lower h = to_lower (new_digest u)"
proof (cases "is_mod u")
  case True
  with assms obtain m s1 where m: "verify_cached (du_workshop u) (du_tree u) s = (Inr m, s1)"
    and rest: "andthen (attempt (scan_tree t)) (\<lambda>r. case r of Inl e \<Rightarrow> raise (Dist_Integrity # e)
      | Inr (es, sz) \<Rightarrow> guard [Dist_Integrity] (\<not> (sz \<noteq> df_size m \<or> hash_entries es \<noteq> df_tree m \<or> es \<noteq> df_entries m))) s1 = (Inr x, s')"
    unfolding verify_target_def by (auto elim: andthen_InrE)
  obtain r s2 where r: "scan_tree t s1 = (r, s2)" by fastforce
  with rest obtain es sz where es: "r = Inr (es, sz)" "hash_entries es = df_tree m"
    by (cases r) (auto simp: andthen_def attempt_def split: prod.splits if_splits)
  with r have "target_digest t True True s1 = (Inr (hash_entries es), s2)" by (simp add: target_digest_def andthen_def)
  then obtain n where "file_at t s1 = Some n" "digest_is True n (hash_entries es)" by (rule digest_Inr)
  moreover have "file_at t s1 = file_at t s" by (rule only_steps_file [OF movesD [OF reads.cached_reading(3) m]])
  ultimately show ?thesis using that es(2) verify_cached_Inr [OF m] True by (simp add: new_digest_def)
next
  case False
  obtain r s1 where r: "sys (read_file t) s = (r, s1)" by fastforce
  with assms False obtain c where c: "r = Inr c" "hash_bytes c = du_config u"
    by (cases r) (auto simp: verify_target_def andthen_def attempt_def split: if_splits)
  with r read_file_Inr [of t s c s1] obtain m where "file_at t s = Some (Plain m c)" by auto
  with that False c(2) show ?thesis by (simp add: digest_is_def new_digest_def)
qed

lemma verify_published_Inr:
  fixes s :: "'s dist_db_scheme"
  assumes "verify_published mg j us s = (Inr x, s')" and "u \<in> set us"
  shows "published_at mg j s u"
  using assms
proof (induction us arbitrary: s)
  case (Cons v vs)
  obtain y s1 where 1: "ctx_ok s = (Inr y, s1)"
    and r1: "andthen (raise_left (mutation_paths mg j v)) (\<lambda>(t, _, _). andthen (verify_target v t) (\<lambda>_. verify_published mg j vs)) s1 = (Inr x, s')"
    using Cons.prems(1) unfolding verify_published.simps by (rule andthen_InrE)
  obtain t p b where ps: "mutation_paths mg j v = Inr (t, p, b)"
    using r1 by (cases "mutation_paths mg j v") (auto simp: andthen_def raise_left_def)
  with r1 have "andthen (verify_target v t) (\<lambda>_. verify_published mg j vs) s1 = (Inr x, s')"
    by (simp add: andthen_def [of "raise_left _"] raise_left_def)
  then obtain z s2 where 2: "verify_target v t s1 = (Inr z, s2)" and rest: "verify_published mg j vs s2 = (Inr x, s')"
    by (rule andthen_InrE)
  have same: "file_at q s1 = file_at q s" "file_at q s2 = file_at q s" for q
    using only_steps_file [OF movesD [OF reads.small(2) 1]] only_steps_file [OF movesD [OF reads.verifying(1) 2]] by metis+
  show ?case
  proof (cases "u = v")
    case True
    from 2 obtain n h where "file_at t s1 = Some n" "digest_is (is_mod v) n h" "to_lower h = to_lower (new_digest v)"
      by (rule verify_target_Inr)
    with ps same True show ?thesis by (auto simp: published_at_def)
  next
    case False
    with Cons.IH [OF rest] Cons.prems(2) have "published_at mg j s2 u" by simp
    with published_cong [of mg j u s2 s] same show ?thesis by simp
  qed
qed simp

section \<open>What is recorded\<close>

text \<open>The state that completing a plan writes for an installation.\<close>

definition state_written :: "dist_plan \<Rightarrow> string \<Rightarrow> installation_state \<Rightarrow> bool" where
  "state_written p iid st \<longleftrightarrow>
     (\<exists>g \<in> set (dn_installations p). \<exists>now states. dp_installation g = iid \<and>
        st = (if dn_mode p = Content_Mode then content_state p g now states else release_state p g now))"

definition recorded :: "dist_plan \<Rightarrow> (string \<times> installation_state) list \<Rightarrow> bool" where
  "recorded p states \<longleftrightarrow>
     (\<forall>g \<in> set (dn_installations p). \<exists>st. map_of states (dp_installation g) = Some st \<and> state_written p (dp_installation g) st)"

lemma new_states_Inr:
  fixes s :: "'s dist_db_scheme"
  assumes "new_states p gs states s = (Inr states', s')" and "set gs \<subseteq> set (dn_installations p)"
  shows "iid \<in> dp_installation ` set gs \<or> (\<exists>st. map_of states iid = Some st \<and> state_written p iid st) \<Longrightarrow>
    \<exists>st. map_of states' iid = Some st \<and> state_written p iid st"
  using assms
proof (induction gs arbitrary: states s)
  case (Cons g gs)
  obtain y s1 where 1: "ctx_ok s = (Inr y, s1)" and r1: "andthen read_now (\<lambda>now. new_states p gs
       (put (dp_installation g) (if dn_mode p = Content_Mode then content_state p g now states else release_state p g now) states)) s1 = (Inr states', s')"
    using Cons.prems(2) unfolding new_states.simps by (rule andthen_InrE)
  obtain now s2 where "read_now s1 = (Inr now :: dist_errs + int, s2)" and rest: "new_states p gs
       (put (dp_installation g) (if dn_mode p = Content_Mode then content_state p g now states else release_state p g now) states) s2 = (Inr states', s')"
    using r1 by (rule andthen_InrE)
  let ?st = "if dn_mode p = Content_Mode then content_state p g now states else release_state p g now"
  have "state_written p (dp_installation g) ?st"
    using Cons.prems(3) unfolding state_written_def by (intro bexI [of _ g] exI [of _ now] exI [of _ states]) simp_all
  with Cons.prems(1) have "iid \<in> dp_installation ` set gs \<or> (\<exists>st. map_of (put (dp_installation g) ?st states) iid = Some st \<and> state_written p iid st)"
    by (auto simp: map_of_put)
  from Cons.IH [OF this rest] Cons.prems(3) show ?case by simp
qed simp

lemma write_states_Inr:
  fixes s :: "'s dist_db_scheme"
  assumes "write_installation_states p s = (Inr x, s')"
  shows "\<exists>states. state_file s' = Some (Document states) \<and> recorded p states"
proof -
  obtain states s1 where "andthen (new_states p (dn_installations p) states)
      (\<lambda>states'. write_atomic (\<lambda>s. s\<lparr>state_file := Some (Document states')\<rparr>)) s1 = (Inr x, s')"
    using assms unfolding write_installation_states_def by (rule andthen_InrE)
  then obtain states' s2 where 1: "new_states p (dn_installations p) states s1 = (Inr states', s2)"
    and 2: "write_atomic (\<lambda>s. s\<lparr>state_file := Some (Document states')\<rparr>) s2 = (Inr x, s')" by (rule andthen_InrE)
  from new_states_Inr [OF 1 order_refl] have "recorded p states'" by (auto simp: recorded_def)
  moreover from 2 have "state_file s' = Some (Document states')" by (auto simp: write_atomic_def andthen_eq_Inr_iff)
  ultimately show ?thesis by blast
qed

section \<open>What is cleaned up\<close>

definition artifacts :: "manager \<Rightarrow> dist_journal \<Rightarrow> mutation list \<Rightarrow> path set" where
  "artifacts mg j us = (\<Union>u \<in> set us. case mutation_paths mg j u of Inl _ \<Rightarrow> {} | Inr (t, p, b) \<Rightarrow> {p, b})"

lemma cleanup_each_fails: "cleanup_each mg j us (Some e) s = (r, s') \<Longrightarrow> \<exists>e. r = Inl e"
proof (induction us arbitrary: e s)
  case (Cons u us)
  then show ?case by (auto simp: andthen_def attempt_def join_error_def split: sum.splits prod.splits)
qed (auto simp: end_with_def)

text \<open>What happens to a file when stages and backups are removed: others stay, and a removal that succeeds leaves none.\<close>

lemma remove_one:
  fixes s :: "'s dist_db_scheme"
  assumes "manager_ok mg" "apart mg j" and "remove_target p d s = (r, s')" and "p \<in> all_files mg j" and "q \<in> all_files mg j"
  shows "q \<noteq> p \<Longrightarrow> file_at q s' = file_at q s" and "r = Inr () \<Longrightarrow> p \<noteq> [] \<Longrightarrow> file_at p s' = None"
  using remove_elsewhere [OF assms(3)] all_files_apart [OF assms(1,2,4,5)] remove_target_Inr [of p d s "()" s'] assms(3) by auto

lemma clean_one:
  fixes s :: "'s dist_db_scheme"
  assumes ok: "manager_ok mg" "apart mg j" and run: "joined (remove_target p d) (remove_target b d) s = (x, s')"
    and mem: "p \<in> all_files mg j" "b \<in> all_files mg j" "q \<in> all_files mg j" and root: "p \<noteq> []" "b \<noteq> []"
  shows "q \<notin> {p, b} \<Longrightarrow> file_at q s' = file_at q s"
    and "x = Inr () \<Longrightarrow> q \<in> {p, b} \<or> file_at q s = None \<Longrightarrow> file_at q s' = None"
proof -
  from run obtain y s1 z where 1: "remove_target p d s = (y, s1)" and 2: "remove_target b d s1 = (z, s')"
    and x: "x = Inr () \<longleftrightarrow> y = Inr () \<and> z = Inr ()" by (rule joined_run)
  note first = remove_one [OF ok 1 mem(1,3)] and second = remove_one [OF ok 2 mem(2,3)]
  from first(1) second(1) show "q \<notin> {p, b} \<Longrightarrow> file_at q s' = file_at q s" by simp
  assume "x = Inr ()" and q: "q \<in> {p, b} \<or> file_at q s = None"
  with x have "y = Inr ()" "z = Inr ()" by simp_all
  then have "file_at q s1 = None \<or> q = b" using first root q by (cases "q = p") auto
  then show "file_at q s' = None" using second root \<open>z = Inr ()\<close> by (cases "q = b") auto
qed

lemma cleanup_each_outcome:
  fixes s :: "'s dist_db_scheme"
  assumes ok: "manager_ok mg" "apart mg j" and "cleanup_each mg j us failed s = (r, s')" and "set us \<subseteq> set (dj_mutations j)"
    and q: "q \<in> all_files mg j"
  shows "(q \<notin> artifacts mg j us \<longrightarrow> file_at q s' = file_at q s) \<and>
    (r = Inr () \<longrightarrow> q \<in> artifacts mg j us \<or> file_at q s = None \<longrightarrow> file_at q s' = None)"
  using assms(3,4)
proof (induction us arbitrary: failed s)
  case (Cons u us)
  obtain x s1 where one: "andthen (raise_left (mutation_paths mg j u)) (\<lambda>(target, stage, backup).
      joined (remove_target stage (is_mod u)) (remove_target backup (is_mod u))) s = (x, s1)" by fastforce
  with Cons.prems(1) have rest: "cleanup_each mg j us (join_error failed x) s1 = (r, s')"
    by (simp add: andthen_def attempt_def)
  have good: "x = Inr ()" if "r = Inr ()"
  proof (rule ccontr)
    assume "x \<noteq> Inr ()"
    then obtain e where "join_error failed x = Some e" by (cases x) (auto simp: join_error_def)
    with rest that cleanup_each_fails show False by fastforce
  qed
  have IH: "(q \<notin> artifacts mg j us \<longrightarrow> file_at q s' = file_at q s1) \<and>
      (r = Inr () \<longrightarrow> q \<in> artifacts mg j us \<or> file_at q s1 = None \<longrightarrow> file_at q s' = None)"
    using Cons.IH [OF rest] Cons.prems(2) by simp
  show ?case
  proof (cases "mutation_paths mg j u")
    case (Inl e)
    with one have "s1 = s" by (auto simp: andthen_def raise_left_def)
    moreover have "artifacts mg j (u # us) = artifacts mg j us" using Inl by (simp add: artifacts_def)
    ultimately show ?thesis using IH by simp
  next
    case (Inr ps)
    obtain t p b where ps: "ps = (t, p, b)" by (cases ps) auto
    with one Inr have run: "joined (remove_target p (is_mod u)) (remove_target b (is_mod u)) s = (x, s1)"
      by (simp add: andthen_def raise_left_def)
    have u: "u \<in> set (dj_mutations j)" "mutation_paths mg j u = Inr (t, p, b)" using Cons.prems(2) Inr ps by auto
    then have mem: "p \<in> all_files mg j" "b \<in> all_files mg j" by (force simp: all_files_def mutation_files_def)+
    have root: "p \<noteq> []" "b \<noteq> []" using paths_shape [OF ok(1) u(2)] by blast+
    have more: "artifacts mg j (u # us) = {p, b} \<union> artifacts mg j us" using u(2) by (simp add: artifacts_def)
    from clean_one [OF ok run mem q root] IH good show ?thesis unfolding more by auto
  qed
qed (auto simp: artifacts_def end_with_def split: option.splits)

lemma target_no_artifact:
  assumes ok: "manager_ok mg" "apart mg j" and u: "u \<in> set (dj_mutations j)" "mutation_paths mg j u = Inr (t, p, b)"
  shows "t \<notin> artifacts mg j (dj_mutations j)"
proof
  assume "t \<in> artifacts mg j (dj_mutations j)"
  then obtain v where v: "v \<in> set (dj_mutations j)" and in_v: "t \<in> (case mutation_paths mg j v of Inl _ \<Rightarrow> {} | Inr (t, p, b) \<Rightarrow> {p, b})"
    by (auto simp: artifacts_def)
  then obtain t' p' b' where v': "mutation_paths mg j v = Inr (t', p', b')" "t \<in> {p', b'}"
    by (cases "mutation_paths mg j v") auto
  show False
  proof (cases "u = v")
    case True
    with u v' siblings_apart [OF paths_siblings [OF ok(1) u(2)]] show False by auto
  next
    case False
    moreover have "t \<in> set (mutation_files mg j u)" "t \<in> set (mutation_files mg j v)" using u v' by (auto simp: files_paths)
    ultimately have "t \<parallel> t" using ok(2) u(1) v unfolding apart_def by blast
    then show False by (simp add: parallel_def)
  qed
qed

section \<open>Up to the record\<close>

text \<open>What \<open>Complete\<close> does until the phase committed is written.\<close>

definition commit :: "manager \<Rightarrow> dist_journal \<Rightarrow> ('s dist_db_scheme, dist_journal) dist_act" where
  "commit mg j0 =
     andthen (enter_phase Phase_Completing j0) (\<lambda>j.
     andthen (verify_published mg j (dj_mutations j)) (\<lambda>_.
     andthen (link_installations mg (dn_installations (dj_plan j))) (\<lambda>_.
     andthen (write_installation_states (dj_plan j)) (\<lambda>_.
     enter_phase Phase_Committed j))))"

text \<open>No link that a plan makes is one of the release's files, or within one, or above one.\<close>

definition clear_of_links :: "manager \<Rightarrow> dist_journal \<Rightarrow> bool" where
  "clear_of_links mg j \<longleftrightarrow> (\<forall>l \<in> set (link_paths mg (dj_plan j)). \<forall>q \<in> all_files mg j. l \<parallel> q)"

lemma enter_phase_plan: "enter_phase ph j s = (Inr j', s') \<Longrightarrow> dj_plan j' = dj_plan j"
  by (auto simp: enter_phase_def andthen_eq_Inr_iff Let_def)

lemma beside_above: "l \<parallel> q \<Longrightarrow> \<not> prefix q (butlast l)"
  by (metis append_butlast_last_id butlast.simps(1) parallelD2 prefix_append)

lemma links_beside:
  assumes "clear_of_links mg j" and "g \<in> set (dn_installations (dj_plan j))" and "l \<in> set (links_of mg g)" and "q \<in> all_files mg j"
  shows "l \<parallel> q \<and> \<not> prefix q (butlast l)"
proof -
  have "l \<parallel> q" using assms by (auto simp: clear_of_links_def link_paths_def)
  with beside_above show ?thesis by blast
qed

lemma linking_kept:
  assumes "clear_of_links mg j"
  shows "moves (keeps_intact mg j orig) (link_installations mg (dn_installations (dj_plan j)))"
    and "q \<in> all_files mg j \<Longrightarrow> moves (elsewhere q) (link_installations mg (dn_installations (dj_plan j)))"
  by (rule kept.linking_installations, use links_beside [OF assms] in blast)
     (rule elsewhere.linking_installations, use links_beside [OF assms] in blast)

lemma commit_kept:
  assumes "clear_of_links mg j" and "dj_plan j0 = dj_plan j"
  shows "moves (keeps_intact mg j orig) (commit mg j0 :: ('s dist_db_scheme, dist_journal) dist_act)"
  unfolding commit_def
proof (rule moves_result [where P = "\<lambda>j1. dj_plan j1 = dj_plan j"])
  show "enter_phase Phase_Completing j0 s = (Inr j1, s') \<Longrightarrow> dj_plan j1 = dj_plan j" for s :: "'s dist_db_scheme" and j1 s'
    using enter_phase_plan assms(2) by metis
  show "moves (keeps_intact mg j orig) (andthen (verify_published mg j1 (dj_mutations j1)) (\<lambda>_.
      andthen (link_installations mg (dn_installations (dj_plan j1))) (\<lambda>_.
      andthen (write_installation_states (dj_plan j1)) (\<lambda>_. enter_phase Phase_Committed j1))) :: ('s dist_db_scheme, dist_journal) dist_act)"
    if "dj_plan j1 = dj_plan j" for j1
    unfolding that
    by (intro kept.sequence kept.verifying linking_kept(1) [OF assms(1)] kept.writing_states kept.journal_calls)
qed (rule kept.journal_calls kept.trans_R; assumption?)+

lemma commit_Inr:
  fixes s :: "'s dist_db_scheme"
  assumes run: "commit mg j0 s = (Inr j2, s')" and clear: "clear_of_links mg j" and j0: "same_paths j j0" "dj_plan j0 = dj_plan j"
  shows "same_paths j j2" and "\<exists>states. state_file s' = Some (Document states) \<and> recorded (dj_plan j) states"
    and "u \<in> set (dj_mutations j) \<Longrightarrow> published_at mg j s' u"
proof -
  obtain j1 s1 where 1: "enter_phase Phase_Completing j0 s = (Inr j1, s1)"
    and r1: "andthen (verify_published mg j1 (dj_mutations j1)) (\<lambda>_. andthen (link_installations mg (dn_installations (dj_plan j1))) (\<lambda>_.
      andthen (write_installation_states (dj_plan j1)) (\<lambda>_. enter_phase Phase_Committed j1))) s1 = (Inr j2, s')"
    using run unfolding commit_def by (rule andthen_InrE)
  obtain y2 s2 where 2: "verify_published mg j1 (dj_mutations j1) s1 = (Inr y2, s2)"
    and r2: "andthen (link_installations mg (dn_installations (dj_plan j1))) (\<lambda>_.
      andthen (write_installation_states (dj_plan j1)) (\<lambda>_. enter_phase Phase_Committed j1)) s2 = (Inr j2, s')"
    using r1 by (rule andthen_InrE)
  obtain y3 s3 where 3: "link_installations mg (dn_installations (dj_plan j1)) s2 = (Inr y3, s3)"
    and r3: "andthen (write_installation_states (dj_plan j1)) (\<lambda>_. enter_phase Phase_Committed j1) s3 = (Inr j2, s')"
    using r2 by (rule andthen_InrE)
  obtain y4 s4 where 4: "write_installation_states (dj_plan j1) s3 = (Inr y4, s4)" and 5: "enter_phase Phase_Committed j1 s4 = (Inr j2, s')"
    using r3 by (rule andthen_InrE)
  have j1: "same_paths j j1" "dj_plan j1 = dj_plan j"
    using enter_phase_Inr [OF 1] enter_phase_plan [OF 1] same_paths_trans [OF j0(1)] j0(2) by auto
  with enter_phase_Inr [OF 5] same_paths_trans show "same_paths j j2" by blast
  show "\<exists>states. state_file s' = Some (Document states) \<and> recorded (dj_plan j) states"
    using write_states_Inr [OF 4] movesD [OF ledger_phase 5] j1(2) by simp
  assume u: "u \<in> set (dj_mutations j)"
  then have "published_at mg j1 s1 u" using verify_published_Inr [OF 2] j1(1) by (simp add: same_paths_def)
  then have at1: "published_at mg j s1 u" by (simp add: published_at_def mutation_paths_same [OF j1(1)])
  have "file_at q s' = file_at q s1" if "q \<in> all_files mg j" for q
  proof -
    have "file_at q s2 = file_at q s1" by (rule only_steps_file [OF movesD [OF reads.verifying(2) 2]])
    moreover have "elsewhere q s2 s3" using movesD [OF linking_kept(2) [OF clear that], of s2 "Inr y3" s3] 3 j1(2) by simp
    moreover have "tree s' = tree s3" using movesD [OF paper.writing_states 4] movesD [OF paper.journal_calls(3) 5] by simp
    ultimately show ?thesis by (simp add: elsewhere_def file_at_def)
  qed
  moreover have "mutation_paths mg j u = Inr (t, p, b) \<Longrightarrow> t \<in> all_files mg j" for t p b
    using u by (force simp: all_files_def mutation_files_def)
  ultimately show "published_at mg j s' u" using at1 published_cong [of mg j u s' s1] by blast
qed

lemma complete_rest:
  fixes s :: "'s dist_db_scheme"
  assumes run: "complete mg oid s = (r, s')" and here: "map_of (journal_files s) oid = Some (Document j)"
    and ph: "dj_phase j = Phase_Published \<or> dj_phase j = Phase_Completing"
  obtains (unread) "only_steps s s'" "r \<noteq> Inr ()"
    | (decided) s1 where "only_steps s s1" "dj_operation j = oid"
      "andthen (commit mg j) (\<lambda>j2. andthen (cleanup_artifacts mg j2) (\<lambda>_. remove_journal oid)) s1 = (r, s')"
proof -
  obtain x s1 where x: "read_journal mg oid s = (x, s1)" by fastforce
  have o1: "only_steps s s1" by (rule movesD [OF reads.books_reading(1) x])
  show ?thesis
  proof (cases x)
    case (Inl e)
    with x here have "\<not> is_not_exist e" using read_journal_exists by blast
    with run x Inl o1 unread show ?thesis by (auto simp: complete_def andthen_def attempt_def)
  next
    case (Inr j')
    with read_journal_outcome(3) [OF x] here have j': "j' = j" by simp
    have "check_journal mg oid j = Inr j"
      using x Inr here j' by (auto simp: read_journal_def andthen_eq_Inr_iff split: option.splits document.splits)
    then have "dj_operation j = oid" by (auto simp: check_journal_def journal_ok_def split: if_splits)
    moreover have "andthen (commit mg j) (\<lambda>j2. andthen (cleanup_artifacts mg j2) (\<lambda>_. remove_journal oid)) s1 = (r, s')"
      using run x Inr j' ph unfolding complete_def commit_def
      by (auto simp: andthen_def [of "attempt _"] attempt_def andthen_def [of "guard _ _"] guard_def)
    ultimately show ?thesis using decided o1 by blast
  qed
qed

section \<open>Completing is atomic\<close>

text \<open>C37: Suppose the journal of a published release is on disk, every original stands at its target or as its backup, and
  no link that the plan makes touches the release's files. However \<open>Complete\<close> ends, whatever fails in it: either it
  reports an error and every original is still there; or the states of all installations of the plan are recorded and
  every target is what the release makes it, and if it reports success, the journal, the stages and the backups are
  gone.\<close>

theorem complete_is_atomic:
  fixes s :: "'s dist_db_scheme"
  assumes ok: "manager_ok mg" "apart mg j" and clear: "clear_of_links mg j"
    and here: "map_of (journal_files s) oid = Some (Document j)" and ph: "dj_phase j = Phase_Published \<or> dj_phase j = Phase_Completing"
    and intact: "intact mg j orig s" and run: "complete mg oid s = (r, s')"
  shows "r \<noteq> Inr () \<and> intact mg j orig s' \<or>
    (\<exists>states. state_file s' = Some (Document states) \<and> recorded (dj_plan j) states) \<and>
    (\<forall>u \<in> set (dj_mutations j). published_at mg j s' u) \<and>
    (r = Inr () \<longrightarrow> map_of (journal_files s') oid = None \<and> cleaned mg j s')"
  using run here ph
proof (cases rule: complete_rest)
  case unread
  then have "intact mg j orig s'" using intact intact_tree [OF only_steps_tree] by blast
  with unread show ?thesis by simp
next
  case (decided s1)
  have i1: "intact mg j orig s1" using decided(1) intact intact_tree [OF only_steps_tree] by blast
  obtain x s2 where x: "commit mg j s1 = (x, s2)" by fastforce
  show ?thesis
  proof (cases x)
    case (Inl e)
    with x decided(3) have "s' = s2" "r = Inl e" by (simp_all add: andthen_def)
    with movesD [OF commit_kept [OF clear refl] x] i1 show ?thesis by (auto simp: keeps_intact_def)
  next
    case (Inr j2)
    with x have x': "commit mg j s1 = (Inr j2, s2)" by simp
    note ended = commit_Inr [OF x' clear same_paths_refl refl]
    obtain y s3 where y: "cleanup_each mg j (dj_mutations j) None s2 = (y, s3)" by fastforce
    have same: "dj_mutations j2 = dj_mutations j" using ended(1) by (simp add: same_paths_def)
    have rest: "andthen (cleanup_each mg j (dj_mutations j) None) (\<lambda>_. remove_journal oid) s2 = (r, s')"
      using decided(3) x' by (simp add: andthen_def [of "commit mg j"] cleanup_artifacts_def same cleanup_each_same [OF ended(1)])
    obtain z s4 where z: "remove_journal oid s3 = (z, s4)" by fastforce
    have cases: "s' = s3 \<and> r \<noteq> Inr () \<or> s' = s4 \<and> y = Inr () \<and> r = z"
      using rest y z by (cases y) (auto simp: andthen_def)
    note gone = remove_journal_outcome [OF z]
    note clean = cleanup_each_outcome [OF ok y order_refl]
    have "state_file s3 = state_file s2" by (rule movesD [OF ledger.cleaning_up_each y]) (simp add: ledger.places_def)
    moreover have "state_file s4 = state_file s3"
      using z by (auto simp: remove_journal_def andthen_def external_def split: if_splits)
    ultimately have state: "state_file s' = state_file s2" using cases by auto
    have "file_at q s4 = file_at q s3" for q using gone(1) by (simp add: file_at_def)
    with cases have tree: "file_at q s' = file_at q s3" for q by auto
    have "published_at mg j s' u" if u: "u \<in> set (dj_mutations j)" for u
    proof -
      have "file_at t s' = file_at t s2" if t: "mutation_paths mg j u = Inr (t, p, b)" for t p b
      proof -
        have "t \<in> all_files mg j" using u t by (force simp: all_files_def mutation_files_def)
        moreover have "t \<notin> artifacts mg j (dj_mutations j)" by (rule target_no_artifact [OF ok u t])
        ultimately show ?thesis using clean tree by simp
      qed
      with published_cong [of mg j u s' s2] ended(3) [OF u] show ?thesis by blast
    qed
    moreover have "cleaned mg j s' \<and> map_of (journal_files s') oid = None" if "r = Inr ()"
    proof -
      from that cases have ok4: "s' = s4" "y = Inr ()" "z = Inr ()" by auto
      have "file_at p s' = None \<and> file_at b s' = None" if "u \<in> set (dj_mutations j)" "mutation_paths mg j u = Inr (t, p, b)" for u t p b
      proof -
        have "{p, b} \<subseteq> all_files mg j" "{p, b} \<subseteq> artifacts mg j (dj_mutations j)"
          using that by (force simp: all_files_def mutation_files_def artifacts_def)+
        with clean ok4(2) tree show ?thesis by auto
      qed
      moreover have "map_of (journal_files s') oid = None"
        using gone(2) [OF ok4(3)] ok4(1) by (simp add: map_of_put_entry)
      ultimately show ?thesis by (auto simp: cleaned_def)
    qed
    ultimately show ?thesis using state ended(2) by auto
  qed
qed

section \<open>An example\<close>

text \<open>The release of the example after it was published, and what completing it leaves.\<close>

definition example_published :: dist_journal where
  "example_published = example_journal\<lparr>dj_phase := Phase_Published, dj_next := 1\<rparr>"

definition example_ended :: "nat \<Rightarrow> dist_journal \<Rightarrow> (string \<times> file_node) list \<Rightarrow> dist_db" where
  "example_ended n j files = (example_state n j files)\<lparr>state_file := Some (Document [])\<rparr>"

lemma example_published_ok: "of_example example_published" "dj_phase (sealed example_published) = Phase_Published"
  "dj_mutations (sealed example_published) = [example_mutation]" "dj_operation (sealed example_published) = ''release1''"
  "dn_installations (dj_plan (sealed example_published)) = []"
  by (simp_all add: of_example_def same_paths_def example_published_def sealed_def example_journal_def)

lemma example_verify:
  assumes "same_paths example_journal j"
  obtains m where "verify_published example_manager j [example_mutation] (example_state n k example_swapped) =
    (Inr (), example_state m k example_swapped)"
  using assms
  by (simp add: verify_target_def example_paths run_simps example_state_def example_mutation_def is_mod_def new_mutation_def
      example_swapped_def)

lemma example_states:
  assumes "dn_installations p = []"
  obtains m where "write_installation_states p (example_state n k files) = (Inr (), example_ended m k files)"
  using assms
  by (simp add: write_installation_states_def states_or_none_def read_states_def is_not_exist_def write_atomic_def run_simps
      example_state_def example_ended_def)

lemma example_committed:
  assumes "of_example j"
  obtains m where "enter_phase ph j (example_ended n k files) =
    (Inr (j\<lparr>dj_phase := ph, dj_updated := 0\<rparr>), example_ended m (sealed (j\<lparr>dj_phase := ph, dj_updated := 0\<rparr>)) files)"
  using of_example_simps [OF assms]
  by (simp add: enter_phase_def write_journal_def write_atomic_def run_simps example_names example_state_def example_ended_def Let_def)

lemma example_dropped:
  assumes "same_paths example_journal j"
  obtains m where "cleanup_each example_manager j [example_mutation] None (example_ended n k example_swapped) =
    (Inr (), example_ended m k [(''modoverrides.lua'', Plain 416 ''new'')])"
  using assms
  by (simp add: joined_def end_with_def join_error_def example_paths run_simps example_state_def example_ended_def Let_def upt_rec
      example_mutation_def is_mod_def new_mutation_def example_swapped_def)

lemma example_complete:
  obtains m k where "complete example_manager ''release1'' (example_state 0 (sealed example_published) example_swapped) =
    (Inr (), (example_ended m k [(''modoverrides.lua'', Plain 416 ''new'')])\<lparr>journal_files := []\<rparr>)"
proof -
  note e = example_published_ok
  let ?j = "(sealed example_published)\<lparr>dj_phase := Phase_Completing, dj_updated := 0\<rparr>"
  let ?k = "?j\<lparr>dj_phase := Phase_Committed, dj_updated := 0\<rparr>"
  have j: "of_example (sealed example_published)" "of_example ?j" "of_example ?k"
    using of_example_simps(6) [OF e(1)] by (simp_all add: of_example_simps(5))
  obtain m1 where 1: "enter_phase Phase_Completing (sealed example_published) (example_state (Suc 0) (sealed example_published) example_swapped) =
      (Inr ?j, example_state m1 (sealed ?j) example_swapped)" by (rule example_phase [OF j(1)])
  obtain m2 where 2: "verify_published example_manager ?j [example_mutation] (example_state m1 (sealed ?j) example_swapped) =
      (Inr (), example_state m2 (sealed ?j) example_swapped)" by (rule example_verify [OF of_example_simps(3) [OF j(2)]])
  have plan: "dn_installations (dj_plan ?j) = []" by (simp add: e(5))
  obtain m3 where 3: "write_installation_states (dj_plan ?j) (example_state m2 (sealed ?j) example_swapped) =
      (Inr (), example_ended m3 (sealed ?j) example_swapped)" by (rule example_states [OF plan])
  obtain m4 where 4: "enter_phase Phase_Committed ?j (example_ended m3 (sealed ?j) example_swapped) =
      (Inr ?k, example_ended m4 (sealed ?k) example_swapped)" by (rule example_committed [OF j(2)])
  obtain m5 where 5: "cleanup_each example_manager ?k [example_mutation] None (example_ended m4 (sealed ?k) example_swapped) =
      (Inr (), example_ended m5 (sealed ?k) [(''modoverrides.lua'', Plain 416 ''new'')])"
    by (rule example_dropped [OF of_example_simps(3) [OF j(3)]])
  have 6: "remove_journal ''release1'' (example_ended m5 (sealed ?k) [(''modoverrides.lua'', Plain 416 ''new'')]) =
      (Inr (), (example_ended (Suc m5) (sealed ?k) [(''modoverrides.lua'', Plain 416 ''new'')])\<lparr>journal_files := []\<rparr>)"
    by (simp add: remove_journal_def run_simps example_state_def example_ended_def)
  have "complete example_manager ''release1'' (example_state 0 (sealed example_published) example_swapped) =
      (Inr (), (example_ended (Suc m5) (sealed ?k) [(''modoverrides.lua'', Plain 416 ''new'')])\<lparr>journal_files := []\<rparr>)"
    using example_read [OF e(1), of 0 example_swapped] 1 2 3 4 5 6 e of_example_simps(1,2) [OF j(2)] of_example_simps(1,2) [OF j(3)]
    by (simp add: complete_def cleanup_artifacts_def andthen_def attempt_def guard_def
        del: cleanup_each.simps verify_published.simps)
  then show ?thesis by (rule that)
qed

theorem complete_is_atomic_witness:
  "\<exists>s'. complete example_manager ''release1'' (example_state 0 (sealed example_published) example_swapped) = (Inr (), s') \<and>
    published_at example_manager (sealed example_published) s' example_mutation \<and>
    map_of (journal_files s') ''release1'' = None \<and> cleaned example_manager (sealed example_published) s'"
proof -
  let ?j = "sealed example_published"
  let ?s = "example_state 0 ?j example_swapped"
  let ?orig = "\<lambda>_. Some (Plain 420 ''old'')"
  note e = example_published_ok
  obtain m k where run: "complete example_manager ''release1'' ?s =
      (Inr (), (example_ended m k [(''modoverrides.lua'', Plain 416 ''new'')])\<lparr>journal_files := []\<rparr>)"
    by (rule example_complete)
  note paths = example_paths [OF refl refl of_example_simps(3) [OF of_example_simps(6) [OF e(1)]]]
  have "manager_ok example_manager" by (simp add: manager_ok_def example_manager_def)
  moreover have "apart example_manager ?j" by (simp add: apart_def e(3))
  moreover have "clear_of_links example_manager ?j" by (simp add: clear_of_links_def link_paths_def e(5))
  moreover have "map_of (journal_files ?s) ''release1'' = Some (Document ?j)" by (simp add: example_state_def)
  moreover have "intact example_manager ?j ?orig ?s"
    by (simp add: intact_def e(3) paths file_at_def example_state_def example_swapped_def)
       (simp add: example_mutation_def new_mutation_def)
  ultimately show ?thesis
    using complete_is_atomic [OF _ _ _ _ _ _ run, of ?j ?orig] run e(2,3) by auto
qed

end
