(* ===== verification/Spec2Isabelle.thy ===== *)
theory Spec2Isabelle
  imports Operation_Lease Port_Allocator Install_Gate Job_Runs Steam_VDF Mod_Recovery Dist_Unchanged Dist_Complete
begin

text \<open>
  A model of the control plane of dst-admin-go, a panel that runs Don't Starve Together servers, in the parts where
  it decides who may change what, in which order, and what happens when a step fails. All paths are under
  \<open>src/internal\<close>.

  \<^bold>\<open>The program and its theories.\<close> A request to the panel becomes a \<^emph>\<open>job\<close>. While it runs, it holds the
  \<^emph>\<open>lease\<close> of the room it changes and, for an installation of the game, a place in the \<^emph>\<open>maintenance gate\<close>; a server
  that starts needs \<^emph>\<open>UDP ports\<close>. The most involved job publishes mods: a \<^emph>\<open>plan\<close> is previewed, then carried out on
  every runtime as a two-phase commit, recorded in two stores, and followed by the restart of the worlds.

    \<^item> \<open>Prelude\<close>, \<open>Go_Strings\<close>, \<open>Go_Encoding\<close>, \<open>Lifecycle\<close>: the actions every component is written in, Go's
      \<open>strings\<close>, \<open>encoding/json\<close>, \<open>crypto/sha256\<close> and \<open>time\<close> as far as the code uses them, and statuses that only
      move forward.
    \<^item> \<open>Operation_Lease\<close> models \<open>operationlease/service.go\<close>: a lease per room with a fencing token.
    \<^item> \<open>Port_Allocator\<close> models \<open>topology/resources_allocator.go\<close> and the tables it uses in
      \<open>resources_store.go\<close>: first-fit ports, and reservations that are granted, active, releasing or released.
    \<^item> \<open>Install_Gate\<close> models \<open>installationmaintenance/gate.go\<close>: shared and exclusive reservations of an
      installation.
    \<^item> \<open>Job_Types\<close>, \<open>Job_Store\<close>, \<open>Job_Laws\<close>, \<open>Job_Properties\<close> model \<open>jobs/store.go\<close>: jobs, their targets and their
      events. \<open>Job_Service\<close>, \<open>Job_Runs\<close> model \<open>jobs/service.go\<close> and \<open>broker.go\<close>: what runs in memory.
    \<^item> \<open>Steam_VDF\<close> models \<open>steamvdf/keyvalues.go\<close>: the text format of Steam's configuration.
    \<^item> \<open>Mod_Types\<close> to \<open>Mod_Coordinator\<close> model \<open>modpublication\<close>: the records (\<open>types.go\<close>), the plan's hash and its
      checks and the preview (\<open>planner.go\<close>), the publications (\<open>store.go\<close>), the replicas (\<open>replicas.go\<close>), the
      leases and the calls of a runtime (\<open>modcontrol/adapters.go\<close>, \<open>interfaces.go\<close>), the restarts
      (\<open>activation.go\<close>), the transaction and what recovers it after a crash (\<open>coordinator.go\<close>, \<open>transaction.go\<close>,
      \<open>recovery.go\<close>). \<open>Mod_Journal\<close>, \<open>Mod_Protocol\<close>, \<open>Mod_Steady\<close>, \<open>Mod_Progress\<close> and \<open>Mod_Recovery\<close> hold what is
      proved of the protocol: which calls an operation may make and which tables it leaves alone; the order of the
      phases; what the stores do while nothing fails; that a publication gets through; what recovery does.
    \<^item> \<open>Go_Files\<close> models what the agent's code uses of Go's \<open>os\<close> and \<open>path/filepath\<close>: a tree of files and directories
      and the system calls on it. \<open>Dist_Types\<close>, \<open>Dist_Setup\<close>, \<open>Dist_Manifest\<close>, \<open>Dist_Cache\<close>, \<open>Dist_Plan\<close>, \<open>Dist_Publisher\<close> and
      \<open>Dist_Operations\<close> model \<open>moddistribution\<close>, the half of a mod publication that runs on a game host: the data
      (\<open>types.go\<close>), the two files the program manages (\<open>setup.go\<close>, \<open>workshop_manifest.go\<close>), the cached mods
      (\<open>cache.go\<close>), the plan (\<open>manager.go\<close>), the journal (\<open>journal.go\<close>), and \<open>Prepare\<close>, \<open>Publish\<close>, \<open>Complete\<close>, \<open>Rollback\<close>,
      \<open>Apply\<close> and \<open>Recover\<close> (\<open>publisher.go\<close>, \<open>local_files.go\<close>). \<open>Dist_Frame\<close> and \<open>Dist_Slots\<close> hold which paths each call may
      change; \<open>Dist_Machine\<close> the abstract machine of one changed file, its target, stage and backup, and \<open>Dist_Rollback\<close>
      that the publisher runs it; \<open>Dist_Safety\<close>, \<open>Dist_Release\<close>, \<open>Dist_Prepare\<close>, \<open>Dist_Reversal\<close> and \<open>Dist_Promise\<close> what follows
      for a whole release; \<open>Dist_Complete\<close> its end, and \<open>Dist_Unchanged\<close> the release that changes nothing.

  \<^bold>\<open>How code becomes definitions.\<close> A struct is a record, an enumeration a datatype, a table the list of its rows in
  the order of insertion. A method that may fail and changes state is an \<open>act\<close>: a function from the state to an
  error or a value, and the state afterwards; \<open>andthen\<close> is \<open>if err != nil { return err }\<close>, \<open>attempt\<close> looks at the
  error and goes on, \<open>transaction\<close> is a database transaction that rolls back. The record \<open>env\<close>
  supplies what the code cannot decide: by the number of the step, whether a call fails, whether the context is
  cancelled, the time, a fresh identifier. Every theorem holds for all of them, so for every pattern of failures; a
  crash is a script in which everything fails from some step on. Errors are values of a datatype of the component.
  On a game host the state is the file tree; the journals, the file of states and the cache, which the agent keeps in
  directories of its own, are stores beside it, in which a file holds what decoding it yields.
  Identifiers, tokens and texts are byte strings; the fencing token is a 64-bit word; times are nanoseconds.

  \<^bold>\<open>What the lemmas show.\<close>
    \<^item> Leases refine a map from rooms to lease holders (\<open>acquire_refines_spec\<close>); a live lease is not stolen, a
      superseded one is never valid again, a free one is granted.
    \<^item> Two live port reservations of a node never collide, whatever sequence of the allocator's calls made them; a
      reservation moves forward through its states, also when inspections that do not name it rebuild the table
      in between (\<open>port_step\<close>); a failed call changes nothing.
    \<^item> The gate excludes maintenance from use and leaks nothing when every reservation is released.
    \<^item> A job's status never goes back and only retention removes a job, one that has ended, in any run of the store's
      calls (\<open>store_call\<close>); its log of events has no gaps, the verdict, its error and its message agree with its targets;
      recovery ends exactly the unfinished jobs and targets; pruning keeps what is still running; a paused service
      starts nothing.
    \<^item> What the KeyValues writer writes the parser reads back; the parser stops within its token and depth limits.
    \<^item> \<open>validatePlan\<close> accepts exactly the well-formed plans (\<open>plan_check_iff\<close>), and a preview yields one.
    \<^item> In a mod publication no runtime publishes before every runtime has prepared, none completes before every one
      has published, and completion excludes rollback (\<open>two_phase_commit\<close>); what nothing disturbs succeeds after exactly
      those calls (\<open>undisturbed_publication_succeeds\<close>, for the manual activation policy). Recovery obeys the stored
      decision, reports what it did, and brings an interrupted publication of that policy to its end. \<open>save_failure_rolls_nothing_back\<close> shows a defect: when a save
      fails in \<open>Publish\<close>, the rollback that follows reaches no target.
    \<^item> On a game host, what stood at a target before a release can be put back until \<open>Complete\<close>, through any sequence
      of calls and failures, and a rollback that reports success has put it back (\<open>prepared_release_is_reversible\<close>; from
      any journal on disk, \<open>unfinished_release_is_reversible\<close>). The proof goes through the machine \<open>slot_step\<close>: each call of
      the publisher makes steps of it (\<open>runs\<close>), and \<open>holds\<close>, that the original is at the target or in the backup, is an
      invariant of them. \<open>Complete\<close> either fails with every original in place or has recorded and checked the whole
      release before it drops them (\<open>complete_is_atomic\<close>). \<open>unchanged_release_blocks\<close> shows a defect: a release that changes no file cannot be ended.
      Composing the managed setup file keeps what the operator wrote around the block, and composing it twice changes
      nothing more; a composed manifest passes the check of the inventory for exactly the mods it lists.

  The interfaces are locales: those of \<open>Lifecycle\<close>, which several components share, and \<open>step_relation\<close> with its extensions
  \<open>quiet\<close>, \<open>journaled\<close>, \<open>calling\<close> and \<open>publishing\<close>, and \<open>file_relation\<close> with \<open>dist_relation\<close> and \<open>dist_books\<close>, which collect what a relation on states must ignore for a group of
  operations to keep it. Each is interpreted on the model's own state; \<open>file_relation\<close>, which takes the paths a call may
  change, as \<open>reads\<close>, \<open>elsewhere\<close>, \<open>kept\<close>, \<open>books\<close> and \<open>pend\<close>.

  \<^bold>\<open>Bounds and fuel.\<close> Loops over data are structural or have a measure. \<open>acquire\<close> makes the code's three attempts.
  \<open>confirm_polls\<close>, the wait for a world to load, takes the number of polls its deadline allows from the environment.

  \<^bold>\<open>Not modelled.\<close> On a game host, symbolic links are not followed (the code refuses every path with one), and what
  permissions forbid is among the calls that may fail; the import of a mod into the cache, its export as a tar
  archive and the observation of installed files are left out. HTTP and WebSocket handlers, the agents' transport,
  process control, network access and the game's other files: they do input and output around the operations above,
  which see them as calls that answer or fail. The creation of the database tables. Packages that only keep or query rows without rules of
  their own. Goroutines are sequences of calls: a mutex makes each modelled operation one step, and where the rest of
  the program may act in between, the theorem says so.
\<close>

end
